(* ===== verification/Prelude.thy ===== *)
theory Prelude
  imports Main "HOL-Library.AList" "HOL-Library.Multiset" "HOL-Library.Sublist"
begin

text \<open>
  The generic layer of the development: the parts of the JavaScript library that every
  component of the program uses, with the lemmas the component theories share.

  \<^item> A JavaScript \<open>Map\<close> iterates in insertion order; writing an existing key keeps its
    place, writing a new key appends it.  It is an association list with
    \<open>AList.update\<close> / \<open>AList.delete\<close> / \<open>map_of\<close>.
  \<^item> A \<open>Set\<close> is a duplicate-free list in insertion order (\<open>set_add\<close>).
  \<^item> \<open>Array.prototype.sort\<close> is stable and takes a comparator that returns a number:
    \<open>js_sort\<close>.
  \<^item> \<open>===\<close>, \<open><\<close> on strings compare code units: \<open>code_unit_compare\<close>.

  The locales state the contracts the components rely on: \<open>comparator\<close> and
  \<open>signed_comparator\<close> (what a sort comparator must satisfy) and \<open>keyed_store\<close> (what a \<open>Map\<close> promises its clients).
\<close>

named_theorems js_map_simps
named_theorems js_sort_simps

section \<open>Insertion-ordered sets\<close>

definition set_add :: "'a \<Rightarrow> 'a list \<Rightarrow> 'a list" where
  "set_add x xs = (if x \<in> set xs then xs else xs @ [x])"

definition js_uniq :: "'a list \<Rightarrow> 'a list" where
  "js_uniq xs = fold set_add xs []"

lemma set_set_add [simp]: "set (set_add x xs) = insert x (set xs)"
  by (auto simp: set_add_def)

lemma distinct_set_add [simp]: "distinct (set_add x xs) = distinct xs"
  by (auto simp: set_add_def)

lemma set_fold_set_add: "set (fold set_add xs acc) = set acc \<union> set xs"
  by (induction xs arbitrary: acc) auto

lemma distinct_fold_set_add: "distinct (fold set_add xs acc) = distinct acc"
  by (induction xs arbitrary: acc) auto

lemma set_js_uniq [simp]: "set (js_uniq xs) = set xs"
  by (simp add: js_uniq_def set_fold_set_add)

lemma distinct_js_uniq [simp]: "distinct (js_uniq xs)"
  by (simp add: js_uniq_def distinct_fold_set_add)

lemma fold_set_add_prefix: "distinct (acc @ xs) \<Longrightarrow> fold set_add xs acc = acc @ xs"
proof (induction xs arbitrary: acc)
  case Nil
  then show ?case by simp
next
  case (Cons x xs)
  then have "x \<notin> set acc" and "distinct ((acc @ [x]) @ xs)"
    by auto
  with Cons.IH [of "acc @ [x]"] show ?case
    by (simp add: set_add_def)
qed

lemma js_uniq_distinct [simp]: "distinct xs \<Longrightarrow> js_uniq xs = xs"
  by (simp add: js_uniq_def fold_set_add_prefix)

section \<open>Sorting with a comparator\<close>

fun js_insert :: "('a \<Rightarrow> 'a \<Rightarrow> int) \<Rightarrow> 'a \<Rightarrow> 'a list \<Rightarrow> 'a list" where
  "js_insert c x [] = [x]"
| "js_insert c x (y # ys) = (if c x y \<le> 0 then x # y # ys else y # js_insert c x ys)"

definition js_sort :: "('a \<Rightarrow> 'a \<Rightarrow> int) \<Rightarrow> 'a list \<Rightarrow> 'a list" where
  "js_sort c xs = foldr (js_insert c) xs []"

lemma js_sort_Nil [simp]: "js_sort c [] = []"
  and js_sort_Cons [simp]: "js_sort c (x # xs) = js_insert c x (js_sort c xs)"
  by (simp_all add: js_sort_def)

lemma mset_js_insert [js_sort_simps]: "mset (js_insert c x xs) = add_mset x (mset xs)"
  by (induction xs) auto

lemma mset_js_sort [simp]: "mset (js_sort c xs) = mset xs"
  by (induction xs) (auto simp: js_sort_simps)

lemma set_js_sort [simp]: "set (js_sort c xs) = set xs"
  by (rule mset_eq_setD) simp

lemma length_js_sort [simp]: "length (js_sort c xs) = length xs"
  by (rule mset_eq_length) simp

lemma distinct_js_sort [simp]: "distinct (js_sort c xs) = distinct xs"
  by (rule mset_eq_imp_distinct_iff) simp

lemma js_sort_eq_Nil [simp]: "js_sort c xs = [] \<longleftrightarrow> xs = []"
  by (metis length_0_conv length_js_sort)

lemma set_js_insert [simp]: "set (js_insert c x xs) = insert x (set xs)"
  by (induction xs) auto

text \<open>
  What \<open>Array.prototype.sort\<close> asks of its comparator, and what a sort then returns: a
  permutation, in order, with the elements that compare equal in their old order.
\<close>

locale comparator =
  fixes cmp :: "'a \<Rightarrow> 'a \<Rightarrow> int"
  assumes cmp_swap: "cmp x y \<le> 0 \<or> cmp y x \<le> 0"
    and cmp_trans: "cmp x y \<le> 0 \<Longrightarrow> cmp y z \<le> 0 \<Longrightarrow> cmp x z \<le> 0"
begin

lemma sorted_js_insert:
  "sorted_wrt (\<lambda>a b. cmp a b \<le> 0) xs \<Longrightarrow> sorted_wrt (\<lambda>a b. cmp a b \<le> 0) (js_insert cmp x xs)"
proof (induction xs)
  case Nil
  then show ?case by simp
next
  case (Cons y ys)
  show ?case
  proof (cases "cmp x y \<le> 0")
    case True
    with Cons.prems show ?thesis by (auto intro: cmp_trans)
  next
    case False
    then have "cmp y x \<le> 0" using cmp_swap [of x y] by auto
    with Cons False show ?thesis by auto
  qed
qed

lemma sorted_js_sort: "sorted_wrt (\<lambda>a b. cmp a b \<le> 0) (js_sort cmp xs)"
  by (induction xs) (auto intro: sorted_js_insert)

lemma sorted_nth_js_sort:
  "i < j \<Longrightarrow> j < length xs \<Longrightarrow> cmp (js_sort cmp xs ! i) (js_sort cmp xs ! j) \<le> 0"
  using sorted_js_sort [of xs] by (simp add: sorted_wrt_iff_nth_less)

text \<open>What a cut after \<open>n\<close> elements keeps is not above what it drops.\<close>

lemma js_sort_cut:
  assumes "x \<in> set (take n (js_sort cmp xs))" "y \<in> set (drop n (js_sort cmp xs))"
  shows "cmp x y \<le> 0"
proof -
  have "sorted_wrt (\<lambda>a b. cmp a b \<le> 0) (take n (js_sort cmp xs) @ drop n (js_sort cmp xs))"
    using sorted_js_sort [of xs] by simp
  then show ?thesis using assms by (simp only: sorted_wrt_append)
qed

lemma hd_js_sort_least:
  assumes "x \<in> set xs"
  shows "cmp (hd (js_sort cmp xs)) x \<le> 0"
proof -
  obtain y ys where s: "js_sort cmp xs = y # ys"
    using assms by (metis js_sort_eq_Nil list.exhaust list.set_cases list.distinct(1))
  have "x \<in> set (js_sort cmp xs)" using assms by simp
  moreover have "cmp y y \<le> 0" using cmp_swap by blast
  ultimately show ?thesis
    using sorted_js_sort [of xs] s by auto
qed

end

text \<open>\<open>c1 || c2\<close> of two comparator results; such a chain needs the first comparator to return
  zero exactly on ties.\<close>

definition cmp_or :: "int \<Rightarrow> int \<Rightarrow> int" where
  "cmp_or a b = (if a \<noteq> 0 then a else b)"

locale signed_comparator = comparator +
  assumes cmp_sign: "cmp x y \<le> 0 \<longleftrightarrow> 0 \<le> cmp y x"
begin

lemma cmp_pos: "cmp x y > 0 \<longleftrightarrow> cmp y x < 0"
  using cmp_sign [of x y] by auto

lemma cmp_refl: "cmp x x = 0"
  using cmp_sign [of x x] cmp_swap [of x x] by simp

end

lemma signed_comparator_or:
  assumes c: "signed_comparator c" and d: "signed_comparator d"
  shows "signed_comparator (\<lambda>x y. cmp_or (c x y) (d x y))"
proof -
  have swap: "c x y \<le> 0 \<or> c y x \<le> 0" and tie: "c x y \<le> 0 \<longleftrightarrow> 0 \<le> c y x"
    and trans: "c x y \<le> 0 \<Longrightarrow> c y z \<le> 0 \<Longrightarrow> c x z \<le> 0" for x y z
    by (rule comparator.cmp_swap [OF signed_comparator.axioms(1) [OF c]] signed_comparator.cmp_sign [OF c]
          comparator.cmp_trans [OF signed_comparator.axioms(1) [OF c]]; assumption?)+
  have swap': "d x y \<le> 0 \<or> d y x \<le> 0" and tie': "d x y \<le> 0 \<longleftrightarrow> 0 \<le> d y x"
    and trans': "d x y \<le> 0 \<Longrightarrow> d y z \<le> 0 \<Longrightarrow> d x z \<le> 0" for x y z
    by (rule comparator.cmp_swap [OF signed_comparator.axioms(1) [OF d]] signed_comparator.cmp_sign [OF d]
          comparator.cmp_trans [OF signed_comparator.axioms(1) [OF d]]; assumption?)+
  have le: "cmp_or (c x y) (d x y) \<le> 0 \<longleftrightarrow> c x y \<le> 0 \<and> (c y x \<le> 0 \<longrightarrow> d x y \<le> 0)" for x y
    using tie [of x y] tie [of y x] by (auto simp: cmp_or_def)
  show ?thesis
  proof
    show "cmp_or (c x y) (d x y) \<le> 0 \<or> cmp_or (c y x) (d y x) \<le> 0" for x y
      unfolding le using swap [of x y] swap' [of x y] by blast
    show "cmp_or (c x y) (d x y) \<le> 0 \<Longrightarrow> cmp_or (c y z) (d y z) \<le> 0 \<Longrightarrow> cmp_or (c x z) (d x z) \<le> 0" for x y z
      unfolding le using trans trans' by blast
    show "cmp_or (c x y) (d x y) \<le> 0 \<longleftrightarrow> 0 \<le> cmp_or (c y x) (d y x)" for x y
      unfolding le using tie [of x y] tie [of y x] tie' [of x y] by (auto simp: cmp_or_def)
  qed
qed

lemma signed_comparator_comap:
  assumes c: "signed_comparator c"
  shows "signed_comparator (\<lambda>x y. c (f x) (f y))"
proof
  note base = signed_comparator.axioms(1) [OF c]
  show "c (f x) (f y) \<le> 0 \<or> c (f y) (f x) \<le> 0" for x y by (rule comparator.cmp_swap [OF base])
  show "c (f x) (f y) \<le> 0 \<Longrightarrow> c (f y) (f z) \<le> 0 \<Longrightarrow> c (f x) (f z) \<le> 0" for x y z
    by (rule comparator.cmp_trans [OF base])
  show "c (f x) (f y) \<le> 0 \<longleftrightarrow> 0 \<le> c (f y) (f x)" for x y by (rule signed_comparator.cmp_sign [OF c])
qed

lemma signed_comparator_reverse:
  assumes c: "signed_comparator c"
  shows "signed_comparator (\<lambda>x y. c y x)"
proof
  note base = signed_comparator.axioms(1) [OF c]
  show "c y x \<le> 0 \<or> c x y \<le> 0" for x y by (rule comparator.cmp_swap [OF base])
  show "c y x \<le> 0 \<Longrightarrow> c z y \<le> 0 \<Longrightarrow> c z x \<le> 0" for x y z
    using comparator.cmp_trans [OF base, of z y x] by blast
  show "c y x \<le> 0 \<longleftrightarrow> 0 \<le> c x y" for x y by (rule signed_comparator.cmp_sign [OF c])
qed

lemma cmp_or_le_0: "cmp_or a b \<le> 0 \<Longrightarrow> a \<le> 0"
  by (auto simp: cmp_or_def split: if_splits)

text \<open>String comparison by code units: \<open>a < b\<close> in JavaScript.\<close>

fun code_unit_compare :: "string \<Rightarrow> string \<Rightarrow> int" where
  "code_unit_compare [] [] = 0"
| "code_unit_compare [] (_ # _) = -1"
| "code_unit_compare (_ # _) [] = 1"
| "code_unit_compare (x # xs) (y # ys) =
     (if (of_char x :: nat) < of_char y then -1
      else if (of_char y :: nat) < of_char x then 1
      else code_unit_compare xs ys)"

lemma code_unit_compare_sym: "code_unit_compare a b = - code_unit_compare b a"
  by (induction a b rule: code_unit_compare.induct) auto

lemma code_unit_compare_eq_0 [simp]: "code_unit_compare a b = 0 \<longleftrightarrow> a = b"
  by (induction a b rule: code_unit_compare.induct) auto

lemma code_unit_compare_trans:
  "code_unit_compare a b \<le> 0 \<Longrightarrow> code_unit_compare b c \<le> 0 \<Longrightarrow> code_unit_compare a c \<le> 0"
proof (induction a b arbitrary: c rule: code_unit_compare.induct)
  case 1
  then show ?case by simp
next
  case (2 y ys)
  then show ?case by (cases c) auto
next
  case (3 x xs)
  then show ?case by simp
next
  case (4 x xs y ys)
  show ?case
  proof (cases c)
    case Nil
    with "4.prems" show ?thesis by simp
  next
    case (Cons z zs)
    let ?x = "of_char x :: nat" and ?y = "of_char y :: nat" and ?z = "of_char z :: nat"
    have xy: "?x < ?y \<or> ?x = ?y \<and> code_unit_compare xs ys \<le> 0"
      using "4.prems"(1) by (cases ?x ?y rule: linorder_cases) simp_all
    have yz: "?y < ?z \<or> ?y = ?z \<and> code_unit_compare ys zs \<le> 0"
      using "4.prems"(2) Cons by (cases ?y ?z rule: linorder_cases) simp_all
    show ?thesis
    proof (cases "?x = ?y \<and> ?y = ?z")
      case True
      then have "code_unit_compare xs zs \<le> 0"
        using "4.IH" xy yz by simp
      with True Cons show ?thesis by simp
    next
      case False
      with xy yz have "?x < ?z" by linarith
      with Cons show ?thesis by simp
    qed
  qed
qed

interpretation code_units: signed_comparator code_unit_compare
proof
  fix a b c :: string
  show "code_unit_compare a b \<le> 0 \<or> code_unit_compare b a \<le> 0"
    using code_unit_compare_sym [of a b] by linarith
  show "code_unit_compare a b \<le> 0 \<Longrightarrow> code_unit_compare b c \<le> 0 \<Longrightarrow> code_unit_compare a c \<le> 0"
    by (rule code_unit_compare_trans)
  show "code_unit_compare a b \<le> 0 \<longleftrightarrow> 0 \<le> code_unit_compare b a"
    using code_unit_compare_sym [of a b] by linarith
qed

section \<open>Insertion-ordered maps\<close>

type_synonym ('k, 'v) js_map = "('k \<times> 'v) list"

abbreviation js_get :: "('k, 'v) js_map \<Rightarrow> 'k \<Rightarrow> 'v option" where
  "js_get m k \<equiv> map_of m k"

abbreviation js_set :: "'k \<Rightarrow> 'v \<Rightarrow> ('k, 'v) js_map \<Rightarrow> ('k, 'v) js_map" where
  "js_set k v m \<equiv> AList.update k v m"

abbreviation js_delete :: "'k \<Rightarrow> ('k, 'v) js_map \<Rightarrow> ('k, 'v) js_map" where
  "js_delete k m \<equiv> AList.delete k m"

abbreviation js_keys :: "('k, 'v) js_map \<Rightarrow> 'k list" where
  "js_keys m \<equiv> map fst m"

definition js_has :: "('k, 'v) js_map \<Rightarrow> 'k \<Rightarrow> bool" where
  "js_has m k = (js_get m k \<noteq> None)"

text \<open>\<open>m.get(k) ?? d\<close>\<close>

definition js_get_or :: "('k, 'v) js_map \<Rightarrow> 'k \<Rightarrow> 'v \<Rightarrow> 'v" where
  "js_get_or m k d = (case js_get m k of Some v \<Rightarrow> v | None \<Rightarrow> d)"

lemma js_get_set [js_map_simps]: "js_get (js_set k v m) k' = (if k' = k then Some v else js_get m k')"
  by (simp add: update_conv)

lemma js_get_delete [js_map_simps]: "js_get (js_delete k m) k' = (if k' = k then None else js_get m k')"
  by (simp add: delete_conv)

lemma js_keys_set [js_map_simps]:
  "js_keys (js_set k v m) = (if k \<in> set (js_keys m) then js_keys m else js_keys m @ [k])"
  by (simp add: update_keys)

lemma js_keys_delete [js_map_simps]: "js_keys (js_delete k m) = filter (\<lambda>x. x \<noteq> k) (js_keys m)"
  by (induction m) auto

lemma js_dom_set [js_map_simps]: "fst ` set (js_set k v m) = insert k (fst ` set m)"
  by (simp add: dom_update)

lemma js_dom_delete [js_map_simps]: "fst ` set (js_delete k m) = fst ` set m - {k}"
  by (induction m) auto

lemma js_has_keys: "js_has m k \<longleftrightarrow> k \<in> set (js_keys m)"
  by (simp add: js_has_def map_of_eq_None_iff)

lemma js_get_or_set [js_map_simps]: "js_get_or (js_set k v m) k' d = (if k' = k then v else js_get_or m k' d)"
  by (simp add: js_get_or_def js_map_simps)

lemma js_has_set [js_map_simps]: "js_has (js_set k v m) k' \<longleftrightarrow> k' = k \<or> js_has m k'"
  by (simp add: js_has_def js_map_simps)

lemma js_get_key: "js_get m k = Some v \<Longrightarrow> k \<in> fst ` set m"
  by (metis domI dom_map_of_conv_image_fst)

lemma js_get_no_key: "k \<notin> fst ` set m \<Longrightarrow> js_get m k = None"
  by (simp add: map_of_eq_None_iff)

text \<open>The contract of a \<open>Map\<close>, as its clients use it.\<close>

locale keyed_store =
  fixes get :: "'m \<Rightarrow> 'k \<Rightarrow> 'v option"
    and put :: "'k \<Rightarrow> 'v \<Rightarrow> 'm \<Rightarrow> 'm"
    and del :: "'k \<Rightarrow> 'm \<Rightarrow> 'm"
    and keys :: "'m \<Rightarrow> 'k list"
  assumes get_put: "get (put k v m) k' = (if k' = k then Some v else get m k')"
    and get_del: "get (del k m) k' = (if k' = k then None else get m k')"
    and keys_put: "keys (put k v m) = (if k \<in> set (keys m) then keys m else keys m @ [k])"
    and keys_del: "keys (del k m) = filter (\<lambda>x. x \<noteq> k) (keys m)"
    and get_keys: "get m k \<noteq> None \<longleftrightarrow> k \<in> set (keys m)"
begin

lemma keys_touch: "keys (put k v (del k m)) = filter (\<lambda>x. x \<noteq> k) (keys m) @ [k]"
  by (simp add: keys_put keys_del)

lemma get_touch: "get (put k v (del k m)) k' = (if k' = k then Some v else get m k')"
  by (simp add: get_put get_del)

lemma distinct_put: "distinct (keys m) \<Longrightarrow> distinct (keys (put k v m))"
  by (simp add: keys_put)

lemma distinct_del: "distinct (keys m) \<Longrightarrow> distinct (keys (del k m))"
  by (simp add: keys_del)

lemma distinct_touch: "distinct (keys m) \<Longrightarrow> distinct (keys (put k v (del k m)))"
  by (simp add: keys_touch)

lemma length_touch: "length (keys (put k v (del k m))) \<le> Suc (length (keys m))"
  by (simp add: keys_touch)

lemma length_put: "length (keys (put k v m)) \<le> Suc (length (keys m))"
  by (simp add: keys_put)

lemma length_del_hd:
  "distinct (keys m) \<Longrightarrow> keys m = k # ks \<Longrightarrow> keys (del k m) = ks"
  by (auto simp: keys_del filter_id_conv)

end

interpretation js_maps: keyed_store map_of AList.update AList.delete "map fst"
  by unfold_locales (auto simp: js_map_simps map_of_eq_None_iff)

text \<open>A map under a key that is not there, and without one that is.\<close>

lemma js_set_fresh: "k \<notin> set (js_keys m) \<Longrightarrow> js_set k v m = m @ [(k, v)]"
  by (induction m) auto

lemma mset_js_delete: "distinct (js_keys m) \<Longrightarrow> js_get m k = Some v \<Longrightarrow> mset m = add_mset (k, v) (mset (js_delete k m))"
proof (induction m)
  case Nil
  then show ?case by simp
next
  case (Cons p m)
  show ?case
  proof (cases "fst p = k")
    case True
    then have "k \<notin> set (js_keys m)" using Cons.prems(1) by auto
    then have "js_delete k m = m" by (simp add: delete_conv)
    moreover have "p = (k, v)" using True Cons.prems(2) by (cases p) simp
    ultimately show ?thesis using True by (simp add: AList.delete_eq)
  next
    case False
    then show ?thesis using Cons by (cases p) (simp add: AList.delete_eq)
  qed
qed

lemma js_delete_fresh: "k \<notin> set (js_keys m) \<Longrightarrow> js_delete k m = m"
  by (simp add: delete_conv)

section \<open>Lists and options\<close>

text \<open>\<open>x ?? d\<close>\<close>

definition option_or :: "'a option \<Rightarrow> 'a \<Rightarrow> 'a" where
  "option_or x d = (case x of None \<Rightarrow> d | Some v \<Rightarrow> v)"

lemma find_append: "List.find P (xs @ ys) = (case List.find P xs of None \<Rightarrow> List.find P ys | Some x \<Rightarrow> Some x)"
  by (induction xs) auto

lemma find_cong_set: "(\<And>x. x \<in> set xs \<Longrightarrow> P x = Q x) \<Longrightarrow> List.find P xs = List.find Q xs"
  by (induction xs) auto


fun find_index :: "('a \<Rightarrow> bool) \<Rightarrow> 'a list \<Rightarrow> nat option" where
  "find_index p [] = None"
| "find_index p (x # xs) = (if p x then Some 0 else map_option Suc (find_index p xs))"

lemma find_index_Some:
  "find_index p xs = Some i \<Longrightarrow> i < length xs \<and> p (xs ! i) \<and> (\<forall>j<i. \<not> p (xs ! j))"
proof (induction xs arbitrary: i)
  case Nil
  then show ?case by simp
next
  case (Cons x xs)
  then show ?case
    by (cases i) (auto split: if_splits simp: nth_Cons split: nat.splits)
qed

lemma find_index_None: "find_index p xs = None \<longleftrightarrow> (\<forall>x\<in>set xs. \<not> p x)"
  by (induction xs) auto

lemma find_SomeD: "List.find p xs = Some x \<Longrightarrow> x \<in> set xs \<and> p x"
  by (induction xs) (auto split: if_splits)

lemma find_NoneD: "List.find p xs = None \<Longrightarrow> x \<in> set xs \<Longrightarrow> \<not> p x"
  by (induction xs) (auto split: if_splits)

lemma fold_fold_concat: "fold (\<lambda>x. fold g (h x)) xs s = fold g (concat (map h xs)) s"
  by (induction xs arbitrary: s) simp_all

text \<open>A loop whose body may not return.\<close>

fun fold_option :: "('a \<Rightarrow> 's \<Rightarrow> 's option) \<Rightarrow> 'a list \<Rightarrow> 's \<Rightarrow> 's option" where
  "fold_option f [] s = Some s"
| "fold_option f (x # xs) s = (case f x s of None \<Rightarrow> None | Some s' \<Rightarrow> fold_option f xs s')"

lemma fold_option_inv:
  assumes "P [] s" "\<And>ys x s. P ys s \<Longrightarrow> x \<in> set xs \<Longrightarrow> \<exists>s'. f x s = Some s' \<and> P (ys @ [x]) s'"
  shows "\<exists>s'. fold_option f xs s = Some s' \<and> P xs s'"
proof -
  have "P ys s \<Longrightarrow> set zs \<subseteq> set xs \<Longrightarrow> \<exists>s'. fold_option f zs s = Some s' \<and> P (ys @ zs) s'" for ys zs s
  proof (induction zs arbitrary: ys s)
    case Nil
    then show ?case by simp
  next
    case (Cons z zs)
    then obtain s1 where "f z s = Some s1" "P (ys @ [z]) s1" using assms(2) by force
    with Cons.IH [of "ys @ [z]" s1] Cons.prems show ?case by simp
  qed
  from this [of "[]" s xs] assms(1) show ?thesis by simp
qed

text \<open>All pairs \<open>(xs[i], xs[j])\<close> with \<open>i < j\<close>, in the order of two nested index loops.\<close>

fun index_pairs :: "'a list \<Rightarrow> ('a \<times> 'a) list" where
  "index_pairs [] = []"
| "index_pairs (x # xs) = map (Pair x) xs @ index_pairs xs"

lemma index_pairs_mem: "(a, b) \<in> set (index_pairs xs) \<Longrightarrow> a \<in> set xs \<and> b \<in> set xs"
  by (induction xs) auto

lemma index_pairs_total:
  "a \<in> set xs \<Longrightarrow> b \<in> set xs \<Longrightarrow> a \<noteq> b \<Longrightarrow> (a, b) \<in> set (index_pairs xs) \<or> (b, a) \<in> set (index_pairs xs)"
  by (induction xs) auto

lemma index_pairs_neq: "distinct xs \<Longrightarrow> (a, b) \<in> set (index_pairs xs) \<Longrightarrow> a \<noteq> b"
  by (induction xs) auto

end
