(* ===== verification/Js_String.thy ===== *)
theory Js_String
  imports Prelude
begin

text \<open>
  The string methods the program uses, on strings of code units below 256 (the Latin-1 part
  of JavaScript's UTF-16 strings).  \<open>startsWith\<close> is \<open>prefix\<close>, \<open>endsWith\<close> is \<open>suffix\<close> and
  \<open>includes\<close> is \<open>sublist\<close> of \<open>HOL-Library.Sublist\<close>; the others are defined here.
\<close>

abbreviation slash :: char where "slash \<equiv> CHR 0x2F"
abbreviation backslash :: char where "backslash \<equiv> CHR 0x5C"
abbreviation dot :: char where "dot \<equiv> CHR 0x2E"

abbreviation starts_with :: "string \<Rightarrow> string \<Rightarrow> bool" where
  "starts_with s p \<equiv> prefix p s"

abbreviation ends_with :: "string \<Rightarrow> string \<Rightarrow> bool" where
  "ends_with s p \<equiv> suffix p s"

abbreviation js_includes :: "string \<Rightarrow> string \<Rightarrow> bool" where
  "js_includes s p \<equiv> sublist p s"

definition lower_char :: "char \<Rightarrow> char" where
  "lower_char c =
     (let n = (of_char c :: nat)
      in if (65 \<le> n \<and> n \<le> 90) \<or> (192 \<le> n \<and> n \<le> 222 \<and> n \<noteq> 215) then char_of (n + 32) else c)"

definition upper_code :: "nat \<Rightarrow> bool" where
  "upper_code n = ((65 \<le> n \<and> n \<le> 90) \<or> (192 \<le> n \<and> n \<le> 222 \<and> n \<noteq> 215))"

lemma of_char_lower_char:
  "(of_char (lower_char c) :: nat) =
     (if upper_code (of_char c) then of_char c + 32 else of_char c)"
proof (cases "upper_code (of_char c)")
  case True
  then have "(of_char c + 32 :: nat) < 256"
    by (auto simp: upper_code_def)
  with True show ?thesis
    by (simp add: lower_char_def upper_code_def Let_def)
next
  case False
  then have "lower_char c = c" by (auto simp: lower_char_def upper_code_def Let_def)
  with False show ?thesis by simp
qed

lemma lower_char_idem [simp]: "lower_char (lower_char c) = lower_char c"
proof -
  have "upper_code n \<Longrightarrow> \<not> upper_code (n + 32)" for n
    by (auto simp: upper_code_def)
  then have "(of_char (lower_char (lower_char c)) :: nat) = of_char (lower_char c)"
    by (simp add: of_char_lower_char)
  then show ?thesis by (simp only: of_char_eq_iff)
qed

lemma lower_char_slash_iff: "lower_char c = slash \<longleftrightarrow> c = slash"
proof -
  have "(of_char (lower_char c) :: nat) = of_char slash \<longleftrightarrow> (of_char c :: nat) = of_char slash"
    unfolding of_char_lower_char by (auto simp: upper_code_def)
  then show ?thesis by (simp only: of_char_eq_iff)
qed

lemma lower_char_backslash_iff: "lower_char c = backslash \<longleftrightarrow> c = backslash"
proof -
  have "(of_char (lower_char c) :: nat) = of_char backslash \<longleftrightarrow> (of_char c :: nat) = of_char backslash"
    unfolding of_char_lower_char by (auto simp: upper_code_def)
  then show ?thesis by (simp only: of_char_eq_iff)
qed

lemma lower_char_eq_simps [simp]:
  "lower_char c = slash \<longleftrightarrow> c = slash" "slash = lower_char c \<longleftrightarrow> c = slash"
  "lower_char c = backslash \<longleftrightarrow> c = backslash" "backslash = lower_char c \<longleftrightarrow> c = backslash"
  using lower_char_slash_iff lower_char_backslash_iff by metis+

definition to_lower :: "string \<Rightarrow> string" where
  "to_lower s = map lower_char s"

lemma length_to_lower [simp]: "length (to_lower s) = length s"
  by (simp add: to_lower_def)

lemma to_lower_idem [simp]: "to_lower (to_lower s) = to_lower s"
  by (simp add: to_lower_def)

lemma to_lower_append [simp]: "to_lower (a @ b) = to_lower a @ to_lower b"
  by (simp add: to_lower_def)

text \<open>\<open>s.indexOf(t)\<close>: the first position at which \<open>t\<close> occurs.\<close>

fun index_of :: "string \<Rightarrow> string \<Rightarrow> nat option" where
  "index_of [] t = (if t = [] then Some 0 else None)"
| "index_of (c # s) t = (if prefix t (c # s) then Some 0 else map_option Suc (index_of s t))"

lemma index_of_includes: "index_of s t \<noteq> None \<longleftrightarrow> sublist t s"
  by (induction s) (auto simp: sublist_Cons_right)

text \<open>\<open>xs.join(sep)\<close>\<close>

fun js_join :: "string \<Rightarrow> string list \<Rightarrow> string" where
  "js_join sep [] = []"
| "js_join sep [x] = x"
| "js_join sep (x # y # ys) = x @ sep @ js_join sep (y # ys)"

text \<open>\<open>s.trim()\<close> for the white space below 256: tab, line feed, vertical tab, form feed,
  carriage return, space and no-break space.\<close>

definition is_space :: "char \<Rightarrow> bool" where
  "is_space c = ((of_char c :: nat) \<in> {9, 10, 11, 12, 13, 32, 160})"

definition js_trim :: "string \<Rightarrow> string" where
  "js_trim s = rev (dropWhile is_space (rev (dropWhile is_space s)))"

text \<open>\<open>s.split(sep)\<close> for a one-character separator.\<close>

fun split_on :: "char \<Rightarrow> string \<Rightarrow> string list" where
  "split_on c [] = [[]]"
| "split_on c (x # xs) =
     (if x = c then [] # split_on c xs
      else case split_on c xs of [] \<Rightarrow> [[x]] | w # ws \<Rightarrow> (x # w) # ws)"

text \<open>Decimal rendering of a number, as a template literal prints a non-negative integer.\<close>

fun show_nat :: "nat \<Rightarrow> string" where
  "show_nat n =
     (if n < 10 then [char_of (48 + n)] else show_nat (n div 10) @ [char_of (48 + n mod 10)])"

declare show_nat.simps [simp del]

definition show_int :: "int \<Rightarrow> string" where
  "show_int i = (if i < 0 then ''-'' @ show_nat (nat (- i)) else show_nat (nat i))"

end
