(* ===== verification/Paths.thy ===== *)
theory Paths
  imports Js_String
begin

text \<open>
  \<^verbatim>\<open>src/utils/path.ts\<close> (\<open>normalizePath\<close>) and \<^verbatim>\<open>src/turbo/lean/conflicts.ts\<close>: the path
  predicates every scope decision of the planners rests on.

  The host facilities the code reads (\<open>process.platform\<close>, the functions of \<open>node:path\<close>,
  \<open>String.prototype.localeCompare\<close>, whose order is ICU data) are the fields of the record
  \<open>runtime\<close>; each definition that needs them takes the record as its first argument.

  The regular expressions of \<open>normalizePath\<close> are translated one by one, in the order the
  code applies them; a global \<open>replace\<close> scans left to right and never rescans what it wrote.
\<close>

record runtime =
  is_win32 :: bool
  path_resolve :: "string \<Rightarrow> string"
  path_relative :: "string \<Rightarrow> string \<Rightarrow> string"
  path_is_absolute :: "string \<Rightarrow> bool"
  path_normalize :: "string \<Rightarrow> string"
  locale_compare :: "string \<Rightarrow> string \<Rightarrow> int"

section \<open>normalizePath\<close>

definition forward_slashes :: "string \<Rightarrow> string" where
  "forward_slashes p = map (\<lambda>c. if c = backslash then slash else c) p"

fun collapse_slashes :: "string \<Rightarrow> string" where
  "collapse_slashes [] = []"
| "collapse_slashes [c] = [c]"
| "collapse_slashes (c # d # s) =
     (if c = slash \<and> d = slash then collapse_slashes (d # s) else c # collapse_slashes (d # s))"

definition strip_leading_dot :: "string \<Rightarrow> string" where
  "strip_leading_dot s = (if prefix [dot, slash] s then drop 2 s else s)"

function scan_dot_segments :: "string \<Rightarrow> string" where
  "scan_dot_segments [] = []"
| "scan_dot_segments (c # s) =
     (if c = slash \<and> prefix [dot, slash] s then slash # scan_dot_segments (drop 2 s)
      else c # scan_dot_segments s)"
  by pat_completeness auto
termination
  by (relation "measure length") auto

definition replace_dot_segments :: "string \<Rightarrow> string" where
  "replace_dot_segments s =
     (if prefix [dot, slash] s then slash # scan_dot_segments (drop 2 s) else scan_dot_segments s)"

definition strip_trailing_slash :: "string \<Rightarrow> string" where
  "strip_trailing_slash s = (if suffix [slash] s then butlast s else s)"

definition strip_trailing_dot :: "string \<Rightarrow> string" where
  "strip_trailing_dot s = (if suffix [slash, dot] s then butlast (butlast s) else s)"

definition normalizePath :: "runtime \<Rightarrow> string \<Rightarrow> string" where
  "normalizePath rt p =
     (if p = [] then []
      else
        let r1 = replace_dot_segments (strip_leading_dot (collapse_slashes (forward_slashes p)));
            r2 = strip_trailing_dot (strip_trailing_slash r1);
            r3 = (if is_win32 rt then to_lower r2 else r2)
        in if r3 = []
           then (let norm = forward_slashes p
                 in if norm = [dot] \<or> norm = [dot, slash] then [dot] else [])
           else r3)"

section \<open>Path safety and conflicts\<close>

definition isPathSafe :: "runtime \<Rightarrow> string \<Rightarrow> bool" where
  "isPathSafe rt filePath = (if js_includes (normalizePath rt filePath) ''..'' then False else True)"

definition pathsConflict :: "runtime \<Rightarrow> string \<Rightarrow> string \<Rightarrow> bool" where
  "pathsConflict rt path1 path2 =
     (let p1 = (if is_win32 rt then to_lower path1 else path1);
          p2 = (if is_win32 rt then to_lower path2 else path2)
      in if p1 = p2 then True
         else
           let (shorter, longer) = (if length p1 \<le> length p2 then (p1, p2) else (p2, p1))
           in if starts_with longer (shorter @ ''/'') then True else False)"

definition DEFAULT_GLOBAL_FILES :: "string list" where
  "DEFAULT_GLOBAL_FILES =
    [''package.json'', ''package-lock.json'', ''bun.lock'', ''bun.lockb'', ''pnpm-lock.yaml'',
     ''yarn.lock'', ''Cargo.lock'', ''Gemfile.lock'', ''composer.lock'', ''poetry.lock'', ''go.mod'',
     ''go.sum'', ''tsconfig.json'', ''bunfig.toml'', ''CHANGELOG.md'', ''.release-please-manifest.json'',
     ''src/index.ts'', ''src/tools/index.ts'', ''src/agents/index.ts'', ''src/config/index.ts'',
     ''src/hooks/index.ts'',
     ''turbo.json'', ''nx.json'', ''packageManager'', ''.npmrc'', ''.nvmrc'', ''.node-version'']"

definition DEFAULT_PROTECTED_PATTERNS :: "string list" where
  "DEFAULT_PROTECTED_PATTERNS =
    [''guardrail'', ''delegation'', ''authority'', ''permission'', ''crypto'', ''secret'', ''security'', ''auth'',
     ''/auth/'', ''/auth.'', ''auth.'',
     ''.env'', ''credentials'', ''secrets'', ''private'',
     ''/security/'', ''/security.'', ''/protect/'', ''/protect.'']"

text \<open>Each barrel pattern is a literal anchored at the end of the input.\<close>

definition BARREL_FILE_PATTERNS :: "string list" where
  "BARREL_FILE_PATTERNS =
    [''/index.ts'', ''/index.tsx'', ''/index.js'', ''/index.mjs'', ''/exports.ts'', ''/types.ts'']"

definition isGlobalFile :: "string \<Rightarrow> bool" where
  "isGlobalFile normalizedPath =
     (if list_ex (\<lambda>gf. ends_with normalizedPath gf) DEFAULT_GLOBAL_FILES then True
      else list_ex (\<lambda>pattern. ends_with normalizedPath pattern) BARREL_FILE_PATTERNS)"

fun protected_by :: "string \<Rightarrow> string list \<Rightarrow> bool" where
  "protected_by lowerPath [] = False"
| "protected_by lowerPath (pattern # rest) =
     (if js_includes lowerPath (to_lower pattern) then
        if pattern = ''auth'' \<or> pattern = ''/auth/'' then
          (if lowerPath = ''auth'' \<or> ends_with lowerPath ''/auth'' \<or> js_includes lowerPath ''/auth/''
           then True else protected_by lowerPath rest)
        else if pattern = ''auth.'' then
          (case index_of lowerPath ''auth.'' of
             None \<Rightarrow> protected_by lowerPath rest
           | Some idx \<Rightarrow>
               if idx = 0 \<or> lowerPath ! (idx - 1) = slash then True else protected_by lowerPath rest)
        else True
      else protected_by lowerPath rest)"

definition isProtectedPath :: "string \<Rightarrow> bool" where
  "isProtectedPath normalizedPath = protected_by (to_lower normalizedPath) DEFAULT_PROTECTED_PATTERNS"

section \<open>Conflicts are symmetric and segment-aware\<close>

lemma to_lower_slash [simp]: "to_lower [slash] = [slash]"
  by (simp add: to_lower_def lower_char_def)

definition fold_case :: "runtime \<Rightarrow> string \<Rightarrow> string" where
  "fold_case rt p = (if is_win32 rt then to_lower p else p)"

lemma fold_case_posix [simp]: "\<not> is_win32 rt \<Longrightarrow> fold_case rt p = p"
  by (simp add: fold_case_def)

lemma pathsConflict_iff:
  "pathsConflict rt a b \<longleftrightarrow>
     fold_case rt a = fold_case rt b \<or> prefix (fold_case rt a @ [slash]) (fold_case rt b)
     \<or> prefix (fold_case rt b @ [slash]) (fold_case rt a)"
proof -
  have len: "prefix (x @ [slash]) y \<Longrightarrow> length x < length y" for x y :: string
    by (auto dest: prefix_length_le)
  show ?thesis
    unfolding pathsConflict_def Let_def fold_case_def [symmetric]
    by (auto dest: len)
qed

lemma pathsConflict_sym: "pathsConflict rt a b = pathsConflict rt b a"
  by (auto simp: pathsConflict_iff)

lemma pathsConflict_refl [simp]: "pathsConflict rt a a"
  by (simp add: pathsConflict_iff)

text \<open>The path half of a scope conflict: some path of one scope conflicts with some path of
  the other (\<^verbatim>\<open>src/epic/components.ts\<close>, \<open>pathOverlap\<close>).\<close>

definition pathOverlap :: "runtime \<Rightarrow> string list \<Rightarrow> string list \<Rightarrow> bool" where
  "pathOverlap rt a b = list_ex (\<lambda>x. list_ex (\<lambda>y. pathsConflict rt x y) b) a"

lemma pathOverlap_iff: "pathOverlap rt a b \<longleftrightarrow> (\<exists>x\<in>set a. \<exists>y\<in>set b. pathsConflict rt x y)"
  by (auto simp: pathOverlap_def list_ex_iff)

text \<open>What every scope-overlap predicate of the program promises the planners.\<close>

locale scope_overlap =
  fixes overlap :: "'s list \<Rightarrow> 's list \<Rightarrow> bool"
  assumes overlap_sym: "overlap a b \<Longrightarrow> overlap b a"
    and overlap_mono: "overlap a b \<Longrightarrow> set a \<subseteq> set a' \<Longrightarrow> set b \<subseteq> set b' \<Longrightarrow> overlap a' b'"
begin

lemma disjoint_sym: "\<not> overlap a b \<Longrightarrow> \<not> overlap b a"
  using overlap_sym by blast

lemma disjoint_anti: "\<not> overlap a' b' \<Longrightarrow> set a \<subseteq> set a' \<Longrightarrow> set b \<subseteq> set b' \<Longrightarrow> \<not> overlap a b"
  using overlap_mono by blast

lemma overlap_set_cong: "set a = set a' \<Longrightarrow> set b = set b' \<Longrightarrow> overlap a b = overlap a' b'"
  using overlap_mono by blast

end

interpretation path_overlap: scope_overlap "pathOverlap rt" for rt
proof
  fix a b a' b' :: "string list"
  show "pathOverlap rt a b \<Longrightarrow> pathOverlap rt b a"
    by (auto simp: pathOverlap_iff) (metis pathsConflict_sym)
  show "pathOverlap rt a b \<Longrightarrow> set a \<subseteq> set a' \<Longrightarrow> set b \<subseteq> set b' \<Longrightarrow> pathOverlap rt a' b'"
    by (auto simp: pathOverlap_iff)
qed

section \<open>What normalizePath returns\<close>

lemma forward_slashes_no_backslash: "backslash \<notin> set (forward_slashes p)"
  by (auto simp: forward_slashes_def)

text \<open>No two adjacent slashes.\<close>

definition no_double_slash :: "string \<Rightarrow> bool" where
  "no_double_slash s = (\<not> sublist [slash, slash] s)"

lemma no_double_slash_Nil [simp]: "no_double_slash []"
  by (simp add: no_double_slash_def)

lemma no_double_slash_Cons [simp]:
  "no_double_slash (c # s) \<longleftrightarrow> \<not> (c = slash \<and> prefix [slash] s) \<and> no_double_slash s"
  by (auto simp: no_double_slash_def sublist_Cons_right)

lemma set_collapse_slashes: "set (collapse_slashes s) \<subseteq> set s"
  by (induction s rule: collapse_slashes.induct) auto

lemma hd_collapse_slashes: "prefix [c] (collapse_slashes s) = prefix [c] s"
  by (induction s rule: collapse_slashes.induct) auto

lemma no_double_slash_collapse: "no_double_slash (collapse_slashes s)"
  by (induction s rule: collapse_slashes.induct) (auto simp: hd_collapse_slashes)

lemma no_double_slash_drop: "no_double_slash s \<Longrightarrow> no_double_slash (drop n s)"
  unfolding no_double_slash_def by (meson sublist_drop sublist_order.order_trans)

lemma set_scan_dot_segments: "set (scan_dot_segments s) \<subseteq> set s"
  by (induction s rule: scan_dot_segments.induct) (auto dest: in_set_dropD)

lemma prefix_slash_drop2: "no_double_slash s \<Longrightarrow> prefix [dot, slash] s \<Longrightarrow> \<not> prefix [slash] (drop 2 s)"
  by (auto elim!: prefixE)

lemma hd_scan_dot_segments: "prefix [slash] (scan_dot_segments s) = prefix [slash] s"
  by (cases s) auto

lemma no_double_slash_scan: "no_double_slash s \<Longrightarrow> no_double_slash (scan_dot_segments s)"
proof (induction s rule: scan_dot_segments.induct)
  case 1
  then show ?case by simp
next
  case (2 c s)
  then show ?case
    using prefix_slash_drop2 [of s] no_double_slash_drop [of s 2]
    by (auto simp: hd_scan_dot_segments simp del: drop_eq_Nil)
qed

lemma no_double_slash_butlast: "no_double_slash s \<Longrightarrow> no_double_slash (butlast s)"
  unfolding no_double_slash_def by (metis prefixeq_butlast prefix_imp_sublist sublist_order.order_trans)

lemma no_double_slash_trailing:
  "no_double_slash s \<Longrightarrow> no_double_slash (strip_trailing_dot (strip_trailing_slash s))"
  by (simp add: strip_trailing_dot_def strip_trailing_slash_def no_double_slash_butlast)

lemma no_double_slash_replace:
  assumes "no_double_slash s"
  shows "no_double_slash (replace_dot_segments s)"
  using assms prefix_slash_drop2 [of s] no_double_slash_scan no_double_slash_drop [of s 2]
  by (auto simp: replace_dot_segments_def hd_scan_dot_segments)

lemma no_double_slash_pipeline:
  "no_double_slash (strip_trailing_dot (strip_trailing_slash
     (replace_dot_segments (strip_leading_dot (collapse_slashes (forward_slashes p))))))"
  by (intro no_double_slash_trailing no_double_slash_replace)
     (simp add: strip_leading_dot_def no_double_slash_collapse no_double_slash_drop)

lemma no_double_slash_to_lower [simp]: "no_double_slash (to_lower s) = no_double_slash s"
proof (induction s)
  case Nil
  then show ?case by (simp add: to_lower_def)
next
  case (Cons c s)
  have "prefix [slash] (to_lower s) = prefix [slash] s"
    by (cases s) (auto simp: to_lower_def)
  with Cons show ?case by (simp add: to_lower_def)
qed

lemma trailing_slash_stripped:
  assumes "no_double_slash s"
  shows "\<not> suffix [slash] (strip_trailing_dot (strip_trailing_slash s))"
proof -
  have no: "\<not> suffix [slash, slash] s"
    using assms unfolding no_double_slash_def by blast
  have a: "\<not> suffix [slash] (strip_trailing_slash s)"
    using no by (auto simp: strip_trailing_slash_def suffix_def butlast_append)
  have b: "no_double_slash (strip_trailing_slash s)"
    using assms by (simp add: strip_trailing_slash_def no_double_slash_butlast)
  show ?thesis
  proof (cases "suffix [slash, dot] (strip_trailing_slash s)")
    case True
    then obtain u where u: "strip_trailing_slash s = u @ [slash, dot]"
      by (auto simp: suffix_def)
    have "\<not> suffix [slash] u"
    proof
      assume "suffix [slash] u"
      then obtain v where "u = v @ [slash]" by (auto simp: suffix_def)
      with u have "strip_trailing_slash s = v @ [slash, slash] @ [dot]" by simp
      with b show False by (auto simp: no_double_slash_def sublist_def)
    qed
    with True u show ?thesis by (simp add: strip_trailing_dot_def butlast_append)
  next
    case False
    with a show ?thesis by (simp add: strip_trailing_dot_def)
  qed
qed

lemma suffix_slash_to_lower [simp]: "suffix [slash] (to_lower s) = suffix [slash] s"
proof (cases s rule: rev_cases)
  case Nil
  then show ?thesis by (simp add: to_lower_def)
next
  case (snoc ys y)
  then show ?thesis by (auto simp: to_lower_def suffix_def)
qed

lemma set_pipeline_subset:
  "set (strip_trailing_dot (strip_trailing_slash
     (replace_dot_segments (strip_leading_dot (collapse_slashes (forward_slashes p)))))) \<subseteq>
   insert slash (set (forward_slashes p))"
proof -
  have bl: "set (butlast s) \<subseteq> set s" for s :: string
    by (auto dest: in_set_butlastD)
  have t: "set (strip_trailing_dot (strip_trailing_slash s)) \<subseteq> set s" for s
    using bl [of s] bl [of "butlast s"] bl [of "butlast (butlast s)"]
    by (auto simp: strip_trailing_dot_def strip_trailing_slash_def)
  have r: "set (replace_dot_segments s) \<subseteq> insert slash (set s)" for s
    using set_scan_dot_segments [of s] set_scan_dot_segments [of "drop 2 s"] set_drop_subset [of 2 s]
    by (auto simp: replace_dot_segments_def)
  have l: "set (strip_leading_dot s) \<subseteq> set s" for s
    using set_drop_subset [of 2 s] by (auto simp: strip_leading_dot_def)
  show ?thesis
    using t r l set_collapse_slashes by (smt (verit) insert_mono order_trans)
qed

lemma backslash_to_lower [simp]: "backslash \<in> set (to_lower s) \<longleftrightarrow> backslash \<in> set s"
  by (auto simp: to_lower_def image_iff)

definition portable :: "string \<Rightarrow> bool" where
  "portable s = (backslash \<notin> set s \<and> no_double_slash s \<and> \<not> suffix [slash] s)"

lemma portable_simps [simp]: "portable []" "portable [dot]" "portable (to_lower s) = portable s"
  unfolding portable_def by (auto simp: suffix_Cons)

text \<open>Whatever the input, the result of \<open>normalizePath\<close> is a portable path: it holds no
  backslash, no two adjacent slashes, and no trailing slash.\<close>

theorem normalizePath_portable:
  "portable (normalizePath rt p)"
proof -
  let ?r1 = "replace_dot_segments (strip_leading_dot (collapse_slashes (forward_slashes p)))"
  let ?r2 = "strip_trailing_dot (strip_trailing_slash ?r1)"
  have "no_double_slash ?r1"
    by (intro no_double_slash_replace)
       (simp add: strip_leading_dot_def no_double_slash_collapse no_double_slash_drop)
  then have "\<not> suffix [slash] ?r2" by (rule trailing_slash_stripped)
  moreover have "backslash \<notin> set ?r2"
    using set_pipeline_subset [of p] forward_slashes_no_backslash [of p] by auto
  ultimately have "portable ?r2"
    using no_double_slash_pipeline [of p] by (simp add: portable_def)
  then show ?thesis
    unfolding normalizePath_def Let_def by simp
qed

section \<open>Clean paths are fixed points\<close>

text \<open>A clean path: forward slashes only, no empty and no \<open>.\<close> segment.\<close>

definition clean_path :: "string \<Rightarrow> bool" where
  "clean_path s =
     (s \<noteq> [] \<and> backslash \<notin> set s \<and> no_double_slash s \<and> \<not> suffix [slash] s \<and>
      \<not> prefix [dot, slash] s \<and> \<not> sublist [slash, dot, slash] s \<and> \<not> suffix [slash, dot] s)"

lemma forward_slashes_id: "backslash \<notin> set s \<Longrightarrow> forward_slashes s = s"
  by (auto simp: forward_slashes_def intro: map_idI)

lemma collapse_slashes_id: "no_double_slash s \<Longrightarrow> collapse_slashes s = s"
  by (induction s rule: collapse_slashes.induct) auto

lemma scan_dot_segments_id: "\<not> sublist [slash, dot, slash] s \<Longrightarrow> scan_dot_segments s = s"
  by (induction s) (auto simp: sublist_Cons_right)

lemma normalizePath_clean: "clean_path s \<Longrightarrow> normalizePath rt s = fold_case rt s"
  by (simp add: clean_path_def normalizePath_def Let_def forward_slashes_id collapse_slashes_id
      strip_leading_dot_def replace_dot_segments_def scan_dot_segments_id strip_trailing_slash_def
      strip_trailing_dot_def fold_case_def to_lower_def)

lemma normalizePath_Nil [simp]: "normalizePath rt [] = []"
  by (simp add: normalizePath_def)

section \<open>A POSIX host\<close>

text \<open>
  The host facilities on Linux, for evaluation on concrete inputs: \<open>path.resolve\<close> (with the
  current directory \<open>cwd\<close>), \<open>path.relative\<close>, \<open>path.isAbsolute\<close> and \<open>path.normalize\<close> of
  \<open>node:path\<close>'s POSIX flavour, and code-unit order in place of the locale's collation.
\<close>

fun resolve_segments :: "string list \<Rightarrow> string list \<Rightarrow> string list" where
  "resolve_segments acc [] = acc"
| "resolve_segments acc (seg # segs) =
     (if seg = [] \<or> seg = [dot] then resolve_segments acc segs
      else if seg = [dot, dot] then resolve_segments (butlast acc) segs
      else resolve_segments (acc @ [seg]) segs)"

definition posix_segments :: "string \<Rightarrow> string \<Rightarrow> string list" where
  "posix_segments cwd p =
     resolve_segments [] (split_on slash (if prefix [slash] p then p else cwd @ [slash] @ p))"

fun relative_segments :: "string list \<Rightarrow> string list \<Rightarrow> string list" where
  "relative_segments (a # as) (b # bs) =
     (if a = b then relative_segments as bs else map (\<lambda>_. [dot, dot]) (a # as) @ b # bs)"
| "relative_segments [] bs = bs"
| "relative_segments as [] = map (\<lambda>_. [dot, dot]) as"

fun normalize_segments :: "bool \<Rightarrow> string list \<Rightarrow> string list \<Rightarrow> string list" where
  "normalize_segments absolute acc [] = acc"
| "normalize_segments absolute acc (seg # segs) =
     (if seg = [] \<or> seg = [dot] then normalize_segments absolute acc segs
      else if seg = [dot, dot] then
        (if acc \<noteq> [] \<and> last acc \<noteq> [dot, dot] then normalize_segments absolute (butlast acc) segs
         else if absolute then normalize_segments absolute acc segs
         else normalize_segments absolute (acc @ [seg]) segs)
      else normalize_segments absolute (acc @ [seg]) segs)"

definition posix_normalize :: "string \<Rightarrow> string" where
  "posix_normalize p =
     (if p = [] then [dot]
      else
        let absolute = prefix [slash] p;
            trailing = suffix [slash] p;
            body = js_join [slash] (normalize_segments absolute [] (split_on slash p))
        in if body = [] then (if absolute then [slash] else if trailing then [dot, slash] else [dot])
           else (if absolute then [slash] else []) @ body @ (if trailing then [slash] else []))"

definition posix_runtime :: "string \<Rightarrow> runtime" where
  "posix_runtime cwd =
     \<lparr>is_win32 = False,
      path_resolve = (\<lambda>p. [slash] @ js_join [slash] (posix_segments cwd p)),
      path_relative = (\<lambda>a b. js_join [slash] (relative_segments (posix_segments cwd a) (posix_segments cwd b))),
      path_is_absolute = (\<lambda>p. prefix [slash] p),
      path_normalize = posix_normalize,
      locale_compare = code_unit_compare\<rparr>"

end
