(* ===== verification/Partition.thy ===== *)
theory Partition
  imports Paths
begin

text \<open>
  \<^verbatim>\<open>src/turbo/lean/risk.ts\<close> and \<^verbatim>\<open>src/turbo/lean/partition-common.ts\<close>: the preflight the
  lane planner and the Epic wave planner share.  It resolves each pending task's scope,
  classifies the task by risk, and sorts the tasks topologically (Kahn's algorithm, with the
  ready queue kept in \<open>localeCompare\<close> order).

  \<open>readTaskScopes\<close> reads a JSON file; what it returns for a task id is the argument \<open>disk\<close>.
  The log line for duplicate task ids is not modelled; the rule it announces (the first
  occurrence wins) is \<open>build_task_map\<close>.
\<close>

section \<open>Plan tasks and configuration\<close>

datatype task_status = Pending | In_Progress | Completed | Blocked | Closed

record plan_task =
  t_id :: string
  t_description :: string
  t_status :: task_status
  t_depends :: "string list option"
  t_files_touched :: "string list option"

record plan_phase =
  ph_id :: int
  ph_name :: string
  ph_tasks :: "plan_task list"

datatype conflict_policy = Serialize | Degrade

record lean_config =
  max_parallel_coders :: nat
  require_declared_scope :: bool
  conflict_policy :: conflict_policy
  degrade_on_risk :: bool

text \<open>\<open>x ?? []\<close>\<close>

definition or_empty :: "'a list option \<Rightarrow> 'a list" where
  "or_empty x = (case x of None \<Rightarrow> [] | Some xs \<Rightarrow> xs)"

abbreviation depends :: "plan_task \<Rightarrow> string list" where
  "depends t \<equiv> or_empty (t_depends t)"

section \<open>Risk classification\<close>

datatype task_risk_category = Normal | Global | Protected | No_Scope | Invalid_Scope

record task_risk_assessment =
  ra_category :: task_risk_category
  ra_reason :: "string option"
  ra_files :: "string list"

definition assessTaskRisk :: "string list \<Rightarrow> bool \<Rightarrow> bool \<Rightarrow> lean_config \<Rightarrow> task_risk_assessment" where
  "assessTaskRisk files hasDeclaredScope hasInvalidScope config =
     (let globalFiles = filter isGlobalFile files
      in if length globalFiles > 0
         then \<lparr>ra_category = Global, ra_reason = Some ''global file conflict'', ra_files = globalFiles\<rparr>
         else
           let protectedFiles = filter isProtectedPath files
           in if length protectedFiles > 0
              then \<lparr>ra_category = Protected, ra_reason = Some ''protected path'', ra_files = protectedFiles\<rparr>
              else if hasInvalidScope
              then \<lparr>ra_category = Invalid_Scope, ra_reason = Some ''invalid scope entries'', ra_files = files\<rparr>
              else if \<not> hasDeclaredScope \<and> require_declared_scope config
              then \<lparr>ra_category = No_Scope, ra_reason = Some ''undeclared scope'', ra_files = files\<rparr>
              else \<lparr>ra_category = Normal, ra_reason = None, ra_files = []\<rparr>)"

section \<open>Scope validation\<close>

text \<open>\<open>file.match(/^[a-zA-Z]:/)\<close>\<close>

definition has_drive_letter :: "string \<Rightarrow> bool" where
  "has_drive_letter file =
     (case file of
        c # d # _ \<Rightarrow>
          (let n = (of_char c :: nat) in (97 \<le> n \<and> n \<le> 122) \<or> (65 \<le> n \<and> n \<le> 90)) \<and> d = CHR '':''
      | _ \<Rightarrow> False)"

text \<open>One iteration of the loop of \<open>getValidatedFiles\<close>: \<open>None\<close> counts as invalid.\<close>

definition validate_file :: "runtime \<Rightarrow> string \<Rightarrow> string \<Rightarrow> string option" where
  "validate_file rt directory file =
     (let pathToCheck =
        (if starts_with file ''/'' \<or> has_drive_letter file then file else directory @ ''/'' @ file)
      in if \<not> isPathSafe rt pathToCheck then None
         else
           let relativePath = path_relative rt (path_resolve rt directory) (path_resolve rt pathToCheck)
           in if relativePath = [] \<or> \<not> isPathSafe rt relativePath \<or> path_is_absolute rt relativePath
              then None
              else Some (normalizePath rt relativePath))"

fun getValidatedFiles :: "runtime \<Rightarrow> string list \<Rightarrow> string \<Rightarrow> string list \<times> nat" where
  "getValidatedFiles rt [] directory = ([], 0)"
| "getValidatedFiles rt (file # files) directory =
     (let (validFiles, invalidCount) = getValidatedFiles rt files directory
      in case validate_file rt directory file of
           None \<Rightarrow> (validFiles, invalidCount + 1)
         | Some f \<Rightarrow> (f # validFiles, invalidCount))"

section \<open>Step 1 and 2: scopes and classification\<close>

record classified_task =
  c_task :: plan_task
  c_files :: "string list"
  c_hasDeclaredScope :: bool
  c_category :: task_risk_category
  c_conflictReason :: "string option"

abbreviation c_id :: "classified_task \<Rightarrow> string" where
  "c_id ct \<equiv> t_id (c_task ct)"

record task_with_scope =
  tws_task :: plan_task
  tws_files :: "string list"
  tws_hasDeclaredScope :: bool
  tws_hasInvalidScope :: bool

definition resolve_task_scope ::
  "runtime \<Rightarrow> string \<Rightarrow> lean_config \<Rightarrow> (string, string list) js_map option \<Rightarrow>
   (string \<Rightarrow> string list option) \<Rightarrow> plan_task \<Rightarrow> task_with_scope" where
  "resolve_task_scope rt directory config scopes disk task =
     (let (files0, declared0) =
            (case scopes of
               Some m \<Rightarrow>
                 (case js_get m (t_id task) of
                    Some fs \<Rightarrow> (fs, True)
                  | None \<Rightarrow>
                      (case disk (t_id task) of Some fs \<Rightarrow> (fs, True) | None \<Rightarrow> ([], False)))
             | None \<Rightarrow> (case disk (t_id task) of Some fs \<Rightarrow> (fs, True) | None \<Rightarrow> ([], False)));
          declared = (if declared0 \<and> length files0 = 0 then False else declared0);
          files = (if \<not> declared \<and> \<not> require_declared_scope config
                   then or_empty (t_files_touched task) else files0)
      in if length files = 0 \<and> \<not> declared
         then \<lparr>tws_task = task, tws_files = [], tws_hasDeclaredScope = False, tws_hasInvalidScope = True\<rparr>
         else
           let (validFiles, invalidCount) = getValidatedFiles rt files directory
           in \<lparr>tws_task = task, tws_files = validFiles, tws_hasDeclaredScope = declared,
               tws_hasInvalidScope = (invalidCount > 0)\<rparr>)"

definition classify_task :: "lean_config \<Rightarrow> task_with_scope \<Rightarrow> classified_task" where
  "classify_task config tws =
     (let assessment =
        assessTaskRisk (tws_files tws) (tws_hasDeclaredScope tws) (tws_hasInvalidScope tws) config
      in \<lparr>c_task = tws_task tws, c_files = tws_files tws,
          c_hasDeclaredScope = tws_hasDeclaredScope tws,
          c_category = ra_category assessment, c_conflictReason = ra_reason assessment\<rparr>)"

section \<open>Step 3: Kahn's algorithm\<close>

type_synonym task_map = "(string, classified_task) js_map"

fun build_task_map :: "classified_task list \<Rightarrow> task_map \<Rightarrow> task_map" where
  "build_task_map [] m = m"
| "build_task_map (ct # cts) m =
     (if js_has m (c_id ct) then build_task_map cts m
      else build_task_map cts (js_set (c_id ct) ct m))"

type_synonym degrees = "(string, int) js_map"
type_synonym edges = "(string, string list) js_map"

definition add_dependency :: "task_map \<Rightarrow> string \<Rightarrow> string \<Rightarrow> degrees \<times> edges \<Rightarrow> degrees \<times> edges" where
  "add_dependency tm v dep = (\<lambda>(inDegree, adjacency).
     if js_has tm dep
     then (js_set v (js_get_or inDegree v 0 + 1) inDegree,
           js_set dep (js_get_or adjacency dep [] @ [v]) adjacency)
     else (inDegree, adjacency))"

definition add_task_edges :: "task_map \<Rightarrow> classified_task \<Rightarrow> degrees \<times> edges \<Rightarrow> degrees \<times> edges" where
  "add_task_edges tm ct = fold (add_dependency tm (c_id ct)) (depends (c_task ct))"

definition build_graph :: "task_map \<Rightarrow> degrees \<times> edges" where
  "build_graph tm =
     fold (add_task_edges tm) (map snd tm)
       (map (\<lambda>(k, _). (k, 0)) tm, map (\<lambda>(k, _). (k, [])) tm)"

definition insert_ready :: "(string \<Rightarrow> string \<Rightarrow> int) \<Rightarrow> string \<Rightarrow> string list \<Rightarrow> string list" where
  "insert_ready lc neighbor queue =
     (case find_index (\<lambda>id. lc id neighbor > 0) queue of
        None \<Rightarrow> queue @ [neighbor]
      | Some i \<Rightarrow> take i queue @ [neighbor] @ drop i queue)"

definition release_neighbor ::
  "(string \<Rightarrow> string \<Rightarrow> int) \<Rightarrow> string \<Rightarrow> degrees \<times> string list \<Rightarrow> degrees \<times> string list" where
  "release_neighbor lc neighbor = (\<lambda>(inDegree, queue).
     let newDegree = js_get_or inDegree neighbor 0 - 1;
         inDegree' = js_set neighbor newDegree inDegree
     in if newDegree = 0 then (inDegree', insert_ready lc neighbor queue) else (inDegree', queue))"

definition positive_degrees :: "degrees \<Rightarrow> nat" where
  "positive_degrees deg = length (filter (\<lambda>(k, d). d > 0) deg)"

lemma positive_degrees_set:
  "positive_degrees (js_set k v deg) + (if js_get_or deg k 0 > 0 then 1 else 0) =
   positive_degrees deg + (if v > 0 then 1 else 0)"
  by (induction deg) (auto simp: positive_degrees_def js_get_or_def)

lemma length_insert_ready [simp]: "length (insert_ready lc n q) = Suc (length q)"
  by (auto simp: insert_ready_def dest: find_index_Some split: option.split)

lemma set_insert_ready [simp]: "set (insert_ready lc n q) = insert n (set q)"
  by (auto simp: insert_ready_def split: option.split) (metis Un_iff append_take_drop_id set_append)+

lemma distinct_insert_ready [simp]: "distinct (insert_ready lc n q) \<longleftrightarrow> n \<notin> set q \<and> distinct q"
proof -
  have "mset (insert_ready lc n q) = add_mset n (mset q)"
  proof -
    have "mset (take i q) + mset (drop i q) = mset q" for i
      by (metis append_take_drop_id mset_append)
    then show ?thesis by (auto simp: insert_ready_def split: option.split)
  qed
  then have "mset (insert_ready lc n q) = mset (n # q)" by simp
  then have "distinct (insert_ready lc n q) = distinct (n # q)"
    by (rule mset_eq_imp_distinct_iff)
  then show ?thesis by auto
qed

lemma release_neighbor_measure:
  "release_neighbor lc n (deg, q) = (deg', q') \<Longrightarrow>
   positive_degrees deg' + length q' \<le> positive_degrees deg + length q"
  using positive_degrees_set [of n "js_get_or deg n 0 - 1" deg]
  by (auto simp: release_neighbor_def Let_def split: if_splits)

lemma release_all_measure:
  "fold (release_neighbor lc) ns (deg, q) = (deg', q') \<Longrightarrow>
   positive_degrees deg' + length q' \<le> positive_degrees deg + length q"
proof (induction ns arbitrary: deg q)
  case Nil
  then show ?case by simp
next
  case (Cons n ns)
  obtain d1 q1 where r: "release_neighbor lc n (deg, q) = (d1, q1)" by fastforce
  with Cons show ?case
    using release_neighbor_measure [OF r] by fastforce
qed

text \<open>
  The \<open>while\<close> loop of the sort.  A neighbour enters the queue only when its degree falls to
  zero, so the queue length plus the number of positive degrees shrinks in every round.
\<close>

function kahn_loop ::
  "(string \<Rightarrow> string \<Rightarrow> int) \<Rightarrow> edges \<Rightarrow> degrees \<Rightarrow> string list \<Rightarrow> string list \<Rightarrow> degrees \<times> string list" where
  "kahn_loop lc adjacency inDegree [] acc = (inDegree, acc)"
| "kahn_loop lc adjacency inDegree (current # queue) acc =
     (let (inDegree', queue') =
        fold (release_neighbor lc) (js_get_or adjacency current []) (inDegree, queue)
      in kahn_loop lc adjacency inDegree' queue' (acc @ [current]))"
  by pat_completeness auto
termination
proof (relation "measure (\<lambda>(lc, adjacency, deg, q, s). positive_degrees deg + length q)", goal_cases)
  case 1
  show ?case by simp
next
  case (2 lc adjacency deg current queue acc x deg' q')
  then have "fold (release_neighbor lc) (js_get_or adjacency current []) (deg, queue) = (deg', q')"
    by simp
  from release_all_measure [OF this] show ?case by simp
qed

record partition_preflight =
  sortedTasks :: "classified_task list"
  taskMap :: task_map
  tasksInCycle :: "string list"

definition topological_sort :: "runtime \<Rightarrow> task_map \<Rightarrow> partition_preflight" where
  "topological_sort rt tm =
     (let (inDegree, adjacency) = build_graph tm;
          queue = js_sort (locale_compare rt) (map fst (filter (\<lambda>(k, d). d = 0) inDegree));
          (inDegree', sortedIds) = kahn_loop (locale_compare rt) adjacency inDegree queue []
      in \<lparr>sortedTasks = map (\<lambda>id. the (js_get tm id)) sortedIds,
          taskMap = tm,
          tasksInCycle = map fst (filter (\<lambda>(k, d). d > 0) inDegree')\<rparr>)"

definition runPartitionPreflight ::
  "runtime \<Rightarrow> string \<Rightarrow> plan_task list \<Rightarrow> lean_config \<Rightarrow> (string, string list) js_map option \<Rightarrow>
   (string \<Rightarrow> string list option) \<Rightarrow> partition_preflight" where
  "runPartitionPreflight rt directory pendingTasks config scopes disk =
     (let tasksWithScopes = map (resolve_task_scope rt directory config scopes disk) pendingTasks;
          classifiedTasks = map (classify_task config) tasksWithScopes
      in topological_sort rt (build_task_map classifiedTasks []))"

section \<open>Readiness\<close>

definition makeDependencySatisfactionChecker ::
  "task_map \<Rightarrow> string list \<Rightarrow> (string \<Rightarrow> bool) option \<Rightarrow> classified_task \<Rightarrow> bool" where
  "makeDependencySatisfactionChecker tm assignedTasks isUpstreamCommitted task =
     list_all (\<lambda>dep.
        if js_has tm dep then dep \<in> set assignedTasks
        else (case isUpstreamCommitted of None \<Rightarrow> True | Some committed \<Rightarrow> committed dep))
      (depends (c_task task))"

definition getReadyTasks ::
  "runtime \<Rightarrow> classified_task list \<Rightarrow> string list \<Rightarrow> (classified_task \<Rightarrow> bool) \<Rightarrow> classified_task list" where
  "getReadyTasks rt sortedList assignedTasks isSatisfied =
     js_sort (\<lambda>a b. locale_compare rt (c_id a) (c_id b))
       (filter (\<lambda>classified. c_id classified \<notin> set assignedTasks \<and> isSatisfied classified) sortedList)"

end
