(* ===== verification/Partition_Facts.thy ===== *)
theory Partition_Facts
  imports Partition
begin

text \<open>
  What the preflight guarantees: the task map keeps the first occurrence of each id, the
  sorted list is a topological order of the tasks it holds, and the tasks left over are
  exactly those that can never be released because each of them waits for another one.
\<close>

section \<open>The task map\<close>

lemma build_task_map_keys:
  "js_keys (build_task_map cts m) = fold set_add (map c_id cts) (js_keys m)"
  by (induction cts m rule: build_task_map.induct)
     (auto simp: js_map_simps js_has_keys set_add_def)

lemma distinct_build_task_map [simp]: "distinct (js_keys (build_task_map cts []))"
  by (simp add: build_task_map_keys distinct_fold_set_add)

lemma set_keys_build_task_map [simp]:
  "set (js_keys (build_task_map cts [])) = c_id ` set cts"
  by (simp add: build_task_map_keys set_fold_set_add)

lemma build_task_map_get_id:
  assumes "\<forall>k ct. js_get m k = Some ct \<longrightarrow> c_id ct = k"
  shows "\<forall>k ct. js_get (build_task_map cts m) k = Some ct \<longrightarrow> c_id ct = k"
  using assms
proof (induction cts arbitrary: m)
  case Nil
  then show ?case by simp
next
  case (Cons ct' cts)
  have "\<forall>k ct. js_get (js_set (c_id ct') ct' m) k = Some ct \<longrightarrow> c_id ct = k"
  proof (intro allI impI)
    fix k ct
    assume "js_get (js_set (c_id ct') ct' m) k = Some ct"
    then show "c_id ct = k"
      using Cons.prems by (cases "k = c_id ct'") (simp_all only: js_get_set if_True if_False option.inject simp_thms)
  qed
  from Cons.IH [OF this] Cons.IH [OF Cons.prems] show ?case
    by (cases "js_has m (c_id ct')") (simp_all only: build_task_map.simps if_True if_False simp_thms)
qed

text \<open>A task map as the preflight builds it: no id twice, every entry under its own id.\<close>

definition wf_task_map :: "task_map \<Rightarrow> bool" where
  "wf_task_map tm = (distinct (js_keys tm) \<and> (\<forall>(k, ct) \<in> set tm. c_id ct = k))"

lemma wf_build_task_map: "wf_task_map (build_task_map cts [])"
  unfolding wf_task_map_def
proof safe
  show "distinct (js_keys (build_task_map cts []))" by simp
next
  fix k ct
  assume "(k, ct) \<in> set (build_task_map cts [])"
  then have "js_get (build_task_map cts []) k = Some ct"
    by (simp add: map_of_is_SomeI)
  then show "c_id ct = k" using build_task_map_get_id [of "[]" cts] by simp
qed

lemma wf_task_map_get: "wf_task_map tm \<Longrightarrow> js_get tm k = Some ct \<Longrightarrow> c_id ct = k"
  by (auto simp: wf_task_map_def dest: map_of_SomeD)

section \<open>Dependencies inside the batch\<close>

definition batch_deps :: "task_map \<Rightarrow> string \<Rightarrow> string list" where
  "batch_deps tm v =
     (case js_get tm v of None \<Rightarrow> [] | Some ct \<Rightarrow> filter (js_has tm) (depends (c_task ct)))"

lemma batch_deps_keys: "d \<in> set (batch_deps tm v) \<Longrightarrow> d \<in> set (js_keys tm)"
  by (auto simp: batch_deps_def js_has_keys split: option.splits)

lemma add_dependency_simps [simp]:
  "js_has tm d \<Longrightarrow> add_dependency tm v d (deg, adj) =
     (js_set v (js_get_or deg v 0 + 1) deg, js_set d (js_get_or adj d [] @ [v]) adj)"
  "\<not> js_has tm d \<Longrightarrow> add_dependency tm v d (deg, adj) = (deg, adj)"
  by (simp_all add: add_dependency_def)

lemma add_dependencies:
  "fold (add_dependency tm v) ds (deg, adj) = (deg', adj') \<Longrightarrow>
   js_get_or deg' u 0 = js_get_or deg u 0 + (if u = v then int (length (filter (js_has tm) ds)) else 0)
   \<and> count_list (js_get_or adj' u []) w =
       count_list (js_get_or adj u []) w + (if w = v then count_list (filter (js_has tm) ds) u else 0)
   \<and> set (js_get_or adj' u []) \<subseteq> insert v (set (js_get_or adj u []))"
proof (induction ds arbitrary: deg adj)
  case Nil
  then show ?case by auto
next
  case (Cons d ds)
  show ?case
  proof (cases "js_has tm d")
    case False
    with Cons show ?thesis by simp
  next
    case True
    let ?deg = "js_set v (js_get_or deg v 0 + 1) deg"
    let ?adj = "js_set d (js_get_or adj d [] @ [v]) adj"
    from Cons.prems True have f: "fold (add_dependency tm v) ds (?deg, ?adj) = (deg', adj')"
      by simp
    from Cons.IH [OF f] True show ?thesis
      by (auto simp: js_map_simps split: if_splits)
  qed
qed

lemma add_dependencies_keys:
  assumes "fold (add_dependency tm v) ds (deg, adj) = (deg', adj')" "v \<in> set (js_keys deg)"
  shows "js_keys deg' = js_keys deg"
  using assms
proof (induction ds arbitrary: deg adj)
  case Nil
  then show ?case by simp
next
  case (Cons d ds)
  show ?case
  proof (cases "js_has tm d")
    case False
    with Cons show ?thesis by simp
  next
    case True
    with Cons show ?thesis by (simp add: js_map_simps)
  qed
qed

lemma build_graph_aux:
  assumes wf: "wf_task_map tm"
    and "fold (add_task_edges tm) cts (deg, adj) = (deg', adj')"
    and "distinct (map c_id cts)" "\<forall>ct\<in>set cts. js_get tm (c_id ct) = Some ct"
    and "set (js_keys tm) \<subseteq> set (js_keys deg)"
  shows "js_get_or deg' u 0 =
           js_get_or deg u 0 + (if u \<in> c_id ` set cts then int (length (batch_deps tm u)) else 0)
         \<and> count_list (js_get_or adj' u []) w =
           count_list (js_get_or adj u []) w
           + (if w \<in> c_id ` set cts then count_list (batch_deps tm w) u else 0)
         \<and> set (js_get_or adj' u []) \<subseteq> set (js_get_or adj u []) \<union> c_id ` set cts
         \<and> js_keys deg' = js_keys deg"
  using assms(2-)
proof (induction cts arbitrary: deg adj)
  case Nil
  then show ?case by simp
next
  case (Cons ct cts)
  obtain d1 a1 where s: "add_task_edges tm ct (deg, adj) = (d1, a1)" by fastforce
  have bd: "filter (js_has tm) (depends (c_task ct)) = batch_deps tm (c_id ct)"
    using Cons.prems by (simp add: batch_deps_def)
  have "c_id ct \<in> set (js_keys tm)"
    using Cons.prems(3) by (auto dest: js_get_key)
  then have k1: "js_keys d1 = js_keys deg"
    using add_dependencies_keys [OF s [unfolded add_task_edges_def]] Cons.prems(4) by blast
  note one = add_dependencies [OF s [unfolded add_task_edges_def], unfolded bd]
  have "fold (add_task_edges tm) cts (d1, a1) = (deg', adj')"
    using Cons.prems(1) s by simp
  note rest = Cons.IH [OF this _ _]
  have new: "c_id ct \<notin> c_id ` set cts" using Cons.prems(2) by auto
  have r: "js_get_or deg' u 0 =
           js_get_or d1 u 0 + (if u \<in> c_id ` set cts then int (length (batch_deps tm u)) else 0)
         \<and> count_list (js_get_or adj' u []) w =
           count_list (js_get_or a1 u []) w
           + (if w \<in> c_id ` set cts then count_list (batch_deps tm w) u else 0)
         \<and> set (js_get_or adj' u []) \<subseteq> set (js_get_or a1 u []) \<union> c_id ` set cts
         \<and> js_keys deg' = js_keys d1"
    using rest Cons.prems(2-4) k1 by auto
  with one [of u w] new k1 show ?case
    by (auto split: if_splits)
qed

text \<open>The degree of a task is the number of its in-batch dependencies; the edges out of a task
  list each dependent once per mention.\<close>

lemma build_graph_spec:
  assumes wf: "wf_task_map tm" and b: "build_graph tm = (deg, adj)"
  shows "js_keys deg = js_keys tm"
    and "v \<in> set (js_keys tm) \<Longrightarrow> js_get deg v = Some (int (length (batch_deps tm v)))"
    and "count_list (js_get_or adj u []) v = count_list (batch_deps tm v) u"
    and "set (js_get_or adj u []) \<subseteq> set (js_keys tm)"
proof -
  let ?d0 = "map (\<lambda>(k, _). (k, 0::int)) tm" and ?a0 = "map (\<lambda>(k, _). (k, [])) tm :: edges"
  have f: "fold (add_task_edges tm) (map snd tm) (?d0, ?a0) = (deg, adj)"
    using b by (simp add: build_graph_def)
  have ids: "map c_id (map snd tm) = js_keys tm"
    using wf by (auto simp: wf_task_map_def)
  have dst: "distinct (map c_id (map snd tm))"
    unfolding ids using wf by (simp add: wf_task_map_def)
  have ent: "\<forall>ct\<in>set (map snd tm). js_get tm (c_id ct) = Some ct"
    using wf by (auto simp: wf_task_map_def intro!: map_of_is_SomeI)
  have keys0: "js_keys ?d0 = js_keys tm" by (induction tm) auto
  have img: "c_id ` set (map snd tm) = set (js_keys tm)"
    using ids by (metis list.set_map)
  have z1: "js_get_or ?d0 v 0 = 0" for v
    by (induction tm) (auto simp: js_get_or_def)
  have z2: "js_get_or ?a0 v [] = []" for v
    by (induction tm) (auto simp: js_get_or_def)
  note spec = build_graph_aux [OF wf f dst ent, unfolded keys0 img z1 z2, simplified]
  show k: "js_keys deg = js_keys tm" using spec by blast
  show "set (js_get_or adj u []) \<subseteq> set (js_keys tm)" using spec by auto
  show "v \<in> set (js_keys tm) \<Longrightarrow> js_get deg v = Some (int (length (batch_deps tm v)))"
  proof -
    assume v: "v \<in> set (js_keys tm)"
    then have "js_get deg v \<noteq> None" using k by (metis map_of_eq_None_iff list.set_map)
    then show ?thesis using spec [of v v] v by (auto simp: js_get_or_def)
  qed
  have "batch_deps tm v = []" if "v \<notin> set (js_keys tm)"
    using that by (simp add: batch_deps_def js_get_no_key)
  then show "count_list (js_get_or adj u []) v = count_list (batch_deps tm v) u"
    using spec [of u v] by (cases "v \<in> set (js_keys tm)") auto
qed

section \<open>The loop of the sort\<close>

lemma release_all:
  assumes "fold (release_neighbor lc) ns (deg, q) = (deg', q')"
    and "\<forall>v\<in>set ns. js_get deg v = Some (int (c v + count_list ns v)) \<and> v \<notin> set q"
    and "distinct q"
  shows "(\<forall>v. js_get deg' v = (if v \<in> set ns then Some (int (c v)) else js_get deg v))
    \<and> set q' = set q \<union> {v \<in> set ns. c v = 0} \<and> distinct q' \<and> js_keys deg' = js_keys deg"
  using assms
proof (induction ns arbitrary: deg q)
  case Nil
  then show ?case by simp
next
  case (Cons n ns)
  let ?d = "js_set n (int (c n + count_list ns n)) deg"
  have get_n: "js_get deg n = Some (int (c n + count_list ns n) + 1)"
    using Cons.prems(2) by simp
  then have nd: "js_get_or deg n 0 - 1 = int (c n + count_list ns n)"
    by (simp add: js_get_or_def)
  have keys: "js_keys ?d = js_keys deg"
    using js_get_key [OF get_n] by (simp add: js_map_simps)
  show ?case
  proof (cases "c n + count_list ns n = 0")
    case True
    then have z: "c n = 0" "n \<notin> set ns" by (simp_all add: count_list_0_iff)
    have r: "release_neighbor lc n (deg, q) = (?d, insert_ready lc n q)"
      using nd True by (simp add: release_neighbor_def)
    have "\<forall>v\<in>set ns. js_get ?d v = Some (int (c v + count_list ns v)) \<and> v \<notin> set (insert_ready lc n q)"
      using Cons.prems(2) z by (auto simp: js_map_simps)
    moreover have "distinct (insert_ready lc n q)"
      using Cons.prems(2,3) by simp
    moreover have "fold (release_neighbor lc) ns (?d, insert_ready lc n q) = (deg', q')"
      using Cons.prems(1) r by simp
    ultimately have "(\<forall>v. js_get deg' v = (if v \<in> set ns then Some (int (c v)) else js_get ?d v))
      \<and> set q' = set (insert_ready lc n q) \<union> {v \<in> set ns. c v = 0} \<and> distinct q'
      \<and> js_keys deg' = js_keys ?d"
      by (intro Cons.IH) auto
    then show ?thesis using z True keys by (auto simp: js_map_simps)
  next
    case False
    then have r: "release_neighbor lc n (deg, q) = (?d, q)"
      using nd by (auto simp: release_neighbor_def Let_def)
    have "\<forall>v\<in>set ns. js_get ?d v = Some (int (c v + count_list ns v)) \<and> v \<notin> set q"
      using Cons.prems(2) by (auto simp: js_map_simps)
    moreover have "fold (release_neighbor lc) ns (?d, q) = (deg', q')"
      using Cons.prems(1) r by simp
    ultimately have ih: "(\<forall>v. js_get deg' v = (if v \<in> set ns then Some (int (c v)) else js_get ?d v))
      \<and> set q' = set q \<union> {v \<in> set ns. c v = 0} \<and> distinct q' \<and> js_keys deg' = js_keys ?d"
      using Cons.prems(3) by (intro Cons.IH) auto
    have "n \<in> set ns" if "c n = 0"
      using False that by (simp add: count_list_0_iff)
    with ih keys show ?thesis
      by (auto simp: js_map_simps count_list_0_iff)
  qed
qed

text \<open>The in-batch dependencies of \<open>v\<close> that are not sorted yet.\<close>

definition waiting :: "task_map \<Rightarrow> string list \<Rightarrow> string \<Rightarrow> nat" where
  "waiting tm acc v = length (filter (\<lambda>d. d \<notin> set acc) (batch_deps tm v))"

lemma waiting_0: "waiting tm acc v = 0 \<longleftrightarrow> set (batch_deps tm v) \<subseteq> set acc"
  by (auto simp: waiting_def filter_empty_conv)

lemma waiting_snoc:
  "u \<notin> set acc \<Longrightarrow> waiting tm acc v = waiting tm (acc @ [u]) v + count_list (batch_deps tm v) u"
proof -
  assume u: "u \<notin> set acc"
  have "length (filter (\<lambda>d. d \<notin> set acc) ds) =
        length (filter (\<lambda>d. d \<notin> set (acc @ [u])) ds) + count_list ds u" for ds
    using u by (induction ds) auto
  then show ?thesis by (simp add: waiting_def)
qed

definition topological :: "task_map \<Rightarrow> string list \<Rightarrow> bool" where
  "topological tm ids = (\<forall>i < length ids. set (batch_deps tm (ids ! i)) \<subseteq> set (take i ids))"

lemma topological_snoc:
  "topological tm ids \<Longrightarrow> set (batch_deps tm v) \<subseteq> set ids \<Longrightarrow> topological tm (ids @ [v])"
  by (auto simp: topological_def nth_append less_Suc_eq)

text \<open>The invariant of the loop.\<close>

definition kahn_inv :: "task_map \<Rightarrow> degrees \<Rightarrow> string list \<Rightarrow> string list \<Rightarrow> bool" where
  "kahn_inv tm deg q acc =
     (js_keys deg = js_keys tm
      \<and> (\<forall>v \<in> set (js_keys tm). v \<notin> set acc \<longrightarrow> js_get deg v = Some (int (waiting tm acc v)))
      \<and> (\<forall>v \<in> set acc. js_get deg v = Some 0 \<and> waiting tm acc v = 0)
      \<and> distinct (q @ acc) \<and> set acc \<subseteq> set (js_keys tm)
      \<and> set q = {v \<in> set (js_keys tm). v \<notin> set acc \<and> waiting tm acc v = 0}
      \<and> topological tm acc)"

lemma kahn_step_inv:
  assumes b: "wf_task_map tm" "build_graph tm = (deg0, adj)"
    and inv: "kahn_inv tm deg (u # q) acc"
    and f: "fold (release_neighbor lc) (js_get_or adj u []) (deg, q) = (deg', q')"
  shows "kahn_inv tm deg' q' (acc @ [u])"
proof -
  let ?ns = "js_get_or adj u []"
  note bg = build_graph_spec [OF b]
  from inv have u: "u \<in> set (js_keys tm)" "u \<notin> set acc" "waiting tm acc u = 0" "u \<notin> set q"
    and dq: "distinct q" "distinct acc" "set q \<inter> set acc = {}"
    and qs: "insert u (set q) = {v \<in> set (js_keys tm). v \<notin> set acc \<and> waiting tm acc v = 0}"
    and topo: "topological tm acc" and keys: "js_keys deg = js_keys tm"
    and acc_keys: "set acc \<subseteq> set (js_keys tm)"
    and deg_acc: "\<forall>v \<in> set acc. js_get deg v = Some 0 \<and> waiting tm acc v = 0"
    and deg: "\<forall>v \<in> set (js_keys tm). v \<notin> set acc \<longrightarrow> js_get deg v = Some (int (waiting tm acc v))"
    unfolding kahn_inv_def by auto
  have cnt: "waiting tm acc v = waiting tm (acc @ [u]) v + count_list ?ns v" for v
    using waiting_snoc [OF u(2)] bg(3) by simp
  have mem: "v \<in> set ?ns \<longleftrightarrow> count_list ?ns v > 0" for v
    by (metis count_list_0_iff neq0_conv)
  have pos: "waiting tm acc v > 0" if "v \<in> set ?ns" for v
    using cnt [of v] mem [of v] that by linarith
  have pre: "\<forall>v\<in>set ?ns. js_get deg v = Some (int (waiting tm (acc @ [u]) v + count_list ?ns v)) \<and> v \<notin> set q"
  proof
    fix v assume v: "v \<in> set ?ns"
    with bg(4) have "v \<in> set (js_keys tm)" by blast
    moreover have "v \<notin> set acc" using deg_acc pos [OF v] by auto
    moreover have "v \<notin> set q" using qs pos [OF v] by (metis (mono_tags, lifting) insertCI mem_Collect_eq neq0_conv)
    ultimately show "js_get deg v = Some (int (waiting tm (acc @ [u]) v + count_list ?ns v)) \<and> v \<notin> set q"
      using deg cnt by metis
  qed
  note rel = release_all [OF f pre dq(1)]
  have same: "waiting tm (acc @ [u]) v = waiting tm acc v" if "v \<notin> set ?ns" for v
    using cnt [of v] mem [of v] that by simp
  have acc0: "waiting tm (acc @ [u]) v = 0" if "waiting tm acc v = 0" for v
    using cnt [of v] that by simp
  have set_q': "set q' = {v \<in> set (js_keys tm). v \<notin> set (acc @ [u]) \<and> waiting tm (acc @ [u]) v = 0}"
  proof (rule set_eqI)
    fix v
    have ns: "v \<in> set ?ns \<Longrightarrow> v \<in> set (js_keys tm) \<and> v \<noteq> u \<and> v \<notin> set acc"
      using bg(4) pos [of v] u(3) deg_acc by auto
    have "v \<in> set q' \<longleftrightarrow> v \<in> set q \<or> v \<in> set ?ns \<and> waiting tm (acc @ [u]) v = 0"
      using rel by auto
    also have "\<dots> \<longleftrightarrow> v \<in> {v \<in> set (js_keys tm). v \<notin> set (acc @ [u]) \<and> waiting tm (acc @ [u]) v = 0}"
      using qs ns acc0 [of v] same [of v] u(4) by (cases "v \<in> set ?ns") auto
    finally show "v \<in> set q' \<longleftrightarrow> \<dots>" .
  qed
  have deg': "\<forall>v \<in> set (js_keys tm). v \<notin> set (acc @ [u]) \<longrightarrow> js_get deg' v = Some (int (waiting tm (acc @ [u]) v))"
    using rel deg same by auto
  have deg_acc': "\<forall>v \<in> set (acc @ [u]). js_get deg' v = Some 0 \<and> waiting tm (acc @ [u]) v = 0"
  proof
    fix v assume v: "v \<in> set (acc @ [u])"
    then have "waiting tm acc v = 0" using deg_acc u(3) by auto
    moreover from this have "v \<notin> set ?ns" using pos by fastforce
    moreover have "js_get deg v = Some 0" using v deg_acc deg u by auto
    ultimately show "js_get deg' v = Some 0 \<and> waiting tm (acc @ [u]) v = 0"
      using rel acc0 by auto
  qed
  have dist: "distinct (q' @ acc @ [u])"
    using rel set_q' dq(2) u(2) by auto
  have "topological tm (acc @ [u])"
    using topo u(3) by (intro topological_snoc) (simp_all add: waiting_0)
  then show ?thesis
    unfolding kahn_inv_def using rel keys deg' deg_acc' dist acc_keys u(1) set_q' by auto
qed

lemma kahn_loop_inv:
  assumes "wf_task_map tm"
    and "build_graph tm = (deg0, adj)" "kahn_inv tm deg q acc" "kahn_loop lc adj deg q acc = (deg', ids)"
  shows "kahn_inv tm deg' [] ids"
  using assms(2-)
proof (induction lc adj deg q acc rule: kahn_loop.induct)
  case (1 lc adjacency deg acc)
  then show ?case by simp
next
  case (2 lc adjacency deg u q acc)
  obtain d1 q1 where f: "fold (release_neighbor lc) (js_get_or adjacency u []) (deg, q) = (d1, q1)"
    by fastforce
  have "kahn_inv tm d1 q1 (acc @ [u])"
    by (rule kahn_step_inv [OF assms(1) "2.prems"(1,2) f])
  with 2 f show ?case by simp
qed

lemma kahn_inv_start:
  assumes "wf_task_map tm" "build_graph tm = (deg, adj)"
  shows "kahn_inv tm deg (js_sort lc (map fst (filter (\<lambda>(k, d). d = 0) deg))) []"
proof -
  note bg = build_graph_spec [OF assms]
  have dist: "distinct (js_keys deg)" using assms(1) bg(1) by (simp add: wf_task_map_def)
  have "set (map fst (filter (\<lambda>(k, d). d = 0) deg)) = {v \<in> set (js_keys deg). js_get deg v = Some 0}"
    using dist by (force dest: map_of_SomeD intro: map_of_is_SomeI)
  moreover have "distinct (map fst (filter (\<lambda>(k, d). d = 0) deg))"
    using dist by (rule distinct_map_filter)
  moreover have "{v \<in> set (js_keys deg). js_get deg v = Some 0} =
      {v \<in> set (js_keys tm). waiting tm [] v = 0}"
    unfolding bg(1) using bg(2) by (intro Collect_cong conj_cong) (simp_all add: waiting_def)
  ultimately show ?thesis
    using bg(1,2) by (simp add: kahn_inv_def waiting_def topological_def)
qed

text \<open>The tasks of a preflight, by id.\<close>

abbreviation sorted_ids :: "partition_preflight \<Rightarrow> string list" where
  "sorted_ids pf \<equiv> map c_id (sortedTasks pf)"

lemma topological_sort_spec:
  assumes "wf_task_map tm" and pf_def: "pf = topological_sort rt tm"
  shows "taskMap pf = tm \<and> distinct (sorted_ids pf @ tasksInCycle pf)
    \<and> set (sorted_ids pf) \<union> set (tasksInCycle pf) = set (js_keys tm)
    \<and> topological tm (sorted_ids pf)
    \<and> (\<forall>v \<in> set (tasksInCycle pf). \<exists>d \<in> set (batch_deps tm v). d \<in> set (tasksInCycle pf))
    \<and> (\<forall>ct \<in> set (sortedTasks pf). js_get tm (c_id ct) = Some ct)"
proof -
  obtain deg adj where b: "build_graph tm = (deg, adj)" by fastforce
  let ?q = "js_sort (locale_compare rt) (map fst (filter (\<lambda>(k, d). d = 0) deg))"
  obtain deg' ids where k: "kahn_loop (locale_compare rt) adj deg ?q [] = (deg', ids)"
    by fastforce
  have inv: "kahn_inv tm deg' [] ids"
    by (rule kahn_loop_inv [OF assms(1) b kahn_inv_start [OF assms(1) b] k])
  let ?cyc = "map fst (filter (\<lambda>(k, d). d > 0) deg')"
  have pf: "pf = \<lparr>sortedTasks = map (\<lambda>id. the (js_get tm id)) ids, taskMap = tm, tasksInCycle = ?cyc\<rparr>"
    using b k by (simp add: pf_def topological_sort_def)
  have get: "js_get tm v = Some (the (js_get tm v)) \<and> c_id (the (js_get tm v)) = v" if "v \<in> set ids" for v
  proof -
    have "v \<in> fst ` set tm" using inv that by (auto simp: kahn_inv_def)
    then obtain ct where "js_get tm v = Some ct" by (metis map_of_eq_None_iff not_None_eq)
    then show ?thesis using wf_task_map_get [OF assms(1)] by simp
  qed
  then have ids: "sorted_ids pf = ids"
    by (auto simp: pf intro: map_idI)
  have dist: "distinct (js_keys deg')" using inv assms(1) by (simp add: kahn_inv_def wf_task_map_def)
  have cyc_get: "set ?cyc = {v \<in> set (js_keys deg'). the (js_get deg' v) > 0}"
    using dist by (force dest: map_of_SomeD intro: map_of_is_SomeI)
  have empty: "{v \<in> set (js_keys tm). v \<notin> set ids \<and> waiting tm ids v = 0} = {}"
    using inv by (simp add: kahn_inv_def)
  have cyc: "set ?cyc = {v \<in> set (js_keys tm). v \<notin> set ids}"
  proof (rule set_eqI)
    fix v
    show "v \<in> set ?cyc \<longleftrightarrow> v \<in> {v \<in> set (js_keys tm). v \<notin> set ids}"
    proof (cases "v \<in> set (js_keys tm) \<and> v \<notin> set ids")
      case True
      then have "js_get deg' v = Some (int (waiting tm ids v))" "waiting tm ids v > 0"
        using inv empty unfolding kahn_inv_def by (blast, fastforce)
      moreover have "js_keys deg' = js_keys tm" using inv unfolding kahn_inv_def by blast
      ultimately show ?thesis using True unfolding cyc_get by simp
    next
      case False
      have k: "js_keys deg' = js_keys tm" and z: "v \<in> set ids \<longrightarrow> js_get deg' v = Some 0"
        using inv unfolding kahn_inv_def by blast+
      show ?thesis unfolding cyc_get k using False z by auto
    qed
  qed
  have left: "\<forall>v \<in> set ?cyc. \<exists>d \<in> set (batch_deps tm v). d \<in> set ?cyc"
  proof
    fix v
    assume "v \<in> set ?cyc"
    then have v: "v \<in> {v \<in> set (js_keys tm). v \<notin> set ids}" using cyc by (simp only:)
    have "waiting tm ids v \<noteq> 0"
    proof
      assume "waiting tm ids v = 0"
      with v have "v \<in> {v \<in> set (js_keys tm). v \<notin> set ids \<and> waiting tm ids v = 0}"
        by (simp only: mem_Collect_eq simp_thms)
      then show False unfolding empty by (rule emptyE)
    qed
    then obtain d where d: "d \<in> set (batch_deps tm v)" "d \<notin> set ids" by (auto simp: waiting_0)
    from batch_deps_keys [OF d(1)] d(2) have "d \<in> set ?cyc" unfolding cyc by (intro CollectI conjI)
    with d(1) show "\<exists>d \<in> set (batch_deps tm v). d \<in> set ?cyc" by blast
  qed
  have dc: "distinct ?cyc" using dist by (rule distinct_map_filter)
  have topo: "topological tm ids" and sub: "set ids \<subseteq> set (js_keys tm)" and di: "distinct ids"
    using inv by (simp_all add: kahn_inv_def)
  have ents: "\<forall>ct \<in> set (sortedTasks pf). js_get tm (c_id ct) = Some ct"
    unfolding pf using get by auto
  have c: "tasksInCycle pf = ?cyc" and t: "taskMap pf = tm" unfolding pf by simp_all
  show ?thesis
    unfolding ids c t
  proof (intro conjI)
    show "distinct (ids @ ?cyc)" using di dc unfolding distinct_append cyc by blast
    show "set ids \<union> set ?cyc = set (js_keys tm)" using sub unfolding cyc by blast
  qed (use topo left ents in \<open>simp_all only:\<close>)
qed

section \<open>The preflight\<close>

lemma preflight_cases:
  "runPartitionPreflight rt directory pending config scopes disk =
     topological_sort rt (build_task_map
       (map (\<lambda>t. classify_task config (resolve_task_scope rt directory config scopes disk t)) pending) [])"
  by (simp add: runPartitionPreflight_def comp_def)

lemma classify_keeps_task [simp]:
  "c_task (classify_task config (resolve_task_scope rt directory config scopes disk t)) = t"
  by (auto simp: classify_task_def resolve_task_scope_def Let_def split: prod.split option.split)

lemma build_task_map_first:
  "js_get (build_task_map cts m) k =
     (case js_get m k of Some ct \<Rightarrow> Some ct | None \<Rightarrow> List.find (\<lambda>ct. c_id ct = k) cts)"
proof (induction cts arbitrary: m)
  case Nil
  then show ?case by (auto split: option.split)
next
  case (Cons ct cts)
  then show ?case
    by (auto simp: js_map_simps js_has_def split: option.splits)
qed

lemma find_map_classify:
  "List.find (\<lambda>ct. c_id ct = k) (map f ts) = map_option f (List.find (\<lambda>t. t_id t = k) ts)"
  if "\<And>t. c_task (f t) = t"
  by (induction ts) (auto simp: that)

text \<open>The task map of a preflight, and the dependencies it sees inside the batch.\<close>

lemma preflight_get:
  "js_get (build_task_map (map (\<lambda>t. classify_task config (resolve_task_scope rt directory config scopes disk t)) ts) []) k =
     map_option (\<lambda>t. classify_task config (resolve_task_scope rt directory config scopes disk t))
       (List.find (\<lambda>t. t_id t = k) ts)"
  by (simp add: build_task_map_first find_map_classify)

lemma preflight_keys:
  "set (js_keys (build_task_map (map (\<lambda>t. classify_task config (resolve_task_scope rt directory config scopes disk t)) ts) [])) =
     t_id ` set ts"
  by (simp only: set_keys_build_task_map) (auto simp: image_image)

lemma preflight_batch_deps:
  "batch_deps (build_task_map (map (\<lambda>t. classify_task config (resolve_task_scope rt directory config scopes disk t)) ts) []) v =
     (case List.find (\<lambda>t. t_id t = v) ts of
        None \<Rightarrow> []
      | Some t \<Rightarrow> filter (\<lambda>d. d \<in> t_id ` set ts) (depends t))"
  unfolding batch_deps_def preflight_get
  by (auto simp: js_has_keys preflight_keys [simplified] split: option.split intro: filter_cong)

section \<open>Properties of the preflight\<close>

text \<open>A preflight result, in terms of the pending tasks it was computed from.\<close>

lemma preflight_spec:
  assumes pf: "pf = runPartitionPreflight rt directory pending config scopes disk"
  shows "distinct (sorted_ids pf @ tasksInCycle pf)"
    and "set (sorted_ids pf) \<union> set (tasksInCycle pf) = t_id ` set pending"
    and "i < length (sortedTasks pf) \<Longrightarrow> List.find (\<lambda>t. t_id t = sorted_ids pf ! i) pending = Some (c_task (sortedTasks pf ! i))
           \<and> set (depends (c_task (sortedTasks pf ! i))) \<inter> t_id ` set pending \<subseteq> set (take i (sorted_ids pf))"
    and "v \<in> set (tasksInCycle pf) \<Longrightarrow> \<exists>t d. List.find (\<lambda>t. t_id t = v) pending = Some t \<and> d \<in> set (depends t)
           \<and> d \<in> set (tasksInCycle pf)"
proof -
  let ?tm = "build_task_map
       (map (\<lambda>t. classify_task config (resolve_task_scope rt directory config scopes disk t)) pending) []"
  note spec = topological_sort_spec [OF wf_build_task_map pf [unfolded preflight_cases]]
  show "distinct (sorted_ids pf @ tasksInCycle pf)" using spec by blast
  show "set (sorted_ids pf) \<union> set (tasksInCycle pf) = t_id ` set pending"
    using spec unfolding preflight_keys by blast
  show "List.find (\<lambda>t. t_id t = sorted_ids pf ! i) pending = Some (c_task (sortedTasks pf ! i))
           \<and> set (depends (c_task (sortedTasks pf ! i))) \<inter> t_id ` set pending \<subseteq> set (take i (sorted_ids pf))"
    if i: "i < length (sortedTasks pf)"
  proof -
    have "js_get ?tm (c_id (sortedTasks pf ! i)) = Some (sortedTasks pf ! i)"
      using spec i nth_mem by blast
    then obtain t where find: "List.find (\<lambda>t. t_id t = c_id (sortedTasks pf ! i)) pending = Some t"
      and ct: "sortedTasks pf ! i = classify_task config (resolve_task_scope rt directory config scopes disk t)"
      unfolding preflight_get map_option_eq_Some by metis
    have "c_task (sortedTasks pf ! i) = t" unfolding ct by simp
    note t = find this
    have "topological ?tm (sorted_ids pf)" using spec by blast
    then have "set (batch_deps ?tm (sorted_ids pf ! i)) \<subseteq> set (take i (sorted_ids pf))"
      using i by (simp add: topological_def)
    then show ?thesis
      using t i unfolding preflight_batch_deps by auto
  qed
  show "\<exists>t d. List.find (\<lambda>t. t_id t = v) pending = Some t \<and> d \<in> set (depends t) \<and> d \<in> set (tasksInCycle pf)"
    if v: "v \<in> set (tasksInCycle pf)"
  proof -
    have "\<exists>d \<in> set (batch_deps ?tm v). d \<in> set (tasksInCycle pf)" using spec v by blast
    then show ?thesis
      unfolding preflight_batch_deps by (cases "List.find (\<lambda>t. t_id t = v) pending") auto
  qed
qed

text \<open>The preflight's order is a topological order.  Its sorted tasks and the ids it reports
  in a cycle have no duplicates and together are exactly the ids of the pending tasks; an id that
  occurs twice stands for its first occurrence; and a sorted task comes after every pending task
  it depends on.\<close>

theorem preflight_topological:
  "let pf = runPartitionPreflight rt directory pending config scopes disk;
       ids = map (\<lambda>ct. t_id (c_task ct)) (sortedTasks pf)
   in distinct (ids @ tasksInCycle pf) \<and> set ids \<union> set (tasksInCycle pf) = t_id ` set pending \<and>
      (\<forall>i < length ids.
         List.find (\<lambda>t. t_id t = ids ! i) pending = Some (c_task (sortedTasks pf ! i)) \<and>
         set (depends (c_task (sortedTasks pf ! i))) \<inter> t_id ` set pending \<subseteq> set (take i ids))"
  using preflight_spec [OF refl] unfolding Let_def by (intro conjI allI impI) auto

text \<open>Every task the preflight reports as part of a cycle depends on a task that is reported
  as well, so none of them could ever be released; a task whose dependencies can all be released
  is never reported.\<close>

theorem preflight_cycle_stuck:
  "v \<in> set (tasksInCycle (runPartitionPreflight rt directory pending config scopes disk)) \<Longrightarrow>
   \<exists>t d. List.find (\<lambda>t. t_id t = v) pending = Some t \<and> d \<in> set (depends t) \<and>
         d \<in> set (tasksInCycle (runPartitionPreflight rt directory pending config scopes disk))"
  by (rule preflight_spec(4) [OF refl])

end
