(* ===== verification/Lane_Planner.thy ===== *)
theory Lane_Planner
  imports Partition_Facts
begin

text \<open>
  \<^verbatim>\<open>src/turbo/lean/planner.ts\<close>: \<open>planLeanTurboLanes\<close>, which partitions the pending tasks of
  one phase into parallel lanes, serialized tasks and degraded tasks.

  The mutable collections of the function are the fields of \<open>lane_state\<close>; one iteration of
  the inner \<open>for\<close> loop is \<open>assign_task\<close>, the outer \<open>while (true)\<close> is \<open>assign_waves\<close>, which
  terminates because every task of a non-empty ready list is assigned.  The plan id is built
  from the clock, which is the argument \<open>now\<close>.  The prose of the degradation summary is not
  modelled; which of the two summaries is given, with its numbers and reasons, is.
\<close>

record lean_lane =
  l_laneId :: string
  l_taskIds :: "string list"
  l_files :: "string list"

record degraded_task =
  d_taskId :: string
  d_reason :: string
  d_files :: "string list"

datatype degradation_summary =
    Rule3_Dominates nat nat  \<comment> \<open>all tasks, tasks blocked by rule 3\<close>
  | Degraded_Reasons nat "string list"

record lane_plan =
  lp_phase :: int
  lp_planId :: string
  lp_lanes :: "lean_lane list"
  lp_degradedTasks :: "degraded_task list"
  lp_serializedTasks :: "string list"
  lp_degradationSummary :: "degradation_summary option"
  lp_lanesPlanned :: nat
  lp_tasksSerialized :: nat
  lp_tasksDegraded :: nat
  lp_crossLaneDependencies :: "(string, string list) js_map"

definition createEmptyPlan :: "int \<Rightarrow> string \<Rightarrow> lane_plan" where
  "createEmptyPlan phaseNumber planId =
     \<lparr>lp_phase = phaseNumber, lp_planId = planId, lp_lanes = [], lp_degradedTasks = [],
      lp_serializedTasks = [], lp_degradationSummary = None, lp_lanesPlanned = 0,
      lp_tasksSerialized = 0, lp_tasksDegraded = 0, lp_crossLaneDependencies = []\<rparr>"

record lane_state =
  s_lanes :: "lean_lane list"
  s_serialized :: "string list"
  s_degraded :: "degraded_task list"
  s_claimed :: "string list"
  s_assigned :: "string list"
  s_taskToLane :: "(string, int) js_map"
  s_crossLane :: "(string, string list) js_map"

section \<open>One task\<close>

definition degrade_task :: "classified_task \<Rightarrow> string \<Rightarrow> lane_state \<Rightarrow> lane_state" where
  "degrade_task ct reason st =
     st\<lparr>s_degraded := s_degraded st @ [\<lparr>d_taskId = c_id ct, d_reason = reason, d_files = c_files ct\<rparr>],
        s_assigned := set_add (c_id ct) (s_assigned st)\<rparr>"

definition serialize_task :: "classified_task \<Rightarrow> lane_state \<Rightarrow> lane_state" where
  "serialize_task ct st =
     st\<lparr>s_serialized := s_serialized st @ [c_id ct],
        s_taskToLane := js_set (c_id ct) (-1) (s_taskToLane st),
        s_assigned := set_add (c_id ct) (s_assigned st)\<rparr>"

text \<open>How a conflict with a claimed file is resolved.\<close>

definition resolve_conflict :: "lean_config \<Rightarrow> classified_task \<Rightarrow> lane_state \<Rightarrow> lane_state" where
  "resolve_conflict config ct st =
     (if conflict_policy config = Degrade
      then degrade_task ct ''file conflict with parallel task'' st
      else serialize_task ct st)"

definition conflicts_with_lane :: "runtime \<Rightarrow> classified_task \<Rightarrow> lean_lane \<Rightarrow> bool" where
  "conflicts_with_lane rt ct lane =
     list_ex (\<lambda>laneFile. list_ex (\<lambda>taskFile. pathsConflict rt laneFile taskFile) (c_files ct)) (l_files lane)"

definition candidate_lane :: "runtime \<Rightarrow> lean_config \<Rightarrow> classified_task \<Rightarrow> lane_state \<Rightarrow> nat option" where
  "candidate_lane rt config ct st =
     (case find_index (\<lambda>lane. \<not> conflicts_with_lane rt ct lane) (s_lanes st) of
        Some i \<Rightarrow> Some i
      | None \<Rightarrow>
          if length (s_lanes st) < max_parallel_coders config then Some (length (s_lanes st)) else None)"

definition deps_in_other_lanes :: "task_map \<Rightarrow> classified_task \<Rightarrow> nat \<Rightarrow> lane_state \<Rightarrow> string list" where
  "deps_in_other_lanes tm ct candidate st =
     filter (\<lambda>dep.
       js_has tm dep \<and>
       (case js_get (s_taskToLane st) dep of
          None \<Rightarrow> False
        | Some depLane \<Rightarrow> depLane \<noteq> -1 \<and> depLane \<noteq> int candidate))
     (depends (c_task ct))"

definition place_in_lane :: "classified_task \<Rightarrow> nat \<Rightarrow> lane_state \<Rightarrow> lane_state" where
  "place_in_lane ct candidate st =
     (let st' =
        (if candidate < length (s_lanes st)
         then let lane = s_lanes st ! candidate
              in st\<lparr>s_lanes := (s_lanes st)[candidate :=
                       lane\<lparr>l_taskIds := l_taskIds lane @ [c_id ct], l_files := l_files lane @ c_files ct\<rparr>],
                    s_assigned := set_add (c_id ct) (s_assigned st),
                    s_taskToLane := js_set (c_id ct) (int candidate) (s_taskToLane st)\<rparr>
         else st\<lparr>s_lanes := s_lanes st @
                       [\<lparr>l_laneId = ''lane-'' @ show_nat (length (s_lanes st) + 1),
                         l_taskIds = [c_id ct], l_files = c_files ct\<rparr>],
                 s_assigned := set_add (c_id ct) (s_assigned st),
                 s_taskToLane := js_set (c_id ct) (int (length (s_lanes st))) (s_taskToLane st)\<rparr>)
      in st'\<lparr>s_claimed := fold set_add (c_files ct) (s_claimed st')\<rparr>)"

definition assign_normal :: "runtime \<Rightarrow> lean_config \<Rightarrow> task_map \<Rightarrow> classified_task \<Rightarrow> lane_state \<Rightarrow> lane_state" where
  "assign_normal rt config tm ct st =
     (if list_ex (\<lambda>file. file \<in> set (s_claimed st)) (c_files ct) then resolve_conflict config ct st
      else if list_ex (\<lambda>file. list_ex (\<lambda>claimed. pathsConflict rt file claimed) (s_claimed st)) (c_files ct)
      then resolve_conflict config ct st
      else
        case candidate_lane rt config ct st of
          None \<Rightarrow> serialize_task ct st
        | Some candidate \<Rightarrow>
            let depsInOtherLanes = deps_in_other_lanes tm ct candidate st
            in if length depsInOtherLanes > 0
               then (serialize_task ct st)\<lparr>s_crossLane := js_set (c_id ct) depsInOtherLanes (s_crossLane st)\<rparr>
               else place_in_lane ct candidate st)"

definition assign_task :: "runtime \<Rightarrow> lean_config \<Rightarrow> task_map \<Rightarrow> classified_task \<Rightarrow> lane_state \<Rightarrow> lane_state" where
  "assign_task rt config tm ct st =
     (if c_id ct \<in> set (s_assigned st) then st
      else case c_category ct of
             Global \<Rightarrow> degrade_task ct ''global file conflict'' st
           | Protected \<Rightarrow>
               if degrade_on_risk config then degrade_task ct ''protected path'' st else serialize_task ct st
           | No_Scope \<Rightarrow> serialize_task ct st
           | Invalid_Scope \<Rightarrow> serialize_task ct st
           | Normal \<Rightarrow> assign_normal rt config tm ct st)"

lemma assigned_helpers [simp]:
  "s_assigned (degrade_task ct r st) = set_add (c_id ct) (s_assigned st)"
  "s_assigned (serialize_task ct st) = set_add (c_id ct) (s_assigned st)"
  "s_assigned (resolve_conflict config ct st) = set_add (c_id ct) (s_assigned st)"
  "s_assigned (place_in_lane ct i st) = set_add (c_id ct) (s_assigned st)"
  by (simp_all add: degrade_task_def serialize_task_def resolve_conflict_def place_in_lane_def Let_def)

lemma assigned_assign_task [simp]:
  "s_assigned (assign_task rt config tm ct st) = set_add (c_id ct) (s_assigned st)"
proof (cases "c_id ct \<in> set (s_assigned st)")
  case True
  then show ?thesis by (simp add: assign_task_def set_add_def)
next
  case False
  then show ?thesis
    by (simp add: assign_task_def assign_normal_def Let_def split: task_risk_category.split option.split)
qed

lemma assigned_assign_tasks:
  "s_assigned (fold (assign_task rt config tm) cts st) = fold set_add (map c_id cts) (s_assigned st)"
  by (induction cts arbitrary: st) auto

section \<open>The waves of the planning loop\<close>

definition ready_now ::
  "runtime \<Rightarrow> (string \<Rightarrow> bool) option \<Rightarrow> classified_task list \<Rightarrow> task_map \<Rightarrow> lane_state \<Rightarrow> classified_task list" where
  "ready_now rt committed sortedList tm st =
     getReadyTasks rt sortedList (s_assigned st)
       (makeDependencySatisfactionChecker tm (s_assigned st) committed)"

definition unassigned :: "classified_task list \<Rightarrow> string list \<Rightarrow> nat" where
  "unassigned sortedList assigned = length (filter (\<lambda>ct. c_id ct \<notin> set assigned) sortedList)"

lemma unassigned_less:
  assumes "set assigned \<subseteq> set assigned'" "ct \<in> set sortedList" "c_id ct \<notin> set assigned" "c_id ct \<in> set assigned'"
  shows "unassigned sortedList assigned' < unassigned sortedList assigned"
proof -
  have le: "length (filter (\<lambda>ct. c_id ct \<notin> set assigned') xs) \<le> length (filter (\<lambda>ct. c_id ct \<notin> set assigned) xs)" for xs
    using assms(1) by (induction xs) auto
  obtain ys zs where "sortedList = ys @ ct # zs" using assms(2) by (meson split_list)
  then show ?thesis
    using le [of ys] le [of zs] assms(3,4) by (simp add: unassigned_def)
qed

lemma ready_now_mem:
  "ct \<in> set (ready_now rt committed sortedList tm st) \<longleftrightarrow>
     ct \<in> set sortedList \<and> c_id ct \<notin> set (s_assigned st) \<and>
     makeDependencySatisfactionChecker tm (s_assigned st) committed ct"
  by (simp add: ready_now_def getReadyTasks_def)

function assign_waves ::
  "runtime \<Rightarrow> lean_config \<Rightarrow> (string \<Rightarrow> bool) option \<Rightarrow> classified_task list \<Rightarrow> task_map \<Rightarrow> lane_state \<Rightarrow> lane_state" where
  "assign_waves rt config committed sortedList tm st =
     (let readyTasks = ready_now rt committed sortedList tm st
      in if readyTasks = [] then st
         else assign_waves rt config committed sortedList tm (fold (assign_task rt config tm) readyTasks st))"
  by pat_completeness auto
termination
proof (relation "measure (\<lambda>(rt, config, committed, sortedList, tm, st). unassigned sortedList (s_assigned st))", goal_cases)
  case 1
  show ?case by simp
next
  case (2 rt config committed sortedList tm st readyTasks)
  then obtain ct where ct: "ct \<in> set readyTasks" by (meson last_in_set)
  with 2 have "ct \<in> set sortedList" "c_id ct \<notin> set (s_assigned st)"
    by (simp_all add: ready_now_mem)
  with ct show ?case
    by (auto intro!: unassigned_less simp: assigned_assign_tasks set_fold_set_add)
qed

declare assign_waves.simps [simp del]

section \<open>Leftovers and the whole plan\<close>

text \<open>At most three names, then how many more.\<close>

definition sample_names :: "string list \<Rightarrow> string" where
  "sample_names xs =
     js_join '', '' (take 3 xs) @
     (if length xs > 3 then '', +'' @ show_nat (length xs - 3) @ '' more'' else [])"

definition rule3_text :: string where
  "rule3_text = ''greenfield-smart Rule 3''"

definition leftover_reason :: "task_map \<Rightarrow> (string \<Rightarrow> bool) \<Rightarrow> lane_state \<Rightarrow> classified_task \<Rightarrow> string" where
  "leftover_reason tm committed st ct =
     (let uncommittedCrossBatch = filter (\<lambda>dep. \<not> js_has tm dep \<and> \<not> committed dep) (depends (c_task ct));
          unassignedInBatch = filter (\<lambda>dep. js_has tm dep \<and> dep \<notin> set (s_assigned st)) (depends (c_task ct))
      in if length uncommittedCrossBatch > 0
         then ''cross-batch upstream not committed ('' @ rule3_text @ ''): '' @ sample_names uncommittedCrossBatch
         else if length unassignedInBatch > 0
         then ''unresolved in-batch dependency: '' @ sample_names unassignedInBatch
         else ''planning leftover (no identifiable blocker)'')"

definition degrade_leftover :: "task_map \<Rightarrow> (string \<Rightarrow> bool) \<Rightarrow> classified_task \<Rightarrow> lane_state \<Rightarrow> lane_state" where
  "degrade_leftover tm committed ct st =
     (if c_id ct \<in> set (s_assigned st) then st
      else (degrade_task ct (leftover_reason tm committed st ct) st)
             \<lparr>s_taskToLane := js_set (c_id ct) (-1) (s_taskToLane st)\<rparr>)"

definition summarize_degradation :: "nat \<Rightarrow> lane_state \<Rightarrow> degradation_summary option" where
  "summarize_degradation pending st =
     (if length (s_degraded st) > 0 \<and> length (s_degraded st) + length (s_serialized st) = pending
      then let reasons = js_uniq (map d_reason (s_degraded st));
               rule3Count = length (filter (\<lambda>t. js_includes (d_reason t) rule3_text) (s_degraded st))
           in if rule3Count > 0 \<and> 2 * rule3Count \<ge> length (s_degraded st)
              then Some (Rule3_Dominates pending rule3Count)
              else Some (Degraded_Reasons pending reasons)
      else None)"

definition initial_lane_state :: "string list \<Rightarrow> lane_state" where
  "initial_lane_state cycle =
     \<lparr>s_lanes = [], s_serialized = cycle, s_degraded = [], s_claimed = [], s_assigned = cycle,
      s_taskToLane = map (\<lambda>id. (id, -1)) cycle, s_crossLane = []\<rparr>"

definition run_planner :: "runtime \<Rightarrow> lean_config \<Rightarrow> (string \<Rightarrow> bool) option \<Rightarrow> partition_preflight \<Rightarrow> lane_state" where
  "run_planner rt config committed pf =
     (let st = assign_waves rt config committed (sortedTasks pf) (taskMap pf)
                 (initial_lane_state (tasksInCycle pf))
      in case committed of
           None \<Rightarrow> st
         | Some isCommitted \<Rightarrow> fold (degrade_leftover (taskMap pf) isCommitted) (sortedTasks pf) st)"

definition pending_of_phase :: "plan_phase \<Rightarrow> plan_task list" where
  "pending_of_phase phase = filter (\<lambda>t. t_status t \<noteq> Completed) (ph_tasks phase)"

definition planLeanTurboLanes ::
  "runtime \<Rightarrow> string \<Rightarrow> int \<Rightarrow> plan_phase list \<Rightarrow> lean_config \<Rightarrow> (string, string list) js_map option \<Rightarrow>
   (string \<Rightarrow> string list option) \<Rightarrow> (string \<Rightarrow> bool) option \<Rightarrow> nat \<Rightarrow> lane_plan" where
  "planLeanTurboLanes rt directory phaseNumber phases config scopes disk committed now =
     (case List.find (\<lambda>p. ph_id p = phaseNumber) phases of
        None \<Rightarrow> createEmptyPlan phaseNumber []
      | Some phase \<Rightarrow>
          let pendingTasks = pending_of_phase phase
          in if length pendingTasks = 0 then createEmptyPlan phaseNumber []
             else
               let pf = runPartitionPreflight rt directory pendingTasks config scopes disk;
                   st = run_planner rt config committed pf
               in \<lparr>lp_phase = phaseNumber,
                   lp_planId = ''plan-'' @ show_int phaseNumber @ ''-'' @ show_nat now,
                   lp_lanes = s_lanes st, lp_degradedTasks = s_degraded st,
                   lp_serializedTasks = s_serialized st,
                   lp_degradationSummary = summarize_degradation (length pendingTasks) st,
                   lp_lanesPlanned = length (s_lanes st), lp_tasksSerialized = length (s_serialized st),
                   lp_tasksDegraded = length (s_degraded st),
                   lp_crossLaneDependencies = s_crossLane st\<rparr>)"

end
