(* ===== verification/Lane_Planner_Facts.thy ===== *)
theory Lane_Planner_Facts
  imports Lane_Planner
begin

text \<open>
  The planning loop as an invariant of \<open>lane_state\<close>: every assigned task is in exactly one of
  the lanes, the serialized and the degraded tasks; the tasks in lanes are normal tasks whose
  files do not conflict with each other; and there is never more than one lane, because a task
  that conflicts with any claimed file has already been serialized or degraded when a lane is
  looked for.
\<close>

definition placed :: "lane_state \<Rightarrow> string list" where
  "placed st = concat (map l_taskIds (s_lanes st)) @ s_serialized st @ map d_taskId (s_degraded st)"

text \<open>\<open>cts\<close> are the tasks in lanes, in the order they were placed.\<close>

definition lane_inv :: "runtime \<Rightarrow> classified_task list \<Rightarrow> classified_task list \<Rightarrow> lane_state \<Rightarrow> bool" where
  "lane_inv rt all cts st =
     (length (s_lanes st) \<le> 1
      \<and> distinct (map c_id cts @ s_serialized st @ map d_taskId (s_degraded st))
      \<and> set (map c_id cts @ s_serialized st @ map d_taskId (s_degraded st)) = set (s_assigned st)
      \<and> set cts \<subseteq> set all
      \<and> concat (map l_taskIds (s_lanes st)) = map c_id cts
      \<and> set (concat (map l_files (s_lanes st))) = set (s_claimed st)
      \<and> set (s_claimed st) = \<Union> (set ` c_files ` set cts)
      \<and> sorted_wrt (\<lambda>a b. \<not> pathOverlap rt (c_files a) (c_files b)) cts
      \<and> (\<forall>ct \<in> set cts. c_category ct = Normal))"

lemma lane_inv_placed:
  "lane_inv rt all cts st \<Longrightarrow> distinct (placed st)"
  "lane_inv rt all cts st \<Longrightarrow> set (placed st) = set (s_assigned st)"
  by (simp_all only: lane_inv_def placed_def)

lemma lane_inv_degrade:
  "lane_inv rt all cts st \<Longrightarrow> c_id ct \<notin> set (s_assigned st) \<Longrightarrow> lane_inv rt all cts (degrade_task ct r st)"
  by (auto simp: lane_inv_def degrade_task_def)

lemma lane_inv_serialize:
  "lane_inv rt all cts st \<Longrightarrow> c_id ct \<notin> set (s_assigned st) \<Longrightarrow> lane_inv rt all cts (serialize_task ct st)"
  by (auto simp: lane_inv_def serialize_task_def)

lemma lane_inv_cong [simp]:
  "lane_inv rt all cts (st\<lparr>s_crossLane := x\<rparr>) = lane_inv rt all cts st"
  "lane_inv rt all cts (st\<lparr>s_taskToLane := y\<rparr>) = lane_inv rt all cts st"
  by (simp_all add: lane_inv_def)

lemma lane_inv_resolve:
  "lane_inv rt all cts st \<Longrightarrow> c_id ct \<notin> set (s_assigned st) \<Longrightarrow> lane_inv rt all cts (resolve_conflict config ct st)"
  by (simp add: resolve_conflict_def lane_inv_degrade lane_inv_serialize)

text \<open>A lane cannot conflict with a task that conflicts with no claimed file.\<close>

lemma candidate_without_conflict:
  assumes "lane_inv rt all cts st"
    and free: "\<not> list_ex (\<lambda>file. list_ex (\<lambda>claimed. pathsConflict rt file claimed) (s_claimed st)) (c_files ct)"
    and c: "candidate_lane rt config ct st = Some i"
  shows "i = 0"
proof (cases "s_lanes st")
  case Nil
  with c show ?thesis by (auto simp: candidate_lane_def split: if_splits)
next
  case (Cons lane lanes)
  with assms(1) have "set (l_files lane) \<subseteq> set (s_claimed st)" by (auto simp: lane_inv_def)
  with free have "\<not> conflicts_with_lane rt ct lane"
    using pathsConflict_sym by (fastforce simp: conflicts_with_lane_def list_ex_iff)
  with c Cons show ?thesis by (simp add: candidate_lane_def)
qed

lemma lane_inv_place:
  assumes inv: "lane_inv rt all cts st" and new: "c_id ct \<notin> set (s_assigned st)"
    and mem: "ct \<in> set all" "c_category ct = Normal"
    and free: "\<not> list_ex (\<lambda>file. list_ex (\<lambda>claimed. pathsConflict rt file claimed) (s_claimed st)) (c_files ct)"
  shows "lane_inv rt all (cts @ [ct]) (place_in_lane ct 0 st)"
proof -
  have disj: "\<not> pathOverlap rt (c_files a) (c_files ct)" if "a \<in> set cts" for a
  proof -
    have "set (c_files a) \<subseteq> set (s_claimed st)"
      using inv that by (auto simp: lane_inv_def)
    with free show ?thesis
      using pathsConflict_sym by (fastforce simp: pathOverlap_iff list_ex_iff)
  qed
  have claimed: "set (fold set_add (c_files ct) (s_claimed st)) = set (s_claimed st) \<union> set (c_files ct)"
    by (simp add: set_fold_set_add)
  show ?thesis
  proof (cases "s_lanes st")
    case Nil
    then show ?thesis
      using inv new mem disj claimed
      by (auto simp: lane_inv_def place_in_lane_def sorted_wrt_append)
  next
    case (Cons lane lanes)
    with inv have "lanes = []" by (simp add: lane_inv_def)
    with Cons show ?thesis
      using inv new mem disj claimed
      by (auto simp: lane_inv_def place_in_lane_def sorted_wrt_append)
  qed
qed

lemma lane_inv_assign_task:
  assumes inv: "lane_inv rt all cts st" and mem: "ct \<in> set all"
  shows "\<exists>cts'. lane_inv rt all cts' (assign_task rt config tm ct st)"
proof (cases "c_id ct \<in> set (s_assigned st)")
  case True
  with inv show ?thesis by (auto simp: assign_task_def)
next
  case new: False
  show ?thesis
  proof (cases "c_category ct = Normal")
    case False
    then show ?thesis
      using new lane_inv_degrade [OF inv new] lane_inv_serialize [OF inv new]
      by (cases "c_category ct") (auto simp: assign_task_def)
  next
    case True
    let ?free = "\<not> list_ex (\<lambda>file. list_ex (\<lambda>claimed. pathsConflict rt file claimed) (s_claimed st)) (c_files ct)"
    show ?thesis
    proof (cases ?free)
      case False
      then show ?thesis
        using new True lane_inv_resolve [OF inv new] by (auto simp: assign_task_def assign_normal_def)
    next
      case free: True
      then have nc: "\<not> list_ex (\<lambda>file. file \<in> set (s_claimed st)) (c_files ct)"
        using pathsConflict_refl by (fastforce simp: list_ex_iff)
      show ?thesis
        using lane_inv_place [OF inv new mem True free] candidate_without_conflict [OF inv free]
          lane_inv_serialize [OF inv new] new True free nc
        by (auto simp: assign_task_def assign_normal_def Let_def split: option.split)
    qed
  qed
qed

lemma lane_inv_assign_tasks:
  assumes "lane_inv rt all cts st" "set tasks \<subseteq> set all"
  shows "\<exists>cts'. lane_inv rt all cts' (fold (assign_task rt config tm) tasks st)"
  using assms
proof (induction tasks arbitrary: cts st)
  case Nil
  then show ?case by auto
next
  case (Cons ct tasks)
  then show ?case using lane_inv_assign_task [of rt all cts st ct] by fastforce
qed

lemma lane_inv_assign_waves:
  assumes "lane_inv rt sl cts st"
  shows "\<exists>cts'. lane_inv rt sl cts' (assign_waves rt config committed sl tm st)"
  using assms
proof (induction rt config committed sl tm st arbitrary: cts rule: assign_waves.induct)
  case (1 rt config committed sl tm st)
  show ?case
  proof (cases "ready_now rt committed sl tm st = []")
    case True
    with "1.prems" show ?thesis by (auto simp: assign_waves.simps [of rt config committed sl tm st])
  next
    case False
    have "set (ready_now rt committed sl tm st) \<subseteq> set sl" by (auto simp: ready_now_mem)
    from lane_inv_assign_tasks [OF "1.prems" this]
    obtain cts1 where "lane_inv rt sl cts1 (fold (assign_task rt config tm) (ready_now rt committed sl tm st) st)"
      by blast
    from "1.IH" [OF refl False this] False show ?thesis
      by (simp add: assign_waves.simps [of rt config committed sl tm st])
  qed
qed

lemma lane_inv_leftovers:
  assumes "lane_inv rt all cts st"
  shows "lane_inv rt all cts (fold (degrade_leftover tm committed) tasks st)"
  using assms
proof (induction tasks arbitrary: st)
  case Nil
  then show ?case by simp
next
  case (Cons ct tasks)
  then show ?case
    by (simp add: degrade_leftover_def lane_inv_degrade)
qed

section \<open>Nothing is dropped\<close>

lemma assign_waves_stuck: "ready_now rt committed sl tm (assign_waves rt config committed sl tm st) = []"
proof (induction rt config committed sl tm st rule: assign_waves.induct)
  case (1 rt config committed sl tm st)
  then show ?case
    by (cases "ready_now rt committed sl tm st = []")
       (simp_all add: assign_waves.simps [of rt config committed sl tm st])
qed

lemma assign_waves_assigned_mono: "set (s_assigned st) \<subseteq> set (s_assigned (assign_waves rt config committed sl tm st))"
proof (induction rt config committed sl tm st rule: assign_waves.induct)
  case (1 rt config committed sl tm st)
  show ?case
  proof (cases "ready_now rt committed sl tm st = []")
    case True
    then show ?thesis by (simp add: assign_waves.simps [of rt config committed sl tm st])
  next
    case False
    with "1.IH" [OF refl False] show ?thesis
      by (auto simp: assign_waves.simps [of rt config committed sl tm st] assigned_assign_tasks set_fold_set_add)
  qed
qed

lemma assign_waves_assigned_only:
  "set (s_assigned (assign_waves rt config committed sl tm st)) \<subseteq> set (s_assigned st) \<union> c_id ` set sl"
proof (induction rt config committed sl tm st rule: assign_waves.induct)
  case (1 rt config committed sl tm st)
  show ?case
  proof (cases "ready_now rt committed sl tm st = []")
    case True
    then show ?thesis by (auto simp: assign_waves.simps [of rt config committed sl tm st])
  next
    case False
    with "1.IH" [OF refl False] show ?thesis
      by (fastforce simp: assign_waves.simps [of rt config committed sl tm st] assigned_assign_tasks
          set_fold_set_add ready_now_mem)
  qed
qed

text \<open>With no upstream predicate every sorted task is assigned: the first one that were not
  would have all its dependencies assigned, so it would be ready.\<close>

lemma assign_waves_complete:
  assumes wf: "wf_task_map tm" and pf: "pf = topological_sort rt tm"
    and cyc: "set (tasksInCycle pf) \<subseteq> set (s_assigned st)"
  shows "c_id ` set (sortedTasks pf) \<subseteq> set (s_assigned (assign_waves rt config None (sortedTasks pf) tm st))"
proof -
  let ?sl = "sortedTasks pf" and ?st = "assign_waves rt config None (sortedTasks pf) tm st"
  note spec = topological_sort_spec [OF wf pf]
  have "sorted_ids pf ! i \<in> set (s_assigned ?st)" if "i < length ?sl" for i
    using that
  proof (induction i rule: less_induct)
    case (less i)
    let ?ct = "?sl ! i"
    have get: "js_get tm (c_id ?ct) = Some ?ct" using spec less.prems by auto
    have "set (batch_deps tm (c_id ?ct)) \<subseteq> set (take i (sorted_ids pf))"
      using spec less.prems by (auto simp: topological_def)
    also have "\<dots> \<subseteq> set (s_assigned ?st)"
      using less by (auto simp: in_set_conv_nth)
    finally have "makeDependencySatisfactionChecker tm (s_assigned ?st) None ?ct"
      using get by (auto simp: makeDependencySatisfactionChecker_def list_all_iff batch_deps_def)
    moreover have "?ct \<notin> set (ready_now rt None ?sl tm ?st)" by (simp add: assign_waves_stuck)
    ultimately show ?case using less.prems by (auto simp: ready_now_mem)
  qed
  then show ?thesis by (auto simp: in_set_conv_nth)
qed

lemma leftovers_assigned:
  "set (s_assigned (fold (degrade_leftover tm committed) tasks st)) = set (s_assigned st) \<union> c_id ` set tasks"
  by (induction tasks arbitrary: st) (auto simp: degrade_leftover_def)

lemma run_planner_spec:
  assumes wf: "wf_task_map tm" and pf: "pf = topological_sort rt tm"
  shows "\<exists>cts. lane_inv rt (sortedTasks pf) cts (run_planner rt config committed pf)"
    and "set (s_assigned (run_planner rt config committed pf)) = set (js_keys tm)"
proof -
  note spec = topological_sort_spec [OF wf pf]
  let ?st0 = "initial_lane_state (tasksInCycle pf)"
  have "lane_inv rt (sortedTasks pf) [] ?st0"
    using spec by (auto simp: lane_inv_def initial_lane_state_def)
  from lane_inv_assign_waves [OF this]
  obtain cts where "lane_inv rt (sortedTasks pf) cts
      (assign_waves rt config committed (sortedTasks pf) tm ?st0)" by blast
  with lane_inv_leftovers [OF this] spec
  have "lane_inv rt (sortedTasks pf) cts (run_planner rt config committed pf)"
    by (cases committed) (simp_all add: run_planner_def)
  then show "\<exists>cts. lane_inv rt (sortedTasks pf) cts (run_planner rt config committed pf)" ..
  have start: "set (s_assigned ?st0) = set (tasksInCycle pf)" by (simp add: initial_lane_state_def)
  have "set (js_keys tm) = c_id ` set (sortedTasks pf) \<union> set (tasksInCycle pf)" using spec by auto
  then show "set (s_assigned (run_planner rt config committed pf)) = set (js_keys tm)"
    using assign_waves_assigned_mono [of ?st0 rt config committed "sortedTasks pf" tm]
      assign_waves_assigned_only [of rt config committed "sortedTasks pf" tm ?st0]
      assign_waves_complete [OF wf pf, of ?st0 config] spec start
    by (cases committed) (auto simp: run_planner_def Let_def leftovers_assigned)
qed

lemma planner_decomposition:
  assumes "List.find (\<lambda>p. ph_id p = n) phases = Some phase" "pending_of_phase phase \<noteq> []"
  shows "planLeanTurboLanes rt directory n phases config scopes disk committed now =
    (let st = run_planner rt config committed
                (runPartitionPreflight rt directory (pending_of_phase phase) config scopes disk)
     in \<lparr>lp_phase = n, lp_planId = ''plan-'' @ show_int n @ ''-'' @ show_nat now,
         lp_lanes = s_lanes st, lp_degradedTasks = s_degraded st, lp_serializedTasks = s_serialized st,
         lp_degradationSummary = summarize_degradation (length (pending_of_phase phase)) st,
         lp_lanesPlanned = length (s_lanes st), lp_tasksSerialized = length (s_serialized st),
         lp_tasksDegraded = length (s_degraded st), lp_crossLaneDependencies = s_crossLane st\<rparr>)"
  using assms by (simp add: planLeanTurboLanes_def Let_def)

section \<open>Properties of the lane planner\<close>

lemma run_planner_preflight:
  assumes pf: "pf = runPartitionPreflight rt directory pending config scopes disk"
  shows "\<exists>cts. lane_inv rt (sortedTasks pf) cts (run_planner rt config committed pf)"
    and "set (s_assigned (run_planner rt config committed pf)) = t_id ` set pending"
proof -
  note spec = run_planner_spec [OF wf_build_task_map pf [unfolded preflight_cases]]
  show "\<exists>cts. lane_inv rt (sortedTasks pf) cts (run_planner rt config committed pf)" by (rule spec)
  show "set (s_assigned (run_planner rt config committed pf)) = t_id ` set pending"
    using spec(2) unfolding preflight_keys by blast
qed

lemma planner_state:
  assumes "List.find (\<lambda>p. ph_id p = n) phases = Some phase"
    and p: "p = planLeanTurboLanes rt directory n phases config scopes disk committed now"
  obtains cts st where
    "lane_inv rt (sortedTasks (runPartitionPreflight rt directory (pending_of_phase phase) config scopes disk)) cts st"
    "set (s_assigned st) = t_id ` set (pending_of_phase phase)"
    "lp_lanes p = s_lanes st" "lp_serializedTasks p = s_serialized st" "lp_degradedTasks p = s_degraded st"
proof (cases "pending_of_phase phase = []")
  case True
  have "lane_inv rt (sortedTasks (runPartitionPreflight rt directory (pending_of_phase phase) config scopes disk)) []
      (initial_lane_state [])"
    by (simp add: lane_inv_def initial_lane_state_def)
  moreover have "p = createEmptyPlan n []"
    using assms True by (simp add: planLeanTurboLanes_def)
  ultimately show ?thesis
    using that [of "[]" "initial_lane_state []"] True by (simp add: createEmptyPlan_def initial_lane_state_def)
next
  case False
  let ?pf = "runPartitionPreflight rt directory (pending_of_phase phase) config scopes disk"
  let ?st = "run_planner rt config committed ?pf"
  obtain cts where "lane_inv rt (sortedTasks ?pf) cts ?st" using run_planner_preflight(1) [OF refl] by blast
  moreover have "set (s_assigned ?st) = t_id ` set (pending_of_phase phase)"
    by (rule run_planner_preflight(2) [OF refl])
  ultimately show ?thesis
    using that [of cts ?st] planner_decomposition [OF assms(1) False] p by (simp add: Let_def)
qed

text \<open>The lane planner loses no task and plans no task twice: the tasks in lanes, the
  serialized tasks and the degraded tasks are pairwise distinct and together are exactly the
  tasks of the phase that are not completed.\<close>

theorem planLeanTurboLanes_complete:
  assumes "List.find (\<lambda>p. ph_id p = n) phases = Some phase"
    and "p = planLeanTurboLanes rt directory n phases config scopes disk committed now"
  shows "distinct (concat (map l_taskIds (lp_lanes p)) @ lp_serializedTasks p @ map d_taskId (lp_degradedTasks p)) \<and>
    set (concat (map l_taskIds (lp_lanes p)) @ lp_serializedTasks p @ map d_taskId (lp_degradedTasks p)) =
      t_id ` {t \<in> set (ph_tasks phase). t_status t \<noteq> Completed}"
proof -
  obtain cts st where "lane_inv rt
      (sortedTasks (runPartitionPreflight rt directory (pending_of_phase phase) config scopes disk)) cts st"
    "set (s_assigned st) = t_id ` set (pending_of_phase phase)"
    and p: "lp_lanes p = s_lanes st" "lp_serializedTasks p = s_serialized st" "lp_degradedTasks p = s_degraded st"
    by (rule planner_state [OF assms])
  then show ?thesis
    unfolding p using lane_inv_placed [of rt _ cts st] unfolding placed_def pending_of_phase_def set_filter by blast
qed

text \<open>Tasks that run in lanes are all classified normal, and any two of them have declared files
  none of which conflict, so no two coders edit overlapping paths.\<close>

theorem planLeanTurboLanes_lanes_disjoint:
  assumes "List.find (\<lambda>p. ph_id p = n) phases = Some phase"
    and "p = planLeanTurboLanes rt directory n phases config scopes disk committed now"
    and "a \<in> set (concat (map l_taskIds (lp_lanes p)))" "b \<in> set (concat (map l_taskIds (lp_lanes p)))" "a \<noteq> b"
  shows "\<exists>ca cb. {ca, cb} \<subseteq> set (sortedTasks (runPartitionPreflight rt directory
        (filter (\<lambda>t. t_status t \<noteq> Completed) (ph_tasks phase)) config scopes disk)) \<and>
      t_id (c_task ca) = a \<and> t_id (c_task cb) = b \<and> c_category ca = Normal \<and> c_category cb = Normal \<and>
      (\<forall>x \<in> set (c_files ca). \<forall>y \<in> set (c_files cb). \<not> pathsConflict rt x y)"
proof -
  obtain cts st where inv: "lane_inv rt
      (sortedTasks (runPartitionPreflight rt directory (pending_of_phase phase) config scopes disk)) cts st"
    and "set (s_assigned st) = t_id ` set (pending_of_phase phase)"
    and p: "lp_lanes p = s_lanes st" "lp_serializedTasks p = s_serialized st" "lp_degradedTasks p = s_degraded st"
    by (rule planner_state [OF assms(1,2)])
  have "a \<in> c_id ` set cts" "b \<in> c_id ` set cts"
    using inv assms(3,4) unfolding p lane_inv_def by (metis list.set_map)+
  then obtain ca cb where ca: "ca \<in> set cts" "c_id ca = a" and cb: "cb \<in> set cts" "c_id cb = b" by auto
  have "sorted_wrt (\<lambda>x y. \<not> pathOverlap rt (c_files x) (c_files y)) cts" using inv by (simp add: lane_inv_def)
  moreover have "ca \<noteq> cb" using ca cb assms(5) by auto
  ultimately have "\<not> pathOverlap rt (c_files ca) (c_files cb)"
    using ca(1) cb(1) path_overlap.disjoint_sym by (auto simp: sorted_wrt_iff_nth_less in_set_conv_nth) (metis linorder_neqE_nat)
  then show ?thesis
    using ca cb inv by (intro exI [of _ ca] exI [of _ cb]) (auto simp: lane_inv_def pathOverlap_iff pending_of_phase_def)
qed

text \<open>C40: However many coders the configuration allows, the planner never plans more than one lane:
  a task that conflicts with a claimed file is serialized or degraded before the lanes are
  searched, so every task that reaches the search fits the first lane.\<close>

theorem planLeanTurboLanes_single_lane:
  "length (lp_lanes (planLeanTurboLanes rt directory n phases config scopes disk committed now)) \<le> 1"
proof (cases "List.find (\<lambda>p. ph_id p = n) phases")
  case None
  then show ?thesis by (simp add: planLeanTurboLanes_def createEmptyPlan_def)
next
  case (Some phase)
  let ?p = "planLeanTurboLanes rt directory n phases config scopes disk committed now"
  obtain cts st where "lane_inv rt
      (sortedTasks (runPartitionPreflight rt directory (pending_of_phase phase) config scopes disk)) cts st"
    "set (s_assigned st) = t_id ` set (pending_of_phase phase)"
    and p: "lp_lanes ?p = s_lanes st" "lp_serializedTasks ?p = s_serialized st" "lp_degradedTasks ?p = s_degraded st"
    by (rule planner_state [OF Some refl])
  then show ?thesis by (simp add: lane_inv_def)
qed

section \<open>A concrete plan\<close>

definition example_task :: "string \<Rightarrow> string list \<Rightarrow> string list \<Rightarrow> plan_task" where
  "example_task i ds fs =
     \<lparr>t_id = i, t_description = [], t_status = Pending, t_depends = Some ds, t_files_touched = Some fs\<rparr>"

text \<open>Two independent tasks, one below a file of the first, and a cycle of two tasks.\<close>

definition example_phase :: plan_phase where
  "example_phase =
     \<lparr>ph_id = 1, ph_name = ''one'',
      ph_tasks =
        [example_task ''a'' [] [''m''], example_task ''b'' [] [''n''], example_task ''c'' [''b''] [''m/x''],
         example_task ''d'' [''e''] [''o''], example_task ''e'' [''d''] [''p'']]\<rparr>"

definition example_config :: lean_config where
  "example_config =
     \<lparr>max_parallel_coders = 4, require_declared_scope = False, conflict_policy = Serialize, degrade_on_risk = False\<rparr>"

abbreviation example_rt :: runtime where
  "example_rt \<equiv> posix_runtime ''/w''"

definition example_pf :: partition_preflight where
  "example_pf = runPartitionPreflight example_rt ''/w'' (ph_tasks example_phase) example_config None (\<lambda>_. None)"

definition example_plan :: lane_plan where
  "example_plan =
     planLeanTurboLanes example_rt ''/w'' 1 [example_phase] example_config None (\<lambda>_. None) None 7"

lemma example_preflight:
  "tasksInCycle example_pf = [''d'', ''e''] \<and> map c_id (sortedTasks example_pf) = [''a'', ''b'', ''c'']"
  by code_simp

lemma example_lanes: "concat (map l_taskIds (lp_lanes example_plan)) = [''a'', ''b'']"
  by code_simp

lemma example_phase_found: "List.find (\<lambda>p. ph_id p = 1) [example_phase] = Some example_phase"
  by (simp add: example_phase_def)

theorem preflight_topological_witness:
  "set (depends (c_task (sortedTasks example_pf ! 2))) \<inter> t_id ` set (ph_tasks example_phase)
     \<subseteq> set (take 2 (map c_id (sortedTasks example_pf)))"
proof -
  have "2 < length (map c_id (sortedTasks example_pf))"
    unfolding conjunct2 [OF example_preflight] by simp
  then show ?thesis
    using preflight_topological [of example_rt "''/w''" "ph_tasks example_phase" example_config None "\<lambda>_. None"]
    unfolding example_pf_def [symmetric] Let_def by blast
qed

theorem preflight_cycle_stuck_witness:
  "\<exists>t d. List.find (\<lambda>t. t_id t = ''d'') (ph_tasks example_phase) = Some t \<and> d \<in> set (depends t)
     \<and> d \<in> set (tasksInCycle example_pf)"
  unfolding example_pf_def
  by (rule preflight_cycle_stuck)
     (simp only: example_pf_def [symmetric] conjunct1 [OF example_preflight] list.set insert_iff simp_thms)

theorem planLeanTurboLanes_complete_witness:
  "set (concat (map l_taskIds (lp_lanes example_plan)) @ lp_serializedTasks example_plan @
        map d_taskId (lp_degradedTasks example_plan)) =
     t_id ` {t \<in> set (ph_tasks example_phase). t_status t \<noteq> Completed}"
  using planLeanTurboLanes_complete [OF example_phase_found example_plan_def] by blast

theorem planLeanTurboLanes_lanes_disjoint_witness:
  "\<exists>ca cb. {ca, cb} \<subseteq> set (sortedTasks (runPartitionPreflight example_rt ''/w''
        (filter (\<lambda>t. t_status t \<noteq> Completed) (ph_tasks example_phase)) example_config None (\<lambda>_. None))) \<and>
      t_id (c_task ca) = ''a'' \<and> t_id (c_task cb) = ''b'' \<and> c_category ca = Normal \<and> c_category cb = Normal \<and>
      \<not> pathOverlap example_rt (c_files ca) (c_files cb)"
proof -
  have "''a'' \<in> set (concat (map l_taskIds (lp_lanes example_plan)))"
    "''b'' \<in> set (concat (map l_taskIds (lp_lanes example_plan)))" "''a'' \<noteq> ''b''"
    unfolding example_lanes by simp_all
  from planLeanTurboLanes_lanes_disjoint [OF example_phase_found example_plan_def this] show ?thesis
    unfolding pathOverlap_iff by (simp only: bex_simps not_not ball_simps)
qed

end
