(* ===== verification/Cochange.thy ===== *)
theory Cochange
  imports Complex_Main Paths
begin

text \<open>
  \<^verbatim>\<open>src/epic/cochange-conflict.ts\<close>: \<open>epicPairConflict\<close>, the one conflict predicate of Epic
  mode.  Two scopes conflict when a path of one overlaps a path of the other, or when a
  threshold-passing co-change pair has one side owned exclusively by each scope.

  NPMI values are rationals; the rounding of IEEE doubles is not modelled.
\<close>

record cochange_entry =
  e_fileA :: string
  e_fileB :: string
  e_coChangeCount :: int
  e_npmi :: rat

record cochange_threshold =
  th_npmi :: rat
  th_minCoChanges :: int

datatype pair_reason = Path | Co_Change | Both | No_Conflict

record pair_verdict =
  pv_conflict :: bool
  pv_reason :: pair_reason
  pv_pathPairs :: "(string \<times> string) list"
  pv_cochangePairs :: "cochange_entry list"

definition pathMatches :: "string \<Rightarrow> string \<Rightarrow> bool" where
  "pathMatches scopePath cochangePath =
     (if scopePath = cochangePath then True else ends_with scopePath (slash # cochangePath))"

definition active_pair :: "cochange_threshold \<Rightarrow> cochange_entry \<Rightarrow> bool" where
  "active_pair th e = (e_coChangeCount e \<ge> th_minCoChanges th \<and> e_npmi e \<ge> th_npmi th)"

definition cross_couple :: "string list \<Rightarrow> string list \<Rightarrow> cochange_entry \<Rightarrow> bool" where
  "cross_couple normA normB entry =
     (let fa = e_fileA entry; fb = e_fileB entry;
          aTouchesFa = list_ex (\<lambda>p. pathMatches p fa) normA;
          aTouchesFb = list_ex (\<lambda>p. pathMatches p fb) normA;
          bTouchesFa = list_ex (\<lambda>p. pathMatches p fa) normB;
          bTouchesFb = list_ex (\<lambda>p. pathMatches p fb) normB;
          aExclusivelyFa = (aTouchesFa \<and> \<not> aTouchesFb);
          aExclusivelyFb = (aTouchesFb \<and> \<not> aTouchesFa);
          bExclusivelyFa = (bTouchesFa \<and> \<not> bTouchesFb);
          bExclusivelyFb = (bTouchesFb \<and> \<not> bTouchesFa)
      in (aExclusivelyFa \<and> bExclusivelyFb) \<or> (aExclusivelyFb \<and> bExclusivelyFa))"

definition path_pairs :: "runtime \<Rightarrow> string list \<Rightarrow> string list \<Rightarrow> (string \<times> string) list" where
  "path_pairs rt normA normB =
     concat (map (\<lambda>a. map (Pair a) (filter (\<lambda>b. pathsConflict rt a b) normB)) normA)"

definition epicPairConflict ::
  "runtime \<Rightarrow> string list \<Rightarrow> string list \<Rightarrow> cochange_entry list \<Rightarrow> cochange_threshold \<Rightarrow> pair_verdict" where
  "epicPairConflict rt scopeA scopeB cochangePairs threshold =
     (let normA = map (normalizePath rt) scopeA;
          normB = map (normalizePath rt) scopeB;
          pathPairs = path_pairs rt normA normB;
          pathConflict = length pathPairs > 0;
          activePairs = filter (active_pair threshold) cochangePairs;
          cochangeMatches = filter (cross_couple normA normB) activePairs;
          cochangeConflict = length cochangeMatches > 0;
          reason = (if pathConflict \<and> cochangeConflict then Both
                    else if pathConflict then Path
                    else if cochangeConflict then Co_Change
                    else No_Conflict)
      in \<lparr>pv_conflict = (pathConflict \<or> cochangeConflict), pv_reason = reason,
          pv_pathPairs = pathPairs, pv_cochangePairs = cochangeMatches\<rparr>)"

section \<open>What the verdict means\<close>

lemma path_pairs_mem: "(a, b) \<in> set (path_pairs rt xs ys) \<longleftrightarrow> a \<in> set xs \<and> b \<in> set ys \<and> pathsConflict rt a b"
  by (auto simp: path_pairs_def)

lemma path_pairs_Nil: "path_pairs rt xs ys = [] \<longleftrightarrow> \<not> pathOverlap rt xs ys"
proof -
  have "path_pairs rt xs ys \<noteq> [] \<longleftrightarrow> (\<exists>a b. (a, b) \<in> set (path_pairs rt xs ys))"
    by (cases "path_pairs rt xs ys") auto
  then show ?thesis unfolding path_pairs_mem pathOverlap_iff by blast
qed

text \<open>The files a scope touches, and the pairs it owns one side of.\<close>

definition touches :: "string list \<Rightarrow> string \<Rightarrow> bool" where
  "touches paths file = (\<exists>p \<in> set paths. pathMatches p file)"

lemma cross_couple_iff:
  "cross_couple a b e \<longleftrightarrow>
     (touches a (e_fileA e) \<and> \<not> touches a (e_fileB e) \<and> touches b (e_fileB e) \<and> \<not> touches b (e_fileA e)) \<or>
     (touches a (e_fileB e) \<and> \<not> touches a (e_fileA e) \<and> touches b (e_fileA e) \<and> \<not> touches b (e_fileB e))"
  by (auto simp: cross_couple_def Let_def touches_def list_ex_iff)

lemma cross_couple_sym: "cross_couple a b e = cross_couple b a e"
  by (auto simp: cross_couple_iff)

lemma cross_couple_irrefl: "\<not> cross_couple a a e"
  by (auto simp: cross_couple_iff)

lemma epicPairConflict_iff:
  "pv_conflict (epicPairConflict rt sa sb pairs th) \<longleftrightarrow>
     pathOverlap rt (map (normalizePath rt) sa) (map (normalizePath rt) sb) \<or>
     (\<exists>e \<in> set pairs. active_pair th e \<and>
        cross_couple (map (normalizePath rt) sa) (map (normalizePath rt) sb) e)"
  by (auto simp: epicPairConflict_def Let_def path_pairs_Nil filter_empty_conv)

text \<open>The predicate is a conflict relation in the sense of the locale \<open>scope_overlap\<close> as long
  as only paths count; the co-change half is symmetric and monotone in its pairs, but not in the
  scopes.\<close>

text \<open>The verdict of \<open>epicPairConflict\<close> is symmetric in the two scopes: neither whether they
  conflict nor the reason depends on the order in which they are given.\<close>

theorem epicPairConflict_symmetric:
  "pv_conflict (epicPairConflict rt sa sb pairs th) = pv_conflict (epicPairConflict rt sb sa pairs th) \<and>
   pv_reason (epicPairConflict rt sa sb pairs th) = pv_reason (epicPairConflict rt sb sa pairs th)"
proof -
  let ?a = "map (normalizePath rt) sa" and ?b = "map (normalizePath rt) sb"
  have "path_pairs rt ?a ?b = [] \<longleftrightarrow> path_pairs rt ?b ?a = []"
    unfolding path_pairs_Nil using path_overlap.disjoint_sym by blast
  moreover have "cross_couple ?a ?b = cross_couple ?b ?a"
    by (rule ext) (rule cross_couple_sym)
  ultimately show ?thesis by (simp add: epicPairConflict_def Let_def)
qed

text \<open>The co-change signal only escalates.  Without co-change pairs the verdict is exactly the
  path-only one; more pairs never remove a conflict; and a pair whose two files both lie within
  one of the scopes is never a reason.\<close>

theorem epicPairConflict_escalates:
  "(pv_conflict (epicPairConflict rt sa sb [] th) =
      (\<exists>x \<in> normalizePath rt ` set sa. \<exists>y \<in> normalizePath rt ` set sb. pathsConflict rt x y)) \<and>
   (set pairs \<subseteq> set pairs' \<and> pv_conflict (epicPairConflict rt sa sb pairs th) \<longrightarrow>
      pv_conflict (epicPairConflict rt sa sb pairs' th)) \<and>
   (e \<in> set (pv_cochangePairs (epicPairConflict rt sa sb pairs th)) \<longrightarrow>
      \<not> (touches (map (normalizePath rt) sa) (e_fileA e) \<and> touches (map (normalizePath rt) sa) (e_fileB e)) \<and>
      \<not> (touches (map (normalizePath rt) sb) (e_fileA e) \<and> touches (map (normalizePath rt) sb) (e_fileB e)))"
proof (intro conjI impI)
  show "pv_conflict (epicPairConflict rt sa sb [] th) =
      (\<exists>x \<in> normalizePath rt ` set sa. \<exists>y \<in> normalizePath rt ` set sb. pathsConflict rt x y)"
    by (simp add: epicPairConflict_iff pathOverlap_iff)
  show "pv_conflict (epicPairConflict rt sa sb pairs' th)"
    if "set pairs \<subseteq> set pairs' \<and> pv_conflict (epicPairConflict rt sa sb pairs th)"
    using that by (auto simp: epicPairConflict_iff)
  assume "e \<in> set (pv_cochangePairs (epicPairConflict rt sa sb pairs th))"
  then have "cross_couple (map (normalizePath rt) sa) (map (normalizePath rt) sb) e"
    by (simp add: epicPairConflict_def Let_def)
  then show "\<not> (touches (map (normalizePath rt) sa) (e_fileA e) \<and> touches (map (normalizePath rt) sa) (e_fileB e))"
    and "\<not> (touches (map (normalizePath rt) sb) (e_fileA e) \<and> touches (map (normalizePath rt) sb) (e_fileB e))"
    unfolding cross_couple_iff by blast+
qed

definition example_pair :: cochange_entry where
  "example_pair = \<lparr>e_fileA = ''f'', e_fileB = ''g'', e_coChangeCount = 5, e_npmi = 1 / 2\<rparr>"

definition example_threshold :: cochange_threshold where
  "example_threshold = \<lparr>th_npmi = 1 / 5, th_minCoChanges = 3\<rparr>"

lemma example_pair_conflict:
  "pv_cochangePairs (epicPairConflict (posix_runtime ''/'') [''x/f''] [''x/g''] [example_pair] example_threshold) = [example_pair]"
  by code_simp

theorem epicPairConflict_escalates_witness:
  "pv_conflict (epicPairConflict (posix_runtime ''/'') [''x/f''] [''x/g''] [example_pair, example_pair] example_threshold)
   \<and> \<not> (touches [''x/f''] ''f'' \<and> touches [''x/f''] ''g'')"
proof -
  let ?v = "epicPairConflict (posix_runtime ''/'') [''x/f''] [''x/g''] [example_pair] example_threshold"
  have c: "pv_conflict ?v" by code_simp
  have n: "map (normalizePath (posix_runtime ''/'')) [''x/f''] = [''x/f'']" by code_simp
  have f: "e_fileA example_pair = ''f''" "e_fileB example_pair = ''g''" by (simp_all add: example_pair_def)
  have m: "example_pair \<in> set (pv_cochangePairs ?v)" unfolding example_pair_conflict by simp
  have s: "set [example_pair] \<subseteq> set [example_pair, example_pair]" by simp
  show ?thesis
    using epicPairConflict_escalates [of "posix_runtime ''/''" "[''x/f'']" "[''x/g'']" example_threshold
        "[example_pair]" "[example_pair, example_pair]" example_pair] c m s
    unfolding n f by blast
qed

end
