(* ===== verification/Learning.thy ===== *)
theory Learning
  imports Cochange
begin

text \<open>
  \<^verbatim>\<open>src/epic/learning.ts\<close>: what an epic learns from the outcomes of its tasks.  The
  statistics are two insertion-ordered maps (per file: incident and exposure mass; per declared
  file: the files co-written with it, with weights).  Masses are rationals; every number that
  reaches this module is read from JSON, so the \<open>Number.isFinite\<close> guards hold and have no
  branch here.  \<open>Date.parse\<close> of the last update is the argument \<open>updated\<close>, and the retention
  override of the test seam is the argument of \<open>resolveRetentionCap\<close>.
\<close>

section \<open>Constants\<close>

definition MAX_EPIC_LEARNING_FILES :: nat where "MAX_EPIC_LEARNING_FILES = 2000"
definition MAX_EPIC_LEARNING_EDGES :: nat where "MAX_EPIC_LEARNING_EDGES = 2000"
definition EPIC_LEARNING_DROP_BELOW :: rat where "EPIC_LEARNING_DROP_BELOW = 1 / 20"
definition EPIC_LEARNING_PRIOR_MEAN :: rat where "EPIC_LEARNING_PRIOR_MEAN = 1 / 10"
definition EPIC_LEARNING_PRIOR_STRENGTH :: rat where "EPIC_LEARNING_PRIOR_STRENGTH = 2"
definition EPIC_HOT_MIN_ALPHA :: rat where "EPIC_HOT_MIN_ALPHA = 1"
definition EPIC_EXPANSION_MIN_WEIGHT :: rat where "EPIC_EXPANSION_MIN_WEIGHT = 1"

definition PRIOR_A0 :: rat where
  "PRIOR_A0 = EPIC_LEARNING_PRIOR_MEAN * EPIC_LEARNING_PRIOR_STRENGTH"

definition PRIOR_B0 :: rat where
  "PRIOR_B0 = (1 - EPIC_LEARNING_PRIOR_MEAN) * EPIC_LEARNING_PRIOR_STRENGTH"

definition DAY_MS :: int where "DAY_MS = 24 * 60 * 60 * 1000"

record incident_weights =
  w_undeclared :: rat
  w_mergeFailurePerDeclared :: rat
  w_stageBFailure :: rat
  w_reworkPerGeneration :: rat
  w_reworkMaxGenerations :: rat
  w_reopen :: rat

definition EPIC_LEARNING_INCIDENT_WEIGHTS :: incident_weights where
  "EPIC_LEARNING_INCIDENT_WEIGHTS =
     \<lparr>w_undeclared = 1, w_mergeFailurePerDeclared = 1 / 2, w_stageBFailure = 1 / 4,
      w_reworkPerGeneration = 1 / 4, w_reworkMaxGenerations = 4, w_reopen = 1 / 2\<rparr>"

section \<open>The statistics\<close>

record file_stats =
  alpha :: rat
  beta :: rat

type_synonym cowrite_index = "(string, (string, rat) js_map) js_map"

record learning_stats =
  ls_files :: "(string, file_stats) js_map"
  ls_edges :: cowrite_index

definition emptyEpicLearning :: learning_stats where
  "emptyEpicLearning = \<lparr>ls_files = [], ls_edges = []\<rparr>"

definition isEpicLearningEmpty :: "learning_stats \<Rightarrow> bool" where
  "isEpicLearningEmpty stats = (length (ls_files stats) = 0 \<and> length (ls_edges stats) = 0)"

definition isLearnablePath :: "string \<Rightarrow> bool" where
  "isLearnablePath file =
     (length file > 0 \<and> file \<noteq> ''.'' \<and> file \<noteq> ''.swarm'' \<and> \<not> starts_with file ''.swarm/'' \<and>
      \<not> starts_with file ''../'' \<and> file \<noteq> ''..'' \<and> \<not> starts_with file ''/'')"

definition learnablePaths :: "runtime \<Rightarrow> string list \<Rightarrow> string list" where
  "learnablePaths rt files =
     fold (\<lambda>file out. let normalized = normalizePath rt file
                      in if isLearnablePath normalized then set_add normalized out else out) files []"

definition addFile :: "string \<Rightarrow> rat \<Rightarrow> rat \<Rightarrow> learning_stats \<Rightarrow> learning_stats" where
  "addFile file a b stats =
     (if a = 0 \<and> b = 0 then stats
      else let current = js_get_or (ls_files stats) file \<lparr>alpha = 0, beta = 0\<rparr>
           in stats\<lparr>ls_files := js_set file \<lparr>alpha = alpha current + a, beta = beta current + b\<rparr> (ls_files stats)\<rparr>)"

definition addEdge :: "string \<Rightarrow> string \<Rightarrow> rat \<Rightarrow> learning_stats \<Rightarrow> learning_stats" where
  "addEdge src to weight stats =
     (if src = to \<or> weight = 0 then stats
      else let targets = js_get_or (ls_edges stats) src []
           in stats\<lparr>ls_edges := js_set src (js_set to (js_get_or targets to 0 + weight) targets) (ls_edges stats)\<rparr>)"

definition undeclaredFiles :: "runtime \<Rightarrow> string list \<Rightarrow> string list \<Rightarrow> string list" where
  "undeclaredFiles rt declaredScope actualFiles =
     (let declared = js_uniq (map (normalizePath rt) declaredScope);
          actual = js_sort code_unit_compare (js_uniq (map (normalizePath rt) actualFiles));
          covers = (\<lambda>d f. length d \<le> length f \<and> pathsConflict rt d f)
      in filter (\<lambda>f. \<not> list_ex (\<lambda>d. covers d f) declared) actual)"

section \<open>Learning from outcomes\<close>

datatype resolution = Res_Completed | Res_Closed | Res_Removed

record previous_outcome =
  pr_waveSeq :: int
  pr_generation :: int
  pr_stageBFailures :: int
  pr_reopened :: int

record task_outcome =
  o_taskId :: string
  o_resolution :: resolution
  o_generation :: int
  o_stageBFailures :: int
  o_mergeFailure :: bool
  o_declared :: "string list"
  o_undeclared :: "string list"
  o_reopened :: int
  o_previous :: "previous_outcome option"

record learning_options =
  lo_isDirectory :: "string \<Rightarrow> bool"
  lo_learnedThroughWaveSeq :: "int option"

definition reworkCharge :: "int \<Rightarrow> rat" where
  "reworkCharge generation =
     w_reworkPerGeneration EPIC_LEARNING_INCIDENT_WEIGHTS *
     min (max (of_int generation - 1) 0) (w_reworkMaxGenerations EPIC_LEARNING_INCIDENT_WEIGHTS)"

definition count_of :: "int option \<Rightarrow> rat" where
  "count_of v = (case v of None \<Rightarrow> 0 | Some n \<Rightarrow> max 0 (of_int n))"

definition file_entries :: "runtime \<Rightarrow> learning_options \<Rightarrow> string list \<Rightarrow> string list \<Rightarrow> string list" where
  "file_entries rt opts declared all =
     filter (\<lambda>entry.
        \<not> list_ex (\<lambda>other. other \<noteq> entry \<and> length other > length entry \<and> pathsConflict rt entry other) all \<and>
        \<not> lo_isDirectory opts entry) declared"

definition learned_previous :: "learning_options \<Rightarrow> task_outcome \<Rightarrow> previous_outcome option" where
  "learned_previous opts outcome =
     (case o_previous outcome of
        Some p \<Rightarrow>
          (case lo_learnedThroughWaveSeq opts of
             Some s \<Rightarrow> if pr_waveSeq p \<le> s then Some p else None
           | None \<Rightarrow> None)
      | None \<Rightarrow> None)"

definition per_declared :: "learning_options \<Rightarrow> task_outcome \<Rightarrow> rat" where
  "per_declared opts outcome =
     (let w = EPIC_LEARNING_INCIDENT_WEIGHTS;
          previous = learned_previous opts outcome
      in (if o_mergeFailure outcome then w_mergeFailurePerDeclared w else 0) +
         w_stageBFailure w *
           max 0 (count_of (Some (o_stageBFailures outcome)) - count_of (map_option pr_stageBFailures previous)) +
         max 0 (reworkCharge (o_generation outcome) -
                (case previous of Some p \<Rightarrow> reworkCharge (pr_generation p) | None \<Rightarrow> 0)) +
         w_reopen w *
           max 0 (count_of (Some (o_reopened outcome)) - count_of (map_option pr_reopened previous)))"

definition learn_outcome :: "runtime \<Rightarrow> learning_options \<Rightarrow> task_outcome \<Rightarrow> learning_stats \<Rightarrow> learning_stats" where
  "learn_outcome rt opts outcome stats =
     (if o_resolution outcome = Res_Removed then stats
      else
        let declared = learnablePaths rt (o_declared outcome);
            undeclared = filter (\<lambda>file. file \<notin> set declared) (learnablePaths rt (o_undeclared outcome));
            fileEntries = file_entries rt opts declared (declared @ undeclared);
            stats1 = fold (\<lambda>file. addFile file 0 1) fileEntries stats;
            stats2 = fold (\<lambda>file st.
                       fold (\<lambda>d. addEdge d file 1) declared
                         (addFile file (w_undeclared EPIC_LEARNING_INCIDENT_WEIGHTS) 0 st))
                     undeclared stats1;
            perDeclared = per_declared opts outcome
        in if perDeclared > 0 then fold (\<lambda>file. addFile file perDeclared 0) fileEntries stats2 else stats2)"

definition epicLearningFromOutcomes :: "runtime \<Rightarrow> task_outcome list \<Rightarrow> learning_options \<Rightarrow> learning_stats" where
  "epicLearningFromOutcomes rt outcomes opts = fold (learn_outcome rt opts) outcomes emptyEpicLearning"

section \<open>Merging, scaling, ageing and bounding\<close>

definition mergeEpicLearning :: "learning_stats \<Rightarrow> learning_stats \<Rightarrow> learning_stats" where
  "mergeEpicLearning a b =
     fold (\<lambda>(src, targets) st. fold (\<lambda>(to, weight). addEdge src to weight) targets st) (ls_edges b)
       (fold (\<lambda>(file, s). addFile file (alpha s) (beta s)) (ls_files b) a)"

definition scaleEpicLearning :: "learning_stats \<Rightarrow> rat \<Rightarrow> learning_stats" where
  "scaleEpicLearning stats factor =
     (let f = min (max factor 0) 1
      in \<lparr>ls_files = map (\<lambda>(file, s). (file, \<lparr>alpha = alpha s * f, beta = beta s * f\<rparr>)) (ls_files stats),
          ls_edges = map (\<lambda>(src, targets). (src, map (\<lambda>(to, weight). (to, weight * f)) targets)) (ls_edges stats)\<rparr>)"

definition epicTimeDecayFactor :: "int option \<Rightarrow> int \<Rightarrow> rat \<Rightarrow> rat" where
  "epicTimeDecayFactor updated nowMs halfLifeDays =
     (case updated of
        None \<Rightarrow> 1
      | Some u \<Rightarrow>
          if \<not> halfLifeDays > 0 then 1
          else let days = rat_of_int (max 0 (nowMs - u)) / of_int DAY_MS
               in (1 / 2) ^ nat \<lfloor>days / halfLifeDays\<rfloor>)"

definition resolveRetentionCap :: "nat option \<Rightarrow> nat \<Rightarrow> nat" where
  "resolveRetentionCap override defaultValue =
     (case override of Some v \<Rightarrow> if v \<ge> 1 then v else defaultValue | None \<Rightarrow> defaultValue)"

definition rat_compare :: "rat \<Rightarrow> rat \<Rightarrow> int" where
  "rat_compare x y = (if x < y then -1 else if y < x then 1 else 0)"

definition mass :: "file_stats \<Rightarrow> rat" where
  "mass s = alpha s + beta s"

definition mass_order :: "runtime \<Rightarrow> string \<times> file_stats \<Rightarrow> string \<times> file_stats \<Rightarrow> int" where
  "mass_order rt a b =
     cmp_or (rat_compare (mass (snd b)) (mass (snd a))) (locale_compare rt (fst a) (fst b))"

definition edge_order :: "runtime \<Rightarrow> string \<times> string \<times> rat \<Rightarrow> string \<times> string \<times> rat \<Rightarrow> int" where
  "edge_order rt a b =
     cmp_or (rat_compare (snd (snd b)) (snd (snd a)))
       (cmp_or (locale_compare rt (fst a) (fst b)) (locale_compare rt (fst (snd a)) (fst (snd b))))"

definition flat_edges :: "cowrite_index \<Rightarrow> (string \<times> string \<times> rat) list" where
  "flat_edges edges = concat (map (\<lambda>(src, targets). map (\<lambda>(to, weight). (src, to, weight)) targets) edges)"

definition boundEpicLearning :: "runtime \<Rightarrow> nat option \<Rightarrow> nat option \<Rightarrow> learning_stats \<Rightarrow> learning_stats" where
  "boundEpicLearning rt fileOverride edgeOverride stats =
     (let maxFiles = resolveRetentionCap fileOverride MAX_EPIC_LEARNING_FILES;
          maxEdges = resolveRetentionCap edgeOverride MAX_EPIC_LEARNING_EDGES;
          files = take maxFiles (js_sort (mass_order rt)
            (filter (\<lambda>(file, s). isLearnablePath file \<and> alpha s \<ge> 0 \<and> beta s \<ge> 0 \<and>
                       mass s \<ge> EPIC_LEARNING_DROP_BELOW) (ls_files stats)));
          edges = js_sort (edge_order rt)
            (filter (\<lambda>(src, to, weight). isLearnablePath src \<and> isLearnablePath to \<and> src \<noteq> to \<and>
                       weight \<ge> EPIC_LEARNING_DROP_BELOW) (flat_edges (ls_edges stats)));
          out = emptyEpicLearning\<lparr>ls_files := fold (\<lambda>(file, s). js_set file s) files []\<rparr>
      in fold (\<lambda>(src, to, weight). addEdge src to weight) (take maxEdges edges) out)"

section \<open>The hot predicate\<close>

definition epicIncidentRate :: "file_stats \<Rightarrow> rat" where
  "epicIncidentRate s = (PRIOR_A0 + alpha s) / (PRIOR_A0 + PRIOR_B0 + alpha s + beta s)"

definition isEpicHotFile :: "file_stats \<Rightarrow> rat \<Rightarrow> bool" where
  "isEpicHotFile s hotExcess =
     (alpha s \<ge> EPIC_HOT_MIN_ALPHA \<and> epicIncidentRate s - EPIC_LEARNING_PRIOR_MEAN > hotExcess)"

definition strongestCoWriteInto :: "learning_stats \<Rightarrow> (string, rat) js_map" where
  "strongestCoWriteInto stats =
     fold (\<lambda>(src, to, weight) strongest.
        if weight > js_get_or strongest to 0 then js_set to weight strongest else strongest)
      (flat_edges (ls_edges stats)) []"

definition epicHotIncidentMass :: "file_stats \<Rightarrow> rat \<Rightarrow> rat" where
  "epicHotIncidentMass s strongestCoWriter =
     (if strongestCoWriter \<ge> EPIC_EXPANSION_MIN_WEIGHT then max 0 (alpha s - strongestCoWriter) else alpha s)"

record hot_evidence =
  he_alpha :: rat
  he_countedAlpha :: rat
  he_beta :: rat
  he_rate :: rat

definition epicHotEvidence :: "learning_stats \<Rightarrow> string \<Rightarrow> hot_evidence" where
  "epicHotEvidence stats file =
     (let s = js_get_or (ls_files stats) file \<lparr>alpha = 0, beta = 0\<rparr>;
          countedAlpha = epicHotIncidentMass s (js_get_or (strongestCoWriteInto stats) file 0)
      in \<lparr>he_alpha = alpha s, he_countedAlpha = countedAlpha, he_beta = beta s,
          he_rate = epicIncidentRate \<lparr>alpha = countedAlpha, beta = beta s\<rparr>\<rparr>)"

definition rate_order :: "runtime \<Rightarrow> string \<times> file_stats \<Rightarrow> string \<times> file_stats \<Rightarrow> int" where
  "rate_order rt a b =
     cmp_or (rat_compare (epicIncidentRate (snd b)) (epicIncidentRate (snd a)))
       (locale_compare rt (fst a) (fst b))"

definition epicHotFiles :: "runtime \<Rightarrow> learning_stats \<Rightarrow> rat \<Rightarrow> string list" where
  "epicHotFiles rt stats hotExcess =
     (let strongest = strongestCoWriteInto stats
      in map fst (js_sort (rate_order rt)
           (filter (\<lambda>(file, s). isEpicHotFile s hotExcess)
             (map (\<lambda>(file, s).
                (file, \<lparr>alpha = epicHotIncidentMass s (js_get_or strongest file 0), beta = beta s\<rparr>))
              (ls_files stats)))))"

section \<open>Scope expansion and the summary\<close>

definition expandEpicScope :: "runtime \<Rightarrow> string list \<Rightarrow> cowrite_index option \<Rightarrow> string list" where
  "expandEpicScope rt scope coWrites =
     (let declared = js_uniq (map (normalizePath rt) scope)
      in case coWrites of
           None \<Rightarrow> declared
         | Some index \<Rightarrow>
             if length index = 0 then declared
             else
               let totals = fold (\<lambda>d totals.
                     fold (\<lambda>(to, weight) totals. js_set to (js_get_or totals to 0 + weight) totals)
                       (js_get_or index d []) totals) declared [];
                   learned = js_sort (locale_compare rt)
                     (map fst (filter (\<lambda>(file, weight).
                        weight \<ge> EPIC_EXPANSION_MIN_WEIGHT \<and> file \<notin> set declared) totals))
               in declared @ learned)"

record learning_summary =
  sum_files :: nat
  sum_edges :: nat
  sum_hotFiles :: "string list"
  sum_topCoWrites :: "(string \<times> string \<times> rat) list"

definition summarizeEpicLearning :: "runtime \<Rightarrow> learning_stats \<Rightarrow> rat \<Rightarrow> nat \<Rightarrow> learning_summary" where
  "summarizeEpicLearning rt stats hotExcess limit =
     (let edges = js_sort (edge_order rt) (flat_edges (ls_edges stats))
      in \<lparr>sum_files = length (ls_files stats), sum_edges = length edges,
          sum_hotFiles = epicHotFiles rt stats hotExcess, sum_topCoWrites = take limit edges\<rparr>)"

end
