(* ===== verification/Learning_Facts.thy ===== *)
theory Learning_Facts
  imports Learning
begin

text \<open>
  The invariant of the learned statistics and what the planner relies on: learning, merging,
  scaling and bounding keep it; the caps hold after bounding; a file needs excess evidence to be
  hot; and scope expansion only ever adds the files whose summed co-write weight reaches one.
\<close>

section \<open>The order of masses\<close>

interpretation rats: signed_comparator rat_compare
  by unfold_locales (auto simp: rat_compare_def split: if_splits)

lemma rat_compare_iff [simp]: "rat_compare x y \<le> 0 \<longleftrightarrow> x \<le> y" "rat_compare x y = 0 \<longleftrightarrow> x = y"
  by (auto simp: rat_compare_def)

section \<open>The invariant\<close>

definition wf_targets :: "string \<Rightarrow> (string, rat) js_map \<Rightarrow> bool" where
  "wf_targets src targets =
     (distinct (js_keys targets) \<and>
      (\<forall>(to, weight) \<in> set targets. isLearnablePath to \<and> to \<noteq> src \<and> weight \<ge> 0))"

definition wf_learning :: "learning_stats \<Rightarrow> bool" where
  "wf_learning stats =
     (distinct (js_keys (ls_files stats)) \<and>
      (\<forall>(file, s) \<in> set (ls_files stats). isLearnablePath file \<and> alpha s \<ge> 0 \<and> beta s \<ge> 0) \<and>
      distinct (js_keys (ls_edges stats)) \<and>
      (\<forall>(src, targets) \<in> set (ls_edges stats). isLearnablePath src \<and> wf_targets src targets))"

lemma wf_empty [simp]: "wf_learning emptyEpicLearning"
  by (simp add: wf_learning_def emptyEpicLearning_def)

text \<open>An entry of an updated map is the new one or an old one.\<close>

lemma js_set_mem: "(k', v') \<in> set (js_set k v m) \<Longrightarrow> (k' = k \<and> v' = v) \<or> (k', v') \<in> set m"
  by (induction m) (auto split: if_splits)

lemma js_get_or_mem: "(k, js_get_or m k d) \<in> set m \<or> js_get_or m k d = d"
  by (auto simp: js_get_or_def dest: map_of_SomeD split: option.splits)

lemma wf_files_get:
  assumes "wf_learning stats"
  shows "alpha (js_get_or (ls_files stats) file \<lparr>alpha = 0, beta = 0\<rparr>) \<ge> 0"
    and "beta (js_get_or (ls_files stats) file \<lparr>alpha = 0, beta = 0\<rparr>) \<ge> 0"
  using js_get_or_mem [of "file" "ls_files stats" "\<lparr>alpha = 0, beta = 0\<rparr>"] assms
  by (auto simp: wf_learning_def)

lemma wf_addFile:
  assumes "wf_learning stats" "isLearnablePath file" "a \<ge> 0" "b \<ge> 0"
  shows "wf_learning (addFile file a b stats)"
proof (cases "a = 0 \<and> b = 0")
  case True
  with assms(1) show ?thesis by (auto simp: addFile_def)
next
  case False
  let ?s = "js_get_or (ls_files stats) file \<lparr>alpha = 0, beta = 0\<rparr>"
  let ?new = "\<lparr>alpha = alpha ?s + a, beta = beta ?s + b\<rparr>"
  have "isLearnablePath f \<and> alpha s \<ge> 0 \<and> beta s \<ge> 0"
    if "(f, s) \<in> set (js_set file ?new (ls_files stats))" for f s
    using js_set_mem [OF that] assms wf_files_get [OF assms(1), of "file"] by (auto simp: wf_learning_def)
  moreover have "distinct (js_keys (js_set file ?new (ls_files stats)))"
    using assms(1) js_maps.distinct_put by (auto simp: wf_learning_def)
  ultimately show ?thesis
    using False assms(1) by (auto simp: addFile_def Let_def wf_learning_def)
qed

lemma wf_addEdge:
  assumes "wf_learning stats" "isLearnablePath src" "isLearnablePath to" "w \<ge> 0"
  shows "wf_learning (addEdge src to w stats)"
proof (cases "src = to \<or> w = 0")
  case True
  with assms(1) show ?thesis by (auto simp: addEdge_def)
next
  case False
  let ?t = "js_get_or (ls_edges stats) src []"
  let ?new = "js_set to (js_get_or ?t to 0 + w) ?t"
  have t: "wf_targets src ?t"
    using js_get_or_mem [of src "ls_edges stats" "[]"] assms(1)
    by (auto simp: wf_learning_def wf_targets_def)
  have "js_get_or ?t to 0 \<ge> 0"
    using js_get_or_mem [of to ?t 0] t by (auto simp: wf_targets_def)
  then have pos: "js_get_or ?t to 0 + w \<ge> 0" using False assms(4) by simp
  have "isLearnablePath f \<and> f \<noteq> src \<and> x \<ge> 0" if "(f, x) \<in> set ?new" for f x
    using js_set_mem [OF that] t pos assms(3) False by (auto simp: wf_targets_def)
  moreover have "distinct (js_keys ?new)"
    using t js_maps.distinct_put by (auto simp: wf_targets_def)
  ultimately have new: "wf_targets src ?new" by (auto simp: wf_targets_def)
  have "isLearnablePath f \<and> wf_targets f ts" if "(f, ts) \<in> set (js_set src ?new (ls_edges stats))" for f ts
    using js_set_mem [OF that] assms(1,2) new by (auto simp: wf_learning_def)
  moreover have "distinct (js_keys (js_set src ?new (ls_edges stats)))"
    using assms(1) js_maps.distinct_put by (auto simp: wf_learning_def)
  ultimately show ?thesis
    using False assms(1) by (auto simp: addEdge_def Let_def wf_learning_def)
qed

text \<open>Folds of operations that keep the invariant keep it.\<close>

lemma wf_fold:
  assumes "wf_learning stats" "\<And>x st. x \<in> set xs \<Longrightarrow> wf_learning st \<Longrightarrow> wf_learning (f x st)"
  shows "wf_learning (fold f xs stats)"
  using assms by (induction xs arbitrary: stats) auto

lemma learnablePaths_learnable: "file \<in> set (learnablePaths rt files) \<Longrightarrow> isLearnablePath file"
proof -
  have "file \<in> set (fold (\<lambda>file out. let normalized = normalizePath rt file
           in if isLearnablePath normalized then set_add normalized out else out) files out)
        \<Longrightarrow> file \<in> set out \<or> isLearnablePath file" for out
    by (induction files arbitrary: out) (fastforce simp: Let_def split: if_splits)+
  from this [of "[]"] show "file \<in> set (learnablePaths rt files) \<Longrightarrow> isLearnablePath file"
    by (simp add: learnablePaths_def)
qed

lemma wf_learn_outcome:
  assumes "wf_learning stats"
  shows "wf_learning (learn_outcome rt opts outcome stats)"
proof -
  let ?d = "learnablePaths rt (o_declared outcome)"
  let ?u = "filter (\<lambda>file. file \<notin> set ?d) (learnablePaths rt (o_undeclared outcome))"
  let ?fe = "file_entries rt opts ?d (?d @ ?u)"
  have fe: "f \<in> set ?fe \<Longrightarrow> isLearnablePath f" for f
    by (auto simp: file_entries_def intro: learnablePaths_learnable)
  have u: "f \<in> set ?u \<Longrightarrow> isLearnablePath f" and d: "f \<in> set ?d \<Longrightarrow> isLearnablePath f" for f
    by (auto intro: learnablePaths_learnable)
  let ?s1 = "fold (\<lambda>file. addFile file 0 1) ?fe stats"
  have s1: "wf_learning ?s1"
    by (rule wf_fold [OF assms]) (simp add: fe wf_addFile)
  let ?s2 = "fold (\<lambda>file st. fold (\<lambda>d. addEdge d file 1) ?d
               (addFile file (w_undeclared EPIC_LEARNING_INCIDENT_WEIGHTS) 0 st)) ?u ?s1"
  have s2: "wf_learning ?s2"
    by (intro wf_fold [OF s1] wf_fold wf_addEdge wf_addFile)
       (use u d in \<open>auto simp: EPIC_LEARNING_INCIDENT_WEIGHTS_def\<close>)
  have s3: "wf_learning (fold (\<lambda>file. addFile file p 0) ?fe ?s2)" if "p > 0" for p
    by (rule wf_fold [OF s2]) (use that in \<open>simp add: fe wf_addFile\<close>)
  show ?thesis
    using assms s2 s3 by (simp add: learn_outcome_def Let_def)
qed

lemma wf_files_mem:
  "wf_learning st \<Longrightarrow> (f, s) \<in> set (ls_files st) \<Longrightarrow> isLearnablePath f \<and> alpha s \<ge> 0 \<and> beta s \<ge> 0"
  by (auto simp: wf_learning_def)

lemma wf_edges_mem:
  "wf_learning st \<Longrightarrow> (src, ts) \<in> set (ls_edges st) \<Longrightarrow> (to, w) \<in> set ts \<Longrightarrow>
   isLearnablePath src \<and> isLearnablePath to \<and> to \<noteq> src \<and> w \<ge> 0"
  by (fastforce simp: wf_learning_def wf_targets_def)

lemma wf_merge:
  assumes "wf_learning a" "wf_learning b"
  shows "wf_learning (mergeEpicLearning a b)"
  unfolding mergeEpicLearning_def
  by (intro wf_fold assms)
     (auto intro!: wf_fold wf_addFile wf_addEdge dest: wf_files_mem [OF assms(2)] wf_edges_mem [OF assms(2)])

lemma fst_comp_values [simp]: "fst \<circ> (\<lambda>(k, v). (k, h k v)) = fst"
  by (auto simp: fun_eq_iff)

lemma wf_scale:
  assumes "wf_learning st"
  shows "wf_learning (scaleEpicLearning st factor)"
proof -
  let ?f = "min (max factor 0) (1 :: rat)"
  have f: "?f \<ge> 0" by simp
  then have targets: "wf_targets src ts \<Longrightarrow> wf_targets src (map (\<lambda>(to, w). (to, w * ?f)) ts)" for src ts
    unfolding wf_targets_def by (auto simp del: min_def max_def)
  show ?thesis
    using assms targets f unfolding wf_learning_def scaleEpicLearning_def Let_def by auto
qed

section \<open>Bounding\<close>

lemma length_flat_edges_set:
  "length (flat_edges (js_set src ts edges)) + length (js_get_or edges src []) = length (flat_edges edges) + length ts"
  by (induction edges) (auto simp: flat_edges_def js_get_or_def)

lemma length_flat_addEdge: "length (flat_edges (ls_edges (addEdge src to w st))) \<le> Suc (length (flat_edges (ls_edges st)))"
proof (cases "src = to \<or> w = 0")
  case True
  then show ?thesis by (auto simp: addEdge_def)
next
  case False
  let ?t = "js_get_or (ls_edges st) src []"
  have "length (js_set to (js_get_or ?t to 0 + w) ?t) \<le> Suc (length ?t)"
    using js_maps.length_put [of to "js_get_or ?t to 0 + w" ?t] by simp
  then show ?thesis
    using length_flat_edges_set [of src "js_set to (js_get_or ?t to 0 + w) ?t" "ls_edges st"] False
    by (auto simp: addEdge_def Let_def)
qed

lemma length_flat_addEdges:
  "length (flat_edges (ls_edges (fold (\<lambda>(src, to, w). addEdge src to w) es st))) \<le> length es + length (flat_edges (ls_edges st))"
proof (induction es arbitrary: st)
  case Nil
  then show ?case by simp
next
  case (Cons e es)
  obtain src to w where e: "e = (src, to, w)" by (cases e) auto
  show ?case
    using Cons.IH [of "addEdge src to w st"] length_flat_addEdge [of src to w st] e by simp
qed

lemma files_addEdges: "ls_files (fold (\<lambda>(src, to, w). addEdge src to w) es st) = ls_files st"
proof (induction es arbitrary: st)
  case Nil
  then show ?case by simp
next
  case (Cons e es)
  then show ?case by (cases e) (simp add: addEdge_def Let_def)
qed

lemma fold_js_set_new: "distinct (map fst (m @ xs)) \<Longrightarrow> fold (\<lambda>(k, v). js_set k v) xs m = m @ xs"
proof (induction xs arbitrary: m)
  case Nil
  then show ?case by simp
next
  case (Cons x xs)
  obtain k v where x: "x = (k, v)" by (cases x)
  have "k \<notin> set (map fst m)" using Cons.prems x by auto
  then have "js_set k v m = m @ [(k, v)]" by (induction m) auto
  with Cons.IH [of "m @ [(k, v)]"] Cons.prems x show ?case by simp
qed

lemma distinct_fst_take_sort_filter:
  "distinct (map fst xs) \<Longrightarrow> distinct (map fst (take n (js_sort c (filter p xs))))"
proof -
  assume "distinct (map fst xs)"
  then have "distinct (map fst (filter p xs))" by (simp add: distinct_map_filter)
  moreover have "mset (map fst (js_sort c (filter p xs))) = mset (map fst (filter p xs))" by simp
  ultimately have "distinct (map fst (js_sort c (filter p xs)))"
    by (metis mset_eq_imp_distinct_iff)
  then show ?thesis by (simp add: distinct_take take_map [symmetric])
qed

lemma wf_js_set_file:
  "wf_learning (emptyEpicLearning\<lparr>ls_files := m\<rparr>) \<longleftrightarrow>
     distinct (js_keys m) \<and> (\<forall>(file, s) \<in> set m. isLearnablePath file \<and> alpha s \<ge> 0 \<and> beta s \<ge> 0)"
  by (simp add: wf_learning_def emptyEpicLearning_def)

definition keepable :: "string \<times> file_stats \<Rightarrow> bool" where
  "keepable = (\<lambda>(file, s). isLearnablePath file \<and> alpha s \<ge> 0 \<and> beta s \<ge> 0 \<and> mass s \<ge> EPIC_LEARNING_DROP_BELOW)"

lemma bound_files:
  assumes "distinct (js_keys (ls_files st))"
  shows "ls_files (boundEpicLearning rt fo eo st) =
    take (resolveRetentionCap fo MAX_EPIC_LEARNING_FILES) (js_sort (mass_order rt) (filter keepable (ls_files st)))"
proof -
  let ?files = "take (resolveRetentionCap fo MAX_EPIC_LEARNING_FILES) (js_sort (mass_order rt) (filter keepable (ls_files st)))"
  have "distinct (map fst ([] @ ?files))" using distinct_fst_take_sort_filter [OF assms] by simp
  from fold_js_set_new [OF this] show ?thesis
    by (simp add: boundEpicLearning_def Let_def files_addEdges keepable_def [symmetric])
qed

lemma wf_bound:
  assumes "wf_learning st"
  shows "wf_learning (boundEpicLearning rt fo eo st)"
proof -
  let ?files = "take (resolveRetentionCap fo MAX_EPIC_LEARNING_FILES) (js_sort (mass_order rt) (filter keepable (ls_files st)))"
  have d: "distinct (js_keys (ls_files st))" using assms by (simp add: wf_learning_def)
  have dist: "distinct (map fst ([] @ ?files))" using distinct_fst_take_sort_filter [OF d] by simp
  have out: "wf_learning (emptyEpicLearning\<lparr>ls_files := fold (\<lambda>(file, s). js_set file s) ?files []\<rparr>)"
    unfolding wf_js_set_file fold_js_set_new [OF dist] using dist
    by (auto simp: keepable_def dest!: in_set_takeD)
  have edges: "e \<in> set (take n (js_sort c (filter (\<lambda>(src, to, weight). isLearnablePath src \<and> isLearnablePath to \<and>
        src \<noteq> to \<and> weight \<ge> EPIC_LEARNING_DROP_BELOW) es))) \<Longrightarrow>
      (case e of (src, to, w) \<Rightarrow> isLearnablePath src \<and> isLearnablePath to \<and> w \<ge> 0)" for e n c es
    by (auto simp: EPIC_LEARNING_DROP_BELOW_def dest!: in_set_takeD)
  show ?thesis
    unfolding boundEpicLearning_def Let_def keepable_def [symmetric]
    by (rule wf_fold [OF out]) (drule edges, auto intro: wf_addEdge)
qed

lemma length_bound_edges:
  "length (flat_edges (ls_edges (boundEpicLearning rt fo eo st))) \<le> resolveRetentionCap eo MAX_EPIC_LEARNING_EDGES"
  unfolding boundEpicLearning_def Let_def
  by (rule order_trans [OF length_flat_addEdges]) (simp add: emptyEpicLearning_def flat_edges_def)

section \<open>Scope expansion\<close>

text \<open>The summed weight of the co-write edges from a list of declared files.\<close>

definition cowrite_weight :: "cowrite_index \<Rightarrow> string list \<Rightarrow> string \<Rightarrow> rat" where
  "cowrite_weight index declared file = sum_list (map (\<lambda>d. js_get_or (js_get_or index d []) file 0) declared)"

definition wf_index :: "cowrite_index \<Rightarrow> bool" where
  "wf_index index = (\<forall>(d, targets) \<in> set index. distinct (js_keys targets))"

lemma wf_index_edges: "wf_learning st \<Longrightarrow> wf_index (ls_edges st)"
  by (auto simp: wf_learning_def wf_targets_def wf_index_def)

definition add_targets :: "(string, rat) js_map \<Rightarrow> (string, rat) js_map \<Rightarrow> (string, rat) js_map" where
  "add_targets targets totals = fold (\<lambda>(to, weight) t. js_set to (js_get_or t to 0 + weight) t) targets totals"

lemma js_get_or_no_key: "k \<notin> set (js_keys m) \<Longrightarrow> js_get_or m k d = d"
  using js_get_no_key [of k m] by (simp add: js_get_or_def)

lemma get_add_targets:
  "distinct (js_keys targets) \<Longrightarrow> js_get_or (add_targets targets totals) f 0 = js_get_or totals f 0 + js_get_or targets f 0"
proof (induction targets arbitrary: totals)
  case Nil
  then show ?case by (simp add: add_targets_def js_get_or_def)
next
  case (Cons x targets)
  obtain to w where x: "x = (to, w)" by (cases x)
  have "js_get_or (add_targets (x # targets) totals) f 0 =
      js_get_or (js_set to (js_get_or totals to 0 + w) totals) f 0 + js_get_or targets f 0"
    using Cons.IH [of "js_set to (js_get_or totals to 0 + w) totals"] Cons.prems x by (simp add: add_targets_def)
  also have "\<dots> = js_get_or totals f 0 + js_get_or (x # targets) f 0"
  proof (cases "f = to")
    case True
    have "js_get_or targets to 0 = 0" using Cons.prems x by (intro js_get_or_no_key) simp
    with True show ?thesis by (simp add: x js_map_simps) (simp add: js_get_or_def)
  next
    case False
    then show ?thesis by (simp add: x js_map_simps) (simp add: js_get_or_def)
  qed
  finally show ?case .
qed

lemma keys_add_targets: "distinct (js_keys totals) \<Longrightarrow> distinct (js_keys (add_targets targets totals))"
  unfolding add_targets_def
  by (induction targets arbitrary: totals) (auto simp: js_maps.distinct_put simp del: js_keys_set)

definition scope_totals :: "cowrite_index \<Rightarrow> string list \<Rightarrow> (string, rat) js_map \<Rightarrow> (string, rat) js_map" where
  "scope_totals index declared totals = fold (\<lambda>d. add_targets (js_get_or index d [])) declared totals"

lemma distinct_scope_totals: "distinct (js_keys totals) \<Longrightarrow> distinct (js_keys (scope_totals index declared totals))"
  unfolding scope_totals_def by (induction declared arbitrary: totals) (auto intro: keys_add_targets)

lemma get_scope_totals:
  assumes "wf_index index"
  shows "js_get_or (scope_totals index declared totals) f 0 = js_get_or totals f 0 + cowrite_weight index declared f"
proof (induction declared arbitrary: totals)
  case Nil
  then show ?case by (simp add: scope_totals_def cowrite_weight_def)
next
  case (Cons d declared)
  have "distinct (js_keys (js_get_or index d []))"
    using js_get_or_mem [of d index "[]"] assms by (auto simp: wf_index_def)
  from get_add_targets [OF this] Cons.IH show ?case
    by (simp add: scope_totals_def cowrite_weight_def)
qed

lemma map_of_filter_keys:
  "distinct (js_keys m) \<Longrightarrow> f \<in> fst ` set (filter (\<lambda>(k, v). P k v) m) \<longleftrightarrow> (\<exists>v. js_get m f = Some v \<and> P f v)"
  by (force simp: image_iff dest: map_of_SomeD)

lemma expandEpicScope_cases:
  "expandEpicScope rt scope (Some index) =
     js_uniq (map (normalizePath rt) scope) @
       js_sort (locale_compare rt) (map fst (filter (\<lambda>(file, weight).
          weight \<ge> EPIC_EXPANSION_MIN_WEIGHT \<and> file \<notin> set (js_uniq (map (normalizePath rt) scope)))
          (scope_totals index (js_uniq (map (normalizePath rt) scope)) [])))"
proof (cases "index = []")
  case True
  have "add_targets [] = id" by (auto simp: add_targets_def)
  then have "scope_totals [] ds [] = []" for ds
    by (induction ds) (simp_all add: scope_totals_def js_get_or_def)
  with True show ?thesis by (simp add: expandEpicScope_def)
next
  case False
  then show ?thesis
    by (simp add: expandEpicScope_def Let_def scope_totals_def add_targets_def [abs_def])
qed

section \<open>Properties\<close>

text \<open>The learned statistics stay well formed: learning from any outcomes, merging two
  statistics, decaying by any factor and bounding all keep an invariant under which no file or
  edge occurs twice, every path is a learnable relative path outside \<open>.swarm/\<close>, no edge leads
  from a file to itself, and no mass or weight is negative.\<close>

theorem learning_well_formed:
  "wf_learning (epicLearningFromOutcomes rt outcomes opts) \<and>
   (wf_learning a \<and> wf_learning b \<longrightarrow> wf_learning (mergeEpicLearning a b)) \<and>
   (wf_learning a \<longrightarrow> wf_learning (scaleEpicLearning a factor) \<and> wf_learning (boundEpicLearning rt fo eo a))"
  using wf_fold [OF wf_empty, of outcomes "learn_outcome rt opts"]
  by (auto simp: epicLearningFromOutcomes_def wf_learn_outcome wf_merge wf_scale wf_bound)

theorem learning_well_formed_witness:
  "wf_learning (mergeEpicLearning emptyEpicLearning emptyEpicLearning)
   \<and> wf_learning (boundEpicLearning (posix_runtime []) None None emptyEpicLearning)"
  using learning_well_formed [of "posix_runtime []" "[]" undefined emptyEpicLearning emptyEpicLearning 0 None None] by simp

lemma mass_order_signed: "signed_comparator (locale_compare rt) \<Longrightarrow> signed_comparator (mass_order rt)"
  unfolding mass_order_def [abs_def]
  by (intro signed_comparator_or signed_comparator_comap [of "locale_compare rt" fst])
     (rule signed_comparator_comap [OF signed_comparator_reverse [OF rats.signed_comparator_axioms], of "\<lambda>x. mass (snd x)"])

text \<open>Bounding keeps the learned statistics within the retention caps, drops exactly the
  entries that are not worth keeping, and evicts the lightest: every kept entry is unchanged and at
  least the drop threshold, and no evicted entry outweighs a kept one.\<close>

theorem boundEpicLearning_bounded:
  assumes "wf_learning st" "signed_comparator (locale_compare rt)" "b = boundEpicLearning rt fo eo st"
  shows "length (ls_files b) \<le> resolveRetentionCap fo MAX_EPIC_LEARNING_FILES \<and>
    length (flat_edges (ls_edges b)) \<le> resolveRetentionCap eo MAX_EPIC_LEARNING_EDGES \<and>
    (\<forall>(f, s) \<in> set (ls_files b). (f, s) \<in> set (ls_files st) \<and> alpha s + beta s \<ge> EPIC_LEARNING_DROP_BELOW) \<and>
    (\<forall>(g, t) \<in> set (ls_files st) - set (ls_files b). \<forall>(f, s) \<in> set (ls_files b).
        alpha t + beta t \<le> alpha s + beta s)"
proof -
  let ?n = "resolveRetentionCap fo MAX_EPIC_LEARNING_FILES"
  let ?sorted = "js_sort (mass_order rt) (filter keepable (ls_files st))"
  have d: "distinct (js_keys (ls_files st))" using assms(1) by (simp add: wf_learning_def)
  have files: "ls_files b = take ?n ?sorted" unfolding assms(3) by (rule bound_files [OF d])
  have kept: "x \<in> set (ls_files st) \<and> keepable x" if "x \<in> set (ls_files b)" for x
    using in_set_takeD [of x ?n ?sorted] that unfolding files by simp
  have cut: "mass (snd y) \<le> mass (snd x)" if x: "x \<in> set (ls_files b)" and y: "y \<in> set (ls_files st)" "y \<notin> set (ls_files b)" for x y
  proof (cases "keepable y")
    case True
    have "y \<in> set ?sorted" using y True by simp
    then have "y \<in> set (take ?n ?sorted) \<union> set (drop ?n ?sorted)" by (metis append_take_drop_id set_append)
    then have "y \<in> set (drop ?n ?sorted)" using y unfolding files by simp
    then have "mass_order rt x y \<le> 0"
      using comparator.js_sort_cut [OF signed_comparator.axioms(1) [OF mass_order_signed [OF assms(2)]]] x
      unfolding files by blast
    then show ?thesis using cmp_or_le_0 unfolding mass_order_def by fastforce
  next
    case False
    moreover have "isLearnablePath (fst y) \<and> alpha (snd y) \<ge> 0 \<and> beta (snd y) \<ge> 0"
      using wf_files_mem [OF assms(1), of "fst y" "snd y"] y by simp
    ultimately have "mass (snd y) < EPIC_LEARNING_DROP_BELOW" by (auto simp: keepable_def split_beta)
    then show ?thesis using kept [OF x] by (auto simp: keepable_def split_beta)
  qed
  show ?thesis
  proof (intro conjI)
    show "length (ls_files b) \<le> ?n" unfolding files by simp
    show "length (flat_edges (ls_edges b)) \<le> resolveRetentionCap eo MAX_EPIC_LEARNING_EDGES"
      unfolding assms(3) by (rule length_bound_edges)
    show "\<forall>(f, s) \<in> set (ls_files b). (f, s) \<in> set (ls_files st) \<and> alpha s + beta s \<ge> EPIC_LEARNING_DROP_BELOW"
      using kept by (auto simp: keepable_def mass_def)
    show "\<forall>(g, t) \<in> set (ls_files st) - set (ls_files b). \<forall>(f, s) \<in> set (ls_files b). alpha t + beta t \<le> alpha s + beta s"
      using cut by (fastforce simp: mass_def)
  qed
qed

theorem boundEpicLearning_bounded_witness:
  "length (ls_files (boundEpicLearning (posix_runtime []) (Some 1) None
     \<lparr>ls_files = [(''a'', \<lparr>alpha = 1, beta = 0\<rparr>), (''b'', \<lparr>alpha = 2, beta = 1\<rparr>)], ls_edges = []\<rparr>)) \<le> 1"
proof -
  let ?st = "\<lparr>ls_files = [(''a'', \<lparr>alpha = 1, beta = 0\<rparr>), (''b'', \<lparr>alpha = 2, beta = 1\<rparr>)], ls_edges = []\<rparr>"
  have "wf_learning ?st" by (simp add: wf_learning_def isLearnablePath_def)
  moreover have "signed_comparator (locale_compare (posix_runtime []))"
    by (simp add: posix_runtime_def code_units.signed_comparator_axioms)
  ultimately show ?thesis
    using boundEpicLearning_bounded [OF _ _ refl, of ?st "posix_runtime []" "Some 1" None]
    by (simp add: resolveRetentionCap_def)
qed

text \<open>Scope expansion adds exactly what was learned.  The expanded scope holds the normalized
  declared paths and, beside them, the files whose summed co-write weight from the declared paths
  reaches one, each once; so it always covers the declared scope.\<close>

theorem expandEpicScope_exact:
  assumes "wf_index index"
  shows "set (expandEpicScope rt scope (Some index)) =
      normalizePath rt ` set scope \<union>
      {f. sum_list (map (\<lambda>d. js_get_or (js_get_or index d []) f 0) (js_uniq (map (normalizePath rt) scope)))
            \<ge> EPIC_EXPANSION_MIN_WEIGHT} \<and>
    distinct (expandEpicScope rt scope (Some index)) \<and>
    set (expandEpicScope rt scope None) = normalizePath rt ` set scope"
proof (intro conjI)
  let ?decl = "js_uniq (map (normalizePath rt) scope)"
  let ?totals = "scope_totals index ?decl []"
  have dist: "distinct (js_keys ?totals)" by (rule distinct_scope_totals) simp
  have get: "js_get_or ?totals f 0 = cowrite_weight index ?decl f" for f
    using get_scope_totals [OF assms, of ?decl "[]" f] by (simp add: js_get_or_def)
  have learned: "f \<in> fst ` set (filter (\<lambda>(f, w). w \<ge> EPIC_EXPANSION_MIN_WEIGHT \<and> f \<notin> set ?decl) ?totals) \<longleftrightarrow>
      cowrite_weight index ?decl f \<ge> EPIC_EXPANSION_MIN_WEIGHT \<and> f \<notin> set ?decl" for f
  proof -
    have pos: "\<not> (0 :: rat) \<ge> EPIC_EXPANSION_MIN_WEIGHT" by (simp add: EPIC_EXPANSION_MIN_WEIGHT_def)
    show ?thesis
      unfolding map_of_filter_keys [OF dist] get [symmetric] js_get_or_def
      using pos by (auto split: option.splits)
  qed
  show "set (expandEpicScope rt scope (Some index)) = normalizePath rt ` set scope \<union>
      {f. sum_list (map (\<lambda>d. js_get_or (js_get_or index d []) f 0) ?decl) \<ge> EPIC_EXPANSION_MIN_WEIGHT}"
    unfolding expandEpicScope_cases cowrite_weight_def [symmetric] set_append set_js_sort list.set_map [of fst]
    using learned by auto
  show "distinct (expandEpicScope rt scope (Some index))"
    unfolding expandEpicScope_cases distinct_append
    using distinct_map_filter [OF dist] by auto
  show "set (expandEpicScope rt scope None) = normalizePath rt ` set scope"
    by (simp add: expandEpicScope_def)
qed

theorem expandEpicScope_exact_witness:
  "''b'' \<in> set (expandEpicScope (posix_runtime []) [''a''] (Some [(''a'', [(''b'', 1)])]))"
proof -
  have "normalizePath (posix_runtime []) ''a'' = ''a''" by code_simp
  then show ?thesis
    using expandEpicScope_exact [of "[(''a'', [(''b'', 1)])]" "posix_runtime []" "[''a'']"]
    by (simp add: wf_index_def js_get_or_def EPIC_EXPANSION_MIN_WEIGHT_def)
qed

lemma expandEpicScope_covers: "normalizePath rt ` set scope \<subseteq> set (expandEpicScope rt scope coWrites)"
proof (cases coWrites)
  case None
  then show ?thesis by (simp add: expandEpicScope_def)
next
  case (Some index)
  then show ?thesis by (auto simp: expandEpicScope_def Let_def)
qed

lemma epicHotFiles_mem:
  "f \<in> set (epicHotFiles rt st hotExcess) \<longleftrightarrow>
     (\<exists>s. (f, s) \<in> set (ls_files st) \<and>
        isEpicHotFile \<lparr>alpha = epicHotIncidentMass s (js_get_or (strongestCoWriteInto st) f 0), beta = beta s\<rparr> hotExcess)"
  by (force simp: epicHotFiles_def Let_def)

text \<open>A file is hot only on excess evidence.  When the configured excess is not negative, every
  hot file has a discounted incident mass of at least one, at most its raw mass, and more than a
  ninth of its exposure mass; a file without learned incidents is never hot.\<close>

theorem epicHotFiles_need_evidence:
  assumes "wf_learning st" "hotExcess \<ge> 0" "f \<in> set (epicHotFiles rt st hotExcess)"
  shows "\<exists>s. js_get (ls_files st) f = Some s \<and>
    (let counted = epicHotIncidentMass s (js_get_or (strongestCoWriteInto st) f 0)
     in 1 \<le> counted \<and> counted \<le> alpha s \<and> beta s < 9 * counted)"
proof -
  let ?m = "\<lambda>s. epicHotIncidentMass s (js_get_or (strongestCoWriteInto st) f 0)"
  obtain s where s: "(f, s) \<in> set (ls_files st)" and hot: "isEpicHotFile \<lparr>alpha = ?m s, beta = beta s\<rparr> hotExcess"
    using assms(3) unfolding epicHotFiles_mem by blast
  have "js_get (ls_files st) f = Some s"
    using s assms(1) by (simp add: wf_learning_def)
  moreover have nonneg: "alpha s \<ge> 0" "beta s \<ge> 0" using wf_files_mem [OF assms(1) s] by auto
  moreover have one: "1 \<le> ?m s" using hot by (simp add: isEpicHotFile_def EPIC_HOT_MIN_ALPHA_def)
  moreover have "?m s \<le> alpha s"
    using one nonneg by (auto simp: epicHotIncidentMass_def EPIC_EXPANSION_MIN_WEIGHT_def split: if_splits)
  moreover have "beta s < 9 * ?m s"
  proof -
    have "epicIncidentRate \<lparr>alpha = ?m s, beta = beta s\<rparr> > 1 / 10"
      using hot assms(2) by (simp add: isEpicHotFile_def EPIC_LEARNING_PRIOR_MEAN_def)
    then have "(1 / 5 + ?m s) / (2 + ?m s + beta s) > 1 / 10"
      by (simp add: epicIncidentRate_def PRIOR_A0_def PRIOR_B0_def EPIC_LEARNING_PRIOR_MEAN_def
          EPIC_LEARNING_PRIOR_STRENGTH_def)
    moreover have "2 + ?m s + beta s > 0" using one nonneg by simp
    ultimately show ?thesis by (simp add: field_simps)
  qed
  ultimately show ?thesis by (auto simp: Let_def)
qed

theorem epicHotFiles_need_evidence_witness:
  "\<exists>s. js_get [(''a'', \<lparr>alpha = 4, beta = 1\<rparr>)] ''a'' = Some s \<and> beta s < 9 * epicHotIncidentMass s 0"
proof -
  let ?st = "\<lparr>ls_files = [(''a'', \<lparr>alpha = 4, beta = 1\<rparr>)], ls_edges = []\<rparr>"
  have "wf_learning ?st" by (simp add: wf_learning_def isLearnablePath_def)
  moreover have st: "strongestCoWriteInto ?st = []" by (simp add: strongestCoWriteInto_def flat_edges_def)
  moreover have "''a'' \<in> set (epicHotFiles (posix_runtime []) ?st (1 / 4))"
    unfolding epicHotFiles_mem st
    by (simp add: js_get_or_def epicHotIncidentMass_def EPIC_EXPANSION_MIN_WEIGHT_def isEpicHotFile_def
        epicIncidentRate_def PRIOR_A0_def PRIOR_B0_def EPIC_LEARNING_PRIOR_MEAN_def
        EPIC_LEARNING_PRIOR_STRENGTH_def EPIC_HOT_MIN_ALPHA_def)
  ultimately show ?thesis
    using epicHotFiles_need_evidence [of ?st "1 / 4" "''a''" "posix_runtime []"]
    by (simp add: Let_def js_get_or_def)
qed

end
