(* ===== verification/Union_Find.thy ===== *)
theory Union_Find
  imports Prelude
begin

text \<open>
  The union-find of \<open>partitionEpicComponents\<close> (\<^verbatim>\<open>src/epic/components.ts\<close>): a \<open>Map\<close> of parent
  pointers with a two-pass \<open>find\<close> (walk to the root, then point every node of the path at it).

  Both loops of \<open>find\<close> run forever on a map with a cycle or a missing parent, so they are
  partial functions; the invariant \<open>forest\<close> is what makes them return.
\<close>

type_synonym 'k parents = "('k, 'k) js_map"

partial_function (option) find_root :: "'k parents \<Rightarrow> 'k \<Rightarrow> 'k option" where
  "find_root parent root =
     (if js_get parent root = Some root then Some root
      else find_root parent (js_get_or parent root root))"

partial_function (option) compress_path :: "'k \<Rightarrow> 'k \<Rightarrow> 'k parents \<Rightarrow> 'k parents option" where
  "compress_path root node parent =
     (if node = root then Some parent
      else compress_path root (js_get_or parent node root) (js_set node root parent))"

declare find_root.simps [code] compress_path.simps [code]

definition uf_find :: "'k \<Rightarrow> 'k parents \<Rightarrow> ('k \<times> 'k parents) option" where
  "uf_find i parent =
     (case find_root parent i of
        None \<Rightarrow> None
      | Some root \<Rightarrow> map_option (Pair root) (compress_path root i parent))"

definition union_edge :: "'k \<times> 'k \<Rightarrow> 'k parents \<Rightarrow> 'k parents option" where
  "union_edge edge parent =
     (case uf_find (fst edge) parent of
        None \<Rightarrow> None
      | Some (ra, p1) \<Rightarrow>
          (case uf_find (snd edge) p1 of
             None \<Rightarrow> None
           | Some (rb, p2) \<Rightarrow> Some (if ra \<noteq> rb then js_set ra rb p2 else p2)))"

section \<open>The abstract view: every node has a root\<close>

inductive rooted :: "'k parents \<Rightarrow> 'k \<Rightarrow> 'k \<Rightarrow> bool" for parent where
  root: "js_get parent r = Some r \<Longrightarrow> rooted parent r r"
| step: "js_get parent x = Some p \<Longrightarrow> p \<noteq> x \<Longrightarrow> rooted parent p r \<Longrightarrow> rooted parent x r"

lemma rooted_root: "rooted parent x r \<Longrightarrow> js_get parent r = Some r"
  by (induction rule: rooted.induct)

lemma rooted_unique: "rooted parent x r \<Longrightarrow> rooted parent x r' \<Longrightarrow> r = r'"
proof (induction arbitrary: r' rule: rooted.induct)
  case (root r)
  from root.prems show ?case by (cases rule: rooted.cases) (use root.hyps in auto)
next
  case (step x p r)
  from step.prems have "rooted parent p r'"
  proof (cases rule: rooted.cases)
    case root
    with step.hyps(1,2) show ?thesis by simp
  next
    case (step p')
    with \<open>js_get parent x = Some p\<close> show ?thesis by simp
  qed
  then show ?case by (rule step.IH)
qed

lemma rooted_self: "js_get parent r = Some r \<Longrightarrow> rooted parent r r' \<longleftrightarrow> r' = r"
  by (auto intro: rooted.root dest: rooted_unique)

definition forest :: "'k parents \<Rightarrow> bool" where
  "forest parent = (\<forall>x \<in> set (js_keys parent). \<exists>r. rooted parent x r)"

lemma rooted_key:
  assumes "rooted parent x r"
  shows "x \<in> set (js_keys parent)"
  using assms by (cases rule: rooted.cases) (auto dest: js_get_key)

lemma rooted_root_key: "rooted parent x r \<Longrightarrow> r \<in> set (js_keys parent)"
  using js_get_key [OF rooted_root, of parent x r] by simp

section \<open>find returns the root and keeps the roots\<close>

lemma find_root_rooted: "rooted parent x r \<Longrightarrow> find_root parent x = Some r"
proof (induction rule: rooted.induct)
  case (root r)
  then show ?case by (simp add: find_root.simps)
next
  case (step x p r)
  then show ?case by (simp add: find_root.simps [of parent x] js_get_or_def)
qed

text \<open>Pointing a node at its own root changes no root.\<close>

lemma rooted_shortcut_mono:
  assumes r: "rooted parent n r"
  shows "rooted parent x r' \<Longrightarrow> rooted (js_set n r parent) x r'"
proof (induction rule: rooted.induct)
  case (root r')
  show ?case
  proof (cases "r' = n")
    case True
    with root have "r = n" using r rooted_self by metis
    with True show ?thesis by (intro rooted.root) (simp add: js_map_simps)
  next
    case False
    with root show ?thesis by (intro rooted.root) (simp add: js_map_simps)
  qed
next
  case (step x p r')
  show ?case
  proof (cases "x = n")
    case True
    with step have "rooted parent n r'" by (auto intro: rooted.step)
    then have "r' = r" using r rooted_unique by metis
    have nr: "n \<noteq> r" using rooted_root [OF r] step True by auto
    then have "js_get (js_set n r parent) r = Some r" using rooted_root [OF r] by (simp add: js_map_simps)
    then have "rooted (js_set n r parent) r r" by (rule rooted.root)
    then show ?thesis
      using True nr \<open>r' = r\<close> by - (rule rooted.step [of _ _ r], simp_all add: js_map_simps)
  next
    case False
    with step show ?thesis by - (rule rooted.step [of _ _ p], simp_all add: js_map_simps)
  qed
qed

lemma rooted_shortcut:
  assumes "forest parent" and r: "rooted parent n r"
  shows "rooted (js_set n r parent) = rooted parent"
proof (intro ext iffI)
  fix x r'
  assume new: "rooted (js_set n r parent) x r'"
  have "x \<in> set (js_keys parent)"
    using rooted_key [OF new] rooted_key [OF r] by (simp add: js_map_simps) 
  then obtain r'' where r'': "rooted parent x r''" using assms(1) by (auto simp: forest_def)
  from rooted_unique [OF new rooted_shortcut_mono [OF r r'']] r'' show "rooted parent x r'" by simp
qed (rule rooted_shortcut_mono [OF r])

lemma js_keys_shortcut: "rooted parent n r \<Longrightarrow> js_keys (js_set n r parent) = js_keys parent"
  using rooted_key [of parent n r] by (simp add: js_keys_set)

lemma forest_shortcut: "forest parent \<Longrightarrow> rooted parent n r \<Longrightarrow> forest (js_set n r parent)"
  unfolding forest_def rooted_shortcut [unfolded forest_def] js_keys_shortcut
  using rooted_shortcut [of parent n r] by (auto simp: forest_def js_keys_shortcut)

text \<open>Compression walks the old path; the nodes still ahead of it keep their old parents.\<close>

lemma compress_path_spec:
  assumes "rooted parent0 node root"
    and "forest parent" "rooted parent = rooted parent0" "js_keys parent = js_keys parent0"
    and "\<And>x. rooted parent0 x root \<Longrightarrow> js_get parent x = js_get parent0 x \<or> js_get parent x = Some root"
  shows "\<exists>parent'. compress_path root node parent = Some parent' \<and> forest parent' \<and>
    rooted parent' = rooted parent0 \<and> js_keys parent' = js_keys parent0"
  using assms
proof (induction node root arbitrary: parent rule: rooted.induct)
  case (root r)
  then show ?case by (auto simp: compress_path.simps)
next
  case (step x p r)
  show ?case
  proof (cases "x = r")
    case True
    with step.prems show ?thesis by (auto simp: compress_path.simps)
  next
    case False
    have xr: "rooted parent0 x r" using step.hyps by (rule rooted.step)
    then have xr': "rooted parent x r" using step.prems(2) by simp
    let ?parent = "js_set x r parent"
    have f: "forest ?parent" by (rule forest_shortcut [OF step.prems(1) xr'])
    have e: "rooted ?parent = rooted parent0" using rooted_shortcut [OF step.prems(1) xr'] step.prems(2) by simp
    have k: "js_keys ?parent = js_keys parent0" using js_keys_shortcut [OF xr'] step.prems(3) by simp
    have g: "js_get ?parent y = js_get parent0 y \<or> js_get ?parent y = Some r" if "rooted parent0 y r" for y
      using step.prems(4) [OF that] by (auto simp: js_map_simps)
    have rootr: "js_get ?parent r = Some r"
      using rooted_root [of ?parent x r] xr e by simp
    consider "js_get parent x = Some p" | "js_get parent x = Some r"
      using step.prems(4) [OF xr] step.hyps(1) by auto
    then show ?thesis
    proof cases
      case 1
      with False step.IH [OF f e k g] show ?thesis
        by (simp add: compress_path.simps [of r x] js_get_or_def)
    next
      case 2
      with False f e k show ?thesis
        by (simp add: compress_path.simps [of r x] js_get_or_def compress_path.simps [of r r])
    qed
  qed
qed

lemma uf_find_spec:
  assumes "forest parent" "x \<in> set (js_keys parent)"
  shows "\<exists>r parent'. uf_find x parent = Some (r, parent') \<and> rooted parent x r \<and> forest parent' \<and>
    rooted parent' = rooted parent \<and> js_keys parent' = js_keys parent"
proof -
  obtain r where r: "rooted parent x r" using assms by (auto simp: forest_def)
  from compress_path_spec [OF r assms(1) refl refl] obtain parent' where
    "compress_path r x parent = Some parent'" "forest parent'" "rooted parent' = rooted parent"
    "js_keys parent' = js_keys parent" by auto
  with r find_root_rooted [OF r] show ?thesis by (auto simp: uf_find_def)
qed

section \<open>Union merges two classes\<close>

lemma rooted_link_mono:
  assumes a: "js_get parent ra = Some ra" and b: "js_get parent rb = Some rb" and ab: "ra \<noteq> rb"
  shows "rooted parent x r \<Longrightarrow> rooted (js_set ra rb parent) x (if r = ra then rb else r)"
proof (induction rule: rooted.induct)
  case (root r)
  have rb: "rooted (js_set ra rb parent) rb rb"
    using b ab by (intro rooted.root) (simp add: js_map_simps)
  show ?case
  proof (cases "r = ra")
    case True
    with rb ab show ?thesis by (auto intro: rooted.step [of _ ra rb rb] simp: js_map_simps)
  next
    case False
    with root show ?thesis by (auto intro: rooted.root simp: js_map_simps)
  qed
next
  case (step x p r)
  have "x \<noteq> ra" using step.hyps a by auto
  then show ?case using step by - (rule rooted.step [of _ _ p], simp_all add: js_map_simps)
qed

lemma rooted_link:
  assumes "forest parent" and a: "js_get parent ra = Some ra" and b: "js_get parent rb = Some rb" and ab: "ra \<noteq> rb"
  shows "rooted (js_set ra rb parent) x r' \<longleftrightarrow> (\<exists>r. rooted parent x r \<and> r' = (if r = ra then rb else r))"
proof
  assume new: "rooted (js_set ra rb parent) x r'"
  have "x \<in> set (js_keys parent)"
    using rooted_key [OF new] js_get_key [OF a] by (simp add: js_map_simps)
  then obtain r where r: "rooted parent x r" using assms(1) by (auto simp: forest_def)
  from rooted_unique [OF new rooted_link_mono [OF a b ab r]] r
  show "\<exists>r. rooted parent x r \<and> r' = (if r = ra then rb else r)" by blast
next
  assume "\<exists>r. rooted parent x r \<and> r' = (if r = ra then rb else r)"
  then show "rooted (js_set ra rb parent) x r'" using rooted_link_mono [OF a b ab] by blast
qed

text \<open>Two nodes are in the same class when they have the same root.\<close>

definition same_class :: "'k parents \<Rightarrow> 'k \<Rightarrow> 'k \<Rightarrow> bool" where
  "same_class parent x y = (\<exists>r. rooted parent x r \<and> rooted parent y r)"

lemma same_class_sym: "same_class parent x y \<Longrightarrow> same_class parent y x"
  by (auto simp: same_class_def)

lemma same_class_trans: "same_class parent x y \<Longrightarrow> same_class parent y z \<Longrightarrow> same_class parent x z"
  unfolding same_class_def
proof (elim exE conjE)
  fix r r'
  assume r: "rooted parent x r" "rooted parent y r" and r': "rooted parent y r'" "rooted parent z r'"
  have "r = r'" by (rule rooted_unique [OF r(2) r'(1)])
  with r r' show "\<exists>r. rooted parent x r \<and> rooted parent z r" by blast
qed

lemma same_class_refl: "forest parent \<Longrightarrow> x \<in> set (js_keys parent) \<Longrightarrow> same_class parent x x"
  by (auto simp: same_class_def forest_def)

lemma union_edge_spec:
  assumes f: "forest parent" and a: "a \<in> set (js_keys parent)" and b: "b \<in> set (js_keys parent)"
  shows "\<exists>parent'. union_edge (a, b) parent = Some parent' \<and> forest parent' \<and> js_keys parent' = js_keys parent \<and>
    (\<forall>x y. same_class parent' x y \<longleftrightarrow>
       same_class parent x y \<or> (same_class parent x a \<and> same_class parent y b) \<or>
       (same_class parent x b \<and> same_class parent y a))"
proof -
  from uf_find_spec [OF f a] obtain ra p1 where 1: "uf_find a parent = Some (ra, p1)" "rooted parent a ra"
    "forest p1" "rooted p1 = rooted parent" "js_keys p1 = js_keys parent" by blast
  from uf_find_spec [OF 1(3), of b] b 1(5) obtain rb p2 where 2: "uf_find b p1 = Some (rb, p2)" "rooted parent b rb"
    "forest p2" "rooted p2 = rooted parent" "js_keys p2 = js_keys parent" unfolding 1(4,5) by auto
  show ?thesis
  proof (cases "ra = rb")
    case True
    have "same_class parent a b" using 1(2) 2(2) True by (auto simp: same_class_def)
    then have "same_class p2 x y \<longleftrightarrow> same_class parent x y \<or> (same_class parent x a \<and> same_class parent y b) \<or>
       (same_class parent x b \<and> same_class parent y a)" for x y
      using same_class_trans same_class_sym by (simp add: same_class_def 2(4)) (metis rooted_unique)
    then show ?thesis using 1 2 True by (auto simp: union_edge_def)
  next
    case False
    let ?p = "js_set ra rb p2"
    have ga: "js_get p2 ra = Some ra" and gb: "js_get p2 rb = Some rb"
      using rooted_root [of p2] 1(2) 2(2,4) by auto
    have link: "rooted ?p x r' \<longleftrightarrow> (\<exists>r. rooted parent x r \<and> r' = (if r = ra then rb else r))" for x r'
      using rooted_link [OF 2(3) ga gb False] 2(4) by simp
    have "ra \<in> set (js_keys p2)" using js_get_key [OF ga] by simp
    then have keys: "js_keys ?p = js_keys parent" unfolding js_keys_set 2(5) by simp
    have "forest ?p" using 2(3) unfolding forest_def keys link 2(4,5) by blast
    moreover have "same_class ?p x y \<longleftrightarrow> same_class parent x y \<or> (same_class parent x a \<and> same_class parent y b) \<or>
       (same_class parent x b \<and> same_class parent y a)" for x y
    proof -
      have A: "rooted parent a r \<longleftrightarrow> r = ra" and B: "rooted parent b r \<longleftrightarrow> r = rb" for r
        using 1(2) 2(2) rooted_unique [of parent] by blast+
      have X: "(\<exists>rx. \<forall>r. rooted parent x r \<longleftrightarrow> r = rx) \<or> (\<forall>r. \<not> rooted parent x r)" for x
        using rooted_unique [of parent x] by blast
      show ?thesis
        unfolding same_class_def link A B using X [of x] X [of y] False by (elim disjE exE) (simp_all, blast)
    qed
    ultimately show ?thesis using 1 2 False keys by (auto simp: union_edge_def)
  qed
qed

end
