(* ===== verification/Components.thy ===== *)
theory Components
  imports Learning_Facts Union_Find Partition_Facts
begin

text \<open>
  \<^verbatim>\<open>src/epic/components.ts\<close>, the Epic wave planner: the conflict graph of a phase's pending
  tasks, its connected components and their modes, the ages of the components, the choice of
  the next wave, the work estimate and the dry run of a whole phase.

  Records of the source that are plain objects used as dictionaries (\<open>scopes\<close>, \<open>byTask\<close>,
  \<open>modes\<close>, \<open>density\<close>, \<open>exclusive\<close>) are insertion-ordered maps; inherited properties of
  \<open>Object.prototype\<close> are not modelled.  A key \<open>\<open><index>:<side>\<close>\<close> of the co-change index is the
  pair itself.  Densities are rationals.
\<close>

datatype component_mode = Exclusive | Serial_Component | Parallel

datatype exclusive_reason = Global_File | Protected_Path | No_Usable_Scope | Hot_File

definition DEFAULT_EPIC_DENSITY_THRESHOLD :: rat where "DEFAULT_EPIC_DENSITY_THRESHOLD = 3 / 10"
definition MAX_WAVE_COMPONENT_TASKS :: nat where "MAX_WAVE_COMPONENT_TASKS = 256"

record cochange_signal =
  cs_pairs :: "cochange_entry list"
  cs_threshold :: cochange_threshold

record wave_components =
  wc_byTask :: "(string, string) js_map"
  wc_modes :: "(string, component_mode) js_map"
  wc_density :: "(string, rat) js_map"
  wc_exclusive :: "(string, exclusive_reason) js_map"
  wc_threshold :: rat
  wc_truncated :: bool

record wave_history_entry =
  wh_taskIds :: "string list"
  wh_byTask :: "(string, string) js_map option"

record graph_input =
  gi_directory :: string
  gi_tasks :: "plan_task list"
  gi_scopes :: "(string, string list) js_map"
  gi_leanConfig :: lean_config
  gi_hotFiles :: "string list"
  gi_coWrites :: "cowrite_index option"
  gi_cochange :: "cochange_signal option"

record conflict_graph =
  g_preflight :: partition_preflight
  g_exclusive :: "(string, exclusive_reason) js_map"
  g_adjacency :: "(string, string list) js_map"
  g_topoIndex :: "(string, nat) js_map"

section \<open>The conflict graph\<close>

definition exclusiveReasonOf ::
  "runtime \<Rightarrow> task_risk_category \<Rightarrow> string list \<Rightarrow> string list \<Rightarrow> exclusive_reason option" where
  "exclusiveReasonOf rt category scope hotFiles =
     (if category = Global then Some Global_File
      else if category = Protected then Some Protected_Path
      else if category \<noteq> Normal \<or> length scope = 0 then Some No_Usable_Scope
      else if length hotFiles > 0 then
        (let hot = js_uniq (map (normalizePath rt) hotFiles)
         in if list_ex (\<lambda>file. normalizePath rt file \<in> set hot) scope then Some Hot_File else None)
      else None)"

datatype pair_side = Side_A | Side_B

type_synonym pair_key = "nat \<times> pair_side"

text \<open>The suffixes of a path that start after one of its slashes.\<close>

fun slash_suffixes :: "string \<Rightarrow> string list" where
  "slash_suffixes [] = []"
| "slash_suffixes (c # s) = (if c = slash then s # slash_suffixes s else slash_suffixes s)"

definition add_file_entry :: "string \<Rightarrow> pair_key \<Rightarrow> (string, pair_key list) js_map \<Rightarrow> (string, pair_key list) js_map" where
  "add_file_entry file entry byFile = js_set file (js_get_or byFile file [] @ [entry]) byFile"

definition index_pair ::
  "cochange_threshold \<Rightarrow> nat \<times> cochange_entry \<Rightarrow> (string, pair_key list) js_map \<Rightarrow> (string, pair_key list) js_map" where
  "index_pair th ip byFile =
     (let (index, pair) = ip
      in if e_coChangeCount pair < th_minCoChanges th \<or> e_npmi pair < th_npmi th then byFile
         else add_file_entry (e_fileB pair) (index, Side_B) (add_file_entry (e_fileA pair) (index, Side_A) byFile))"

definition pairs_by_file :: "cochange_signal \<Rightarrow> (string, pair_key list) js_map" where
  "pairs_by_file cochange =
     fold (index_pair (cs_threshold cochange)) (enumerate 0 (cs_pairs cochange)) []"

text \<open>\<open>touched\<close>: per pair index, whether side A and side B were matched.\<close>

definition touch_side :: "pair_key \<Rightarrow> (nat, bool \<times> bool) js_map \<Rightarrow> (nat, bool \<times> bool) js_map" where
  "touch_side key touched =
     (let (a, b) = js_get_or touched (fst key) (False, False)
      in js_set (fst key) (case snd key of Side_A \<Rightarrow> (True, b) | Side_B \<Rightarrow> (a, True)) touched)"

definition touched_pairs :: "(string, pair_key list) js_map \<Rightarrow> string list \<Rightarrow> (nat, bool \<times> bool) js_map" where
  "touched_pairs byFile paths =
     fold (\<lambda>scopePath touched.
        fold (\<lambda>file. fold touch_side (js_get_or byFile file []))
          (scopePath # slash_suffixes scopePath) touched) paths []"

record partner_sides =
  ps_owned :: "pair_key list"
  ps_wanted :: "pair_key list"

definition sides_of :: "(nat, bool \<times> bool) js_map \<Rightarrow> partner_sides" where
  "sides_of touched =
     fold (\<lambda>(index, a, b) ps.
        if a = b then ps
        else let mine = (if a then Side_A else Side_B)
             in \<lparr>ps_owned = set_add (index, mine) (ps_owned ps),
                 ps_wanted = set_add (index, if mine = Side_A then Side_B else Side_A) (ps_wanted ps)\<rparr>)
      touched \<lparr>ps_owned = [], ps_wanted = []\<rparr>"

definition cochangePartners ::
  "string list \<Rightarrow> (string, string list) js_map \<Rightarrow> cochange_signal option \<Rightarrow> (string, partner_sides) js_map" where
  "cochangePartners ids normalized cochange =
     (case cochange of
        None \<Rightarrow> []
      | Some signal \<Rightarrow>
          let byFile = pairs_by_file signal
          in if length byFile = 0 then []
             else fold (\<lambda>id result.
                    let sides = sides_of (touched_pairs byFile (js_get_or normalized id []))
                    in if length (ps_owned sides) > 0 then js_set id sides result else result)
                  ids [])"

definition crossCoupled :: "partner_sides option \<Rightarrow> partner_sides option \<Rightarrow> bool" where
  "crossCoupled a b =
     (case (a, b) of
        (Some a, Some b) \<Rightarrow>
          (let (small, large) =
             (if length (ps_wanted a) \<le> length (ps_owned b) then (ps_wanted a, ps_owned b)
              else (ps_owned b, ps_wanted a))
           in list_ex (\<lambda>key. key \<in> set large) small)
      | _ \<Rightarrow> False)"

definition task_scopes :: "graph_input \<Rightarrow> (string, string list) js_map" where
  "task_scopes inp = fold (\<lambda>task. js_set (t_id task) (js_get_or (gi_scopes inp) (t_id task) [])) (gi_tasks inp) []"

definition split_exclusive ::
  "runtime \<Rightarrow> string list \<Rightarrow> (string, string list) js_map \<Rightarrow> classified_task list \<Rightarrow>
   (string, exclusive_reason) js_map \<times> string list" where
  "split_exclusive rt hotFiles scopes cts =
     fold (\<lambda>ct (exclusive, vertices).
        case exclusiveReasonOf rt (c_category ct) (js_get_or scopes (c_id ct) []) hotFiles of
          Some reason \<Rightarrow> (js_set (c_id ct) reason exclusive, vertices)
        | None \<Rightarrow> (exclusive, vertices @ [c_id ct])) cts ([], [])"

definition add_conflict_edge :: "string \<times> string \<Rightarrow> (string, string list) js_map \<Rightarrow> (string, string list) js_map" where
  "add_conflict_edge ab adjacency =
     (let (a, b) = ab;
          adj1 = js_set a (set_add b (js_get_or adjacency a [])) adjacency
      in js_set b (set_add a (js_get_or adj1 b [])) adj1)"

definition topo_positions :: "runtime \<Rightarrow> partition_preflight \<Rightarrow> (string, nat) js_map" where
  "topo_positions rt pf =
     fold (\<lambda>id topo. if js_has topo id then topo else js_set id (length topo) topo)
       (js_sort (locale_compare rt) (tasksInCycle pf))
       (fold (\<lambda>(index, ct). js_set (c_id ct) index) (enumerate 0 (sortedTasks pf)) [])"

definition buildEpicConflictGraph :: "runtime \<Rightarrow> graph_input \<Rightarrow> conflict_graph" where
  "buildEpicConflictGraph rt inp =
     (let scopes = task_scopes inp;
          preflight = runPartitionPreflight rt (gi_directory inp) (gi_tasks inp) (gi_leanConfig inp)
                        (Some scopes) (\<lambda>_. None);
          (exclusive, vertices) = split_exclusive rt (gi_hotFiles inp) scopes (map snd (taskMap preflight));
          normalized = map (\<lambda>id. (id, map (normalizePath rt) (js_get_or scopes id []))) vertices;
          expanded = map (\<lambda>id. (id, expandEpicScope rt (js_get_or scopes id []) (gi_coWrites inp))) vertices;
          partners = cochangePartners vertices normalized (gi_cochange inp);
          adjacency = fold (\<lambda>(a, b) adj.
            if pathOverlap rt (js_get_or expanded a []) (js_get_or expanded b []) \<or>
               crossCoupled (js_get partners a) (js_get partners b)
            then add_conflict_edge (a, b) adj else adj)
            (index_pairs vertices) (map (\<lambda>id. (id, [])) vertices)
      in \<lparr>g_preflight = preflight, g_exclusive = exclusive, g_adjacency = adjacency,
          g_topoIndex = topo_positions rt preflight\<rparr>)"

section \<open>Components\<close>

record epic_component =
  ec_id :: string
  ec_members :: "string list"
  ec_mode :: component_mode
  ec_edgeCount :: nat
  ec_density :: rat
  ec_exclusiveReason :: "exclusive_reason option"

record component_partition =
  cp_components :: "epic_component list"
  cp_componentOf :: "(string, string) js_map"
  cp_threshold :: rat

definition initial_parents :: "conflict_graph \<Rightarrow> string list \<Rightarrow> string parents" where
  "initial_parents graph members =
     fold (\<lambda>id parent. if js_has (g_exclusive graph) id then parent else js_set id id parent) members []"

definition member_edges :: "conflict_graph \<Rightarrow> string parents \<Rightarrow> (string \<times> string) list" where
  "member_edges graph parent =
     concat (map (\<lambda>(a, neighbours).
        if \<not> js_has parent a then []
        else map (Pair a) (filter (\<lambda>b. code_unit_compare a b < 0 \<and> js_has parent b) neighbours))
      (g_adjacency graph))"

definition collect_group ::
  "string \<Rightarrow> string parents \<times> (string, string list) js_map \<Rightarrow> (string parents \<times> (string, string list) js_map) option" where
  "collect_group i s =
     (case uf_find i (fst s) of
        None \<Rightarrow> None
      | Some (rep, parent) \<Rightarrow> Some (parent, js_set rep (js_get_or (snd s) rep [] @ [i]) (snd s)))"

definition count_edge ::
  "string \<times> string \<Rightarrow> string parents \<times> (string, nat) js_map \<Rightarrow> (string parents \<times> (string, nat) js_map) option" where
  "count_edge edge s =
     (case uf_find (fst edge) (fst s) of
        None \<Rightarrow> None
      | Some (rep, parent) \<Rightarrow> Some (parent, js_set rep (js_get_or (snd s) rep 0 + 1) (snd s)))"

definition group_component :: "runtime \<Rightarrow> rat \<Rightarrow> (string, nat) js_map \<Rightarrow> string \<times> string list \<Rightarrow> epic_component" where
  "group_component rt densityThreshold edgeCount entry =
     (let group = js_sort (locale_compare rt) (snd entry);
          n = length group;
          count = js_get_or edgeCount (fst entry) 0;
          density = (if n < 2 then 0 else of_nat count / (of_nat (n * (n - 1)) / 2))
      in \<lparr>ec_id = hd group, ec_members = group,
          ec_mode = (if density > densityThreshold then Serial_Component else Parallel),
          ec_edgeCount = count, ec_density = density, ec_exclusiveReason = None\<rparr>)"

definition exclusive_component :: "string \<Rightarrow> exclusive_reason \<Rightarrow> epic_component" where
  "exclusive_component i reason =
     \<lparr>ec_id = i, ec_members = [i], ec_mode = Exclusive, ec_edgeCount = 0, ec_density = 0,
      ec_exclusiveReason = Some reason\<rparr>"

definition component_map :: "epic_component list \<Rightarrow> (string, string) js_map" where
  "component_map cs = fold (\<lambda>c. fold (\<lambda>id. js_set id (ec_id c)) (ec_members c)) cs []"

definition partitionEpicComponents ::
  "runtime \<Rightarrow> conflict_graph \<Rightarrow> string list \<Rightarrow> rat \<Rightarrow> component_partition option" where
  "partitionEpicComponents rt graph taskIds densityThreshold =
     (let members = js_uniq taskIds;
          parent0 = initial_parents graph members;
          edges = member_edges graph parent0
      in case fold_option union_edge edges parent0 of
           None \<Rightarrow> None
         | Some parent1 \<Rightarrow>
           (case fold_option collect_group (js_keys parent1) (parent1, []) of
              None \<Rightarrow> None
            | Some (parent2, groups) \<Rightarrow>
              (case fold_option count_edge edges (parent2, []) of
                 None \<Rightarrow> None
               | Some (parent3, edgeCount) \<Rightarrow>
                   let grouped = map (group_component rt densityThreshold edgeCount) groups;
                       alone = concat (map (\<lambda>id. case js_get (g_exclusive graph) id of
                                   Some reason \<Rightarrow> [exclusive_component id reason] | None \<Rightarrow> []) members);
                       components = grouped @ alone
                   in Some \<lparr>cp_components = js_sort (\<lambda>a b. locale_compare rt (ec_id a) (ec_id b)) components,
                            cp_componentOf = component_map components,
                            cp_threshold = densityThreshold\<rparr>)))"

section \<open>Ages\<close>

definition serves :: "wave_history_entry \<Rightarrow> epic_component \<Rightarrow> bool" where
  "serves wave component =
     (let byTask = (case wh_byTask wave of None \<Rightarrow> [] | Some m \<Rightarrow> m);
          served = fold (\<lambda>taskId acc. case js_get byTask taskId of None \<Rightarrow> acc | Some r \<Rightarrow> set_add r acc)
                     (wh_taskIds wave) []
      in list_ex (\<lambda>member. member \<in> set (wh_taskIds wave) \<or>
             (case js_get byTask member of None \<Rightarrow> False | Some r \<Rightarrow> r \<in> set served))
           (ec_members component))"

definition component_age :: "wave_history_entry list \<Rightarrow> epic_component \<Rightarrow> nat" where
  "component_age history component =
     (case find_index (\<lambda>wave. serves wave component) (rev history) of
        Some i \<Rightarrow> i
      | None \<Rightarrow> length history)"

definition componentAges :: "component_partition \<Rightarrow> wave_history_entry list \<Rightarrow> (string, nat) js_map" where
  "componentAges part history =
     fold (\<lambda>component. js_set (ec_id component) (component_age history component)) (cp_components part) []"

section \<open>The next wave\<close>

datatype wave_kind = Wave_Parallel | Wave_Exclusive | Wave_Serial_Component

record wave_choice =
  wv_taskIds :: "string list"
  wv_kind :: wave_kind

definition component_of :: "component_partition \<Rightarrow> string \<Rightarrow> string" where
  "component_of part i = js_get_or (cp_componentOf part) i i"

definition wave_order ::
  "runtime \<Rightarrow> conflict_graph \<Rightarrow> component_partition \<Rightarrow> (string, nat) js_map \<Rightarrow> string \<Rightarrow> string \<Rightarrow> int" where
  "wave_order rt graph part ages a b =
     cmp_or (int (js_get_or ages (component_of part b) 0) - int (js_get_or ages (component_of part a) 0))
       (cmp_or (int (js_get_or (g_topoIndex graph) a 0) - int (js_get_or (g_topoIndex graph) b 0))
         (locale_compare rt a b))"

definition component_modes :: "component_partition \<Rightarrow> (string, component_mode) js_map" where
  "component_modes part = fold (\<lambda>c. js_set (ec_id c) (ec_mode c)) (cp_components part) []"

definition is_serial :: "component_partition \<Rightarrow> string \<Rightarrow> bool" where
  "is_serial part i = (js_get (component_modes part) (component_of part i) = Some Serial_Component)"

fun fill_wave ::
  "conflict_graph \<Rightarrow> component_partition \<Rightarrow> nat \<Rightarrow> string list \<Rightarrow> string list \<times> string list \<Rightarrow> string list \<times> string list" where
  "fill_wave graph part width [] (chosen, usedSerial) = (chosen, usedSerial)"
| "fill_wave graph part width (i # order) (chosen, usedSerial) =
     (if length chosen \<ge> width then (chosen, usedSerial)
      else
        let component = component_of part i;
            serial = is_serial part i
        in if serial \<and> component \<in> set usedSerial then fill_wave graph part width order (chosen, usedSerial)
           else if list_ex (\<lambda>other. other \<in> set (js_get_or (g_adjacency graph) i [])) chosen
           then fill_wave graph part width order (chosen, usedSerial)
           else fill_wave graph part width order
                  (chosen @ [i], if serial then set_add component usedSerial else usedSerial))"

definition chooseEpicWave ::
  "runtime \<Rightarrow> conflict_graph \<Rightarrow> component_partition \<Rightarrow> string list \<Rightarrow> int \<Rightarrow> (string, nat) js_map \<Rightarrow> wave_choice option" where
  "chooseEpicWave rt graph part readyIds maxParallel ages =
     (if length readyIds = 0 then None
      else
        let order = js_sort (wave_order rt graph part ages) readyIds
        in case List.find (\<lambda>id. js_has (g_exclusive graph) id) order of
             Some exclusive \<Rightarrow> Some \<lparr>wv_taskIds = [exclusive], wv_kind = Wave_Exclusive\<rparr>
           | None \<Rightarrow>
               let width = nat (max 1 maxParallel);
                   (chosen, usedSerial) = fill_wave graph part width order ([], []);
                   kind = (if length chosen = 1 \<and> is_serial part (hd chosen)
                           then Wave_Serial_Component else Wave_Parallel)
               in Some \<lparr>wv_taskIds = chosen, wv_kind = kind\<rparr>)"

definition readyEpicTasks :: "runtime \<Rightarrow> conflict_graph \<Rightarrow> string list \<Rightarrow> (string \<Rightarrow> bool) \<Rightarrow> string list" where
  "readyEpicTasks rt graph dn satisfiedOutside =
     map c_id (getReadyTasks rt (sortedTasks (g_preflight graph)) dn
       (makeDependencySatisfactionChecker (taskMap (g_preflight graph)) dn (Some satisfiedOutside)))"

text \<open>\<open>Math.round\<close>: the nearest integer, halves towards positive infinity.\<close>

definition js_round :: "rat \<Rightarrow> int" where
  "js_round x = \<lfloor>x + 1 / 2\<rfloor>"

fun keep_until :: "nat \<Rightarrow> string list \<Rightarrow> string list \<Rightarrow> string list" where
  "keep_until cap [] keep = keep"
| "keep_until cap (i # ids) keep = (if length keep \<ge> cap then keep else keep_until cap ids (set_add i keep))"

definition toWaveComponents :: "runtime \<Rightarrow> component_partition \<Rightarrow> string list \<Rightarrow> wave_components" where
  "toWaveComponents rt part waveTaskIds =
     (let ids = js_sort (locale_compare rt) (js_keys (cp_componentOf part));
          keep = keep_until MAX_WAVE_COMPONENT_TASKS ids (js_uniq waveTaskIds);
          byTask = fold (\<lambda>id. js_set id (component_of part id)) (filter (\<lambda>id. id \<in> set keep) ids) [];
          recorded = filter (\<lambda>c. ec_id c \<in> set (map snd byTask)) (cp_components part)
      in \<lparr>wc_byTask = byTask,
          wc_modes = fold (\<lambda>c. js_set (ec_id c) (ec_mode c)) recorded [],
          wc_density = fold (\<lambda>c. js_set (ec_id c) (of_int (js_round (ec_density c * 1000)) / 1000)) recorded [],
          wc_exclusive = fold (\<lambda>c m. case ec_exclusiveReason c of None \<Rightarrow> m | Some r \<Rightarrow> js_set (ec_id c) r m) recorded [],
          wc_threshold = cp_threshold part,
          wc_truncated = (length keep < length ids)\<rparr>)"

record next_wave_input =
  nw_graph :: graph_input
  nw_maxParallel :: int
  nw_densityThreshold :: rat
  nw_satisfiedOutside :: "string \<Rightarrow> bool"
  nw_history :: "wave_history_entry list"

definition planNextEpicWave :: "runtime \<Rightarrow> next_wave_input \<Rightarrow> (component_partition \<times> wave_choice option) option" where
  "planNextEpicWave rt inp =
     (let graph = buildEpicConflictGraph rt (nw_graph inp)
      in case partitionEpicComponents rt graph (map t_id (gi_tasks (nw_graph inp))) (nw_densityThreshold inp) of
           None \<Rightarrow> None
         | Some part \<Rightarrow>
             Some (part,
               chooseEpicWave rt graph part (readyEpicTasks rt graph [] (nw_satisfiedOutside inp))
                 (nw_maxParallel inp) (componentAges part (nw_history inp))))"

section \<open>The dry run\<close>

definition EPIC_WORK_PER_SCOPE_PATH :: int where "EPIC_WORK_PER_SCOPE_PATH = 8"
definition EPIC_WORK_PER_TASK_PAIR :: int where "EPIC_WORK_PER_TASK_PAIR = 6"

definition epicWaveWork :: "int list \<Rightarrow> int \<Rightarrow> rat" where
  "epicWaveWork scopeSizes history =
     (let (sum, squares) = fold (\<lambda>size (sum, squares). let n = max 1 size in (sum + n, squares + n * n)) scopeSizes (0, 0);
          r = int (length scopeSizes)
      in of_int (EPIC_WORK_PER_SCOPE_PATH * sum) + of_int (EPIC_WORK_PER_TASK_PAIR * r * (r - 1)) / 2 +
         of_int (sum * sum - squares) / 2 + of_int (r * history))"

record dry_run =
  dr_waves :: "wave_choice list"
  dr_unscheduled :: "string list"
  dr_work :: rat
  dr_aborted :: bool

record dry_state =
  ds_remaining :: "plan_task list"
  ds_history :: "wave_history_entry list"
  ds_waves :: "wave_choice list"
  ds_work :: rat
  ds_aborted :: bool

definition dry_cost :: "next_wave_input \<Rightarrow> dry_state \<Rightarrow> rat" where
  "dry_cost inp st =
     epicWaveWork (map (\<lambda>t. int (length (js_get_or (gi_scopes (nw_graph inp)) (t_id t) []))) (ds_remaining st))
       (int (length (ds_history st)))"

definition over_budget :: "rat option \<Rightarrow> next_wave_input \<Rightarrow> dry_state \<Rightarrow> bool" where
  "over_budget maxWork inp st =
     (case maxWork of None \<Rightarrow> False | Some m \<Rightarrow> ds_work st + dry_cost inp st > m)"

definition dry_input :: "next_wave_input \<Rightarrow> string list \<Rightarrow> dry_state \<Rightarrow> next_wave_input" where
  "dry_input inp blocked st =
     inp\<lparr>nw_graph := (nw_graph inp)\<lparr>gi_tasks := ds_remaining st\<rparr>,
         nw_satisfiedOutside := (\<lambda>dep. dep \<notin> set blocked), nw_history := ds_history st\<rparr>"

definition dry_issue :: "runtime \<Rightarrow> component_partition \<Rightarrow> wave_choice \<Rightarrow> dry_state \<Rightarrow> dry_state" where
  "dry_issue rt part choice st =
     st\<lparr>ds_waves := ds_waves st @ [choice],
        ds_history := ds_history st @
          [\<lparr>wh_taskIds = wv_taskIds choice,
            wh_byTask = Some (wc_byTask (toWaveComponents rt part (wv_taskIds choice)))\<rparr>],
        ds_remaining := filter (\<lambda>t. t_id t \<notin> set (wv_taskIds choice)) (ds_remaining st)\<rparr>"

text \<open>The loop of \<open>dryRunEpicPhase\<close>.  Every wave removes a task, so \<open>length remaining\<close> rounds
  are enough; \<open>fuel\<close> starts one above it.\<close>

fun dry_loop :: "runtime \<Rightarrow> next_wave_input \<Rightarrow> rat option \<Rightarrow> string list \<Rightarrow> nat \<Rightarrow> dry_state \<Rightarrow> dry_state option" where
  "dry_loop rt inp maxWork blocked 0 st = None"
| "dry_loop rt inp maxWork blocked (Suc fuel) st =
     (if length (ds_remaining st) = 0 then Some st
      else if over_budget maxWork inp st then Some (st\<lparr>ds_aborted := True\<rparr>)
      else
        let st1 = st\<lparr>ds_work := ds_work st + dry_cost inp st\<rparr>
        in case planNextEpicWave rt (dry_input inp blocked st) of
             None \<Rightarrow> None
           | Some (part, None) \<Rightarrow> Some st1
           | Some (part, Some choice) \<Rightarrow> dry_loop rt inp maxWork blocked fuel (dry_issue rt part choice st1))"

definition dryRunEpicPhase :: "runtime \<Rightarrow> next_wave_input \<Rightarrow> rat option \<Rightarrow> dry_run option" where
  "dryRunEpicPhase rt inp maxWork =
     (let tasks = gi_tasks (nw_graph inp);
          blocked = js_uniq (map t_id (filter (\<lambda>t. t_status t = Blocked) tasks));
          remaining = filter (\<lambda>t. t_id t \<notin> set blocked) tasks
      in case dry_loop rt inp maxWork blocked (length remaining + 1)
                \<lparr>ds_remaining = remaining, ds_history = [], ds_waves = [], ds_work = 0, ds_aborted = False\<rparr> of
           None \<Rightarrow> None
         | Some st \<Rightarrow>
             Some \<lparr>dr_waves = ds_waves st,
                   dr_unscheduled = js_sort (locale_compare rt) (blocked @ map t_id (ds_remaining st)),
                   dr_work = ds_work st, dr_aborted = ds_aborted st\<rparr>)"

end
