(* ===== verification/Epic_Record.thy ===== *)
theory Epic_Record
  imports Components
begin

text \<open>
  The epic lifecycle record of \<^verbatim>\<open>src/epic/lifecycle.ts\<close> and the pure mutations that are
  committed to it: issuing a wave, aborting it, recording merge failures and the phase
  bookkeeping (\<^verbatim>\<open>src/epic/next-wave.ts\<close>, \<^verbatim>\<open>src/epic/next-wave-format.ts\<close>), closing a wave
  (\<^verbatim>\<open>src/epic/wave-close.ts\<close>), completing a phase, closing the epic, its branch and its landing
  attempts (\<^verbatim>\<open>lifecycle.ts\<close>), review runs (\<^verbatim>\<open>src/tools/epic-phase-review.ts\<close>), repaired markers
  (\<^verbatim>\<open>src/commands/epic.ts\<close>), and the record a start creates (\<^verbatim>\<open>src/epic/start.ts\<close>).

  Absent and \<open>null\<close> fields are both \<open>None\<close>.  Fields that no modelled operation reads (session,
  sizing, digests of the plan) are left out.  The JSON objects keyed by phase and task id are
  insertion-ordered maps; \<open>String(phase)\<close> is the number itself.
\<close>

section \<open>The record\<close>

datatype epic_lifecycle_status = Epic_Open | Epic_Closing

datatype wave_status = Issued | Wave_Closed | Aborted

record wave_cochange =
  wcc_pairs :: "cochange_entry list"
  wcc_threshold :: cochange_threshold

record merge_snapshot =
  ms_outcome :: string
  ms_stage :: string
  ms_message :: string
  ms_at :: "int option"

record epic_wave =
  ew_seq :: int
  ew_phase :: int
  ew_kind :: wave_kind
  ew_taskIds :: "string list"
  ew_files :: "(string, string list) js_map"
  ew_cochange :: "wave_cochange option"
  ew_components :: "wave_components option"
  ew_baseHead :: "string option"
  ew_issuedAt :: string
  ew_closedAt :: "string option"
  ew_closeHead :: "string option"
  ew_status :: wave_status
  ew_aborted :: "(string \<times> int) list option"  \<comment> \<open>the moved tasks the abort reason names\<close>
  ew_mergeFailures :: "(string, merge_snapshot) js_map option"
  ew_undeclared :: "string list option"

datatype outcome_attribution = Attr_Session | Attr_Git_Single_Task | Attr_Unavailable | Attr_No_Git

datatype marker_provenance = Landing_Commit | Wave_Close_Head | Repaired | No_Git

record task_marker =
  tm_ref :: "string option"
  tm_sha :: "string option"
  tm_provenance :: marker_provenance

text \<open>An outcome as \<open>learning.ts\<close> reads it, with the fields only the record keeps.\<close>

record epic_outcome = task_outcome +
  eo_phase :: int
  eo_waveSeq :: int
  eo_resolvedAt :: string
  eo_stageAFailures :: int
  eo_mergeFailure :: "(string \<times> string) option"
  eo_attribution :: outcome_attribution
  eo_marker :: "task_marker option"

datatype epic_isolation = Worktree | Main_Tree_No_Git

datatype phase_status = Phase_Active | Phase_Review | Phase_Complete

record phase_record =
  phr_status :: phase_status
  phr_completeAtStart :: bool
  phr_reviewRuns :: nat
  phr_verdicts :: "string list"

datatype close_outcome = Close_Completed | Close_Abandoned | Close_Abandoned_By_Swarm_Close

datatype land_mode = Land_Squash | Land_Merge | Land_None

datatype landing_status = Landing_Conflict | Landing_Failed

record landing_attempt =
  la_mode :: land_mode
  la_status :: landing_status
  la_at :: string
  la_conflictFiles :: "string list"
  la_detail :: string

record closing_info =
  ci_requestedAt :: string
  ci_outcome :: close_outcome
  ci_land :: "land_mode option"
  ci_lastLandingAttempt :: "landing_attempt option"

record epic_record =
  ep_epicKey :: string
  ep_token :: string
  ep_planIdentityHash :: string
  ep_planKey :: string
  ep_ledgerRootDigest :: "string option"
  ep_status :: epic_lifecycle_status
  ep_startedAt :: string
  ep_isolation :: epic_isolation
  ep_maxParallel :: int
  ep_isRepo :: bool
  ep_baseCommit :: "string option"
  ep_epicBranch :: "string option"
  ep_closing :: "closing_info option"
  ep_waves :: "epic_wave list"
  ep_activeWaveSeq :: "int option"
  ep_tasks :: "(string, epic_outcome) js_map"
  ep_phases :: "(int, phase_record) js_map"

definition EPIC_PHASE_VERDICTS_KEEP :: nat where "EPIC_PHASE_VERDICTS_KEEP = 20"

section \<open>Start\<close>

text \<open>\<open>isClosed\<close> is the plan status of a phase: \<open>phase.status === 'closed'\<close>.\<close>

definition phase_finished :: "(int \<Rightarrow> bool) \<Rightarrow> plan_phase \<Rightarrow> bool" where
  "phase_finished isClosed phase =
     (isClosed (ph_id phase) \<or>
      (length (ph_tasks phase) > 0 \<and> list_all (\<lambda>t. t_status t = Completed \<or> t_status t = Closed) (ph_tasks phase)))"

definition initialEpicPhases :: "(int \<Rightarrow> bool) \<Rightarrow> plan_phase list \<Rightarrow> (int, phase_record) js_map" where
  "initialEpicPhases isClosed plan =
     fold (\<lambda>phase phases.
        if phase_finished isClosed phase
        then js_set (ph_id phase) \<lparr>phr_status = Phase_Complete, phr_completeAtStart = True,
                                   phr_reviewRuns = 0, phr_verdicts = []\<rparr> phases
        else phases) plan []"

definition start_record ::
  "string \<Rightarrow> string \<Rightarrow> string \<Rightarrow> string \<Rightarrow> string option \<Rightarrow> string \<Rightarrow> bool \<Rightarrow>
   string option \<Rightarrow> int \<Rightarrow> (int \<Rightarrow> bool) \<Rightarrow> plan_phase list \<Rightarrow> epic_record" where
  "start_record epicKey token identityHash planKey ledgerDigest startedAt isRepo baseCommit maxParallel isClosed plan =
     \<lparr>ep_epicKey = epicKey, ep_token = token, ep_planIdentityHash = identityHash, ep_planKey = planKey,
      ep_ledgerRootDigest = ledgerDigest, ep_status = Epic_Open, ep_startedAt = startedAt,
      ep_isolation = (if isRepo then Worktree else Main_Tree_No_Git), ep_maxParallel = maxParallel,
      ep_isRepo = isRepo, ep_baseCommit = baseCommit, ep_epicBranch = None, ep_closing = None, ep_waves = [], ep_activeWaveSeq = None,
      ep_tasks = [], ep_phases = initialEpicPhases isClosed plan\<rparr>"

section \<open>Committing a mutation\<close>

definition MAX_RECORD_UPDATE_ATTEMPTS :: nat where "MAX_RECORD_UPDATE_ATTEMPTS = 5"

text \<open>The store answers each attempt with the row it read and the result of the revision-checked
  write.  \<open>tooLarge\<close> is the test of the serialized size.  Callers learn from the row the applied attempt
  read what their mutation did (the variables the code's closures assign), so the row is returned
  with the new record.\<close>

datatype row_read = Row_Absent | Row_Unreadable | Row epic_record

datatype write_result = Applied | Revision_Conflict | Stale_Generation | Write_Refused

record update_attempt =
  ua_row :: row_read
  ua_write :: write_result

datatype update_error = Row_Corrupt | Record_Too_Large | Update_Failed | Update_Contention

fun update_loop ::
  "(epic_record \<Rightarrow> bool) \<Rightarrow> (epic_record \<Rightarrow> epic_record) \<Rightarrow> string option \<Rightarrow> nat \<Rightarrow> (nat \<Rightarrow> update_attempt) \<Rightarrow>
   nat \<Rightarrow> update_error + (epic_record \<times> epic_record) option" where
  "update_loop tooLarge mutate expectedToken 0 store attempt = Inl Update_Contention"
| "update_loop tooLarge mutate expectedToken (Suc left) store attempt =
     (case ua_row (store attempt) of
        Row_Absent \<Rightarrow> Inr None
      | Row_Unreadable \<Rightarrow> Inl Row_Corrupt
      | Row record \<Rightarrow>
          if (case expectedToken of None \<Rightarrow> False | Some t \<Rightarrow> ep_token record \<noteq> t) then Inr None
          else
            let new = mutate record
            in if tooLarge new then Inl Record_Too_Large
               else case ua_write (store attempt) of
                      Applied \<Rightarrow> Inr (Some (record, new))
                    | Write_Refused \<Rightarrow> Inl Update_Failed
                    | _ \<Rightarrow> update_loop tooLarge mutate expectedToken left store (Suc attempt))"

definition updateEpicRecord ::
  "(epic_record \<Rightarrow> bool) \<Rightarrow> (nat \<Rightarrow> update_attempt) \<Rightarrow> (epic_record \<Rightarrow> epic_record) \<Rightarrow> string option \<Rightarrow>
   update_error + (epic_record \<times> epic_record) option" where
  "updateEpicRecord tooLarge store mutate expectedToken =
     update_loop tooLarge mutate expectedToken MAX_RECORD_UPDATE_ATTEMPTS store 0"

section \<open>Phases\<close>

definition syncPhaseRecords :: "(int, phase_record) js_map \<Rightarrow> int \<Rightarrow> phase_status \<Rightarrow> (int, phase_record) js_map" where
  "syncPhaseRecords phases currentPhase currentStatus =
     (case js_get phases currentPhase of
        Some prior \<Rightarrow>
          if phr_status prior = currentStatus \<or> phr_status prior = Phase_Complete then phases
          else js_set currentPhase \<lparr>phr_status = currentStatus, phr_completeAtStart = False,
                 phr_reviewRuns = phr_reviewRuns prior, phr_verdicts = phr_verdicts prior\<rparr> phases
      | None \<Rightarrow> js_set currentPhase \<lparr>phr_status = currentStatus, phr_completeAtStart = False,
                 phr_reviewRuns = 0, phr_verdicts = []\<rparr> phases)"

definition sync_phases :: "int \<Rightarrow> phase_status \<Rightarrow> epic_record \<Rightarrow> epic_record" where
  "sync_phases currentPhase currentStatus record =
     record\<lparr>ep_phases := syncPhaseRecords (ep_phases record) currentPhase currentStatus\<rparr>"

definition recorded_complete :: "epic_record \<Rightarrow> int \<Rightarrow> bool" where
  "recorded_complete record phase =
     (case js_get (ep_phases record) phase of None \<Rightarrow> False | Some p \<Rightarrow> phr_status p = Phase_Complete)"

definition isEpicPhaseDone :: "epic_record \<Rightarrow> (int \<Rightarrow> bool) \<Rightarrow> int \<Rightarrow> bool" where
  "isEpicPhaseDone record isClosed phase =
     (recorded_complete record phase \<or> isClosed phase)"

definition epicCurrentPhase :: "epic_record \<Rightarrow> (int \<Rightarrow> bool) \<Rightarrow> int list \<Rightarrow> int option" where
  "epicCurrentPhase record isClosed phases = List.find (\<lambda>phase. \<not> isEpicPhaseDone record isClosed phase) phases"

text \<open>The mutation of \<open>markEpicPhaseComplete\<close>, and the function around it; \<open>phases\<close> is the plan's
  phase order when it can be read.\<close>

definition complete_phase :: "int \<Rightarrow> epic_record \<Rightarrow> epic_record" where
  "complete_phase phase record =
     (case js_get (ep_phases record) phase of
        Some prior \<Rightarrow>
          if phr_status prior = Phase_Complete then record
          else record\<lparr>ep_phases := js_set phase \<lparr>phr_status = Phase_Complete, phr_completeAtStart = False,
                 phr_reviewRuns = phr_reviewRuns prior, phr_verdicts = phr_verdicts prior\<rparr> (ep_phases record)\<rparr>
      | None \<Rightarrow> record\<lparr>ep_phases := js_set phase \<lparr>phr_status = Phase_Complete, phr_completeAtStart = False,
                 phr_reviewRuns = 0, phr_verdicts = []\<rparr> (ep_phases record)\<rparr>)"

datatype phase_complete_outcome =
    Phase_Recorded epic_record
  | Phase_Already_Complete epic_record
  | Phase_No_Open_Epic
  | Not_Current_Phase "int option"

definition markEpicPhaseComplete ::
  "(epic_record \<Rightarrow> bool) \<Rightarrow> (nat \<Rightarrow> update_attempt) \<Rightarrow> epic_record option \<Rightarrow> (int \<Rightarrow> bool) \<Rightarrow> int list option \<Rightarrow> int \<Rightarrow>
   update_error + phase_complete_outcome" where
  "markEpicPhaseComplete tooLarge store openEpic isClosed phases phase =
     (case openEpic of
        None \<Rightarrow> Inr Phase_No_Open_Epic
      | Some epic \<Rightarrow>
          if recorded_complete epic phase then Inr (Phase_Already_Complete epic)
          else
            let current = (case phases of None \<Rightarrow> None | Some ps \<Rightarrow> epicCurrentPhase epic isClosed ps)
            in if current \<noteq> Some phase then Inr (Not_Current_Phase current)
               else case updateEpicRecord tooLarge store (complete_phase phase) (Some (ep_token epic)) of
                      Inl e \<Rightarrow> Inl e
                    | Inr None \<Rightarrow> Inr Phase_No_Open_Epic
                    | Inr (Some (row, updated)) \<Rightarrow>
                        Inr (if recorded_complete row phase then Phase_Already_Complete updated else Phase_Recorded updated))"

definition record_review_run :: "int \<Rightarrow> string \<Rightarrow> epic_record \<Rightarrow> epic_record" where
  "record_review_run phase verdict record =
     (let prior = js_get (ep_phases record) phase;
          verdicts = (case prior of None \<Rightarrow> [] | Some p \<Rightarrow> phr_verdicts p) @ [verdict]
      in record\<lparr>ep_phases := js_set phase
           \<lparr>phr_status = (case prior of None \<Rightarrow> Phase_Review | Some p \<Rightarrow> phr_status p),
            phr_completeAtStart = False,
            phr_reviewRuns = (case prior of None \<Rightarrow> 0 | Some p \<Rightarrow> phr_reviewRuns p) + 1,
            phr_verdicts = drop (length verdicts - EPIC_PHASE_VERDICTS_KEEP) verdicts\<rparr> (ep_phases record)\<rparr>)"

section \<open>Waves\<close>

definition find_wave :: "int \<Rightarrow> epic_record \<Rightarrow> epic_wave option" where
  "find_wave s record = List.find (\<lambda>w. ew_seq w = s) (ep_waves record)"

definition map_wave :: "int \<Rightarrow> (epic_wave \<Rightarrow> epic_wave) \<Rightarrow> epic_wave list \<Rightarrow> epic_wave list" where
  "map_wave s f waves = map (\<lambda>w. if ew_seq w = s then f w else w) waves"

definition next_seq :: "epic_record \<Rightarrow> int" where
  "next_seq record = fold (\<lambda>w m. max m (ew_seq w)) (ep_waves record) 0 + 1"

record wave_draft =
  wd_phase :: int
  wd_kind :: wave_kind
  wd_taskIds :: "string list"
  wd_files :: "(string, string list) js_map"
  wd_cochange :: "wave_cochange option"
  wd_components :: wave_components
  wd_baseHead :: "string option"
  wd_issuedAt :: string

definition draft_wave :: "int \<Rightarrow> wave_draft \<Rightarrow> epic_wave" where
  "draft_wave s d =
     \<lparr>ew_seq = s, ew_phase = wd_phase d, ew_kind = wd_kind d, ew_taskIds = wd_taskIds d, ew_files = wd_files d,
      ew_cochange = wd_cochange d, ew_components = Some (wd_components d), ew_baseHead = wd_baseHead d,
      ew_issuedAt = wd_issuedAt d, ew_closedAt = None, ew_closeHead = None, ew_status = Issued,
      ew_aborted = None, ew_mergeFailures = None, ew_undeclared = None\<rparr>"

text \<open>The mutation that issues a wave: refused (record unchanged) while one is active.\<close>

definition issue_wave :: "wave_draft \<Rightarrow> epic_record \<Rightarrow> epic_record" where
  "issue_wave d record =
     (if ep_activeWaveSeq record \<noteq> None then record
      else
        let s = next_seq record
        in record\<lparr>ep_waves := ep_waves record @ [draft_wave s d], ep_activeWaveSeq := Some s,
                  ep_phases := syncPhaseRecords (ep_phases record) (wd_phase d) Phase_Active\<rparr>)"

definition clear_dangling :: "int \<Rightarrow> epic_record \<Rightarrow> epic_record" where
  "clear_dangling s record = (if ep_activeWaveSeq record = Some s then record\<lparr>ep_activeWaveSeq := None\<rparr> else record)"

definition abort_wave :: "int \<Rightarrow> (string \<times> int) list \<Rightarrow> epic_record \<Rightarrow> epic_record" where
  "abort_wave s moved record =
     (if ep_activeWaveSeq record = Some s
      then record\<lparr>ep_activeWaveSeq := None,
                  ep_waves := map_wave s (\<lambda>w. w\<lparr>ew_status := Aborted, ew_aborted := Some moved\<rparr>) (ep_waves record)\<rparr>
      else record)"

record merge_failure =
  mf_taskId :: string
  mf_outcome :: string
  mf_stage :: string
  mf_message :: string
  mf_at :: "int option"

definition add_snapshot ::
  "merge_failure \<Rightarrow> (string, merge_snapshot) js_map \<times> bool \<Rightarrow> (string, merge_snapshot) js_map \<times> bool" where
  "add_snapshot f = (\<lambda>(merged, changed).
     let new = \<lparr>ms_outcome = mf_outcome f, ms_stage = mf_stage f, ms_message = take 500 (mf_message f), ms_at = mf_at f\<rparr>
     in case js_get merged (mf_taskId f) of
          Some prior \<Rightarrow>
            if ms_outcome prior = mf_outcome f \<and> ms_stage prior = mf_stage f \<and> ms_at prior = mf_at f
            then (merged, changed) else (js_set (mf_taskId f) new merged, True)
        | None \<Rightarrow> (js_set (mf_taskId f) new merged, True))"

definition record_merge_failures :: "int \<Rightarrow> merge_failure list \<Rightarrow> epic_record \<Rightarrow> epic_record" where
  "record_merge_failures s failures record =
     (case find_wave s record of
        None \<Rightarrow> record
      | Some wave \<Rightarrow>
          let (merged, changed) = fold add_snapshot failures
                (case ew_mergeFailures wave of None \<Rightarrow> [] | Some m \<Rightarrow> m, False)
          in if \<not> changed then record
             else record\<lparr>ep_waves := map_wave s (\<lambda>w. w\<lparr>ew_mergeFailures := Some merged\<rparr>) (ep_waves record)\<rparr>)"

record close_computation =
  cc_closeHead :: "string option"
  cc_outcomes :: "epic_outcome list"
  cc_waveUndeclared :: "string list"

definition remember_previous :: "(string, epic_outcome) js_map \<Rightarrow> epic_outcome \<Rightarrow> epic_outcome" where
  "remember_previous tasks outcome =
     (case js_get tasks (o_taskId outcome) of
        Some before \<Rightarrow>
          if eo_waveSeq before \<noteq> eo_waveSeq outcome
          then outcome\<lparr>o_previous := Some
                 \<lparr>pr_waveSeq = eo_waveSeq before, pr_generation = o_generation before,
                  pr_stageBFailures = o_stageBFailures before, pr_reopened = o_reopened before\<rparr>\<rparr>
          else outcome
      | None \<Rightarrow> outcome)"

definition applyWaveClose :: "int \<Rightarrow> close_computation \<Rightarrow> string \<Rightarrow> epic_record \<Rightarrow> epic_record" where
  "applyWaveClose s computation nowIso record =
     (case find_wave s record of
        None \<Rightarrow> record
      | Some wave \<Rightarrow>
          if ew_status wave \<noteq> Issued \<or> ep_activeWaveSeq record \<noteq> Some s then record
          else
            record\<lparr>ep_activeWaveSeq := None,
                   ep_tasks := fold (\<lambda>outcome. js_set (o_taskId outcome) (remember_previous (ep_tasks record) outcome))
                                 (cc_outcomes computation) (ep_tasks record),
                   ep_waves := map_wave s (\<lambda>w. w\<lparr>ew_status := Wave_Closed, ew_closedAt := Some nowIso,
                       ew_closeHead := cc_closeHead computation, ew_undeclared := Some (cc_waveUndeclared computation)\<rparr>)
                     (ep_waves record)\<rparr>)"

section \<open>Closing the epic\<close>

definition resumeClosing :: "epic_record \<Rightarrow> closing_info \<Rightarrow> close_outcome \<Rightarrow> land_mode option \<Rightarrow> epic_record" where
  "resumeClosing record closing outcome land =
     (let nextOutcome = (if ci_outcome closing = Close_Completed \<and> outcome \<noteq> Close_Completed then outcome
                         else ci_outcome closing)
      in if ci_land closing = land \<and> ci_outcome closing = nextOutcome then record
         else record\<lparr>ep_closing := Some (closing\<lparr>ci_land := land, ci_outcome := nextOutcome\<rparr>)\<rparr>)"

definition mark_closing :: "string \<Rightarrow> close_outcome \<Rightarrow> land_mode option \<Rightarrow> epic_record \<Rightarrow> epic_record" where
  "mark_closing nowIso outcome land record =
     (let fresh = record\<lparr>ep_status := Epic_Closing, ep_closing := Some
            \<lparr>ci_requestedAt = nowIso, ci_outcome = outcome, ci_land = land, ci_lastLandingAttempt = None\<rparr>\<rparr>
      in case ep_closing record of
           Some closing \<Rightarrow> if ep_status record = Epic_Closing then resumeClosing record closing outcome land else fresh
         | None \<Rightarrow> fresh)"

definition set_branch :: "string \<Rightarrow> epic_record \<Rightarrow> epic_record" where
  "set_branch branch record = record\<lparr>ep_epicBranch := Some branch\<rparr>"

definition set_landing_attempt :: "landing_attempt \<Rightarrow> epic_record \<Rightarrow> epic_record" where
  "set_landing_attempt attempt record =
     (case ep_closing record of
        Some closing \<Rightarrow> record\<lparr>ep_closing := Some (closing\<lparr>ci_lastLandingAttempt := Some attempt\<rparr>)\<rparr>
      | None \<Rightarrow> record)"

text \<open>\<open>/swarm epic status --repair-refs\<close>; \<open>ref\<close> is the name of a task's ref.\<close>

definition repair_markers :: "(string \<Rightarrow> string) \<Rightarrow> (string \<times> string) list \<Rightarrow> epic_record \<Rightarrow> epic_record" where
  "repair_markers ref repairs record =
     record\<lparr>ep_tasks := fold (\<lambda>(taskId, sha) tasks.
         case js_get tasks taskId of
           None \<Rightarrow> tasks
         | Some outcome \<Rightarrow> js_set taskId (outcome\<lparr>eo_marker := Some
              \<lparr>tm_ref = Some (ref taskId), tm_sha = Some sha, tm_provenance = Repaired\<rparr>\<rparr>) tasks)
       repairs (ep_tasks record)\<rparr>"

section \<open>Which epic is open\<close>

datatype orphan_reason = Plan_Missing | Plan_Renamed_Or_Replaced | Plan_Ledger_Replaced

definition evaluateEpicIdentity :: "epic_record \<Rightarrow> string option \<Rightarrow> string option \<Rightarrow> orphan_reason option" where
  "evaluateEpicIdentity record currentHash ledgerRootDigest =
     (case currentHash of
        None \<Rightarrow> Some Plan_Missing
      | Some h \<Rightarrow>
          if h \<noteq> ep_planIdentityHash record then Some Plan_Renamed_Or_Replaced
          else if ledgerRootDigest \<noteq> ep_ledgerRootDigest record then Some Plan_Ledger_Replaced
          else None)"

text \<open>What the probe reads: the sentinel, the database file, the rows (key and parsed payload,
  \<open>None\<close> where parsing throws; \<open>Inl\<close> where the listing throws), the configuration switch, the identity of the
  current plan and the digest of its ledger.\<close>

record epic_probe =
  pb_sentinel :: bool
  pb_db :: bool
  pb_rows :: "unit + (string \<times> epic_record option) list"
  pb_configEnabled :: bool
  pb_planIdentity :: "string option"
  pb_ledgerDigest :: "string option"

definition getOpenEpic :: "epic_probe \<Rightarrow> unit + epic_record option" where
  "getOpenEpic probe =
     (if \<not> pb_sentinel probe then Inr None
      else if \<not> pb_db probe then Inr None
      else case pb_rows probe of
             Inl _ \<Rightarrow> Inl ()
           | Inr [] \<Rightarrow> Inr None
           | Inr [(key, parsed)] \<Rightarrow>
               (case parsed of
                  None \<Rightarrow> Inl ()
                | Some record \<Rightarrow>
                    if ep_epicKey record \<noteq> key then Inl ()
                    else if ep_status record \<noteq> Epic_Open then Inr None
                    else if \<not> pb_configEnabled probe then Inr None
                    else if evaluateEpicIdentity record (pb_planIdentity probe) (pb_ledgerDigest probe) = None
                    then Inr (Some record) else Inr None)
           | Inr (_ # _ # _) \<Rightarrow> Inl ())"

definition openEpicWavesForPhase :: "epic_record \<Rightarrow> int \<Rightarrow> int list" where
  "openEpicWavesForPhase record phase =
     map ew_seq (filter (\<lambda>wave. ew_phase wave = phase \<and> ew_status wave = Issued) (ep_waves record))"

end
