(* ===== verification/Commit_Markers.thy ===== *)
theory Commit_Markers
  imports Epic_Record
begin

text \<open>
  Git as the epic's durable memory: the commit messages that name a task and its plan
  (\<^verbatim>\<open>src/epic/plan-key.ts\<close>), the refs that mirror the record's commits and their repair
  (\<^verbatim>\<open>src/epic/markers.ts\<close>), and the ref guard of \<^verbatim>\<open>src/git/safe-ref.ts\<close>.

  Git itself is a parameter: \<open>git_env\<close> holds the answers of the commands the code runs, as functions of
  the refs of the repository.  The SHA-256 of \<open>computePlanKey\<close> is not modelled: plan keys are inputs.
\<close>

section \<open>Commit identifiers and ref names\<close>

definition char_in :: "char \<Rightarrow> char \<Rightarrow> char \<Rightarrow> bool" where
  "char_in lo hi c = ((of_char lo :: nat) \<le> of_char c \<and> (of_char c :: nat) \<le> of_char hi)"

lemma char_in_int [code]: "char_in lo hi c = ((of_char lo :: int) \<le> of_char c \<and> (of_char c :: int) \<le> of_char hi)"
proof -
  have "(of_char a :: int) \<le> of_char b \<longleftrightarrow> (of_char a :: nat) \<le> of_char b" for a b
    using of_nat_le_iff [of "of_char a" "of_char b", where 'a = int] by (simp only: of_nat_of_char)
  then show ?thesis by (simp add: char_in_def)
qed

definition is_alnum :: "char \<Rightarrow> bool" where
  "is_alnum c = (char_in CHR ''0'' CHR ''9'' c \<or> char_in CHR ''A'' CHR ''Z'' c \<or> char_in CHR ''a'' CHR ''z'' c)"

definition is_hex :: "char \<Rightarrow> bool" where
  "is_hex c = (char_in CHR ''0'' CHR ''9'' c \<or> char_in CHR ''a'' CHR ''f'' c)"

definition isFullSha :: "string \<Rightarrow> bool" where
  "isFullSha v = (40 \<le> length v \<and> length v \<le> 64 \<and> list_all is_hex v)"

text \<open>\<open>SAFE_COMPONENT_RE\<close>: dot-separated non-empty words of \<open>[A-Za-z0-9_-]\<close>, the first starting
  with a letter or digit.\<close>

definition word_char :: "char \<Rightarrow> bool" where
  "word_char c = (is_alnum c \<or> c = CHR ''_'' \<or> c = CHR ''-'')"

definition safe_component :: "string \<Rightarrow> bool" where
  "safe_component s =
     (s \<noteq> [] \<and> is_alnum (hd s) \<and> list_all (\<lambda>w. w \<noteq> [] \<and> list_all word_char w) (split_on dot s))"

text \<open>\<open>Buffer.from(taskId, 'utf8').toString('hex')\<close>\<close>

definition utf8_bytes :: "char \<Rightarrow> nat list" where
  "utf8_bytes c =
     (let n = (of_char c :: nat) in if n < 128 then [n] else [192 + n div 64, 128 + n mod 64])"

definition hex_digit :: "nat \<Rightarrow> char" where
  "hex_digit n = (if n < 10 then char_of (48 + n) else char_of (87 + n))"

definition hex_byte :: "nat \<Rightarrow> string" where
  "hex_byte b = [hex_digit (b div 16), hex_digit (b mod 16)]"

definition taskRefComponent :: "string \<Rightarrow> string" where
  "taskRefComponent taskId =
     (if safe_component taskId \<and> \<not> ends_with taskId ''.lock'' then taskId
      else ''_x'' @ concat (map hex_byte (concat (map utf8_bytes taskId))))"

text \<open>\<open>value.split('..')\<close>\<close>

fun split_dots :: "string \<Rightarrow> string list" where
  "split_dots [] = [[]]"
| "split_dots [c] = [[c]]"
| "split_dots (c # d # s) =
     (if c = dot \<and> d = dot then [] # split_dots s
      else case split_dots (d # s) of [] \<Rightarrow> [[c]] | w # ws \<Rightarrow> (c # w) # ws)"

definition isSafeGitRefArg :: "string \<Rightarrow> bool" where
  "isSafeGitRefArg v = (v \<noteq> [] \<and> list_all (\<lambda>side. \<not> starts_with side ''-'') (split_dots v))"

definition EPIC_REFS_ROOT :: string where "EPIC_REFS_ROOT = ''refs/swarm/epics''"

text \<open>\<open>None\<close> where the guard throws.\<close>

definition assertSafeGitRefArg :: "string \<Rightarrow> string option" where
  "assertSafeGitRefArg v = (if isSafeGitRefArg v then Some v else None)"

definition epicRefPrefix :: "string \<Rightarrow> string option" where
  "epicRefPrefix epicKey = assertSafeGitRefArg (EPIC_REFS_ROOT @ ''/'' @ epicKey)"

definition epicBaseRef :: "string \<Rightarrow> string option" where
  "epicBaseRef epicKey = map_option (\<lambda>p. p @ ''/base'') (epicRefPrefix epicKey)"

definition epicWaveRef :: "string \<Rightarrow> int \<Rightarrow> string option" where
  "epicWaveRef epicKey s = map_option (\<lambda>p. p @ ''/waves/'' @ show_int s) (epicRefPrefix epicKey)"

definition epicTaskRef :: "string \<Rightarrow> string \<Rightarrow> string option" where
  "epicTaskRef epicKey taskId =
     (case epicRefPrefix epicKey of
        None \<Rightarrow> None
      | Some p \<Rightarrow> assertSafeGitRefArg (p @ ''/tasks/'' @ taskRefComponent taskId))"

section \<open>Commit messages\<close>

abbreviation newline :: char where "newline \<equiv> CHR 0x0A"
abbreviation carriage_return :: char where "carriage_return \<equiv> CHR 0x0D"
abbreviation record_sep :: char where "record_sep \<equiv> CHR 0x00"
abbreviation field_sep :: char where "field_sep \<equiv> CHR 0x1F"

definition subject_char :: "char \<Rightarrow> bool" where
  "subject_char c = (is_alnum c \<or> c = dot \<or> c = CHR ''_'' \<or> c = CHR ''-'')"

definition scrubTaskIdForGitSubject :: "string \<Rightarrow> string" where
  "scrubTaskIdForGitSubject taskId = map (\<lambda>c. if subject_char c then c else CHR ''_'') taskId"

text \<open>\<open>s.replace(/\s+/g, ' ')\<close>\<close>

fun collapse_spaces :: "string \<Rightarrow> string" where
  "collapse_spaces [] = []"
| "collapse_spaces (c # s) =
     (if is_space c
      then (case s of
              [] \<Rightarrow> '' ''
            | d # _ \<Rightarrow> if is_space d then collapse_spaces s else '' '' @ collapse_spaces s)
      else c # collapse_spaces s)"

definition formatSwarmPlanTrailer :: "string \<Rightarrow> string" where
  "formatSwarmPlanTrailer planKey = ''Swarm-Plan: '' @ planKey"

definition formatEpicTaskCommitMessage :: "string \<Rightarrow> string \<Rightarrow> string option \<Rightarrow> string" where
  "formatEpicTaskCommitMessage taskId planKey summary =
     (let safeId = scrubTaskIdForGitSubject taskId;
          body = js_trim (collapse_spaces (case summary of None \<Rightarrow> ''completed'' | Some s \<Rightarrow> s));
          truncated = (if length body > 60 then take 57 body @ ''...'' else body)
      in ''swarm(task '' @ safeId @ ''): '' @ (if truncated = [] then ''completed'' else truncated) @
         [newline, newline] @ formatSwarmPlanTrailer planKey)"

record task_marker_commit =
  tmc_sha :: string
  tmc_taskId :: string
  tmc_planKey :: "string option"

text \<open>\<open>/^swarm\(task ([^)]+)\):/\<close>: the group, if the subject matches.\<close>

definition match_subject :: "string \<Rightarrow> string option" where
  "match_subject subject =
     (if starts_with subject ''swarm(task ''
      then (let rest = drop 11 subject; i = takeWhile (\<lambda>c. c \<noteq> CHR '')'') rest
            in if i \<noteq> [] \<and> starts_with (drop (length i) rest) ''):'' then Some i else None)
      else None)"

text \<open>\<open>/^Swarm-Plan:[ \t]*(\S+)[ \t]*$/\<close>\<close>

definition is_blank :: "char \<Rightarrow> bool" where
  "is_blank c = (c = CHR '' '' \<or> c = CHR 0x09)"

definition match_trailer :: "string \<Rightarrow> string option" where
  "match_trailer line =
     (if starts_with line ''Swarm-Plan:''
      then (let rest = dropWhile is_blank (drop 11 line); key = takeWhile (\<lambda>c. \<not> is_space c) rest
            in if key \<noteq> [] \<and> list_all is_blank (drop (length key) rest) then Some key else None)
      else None)"

definition strip_cr :: "string \<Rightarrow> string" where
  "strip_cr line = (if ends_with line [carriage_return] then butlast line else line)"

definition parse_marker_record :: "string \<Rightarrow> task_marker_commit option" where
  "parse_marker_record record =
     (case index_of record [field_sep] of
        None \<Rightarrow> None
      | Some sep \<Rightarrow>
          let sha = js_trim (take sep record)
          in if \<not> isFullSha sha then None
             else
               let lines = map strip_cr (split_on newline (drop (sep + 1) record))
               in case match_subject (js_trim (hd lines)) of
                    None \<Rightarrow> None
                  | Some i \<Rightarrow> Some \<lparr>tmc_sha = sha, tmc_taskId = i,
                      tmc_planKey = fold (\<lambda>line planKey. case match_trailer line of None \<Rightarrow> planKey | Some k \<Rightarrow> Some k)
                        (tl lines) None\<rparr>)"

definition parseTaskMarkerLog :: "string \<Rightarrow> task_marker_commit list" where
  "parseTaskMarkerLog output = List.map_filter parse_marker_record (split_on record_sep output)"

text \<open>\<open>git log\<close>'s output is an argument; the first commit of a task in it is the newest.\<close>

definition findTaskCommits :: "string \<Rightarrow> string \<Rightarrow> string list \<Rightarrow> (string, string) js_map" where
  "findTaskCommits output planKey taskIds =
     (let wanted = fold (\<lambda>i. js_set (scrubTaskIdForGitSubject i) i) taskIds []
      in if wanted = [] then []
         else fold (\<lambda>marker found.
                if tmc_planKey marker \<noteq> Some planKey then found
                else case js_get wanted (tmc_taskId marker) of
                       None \<Rightarrow> found
                     | Some taskId \<Rightarrow> if js_has found taskId then found else js_set taskId (tmc_sha marker) found)
              (parseTaskMarkerLog output) [])"

definition epicCommitRange :: "epic_record \<Rightarrow> string" where
  "epicCommitRange record =
     (case ep_baseCommit record of
        Some base \<Rightarrow> if isFullSha base then base @ ''..HEAD'' else ''HEAD''
      | None \<Rightarrow> ''HEAD'')"

section \<open>The refs\<close>

type_synonym git_refs = "(string, string) js_map"

text \<open>
  The git commands the code runs on refs: \<open>ge_list\<close> is \<open>for-each-ref\<close>'s output for a prefix,
  \<open>ge_update refs ref sha expected\<close> one attempt of \<open>update-ref\<close> (success reported, and the refs
  afterwards; \<open>None\<close> stands for the empty expected value), \<open>ge_delete\<close> one attempt of \<open>update-ref -d\<close>,
  \<open>ge_reread\<close> the first line of \<open>for-each-ref --count=1\<close> and \<open>ge_ancestor\<close> whether \<open>merge-base --is-ancestor\<close>
  answers 0.  \<open>Inl ()\<close> is a command that failed.
\<close>

record git_env =
  ge_list :: "git_refs \<Rightarrow> string \<Rightarrow> unit + string"
  ge_update :: "git_refs \<Rightarrow> string \<Rightarrow> string \<Rightarrow> string option \<Rightarrow> bool \<times> git_refs"
  ge_delete :: "git_refs \<Rightarrow> string \<Rightarrow> string \<Rightarrow> bool \<times> git_refs"
  ge_reread :: "git_refs \<Rightarrow> string \<Rightarrow> unit + string"
  ge_ancestor :: "string \<Rightarrow> bool"

datatype ref_error = Unsafe_Ref | Not_A_Full_Commit | Git_Failed

datatype ref_write = Ref_Created | Ref_Unchanged | Ref_Updated

text \<open>\<open>output.split(/\r?\n/)\<close>: a carriage return is dropped only before a newline.\<close>

definition split_lines :: "string \<Rightarrow> string list" where
  "split_lines output = (let parts = split_on newline output in map strip_cr (butlast parts) @ [last parts])"

definition parse_ref_line :: "string \<Rightarrow> git_refs \<Rightarrow> git_refs" where
  "parse_ref_line line refs =
     (case index_of line '' '' of
        None \<Rightarrow> refs
      | Some space \<Rightarrow>
          if space \<le> 0 then refs
          else
            let sha = take space line; name = js_trim (drop (space + 1) line)
            in if isFullSha sha \<and> length name > 0 then js_set name sha refs else refs)"

definition parse_refs :: "string \<Rightarrow> git_refs" where
  "parse_refs output = fold parse_ref_line (split_lines output) []"

definition readEpicRefs :: "git_env \<Rightarrow> git_refs \<Rightarrow> string \<Rightarrow> ref_error + git_refs" where
  "readEpicRefs env refs epicKey =
     (case epicRefPrefix epicKey of
        None \<Rightarrow> Inl Unsafe_Ref
      | Some p \<Rightarrow> (case ge_list env refs p of Inl _ \<Rightarrow> Inl Git_Failed | Inr output \<Rightarrow> Inr (parse_refs output)))"

definition readOneRef :: "git_env \<Rightarrow> git_refs \<Rightarrow> string \<Rightarrow> ref_error + string option" where
  "readOneRef env refs ref =
     (case ge_reread env refs ref of
        Inl _ \<Rightarrow> Inl Git_Failed
      | Inr output \<Rightarrow> let sha = hd (split_lines (js_trim output)) in Inr (if isFullSha sha then Some sha else None))"

definition writeEpicRef ::
  "git_env \<Rightarrow> git_refs \<Rightarrow> string \<Rightarrow> string \<Rightarrow> string option \<Rightarrow> (ref_error + ref_write) \<times> git_refs" where
  "writeEpicRef env refs ref sha existing =
     (if \<not> isFullSha sha then (Inl Not_A_Full_Commit, refs)
      else if assertSafeGitRefArg ref = None then (Inl Unsafe_Ref, refs)
      else if existing = Some sha then (Inr Ref_Unchanged, refs)
      else
        let (ok, refs') = ge_update env refs ref sha existing;
            written = (if existing = None then Ref_Created else Ref_Updated)
        in if ok then (Inr written, refs')
           else case readOneRef env refs' ref of
                  Inl e \<Rightarrow> (Inl e, refs')
                | Inr found \<Rightarrow> if found = Some sha then (Inr written, refs') else (Inl Git_Failed, refs'))"

text \<open>The refs a record asks for, in the order the code writes them; \<open>None\<close> where a ref name is refused.\<close>

fun add_desired :: "string option \<times> string option \<Rightarrow> git_refs option \<Rightarrow> git_refs option" where
  "add_desired (ref, Some sha) (Some desired) =
     (if isFullSha sha then map_option (\<lambda>r. js_set r sha desired) ref else Some desired)"
| "add_desired (ref, None) desired = desired"
| "add_desired p None = None"

definition wave_refs :: "epic_record \<Rightarrow> (string option \<times> string option) list" where
  "wave_refs record =
     map (\<lambda>w. (epicWaveRef (ep_epicKey record) (ew_seq w), ew_closeHead w))
       (filter (\<lambda>w. ew_status w = Wave_Closed) (ep_waves record))"

definition marker_sha :: "epic_outcome \<Rightarrow> string option" where
  "marker_sha outcome = (case eo_marker outcome of None \<Rightarrow> None | Some m \<Rightarrow> tm_sha m)"

definition task_refs :: "epic_record \<Rightarrow> (string option \<times> string option) list" where
  "task_refs record =
     map (\<lambda>x. (epicTaskRef (ep_epicKey record) (o_taskId x), marker_sha x))
       (filter (\<lambda>x. o_resolution x = Res_Completed) (map snd (ep_tasks record)))"

definition desiredEpicRefs :: "epic_record \<Rightarrow> git_refs option" where
  "desiredEpicRefs record =
     (if \<not> ep_isRepo record then Some []
      else fold add_desired
        ((epicBaseRef (ep_epicKey record), ep_baseCommit record) # wave_refs record @ task_refs record) (Some []))"

text \<open>The loop of \<open>syncEpicRefs\<close>: what was read, updated as the refs are written.\<close>

fun sync_loop :: "git_env \<Rightarrow> git_refs \<Rightarrow> git_refs \<Rightarrow> git_refs \<Rightarrow> (ref_error + git_refs) \<times> git_refs" where
  "sync_loop env [] existing refs = (Inr existing, refs)"
| "sync_loop env ((ref, sha) # desired) existing refs =
     (case writeEpicRef env refs ref sha (js_get existing ref) of
        (Inl e, refs') \<Rightarrow> (Inl e, refs')
      | (Inr _, refs') \<Rightarrow> sync_loop env desired (js_set ref sha existing) refs')"

definition syncEpicRefs :: "git_env \<Rightarrow> git_refs \<Rightarrow> epic_record \<Rightarrow> (ref_error + git_refs) \<times> git_refs" where
  "syncEpicRefs env refs record =
     (case readEpicRefs env refs (ep_epicKey record) of
        Inl e \<Rightarrow> (Inl e, refs)
      | Inr existing \<Rightarrow>
          (case desiredEpicRefs record of
             None \<Rightarrow> (Inl Unsafe_Ref, refs)
           | Some desired \<Rightarrow> sync_loop env desired existing refs))"

definition isCommitAncestorOfHead :: "git_env \<Rightarrow> string \<Rightarrow> bool" where
  "isCommitAncestorOfHead env sha = (if \<not> isFullSha sha then False else ge_ancestor env sha)"

fun delete_loop :: "git_env \<Rightarrow> git_refs \<Rightarrow> git_refs \<Rightarrow> string list \<times> string list \<Rightarrow> (string list \<times> string list) \<times> git_refs" where
  "delete_loop env [] refs acc = (acc, refs)"
| "delete_loop env ((ref, sha) # listed) refs (deleted, failed) =
     (case ge_delete env refs ref sha of
        (True, refs') \<Rightarrow> delete_loop env listed refs' (deleted @ [ref], failed)
      | (False, refs') \<Rightarrow> delete_loop env listed refs' (deleted, failed @ [ref]))"

text \<open>When the refs cannot be read, the code reports one failed entry for all of them.\<close>

definition deleteEpicRefs :: "git_env \<Rightarrow> git_refs \<Rightarrow> string \<Rightarrow> (ref_error + string list \<times> string list) \<times> git_refs" where
  "deleteEpicRefs env refs epicKey =
     (case readEpicRefs env refs epicKey of
        Inl e \<Rightarrow> (Inl e, refs)
      | Inr listed \<Rightarrow> let (acc, refs') = delete_loop env listed refs ([], []) in (Inr acc, refs'))"

section \<open>Repair\<close>

datatype repair_status = Repair_Ok | Repair_Repaired | Repair_Needs_Attention

record ref_repair =
  rr_taskId :: string
  rr_status :: repair_status
  rr_sha :: "string option"

record repair_plan =
  rp_repairs :: "ref_repair list"
  rp_recorded :: "(string, string) js_map"
  rp_unrecorded :: "(string, string) js_map"

definition reachable_sha :: "git_env \<Rightarrow> string option \<Rightarrow> bool" where
  "reachable_sha env sha = (case sha of None \<Rightarrow> False | Some s \<Rightarrow> isFullSha s \<and> isCommitAncestorOfHead env s)"

definition repair_ok :: "string \<Rightarrow> string option \<Rightarrow> ref_repair" where
  "repair_ok i sha = \<lparr>rr_taskId = i, rr_status = Repair_Ok, rr_sha = sha\<rparr>"

definition needs_attention :: "string \<Rightarrow> ref_repair" where
  "needs_attention i = \<lparr>rr_taskId = i, rr_status = Repair_Needs_Attention, rr_sha = None\<rparr>"

text \<open>\<open>touching\<close> is the trimmed output of \<open>git log --max-count=1 --format=%H\<close> over literal pathspecs.\<close>

definition broken_commit ::
  "(string list \<Rightarrow> string) \<Rightarrow> (string, string) js_map \<Rightarrow> epic_record \<Rightarrow> string \<Rightarrow> string option" where
  "broken_commit touching markers record i =
     (let declared = filter (\<lambda>file. length file > 0 \<and> \<not> starts_with file '':'')
            (case js_get (ep_tasks record) i of None \<Rightarrow> [] | Some x \<Rightarrow> o_declared x)
      in case js_get markers i of
           Some sha \<Rightarrow> Some sha
         | None \<Rightarrow>
             if length declared > 0 \<and> isFullSha (touching (take 200 declared))
             then Some (touching (take 200 declared)) else None)"

definition adopt ::
  "(string \<Rightarrow> string option) \<Rightarrow> string \<Rightarrow> ref_repair list \<times> (string, string) js_map \<Rightarrow>
   ref_repair list \<times> (string, string) js_map" where
  "adopt commit i = (\<lambda>(repairs, adopted). case commit i of
       None \<Rightarrow> (repairs @ [needs_attention i], adopted)
     | Some sha \<Rightarrow> (repairs @ [\<lparr>rr_taskId = i, rr_status = Repair_Repaired, rr_sha = Some sha\<rparr>], js_set i sha adopted))"

text \<open>\<open>gitLog\<close> answers \<open>git log\<close> for a commit range; \<open>refs\<close> is what \<open>readEpicRefs\<close> returned.\<close>

definition planEpicTaskRefRepair ::
  "git_env \<Rightarrow> (string \<Rightarrow> string) \<Rightarrow> (string list \<Rightarrow> string) \<Rightarrow> git_refs \<Rightarrow> epic_record \<Rightarrow> string list \<Rightarrow> repair_plan option" where
  "planEpicTaskRefRepair env gitLog touching refs record unrecorded =
     (if list_ex (\<lambda>i. \<not> js_has (ep_tasks record) i \<and> epicTaskRef (ep_epicKey record) i = None) unrecorded then None
      else
        let completed = filter (\<lambda>x. o_resolution x = Res_Completed) (map snd (ep_tasks record));
            ok = filter (\<lambda>x. reachable_sha env (marker_sha x)) completed;
            broken = map o_taskId (filter (\<lambda>x. \<not> reachable_sha env (marker_sha x)) completed);
            extra = filter (\<lambda>i. \<not> js_has (ep_tasks record) i) unrecorded;
            ref_sha = (\<lambda>i. js_get refs (the (epicTaskRef (ep_epicKey record) i)));
            extra_ok = filter (\<lambda>i. reachable_sha env (ref_sha i)) extra;
            extra_broken = filter (\<lambda>i. \<not> reachable_sha env (ref_sha i)) extra;
            repairs = map (\<lambda>x. repair_ok (o_taskId x) (marker_sha x)) ok @ map (\<lambda>i. repair_ok i (ref_sha i)) extra_ok
        in if broken = [] \<and> extra_broken = []
           then Some \<lparr>rp_repairs = repairs, rp_recorded = [], rp_unrecorded = []\<rparr>
           else
             let markers = findTaskCommits (gitLog (epicCommitRange record)) (ep_planKey record) (broken @ extra_broken);
                 (repairs1, recorded) = fold (adopt (broken_commit touching markers record)) broken (repairs, []);
                 (repairs2, adopted) = fold (adopt (js_get markers)) extra_broken (repairs1, [])
             in Some \<lparr>rp_repairs = repairs2, rp_recorded = recorded, rp_unrecorded = adopted\<rparr>)"

end
