(* ===== verification/Wave_Close.thy ===== *)
theory Wave_Close
  imports Commit_Markers
begin

text \<open>
  Closing a wave: what \<open>computeWaveClose\<close> of \<^verbatim>\<open>src/epic/wave-close.ts\<close> records, the canonical form of
  attributed paths (\<^verbatim>\<open>src/utils/path.ts\<close>), and the merge failures that keep a wave open
  (\<^verbatim>\<open>src/epic/merge-epoch.ts\<close>).

  Reads are inputs: git's output, the plan ledger, the workflow evidence, the sessions.  \<open>Inl ()\<close> is a
  read that throws.  \<open>Date.parse\<close> is the function \<open>parse\<close>, with \<open>None\<close> for an invalid date.
\<close>

section \<open>Changed files\<close>

definition MAX_FALLBACK_FILES :: nat where "MAX_FALLBACK_FILES = 2000"

definition is_sha :: "string \<Rightarrow> bool" where
  "is_sha s = (7 \<le> length s \<and> length s \<le> 64 \<and> list_all is_hex s)"

definition readHead :: "unit + string \<Rightarrow> string option" where
  "readHead output =
     (case output of Inl _ \<Rightarrow> None | Inr s \<Rightarrow> let head = js_trim s in if is_sha head then Some head else None)"

definition isSwarmPath :: "string \<Rightarrow> bool" where
  "isSwarmPath file = (file = ''.swarm'' \<or> starts_with file ''.swarm/'')"

text \<open>The records of \<open>git status --porcelain=v1 -z\<close>; a rename or copy is followed by its origin.\<close>

fun status_files :: "string list \<Rightarrow> string list" where
  "status_files [] = []"
| "status_files (rec # rest) =
     (if length rec < 4 then status_files rest
      else
        let code = take 2 rec; rest' = (if CHR ''R'' \<in> set code \<or> CHR ''C'' \<in> set code then drop 1 rest else rest)
        in forward_slashes (drop 3 rec) # status_files rest')"

definition changedFilesSinceBase ::
  "string option \<Rightarrow> (string \<Rightarrow> unit + string) \<Rightarrow> unit + string \<Rightarrow> string list option" where
  "changedFilesSinceBase baseHead diff status =
     (case baseHead of
        None \<Rightarrow> None
      | Some base \<Rightarrow>
          if \<not> is_sha base then None
          else case diff base of
                 Inl _ \<Rightarrow> None
               | Inr committed \<Rightarrow>
                   (case status of
                      Inl _ \<Rightarrow> None
                    | Inr output \<Rightarrow>
                        let files = js_uniq (map forward_slashes (filter (\<lambda>file. length file > 0) (split_on record_sep committed)) @
                                             status_files (split_on record_sep output))
                        in Some (take MAX_FALLBACK_FILES
                             (js_sort code_unit_compare (filter (\<lambda>file. \<not> isSwarmPath file) files)))))"

section \<open>Attribution\<close>

definition control_char :: "char \<Rightarrow> bool" where
  "control_char c = ((of_char c :: nat) \<le> 31 \<or> (of_char c :: nat) = 127)"

definition drive_relative :: "runtime \<Rightarrow> string \<Rightarrow> bool" where
  "drive_relative rt s =
     (is_win32 rt \<and> length s \<ge> 3 \<and> (char_in CHR ''A'' CHR ''Z'' (s ! 0) \<or> char_in CHR ''a'' CHR ''z'' (s ! 0)) \<and>
      s ! 1 = CHR '':'' \<and> s ! 2 \<noteq> slash \<and> s ! 2 \<noteq> backslash)"

text \<open>\<open>resolve_at\<close> is \<open>path.resolve\<close> with a base directory.\<close>

definition canonicalAttributionPath ::
  "runtime \<Rightarrow> (string \<Rightarrow> string \<Rightarrow> string) \<Rightarrow> string \<Rightarrow> string option \<Rightarrow> string option" where
  "canonicalAttributionPath rt resolve_at raw workspace =
     (let cleaned = js_trim raw
      in if cleaned = [] \<or> length cleaned > 4096 \<or> list_ex control_char cleaned \<or> drive_relative rt cleaned then None
         else
           let base = (case workspace of None \<Rightarrow> None
                       | Some w \<Rightarrow> if js_trim w = [] then None else Some (path_resolve rt (js_trim w)));
               relative =
                 (if path_is_absolute rt cleaned
                  then map_option (\<lambda>b. path_relative rt b (path_resolve rt cleaned)) base
                  else case base of
                         Some b \<Rightarrow> Some (path_relative rt b (resolve_at b cleaned))
                       | None \<Rightarrow>
                           if ''..'' \<in> set (split_on slash (forward_slashes cleaned)) then None
                           else Some (forward_slashes cleaned))
           in case relative of
                None \<Rightarrow> None
              | Some r \<Rightarrow>
                  if r = [] \<or> starts_with r ''..'' \<or> path_is_absolute rt r then None
                  else let normalized = normalizePath rt r
                       in if normalized = [] \<or> normalized = ''.'' then None else Some normalized)"

text \<open>A session: the project it belongs to, and the files written for a task (\<open>Inl ()\<close> when the session is malformed).
  \<open>sess_isMap\<close> is \<open>modifiedFilesByTask instanceof Map\<close>.\<close>

record session =
  sess_owner :: "string option"
  sess_isMap :: bool
  sess_files :: "string \<Rightarrow> unit + string list"

definition session_files :: "string \<Rightarrow> session \<Rightarrow> string list" where
  "session_files taskId s = (case sess_files s taskId of Inl _ \<Rightarrow> [] | Inr files \<Rightarrow> files)"

definition collectTaskAttribution ::
  "runtime \<Rightarrow> (string \<Rightarrow> string \<Rightarrow> string) \<Rightarrow> string \<Rightarrow> (string, session) js_map \<Rightarrow> string option \<Rightarrow> unit + string \<Rightarrow>
   string \<Rightarrow> string list" where
  "collectTaskAttribution rt resolve_at directory sessions callerSessionID projectKey taskId =
     (let caller = (case callerSessionID of None \<Rightarrow> None | Some i \<Rightarrow> js_get sessions i);
          own = (case caller of None \<Rightarrow> [] | Some s \<Rightarrow> session_files taskId s);
          others = (case projectKey of
              Inl _ \<Rightarrow> []
            | Inr key \<Rightarrow> concat (map (\<lambda>(i, s). session_files taskId s)
                (filter (\<lambda>(i, s). \<not> (caller \<noteq> None \<and> callerSessionID = Some i) \<and> sess_isMap s \<and> sess_owner s = Some key) sessions)))
      in js_sort code_unit_compare
           (js_uniq (List.map_filter (\<lambda>file. canonicalAttributionPath rt resolve_at file (Some directory)) (own @ others))))"

section \<open>Ledger and evidence\<close>

datatype ledger_event_type = Task_Removed | Task_Status_Changed | Other_Event

record ledger_event =
  le_taskId :: "string option"
  le_type :: ledger_event_type
  le_from :: "string option"
  le_to :: "string option"
  le_timestamp :: string

definition resolution_status :: "resolution \<Rightarrow> string" where
  "resolution_status r = (case r of Res_Completed \<Rightarrow> ''completed'' | Res_Closed \<Rightarrow> ''closed'' | Res_Removed \<Rightarrow> ''removed'')"

definition is_transition :: "resolution \<Rightarrow> ledger_event \<Rightarrow> bool" where
  "is_transition resolution event =
     ((resolution = Res_Removed \<and> le_type event = Task_Removed) \<or>
      (le_type event = Task_Status_Changed \<and> le_to event = Some (resolution_status resolution)))"

definition lastTransitionAt :: "ledger_event list \<Rightarrow> string \<Rightarrow> resolution \<Rightarrow> string option" where
  "lastTransitionAt events taskId resolution =
     fold (\<lambda>event found. if le_taskId event \<noteq> Some taskId then found
                     else if is_transition resolution event then Some (le_timestamp event) else found) events None"

definition countReopens :: "(string \<Rightarrow> int option) \<Rightarrow> ledger_event list \<Rightarrow> string \<Rightarrow> string \<Rightarrow> int" where
  "countReopens parse events taskId sinceIso =
     int (length (filter (\<lambda>event.
        le_taskId event = Some taskId \<and> le_type event = Task_Status_Changed \<and>
        le_from event = Some ''completed'' \<and> le_to event \<noteq> Some ''completed'' \<and>
        (case parse sinceIso of None \<Rightarrow> True
         | Some since \<Rightarrow> (case parse (le_timestamp event) of None \<Rightarrow> False | Some t \<Rightarrow> t \<ge> since))) events))"

text \<open>Workflow evidence: \<open>None\<close> for a generation that is not finite and a history that is not an array.\<close>

record workflow_evidence =
  we_generation :: "int option"
  we_retryHistory :: "string list option"

record workflow_counts =
  wfc_generation :: int
  wfc_stageA :: int
  wfc_stageB :: int

definition no_counts :: workflow_counts where
  "no_counts = \<lparr>wfc_generation = 0, wfc_stageA = 0, wfc_stageB = 0\<rparr>"

definition readWorkflowCounts :: "unit + workflow_evidence option \<Rightarrow> workflow_counts" where
  "readWorkflowCounts evidence =
     (case evidence of
        Inr (Some workflow) \<Rightarrow>
          let history = or_empty (we_retryHistory workflow)
          in \<lparr>wfc_generation = (case we_generation workflow of None \<Rightarrow> 0 | Some g \<Rightarrow> g),
              wfc_stageA = int (length (filter (\<lambda>x. x = ''stage_a_failed'') history)),
              wfc_stageB = int (length (filter (\<lambda>x. x = ''stage_b_failed'') history))\<rparr>
      | _ \<Rightarrow> no_counts)"

text \<open>\<open>Some None\<close> is the \<open>null\<close> of a task that is still open.\<close>

fun resolutionOf :: "plan_phase list \<Rightarrow> string \<Rightarrow> resolution option" where
  "resolutionOf [] taskId = Some Res_Removed"
| "resolutionOf (phase # phases) taskId =
     (case List.find (\<lambda>t. t_id t = taskId) (ph_tasks phase) of
        None \<Rightarrow> resolutionOf phases taskId
      | Some task \<Rightarrow>
          if t_status task = Completed then Some Res_Completed
          else if t_status task = Closed then Some Res_Closed else None)"

definition markerFor ::
  "epic_record \<Rightarrow> string \<Rightarrow> resolution \<Rightarrow> string option \<Rightarrow> (string, string) js_map \<Rightarrow> task_marker option" where
  "markerFor epic taskId resolution closeHead taskCommits =
     (if resolution \<noteq> Res_Completed then None
      else if \<not> ep_isRepo epic then Some \<lparr>tm_ref = None, tm_sha = None, tm_provenance = No_Git\<rparr>
      else
        let landed = js_get taskCommits taskId;
            sha = (case landed of Some s \<Rightarrow> Some s | None \<Rightarrow> closeHead)
        in Some \<lparr>tm_ref = (case sha of None \<Rightarrow> None
                           | Some s \<Rightarrow> if isFullSha s then epicTaskRef (ep_epicKey epic) taskId else None),
                 tm_sha = sha,
                 tm_provenance = (if landed \<noteq> None then Landing_Commit else Wave_Close_Head)\<rparr>)"

section \<open>The close\<close>

text \<open>What a close reads.\<close>

record close_reads =
  cr_head :: "unit + string"
  cr_events :: "unit + ledger_event list"
  cr_diff :: "string \<Rightarrow> unit + string"
  cr_status :: "unit + string"
  cr_log :: "string \<Rightarrow> unit + string"
  cr_evidence :: "string \<Rightarrow> unit + workflow_evidence option"
  cr_attribution :: "string \<Rightarrow> string list"

definition close_range :: "epic_record \<Rightarrow> epic_wave \<Rightarrow> string" where
  "close_range epic wave =
     (case ew_baseHead wave of
        Some base \<Rightarrow> if isFullSha base then base @ ''..HEAD'' else epicCommitRange epic
      | None \<Rightarrow> epicCommitRange epic)"

definition close_commits :: "close_reads \<Rightarrow> epic_record \<Rightarrow> epic_wave \<Rightarrow> string option \<Rightarrow> string list \<Rightarrow> (string, string) js_map" where
  "close_commits reads epic wave closeHead completedIds =
     (if ep_isRepo epic \<and> closeHead \<noteq> None \<and> length completedIds > 0
      then (case cr_log reads (close_range epic wave) of
              Inl _ \<Rightarrow> [] | Inr output \<Rightarrow> findTaskCommits output (ep_planKey epic) completedIds)
      else [])"

definition close_resolution :: "plan_phase list \<Rightarrow> string \<Rightarrow> resolution" where
  "close_resolution plan taskId = (case resolutionOf plan taskId of None \<Rightarrow> Res_Removed | Some r \<Rightarrow> r)"

text \<open>The files a completed task wrote, and how that is known.\<close>

definition actual_files ::
  "close_reads \<Rightarrow> bool \<Rightarrow> epic_wave \<Rightarrow> string list option \<Rightarrow> string \<Rightarrow> resolution \<Rightarrow> string list option \<times> outcome_attribution" where
  "actual_files reads isRepo wave changed taskId resolution =
     (let none = (if isRepo then Attr_Unavailable else Attr_No_Git)
      in if resolution \<noteq> Res_Completed then (None, none)
         else if length (cr_attribution reads taskId) > 0 then (Some (cr_attribution reads taskId), Attr_Session)
         else case changed of
                Some files \<Rightarrow> if length (ew_taskIds wave) = 1 then (Some files, Attr_Git_Single_Task) else (None, none)
              | None \<Rightarrow> (None, none))"

definition close_outcome_of ::
  "runtime \<Rightarrow> (string \<Rightarrow> int option) \<Rightarrow> close_reads \<Rightarrow> epic_record \<Rightarrow> epic_wave \<Rightarrow> plan_phase list \<Rightarrow> string \<Rightarrow>
   ledger_event list \<Rightarrow> string list option \<Rightarrow> string option \<Rightarrow> (string, string) js_map \<Rightarrow> string \<Rightarrow> epic_outcome" where
  "close_outcome_of rt parse reads epic wave plan nowIso events changed closeHead taskCommits taskId =
     (let resolution = close_resolution plan taskId;
          declared = js_get_or (ew_files wave) taskId [];
          counts = (if resolution = Res_Removed then no_counts else readWorkflowCounts (cr_evidence reads taskId));
          (actual, attribution) = actual_files reads (ep_isRepo epic) wave changed taskId resolution;
          snapshot = (case ew_mergeFailures wave of None \<Rightarrow> None | Some m \<Rightarrow> js_get m taskId)
      in \<lparr>o_taskId = taskId, o_resolution = resolution, o_generation = wfc_generation counts,
          o_stageBFailures = wfc_stageB counts, o_mergeFailure = (snapshot \<noteq> None), o_declared = declared,
          o_undeclared = (case actual of None \<Rightarrow> [] | Some files \<Rightarrow> undeclaredFiles rt declared files),
          o_reopened = countReopens parse events taskId (ep_startedAt epic), o_previous = None,
          eo_phase = ew_phase wave, eo_waveSeq = ew_seq wave,
          eo_resolvedAt = (case lastTransitionAt events taskId resolution of None \<Rightarrow> nowIso | Some t \<Rightarrow> t),
          eo_stageAFailures = wfc_stageA counts,
          eo_mergeFailure = map_option (\<lambda>s. (ms_outcome s, ms_stage s)) snapshot,
          eo_attribution = attribution, eo_marker = markerFor epic taskId resolution closeHead taskCommits\<rparr>)"

definition computeWaveClose ::
  "runtime \<Rightarrow> (string \<Rightarrow> int option) \<Rightarrow> close_reads \<Rightarrow> epic_record \<Rightarrow> epic_wave \<Rightarrow> plan_phase list \<Rightarrow> string \<Rightarrow> close_computation" where
  "computeWaveClose rt parse reads epic wave plan nowIso =
     (let isRepo = ep_isRepo epic;
          closeHead = (if isRepo then readHead (cr_head reads) else None);
          events = (case cr_events reads of Inl _ \<Rightarrow> [] | Inr es \<Rightarrow> es);
          changed = (if isRepo then changedFilesSinceBase (ew_baseHead wave) (cr_diff reads) (cr_status reads) else None);
          completedIds = filter (\<lambda>i. resolutionOf plan i = Some Res_Completed) (ew_taskIds wave);
          taskCommits = close_commits reads epic wave closeHead completedIds;
          outcomes = map (close_outcome_of rt parse reads epic wave plan nowIso events changed closeHead taskCommits) (ew_taskIds wave);
          attributedAll = concat (map (cr_attribution reads) (filter (\<lambda>i. close_resolution plan i = Res_Completed) (ew_taskIds wave)));
          waveUndeclared = (case changed of None \<Rightarrow> []
            | Some files \<Rightarrow> filter (\<lambda>file. file \<notin> set attributedAll)
                (undeclaredFiles rt (concat (map snd (ew_files wave))) files))
      in \<lparr>cc_closeHead = closeHead, cc_outcomes = outcomes, cc_waveUndeclared = waveUndeclared\<rparr>)"

section \<open>Merge failures\<close>

text \<open>\<open>None\<close> where a time is absent; times are finite.\<close>

record worktree_merge_failure =
  wmf_outcome :: string
  wmf_stage :: string
  wmf_message :: string
  wmf_completedAt :: "int option"
  wmf_queuedAt :: "int option"

datatype merge_failure_relevance = Failure_Current | Failure_Undated | Failure_Stale

definition failure_time :: "worktree_merge_failure \<Rightarrow> int option" where
  "failure_time f = (case wmf_completedAt f of Some t \<Rightarrow> Some t | None \<Rightarrow> wmf_queuedAt f)"

definition classifyMergeFailure :: "worktree_merge_failure \<Rightarrow> int \<Rightarrow> merge_failure_relevance" where
  "classifyMergeFailure failure sinceMs =
     (case failure_time failure of
        None \<Rightarrow> Failure_Undated
      | Some t \<Rightarrow> if t \<ge> sinceMs then Failure_Current else Failure_Stale)"

definition relevant :: "worktree_merge_failure option \<Rightarrow> int \<Rightarrow> worktree_merge_failure option" where
  "relevant failure sinceMs =
     (case failure of
        None \<Rightarrow> None
      | Some f \<Rightarrow> if classifyMergeFailure f sinceMs = Failure_Stale then None else Some f)"

text \<open>The shared registry: the status file it is bound to (\<open>Inl ()\<close> when unbound), its memory, and
  the scan of the project's own file (\<open>Inl ()\<close> when uncertain).\<close>

record merge_registry =
  mr_bound :: "unit + string"
  mr_live :: "string \<Rightarrow> worktree_merge_failure option"
  mr_scan :: "unit + (string \<times> worktree_merge_failure) list"

definition relevantMergeFailure :: "merge_registry \<Rightarrow> string \<Rightarrow> int \<Rightarrow> worktree_merge_failure option" where
  "relevantMergeFailure registry taskId sinceMs = relevant (mr_live registry taskId) sinceMs"

definition relevantMergeFailureForProject ::
  "runtime \<Rightarrow> merge_registry \<Rightarrow> string \<Rightarrow> string \<Rightarrow> int \<Rightarrow> worktree_merge_failure option" where
  "relevantMergeFailureForProject rt registry statusFile taskId sinceMs =
     (let ours = path_resolve rt statusFile;
          live = (case mr_bound registry of
              Inl _ \<Rightarrow> None
            | Inr bound \<Rightarrow> if path_resolve rt bound = ours then relevantMergeFailure registry taskId sinceMs else None)
      in case live of
           Some f \<Rightarrow> Some f
         | None \<Rightarrow>
             (case mr_scan registry of
                Inl _ \<Rightarrow> None
              | Inr failures \<Rightarrow> relevant (map_option snd (List.find (\<lambda>(i, _). i = taskId) failures)) sinceMs))"

text \<open>The seam before an automatic checkpoint; \<open>Inl ()\<close> is an unreadable lifecycle state.\<close>

definition epicMergeFailureSkipsCheckpoint ::
  "runtime \<Rightarrow> (string \<Rightarrow> int option) \<Rightarrow> merge_registry \<Rightarrow> string \<Rightarrow> bool \<Rightarrow> unit + epic_record option \<Rightarrow> string \<Rightarrow> bool" where
  "epicMergeFailureSkipsCheckpoint rt parse registry statusFile sentinel openEpic taskId =
     (if \<not> sentinel then False
      else case openEpic of
             Inr (Some epic) \<Rightarrow>
               relevantMergeFailureForProject rt registry statusFile taskId
                 (case parse (ep_startedAt epic) of None \<Rightarrow> 0 | Some t \<Rightarrow> t) \<noteq> None
           | _ \<Rightarrow> False)"

end
