(* ===== verification/Residue.thy ===== *)
theory Residue
  imports Wave_Close
begin

text \<open>
  \<^verbatim>\<open>src/epic/residue-commit.ts\<close>: which uncommitted paths of the main tree are committed as a
  task's residue, and the residue pass before a wave closes (\<open>commitWaveResidue\<close> of
  \<^verbatim>\<open>src/epic/next-wave.ts\<close>).  The commit itself (\<open>commitPaths\<close>: \<open>git add\<close>, \<open>git commit --only\<close>) is the
  function \<open>commit\<close> from the message, the paths and the paths to add to the new commit id, \<open>Inl ()\<close> when it throws.
\<close>

definition MAX_DIRTY_ENTRIES :: nat where "MAX_DIRTY_ENTRIES = 5000"

definition isSwarmStatePath :: "string \<Rightarrow> bool" where
  "isSwarmStatePath file =
     (let normalized = forward_slashes file
      in normalized = ''.swarm'' \<or> starts_with normalized ''.swarm/'' \<or> js_includes normalized ''/.swarm/'' \<or>
         ends_with normalized ''/.swarm'')"

definition caseKey :: "runtime \<Rightarrow> string \<Rightarrow> string" where
  "caseKey rt file = (if is_win32 rt then to_lower file else file)"

record dirty_entry =
  de_path :: string
  de_untracked :: bool
  de_needsAdd :: bool
  de_origin :: "string option"

text \<open>The loop of \<open>listDirtyEntries\<close> over the records; an empty origin is dropped (\<open>origin ? ... : {}\<close>).\<close>

fun dirty_records :: "string list \<Rightarrow> dirty_entry list \<Rightarrow> dirty_entry list" where
  "dirty_records [] entries = entries"
| "dirty_records (rec # rest) entries =
     (if length rec < 4 then dirty_records rest entries
      else
        let code = take 2 rec; file = forward_slashes (drop 3 rec);
            moved = (CHR ''R'' \<in> set code \<or> CHR ''C'' \<in> set code);
            origin = (if moved then (case rest of [] \<Rightarrow> [] | r # _ \<Rightarrow> forward_slashes r) else []);
            rest' = (if moved then drop 1 rest else rest)
        in if isSwarmStatePath file then dirty_records rest' entries
           else
             let entries' = entries @ [\<lparr>de_path = file, de_untracked = (code = ''??''), de_needsAdd = (code ! 1 \<noteq> CHR '' ''),
                                        de_origin = (if origin = [] then None else Some origin)\<rparr>]
             in if length entries' \<ge> MAX_DIRTY_ENTRIES then entries' else dirty_records rest' entries')"

definition listDirtyEntries :: "unit + string \<Rightarrow> unit + dirty_entry list" where
  "listDirtyEntries status =
     (case status of Inl e \<Rightarrow> Inl e | Inr output \<Rightarrow> Inr (dirty_records (split_on record_sep output) []))"

text \<open>\<open>s.replace(/\/+$/, '')\<close>\<close>

definition strip_slashes :: "string \<Rightarrow> string" where
  "strip_slashes s = rev (dropWhile (\<lambda>c. c = slash) (rev s))"

definition coveredBy :: "runtime \<Rightarrow> string \<Rightarrow> string list \<Rightarrow> bool" where
  "coveredBy rt file declared =
     (let key = caseKey rt file
      in list_ex (\<lambda>entry. let d = caseKey rt (strip_slashes (forward_slashes entry))
                          in length d > 0 \<and> (key = d \<or> starts_with key (d @ [slash]))) declared)"

datatype residue_commit =
    Residue_Nothing
  | Residue_Committed "string option" "string list"
  | Residue_Failed "string list"

definition wanted_paths :: "runtime \<Rightarrow> string list \<Rightarrow> string list" where
  "wanted_paths rt candidates =
     js_uniq (map (\<lambda>c. caseKey rt (forward_slashes c))
       (filter (\<lambda>c. length c > 0 \<and> \<not> starts_with c '':'' \<and> \<not> isSwarmStatePath c) candidates))"

definition literal_scopes :: "string list \<Rightarrow> string list" where
  "literal_scopes scopes = filter (\<lambda>entry. length entry > 0 \<and> \<not> starts_with entry '':'') scopes"

definition residue_entries :: "runtime \<Rightarrow> string list \<Rightarrow> string list \<Rightarrow> dirty_entry list \<Rightarrow> dirty_entry list" where
  "residue_entries rt candidates scopes dirty =
     filter (\<lambda>entry. caseKey rt (de_path entry) \<in> set (wanted_paths rt candidates) \<or>
                     (length (literal_scopes scopes) > 0 \<and> coveredBy rt (de_path entry) (literal_scopes scopes))) dirty"

definition add_residue_file :: "dirty_entry \<Rightarrow> string list \<Rightarrow> string list" where
  "add_residue_file entry files =
     (let files' = set_add (de_path entry) files
      in case de_origin entry of
           None \<Rightarrow> files'
         | Some origin \<Rightarrow> if isSwarmStatePath origin then files' else set_add origin files')"

definition residue_files :: "dirty_entry list \<Rightarrow> string list" where
  "residue_files entries = fold add_residue_file entries []"

definition commitTaskResidue ::
  "runtime \<Rightarrow> (string \<Rightarrow> string list \<Rightarrow> string list \<Rightarrow> unit + string option) \<Rightarrow> epic_record \<Rightarrow> string \<Rightarrow> string \<Rightarrow>
   string list \<Rightarrow> string list \<Rightarrow> dirty_entry list \<Rightarrow> residue_commit" where
  "commitTaskResidue rt commit epic taskId label candidates scopes dirty =
     (let entries = residue_entries rt candidates scopes dirty;
          files = residue_files entries;
          toAdd = js_uniq (map de_path (filter de_needsAdd entries))
      in if length files = 0 then Residue_Nothing
         else
           let paths = js_sort code_unit_compare files
           in case commit (formatEpicTaskCommitMessage taskId (ep_planKey epic) (Some label)) paths
                     (js_sort code_unit_compare toAdd) of
                Inl _ \<Rightarrow> Residue_Failed paths
              | Inr sha \<Rightarrow> Residue_Committed sha paths)"

record dirty_baseline =
  db_tracked :: "string list"
  db_untracked :: "string list"

definition classifyDirtyBaseline :: "dirty_entry list \<Rightarrow> dirty_baseline" where
  "classifyDirtyBaseline dirty =
     \<lparr>db_tracked = map de_path (filter (\<lambda>e. \<not> de_untracked e) dirty),
      db_untracked = map de_path (filter de_untracked dirty)\<rparr>"

text \<open>The scope of a task in the wave that is running.\<close>

definition declaredScopeOf :: "epic_record \<Rightarrow> string \<Rightarrow> string list" where
  "declaredScopeOf epic taskId =
     (case (case ep_activeWaveSeq epic of None \<Rightarrow> None
            | Some s \<Rightarrow> List.find (\<lambda>w. ew_seq w = s \<and> ew_status w = Issued) (ep_waves epic)) of
        None \<Rightarrow> []
      | Some wave \<Rightarrow> js_get_or (ew_files wave) taskId [])"

section \<open>Before a wave closes\<close>

text \<open>The first task of the plan with an id, with the phase that holds it.\<close>

fun findTask :: "plan_phase list \<Rightarrow> string \<Rightarrow> (plan_task \<times> int) option" where
  "findTask [] taskId = None"
| "findTask (phase # phases) taskId =
     (case List.find (\<lambda>t. t_id t = taskId) (ph_tasks phase) of
        Some task \<Rightarrow> Some (task, ph_id phase)
      | None \<Rightarrow> findTask phases taskId)"

definition task_completed :: "plan_phase list \<Rightarrow> string \<Rightarrow> bool" where
  "task_completed plan taskId = (case findTask plan taskId of None \<Rightarrow> False | Some (task, _) \<Rightarrow> t_status task = Completed)"

text \<open>The tasks committed so far with their paths, and whether git failed.\<close>

fun residue_pass ::
  "runtime \<Rightarrow> (string \<Rightarrow> string list \<Rightarrow> string list \<Rightarrow> unit + string option) \<Rightarrow> (string \<Rightarrow> string list) \<Rightarrow> epic_record \<Rightarrow>
   epic_wave \<Rightarrow> plan_phase list \<Rightarrow> string list \<Rightarrow> dirty_entry list \<Rightarrow> (string \<times> string list) list \<Rightarrow>
   (string \<times> string list) list \<times> bool" where
  "residue_pass rt commit attribution epic wave plan [] dirty acc = (acc, True)"
| "residue_pass rt commit attribution epic wave plan (taskId # ids) dirty acc =
     (if dirty = [] then (acc, True)
      else if \<not> task_completed plan taskId then residue_pass rt commit attribution epic wave plan ids dirty acc
      else case commitTaskResidue rt commit epic taskId ''residue'' (attribution taskId)
                  (js_get_or (ew_files wave) taskId []) dirty of
             Residue_Failed _ \<Rightarrow> (acc, False)
           | Residue_Nothing \<Rightarrow> residue_pass rt commit attribution epic wave plan ids dirty acc
           | Residue_Committed sha files \<Rightarrow>
               residue_pass rt commit attribution epic wave plan ids
                 (filter (\<lambda>e. de_path e \<notin> set files) dirty) (acc @ [(taskId, files)]))"

definition commitWaveResidue ::
  "runtime \<Rightarrow> (string \<Rightarrow> string list \<Rightarrow> string list \<Rightarrow> unit + string option) \<Rightarrow> (string \<Rightarrow> string list) \<Rightarrow> unit + string \<Rightarrow>
   epic_record \<Rightarrow> epic_wave \<Rightarrow> plan_phase list \<Rightarrow> (string \<times> string list) list \<times> bool" where
  "commitWaveResidue rt commit attribution status epic wave plan =
     (case listDirtyEntries status of
        Inl _ \<Rightarrow> ([], False)
      | Inr dirty \<Rightarrow> residue_pass rt commit attribution epic wave plan (ew_taskIds wave) dirty [])"

section \<open>What a residue commit may contain\<close>

text \<open>The paths a task may commit: its recorded writes, its declared files and directories, and the origins of
  renames among them.\<close>

definition residue_owned :: "runtime \<Rightarrow> string list \<Rightarrow> string list \<Rightarrow> string \<Rightarrow> bool" where
  "residue_owned rt candidates scopes file =
     ((\<exists>c \<in> set candidates. \<not> isSwarmStatePath c \<and> caseKey rt file = caseKey rt (forward_slashes c)) \<or> coveredBy rt file scopes)"

lemma set_residue_files:
  "set (residue_files entries) = de_path ` set entries \<union>
     {p. \<exists>e \<in> set entries. de_origin e = Some p \<and> \<not> isSwarmStatePath p}"
proof -
  have step: "set (add_residue_file e acc) = insert (de_path e) (set acc) \<union> {p. de_origin e = Some p \<and> \<not> isSwarmStatePath p}" for e acc
    by (auto simp: add_residue_file_def Let_def split: option.split)
  have "set (fold add_residue_file entries acc) =
      set acc \<union> de_path ` set entries \<union> {p. \<exists>e \<in> set entries. de_origin e = Some p \<and> \<not> isSwarmStatePath p}" for acc
    by (induction entries arbitrary: acc) (auto simp: step)
  then show ?thesis by (simp add: residue_files_def)
qed

lemma coveredBy_filter: "coveredBy rt file (literal_scopes scopes) \<Longrightarrow> coveredBy rt file scopes"
  by (auto simp: coveredBy_def literal_scopes_def Let_def list_ex_iff)

lemma residue_entries_owned: "e \<in> set (residue_entries rt candidates scopes dirty) \<Longrightarrow>
   e \<in> set dirty \<and> residue_owned rt candidates scopes (de_path e)"
  unfolding residue_entries_def residue_owned_def wanted_paths_def using coveredBy_filter by fastforce

lemma dirty_records_no_swarm:
  "(\<forall>e \<in> set acc. \<not> isSwarmStatePath (de_path e)) \<Longrightarrow> \<forall>e \<in> set (dirty_records rs acc). \<not> isSwarmStatePath (de_path e)"
proof (induction rs acc rule: dirty_records.induct)
  case (1 entries)
  then show ?case by simp
next
  case (2 rec rest entries)
  then show ?case by (simp add: Let_def)
qed

lemma listed_no_swarm: "listDirtyEntries status = Inr dirty \<Longrightarrow> e \<in> set dirty \<Longrightarrow> \<not> isSwarmStatePath (de_path e)"
  using dirty_records_no_swarm [of "[]"] by (auto simp: listDirtyEntries_def split: sum.splits)

definition pass_sound ::
  "runtime \<Rightarrow> (string \<Rightarrow> string list) \<Rightarrow> epic_wave \<Rightarrow> plan_phase list \<Rightarrow> dirty_entry list \<Rightarrow> (string \<times> string list) \<Rightarrow> bool" where
  "pass_sound rt attribution wave plan dirty = (\<lambda>(i, files).
     i \<in> set (ew_taskIds wave) \<and> task_completed plan i \<and>
     (\<forall>f \<in> set files. \<not> isSwarmStatePath f \<and>
        (\<exists>e \<in> set dirty. (f = de_path e \<or> de_origin e = Some f) \<and>
           residue_owned rt (attribution i) (js_get_or (ew_files wave) i []) (de_path e))))"

lemma commitTaskResidue_files:
  assumes "commitTaskResidue rt commit epic i label candidates scopes dirty = Residue_Committed sha files"
    and "\<forall>e \<in> set dirty. \<not> isSwarmStatePath (de_path e)"
  shows "\<forall>f \<in> set files. \<not> isSwarmStatePath f \<and>
    (\<exists>e \<in> set dirty. (f = de_path e \<or> de_origin e = Some f) \<and> residue_owned rt candidates scopes (de_path e))"
proof -
  have "set files = set (residue_files (residue_entries rt candidates scopes dirty))"
    using assms(1) by (auto simp: commitTaskResidue_def Let_def split: if_splits sum.splits)
  then show ?thesis using residue_entries_owned assms(2) unfolding set_residue_files by fastforce
qed

lemma residue_pass_sound:
  assumes "residue_pass rt commit attribution epic wave plan ids dirty acc = (done', ok)"
    and "set ids \<subseteq> set (ew_taskIds wave)" "set dirty \<subseteq> set dirty0" "\<forall>e \<in> set dirty0. \<not> isSwarmStatePath (de_path e)"
    and "\<forall>p \<in> set acc. pass_sound rt attribution wave plan dirty0 p"
  shows "\<forall>p \<in> set done'. pass_sound rt attribution wave plan dirty0 p"
  using assms
proof (induction ids arbitrary: dirty acc)
  case Nil
  then show ?case by simp
next
  case (Cons i ids)
  consider "dirty = []" | "dirty \<noteq> []" "\<not> task_completed plan i" | "dirty \<noteq> []" "task_completed plan i" by blast
  then show ?case
  proof cases
    case 1
    then show ?thesis using Cons.prems by simp
  next
    case 2
    then show ?thesis using Cons by simp
  next
    case 3
    let ?r = "commitTaskResidue rt commit epic i ''residue'' (attribution i) (js_get_or (ew_files wave) i []) dirty"
    show ?thesis
    proof (cases ?r)
      case Residue_Nothing
      then show ?thesis using Cons 3 by simp
    next
      case (Residue_Failed files)
      then show ?thesis using Cons.prems 3 by simp
    next
      case (Residue_Committed sha files)
      have "\<forall>e \<in> set dirty. \<not> isSwarmStatePath (de_path e)" using Cons.prems(3,4) by blast
      from commitTaskResidue_files [OF Residue_Committed this] have "pass_sound rt attribution wave plan dirty0 (i, files)"
        using Cons.prems(2,3) 3(2) unfolding pass_sound_def by auto blast
      then show ?thesis
        using Cons.IH [of "filter (\<lambda>e. de_path e \<notin> set files) dirty" "acc @ [(i, files)]"] Cons.prems 3 Residue_Committed
        by auto
    qed
  qed
qed

text \<open>The residue pass never sweeps up somebody else's work: everything it commits belongs to a completed task of the
  closing wave, and every committed path is a dirty path (or the origin of a renamed one) that the task wrote or that lies in
  its frozen scope; the program's own \<open>.swarm\<close> state is never committed.\<close>

theorem residue_commits_only_task_files:
  assumes "commitWaveResidue rt commit attribution (Inr status) epic wave plan = (committed, ok)"
    and "listDirtyEntries (Inr status) = Inr dirty" "(i, files) \<in> set committed" "f \<in> set files"
  shows "i \<in> set (ew_taskIds wave) \<and> task_completed plan i \<and> \<not> isSwarmStatePath f \<and>
    (\<exists>e \<in> set dirty. (f = de_path e \<or> de_origin e = Some f) \<and>
       ((\<exists>c \<in> set (attribution i). \<not> isSwarmStatePath c \<and> caseKey rt (de_path e) = caseKey rt (forward_slashes c)) \<or>
        coveredBy rt (de_path e) (js_get_or (ew_files wave) i [])))"
proof -
  have "residue_pass rt commit attribution epic wave plan (ew_taskIds wave) dirty [] = (committed, ok)"
    using assms(1,2) by (simp add: commitWaveResidue_def)
  then have "\<forall>p \<in> set committed. pass_sound rt attribution wave plan dirty p"
    by (rule residue_pass_sound) (use listed_no_swarm [OF assms(2)] in auto)
  then show ?thesis using assms(3,4) unfolding pass_sound_def residue_owned_def by fastforce
qed

end
