(* ===== verification/Parallel_Verdict.thy ===== *)
theory Parallel_Verdict
  imports Cochange Partition_Facts
begin

text \<open>
  \<^verbatim>\<open>src/plan/parallel-verdict.ts\<close>: the whole-plan parallel verdict the conflict tool and the
  delegation gate share.  The authoritative scope bindings and the plan they must match are read
  from disk; the argument \<open>bindings\<close> is what those readers return for a task (\<open>None\<close> when there
  is no single live binding, or no readable plan).  Evidence is a list of \<open>evidence_line\<close>s, the
  rendered text is not modelled.
\<close>

datatype pair_verdict_kind = Pair_Conflict | Pair_Disjoint | Pair_Unknown

datatype evidence_line =
    Path_Overlap_Line string string
  | Co_Change_Line string string rat int

record verdict_pair =
  vp_a :: string
  vp_b :: string
  vp_verdict :: pair_verdict_kind
  vp_evidence :: "evidence_line list"

datatype plan_verdict = All_Disjoint | Conflicts_Present | Unknown_Scopes

record parallel_verdict =
  v_verdict :: plan_verdict
  v_pairs :: "verdict_pair list"
  v_suggestedSerialOrder :: "string list"
  v_unknownScopeTasks :: "string list"

datatype verdict_error = Too_Many_Tasks

definition DEFAULT_PARALLEL_COCHANGE_THRESHOLD :: cochange_threshold where
  "DEFAULT_PARALLEL_COCHANGE_THRESHOLD = \<lparr>th_npmi = 1 / 5, th_minCoChanges = 3\<rparr>"

definition MAX_PARALLEL_VERDICT_TASKS :: nat where "MAX_PARALLEL_VERDICT_TASKS = 64"

record verdict_options =
  vo_useCochange :: bool
  vo_cochangePairs :: "cochange_entry list option"
  vo_cochangeThreshold :: "cochange_threshold option"
  vo_scopes :: "(string, string list) js_map option"

section \<open>Scopes\<close>

text \<open>\<open>{files, ok}\<close>: a scope is usable when it is found and not empty.\<close>

definition resolveScope :: "(string \<Rightarrow> string list option) \<Rightarrow> string \<Rightarrow> string list \<times> bool" where
  "resolveScope bindings taskId =
     (case bindings taskId of
        None \<Rightarrow> ([], False)
      | Some files \<Rightarrow> if length files = 0 then ([], False) else (files, True))"

definition resolveExplicitScope :: "(string, string list) js_map \<Rightarrow> string \<Rightarrow> string list \<times> bool" where
  "resolveExplicitScope scopes taskId =
     (case js_get scopes taskId of
        None \<Rightarrow> ([], False)
      | Some files \<Rightarrow> if length files = 0 then ([], False) else (files, True))"

definition resolve_verdict_scope ::
  "verdict_options \<Rightarrow> (string \<Rightarrow> string list option) \<Rightarrow> string \<Rightarrow> string list \<times> bool" where
  "resolve_verdict_scope opts bindings taskId =
     (case vo_scopes opts of
        Some scopes \<Rightarrow> resolveExplicitScope scopes taskId
      | None \<Rightarrow> resolveScope bindings taskId)"

section \<open>Pairs\<close>

definition formatEvidence :: "pair_verdict \<Rightarrow> evidence_line list" where
  "formatEvidence ev =
     map (\<lambda>(pa, pb). Path_Overlap_Line pa pb) (pv_pathPairs ev) @
     map (\<lambda>cc. Co_Change_Line (e_fileA cc) (e_fileB cc) (e_npmi cc) (e_coChangeCount cc)) (pv_cochangePairs ev)"

record verdict_state =
  vs_pairs :: "verdict_pair list"
  vs_inDegree :: degrees
  vs_adj :: edges

definition judge_pair ::
  "runtime \<Rightarrow> (string, string list \<times> bool) js_map \<Rightarrow> cochange_entry list \<Rightarrow> cochange_threshold \<Rightarrow>
   string \<times> string \<Rightarrow> verdict_state \<Rightarrow> verdict_state" where
  "judge_pair rt resolved cochangePairs threshold ab st =
     (let (a, b) = ab;
          ra = js_get_or resolved a ([], False);
          rb = js_get_or resolved b ([], False)
      in if \<not> snd ra \<or> \<not> snd rb
         then st\<lparr>vs_pairs := vs_pairs st @ [\<lparr>vp_a = a, vp_b = b, vp_verdict = Pair_Unknown, vp_evidence = []\<rparr>]\<rparr>
         else
           let ev = epicPairConflict rt (fst ra) (fst rb) cochangePairs threshold
           in if pv_conflict ev then
                let st' = st\<lparr>vs_pairs := vs_pairs st @
                       [\<lparr>vp_a = a, vp_b = b, vp_verdict = Pair_Conflict, vp_evidence = formatEvidence ev\<rparr>]\<rparr>
                in if b \<in> set (js_get_or (vs_adj st) a []) then st'
                   else st'\<lparr>vs_adj := js_set a (js_get_or (vs_adj st) a [] @ [b]) (vs_adj st),
                            vs_inDegree := js_set b (js_get_or (vs_inDegree st) b 0 + 1) (vs_inDegree st)\<rparr>
              else st\<lparr>vs_pairs := vs_pairs st @
                       [\<lparr>vp_a = a, vp_b = b, vp_verdict = Pair_Disjoint, vp_evidence = []\<rparr>]\<rparr>)"

section \<open>The suggested serial order\<close>

definition release_next :: "string \<Rightarrow> degrees \<times> string list \<Rightarrow> degrees \<times> string list" where
  "release_next v = (\<lambda>(deg, queue).
     let deg' = js_set v (js_get_or deg v 0 - 1) deg
     in if js_get_or deg' v 0 = 0 then (deg', queue @ [v]) else (deg', queue))"

text \<open>\<open>taskIds.indexOf(x)\<close>, minus one when absent.\<close>

definition position :: "string list \<Rightarrow> string \<Rightarrow> int" where
  "position taskIds x = (case find_index (\<lambda>y. y = x) taskIds of Some i \<Rightarrow> int i | None \<Rightarrow> -1)"

lemma release_next_measure:
  "release_next v (deg, q) = (deg', q') \<Longrightarrow>
   positive_degrees deg' + length q' \<le> positive_degrees deg + length q"
  using positive_degrees_set [of v "js_get_or deg v 0 - 1" deg]
  by (auto simp: release_next_def Let_def js_map_simps split: if_splits)

lemma release_nexts_measure:
  "fold release_next vs (deg, q) = (deg', q') \<Longrightarrow>
   positive_degrees deg' + length q' \<le> positive_degrees deg + length q"
proof (induction vs arbitrary: deg q)
  case Nil
  then show ?case by simp
next
  case (Cons v vs)
  obtain d1 q1 where r: "release_next v (deg, q) = (d1, q1)" by fastforce
  with Cons show ?case using release_next_measure [OF r] by fastforce
qed

function drain_queue :: "string list \<Rightarrow> edges \<Rightarrow> degrees \<Rightarrow> string list \<Rightarrow> string list \<Rightarrow> string list" where
  "drain_queue taskIds adj deg [] order = order"
| "drain_queue taskIds adj deg (cur # queue) order =
     (let (deg', queue') = fold release_next (js_get_or adj cur []) (deg, queue)
      in drain_queue taskIds adj deg' (js_sort (\<lambda>x y. position taskIds x - position taskIds y) queue')
           (order @ [cur]))"
  by pat_completeness auto
termination
proof (relation "measure (\<lambda>(ids, adj, deg, q, order). positive_degrees deg + length q)", goal_cases)
  case 1
  show ?case by simp
next
  case (2 taskIds adj deg cur queue order x deg' q')
  then have "fold release_next (js_get_or adj cur []) (deg, queue) = (deg', q')" by simp
  from release_nexts_measure [OF this] show ?case by simp
qed

definition topoSort :: "string list \<Rightarrow> edges \<Rightarrow> degrees \<Rightarrow> string list" where
  "topoSort taskIds adj inDegree =
     (let ready = filter (\<lambda>v. js_get_or inDegree v 0 = 0) taskIds;
          order = drain_queue taskIds adj inDegree ready []
      in if length order < length taskIds then fold set_add taskIds order else order)"

section \<open>The verdict\<close>

definition judge_pairs ::
  "runtime \<Rightarrow> (string \<Rightarrow> string list option) \<Rightarrow> string list \<Rightarrow> verdict_options \<Rightarrow> verdict_state" where
  "judge_pairs rt bindings taskIds opts =
     (let useCochange = (vo_useCochange opts \<and> vo_cochangePairs opts \<noteq> None);
          threshold = (case vo_cochangeThreshold opts of Some t \<Rightarrow> t | None \<Rightarrow> DEFAULT_PARALLEL_COCHANGE_THRESHOLD);
          cochangePairs = (if useCochange then or_empty (vo_cochangePairs opts) else []);
          resolved = fold (\<lambda>v. js_set v (resolve_verdict_scope opts bindings v)) taskIds []
      in fold (judge_pair rt resolved cochangePairs threshold) (index_pairs taskIds)
           \<lparr>vs_pairs = [], vs_inDegree = fold (\<lambda>v. js_set v 0) taskIds [],
            vs_adj = fold (\<lambda>v. js_set v []) taskIds []\<rparr>)"

definition computeParallelVerdict ::
  "runtime \<Rightarrow> (string \<Rightarrow> string list option) \<Rightarrow> string list \<Rightarrow> verdict_options \<Rightarrow> verdict_error + parallel_verdict" where
  "computeParallelVerdict rt bindings taskIds opts =
     (if length taskIds > MAX_PARALLEL_VERDICT_TASKS then Inl Too_Many_Tasks
      else
        let unknownScopeTasks = filter (\<lambda>v. \<not> snd (resolve_verdict_scope opts bindings v)) taskIds;
            st = judge_pairs rt bindings taskIds opts
        in Inr
           \<lparr>v_verdict = (if length unknownScopeTasks > 0 then Unknown_Scopes
                         else if list_ex (\<lambda>p. vp_verdict p = Pair_Conflict) (vs_pairs st) then Conflicts_Present
                         else All_Disjoint),
            v_pairs = vs_pairs st,
            v_suggestedSerialOrder = topoSort taskIds (vs_adj st) (vs_inDegree st),
            v_unknownScopeTasks = unknownScopeTasks\<rparr>)"

definition isProvablyDisjoint ::
  "runtime \<Rightarrow> (string \<Rightarrow> string list option) \<Rightarrow> string list \<Rightarrow> verdict_options \<Rightarrow> verdict_error + bool" where
  "isProvablyDisjoint rt bindings taskIds opts =
     (if length taskIds \<ge> 2
      then (case computeParallelVerdict rt bindings taskIds opts of
              Inl e \<Rightarrow> Inl e
            | Inr v \<Rightarrow> Inr (v_verdict v = All_Disjoint))
      else Inr False)"

section \<open>What the verdict means\<close>

abbreviation verdict_files :: "verdict_options \<Rightarrow> (string \<Rightarrow> string list option) \<Rightarrow> string \<Rightarrow> string list" where
  "verdict_files opts bindings v \<equiv> fst (resolve_verdict_scope opts bindings v)"

definition verdict_pairs :: "verdict_options \<Rightarrow> cochange_entry list" where
  "verdict_pairs opts = (if vo_useCochange opts then or_empty (vo_cochangePairs opts) else [])"

definition verdict_threshold :: "verdict_options \<Rightarrow> cochange_threshold" where
  "verdict_threshold opts =
     (case vo_cochangeThreshold opts of Some t \<Rightarrow> t | None \<Rightarrow> DEFAULT_PARALLEL_COCHANGE_THRESHOLD)"

text \<open>The verdict of one pair, as a function of the resolved scopes.\<close>

definition pair_kind ::
  "runtime \<Rightarrow> (string, string list \<times> bool) js_map \<Rightarrow> cochange_entry list \<Rightarrow> cochange_threshold \<Rightarrow> string \<times> string \<Rightarrow> pair_verdict_kind" where
  "pair_kind rt resolved pairs th = (\<lambda>(a, b).
     let ra = js_get_or resolved a ([], False); rb = js_get_or resolved b ([], False)
     in if \<not> snd ra \<or> \<not> snd rb then Pair_Unknown
        else if pv_conflict (epicPairConflict rt (fst ra) (fst rb) pairs th) then Pair_Conflict else Pair_Disjoint)"

lemma judge_pair_pairs:
  "map vp_verdict (vs_pairs (judge_pair rt resolved pairs th ab st)) =
     map vp_verdict (vs_pairs st) @ [pair_kind rt resolved pairs th ab]"
  "map (\<lambda>p. (vp_a p, vp_b p)) (vs_pairs (judge_pair rt resolved pairs th ab st)) =
     map (\<lambda>p. (vp_a p, vp_b p)) (vs_pairs st) @ [ab]"
  by (auto simp: judge_pair_def pair_kind_def Let_def split: prod.split)

lemma judge_pairs_pairs:
  "map vp_verdict (vs_pairs (fold (judge_pair rt resolved pairs th) ps st)) =
     map vp_verdict (vs_pairs st) @ map (pair_kind rt resolved pairs th) ps"
  "map (\<lambda>p. (vp_a p, vp_b p)) (vs_pairs (fold (judge_pair rt resolved pairs th) ps st)) =
     map (\<lambda>p. (vp_a p, vp_b p)) (vs_pairs st) @ ps"
  by (induction ps arbitrary: st) (simp_all add: judge_pair_pairs)

lemma js_get_fold_value: "js_get (fold (\<lambda>v. js_set v (f v)) vs m) x = (if x \<in> set vs then Some (f x) else js_get m x)"
  by (induction vs arbitrary: m) (auto simp: js_map_simps)

lemma judge_pairs_eq:
  "judge_pairs rt bindings taskIds opts =
     fold (judge_pair rt (fold (\<lambda>v. js_set v (resolve_verdict_scope opts bindings v)) taskIds [])
             (verdict_pairs opts) (verdict_threshold opts)) (index_pairs taskIds)
       \<lparr>vs_pairs = [], vs_inDegree = fold (\<lambda>v. js_set v 0) taskIds [], vs_adj = fold (\<lambda>v. js_set v []) taskIds []\<rparr>"
proof -
  have pairs: "(if vo_useCochange opts \<and> vo_cochangePairs opts \<noteq> None then or_empty (vo_cochangePairs opts) else []) = verdict_pairs opts"
    by (auto simp: verdict_pairs_def or_empty_def)
  show ?thesis unfolding judge_pairs_def Let_def pairs verdict_threshold_def ..
qed

lemma verdict_cases:
  "length taskIds \<le> MAX_PARALLEL_VERDICT_TASKS \<Longrightarrow> \<exists>v. computeParallelVerdict rt bindings taskIds opts = Inr v"
  by (simp add: computeParallelVerdict_def Let_def)

lemma verdict_simps:
  assumes "computeParallelVerdict rt bindings taskIds opts = Inr v"
  shows "length taskIds \<le> MAX_PARALLEL_VERDICT_TASKS"
    and "v_unknownScopeTasks v = filter (\<lambda>i. \<not> snd (resolve_verdict_scope opts bindings i)) taskIds"
    and "v_pairs v = vs_pairs (judge_pairs rt bindings taskIds opts)"
    and "v_verdict v = (if v_unknownScopeTasks v \<noteq> [] then Unknown_Scopes
                        else if \<exists>p \<in> set (v_pairs v). vp_verdict p = Pair_Conflict then Conflicts_Present
                        else All_Disjoint)"
    and "v_suggestedSerialOrder v = topoSort taskIds (vs_adj (judge_pairs rt bindings taskIds opts))
           (vs_inDegree (judge_pairs rt bindings taskIds opts))"
proof -
  have len: "\<not> length taskIds > MAX_PARALLEL_VERDICT_TASKS"
    using assms by (auto simp: computeParallelVerdict_def split: if_splits)
  then show "length taskIds \<le> MAX_PARALLEL_VERDICT_TASKS" by simp
  have v: "v = \<lparr>v_verdict = (if length (filter (\<lambda>v. \<not> snd (resolve_verdict_scope opts bindings v)) taskIds) > 0 then Unknown_Scopes
                         else if list_ex (\<lambda>p. vp_verdict p = Pair_Conflict) (vs_pairs (judge_pairs rt bindings taskIds opts))
                         then Conflicts_Present else All_Disjoint),
            v_pairs = vs_pairs (judge_pairs rt bindings taskIds opts),
            v_suggestedSerialOrder = topoSort taskIds (vs_adj (judge_pairs rt bindings taskIds opts))
              (vs_inDegree (judge_pairs rt bindings taskIds opts)),
            v_unknownScopeTasks = filter (\<lambda>v. \<not> snd (resolve_verdict_scope opts bindings v)) taskIds\<rparr>"
    using assms len unfolding computeParallelVerdict_def Let_def by simp
  show "v_unknownScopeTasks v = filter (\<lambda>i. \<not> snd (resolve_verdict_scope opts bindings i)) taskIds"
    and "v_pairs v = vs_pairs (judge_pairs rt bindings taskIds opts)"
    and "v_verdict v = (if v_unknownScopeTasks v \<noteq> [] then Unknown_Scopes
                        else if \<exists>p \<in> set (v_pairs v). vp_verdict p = Pair_Conflict then Conflicts_Present
                        else All_Disjoint)"
    and "v_suggestedSerialOrder v = topoSort taskIds (vs_adj (judge_pairs rt bindings taskIds opts))
           (vs_inDegree (judge_pairs rt bindings taskIds opts))"
    unfolding v list_ex_iff by simp_all
qed

lemma verdict_pair_kinds:
  "map vp_verdict (vs_pairs (judge_pairs rt bindings taskIds opts)) =
     map (pair_kind rt (fold (\<lambda>i. js_set i (resolve_verdict_scope opts bindings i)) taskIds [])
       (verdict_pairs opts) (verdict_threshold opts)) (index_pairs taskIds)"
  "map (\<lambda>p. (vp_a p, vp_b p)) (vs_pairs (judge_pairs rt bindings taskIds opts)) = index_pairs taskIds"
  unfolding judge_pairs_eq judge_pairs_pairs by simp_all

lemma pair_kind_resolved:
  assumes "a \<in> set taskIds" "b \<in> set taskIds"
  shows "pair_kind rt (fold (\<lambda>i. js_set i (resolve_verdict_scope opts bindings i)) taskIds []) pairs th (a, b) =
    (if \<not> snd (resolve_verdict_scope opts bindings a) \<or> \<not> snd (resolve_verdict_scope opts bindings b) then Pair_Unknown
     else if pv_conflict (epicPairConflict rt (verdict_files opts bindings a) (verdict_files opts bindings b) pairs th)
     then Pair_Conflict else Pair_Disjoint)"
  using assms by (simp add: pair_kind_def Let_def js_get_or_def js_get_fold_value)

lemma pair_kinds_at:
  "i < length (index_pairs taskIds) \<Longrightarrow>
     vp_verdict (vs_pairs (judge_pairs rt bindings taskIds opts) ! i) =
       pair_kind rt (fold (\<lambda>i. js_set i (resolve_verdict_scope opts bindings i)) taskIds [])
         (verdict_pairs opts) (verdict_threshold opts) (index_pairs taskIds ! i)"
proof -
  assume i: "i < length (index_pairs taskIds)"
  have len: "length (vs_pairs (judge_pairs rt bindings taskIds opts)) = length (index_pairs taskIds)"
    using arg_cong [OF verdict_pair_kinds(2), of length] by simp
  then show ?thesis
    using arg_cong [OF verdict_pair_kinds(1), of "\<lambda>xs. xs ! i" rt bindings taskIds opts] i by simp
qed

lemma conflict_pair_iff:
  "(\<exists>p \<in> set (vs_pairs (judge_pairs rt bindings taskIds opts)). vp_verdict p = Pair_Conflict) \<longleftrightarrow>
   (\<exists>ab \<in> set (index_pairs taskIds). pair_kind rt (fold (\<lambda>i. js_set i (resolve_verdict_scope opts bindings i)) taskIds [])
         (verdict_pairs opts) (verdict_threshold opts) ab = Pair_Conflict)"
proof -
  have "Pair_Conflict \<in> set (map vp_verdict (vs_pairs (judge_pairs rt bindings taskIds opts))) \<longleftrightarrow>
      Pair_Conflict \<in> set (map (pair_kind rt (fold (\<lambda>i. js_set i (resolve_verdict_scope opts bindings i)) taskIds [])
         (verdict_pairs opts) (verdict_threshold opts)) (index_pairs taskIds))"
    unfolding verdict_pair_kinds ..
  then show ?thesis unfolding set_map image_iff by metis
qed

lemma verdict_disjoint_iff:
  "(\<exists>v. computeParallelVerdict rt bindings taskIds opts = Inr v \<and> v_verdict v = All_Disjoint) \<longleftrightarrow>
     length taskIds \<le> MAX_PARALLEL_VERDICT_TASKS \<and>
     (\<forall>a \<in> set taskIds. snd (resolve_verdict_scope opts bindings a)) \<and>
     (\<forall>(a, b) \<in> set (index_pairs taskIds).
        \<not> pv_conflict (epicPairConflict rt (verdict_files opts bindings a) (verdict_files opts bindings b)
            (verdict_pairs opts) (verdict_threshold opts)))"
proof (cases "length taskIds \<le> MAX_PARALLEL_VERDICT_TASKS")
  case False
  then show ?thesis by (simp add: computeParallelVerdict_def)
next
  case True
  then obtain v where v: "computeParallelVerdict rt bindings taskIds opts = Inr v" using verdict_cases by blast
  have unknown: "v_unknownScopeTasks v = [] \<longleftrightarrow> (\<forall>a \<in> set taskIds. snd (resolve_verdict_scope opts bindings a))"
    unfolding verdict_simps(2) [OF v] by (simp add: filter_empty_conv)
  have "v_verdict v = All_Disjoint \<longleftrightarrow> v_unknownScopeTasks v = [] \<and> \<not> (\<exists>p \<in> set (v_pairs v). vp_verdict p = Pair_Conflict)"
    unfolding verdict_simps(4) [OF v] by simp
  also have "\<dots> \<longleftrightarrow> (\<forall>a \<in> set taskIds. snd (resolve_verdict_scope opts bindings a)) \<and>
     (\<forall>(a, b) \<in> set (index_pairs taskIds).
        \<not> pv_conflict (epicPairConflict rt (verdict_files opts bindings a) (verdict_files opts bindings b)
            (verdict_pairs opts) (verdict_threshold opts)))"
    unfolding unknown verdict_simps(3) [OF v] conflict_pair_iff
    using index_pairs_mem [of _ _ taskIds] by (fastforce simp: pair_kind_resolved)
  finally show ?thesis using v True by simp
qed

text \<open>The parallel verdict fails closed.  It is an error for more than 64 tasks, and otherwise it
  is \<open>all_disjoint\<close> exactly when every task has a usable scope and no two of the tasks conflict
  under \<open>epicPairConflict\<close>; one task without a declared scope is enough to rule it out.\<close>

theorem verdict_all_disjoint_iff:
  "(\<exists>v. computeParallelVerdict rt bindings taskIds opts = Inr v \<and> v_verdict v = All_Disjoint) \<longleftrightarrow>
     length taskIds \<le> MAX_PARALLEL_VERDICT_TASKS \<and>
     (\<forall>a \<in> set taskIds. snd (resolve_verdict_scope opts bindings a)) \<and>
     (\<forall>(a, b) \<in> set (index_pairs taskIds).
        \<not> pv_conflict (epicPairConflict rt (verdict_files opts bindings a) (verdict_files opts bindings b)
            (verdict_pairs opts) (verdict_threshold opts)))"
  by (rule verdict_disjoint_iff)

theorem verdict_all_disjoint_iff_witness:
  "\<exists>v. computeParallelVerdict (posix_runtime []) (\<lambda>_. None) [''a'', ''b'']
      \<lparr>vo_useCochange = False, vo_cochangePairs = None, vo_cochangeThreshold = None,
       vo_scopes = Some [(''a'', [''m'']), (''b'', [''n''])]\<rparr> = Inr v \<and> v_verdict v = All_Disjoint"
proof -
  have "\<not> pv_conflict (epicPairConflict (posix_runtime []) [''m''] [''n''] [] DEFAULT_PARALLEL_COCHANGE_THRESHOLD)"
    by code_simp
  then show ?thesis
    by (subst verdict_all_disjoint_iff)
       (simp add: MAX_PARALLEL_VERDICT_TASKS_def resolve_verdict_scope_def resolveExplicitScope_def
         verdict_pairs_def verdict_threshold_def)
qed

end
