(* ===== verification/Wave_Select.thy ===== *)
theory Wave_Select
  imports Components
begin

text \<open>
  \<^verbatim>\<open>src/epic/wave-select.ts\<close>: the choice of the next wave of a phase.  The plan is the list of
  its phases; the live declared scopes, the commit evidence, what was learned and the earlier
  waves are fields of the input, as in the code.  The result of \<open>selectNextEpicWave\<close> is wrapped
  in an option because the component planner's union-find loops are partial functions.
\<close>

definition MAX_WAVE_COCHANGE_PAIRS :: nat where "MAX_WAVE_COCHANGE_PAIRS = 256"

record wave_selection_input =
  si_directory :: string
  si_plan :: "plan_phase list"
  si_phaseId :: int
  si_liveScopes :: "(string, string list) js_map"
  si_maxParallel :: int
  si_leanConfig :: lean_config
  si_isCommitted :: "string \<Rightarrow> bool"
  si_hotFiles :: "string list"
  si_coWrites :: "cowrite_index option"
  si_cochange :: "cochange_signal option"
  si_densityThreshold :: rat
  si_waveHistory :: "wave_history_entry list"

datatype problem_reason = Dep_Removed | Dep_Closed | Dep_Later_Phase | Dep_Not_Committed | Dep_Cycle

record predecessor_problem =
  pp_taskId :: string
  pp_dependency :: string
  pp_why :: problem_reason

record selected_wave =
  sw_kind :: wave_kind
  sw_taskIds :: "string list"
  sw_files :: "(string, string list) js_map"
  sw_cochangePairs :: "cochange_entry list"
  sw_components :: wave_components

datatype wave_selection =
    Sel_Wave selected_wave
  | Sel_Declare_Scopes "(string \<times> string list) list"
  | Sel_Task_Blocked "string list"
  | Sel_Predecessor_Missing "predecessor_problem list"
  | Sel_None

definition isResolved :: "task_status \<Rightarrow> bool" where
  "isResolved status = (status = Completed \<or> status = Closed)"

text \<open>Task id to the task and its phase; the first task with an id wins.\<close>

type_synonym plan_index = "(string, plan_task \<times> int) js_map"

definition indexPlan :: "plan_phase list \<Rightarrow> plan_index" where
  "indexPlan phases =
     fold (\<lambda>phase. fold (\<lambda>task index. if js_has index (t_id task) then index
                                     else js_set (t_id task) (task, ph_id phase) index) (ph_tasks phase))
       phases []"

section \<open>Co-change pairs inside a wave\<close>

definition within_files :: "string list \<Rightarrow> string \<Rightarrow> bool" where
  "within_files normalized file = list_ex (\<lambda>f. pathMatches f file) normalized"

definition pair_order :: "runtime \<Rightarrow> cochange_entry \<Rightarrow> cochange_entry \<Rightarrow> int" where
  "pair_order rt a b = cmp_or (rat_compare (e_npmi b) (e_npmi a)) (locale_compare rt (e_fileA a) (e_fileA b))"

definition cochangePairsWithin :: "runtime \<Rightarrow> string list \<Rightarrow> cochange_signal \<Rightarrow> cochange_entry list" where
  "cochangePairsWithin rt files cochange =
     (let normalized = map (normalizePath rt) files
      in take MAX_WAVE_COCHANGE_PAIRS (js_sort (pair_order rt)
           (filter (\<lambda>pair. e_coChangeCount pair \<ge> th_minCoChanges (cs_threshold cochange) \<and>
                           e_npmi pair \<ge> th_npmi (cs_threshold cochange) \<and>
                           within_files normalized (e_fileA pair) \<and> within_files normalized (e_fileB pair))
             (cs_pairs cochange))))"

section \<open>Dependencies outside the batch\<close>

definition dependency_problem ::
  "wave_selection_input \<Rightarrow> plan_index \<Rightarrow> string list \<Rightarrow> string \<Rightarrow> string \<Rightarrow> predecessor_problem list" where
  "dependency_problem inp index batchIds taskId dep =
     (let problem = (\<lambda>why. [\<lparr>pp_taskId = taskId, pp_dependency = dep, pp_why = why\<rparr>])
      in if dep \<in> set batchIds then []
         else case js_get index dep of
                None \<Rightarrow> problem Dep_Removed
              | Some (task, phaseId) \<Rightarrow>
                  if t_status task = Closed then problem Dep_Closed
                  else if t_status task = Completed
                  then (if \<not> si_isCommitted inp dep then problem Dep_Not_Committed else [])
                  else if phaseId \<noteq> si_phaseId inp then problem Dep_Later_Phase
                  else [])"

definition satisfied_outside :: "wave_selection_input \<Rightarrow> plan_index \<Rightarrow> string \<Rightarrow> bool" where
  "satisfied_outside inp index dep =
     (case js_get index dep of
        None \<Rightarrow> False
      | Some (task, phaseId) \<Rightarrow> t_status task = Completed \<and> si_isCommitted inp dep)"

definition predecessor_problems :: "wave_selection_input \<Rightarrow> plan_index \<Rightarrow> plan_task list \<Rightarrow> predecessor_problem list" where
  "predecessor_problems inp index batch =
     concat (map (\<lambda>task. concat (map (dependency_problem inp index (map t_id batch) (t_id task)) (depends task))) batch)"

definition cycle_problems :: "plan_task list \<Rightarrow> predecessor_problem list" where
  "cycle_problems batch =
     filter (\<lambda>p. length (pp_dependency p) > 0)
       (map (\<lambda>task. \<lparr>pp_taskId = t_id task,
                     pp_dependency = js_join '', '' (filter (\<lambda>d. d \<in> set (map t_id batch)) (depends task)),
                     pp_why = Dep_Cycle\<rparr>) batch)"

section \<open>The selection\<close>

text \<open>\<open>input.liveScopes[id] ?? []\<close>\<close>

abbreviation live_scope :: "wave_selection_input \<Rightarrow> string \<Rightarrow> string list" where
  "live_scope inp i \<equiv> js_get_or (si_liveScopes inp) i []"

definition planning_scopes :: "wave_selection_input \<Rightarrow> plan_task list \<Rightarrow> (string, string list) js_map" where
  "planning_scopes inp batch =
     fold (\<lambda>task. let live = live_scope inp (t_id task)
                  in js_set (t_id task) (if length live > 0 then live else or_empty (t_files_touched task))) batch []"

definition selection_input :: "wave_selection_input \<Rightarrow> plan_index \<Rightarrow> plan_task list \<Rightarrow> next_wave_input" where
  "selection_input inp index batch =
     \<lparr>nw_graph = \<lparr>gi_directory = si_directory inp, gi_tasks = batch, gi_scopes = planning_scopes inp batch,
                  gi_leanConfig = si_leanConfig inp, gi_hotFiles = si_hotFiles inp,
                  gi_coWrites = si_coWrites inp, gi_cochange = si_cochange inp\<rparr>,
      nw_maxParallel = si_maxParallel inp, nw_densityThreshold = si_densityThreshold inp,
      nw_satisfiedOutside = satisfied_outside inp index, nw_history = si_waveHistory inp\<rparr>"

definition selected_files :: "wave_selection_input \<Rightarrow> string list \<Rightarrow> (string, string list) js_map" where
  "selected_files inp chosen = fold (\<lambda>i. js_set i (live_scope inp i)) chosen []"

text \<open>From the planner's choice to the result.\<close>

definition finish_selection ::
  "runtime \<Rightarrow> wave_selection_input \<Rightarrow> plan_index \<Rightarrow> plan_task list \<Rightarrow> string list \<Rightarrow>
   component_partition \<Rightarrow> wave_choice option \<Rightarrow> wave_selection" where
  "finish_selection rt inp index batch blocked part choice =
     (let chosen = (case choice of None \<Rightarrow> [] | Some w \<Rightarrow> wv_taskIds w)
      in if length chosen = 0 then
           (if length blocked > 0 then Sel_Task_Blocked blocked else Sel_Predecessor_Missing (cycle_problems batch))
         else
           let undeclared = filter (\<lambda>i. length (live_scope inp i) = 0) chosen
           in if length undeclared > 0 then
                Sel_Declare_Scopes (map (\<lambda>i. (i,
                  case js_get index i of None \<Rightarrow> [] | Some (task, _) \<Rightarrow> or_empty (t_files_touched task))) undeclared)
              else
                let files = selected_files inp chosen
                in Sel_Wave
                     \<lparr>sw_kind = (case choice of None \<Rightarrow> Wave_Parallel | Some w \<Rightarrow> wv_kind w),
                      sw_taskIds = chosen, sw_files = files,
                      sw_cochangePairs = (case si_cochange inp of None \<Rightarrow> []
                                          | Some sig \<Rightarrow> cochangePairsWithin rt (concat (map snd files)) sig),
                      sw_components = toWaveComponents rt part chosen\<rparr>)"

definition blocked_ids :: "plan_phase \<Rightarrow> string list" where
  "blocked_ids phase = map t_id (filter (\<lambda>t. t_status t = Blocked) (ph_tasks phase))"

definition batch_of :: "plan_phase \<Rightarrow> plan_task list" where
  "batch_of phase = filter (\<lambda>t. \<not> isResolved (t_status t) \<and> t_status t \<noteq> Blocked) (ph_tasks phase)"

definition selectNextEpicWave :: "runtime \<Rightarrow> wave_selection_input \<Rightarrow> wave_selection option" where
  "selectNextEpicWave rt inp =
     (case List.find (\<lambda>p. ph_id p = si_phaseId inp) (si_plan inp) of
        None \<Rightarrow> Some Sel_None
      | Some phase \<Rightarrow>
          let index = indexPlan (si_plan inp);
              blocked = blocked_ids phase;
              batch = batch_of phase
          in if length batch = 0 then
               Some (if length blocked > 0 then Sel_Task_Blocked blocked else Sel_None)
             else
               let problems = predecessor_problems inp index batch
               in if length problems > 0 then Some (Sel_Predecessor_Missing problems)
                  else case planNextEpicWave rt (selection_input inp index batch) of
                         None \<Rightarrow> None
                       | Some (part, choice) \<Rightarrow> Some (finish_selection rt inp index batch blocked part choice))"

end
