(* ===== verification/Gate_Policy.thy ===== *)
theory Gate_Policy
  imports Parallel_Verdict Wave_Select Epic_Record
begin

text \<open>
  \<^verbatim>\<open>src/epic/gate-policy.ts\<close>: which coder dispatches an open epic admits.  The lifecycle row, its
  sentinel, the configuration switch and the branch check are read from the file system; what
  those reads return are the fields of \<open>gate_environment\<close> (\<open>Inl ()\<close> where the read throws).
  The messages of the code are prose and are not modelled; the reject codes are.

  Also \<open>scopeContains\<close> of \<^verbatim>\<open>src/scope/scope-binding.ts\<close> with \<open>normalizePathIdentity\<close> of
  \<^verbatim>\<open>src/scope/path-identity.ts\<close>, and from \<^verbatim>\<open>src/epic/next-wave.ts\<close> the check before a wave is
  issued (\<open>assertWaveDisjoint\<close>).
\<close>

section \<open>Scope containment\<close>

definition normalizePathIdentity :: "runtime \<Rightarrow> string \<Rightarrow> string" where
  "normalizePathIdentity rt v =
     (let normalized = path_normalize rt (if is_win32 rt then map (\<lambda>c. if c = slash then backslash else c) v else v)
      in if is_win32 rt then to_lower normalized else normalized)"

definition scopeContains :: "runtime \<Rightarrow> string list \<Rightarrow> string \<Rightarrow> bool" where
  "scopeContains rt scope candidate =
     (let candidateIdentity = forward_slashes (normalizePathIdentity rt candidate)
      in list_ex (\<lambda>entry.
           let entryIdentity = forward_slashes (normalizePathIdentity rt entry)
           in candidateIdentity = entryIdentity \<or> starts_with candidateIdentity (entryIdentity @ [slash])) scope)"

section \<open>The wave verdict\<close>

definition epicWaveVerdictOptions ::
  "(string, string list) js_map \<Rightarrow> wave_cochange option \<Rightarrow> verdict_options" where
  "epicWaveVerdictOptions files cochange =
     \<lparr>vo_useCochange = (cochange \<noteq> None),
      vo_cochangePairs = map_option wcc_pairs cochange,
      vo_cochangeThreshold = map_option wcc_threshold cochange,
      vo_scopes = Some files\<rparr>"

text \<open>The explicit scopes are the only source of scopes: the bindings argument is never consulted.\<close>

definition computeEpicWaveVerdict ::
  "runtime \<Rightarrow> (string, string list) js_map \<Rightarrow> wave_cochange option \<Rightarrow> string list \<Rightarrow> verdict_error + parallel_verdict" where
  "computeEpicWaveVerdict rt files cochange taskIds =
     computeParallelVerdict rt (\<lambda>_. None) taskIds (epicWaveVerdictOptions files cochange)"

section \<open>Dispatch\<close>

datatype reject_code =
    EPIC_NO_ACTIVE_WAVE | EPIC_TASK_NOT_IN_ACTIVE_WAVE | EPIC_TASK_UNKNOWN | EPIC_WAVE_SCOPE_DRIFT
  | EPIC_STATE_UNREADABLE | EPIC_CLOSING | EPIC_BRANCH_MISMATCH

record admission =
  ad_parallel :: bool
  ad_isolate :: bool
  ad_maxConcurrent :: int

datatype dispatch_policy = Allow admission | Reject reject_code

text \<open>\<open>closingEpic\<close> is the key of the inspected record when its status is \<open>closing\<close>.\<close>

record gate_environment =
  ge_sentinelExists :: bool
  ge_configEnabled :: bool
  ge_openEpic :: "unit + epic_record option"
  ge_closingEpic :: "unit + string option"
  ge_branchOk :: "epic_record \<Rightarrow> bool"

fun findPlanTask :: "plan_phase list \<Rightarrow> string \<Rightarrow> plan_task option" where
  "findPlanTask [] taskId = None"
| "findPlanTask (phase # phases) taskId =
     (case List.find (\<lambda>t. t_id t = taskId) (ph_tasks phase) of
        Some task \<Rightarrow> Some task
      | None \<Rightarrow> findPlanTask phases taskId)"

definition active_wave :: "epic_record \<Rightarrow> epic_wave option" where
  "active_wave epic =
     (case ep_activeWaveSeq epic of
        None \<Rightarrow> None
      | Some s \<Rightarrow> List.find (\<lambda>w. ew_seq w = s \<and> ew_status w = Issued) (ep_waves epic))"

definition unresolved_tasks :: "plan_phase list \<Rightarrow> epic_wave \<Rightarrow> string list" where
  "unresolved_tasks plan wave =
     filter (\<lambda>i. case findPlanTask plan i of None \<Rightarrow> False | Some task \<Rightarrow> \<not> isResolved (t_status task))
       (ew_taskIds wave)"

definition dispatch_in_wave ::
  "runtime \<Rightarrow> plan_phase list \<Rightarrow> epic_record \<Rightarrow> epic_wave \<Rightarrow> string \<Rightarrow> string list option \<Rightarrow> dispatch_policy" where
  "dispatch_in_wave rt plan epic wave taskId liveBindingFiles =
     (if taskId \<notin> set (ew_taskIds wave) then Reject EPIC_TASK_NOT_IN_ACTIVE_WAVE
      else
        let frozen = js_get_or (ew_files wave) taskId [];
            extra = filter (\<lambda>file. \<not> scopeContains rt frozen file) (or_empty liveBindingFiles)
        in if length extra > 0 then Reject EPIC_WAVE_SCOPE_DRIFT
           else
             let isolate = (ep_isRepo epic \<and> ep_isolation epic = Worktree);
                 unresolved = unresolved_tasks plan wave;
                 parallel = (if isolate \<and> taskId \<in> set unresolved \<and> length unresolved \<ge> 2
                             then case computeEpicWaveVerdict rt (ew_files wave) (ew_cochange wave) unresolved of
                                    Inl _ \<Rightarrow> False
                                  | Inr v \<Rightarrow> v_verdict v = All_Disjoint
                             else False)
             in Allow \<lparr>ad_parallel = parallel, ad_isolate = isolate,
                       ad_maxConcurrent = max 1 (ep_maxParallel epic)\<rparr>)"

definition resolveEpicDispatchPolicy ::
  "runtime \<Rightarrow> gate_environment \<Rightarrow> plan_phase list \<Rightarrow> string option \<Rightarrow> string list option \<Rightarrow> dispatch_policy option" where
  "resolveEpicDispatchPolicy rt env plan incomingTaskId liveBindingFiles =
     (if \<not> ge_sentinelExists env then None
      else if \<not> ge_configEnabled env then None
      else case ge_openEpic env of
             Inl _ \<Rightarrow> Some (Reject EPIC_STATE_UNREADABLE)
           | Inr None \<Rightarrow>
               (case ge_closingEpic env of
                  Inl _ \<Rightarrow> Some (Reject EPIC_STATE_UNREADABLE)
                | Inr (Some key) \<Rightarrow> Some (Reject EPIC_CLOSING)
                | Inr None \<Rightarrow> None)
           | Inr (Some epic) \<Rightarrow>
               if \<not> ge_branchOk env epic then Some (Reject EPIC_BRANCH_MISMATCH)
               else
                 let taskId = (case incomingTaskId of None \<Rightarrow> [] | Some t \<Rightarrow> js_trim t)
                 in if length taskId = 0 \<or> findPlanTask plan taskId = None then Some (Reject EPIC_TASK_UNKNOWN)
                    else case active_wave epic of
                           None \<Rightarrow> Some (Reject EPIC_NO_ACTIVE_WAVE)
                         | Some wave \<Rightarrow> Some (dispatch_in_wave rt plan epic wave taskId liveBindingFiles))"

section \<open>Attribution of a gate run\<close>

datatype gate_attribution = Attr_None | Attr_Task string | Attr_Unattributable

text \<open>\<open>path.isAbsolute(file) ? path.relative(directory, file) : file\<close>\<close>

definition relative_to :: "runtime \<Rightarrow> string \<Rightarrow> string \<Rightarrow> string" where
  "relative_to rt directory file = (if path_is_absolute rt file then path_relative rt directory file else file)"

definition resolveEpicGateTaskAttribution ::
  "runtime \<Rightarrow> gate_environment \<Rightarrow> string \<Rightarrow> string list option \<Rightarrow> gate_attribution" where
  "resolveEpicGateTaskAttribution rt env directory files =
     (if \<not> ge_sentinelExists env then Attr_None
      else case ge_openEpic env of
             Inl _ \<Rightarrow> Attr_Unattributable
           | Inr None \<Rightarrow> Attr_None
           | Inr (Some epic) \<Rightarrow>
               (case active_wave epic of
                  None \<Rightarrow> Attr_None
                | Some wave \<Rightarrow>
                    if length (ew_taskIds wave) < 2 then Attr_None
                    else
                      let checked = filter (\<lambda>file. js_trim file \<noteq> []) (or_empty files)
                      in if length checked = 0 then Attr_Unattributable
                         else
                           let relative = map (relative_to rt directory) checked;
                               owners = filter (\<lambda>i.
                                 list_all (\<lambda>file. scopeContains rt (js_get_or (ew_files wave) i []) file) relative)
                                 (ew_taskIds wave)
                           in if length owners = 1 then Attr_Task (owners ! 0) else Attr_Unattributable))"

section \<open>PR-feedback coders\<close>

datatype feedback_conflict = EPIC_PR_FEEDBACK_SCOPE_OVERLAP "string list" | Feedback_State_Unreadable

definition feedback_overlaps :: "runtime \<Rightarrow> string list \<Rightarrow> string list \<Rightarrow> bool" where
  "feedback_overlaps rt declared frozen =
     list_ex (\<lambda>file. scopeContains rt frozen file \<or> list_ex (\<lambda>entry. scopeContains rt [file] entry) frozen) declared"

definition resolveEpicPrFeedbackConflict ::
  "runtime \<Rightarrow> gate_environment \<Rightarrow> string \<Rightarrow> string list option \<Rightarrow> feedback_conflict option" where
  "resolveEpicPrFeedbackConflict rt env directory declaredFiles =
     (if \<not> ge_sentinelExists env then None
      else case ge_openEpic env of
             Inl _ \<Rightarrow> Some Feedback_State_Unreadable
           | Inr None \<Rightarrow> None
           | Inr (Some epic) \<Rightarrow>
               (case active_wave epic of
                  None \<Rightarrow> None
                | Some wave \<Rightarrow>
                    let declared = map (relative_to rt directory) (filter (\<lambda>file. js_trim file \<noteq> []) (or_empty declaredFiles));
                        owners = filter (\<lambda>i. feedback_overlaps rt declared (js_get_or (ew_files wave) i [])) (ew_taskIds wave)
                    in if length owners = 0 then None else Some (EPIC_PR_FEEDBACK_SCOPE_OVERLAP owners)))"

section \<open>The check before a wave is issued\<close>

definition assertWaveDisjoint ::
  "runtime \<Rightarrow> string list \<Rightarrow> (string, string list) js_map \<Rightarrow> wave_cochange option \<Rightarrow> string list" where
  "assertWaveDisjoint rt taskIds files cochange =
     (if length taskIds < 2 then taskIds
      else case computeEpicWaveVerdict rt files cochange taskIds of
             Inl _ \<Rightarrow> [hd taskIds]
           | Inr v \<Rightarrow>
               if v_verdict v = All_Disjoint then taskIds
               else [case v_suggestedSerialOrder v of first # _ \<Rightarrow> first | [] \<Rightarrow> hd taskIds])"

definition pickFiles :: "(string, string list) js_map \<Rightarrow> string list \<Rightarrow> (string, string list) js_map" where
  "pickFiles files taskIds = fold (\<lambda>i. js_set i (js_get_or files i [])) taskIds []"

end
