(* ===== verification/Next_Wave.thy ===== *)
theory Next_Wave
  imports Residue Gate_Policy
begin

text \<open>
  \<^verbatim>\<open>src/epic/next-wave.ts\<close>: one step of \<open>epic_next_wave\<close>, which advances the active wave, keeps the
  phases in order and issues the next wave, and \<open>resolveEpicDeclaredScopes\<close> of
  \<^verbatim>\<open>src/epic/declared-scopes.ts\<close>.

  Everything the step reads is a field of \<open>next_wave_env\<close>; the results of its writes to the lifecycle row are
  decided by the store of each write.  The step returns its result, the closed wave when it closed one, and the
  commits it made to the row, each with the record the decision was based on, the row it was applied to
  and the row written.  The messages for the architect are prose and are not modelled, nor is the learning that follows a close.
\<close>

section \<open>Results\<close>

datatype block_reason =
    Block_Task_Blocked "string list"
  | Block_Merge_Failed "merge_failure list"
  | Block_Landing_Index_Dirty "merge_failure list"
  | Block_Git_Failed
  | Block_Dirty_Baseline "string list"
  | Block_Predecessor_Missing "predecessor_problem list"
  | Block_Wave_Revised int "(string \<times> int) list"
  | Block_Plan_Revised "string list"
  | Block_Task_Reopened "string list"
  | Block_Branch_Mismatch

datatype refusal = No_Open_Epic | Epic_Orphaned | Epic_State_Unreadable | Epic_Disabled_By_Config

datatype next_wave_result =
    NW_Dispatch epic_wave
  | NW_Declare_Scopes int "(string \<times> string list) list"
  | NW_In_Progress epic_wave "(string \<times> task_status option) list"
  | NW_Blocked block_reason
  | NW_Ready_For_Review int
  | NW_Epic_Complete
  | NW_Refused refusal
  | NW_Throws update_error

text \<open>A commit: the record it was decided on, the row it was applied to, the row written.\<close>

type_synonym commit = "epic_record \<times> epic_record \<times> epic_record"

record next_wave_outcome =
  no_result :: next_wave_result
  no_closed :: "epic_wave option"
  no_commits :: "commit list"

section \<open>What a step reads\<close>

record planning_signals =
  ps_hotFiles :: "string list"
  ps_coWrites :: "cowrite_index option"
  ps_cochange :: "cochange_signal option"
  ps_densityThreshold :: rat

record next_wave_env =
  nx_directory :: string
  nx_config :: "unit + bool"
  nx_openEpic :: "unit + epic_record option"
  nx_inspect :: "unit + (epic_record \<times> orphan_reason option) option"
  nx_branchOk :: "epic_record \<Rightarrow> bool"
  nx_plan :: "plan_phase list option"
  nx_isClosed :: "int \<Rightarrow> bool"
  nx_parse :: "string \<Rightarrow> int option"
  nx_registry :: merge_registry
  nx_statusFile :: string
  nx_dirty :: "unit + string"
  nx_commit :: "string \<Rightarrow> string list \<Rightarrow> string list \<Rightarrow> unit + string option"
  nx_close :: close_reads
  nx_tooLarge :: "epic_record \<Rightarrow> bool"
  nx_advanceStore :: "nat \<Rightarrow> update_attempt"
  nx_phaseStore :: "nat \<Rightarrow> update_attempt"
  nx_issueStore :: "nat \<Rightarrow> update_attempt"
  nx_closeTime :: string
  nx_issueTime :: string
  nx_bindings :: "unit + string list option"
  nx_scopeOf :: "string \<Rightarrow> unit + string list option"
  nx_events :: "unit + ledger_event list"
  nx_git :: git_env
  nx_refs :: git_refs
  nx_signals :: planning_signals
  nx_leanConfig :: lean_config
  nx_baseline :: "unit + string"
  nx_baseHead :: "unit + string"

section \<open>Writing the row\<close>

definition commit_update ::
  "next_wave_env \<Rightarrow> (nat \<Rightarrow> update_attempt) \<Rightarrow> epic_record \<Rightarrow> (epic_record \<Rightarrow> epic_record) \<Rightarrow>
   update_error + (epic_record \<times> epic_record) option" where
  "commit_update env store epic mutate = updateEpicRecord (nx_tooLarge env) store mutate (Some (ep_token epic))"

text \<open>A write whose failure does not matter: \<open>recordMergeFailureSnapshots\<close> and \<open>syncPhases\<close> swallow every error.\<close>

definition best_effort ::
  "next_wave_env \<Rightarrow> (nat \<Rightarrow> update_attempt) \<Rightarrow> epic_record \<Rightarrow> (epic_record \<Rightarrow> epic_record) \<Rightarrow> commit list" where
  "best_effort env store epic mutate =
     (case commit_update env store epic mutate of
        Inr (Some (row, new)) \<Rightarrow> [(epic, row, new)]
      | _ \<Rightarrow> [])"

definition sync_phase_commit :: "next_wave_env \<Rightarrow> epic_record \<Rightarrow> int \<Rightarrow> phase_status \<Rightarrow> commit list" where
  "sync_phase_commit env epic phase status =
     (if syncPhaseRecords (ep_phases epic) phase status = ep_phases epic then []
      else best_effort env (nx_phaseStore env) epic (sync_phases phase status))"

definition describeNoEpic :: "next_wave_env \<Rightarrow> next_wave_result" where
  "describeNoEpic env =
     NW_Refused (case nx_inspect env of
       Inr (Some (record, Some _)) \<Rightarrow> Epic_Orphaned
     | _ \<Rightarrow> No_Open_Epic)"

section \<open>The active wave\<close>

datatype advance = Adv_Result next_wave_result | Adv_Epic epic_record "epic_wave option"

text \<open>The tasks of the wave that are not resolved, each with its status and phase.\<close>

definition open_tasks :: "plan_phase list \<Rightarrow> epic_wave \<Rightarrow> (string \<times> task_status \<times> int) list" where
  "open_tasks plan wave =
     List.map_filter (\<lambda>i. case findTask plan i of
         None \<Rightarrow> None
       | Some (task, phaseId) \<Rightarrow> if isResolved (t_status task) then None else Some (i, t_status task, phaseId))
       (ew_taskIds wave)"

definition moved_tasks :: "plan_phase list \<Rightarrow> epic_wave \<Rightarrow> (string \<times> int) list" where
  "moved_tasks plan wave = map (\<lambda>(i, _, p). (i, p)) (filter (\<lambda>(_, _, p). p \<noteq> ew_phase wave) (open_tasks plan wave))"

definition blocked_tasks :: "plan_phase list \<Rightarrow> epic_wave \<Rightarrow> string list" where
  "blocked_tasks plan wave =
     map fst (filter (\<lambda>(_, s, p). p = ew_phase wave \<and> s = Blocked) (open_tasks plan wave))"

definition waiting_tasks :: "plan_phase list \<Rightarrow> epic_wave \<Rightarrow> (string \<times> task_status option) list" where
  "waiting_tasks plan wave =
     map (\<lambda>(i, s, _). (i, Some s)) (filter (\<lambda>(_, s, p). p = ew_phase wave \<and> s \<noteq> Blocked) (open_tasks plan wave))"

definition EPIC_LANDING_INDEX_STAGE :: string where "EPIC_LANDING_INDEX_STAGE = ''epic-landing-index''"

definition wave_merge_failures :: "runtime \<Rightarrow> next_wave_env \<Rightarrow> plan_phase list \<Rightarrow> epic_wave \<Rightarrow> merge_failure list" where
  "wave_merge_failures rt env plan wave =
     (let sinceMs = (case nx_parse env (ew_issuedAt wave) of None \<Rightarrow> 0 | Some t \<Rightarrow> t)
      in List.map_filter (\<lambda>i.
           if \<not> task_completed plan i then None
           else map_option (\<lambda>f. \<lparr>mf_taskId = i, mf_outcome = wmf_outcome f, mf_stage = wmf_stage f,
                                  mf_message = wmf_message f, mf_at = failure_time f\<rparr>)
                  (relevantMergeFailureForProject rt (nx_registry env) (nx_statusFile env) i sinceMs))
           (ew_taskIds wave))"

text \<open>Closing: the residue pass, then the computed close, committed.\<close>

definition close_wave ::
  "runtime \<Rightarrow> next_wave_env \<Rightarrow> epic_record \<Rightarrow> plan_phase list \<Rightarrow> epic_wave \<Rightarrow> advance \<times> commit list" where
  "close_wave rt env epic plan wave =
     (if ep_isRepo epic \<and>
         \<not> snd (commitWaveResidue rt (nx_commit env) (cr_attribution (nx_close env)) (nx_dirty env) epic wave plan)
      then (Adv_Result (NW_Blocked Block_Git_Failed), [])
      else
        let computation = computeWaveClose rt (nx_parse env) (nx_close env) epic wave plan (nx_closeTime env)
        in case commit_update env (nx_advanceStore env) epic (applyWaveClose (ew_seq wave) computation (nx_closeTime env)) of
             Inl e \<Rightarrow> (Adv_Result (NW_Throws e), [])
           | Inr None \<Rightarrow> (Adv_Result (describeNoEpic env), [])
           | Inr (Some (row, updated)) \<Rightarrow>
               (Adv_Epic updated (Some (case find_wave (ew_seq wave) updated of None \<Rightarrow> wave | Some w \<Rightarrow> w)),
                [(epic, row, updated)]))"

definition advanceActiveWave ::
  "runtime \<Rightarrow> next_wave_env \<Rightarrow> epic_record \<Rightarrow> plan_phase list \<Rightarrow> int \<Rightarrow> advance \<times> commit list" where
  "advanceActiveWave rt env epic plan s =
     (case (case find_wave s epic of None \<Rightarrow> None | Some w \<Rightarrow> if ew_status w = Issued then Some w else None) of
        None \<Rightarrow>
          (case commit_update env (nx_advanceStore env) epic (clear_dangling s) of
             Inl e \<Rightarrow> (Adv_Result (NW_Throws e), [])
           | Inr None \<Rightarrow> (Adv_Result (describeNoEpic env), [])
           | Inr (Some (row, updated)) \<Rightarrow> (Adv_Epic updated None, [(epic, row, updated)]))
      | Some wave \<Rightarrow>
          let moved = moved_tasks plan wave;
              failures = wave_merge_failures rt env plan wave;
              indexDirty = filter (\<lambda>f. mf_stage f = EPIC_LANDING_INDEX_STAGE) failures
          in if moved \<noteq> [] then
               (case commit_update env (nx_advanceStore env) epic (abort_wave (ew_seq wave) moved) of
                  Inl e \<Rightarrow> (Adv_Result (NW_Throws e), [])
                | Inr None \<Rightarrow> (Adv_Result (describeNoEpic env), [])
                | Inr (Some (row, updated)) \<Rightarrow>
                    (Adv_Result (NW_Blocked (Block_Wave_Revised (ew_seq wave) moved)), [(epic, row, updated)]))
             else if blocked_tasks plan wave \<noteq> [] then
               (Adv_Result (NW_Blocked (Block_Task_Blocked (blocked_tasks plan wave))), [])
             else if failures \<noteq> [] then
               (Adv_Result (NW_Blocked (if indexDirty \<noteq> [] then Block_Landing_Index_Dirty failures else Block_Merge_Failed failures)),
                best_effort env (nx_advanceStore env) epic (record_merge_failures (ew_seq wave) failures))
             else if waiting_tasks plan wave \<noteq> [] then
               (Adv_Result (NW_In_Progress wave (waiting_tasks plan wave)), [])
             else close_wave rt env epic plan wave)"

section \<open>The next wave\<close>

text \<open>The live declared scope of each task; a store that cannot be read declares nothing.  \<open>nx_bindings\<close> lists
  the tasks with a binding, \<open>nx_scopeOf\<close> reads one.\<close>

definition resolveEpicDeclaredScopes :: "next_wave_env \<Rightarrow> string list \<Rightarrow> (string, string list) js_map" where
  "resolveEpicDeclaredScopes env taskIds =
     (let result = fold (\<lambda>i. js_set i []) taskIds []
      in case nx_bindings env of
           Inr (Some bound) \<Rightarrow>
             fold (\<lambda>i result. if i \<notin> set bound then result
                     else js_set i (case nx_scopeOf env i of Inr (Some files) \<Rightarrow> files | _ \<Rightarrow> []) result) taskIds result
         | _ \<Rightarrow> result)"

definition last_completed :: "(string \<Rightarrow> int option) \<Rightarrow> ledger_event list \<Rightarrow> (string, int) js_map" where
  "last_completed parse events =
     fold (\<lambda>event found.
        case (le_taskId event, parse (le_timestamp event)) of
          (Some i, Some t) \<Rightarrow>
            if le_type event = Task_Status_Changed \<and> le_to event = Some ''completed'' then js_set i t found else found
        | _ \<Rightarrow> found) events []"

definition completedBeforeEpic :: "next_wave_env \<Rightarrow> epic_record \<Rightarrow> plan_phase list \<Rightarrow> string \<Rightarrow> bool" where
  "completedBeforeEpic env epic plan i =
     (let events = (case nx_events env of Inl _ \<Rightarrow> [] | Inr es \<Rightarrow> es);
          found = last_completed (nx_parse env) events
      in list_ex (\<lambda>phase.
           let atStart = (case js_get (ep_phases epic) (ph_id phase) of None \<Rightarrow> False | Some p \<Rightarrow> phr_completeAtStart p)
           in list_ex (\<lambda>task.
                t_id task = i \<and> t_status task = Completed \<and> \<not> js_has (ep_tasks epic) i \<and>
                (atStart \<or>
                 (case js_get found i of
                    None \<Rightarrow> True
                  | Some t \<Rightarrow> (case nx_parse env (ep_startedAt epic) of None \<Rightarrow> False | Some started \<Rightarrow> t < started))))
                (ph_tasks phase)) plan)"

text \<open>The completed dependencies outside the batch that need evidence on the branch; \<open>batch\<close> is the phase's
  tasks whose id is in the batch.\<close>

definition needed_predecessors :: "plan_phase list \<Rightarrow> plan_task list \<Rightarrow> string list" where
  "needed_predecessors plan batch =
     js_uniq (filter (\<lambda>dep. dep \<notin> set (map t_id batch) \<and> task_completed plan dep) (concat (map depends batch)))"

text \<open>\<open>None\<close> where reading or writing the refs throws.\<close>

definition committed_predecessors ::
  "next_wave_env \<Rightarrow> epic_record \<Rightarrow> plan_phase list \<Rightarrow> plan_task list \<Rightarrow> (string \<Rightarrow> bool) option" where
  "committed_predecessors env epic plan batch =
     (let needed = needed_predecessors plan batch
      in if \<not> ep_isRepo epic \<or> needed = [] then Some (\<lambda>_. True)
         else case fst (syncEpicRefs (nx_git env) (nx_refs env) epic) of
                Inl _ \<Rightarrow> None
              | Inr refs \<Rightarrow>
                  Some (\<lambda>dep. dep \<in> set needed \<and>
                    (completedBeforeEpic env epic plan dep \<or>
                     (case epicTaskRef (ep_epicKey epic) dep of
                        None \<Rightarrow> False
                      | Some ref \<Rightarrow> (case js_get refs ref of None \<Rightarrow> False | Some sha \<Rightarrow> isCommitAncestorOfHead (nx_git env) sha)))))"

definition wave_history :: "epic_record \<Rightarrow> int \<Rightarrow> wave_history_entry list" where
  "wave_history epic phaseId =
     map (\<lambda>w. \<lparr>wh_taskIds = ew_taskIds w, wh_byTask = map_option wc_byTask (ew_components w)\<rparr>)
       (filter (\<lambda>w. ew_phase w = phaseId) (ep_waves epic))"

definition wave_selection_input_of ::
  "next_wave_env \<Rightarrow> epic_record \<Rightarrow> plan_phase list \<Rightarrow> int \<Rightarrow> (string, string list) js_map \<Rightarrow> (string \<Rightarrow> bool) \<Rightarrow> wave_selection_input" where
  "wave_selection_input_of env epic plan phaseId liveScopes isCommitted =
     \<lparr>si_directory = nx_directory env, si_plan = plan, si_phaseId = phaseId, si_liveScopes = liveScopes,
      si_maxParallel = ep_maxParallel epic, si_leanConfig = nx_leanConfig env, si_isCommitted = isCommitted,
      si_hotFiles = ps_hotFiles (nx_signals env), si_coWrites = ps_coWrites (nx_signals env),
      si_cochange = ps_cochange (nx_signals env), si_densityThreshold = ps_densityThreshold (nx_signals env),
      si_waveHistory = wave_history epic phaseId\<rparr>"

text \<open>The tracked changes that block a wave; \<open>Inl ()\<close> where git fails.\<close>

definition settleDirtyBaseline :: "unit + string \<Rightarrow> block_reason option" where
  "settleDirtyBaseline status =
     (case listDirtyEntries status of
        Inl _ \<Rightarrow> Some Block_Git_Failed
      | Inr dirty \<Rightarrow>
          let tracked = db_tracked (classifyDirtyBaseline dirty)
          in if length tracked > 0 then Some (Block_Dirty_Baseline (take 20 tracked)) else None)"

definition wave_draft_of ::
  "runtime \<Rightarrow> next_wave_env \<Rightarrow> epic_record \<Rightarrow> int \<Rightarrow> selected_wave \<Rightarrow> wave_draft" where
  "wave_draft_of rt env epic phaseId sel =
     (let cochange = map_option (\<lambda>sig. \<lparr>wcc_pairs = sw_cochangePairs sel, wcc_threshold = cs_threshold sig\<rparr>)
            (ps_cochange (nx_signals env));
          ids = assertWaveDisjoint rt (sw_taskIds sel) (sw_files sel) cochange
      in \<lparr>wd_phase = phaseId, wd_kind = sw_kind sel, wd_taskIds = ids, wd_files = pickFiles (sw_files sel) ids,
          wd_cochange = cochange, wd_components = sw_components sel,
          wd_baseHead = (if ep_isRepo epic then readHead (nx_baseHead env) else None), wd_issuedAt = nx_issueTime env\<rparr>)"

definition task_state :: "plan_phase list \<Rightarrow> string \<Rightarrow> task_status option" where
  "task_state plan i = map_option (\<lambda>(task, _). t_status task) (findTask plan i)"

definition issue_commit ::
  "next_wave_env \<Rightarrow> epic_record \<Rightarrow> plan_phase list \<Rightarrow> wave_draft \<Rightarrow> next_wave_result \<times> commit list" where
  "issue_commit env epic plan draft =
     (case commit_update env (nx_issueStore env) epic (issue_wave draft) of
        Inl e \<Rightarrow> (NW_Throws e, [])
      | Inr None \<Rightarrow> (describeNoEpic env, [])
      | Inr (Some (row, updated)) \<Rightarrow>
          (case ep_activeWaveSeq row of
             None \<Rightarrow> (NW_Dispatch (draft_wave (next_seq row) draft), [(epic, row, updated)])
           | Some s \<Rightarrow>
               (case find_wave s row of
                  Some concurrent \<Rightarrow>
                    (NW_In_Progress concurrent (map (\<lambda>i. (i, task_state plan i)) (ew_taskIds concurrent)), [(epic, row, updated)])
                | None \<Rightarrow> (describeNoEpic env, [(epic, row, updated)]))))"

definition issueNextWave ::
  "runtime \<Rightarrow> next_wave_env \<Rightarrow> epic_record \<Rightarrow> plan_phase list \<Rightarrow> int \<Rightarrow> (next_wave_result \<times> commit list) option" where
  "issueNextWave rt env epic plan phaseId =
     (let phase = List.find (\<lambda>p. ph_id p = phaseId) plan;
          batchIds = (case phase of None \<Rightarrow> [] | Some p \<Rightarrow> map t_id (batch_of p));
          batch = (case phase of None \<Rightarrow> [] | Some p \<Rightarrow> filter (\<lambda>t. t_id t \<in> set batchIds) (ph_tasks p));
          liveScopes = resolveEpicDeclaredScopes env batchIds
      in case committed_predecessors env epic plan batch of
           None \<Rightarrow> Some (NW_Blocked Block_Git_Failed, [])
         | Some isCommitted \<Rightarrow>
             (case selectNextEpicWave rt (wave_selection_input_of env epic plan phaseId liveScopes isCommitted) of
                None \<Rightarrow> None
              | Some Sel_None \<Rightarrow> Some (NW_Ready_For_Review phaseId, [])
              | Some (Sel_Task_Blocked ids) \<Rightarrow> Some (NW_Blocked (Block_Task_Blocked ids), [])
              | Some (Sel_Predecessor_Missing problems) \<Rightarrow> Some (NW_Blocked (Block_Predecessor_Missing problems), [])
              | Some (Sel_Declare_Scopes tasks) \<Rightarrow> Some (NW_Declare_Scopes phaseId tasks, [])
              | Some (Sel_Wave sel) \<Rightarrow>
                  (case (if ep_isRepo epic then settleDirtyBaseline (nx_baseline env) else None) of
                     Some reason \<Rightarrow> Some (NW_Blocked reason, [])
                   | None \<Rightarrow> Some (issue_commit env epic plan (wave_draft_of rt env epic phaseId sel)))))"

section \<open>The step\<close>

text \<open>Open tasks of phases that are done: those the epic once resolved, and those it never saw.\<close>

definition stray_tasks :: "next_wave_env \<Rightarrow> epic_record \<Rightarrow> plan_phase list \<Rightarrow> bool \<Rightarrow> string list" where
  "stray_tasks env epic plan known =
     concat (map (\<lambda>phase. map t_id (filter (\<lambda>t. \<not> isResolved (t_status t) \<and> js_has (ep_tasks epic) (t_id t) = known) (ph_tasks phase)))
       (filter (\<lambda>phase. isEpicPhaseDone epic (nx_isClosed env) (ph_id phase)) plan))"

definition plan_next ::
  "runtime \<Rightarrow> next_wave_env \<Rightarrow> epic_record \<Rightarrow> plan_phase list \<Rightarrow> (next_wave_result \<times> commit list) option" where
  "plan_next rt env epic plan =
     (let reopened = stray_tasks env epic plan True; revised = stray_tasks env epic plan False
      in if length reopened > 0 then Some (NW_Blocked (Block_Task_Reopened reopened), [])
         else if length revised > 0 then Some (NW_Blocked (Block_Plan_Revised revised), [])
         else case List.find (\<lambda>phase. \<not> isEpicPhaseDone epic (nx_isClosed env) (ph_id phase)) plan of
                None \<Rightarrow> Some (NW_Epic_Complete, [])
              | Some current \<Rightarrow>
                  if list_all (\<lambda>t. isResolved (t_status t)) (ph_tasks current)
                  then Some (NW_Ready_For_Review (ph_id current), sync_phase_commit env epic (ph_id current) Phase_Review)
                  else issueNextWave rt env epic plan (ph_id current))"

definition plain_outcome :: "next_wave_result \<Rightarrow> commit list \<Rightarrow> next_wave_outcome" where
  "plain_outcome result commits = \<lparr>no_result = result, no_closed = None, no_commits = commits\<rparr>"

definition with_closed :: "epic_wave option \<Rightarrow> next_wave_result \<times> commit list \<Rightarrow> commit list \<Rightarrow> next_wave_outcome" where
  "with_closed closedWave r commits =
     \<lparr>no_result = fst r,
      no_closed = (case fst r of NW_Refused _ \<Rightarrow> None | NW_Throws _ \<Rightarrow> None | _ \<Rightarrow> closedWave),
      no_commits = commits @ snd r\<rparr>"

definition runEpicNextWave :: "runtime \<Rightarrow> next_wave_env \<Rightarrow> next_wave_outcome option" where
  "runEpicNextWave rt env =
     (if nx_config env \<noteq> Inr True then Some (plain_outcome (NW_Refused Epic_Disabled_By_Config) [])
      else case nx_openEpic env of
             Inl _ \<Rightarrow> Some (plain_outcome (NW_Refused Epic_State_Unreadable) [])
           | Inr None \<Rightarrow> Some (plain_outcome (describeNoEpic env) [])
           | Inr (Some epic) \<Rightarrow>
               if \<not> nx_branchOk env epic then Some (plain_outcome (NW_Blocked Block_Branch_Mismatch) [])
               else
                 (case nx_plan env of
                    None \<Rightarrow> Some (plain_outcome (NW_Refused Epic_Orphaned) [])
                  | Some plan \<Rightarrow>
                      (case ep_activeWaveSeq epic of
                         None \<Rightarrow> map_option (\<lambda>r. with_closed None r []) (plan_next rt env epic plan)
                       | Some s \<Rightarrow>
                           (case advanceActiveWave rt env epic plan s of
                              (Adv_Result result, commits) \<Rightarrow> Some (plain_outcome result commits)
                            | (Adv_Epic updated closedWave, commits) \<Rightarrow>
                                map_option (\<lambda>r. with_closed closedWave r commits) (plan_next rt env updated plan)))))"

end
