(* ===== verification/Epic_Run.thy ===== *)
theory Epic_Run
  imports Epic_Record
begin

text \<open>
  The life of an epic record.  Every writer reads the record, decides, and then commits its
  mutation to the row as it is at that moment (\<open>updateEpicRecord\<close> re-reads it under a revision
  check), so the record a decision was made on may be older than the one it is applied to.
  \<open>epic_run\<close> is the history of committed records, newest first; a mutation that depends on what
  its caller saw names the snapshot \<open>r0\<close> it saw.
\<close>

section \<open>Histories\<close>

definition dangling :: "int \<Rightarrow> epic_record \<Rightarrow> bool" where
  "dangling s r0 = (case find_wave s r0 of None \<Rightarrow> True | Some w \<Rightarrow> ew_status w \<noteq> Issued)"

definition issued_in :: "int \<Rightarrow> epic_record \<Rightarrow> epic_wave \<Rightarrow> bool" where
  "issued_in s r0 w = (find_wave s r0 = Some w \<and> ew_status w = Issued \<and> ep_activeWaveSeq r0 = Some s)"

inductive epic_run :: "epic_record list \<Rightarrow> bool" where
  run_start: "epic_run [start_record key token hash planKey digest startedAt isRepo base width isClosed plan]"
| run_issue: "epic_run (r # h) \<Longrightarrow> epic_run (issue_wave d r # r # h)"
| run_dangling: "epic_run (r # h) \<Longrightarrow> r0 \<in> set (r # h) \<Longrightarrow> ep_activeWaveSeq r0 = Some s \<Longrightarrow> dangling s r0 \<Longrightarrow>
    epic_run (clear_dangling s r # r # h)"
| run_abort: "epic_run (r # h) \<Longrightarrow> r0 \<in> set (r # h) \<Longrightarrow> issued_in s r0 w \<Longrightarrow> epic_run (abort_wave s moved r # r # h)"
| run_failures: "epic_run (r # h) \<Longrightarrow> r0 \<in> set (r # h) \<Longrightarrow> issued_in s r0 w \<Longrightarrow>
    epic_run (record_merge_failures s failures r # r # h)"
| run_close: "epic_run (r # h) \<Longrightarrow> r0 \<in> set (r # h) \<Longrightarrow> issued_in s r0 w \<Longrightarrow>
    map o_taskId (cc_outcomes c) = ew_taskIds w \<Longrightarrow> (\<And>x. x \<in> set (cc_outcomes c) \<Longrightarrow> eo_waveSeq x = s) \<Longrightarrow>
    epic_run (applyWaveClose s c now r # r # h)"
| run_sync: "epic_run (r # h) \<Longrightarrow> st \<noteq> Phase_Complete \<Longrightarrow> epic_run (sync_phases phase st r # r # h)"
| run_complete: "epic_run (r # h) \<Longrightarrow> epic_run (complete_phase phase r # r # h)"
| run_review: "epic_run (r # h) \<Longrightarrow> epic_run (record_review_run phase verdict r # r # h)"
| run_closing: "epic_run (r # h) \<Longrightarrow> epic_run (mark_closing now co land r # r # h)"
| run_branch: "epic_run (r # h) \<Longrightarrow> epic_run (set_branch branch r # r # h)"
| run_landing: "epic_run (r # h) \<Longrightarrow> epic_run (set_landing_attempt attempt r # r # h)"
| run_repair: "epic_run (r # h) \<Longrightarrow> epic_run (repair_markers ref repairs r # r # h)"

inductive_cases epic_run_ConsE: "epic_run (r # h)"

section \<open>What the mutations change\<close>

text \<open>A mutation that touches neither the waves nor the pointer nor drops an outcome.\<close>

definition same_waves :: "epic_record \<Rightarrow> epic_record \<Rightarrow> bool" where
  "same_waves r r' = (ep_waves r' = ep_waves r \<and> ep_activeWaveSeq r' = ep_activeWaveSeq r \<and>
     fst ` set (ep_tasks r) \<subseteq> fst ` set (ep_tasks r'))"

lemma keys_repair:
  "fst ` set (fold (\<lambda>(taskId, sha) tasks. case js_get tasks taskId of
           None \<Rightarrow> tasks
         | Some x \<Rightarrow> js_set taskId (f taskId sha x) tasks) repairs m) = fst ` set m"
proof (induction repairs arbitrary: m)
  case Nil
  then show ?case by simp
next
  case (Cons p ps)
  obtain i sha where p: "p = (i, sha)" by (cases p)
  have "fst ` set (case js_get m i of None \<Rightarrow> m | Some x \<Rightarrow> js_set i (f i sha x) m) = fst ` set m"
    by (auto simp: js_dom_set js_get_key split: option.split)
  with Cons p show ?case by simp
qed

lemma same_waves_simps:
  "same_waves r (sync_phases p st r)" "same_waves r (complete_phase p r)" "same_waves r (record_review_run p v r)"
  "same_waves r (mark_closing now oc land r)" "same_waves r (set_branch b r)" "same_waves r (set_landing_attempt a r)"
  "same_waves r (repair_markers ref repairs r)"
  by (simp_all add: same_waves_def sync_phases_def complete_phase_def record_review_run_def mark_closing_def
        resumeClosing_def set_branch_def set_landing_attempt_def repair_markers_def Let_def keys_repair
        del: set_map split: option.split)

lemma map_wave_simps [simp]:
  "length (map_wave s f ws) = length ws"
  "i < length ws \<Longrightarrow> map_wave s f ws ! i = (if ew_seq (ws ! i) = s then f (ws ! i) else ws ! i)"
  by (simp_all add: map_wave_def)

section \<open>The invariant of the waves\<close>

text \<open>The waves are numbered \<open>1, 2, \<dots>\<close> in issue order; the active wave is the issued one; and every task
  of a closed wave has an outcome.\<close>

definition wave_inv :: "epic_record \<Rightarrow> bool" where
  "wave_inv r =
     ((\<forall>i < length (ep_waves r). ew_seq (ep_waves r ! i) = int i + 1) \<and>
      (\<forall>w \<in> set (ep_waves r). ew_status w = Issued \<longleftrightarrow> ep_activeWaveSeq r = Some (ew_seq w)) \<and>
      (\<forall>s. ep_activeWaveSeq r = Some s \<longrightarrow> 1 \<le> s \<and> s \<le> int (length (ep_waves r))) \<and>
      (\<forall>w \<in> set (ep_waves r). ew_status w = Wave_Closed \<longrightarrow> set (ew_taskIds w) \<subseteq> fst ` set (ep_tasks r)))"

lemma wave_invI:
  "(\<And>i. i < length (ep_waves r) \<Longrightarrow> ew_seq (ep_waves r ! i) = int i + 1) \<Longrightarrow>
   (\<And>w. w \<in> set (ep_waves r) \<Longrightarrow> ew_status w = Issued \<longleftrightarrow> ep_activeWaveSeq r = Some (ew_seq w)) \<Longrightarrow>
   (\<And>s. ep_activeWaveSeq r = Some s \<Longrightarrow> 1 \<le> s \<and> s \<le> int (length (ep_waves r))) \<Longrightarrow>
   (\<And>w. w \<in> set (ep_waves r) \<Longrightarrow> ew_status w = Wave_Closed \<Longrightarrow> set (ew_taskIds w) \<subseteq> fst ` set (ep_tasks r)) \<Longrightarrow>
   wave_inv r"
  unfolding wave_inv_def by blast

lemma wave_invD:
  assumes "wave_inv r"
  shows "i < length (ep_waves r) \<Longrightarrow> ew_seq (ep_waves r ! i) = int i + 1"
    and "w \<in> set (ep_waves r) \<Longrightarrow> ew_status w = Issued \<longleftrightarrow> ep_activeWaveSeq r = Some (ew_seq w)"
    and "ep_activeWaveSeq r = Some s \<Longrightarrow> 1 \<le> s \<and> s \<le> int (length (ep_waves r))"
    and "w \<in> set (ep_waves r) \<Longrightarrow> ew_status w = Wave_Closed \<Longrightarrow> set (ew_taskIds w) \<subseteq> fst ` set (ep_tasks r)"
  using assms unfolding wave_inv_def by blast+

lemma wave_inv_cong:
  assumes "same_waves r r'" "wave_inv r"
  shows "wave_inv r'"
proof -
  have eq: "ep_waves r' = ep_waves r" "ep_activeWaveSeq r' = ep_activeWaveSeq r"
    "fst ` set (ep_tasks r) \<subseteq> fst ` set (ep_tasks r')"
    using assms(1) by (simp_all add: same_waves_def)
  show ?thesis
    by (rule wave_invI; unfold eq(1,2))
       (use wave_invD [OF assms(2)] eq(3) in \<open>simp_all add: subset_trans [OF _ eq(3)]\<close>)
qed

lemma wave_inv_seq_inj:
  assumes "wave_inv r" "i < length (ep_waves r)" "j < length (ep_waves r)" "ew_seq (ep_waves r ! i) = ew_seq (ep_waves r ! j)"
  shows "i = j"
  using wave_invD(1) [OF assms(1,2)] wave_invD(1) [OF assms(1,3)] assms(4) by linarith

lemma wave_seq_le: "wave_inv r \<Longrightarrow> w \<in> set (ep_waves r) \<Longrightarrow> 1 \<le> ew_seq w \<and> ew_seq w \<le> int (length (ep_waves r))"
proof -
  assume "wave_inv r" "w \<in> set (ep_waves r)"
  then obtain i where "i < length (ep_waves r)" "ep_waves r ! i = w" by (metis in_set_conv_nth)
  then show ?thesis using wave_invD(1) [OF \<open>wave_inv r\<close>, of i] by auto
qed

lemma find_wave_at:
  assumes "wave_inv r" "1 \<le> s" "s \<le> int (length (ep_waves r))"
  shows "find_wave s r = Some (ep_waves r ! nat (s - 1))"
proof -
  let ?i = "nat (s - 1)"
  have i: "?i < length (ep_waves r)" using assms(2,3) by linarith
  have seq: "ew_seq (ep_waves r ! ?i) = s" using wave_invD(1) [OF assms(1) i] assms(2) by simp
  show ?thesis
  proof (cases "find_wave s r")
    case None
    then show ?thesis
      using find_NoneD [of "\<lambda>w. ew_seq w = s" "ep_waves r" "ep_waves r ! ?i"] seq nth_mem [OF i]
      unfolding find_wave_def by simp
  next
    case (Some w)
    then have "w \<in> set (ep_waves r)" "ew_seq w = s"
      using find_SomeD [of "\<lambda>w. ew_seq w = s" "ep_waves r" w] unfolding find_wave_def by simp_all
    then obtain j where "j < length (ep_waves r)" "ep_waves r ! j = w" by (metis in_set_conv_nth)
    then have "j = ?i" using wave_inv_seq_inj [OF assms(1) _ i, of j] seq \<open>ew_seq w = s\<close> by simp
    then show ?thesis using Some \<open>ep_waves r ! j = w\<close> by simp
  qed
qed

lemma next_seq_length: "wave_inv r \<Longrightarrow> next_seq r = int (length (ep_waves r)) + 1"
proof -
  assume inv: "wave_inv r"
  have "fold (\<lambda>w m. max m (ew_seq w)) ws (int n) = int n + int (length ws)"
    if "\<forall>i < length ws. ew_seq (ws ! i) = int n + int i + 1" for ws n
    using that
  proof (induction ws arbitrary: n)
    case Nil
    then show ?case by simp
  next
    case (Cons w ws)
    have "ew_seq w = int n + 1" using Cons.prems by (force dest: spec [of _ 0])
    moreover have "\<forall>i < length ws. ew_seq (ws ! i) = int (Suc n) + int i + 1" using Cons.prems by force
    ultimately show ?case using Cons.IH [of "Suc n"] by (simp add: algebra_simps)
  qed
  from this [of "ep_waves r" 0] inv show ?thesis by (simp add: next_seq_def wave_inv_def)
qed

lemma active_is_issued:
  assumes "wave_inv r" "ep_activeWaveSeq r = Some s"
  shows "\<exists>w. issued_in s r w"
proof -
  have s: "1 \<le> s" "s \<le> int (length (ep_waves r))" using wave_invD(3) [OF assms] by simp_all
  let ?i = "nat (s - 1)"
  have i: "?i < length (ep_waves r)" using s by linarith
  have "ew_seq (ep_waves r ! ?i) = s" using wave_invD(1) [OF assms(1) i] s by simp
  then have "ew_status (ep_waves r ! ?i) = Issued" using wave_invD(2) [OF assms(1) nth_mem [OF i]] assms(2) by simp
  then show ?thesis using find_wave_at [OF assms(1) s] assms(2) by (simp add: issued_in_def)
qed

lemma wave_inv_issue: "wave_inv r \<Longrightarrow> wave_inv (issue_wave d r)"
proof (cases "ep_activeWaveSeq r")
  case (Some s)
  assume "wave_inv r"
  then show ?thesis using Some by (simp add: issue_wave_def)
next
  case None
  assume inv: "wave_inv r"
  note n = next_seq_length [OF inv]
  have old: "ew_status w \<noteq> Issued" "ew_seq w \<le> int (length (ep_waves r))" if "w \<in> set (ep_waves r)" for w
    using wave_invD(2) [OF inv that] wave_seq_le [OF inv that] None by simp_all
  have eq: "ep_waves (issue_wave d r) = ep_waves r @ [draft_wave (int (length (ep_waves r)) + 1) d]"
    "ep_activeWaveSeq (issue_wave d r) = Some (int (length (ep_waves r)) + 1)" "ep_tasks (issue_wave d r) = ep_tasks r"
    using None n by (simp_all add: issue_wave_def Let_def)
  have new: "ew_seq (draft_wave s d) = s" "ew_status (draft_wave s d) = Issued" for s by (simp_all add: draft_wave_def)
  show ?thesis
  proof (rule wave_invI; unfold eq)
    fix i assume "i < length (ep_waves r @ [draft_wave (int (length (ep_waves r)) + 1) d])"
    then show "ew_seq ((ep_waves r @ [draft_wave (int (length (ep_waves r)) + 1) d]) ! i) = int i + 1"
      using wave_invD(1) [OF inv, of i] by (cases "i < length (ep_waves r)") (simp_all add: new nth_append)
  next
    fix w assume "w \<in> set (ep_waves r @ [draft_wave (int (length (ep_waves r)) + 1) d])"
    then consider "w \<in> set (ep_waves r)" | "w = draft_wave (int (length (ep_waves r)) + 1) d" by auto
    then show "ew_status w = Issued \<longleftrightarrow> Some (int (length (ep_waves r)) + 1) = Some (ew_seq w)"
      by cases (use old in \<open>force simp: new\<close>)+
  next
    fix s assume "Some (int (length (ep_waves r)) + 1) = Some s"
    then show "1 \<le> s \<and> s \<le> int (length (ep_waves r @ [draft_wave (int (length (ep_waves r)) + 1) d]))" by auto
  next
    fix w assume "w \<in> set (ep_waves r @ [draft_wave (int (length (ep_waves r)) + 1) d])" "ew_status w = Wave_Closed"
    then have "w \<in> set (ep_waves r)" by (auto simp: new)
    then show "set (ew_taskIds w) \<subseteq> fst ` set (ep_tasks r)" using wave_invD(4) [OF inv _ \<open>ew_status w = Wave_Closed\<close>] by blast
  qed
qed

text \<open>Settling the active wave: the pointer is cleared and the wave gets a status that is not issued.\<close>

lemma wave_inv_settle:
  assumes inv: "wave_inv r" and act: "ep_activeWaveSeq r = Some s"
    and f: "\<And>w. ew_seq (f w) = ew_seq w \<and> ew_taskIds (f w) = ew_taskIds w \<and> ew_status (f w) \<noteq> Issued"
    and closed: "\<And>w. w \<in> set (ep_waves r) \<Longrightarrow> ew_seq w = s \<Longrightarrow> ew_status (f w) = Wave_Closed \<Longrightarrow>
      set (ew_taskIds w) \<subseteq> fst ` set tasks"
    and tasks: "fst ` set (ep_tasks r) \<subseteq> fst ` set tasks"
  shows "wave_inv (r\<lparr>ep_activeWaveSeq := None, ep_tasks := tasks, ep_waves := map_wave s f (ep_waves r)\<rparr>)"
proof -
  let ?r = "r\<lparr>ep_activeWaveSeq := None, ep_tasks := tasks, ep_waves := map_wave s f (ep_waves r)\<rparr>"
  have eq: "ep_waves ?r = map_wave s f (ep_waves r)" "ep_activeWaveSeq ?r = None" "ep_tasks ?r = tasks" by simp_all
  show "wave_inv ?r"
  proof (rule wave_invI; unfold eq)
  fix i assume "i < length (map_wave s f (ep_waves r))"
  then show "ew_seq (map_wave s f (ep_waves r) ! i) = int i + 1" using wave_invD(1) [OF inv, of i] f by simp
next
  fix w assume "w \<in> set (map_wave s f (ep_waves r))"
  then obtain v where v: "v \<in> set (ep_waves r)" "w = (if ew_seq v = s then f v else v)" by (auto simp: map_wave_def)
  have "ew_status w \<noteq> Issued" using v(2) f wave_invD(2) [OF inv v(1)] act by auto
  then show "ew_status w = Issued \<longleftrightarrow> None = Some (ew_seq w)" by simp
next
  fix t :: int assume "None = Some t"
  then show "1 \<le> t \<and> t \<le> int (length (map_wave s f (ep_waves r)))" by simp
next
  fix w assume w: "w \<in> set (map_wave s f (ep_waves r))" "ew_status w = Wave_Closed"
  then obtain v where v: "v \<in> set (ep_waves r)" "w = (if ew_seq v = s then f v else v)" by (auto simp: map_wave_def)
  show "set (ew_taskIds w) \<subseteq> fst ` set tasks"
  proof (cases "ew_seq v = s")
    case True
    with v w closed [OF v(1) True] f [of v] show ?thesis by simp
  next
    case False
    then have "w = v" using v(2) by simp
    then show ?thesis using wave_invD(4) [OF inv v(1)] w(2) tasks by (simp add: subset_trans [OF _ tasks])
  qed
  qed
qed

section \<open>What a later record keeps of an earlier one\<close>

definition wave_extends :: "epic_wave \<Rightarrow> epic_wave \<Rightarrow> bool" where
  "wave_extends w w' =
     (ew_seq w' = ew_seq w \<and> ew_phase w' = ew_phase w \<and> ew_kind w' = ew_kind w \<and> ew_taskIds w' = ew_taskIds w \<and>
      ew_files w' = ew_files w \<and> ew_cochange w' = ew_cochange w \<and> ew_components w' = ew_components w \<and>
      ew_baseHead w' = ew_baseHead w \<and> ew_issuedAt w' = ew_issuedAt w \<and>
      (ew_status w \<noteq> Issued \<longrightarrow> ew_status w' = ew_status w))"

definition record_extends :: "epic_record \<Rightarrow> epic_record \<Rightarrow> bool" where
  "record_extends r r' =
     (length (ep_waves r) \<le> length (ep_waves r') \<and>
      (\<forall>i < length (ep_waves r). wave_extends (ep_waves r ! i) (ep_waves r' ! i)) \<and>
      fst ` set (ep_tasks r) \<subseteq> fst ` set (ep_tasks r') \<and>
      (\<forall>p. recorded_complete r p \<longrightarrow> recorded_complete r' p) \<and>
      (ep_status r = Epic_Closing \<longrightarrow> ep_status r' = Epic_Closing) \<and>
      ep_epicKey r' = ep_epicKey r \<and> ep_token r' = ep_token r \<and> ep_planIdentityHash r' = ep_planIdentityHash r \<and>
      ep_startedAt r' = ep_startedAt r \<and> ep_isolation r' = ep_isolation r \<and> ep_maxParallel r' = ep_maxParallel r \<and>
      ep_isRepo r' = ep_isRepo r \<and> ep_baseCommit r' = ep_baseCommit r)"

lemma wave_extends_refl [simp]: "wave_extends w w"
  by (simp add: wave_extends_def)

lemma wave_extends_trans: "wave_extends u v \<Longrightarrow> wave_extends v w \<Longrightarrow> wave_extends u w"
  by (auto simp: wave_extends_def)

lemma record_extends_refl [simp]: "record_extends r r"
  by (simp add: record_extends_def)

lemma record_extends_trans:
  assumes qr: "record_extends q r" and rt: "record_extends r t"
  shows "record_extends q t"
proof -
  have len: "length (ep_waves q) \<le> length (ep_waves r)" "length (ep_waves r) \<le> length (ep_waves t)"
    using qr rt by (simp_all add: record_extends_def)
  have ext: "wave_extends (ep_waves q ! i) (ep_waves t ! i)" if i: "i < length (ep_waves q)" for i
  proof (rule wave_extends_trans)
    show "wave_extends (ep_waves q ! i) (ep_waves r ! i)" using qr i by (simp add: record_extends_def)
    show "wave_extends (ep_waves r ! i) (ep_waves t ! i)" using rt i len(1) by (simp add: record_extends_def)
  qed
  have tasks: "fst ` set (ep_tasks q) \<subseteq> fst ` set (ep_tasks t)"
    using qr rt unfolding record_extends_def by (elim conjE) (rule subset_trans)
  have phases: "recorded_complete q p \<Longrightarrow> recorded_complete t p" for p using qr rt by (simp add: record_extends_def)
  show ?thesis
    unfolding record_extends_def using len ext tasks phases
    by (intro conjI allI impI) (use qr rt in \<open>simp_all add: record_extends_def\<close>)
qed

definition same_rest :: "epic_record \<Rightarrow> epic_record \<Rightarrow> bool" where
  "same_rest r r' =
     ((\<forall>p. recorded_complete r p \<longrightarrow> recorded_complete r' p) \<and> (ep_status r = Epic_Closing \<longrightarrow> ep_status r' = Epic_Closing) \<and>
      ep_epicKey r' = ep_epicKey r \<and> ep_token r' = ep_token r \<and> ep_planIdentityHash r' = ep_planIdentityHash r \<and>
      ep_startedAt r' = ep_startedAt r \<and> ep_isolation r' = ep_isolation r \<and> ep_maxParallel r' = ep_maxParallel r \<and>
      ep_isRepo r' = ep_isRepo r \<and> ep_baseCommit r' = ep_baseCommit r)"

lemma record_extends_same_waves: "same_waves r r' \<Longrightarrow> same_rest r r' \<Longrightarrow> record_extends r r'"
  by (simp add: same_waves_def same_rest_def record_extends_def)

lemma recorded_complete_sync: "recorded_complete r p \<Longrightarrow> recorded_complete (r\<lparr>ep_phases := syncPhaseRecords (ep_phases r) q st\<rparr>) p"
  by (auto simp: recorded_complete_def syncPhaseRecords_def js_get_set split: option.splits if_splits)

lemma same_rest_simps:
  "same_rest r (sync_phases p st r)" "same_rest r (complete_phase p r)" "same_rest r (record_review_run p v r)"
  "same_rest r (mark_closing now oc land r)" "same_rest r (set_branch b r)" "same_rest r (set_landing_attempt a r)"
  "same_rest r (repair_markers ref repairs r)"
proof -
  show "same_rest r (sync_phases p st r)"
    unfolding same_rest_def sync_phases_def using recorded_complete_sync by simp
  show "same_rest r (complete_phase p r)"
    by (auto simp: same_rest_def complete_phase_def recorded_complete_def js_get_set split: option.splits)
  show "same_rest r (record_review_run p v r)"
    by (auto simp: same_rest_def record_review_run_def recorded_complete_def js_get_set Let_def split: option.splits)
  show "same_rest r (mark_closing now oc land r)"
    by (auto simp: same_rest_def mark_closing_def resumeClosing_def recorded_complete_def Let_def split: option.splits)
  show "same_rest r (set_branch b r)" "same_rest r (set_landing_attempt a r)" "same_rest r (repair_markers ref repairs r)"
    by (auto simp: same_rest_def set_branch_def set_landing_attempt_def repair_markers_def recorded_complete_def split: option.splits)
qed

lemma record_extends_issue: "record_extends r (issue_wave d r)"
proof (cases "ep_activeWaveSeq r")
  case None
  have "recorded_complete r p \<Longrightarrow> recorded_complete (issue_wave d r) p" for p
    using recorded_complete_sync [of r p "wd_phase d" Phase_Active] None by (simp add: issue_wave_def recorded_complete_def Let_def)
  then show ?thesis using None by (auto simp: record_extends_def issue_wave_def Let_def nth_append)
next
  case (Some s)
  then show ?thesis by (simp add: issue_wave_def)
qed

lemma record_extends_map:
  assumes "\<And>i. i < length (ep_waves r) \<Longrightarrow> ew_seq (ep_waves r ! i) = s \<Longrightarrow> wave_extends (ep_waves r ! i) (f (ep_waves r ! i))"
    and "fst ` set (ep_tasks r) \<subseteq> fst ` set tasks"
  shows "record_extends r (r\<lparr>ep_activeWaveSeq := a, ep_tasks := tasks, ep_waves := map_wave s f (ep_waves r)\<rparr>)"
  using assms by (auto simp: record_extends_def recorded_complete_def)

text \<open>Settling the active wave keeps it in the above sense, because it is the issued one.\<close>

lemma record_extends_settle:
  assumes inv: "wave_inv r" and act: "ep_activeWaveSeq r = Some s"
    and f: "\<And>w. ew_status w = Issued \<Longrightarrow> wave_extends w (f w)" and tasks: "fst ` set (ep_tasks r) \<subseteq> fst ` set tasks"
  shows "record_extends r (r\<lparr>ep_activeWaveSeq := None, ep_tasks := tasks, ep_waves := map_wave s f (ep_waves r)\<rparr>)"
proof (rule record_extends_map [OF _ tasks])
  fix i assume i: "i < length (ep_waves r)" "ew_seq (ep_waves r ! i) = s"
  then have "ew_status (ep_waves r ! i) = Issued" using wave_invD(2) [OF inv nth_mem [OF i(1)]] act by simp
  then show "wave_extends (ep_waves r ! i) (f (ep_waves r ! i))" by (rule f)
qed

section \<open>Every committed record satisfies the invariant\<close>

definition good_step :: "epic_record \<Rightarrow> epic_record \<Rightarrow> bool" where
  "good_step r r' = (wave_inv r' \<and> record_extends r r')"

lemma good_step_refl: "wave_inv r \<Longrightarrow> good_step r r"
  by (simp add: good_step_def)

lemma good_step_same: "wave_inv r \<Longrightarrow> same_waves r r' \<Longrightarrow> same_rest r r' \<Longrightarrow> good_step r r'"
  by (simp add: good_step_def wave_inv_cong record_extends_same_waves)

lemma good_step_abort: "wave_inv r \<Longrightarrow> good_step r (abort_wave s moved r)"
proof (cases "ep_activeWaveSeq r = Some s")
  case False
  assume "wave_inv r"
  with False show ?thesis by (simp add: abort_wave_def good_step_def)
next
  case True
  assume inv: "wave_inv r"
  let ?f = "\<lambda>w. w\<lparr>ew_status := Aborted, ew_aborted := Some moved\<rparr>"
  have eq: "abort_wave s moved r =
      r\<lparr>ep_activeWaveSeq := None, ep_tasks := ep_tasks r, ep_waves := map_wave s ?f (ep_waves r)\<rparr>"
    using True by (simp add: abort_wave_def)
  show ?thesis
    unfolding good_step_def eq
    by (intro conjI wave_inv_settle [OF inv True] record_extends_settle [OF inv True]) (simp_all add: wave_extends_def)
qed

lemma good_step_failures: "wave_inv r \<Longrightarrow> good_step r (record_merge_failures s failures r)"
proof -
  assume inv: "wave_inv r"
  have upd: "good_step r (r\<lparr>ep_waves := map_wave s (\<lambda>w. w\<lparr>ew_mergeFailures := Some m\<rparr>) (ep_waves r)\<rparr>)" for m
  proof -
    let ?f = "\<lambda>w. w\<lparr>ew_mergeFailures := Some m\<rparr>"
    have eq: "r\<lparr>ep_waves := map_wave s ?f (ep_waves r)\<rparr> =
        r\<lparr>ep_activeWaveSeq := ep_activeWaveSeq r, ep_tasks := ep_tasks r, ep_waves := map_wave s ?f (ep_waves r)\<rparr>" by simp
    have mem: "\<exists>v \<in> set (ep_waves r). ew_seq v = ew_seq w \<and> ew_status v = ew_status w \<and> ew_taskIds v = ew_taskIds w"
      if "w \<in> set (map_wave s ?f (ep_waves r))" for w
      using that by (auto simp: map_wave_def)
    have "wave_inv (r\<lparr>ep_waves := map_wave s ?f (ep_waves r)\<rparr>)"
    proof (rule wave_invI)
      show "ew_seq (ep_waves (r\<lparr>ep_waves := map_wave s ?f (ep_waves r)\<rparr>) ! i) = int i + 1"
        if "i < length (ep_waves (r\<lparr>ep_waves := map_wave s ?f (ep_waves r)\<rparr>))" for i
        using that wave_invD(1) [OF inv, of i] by simp
      show "1 \<le> t \<and> t \<le> int (length (ep_waves (r\<lparr>ep_waves := map_wave s ?f (ep_waves r)\<rparr>)))"
        if "ep_activeWaveSeq (r\<lparr>ep_waves := map_wave s ?f (ep_waves r)\<rparr>) = Some t" for t
        using that wave_invD(3) [OF inv] by simp
      fix w assume "w \<in> set (ep_waves (r\<lparr>ep_waves := map_wave s ?f (ep_waves r)\<rparr>))"
      then obtain v where v: "v \<in> set (ep_waves r)" "ew_seq v = ew_seq w" "ew_status v = ew_status w" "ew_taskIds v = ew_taskIds w"
        using mem [of w] by auto
      show "ew_status w = Issued \<longleftrightarrow> ep_activeWaveSeq (r\<lparr>ep_waves := map_wave s ?f (ep_waves r)\<rparr>) = Some (ew_seq w)"
        using wave_invD(2) [OF inv v(1)] v by simp
      show "set (ew_taskIds w) \<subseteq> fst ` set (ep_tasks (r\<lparr>ep_waves := map_wave s ?f (ep_waves r)\<rparr>))" if "ew_status w = Wave_Closed"
        using wave_invD(4) [OF inv v(1)] v that by simp
    qed
    moreover have "record_extends r (r\<lparr>ep_waves := map_wave s ?f (ep_waves r)\<rparr>)"
      unfolding eq by (rule record_extends_map) (simp_all add: wave_extends_def)
    ultimately show ?thesis by (simp add: good_step_def)
  qed
  show ?thesis
    using upd good_step_refl [OF inv]
    by (auto simp: record_merge_failures_def Let_def split: option.split prod.split)
qed

lemma keys_fold_set: "fst ` set (fold (\<lambda>x. js_set (k x) (v x)) xs m) = fst ` set m \<union> k ` set xs"
  by (induction xs arbitrary: m) (auto simp: js_dom_set)

lemma good_step_close:
  assumes inv: "wave_inv r" "wave_inv r0" "record_extends r0 r" and snap: "issued_in s r0 w"
    and outs: "map o_taskId (cc_outcomes c) = ew_taskIds w"
  shows "good_step r (applyWaveClose s c now r)"
proof (cases "ep_activeWaveSeq r = Some s \<and> (\<exists>v. find_wave s r = Some v \<and> ew_status v = Issued)")
  case False
  then have "applyWaveClose s c now r = r" by (auto simp: applyWaveClose_def split: option.split)
  then show ?thesis using good_step_refl [OF inv(1)] by simp
next
  case True
  then have act: "ep_activeWaveSeq r = Some s" by simp
  let ?f = "\<lambda>w. w\<lparr>ew_status := Wave_Closed, ew_closedAt := Some now, ew_closeHead := cc_closeHead c,
      ew_undeclared := Some (cc_waveUndeclared c)\<rparr>"
  let ?tasks = "fold (\<lambda>x. js_set (o_taskId x) (remember_previous (ep_tasks r) x)) (cc_outcomes c) (ep_tasks r)"
  have eq: "applyWaveClose s c now r = r\<lparr>ep_activeWaveSeq := None, ep_tasks := ?tasks, ep_waves := map_wave s ?f (ep_waves r)\<rparr>"
    using True by (auto simp: applyWaveClose_def)
  have s: "1 \<le> s" "s \<le> int (length (ep_waves r0))"
    using wave_invD(3) [OF inv(2)] snap by (simp_all add: issued_in_def)
  then have i: "nat (s - 1) < length (ep_waves r0)" by linarith
  have w: "w = ep_waves r0 ! nat (s - 1)" using find_wave_at [OF inv(2) s] snap by (simp add: issued_in_def)
  have ids: "ew_taskIds v = ew_taskIds w" if "v \<in> set (ep_waves r)" "ew_seq v = s" for v
  proof -
    obtain j where j: "j < length (ep_waves r)" "ep_waves r ! j = v" using \<open>v \<in> set (ep_waves r)\<close> by (metis in_set_conv_nth)
    then have "int j + 1 = s" using wave_invD(1) [OF inv(1), of j] that(2) by simp
    then have "j = nat (s - 1)" by simp
    have "wave_extends (ep_waves r0 ! nat (s - 1)) (ep_waves r ! nat (s - 1))"
      using inv(3) i unfolding record_extends_def by blast
    then show ?thesis using j(2) w \<open>j = nat (s - 1)\<close> by (simp add: wave_extends_def)
  qed
  have keys: "fst ` set ?tasks = fst ` set (ep_tasks r) \<union> set (ew_taskIds w)"
    unfolding keys_fold_set outs [symmetric] by simp
  show ?thesis
    unfolding good_step_def eq
  proof (intro conjI wave_inv_settle [OF inv(1) act] record_extends_settle [OF inv(1) act])
    show "fst ` set (ep_tasks r) \<subseteq> fst ` set ?tasks" "fst ` set (ep_tasks r) \<subseteq> fst ` set ?tasks"
      unfolding keys by simp_all
    show "set (ew_taskIds v) \<subseteq> fst ` set ?tasks" if "v \<in> set (ep_waves r)" "ew_seq v = s" for v
      unfolding keys ids [OF that] by simp
  qed (simp_all add: wave_extends_def)
qed

definition good_history :: "epic_record list \<Rightarrow> bool" where
  "good_history h = ((\<forall>r \<in> set h. wave_inv r) \<and> sorted_wrt (\<lambda>new old. record_extends old new) h)"

lemma good_history_step: "good_history (r # h) \<Longrightarrow> good_step r r' \<Longrightarrow> good_history (r' # r # h)"
  unfolding good_history_def good_step_def using record_extends_trans by auto

lemma good_history_snapshot: "good_history (r # h) \<Longrightarrow> r0 \<in> set (r # h) \<Longrightarrow> wave_inv r \<and> wave_inv r0 \<and> record_extends r0 r"
  by (auto simp: good_history_def)

lemma epic_run_good: "epic_run h \<Longrightarrow> good_history h"
proof (induction rule: epic_run.induct)
  case (run_start key token hash planKey digest startedAt isRepo base width isClosed plan)
  have "wave_inv (start_record key token hash planKey digest startedAt isRepo base width isClosed plan)"
    by (rule wave_invI) (simp_all add: start_record_def)
  then show ?case by (simp add: good_history_def)
next
  case (run_issue r h d)
  have "wave_inv r" using good_history_snapshot [OF run_issue.IH] by simp
  then have "good_step r (issue_wave d r)" unfolding good_step_def using wave_inv_issue record_extends_issue by blast
  then show ?case by (rule good_history_step [OF run_issue.IH])
next
  case (run_dangling r h r0 s)
  have "wave_inv r0" using good_history_snapshot [OF run_dangling.IH run_dangling.hyps(2)] by simp
  then have "\<not> dangling s r0" using active_is_issued run_dangling.hyps(3) by (force simp: dangling_def issued_in_def)
  then show ?case using run_dangling.hyps(4) by simp
next
  case (run_abort r h r0 s w moved)
  have "wave_inv r" using good_history_snapshot [OF run_abort.IH run_abort.hyps(2)] by simp
  then show ?case by (rule good_history_step [OF run_abort.IH good_step_abort])
next
  case (run_failures r h r0 s w failures)
  have "wave_inv r" using good_history_snapshot [OF run_failures.IH run_failures.hyps(2)] by simp
  then show ?case by (rule good_history_step [OF run_failures.IH good_step_failures])
next
  case (run_close r h r0 s w c now)
  have "wave_inv r" "wave_inv r0" "record_extends r0 r"
    using good_history_snapshot [OF run_close.IH run_close.hyps(2)] by simp_all
  then show ?case
    by (rule good_history_step [OF run_close.IH good_step_close [OF _ _ _ run_close.hyps(3,4)]])
next
  case (run_sync r h st phase)
  show ?case using good_history_snapshot [OF run_sync.IH, of r]
    by (intro good_history_step [OF run_sync.IH] good_step_same same_waves_simps same_rest_simps) simp
next
  case (run_complete r h phase)
  show ?case using good_history_snapshot [OF run_complete.IH, of r]
    by (intro good_history_step [OF run_complete.IH] good_step_same same_waves_simps same_rest_simps) simp
next
  case (run_review r h phase verdict)
  show ?case using good_history_snapshot [OF run_review.IH, of r]
    by (intro good_history_step [OF run_review.IH] good_step_same same_waves_simps same_rest_simps) simp
next
  case (run_closing r h now co land)
  show ?case using good_history_snapshot [OF run_closing.IH, of r]
    by (intro good_history_step [OF run_closing.IH] good_step_same same_waves_simps same_rest_simps) simp
next
  case (run_branch r h branch)
  show ?case using good_history_snapshot [OF run_branch.IH, of r]
    by (intro good_history_step [OF run_branch.IH] good_step_same same_waves_simps same_rest_simps) simp
next
  case (run_landing r h attempt)
  show ?case using good_history_snapshot [OF run_landing.IH, of r]
    by (intro good_history_step [OF run_landing.IH] good_step_same same_waves_simps same_rest_simps) simp
next
  case (run_repair r h ref repairs)
  show ?case using good_history_snapshot [OF run_repair.IH, of r]
    by (intro good_history_step [OF run_repair.IH] good_step_same same_waves_simps same_rest_simps) simp
qed

end
