(* ===== verification/Gate_Policy_Facts.thy ===== *)
theory Gate_Policy_Facts
  imports Gate_Policy
begin

text \<open>
  What the dispatch gate of an open epic guarantees: it fails closed, it admits only tasks of the
  active wave within their frozen scope, and the coders it lets run at the same time have
  scopes that do not conflict.
\<close>

section \<open>Plan tasks and the active wave\<close>

lemma findPlanTask_id: "findPlanTask plan i = Some t \<Longrightarrow> t_id t = i"
  by (induction plan) (auto split: option.splits dest: find_SomeD)

lemma active_wave_spec:
  "active_wave epic = Some wave \<Longrightarrow>
   wave \<in> set (ep_waves epic) \<and> ew_status wave = Issued \<and> ep_activeWaveSeq epic = Some (ew_seq wave)"
  by (auto simp: active_wave_def split: option.splits dest: find_SomeD)

lemma unresolved_mem:
  "i \<in> set (unresolved_tasks plan wave) \<longleftrightarrow>
     i \<in> set (ew_taskIds wave) \<and> (\<exists>t. findPlanTask plan i = Some t \<and> \<not> isResolved (t_status t))"
  by (auto simp: unresolved_tasks_def split: option.splits)

section \<open>The wave verdict\<close>

lemma wave_verdict_scope:
  "snd (resolve_verdict_scope (epicWaveVerdictOptions files cochange) bindings i) \<longleftrightarrow> js_get_or files i [] \<noteq> []"
  "fst (resolve_verdict_scope (epicWaveVerdictOptions files cochange) bindings i) = js_get_or files i []"
  by (auto simp: resolve_verdict_scope_def epicWaveVerdictOptions_def resolveExplicitScope_def js_get_or_def
           split: option.splits)

lemma wave_verdict_pairs:
  "verdict_pairs (epicWaveVerdictOptions files cochange) = (case cochange of None \<Rightarrow> [] | Some c \<Rightarrow> wcc_pairs c)"
  "verdict_threshold (epicWaveVerdictOptions files cochange) =
     (case cochange of None \<Rightarrow> DEFAULT_PARALLEL_COCHANGE_THRESHOLD | Some c \<Rightarrow> wcc_threshold c)"
  by (auto simp: verdict_pairs_def verdict_threshold_def epicWaveVerdictOptions_def or_empty_def split: option.splits)

text \<open>Two frozen scopes conflict under the wave's recorded co-change signal.\<close>

definition frozen_conflict ::
  "runtime \<Rightarrow> (string, string list) js_map \<Rightarrow> wave_cochange option \<Rightarrow> string \<Rightarrow> string \<Rightarrow> bool" where
  "frozen_conflict rt files cochange a b =
     pv_conflict (epicPairConflict rt (js_get_or files a []) (js_get_or files b [])
       (case cochange of None \<Rightarrow> [] | Some c \<Rightarrow> wcc_pairs c)
       (case cochange of None \<Rightarrow> DEFAULT_PARALLEL_COCHANGE_THRESHOLD | Some c \<Rightarrow> wcc_threshold c))"

lemma epicPairConflict_swap:
  "pv_conflict (epicPairConflict rt sa sb pairs th) = pv_conflict (epicPairConflict rt sb sa pairs th)"
proof -
  let ?a = "map (normalizePath rt) sa" and ?b = "map (normalizePath rt) sb"
  have "pathOverlap rt ?a ?b = pathOverlap rt ?b ?a" using path_overlap.overlap_sym by blast
  moreover have "cross_couple ?a ?b = cross_couple ?b ?a" by (rule ext) (rule cross_couple_sym)
  ultimately show ?thesis by (simp add: epicPairConflict_iff)
qed

lemma frozen_conflict_sym: "frozen_conflict rt files cc a b = frozen_conflict rt files cc b a"
  unfolding frozen_conflict_def by (rule epicPairConflict_swap)

lemma wave_verdict_iff:
  "(\<exists>v. computeEpicWaveVerdict rt files cochange taskIds = Inr v \<and> v_verdict v = All_Disjoint) \<longleftrightarrow>
     length taskIds \<le> MAX_PARALLEL_VERDICT_TASKS \<and> (\<forall>a \<in> set taskIds. js_get_or files a [] \<noteq> []) \<and>
     (\<forall>(a, b) \<in> set (index_pairs taskIds). \<not> frozen_conflict rt files cochange a b)"
  unfolding computeEpicWaveVerdict_def verdict_disjoint_iff wave_verdict_scope wave_verdict_pairs frozen_conflict_def ..

lemma wave_verdict_disjoint:
  assumes "computeEpicWaveVerdict rt files cochange taskIds = Inr v" "v_verdict v = All_Disjoint"
    and "a \<in> set taskIds" "b \<in> set taskIds" "a \<noteq> b"
  shows "\<not> frozen_conflict rt files cochange a b"
proof -
  have "\<forall>(a, b) \<in> set (index_pairs taskIds). \<not> frozen_conflict rt files cochange a b"
    using wave_verdict_iff [of rt files cochange taskIds] assms(1,2) by blast
  then show ?thesis
    using index_pairs_total [OF assms(3-5)] frozen_conflict_sym by blast
qed

section \<open>Admission\<close>

lemma dispatch_in_wave_Allow:
  assumes "dispatch_in_wave rt plan epic wave taskId live = Allow adm"
  shows "taskId \<in> set (ew_taskIds wave)"
    and "\<forall>f \<in> set (or_empty live). scopeContains rt (js_get_or (ew_files wave) taskId []) f"
    and "ad_isolate adm \<longleftrightarrow> ep_isRepo epic \<and> ep_isolation epic = Worktree"
    and "ad_maxConcurrent adm = max 1 (ep_maxParallel epic)"
    and "ad_parallel adm \<longleftrightarrow> ad_isolate adm \<and> taskId \<in> set (unresolved_tasks plan wave) \<and>
           length (unresolved_tasks plan wave) \<ge> 2 \<and>
           (\<exists>v. computeEpicWaveVerdict rt (ew_files wave) (ew_cochange wave) (unresolved_tasks plan wave) = Inr v \<and>
                v_verdict v = All_Disjoint)"
  using assms by (auto simp: dispatch_in_wave_def Let_def filter_empty_conv split: if_splits sum.splits)

lemma policy_Allow:
  assumes "resolveEpicDispatchPolicy rt env plan incoming live = Some (Allow adm)"
  shows "\<exists>epic wave i. ge_openEpic env = Inr (Some epic) \<and> ge_branchOk env epic \<and>
    incoming = Some i \<and> findPlanTask plan (js_trim i) \<noteq> None \<and> active_wave epic = Some wave \<and>
    dispatch_in_wave rt plan epic wave (js_trim i) live = Allow adm"
  using assms
  by (cases incoming)
     (auto simp: resolveEpicDispatchPolicy_def Let_def split: if_splits sum.splits option.splits)

text \<open>The gate admits a coder only for a task of the active wave and only inside its frozen
  scope: when a dispatch is allowed, an epic is open on the right branch, its active wave is
  issued, the task is a task of the plan and of that wave, and every path of the coder's live scope lies in the
  scope frozen for the task; and it may run concurrently only in an isolated worktree.\<close>

theorem dispatch_only_in_active_wave:
  assumes "resolveEpicDispatchPolicy rt env plan incoming live = Some (Allow adm)"
  shows "\<exists>epic wave i. ge_openEpic env = Inr (Some epic) \<and> ge_branchOk env epic \<and>
    wave \<in> set (ep_waves epic) \<and> ew_status wave = Issued \<and> ep_activeWaveSeq epic = Some (ew_seq wave) \<and>
    incoming = Some i \<and> js_trim i \<in> set (ew_taskIds wave) \<and>
    (\<exists>t. findPlanTask plan (js_trim i) = Some t) \<and>
    (\<forall>f \<in> set (or_empty live). scopeContains rt (js_get_or (ew_files wave) (js_trim i) []) f) \<and>
    1 \<le> ad_maxConcurrent adm \<and>
    (ad_parallel adm \<longrightarrow> ad_isolate adm \<and> ep_isRepo epic \<and> ep_isolation epic = Worktree)"
proof -
  from policy_Allow [OF assms] obtain epic wave i where p: "ge_openEpic env = Inr (Some epic)" "ge_branchOk env epic"
    "incoming = Some i" "findPlanTask plan (js_trim i) \<noteq> None" "active_wave epic = Some wave"
    "dispatch_in_wave rt plan epic wave (js_trim i) live = Allow adm" by blast
  note d = dispatch_in_wave_Allow [OF p(6)]
  show ?thesis
    using p(1-4) active_wave_spec [OF p(5)] d
    by (intro exI [of _ epic] exI [of _ wave] exI [of _ i]) auto
qed

text \<open>C8: Concurrent coders never have conflicting scopes: when the gate allows two different tasks to
  run in parallel, in the same state of the epic and of the plan, their frozen scopes do not conflict, by path or by
  recorded co-change.\<close>

theorem parallel_coders_disjoint:
  assumes "resolveEpicDispatchPolicy rt env plan (Some a) liveA = Some (Allow admA)" "ad_parallel admA"
    and "resolveEpicDispatchPolicy rt env plan (Some b) liveB = Some (Allow admB)" "ad_parallel admB"
    and "js_trim a \<noteq> js_trim b" "ge_openEpic env = Inr (Some epic)" "active_wave epic = Some wave"
  shows "\<not> pv_conflict (epicPairConflict rt
      (js_get_or (ew_files wave) (js_trim a) []) (js_get_or (ew_files wave) (js_trim b) [])
      (case ew_cochange wave of None \<Rightarrow> [] | Some c \<Rightarrow> wcc_pairs c)
      (case ew_cochange wave of None \<Rightarrow> DEFAULT_PARALLEL_COCHANGE_THRESHOLD | Some c \<Rightarrow> wcc_threshold c))"
proof -
  have "js_trim a \<in> set (unresolved_tasks plan wave)" "js_trim b \<in> set (unresolved_tasks plan wave)"
    "\<exists>v. computeEpicWaveVerdict rt (ew_files wave) (ew_cochange wave) (unresolved_tasks plan wave) = Inr v \<and>
         v_verdict v = All_Disjoint"
    using policy_Allow [OF assms(1)] policy_Allow [OF assms(3)] assms(2,4,6,7) dispatch_in_wave_Allow(5)
    by fastforce+
  then show ?thesis
    using wave_verdict_disjoint assms(5) unfolding frozen_conflict_def by blast
qed

text \<open>The gate fails closed.  It stays out of a dispatch exactly when there is no sentinel, Epic
  is off in the configuration, or no epic is open and none is closing; an unreadable state,
  a close in progress, the wrong branch, an unknown task and a missing wave are all refused.\<close>

theorem gate_fails_closed:
  "(resolveEpicDispatchPolicy rt env plan incoming live = None \<longleftrightarrow>
      \<not> ge_sentinelExists env \<or> \<not> ge_configEnabled env \<or>
      (ge_openEpic env = Inr None \<and> ge_closingEpic env = Inr None)) \<and>
   (ge_sentinelExists env \<and> ge_configEnabled env \<longrightarrow>
      (ge_openEpic env = Inl () \<or> (ge_openEpic env = Inr None \<and> ge_closingEpic env = Inl ()) \<longrightarrow>
         resolveEpicDispatchPolicy rt env plan incoming live = Some (Reject EPIC_STATE_UNREADABLE)) \<and>
      (\<forall>k. ge_openEpic env = Inr None \<and> ge_closingEpic env = Inr (Some k) \<longrightarrow>
         resolveEpicDispatchPolicy rt env plan incoming live = Some (Reject EPIC_CLOSING)) \<and>
      (\<forall>epic. ge_openEpic env = Inr (Some epic) \<and> active_wave epic = None \<longrightarrow>
         (\<exists>code. resolveEpicDispatchPolicy rt env plan incoming live = Some (Reject code))))"
  by (auto simp: resolveEpicDispatchPolicy_def Let_def split: sum.splits option.splits)

section \<open>Attribution\<close>

lemma filter_single: "distinct xs \<Longrightarrow> filter P xs = [x] \<Longrightarrow> y \<in> set xs \<Longrightarrow> P y \<Longrightarrow> y = x"
  using set_filter [of P xs] by auto

text \<open>A gate run in a wave of several tasks is credited to a task only when that task alone owns
  the checked files: some file was checked, every checked file lies in the task's frozen scope, and
  every other task of the wave misses at least one of them.\<close>

theorem attribution_unique_owner:
  assumes "resolveEpicGateTaskAttribution rt env directory files = Attr_Task i"
    and "ge_openEpic env = Inr (Some epic)" "active_wave epic = Some wave" "distinct (ew_taskIds wave)"
    and "checked = filter (\<lambda>file. js_trim file \<noteq> []) (or_empty files)"
  shows "i \<in> set (ew_taskIds wave) \<and> checked \<noteq> [] \<and>
    (\<forall>f \<in> set checked. scopeContains rt (js_get_or (ew_files wave) i []) (relative_to rt directory f)) \<and>
    (\<forall>j \<in> set (ew_taskIds wave) - {i}. \<exists>f \<in> set checked.
       \<not> scopeContains rt (js_get_or (ew_files wave) j []) (relative_to rt directory f))"
proof -
  let ?owns = "\<lambda>i. list_all (\<lambda>file. scopeContains rt (js_get_or (ew_files wave) i []) file) (map (relative_to rt directory) checked)"
  have r: "checked \<noteq> []" "length (filter ?owns (ew_taskIds wave)) = 1" "i = filter ?owns (ew_taskIds wave) ! 0"
    using assms(1-3,5) by (auto simp: resolveEpicGateTaskAttribution_def Let_def split: if_splits)
  then have f: "filter ?owns (ew_taskIds wave) = [i]"
    by (cases "filter ?owns (ew_taskIds wave)") auto
  then have "i \<in> set (filter ?owns (ew_taskIds wave))" by simp
  then have "i \<in> set (ew_taskIds wave)" "?owns i" by auto
  moreover have "\<not> ?owns j" if "j \<in> set (ew_taskIds wave) - {i}" for j
    using filter_single [OF assms(4) f] that by blast
  ultimately show ?thesis using r(1) by (auto simp: list_all_iff)
qed

text \<open>A PR-feedback coder never overlaps the running wave: when the check finds no conflict while a
  wave is active, none of the coder's declared files lies in the frozen scope of a task of the
  wave, and no frozen path lies at or below a declared one.\<close>

theorem pr_feedback_no_overlap:
  assumes "resolveEpicPrFeedbackConflict rt env directory (Some declared) = None"
    and "ge_sentinelExists env" "ge_openEpic env = Inr (Some epic)" "active_wave epic = Some wave"
    and "f \<in> set declared" "js_trim f \<noteq> []" "i \<in> set (ew_taskIds wave)"
  shows "\<not> scopeContains rt (js_get_or (ew_files wave) i []) (relative_to rt directory f) \<and>
    (\<forall>entry \<in> set (js_get_or (ew_files wave) i []). \<not> scopeContains rt [relative_to rt directory f] entry)"
proof -
  have "\<not> feedback_overlaps rt (map (relative_to rt directory) (filter (\<lambda>file. js_trim file \<noteq> []) declared))
      (js_get_or (ew_files wave) i [])"
    using assms(1-4,7) by (auto simp: resolveEpicPrFeedbackConflict_def Let_def or_empty_def filter_empty_conv split: if_splits)
  then show ?thesis using assms(5,6) by (auto simp: feedback_overlaps_def list_ex_iff)
qed

section \<open>An evaluated epic\<close>

text \<open>A repository epic whose first wave runs tasks \<open>a\<close> and \<open>b\<close> on one file each.\<close>

abbreviation gate_rt :: runtime where
  "gate_rt \<equiv> posix_runtime ''/w''"

definition gate_task :: "string \<Rightarrow> plan_task" where
  "gate_task i = \<lparr>t_id = i, t_description = [], t_status = In_Progress, t_depends = None, t_files_touched = None\<rparr>"

definition gate_plan :: "plan_phase list" where
  "gate_plan = [\<lparr>ph_id = 1, ph_name = [], ph_tasks = [gate_task ''a'', gate_task ''b'']\<rparr>]"

definition gate_draft :: wave_draft where
  "gate_draft =
     \<lparr>wd_phase = 1, wd_kind = Wave_Parallel, wd_taskIds = [''a'', ''b''],
      wd_files = [(''a'', [''src/a'']), (''b'', [''src/b''])], wd_cochange = None,
      wd_components = \<lparr>wc_byTask = [], wc_modes = [], wc_density = [], wc_exclusive = [], wc_threshold = 1, wc_truncated = False\<rparr>,
      wd_baseHead = None, wd_issuedAt = ''t''\<rparr>"

definition gate_epic :: epic_record where
  "gate_epic = issue_wave gate_draft
     (start_record ''k'' ''tok'' ''h'' ''p'' None ''t'' True None 4 (\<lambda>_. False) gate_plan)"

definition gate_env :: gate_environment where
  "gate_env = \<lparr>ge_sentinelExists = True, ge_configEnabled = True, ge_openEpic = Inr (Some gate_epic),
               ge_closingEpic = Inr None, ge_branchOk = (\<lambda>_. True)\<rparr>"

abbreviation gate_wave :: epic_wave where
  "gate_wave \<equiv> draft_wave 1 gate_draft"

lemma gate_epic_simps [simp]:
  "active_wave gate_epic = Some gate_wave" "ge_openEpic gate_env = Inr (Some gate_epic)" "ge_sentinelExists gate_env"
  "ep_waves gate_epic = [gate_wave]" "ew_taskIds gate_wave = [''a'', ''b'']" "ew_cochange gate_wave = None"
  "js_get_or (ew_files gate_wave) ''a'' [] = [''src/a'']" "js_get_or (ew_files gate_wave) ''b'' [] = [''src/b'']"
  by (simp_all add: active_wave_def gate_epic_def gate_env_def issue_wave_def start_record_def next_seq_def draft_wave_def
        gate_draft_def js_get_or_def)

lemma gate_admits:
  "resolveEpicDispatchPolicy gate_rt gate_env gate_plan (Some ''a'') (Some [''src/a'']) =
     Some (Allow \<lparr>ad_parallel = True, ad_isolate = True, ad_maxConcurrent = 4\<rparr>)"
  "resolveEpicDispatchPolicy gate_rt gate_env gate_plan (Some ''b'') None =
     Some (Allow \<lparr>ad_parallel = True, ad_isolate = True, ad_maxConcurrent = 4\<rparr>)"
  by code_simp+

lemma gate_trims [simp]: "js_trim ''a'' = ''a''" "js_trim ''b'' = ''b''"
  by code_simp+

theorem dispatch_only_in_active_wave_witness:
  "ew_status gate_wave = Issued \<and> ''a'' \<in> set (ew_taskIds gate_wave) \<and>
   scopeContains gate_rt [''src/a''] ''src/a''"
  using dispatch_only_in_active_wave [OF gate_admits(1)] by (auto simp: or_empty_def)

theorem parallel_coders_disjoint_witness:
  "\<not> pv_conflict (epicPairConflict gate_rt [''src/a''] [''src/b''] [] DEFAULT_PARALLEL_COCHANGE_THRESHOLD)"
  using parallel_coders_disjoint [OF gate_admits(1) _ gate_admits(2), of gate_epic gate_wave] by simp

theorem gate_fails_closed_witness:
  "resolveEpicDispatchPolicy gate_rt (gate_env\<lparr>ge_openEpic := Inl ()\<rparr>) gate_plan (Some ''a'') None =
     Some (Reject EPIC_STATE_UNREADABLE)"
proof -
  have "ge_configEnabled gate_env" by (simp add: gate_env_def)
  then show ?thesis
    using gate_fails_closed [of gate_rt "gate_env\<lparr>ge_openEpic := Inl ()\<rparr>" gate_plan "Some ''a''" None] by simp
qed

theorem attribution_unique_owner_witness:
  "\<not> scopeContains gate_rt [''src/b''] (relative_to gate_rt ''/w'' ''src/a'')"
proof -
  have "resolveEpicGateTaskAttribution gate_rt gate_env ''/w'' (Some [''src/a'']) = Attr_Task ''a''" by code_simp
  moreover have "filter (\<lambda>file. js_trim file \<noteq> []) (or_empty (Some [''src/a''])) = [''src/a'']" by code_simp
  ultimately show ?thesis
    using attribution_unique_owner [of gate_rt gate_env "''/w''" "Some [''src/a'']" "''a''" gate_epic gate_wave
        "[''src/a'']"] by simp
qed

theorem pr_feedback_no_overlap_witness:
  "\<not> scopeContains gate_rt [''src/b''] (relative_to gate_rt ''/w'' ''docs/x'')"
proof -
  have "resolveEpicPrFeedbackConflict gate_rt gate_env ''/w'' (Some [''docs/x'']) = None" by code_simp
  moreover have "js_trim ''docs/x'' \<noteq> []" by code_simp
  ultimately show ?thesis
    using pr_feedback_no_overlap [of gate_rt gate_env "''/w''" "[''docs/x'']" gate_epic gate_wave "''docs/x''" "''b''"] by simp
qed

end
