(* ===== verification/Transition.thy ===== *)
theory Transition
  imports Main
begin

text \<open>
  The contracts the state machines of the program share: a step function that keeps an invariant
  (\<open>invariant_machine\<close>), and one that only ever moves up a preorder (\<open>monotone_machine\<close>).  A
  machine is a function from an input and a state to the next state; \<open>run\<close> folds it over the
  inputs in the order they arrive.  Where the invariant needs inputs of a certain form the contract is
  \<open>guarded_machine\<close>, of which \<open>invariant_machine\<close> is the case without a guard.
\<close>

locale guarded_machine =
  fixes step :: "'i \<Rightarrow> 's \<Rightarrow> 's" and ok :: "'i \<Rightarrow> bool" and inv :: "'s \<Rightarrow> bool"
  assumes guarded_step: "ok i \<Longrightarrow> inv s \<Longrightarrow> inv (step i s)"
begin

lemma guarded_run: "list_all ok is \<Longrightarrow> inv s \<Longrightarrow> inv (fold step is s)"
  by (induction "is" arbitrary: s) (simp_all add: guarded_step)

end

locale invariant_machine =
  fixes step :: "'i \<Rightarrow> 's \<Rightarrow> 's" and inv :: "'s \<Rightarrow> bool"
  assumes inv_step: "inv s \<Longrightarrow> inv (step i s)"
begin

lemma inv_run: "inv s \<Longrightarrow> inv (fold step is s)"
  by (induction "is" arbitrary: s) (simp_all add: inv_step)

lemma inv_prefix: "inv s \<Longrightarrow> inv (fold step (take n is) s)"
  by (rule inv_run)

end

sublocale invariant_machine \<subseteq> guarded_machine step "\<lambda>_. True" inv
  by unfold_locales (rule inv_step)

locale monotone_machine =
  fixes step :: "'i \<Rightarrow> 's \<Rightarrow> 's" and le :: "'s \<Rightarrow> 's \<Rightarrow> bool"
  assumes le_refl: "le s s"
    and le_trans: "le s t \<Longrightarrow> le t u \<Longrightarrow> le s u"
    and le_step: "le s (step i s)"
begin

lemma le_run: "le s (fold step is s)"
proof (induction "is" arbitrary: s)
  case Nil
  then show ?case by (simp add: le_refl)
next
  case (Cons i "is")
  then show ?case using le_trans [OF le_step Cons.IH] by simp
qed

lemma le_append: "le (fold step is s) (fold step (is @ js) s)"
  using le_run [of "fold step is s" js] by simp

end

end
