(* ===== verification/Epic_Properties.thy ===== *)
theory Epic_Properties
  imports Epic_Run Gate_Policy_Facts Transition
begin

text \<open>
  The properties of the epic record: its waves and pointers in every reachable state, what no
  later writer can undo, the order in which phases complete, and the revision-checked commit.
\<close>

section \<open>Reachable records\<close>

lemma reachable_inv: "epic_run (r # h) \<Longrightarrow> wave_inv r"
  using epic_run_good good_history_def by fastforce

lemma reachable_extends:
  assumes "epic_run h" "i < j" "j < length h"
  shows "record_extends (h ! j) (h ! i)"
  using epic_run_good [OF assms(1)] assms(2,3) by (simp add: good_history_def sorted_wrt_iff_nth_less)

lemma issued_at_most_once:
  assumes "wave_inv r"
  shows "length (filter (\<lambda>w. ew_status w = Issued) (ep_waves r)) \<le> 1"
proof -
  let ?ws = "ep_waves r"
  have "card {i. i < length ?ws \<and> ew_status (?ws ! i) = Issued} \<le> 1"
  proof -
    have "i = j" if "i < length ?ws" "ew_status (?ws ! i) = Issued" "j < length ?ws" "ew_status (?ws ! j) = Issued" for i j
      using wave_invD(2) [OF assms nth_mem [OF that(1)]] wave_invD(2) [OF assms nth_mem [OF that(3)]] that
        wave_inv_seq_inj [OF assms that(1,3)] by simp
    then show ?thesis
      using card_le_Suc0_iff_eq [of "{i. i < length ?ws \<and> ew_status (?ws ! i) = Issued}"] by simp
  qed
  then show ?thesis by (simp add: length_filter_conv_card)
qed

text \<open>C6: In every record any interleaving of the epic's writers can commit, at most one wave is
  issued, the active-wave pointer names exactly that wave (no dangling pointer is reachable), waves are
  numbered 1, 2, \dots in the order they were issued, and every task of a closed wave has an outcome.\<close>

theorem one_wave_at_a_time:
  assumes "epic_run (r # h)"
  shows "length (filter (\<lambda>w. ew_status w = Issued) (ep_waves r)) \<le> 1 \<and>
    map ew_seq (ep_waves r) = [1..int (length (ep_waves r))] \<and>
    (\<forall>s. ep_activeWaveSeq r = Some s \<longleftrightarrow> (\<exists>w. find_wave s r = Some w \<and> ew_status w = Issued)) \<and>
    (\<forall>w \<in> set (ep_waves r). ew_status w = Wave_Closed \<longrightarrow> set (ew_taskIds w) \<subseteq> fst ` set (ep_tasks r))"
proof -
  note inv = reachable_inv [OF assms]
  have "map ew_seq (ep_waves r) = [1..int (length (ep_waves r))]"
    by (rule nth_equalityI) (use wave_invD(1) [OF inv] in \<open>simp_all\<close>)
  moreover have "ep_activeWaveSeq r = Some s \<longleftrightarrow> (\<exists>w. find_wave s r = Some w \<and> ew_status w = Issued)" for s
  proof
    assume "ep_activeWaveSeq r = Some s"
    then show "\<exists>w. find_wave s r = Some w \<and> ew_status w = Issued"
      using active_is_issued [OF inv] by (auto simp: issued_in_def)
  next
    assume "\<exists>w. find_wave s r = Some w \<and> ew_status w = Issued"
    then obtain w where "w \<in> set (ep_waves r)" "ew_seq w = s" "ew_status w = Issued"
      unfolding find_wave_def by (auto dest: find_SomeD)
    then show "ep_activeWaveSeq r = Some s" using wave_invD(2) [OF inv] by blast
  qed
  ultimately show ?thesis using issued_at_most_once [OF inv] wave_invD(4) [OF inv] by blast
qed

text \<open>C13: What a wave was issued with is frozen.  Whatever is committed afterwards, by any writer and on
  the basis of any earlier reading of the record, each wave keeps its place, its tasks, their frozen files and
  its co-change signal, and a closed or aborted wave stays closed or aborted.\<close>

theorem waves_are_frozen:
  assumes "epic_run h" "i < j" "j < length h" "n < length (ep_waves (h ! j))"
  shows "n < length (ep_waves (h ! i)) \<and>
    ew_taskIds (ep_waves (h ! i) ! n) = ew_taskIds (ep_waves (h ! j) ! n) \<and>
    ew_files (ep_waves (h ! i) ! n) = ew_files (ep_waves (h ! j) ! n) \<and>
    ew_cochange (ep_waves (h ! i) ! n) = ew_cochange (ep_waves (h ! j) ! n) \<and>
    (ew_status (ep_waves (h ! j) ! n) \<noteq> Issued \<longrightarrow>
       ew_status (ep_waves (h ! i) ! n) = ew_status (ep_waves (h ! j) ! n))"
proof -
  have ext: "record_extends (h ! j) (h ! i)" by (rule reachable_extends [OF assms(1-3)])
  then have "wave_extends (ep_waves (h ! j) ! n) (ep_waves (h ! i) ! n)" "length (ep_waves (h ! j)) \<le> length (ep_waves (h ! i))"
    using assms(4) by (simp_all add: record_extends_def)
  then show ?thesis using assms(4) by (simp add: wave_extends_def)
qed

text \<open>Progress is never undone: a recorded outcome is never dropped, a complete phase stays
  complete, a closing epic never reopens, and the identity of the epic never changes.\<close>

theorem epic_progress_is_kept:
  assumes "epic_run h" "i < j" "j < length h"
  shows "fst ` set (ep_tasks (h ! j)) \<subseteq> fst ` set (ep_tasks (h ! i)) \<and>
    (\<forall>p isClosed. isEpicPhaseDone (h ! j) isClosed p \<longrightarrow> isEpicPhaseDone (h ! i) isClosed p) \<and>
    (ep_status (h ! j) = Epic_Closing \<longrightarrow> ep_status (h ! i) = Epic_Closing) \<and>
    ep_epicKey (h ! i) = ep_epicKey (h ! j) \<and> ep_token (h ! i) = ep_token (h ! j) \<and>
    ep_maxParallel (h ! i) = ep_maxParallel (h ! j) \<and> ep_isolation (h ! i) = ep_isolation (h ! j)"
proof -
  have ext: "record_extends (h ! j) (h ! i)" by (rule reachable_extends [OF assms])
  have "isEpicPhaseDone (h ! i) isClosed p" if "isEpicPhaseDone (h ! j) isClosed p" for p isClosed
    using that ext unfolding isEpicPhaseDone_def record_extends_def by blast
  then show ?thesis using ext by (simp add: record_extends_def)
qed

section \<open>The commit\<close>

definition conflicting :: "(nat \<Rightarrow> update_attempt) \<Rightarrow> nat \<Rightarrow> bool" where
  "conflicting store k = (ua_write (store k) \<in> {Revision_Conflict, Stale_Generation})"

definition commits ::
  "(epic_record \<Rightarrow> bool) \<Rightarrow> (epic_record \<Rightarrow> epic_record) \<Rightarrow> string option \<Rightarrow> update_attempt \<Rightarrow> epic_record \<Rightarrow> epic_record \<Rightarrow> bool" where
  "commits tooLarge mutate tok a row new =
     (ua_row a = Row row \<and> (\<forall>t. tok = Some t \<longrightarrow> ep_token row = t) \<and> ua_write a = Applied \<and>
            new = mutate row \<and> \<not> tooLarge new)"

lemma update_loop_commits:
  "update_loop tooLarge mutate tok n store k = Inr (Some (row, new)) \<Longrightarrow>
   \<exists>j. k \<le> j \<and> j < k + n \<and> (\<forall>i. k \<le> i \<and> i < j \<longrightarrow> conflicting store i) \<and> commits tooLarge mutate tok (store j) row new"
proof (induction n arbitrary: k)
  case 0
  then show ?case by simp
next
  case (Suc n)
  obtain r where row: "ua_row (store k) = Row r" "\<forall>t. tok = Some t \<longrightarrow> ep_token r = t" "\<not> tooLarge (mutate r)"
    using Suc.prems by (auto simp: Let_def split: row_read.splits option.splits if_splits)
  show ?case
  proof (cases "ua_write (store k) = Applied")
    case True
    then have "commits tooLarge mutate tok (store k) row new"
      using Suc.prems row by (auto simp: Let_def commits_def split: row_read.splits option.splits if_splits)
    then show ?thesis by (intro exI [of _ k]) auto
  next
    case False
    then have c: "conflicting store k" and rest: "update_loop tooLarge mutate tok n store (Suc k) = Inr (Some (row, new))"
      using Suc.prems row by (auto simp: Let_def conflicting_def split: row_read.splits option.splits if_splits write_result.splits)
    from Suc.IH [OF rest] obtain j where j: "Suc k \<le> j" "j < Suc k + n"
      "\<forall>i. Suc k \<le> i \<and> i < j \<longrightarrow> conflicting store i" "commits tooLarge mutate tok (store j) row new" by blast
    have "conflicting store i" if "k \<le> i" "i < j" for i
      using that c j(3) by (cases "i = k") auto
    then show ?thesis using j by (intro exI [of _ j]) auto
  qed
qed

lemma update_loop_contention:
  "update_loop tooLarge mutate tok n store k = Inl Update_Contention \<Longrightarrow> \<forall>j. k \<le> j \<and> j < k + n \<longrightarrow> conflicting store j"
proof (induction n arbitrary: k)
  case 0
  then show ?case by auto
next
  case (Suc n)
  from Suc.prems have c: "conflicting store k" and rest: "update_loop tooLarge mutate tok n store (Suc k) = Inl Update_Contention"
    by (auto simp: Let_def conflicting_def split: row_read.splits option.splits if_splits write_result.splits)
  show ?case
  proof (intro allI impI)
    fix j assume "k \<le> j \<and> j < k + Suc n"
    then show "conflicting store j" using c Suc.IH [OF rest] by (cases "j = k") auto
  qed
qed

text \<open>The revision-checked commit: when \<open>updateEpicRecord\<close> returns a record, that record is the
  mutation of the row it read in the one attempt whose write was applied, the row carries the expected
  token, it is not too large, and every earlier attempt (at most four) lost a race; contention is reported
  only after five lost races.\<close>

theorem updateEpicRecord_commits:
  "(updateEpicRecord tooLarge store mutate tok = Inr (Some (row, new)) \<longrightarrow>
      (\<exists>k < MAX_RECORD_UPDATE_ATTEMPTS. (ua_row (store k) = Row row \<and> new = mutate row \<and>
         ua_write (store k) = Applied \<and> \<not> tooLarge new \<and> (\<forall>t. tok = Some t \<longrightarrow> ep_token row = t)) \<and>
         (\<forall>i < k. ua_write (store i) \<in> {Revision_Conflict, Stale_Generation}))) \<and>
   (updateEpicRecord tooLarge store mutate tok = Inl Update_Contention \<longrightarrow>
      (\<forall>i < MAX_RECORD_UPDATE_ATTEMPTS. ua_write (store i) \<in> {Revision_Conflict, Stale_Generation}))"
proof (intro conjI impI)
  assume "updateEpicRecord tooLarge store mutate tok = Inr (Some (row, new))"
  then obtain k where k: "k < MAX_RECORD_UPDATE_ATTEMPTS" "\<forall>i < k. conflicting store i"
    "commits tooLarge mutate tok (store k) row new"
    using update_loop_commits [of tooLarge mutate tok MAX_RECORD_UPDATE_ATTEMPTS store 0 row new]
    unfolding updateEpicRecord_def by auto
  have "ua_row (store k) = Row row" "\<forall>t. tok = Some t \<longrightarrow> ep_token row = t" "ua_write (store k) = Applied"
    "new = mutate row" "\<not> tooLarge new" using k(3) unfolding commits_def by blast+
  moreover have "\<forall>i < k. ua_write (store i) \<in> {Revision_Conflict, Stale_Generation}"
    using k(2) unfolding conflicting_def by blast
  ultimately show "\<exists>k < MAX_RECORD_UPDATE_ATTEMPTS. (ua_row (store k) = Row row \<and> new = mutate row \<and>
      ua_write (store k) = Applied \<and> \<not> tooLarge new \<and> (\<forall>t. tok = Some t \<longrightarrow> ep_token row = t)) \<and>
      (\<forall>i < k. ua_write (store i) \<in> {Revision_Conflict, Stale_Generation})"
    using k(1) by (intro exI [of _ k]) blast
next
  assume "updateEpicRecord tooLarge store mutate tok = Inl Update_Contention"
  then show "\<forall>i < MAX_RECORD_UPDATE_ATTEMPTS. ua_write (store i) \<in> {Revision_Conflict, Stale_Generation}"
    using update_loop_contention [of tooLarge mutate tok MAX_RECORD_UPDATE_ATTEMPTS store 0]
    unfolding updateEpicRecord_def conflicting_def by simp
qed

section \<open>Phases complete in order\<close>

lemma js_get_complete_phase: "js_get (ep_phases (complete_phase p r)) q \<noteq> None \<longleftrightarrow> q = p \<or> js_get (ep_phases r) q \<noteq> None"
  by (auto simp: complete_phase_def js_get_set split: option.splits)

lemma phase_done_complete: "isEpicPhaseDone (complete_phase p r) isClosed q \<longleftrightarrow> q = p \<or> isEpicPhaseDone r isClosed q"
  by (auto simp: complete_phase_def isEpicPhaseDone_def recorded_complete_def js_get_set split: option.splits)

lemma find_first: "List.find P xs = Some x \<longleftrightarrow> (\<exists>ys zs. xs = ys @ x # zs \<and> P x \<and> (\<forall>y \<in> set ys. \<not> P y))"
proof (induction xs)
  case Nil
  then show ?case by simp
next
  case (Cons a xs)
  show ?case
  proof (cases "P a")
    case True
    show ?thesis
    proof
      assume "List.find P (a # xs) = Some x"
      then have "a # xs = [] @ x # xs \<and> P x" using True by simp
      then show "\<exists>ys zs. a # xs = ys @ x # zs \<and> P x \<and> (\<forall>y \<in> set ys. \<not> P y)" by fastforce
    next
      assume "\<exists>ys zs. a # xs = ys @ x # zs \<and> P x \<and> (\<forall>y \<in> set ys. \<not> P y)"
      then obtain ys zs where "a # xs = ys @ x # zs" "\<forall>y \<in> set ys. \<not> P y" by blast
      then show "List.find P (a # xs) = Some x" using True by (cases ys) auto
    qed
  next
    case False
    have "(\<exists>ys zs. a # xs = ys @ x # zs \<and> P x \<and> (\<forall>y \<in> set ys. \<not> P y)) \<longleftrightarrow>
        (\<exists>ys zs. xs = ys @ x # zs \<and> P x \<and> (\<forall>y \<in> set ys. \<not> P y))" (is "?l \<longleftrightarrow> ?r")
    proof
      assume ?l
      then obtain ys zs where e: "a # xs = ys @ x # zs" "P x" "\<forall>y \<in> set ys. \<not> P y" by blast
      then obtain ys' where "ys = a # ys'" using False by (cases ys) auto
      then show ?r using e by auto
    next
      assume ?r
      then obtain ys zs where e: "xs = ys @ x # zs" "P x" "\<forall>y \<in> set ys. \<not> P y" by blast
      then have "a # xs = (a # ys) @ x # zs" by simp
      then show ?l using e False by (metis set_ConsD)
    qed
    then show ?thesis using False Cons.IH by simp
  qed
qed

text \<open>Phases complete strictly in plan order, whatever is committed between reading the record and
  recording the completion: a phase is recorded complete only when every phase before it in the plan is
  already done; it is then done, nothing else of the row it is recorded in changes, and the epic's current phase
  is one of the phases after it.\<close>

theorem phases_complete_in_order:
  assumes "markEpicPhaseComplete tooLarge store (Some epic) isClosed (Some phases) p = Inr (Phase_Recorded epic')"
    and "\<And>k row. ua_row (store k) = Row row \<Longrightarrow> record_extends epic row"
  shows "\<exists>before after k row. phases = before @ p # after \<and>
    (\<forall>q \<in> set before. isEpicPhaseDone epic isClosed q) \<and> \<not> isEpicPhaseDone epic isClosed p \<and>
    ua_row (store k) = Row row \<and> epic' = row\<lparr>ep_phases := ep_phases epic'\<rparr> \<and>
    (\<forall>q. isEpicPhaseDone epic' isClosed q \<longleftrightarrow> q = p \<or> isEpicPhaseDone row isClosed q) \<and>
    epicCurrentPhase epic' isClosed phases = epicCurrentPhase epic' isClosed after"
proof -
  obtain row where cur: "epicCurrentPhase epic isClosed phases = Some p"
    and upd: "updateEpicRecord tooLarge store (complete_phase p) (Some (ep_token epic)) = Inr (Some (row, epic'))"
    using assms(1) by (auto simp: markEpicPhaseComplete_def Let_def split: if_splits sum.splits option.splits prod.splits)
  obtain k where k: "ua_row (store k) = Row row" "epic' = complete_phase p row"
    using update_loop_commits [OF upd [unfolded updateEpicRecord_def]] unfolding commits_def by blast
  have kept: "isEpicPhaseDone epic isClosed q \<Longrightarrow> isEpicPhaseDone row isClosed q" for q
    using assms(2) [OF k(1)] unfolding isEpicPhaseDone_def record_extends_def by blast
  obtain before after where split: "phases = before @ p # after" "\<not> isEpicPhaseDone epic isClosed p"
    "\<forall>q \<in> set before. isEpicPhaseDone epic isClosed q"
    using cur unfolding epicCurrentPhase_def find_first by blast
  have done': "isEpicPhaseDone epic' isClosed q \<longleftrightarrow> q = p \<or> isEpicPhaseDone row isClosed q" for q
    unfolding k(2) by (rule phase_done_complete)
  have skip: "List.find P (xs @ ys) = List.find P ys" if "\<forall>x \<in> set xs. \<not> P x" for P and xs ys :: "int list"
    using that by (induction xs) auto
  have "\<forall>q \<in> set (before @ [p]). \<not> \<not> isEpicPhaseDone epic' isClosed q" using split(3) done' kept by auto
  then have "epicCurrentPhase epic' isClosed ((before @ [p]) @ after) = epicCurrentPhase epic' isClosed after"
    unfolding epicCurrentPhase_def by (rule skip)
  then have "epicCurrentPhase epic' isClosed phases = epicCurrentPhase epic' isClosed after" by (simp add: split(1))
  moreover have "epic' = row\<lparr>ep_phases := ep_phases epic'\<rparr>"
    unfolding k(2) by (simp add: complete_phase_def split: option.split)
  ultimately show ?thesis
    by (intro exI [of _ before] exI [of _ after] exI [of _ k] exI [of _ row] conjI allI split(1-3) k(1) done')
qed

section \<open>Closing\<close>

text \<open>The requests to close an epic, in the order they are committed, form a machine that only moves
  towards a final, non-completed outcome.\<close>

type_synonym close_request = "string \<times> close_outcome \<times> land_mode option"

fun request_close :: "close_request \<Rightarrow> epic_record \<Rightarrow> epic_record" where
  "request_close (now, outcome, land) r = mark_closing now outcome land r"

text \<open>A later close: still closing since the same request, and an abandoned outcome is kept.\<close>

definition closing_kept :: "epic_record \<Rightarrow> epic_record \<Rightarrow> bool" where
  "closing_kept r r' =
     (\<forall>c. ep_status r = Epic_Closing \<and> ep_closing r = Some c \<longrightarrow>
        ep_status r' = Epic_Closing \<and>
        (\<exists>c'. ep_closing r' = Some c' \<and> ci_requestedAt c' = ci_requestedAt c \<and>
              ci_lastLandingAttempt c' = ci_lastLandingAttempt c \<and>
              (ci_outcome c \<noteq> Close_Completed \<longrightarrow> ci_outcome c' = ci_outcome c)))"

lemma closing_kept_mark: "closing_kept r (mark_closing now outcome land r)"
  by (auto simp: closing_kept_def mark_closing_def resumeClosing_def Let_def)

interpretation closing: monotone_machine request_close closing_kept
proof unfold_locales
  show "closing_kept r r" for r by (simp add: closing_kept_def)
  show "closing_kept r u" if rt: "closing_kept r t" and tu: "closing_kept t u" for r t u
    unfolding closing_kept_def
  proof (intro allI impI)
    fix c assume "ep_status r = Epic_Closing \<and> ep_closing r = Some c"
    then obtain c' where t: "ep_status t = Epic_Closing" "ep_closing t = Some c'" "ci_requestedAt c' = ci_requestedAt c"
      "ci_lastLandingAttempt c' = ci_lastLandingAttempt c" "ci_outcome c \<noteq> Close_Completed \<longrightarrow> ci_outcome c' = ci_outcome c"
      using rt unfolding closing_kept_def by blast
    then obtain c'' where u: "ep_status u = Epic_Closing" "ep_closing u = Some c''" "ci_requestedAt c'' = ci_requestedAt c'"
      "ci_lastLandingAttempt c'' = ci_lastLandingAttempt c'" "ci_outcome c' \<noteq> Close_Completed \<longrightarrow> ci_outcome c'' = ci_outcome c'"
      using tu unfolding closing_kept_def by blast
    show "ep_status u = Epic_Closing \<and> (\<exists>c'. ep_closing u = Some c' \<and> ci_requestedAt c' = ci_requestedAt c \<and>
        ci_lastLandingAttempt c' = ci_lastLandingAttempt c \<and> (ci_outcome c \<noteq> Close_Completed \<longrightarrow> ci_outcome c' = ci_outcome c))"
      using t u by (intro conjI exI [of _ c'']) simp_all
  qed
  show "closing_kept r (request_close i r)" for i r by (cases i) (simp add: closing_kept_mark)
qed

text \<open>An epic that is closing says how: the invariant every request keeps.\<close>

definition closing_recorded :: "epic_record \<Rightarrow> bool" where
  "closing_recorded r = (ep_status r = Epic_Closing \<longrightarrow> ep_closing r \<noteq> None)"

interpretation closing: invariant_machine request_close closing_recorded
  by unfold_locales (auto simp: closing_recorded_def mark_closing_def resumeClosing_def Let_def split: option.splits)

text \<open>Closing is decided once: however often the close is requested again, the epic stays closing
  since the first request, and once a request abandoned it, no later request turns the outcome into
  \<open>completed\<close> or another abandonment.\<close>

theorem closing_outcome_sticky:
  assumes "requests \<noteq> []" "ep_status r = Epic_Open"
    and "final = fold request_close requests r"
  shows "ep_status final = Epic_Closing \<and>
    (\<exists>c. ep_closing final = Some c \<and> ci_requestedAt c = fst (hd requests) \<and>
       (fst (snd (hd requests)) \<noteq> Close_Completed \<longrightarrow> ci_outcome c = fst (snd (hd requests))))"
proof -
  obtain now outcome land rest where req: "requests = (now, outcome, land) # rest"
    using assms(1) by (metis list.exhaust prod_cases3)
  let ?r = "mark_closing now outcome land r"
  have r: "ep_status ?r = Epic_Closing" "\<exists>c. ep_closing ?r = Some c \<and> ci_requestedAt c = now \<and> ci_outcome c = outcome"
    using assms(2) by (auto simp: mark_closing_def Let_def split: option.splits)
  have "closing_kept ?r final" unfolding assms(3) req using closing.le_run [of ?r rest] by simp
  then show ?thesis using r unfolding closing_kept_def req by fastforce
qed

section \<open>An evaluated history\<close>

definition run_start_record :: epic_record where
  "run_start_record = start_record ''k'' ''tok'' ''h'' ''p'' None ''t'' True None 4 (\<lambda>_. False) gate_plan"

definition run_outcome :: "string \<Rightarrow> epic_outcome" where
  "run_outcome i =
     \<lparr>o_taskId = i, o_resolution = Res_Completed, o_generation = 0, o_stageBFailures = 0, o_mergeFailure = False,
      o_declared = [], o_undeclared = [], o_reopened = 0, o_previous = None, eo_phase = 1, eo_waveSeq = 1,
      eo_resolvedAt = ''t'', eo_stageAFailures = 0, eo_mergeFailure = None, eo_attribution = Attr_Session,
      eo_marker = None\<rparr>"

definition run_close :: close_computation where
  "run_close = \<lparr>cc_closeHead = None, cc_outcomes = [run_outcome ''a'', run_outcome ''b''], cc_waveUndeclared = []\<rparr>"

definition run_closed :: epic_record where
  "run_closed = applyWaveClose 1 run_close ''u'' gate_epic"

lemma run_issued: "epic_run [gate_epic, run_start_record]"
  unfolding gate_epic_def run_start_record_def by (intro epic_run.run_issue epic_run.run_start)

lemma run_history: "epic_run [run_closed, gate_epic, run_start_record]"
  unfolding run_closed_def
proof (rule epic_run.run_close [OF run_issued])
  show "gate_epic \<in> set (gate_epic # [run_start_record])" by simp
  show "issued_in 1 gate_epic gate_wave"
    by (simp add: issued_in_def find_wave_def gate_epic_def issue_wave_def start_record_def next_seq_def draft_wave_def gate_draft_def)
  show "map o_taskId (cc_outcomes run_close) = ew_taskIds gate_wave" by (simp add: run_close_def run_outcome_def)
  show "eo_waveSeq x = 1" if "x \<in> set (cc_outcomes run_close)" for x
    using that by (auto simp: run_close_def run_outcome_def)
qed

lemma run_waves: "ep_waves run_start_record = []"
  by (simp add: run_start_record_def start_record_def)

theorem one_wave_at_a_time_witness:
  "map ew_seq (ep_waves run_closed) = [1..int (length (ep_waves run_closed))]"
  using one_wave_at_a_time [OF run_history] by simp

theorem waves_are_frozen_witness:
  "ew_taskIds (ep_waves run_closed ! 0) = [''a'', ''b'']"
  using waves_are_frozen [OF run_history, of 0 1 0] by simp

theorem epic_progress_is_kept_witness:
  "ep_maxParallel run_closed = ep_maxParallel run_start_record"
  using epic_progress_is_kept [OF run_history, of 0 2] by (simp add: numeral_2_eq_2)

text \<open>The first write loses a race against the wave's close, the second is applied.\<close>

definition run_store :: "nat \<Rightarrow> update_attempt" where
  "run_store k = (if k = 0 then \<lparr>ua_row = Row gate_epic, ua_write = Revision_Conflict\<rparr>
                  else \<lparr>ua_row = Row run_closed, ua_write = Applied\<rparr>)"

theorem phases_complete_in_order_witness:
  "epicCurrentPhase (complete_phase 1 run_closed) (\<lambda>_. False) [1, 2] = Some 2"
proof -
  have current: "recorded_complete gate_epic 1 = False" "recorded_complete run_closed 1 = False"
    "recorded_complete (complete_phase 1 run_closed) 2 = False" "ep_token gate_epic = ''tok''" "ep_token run_closed = ''tok''"
    by code_simp+
  have ext: "record_extends gate_epic row" if "ua_row (run_store k) = Row row" for k row
    using that reachable_extends [OF run_history, of 0 1] by (auto simp: run_store_def split: if_splits)
  have "markEpicPhaseComplete (\<lambda>_. False) run_store (Some gate_epic) (\<lambda>_. False) (Some [1, 2]) 1 =
      Inr (Phase_Recorded (complete_phase 1 run_closed))"
    using current by (simp add: markEpicPhaseComplete_def epicCurrentPhase_def isEpicPhaseDone_def updateEpicRecord_def
        MAX_RECORD_UPDATE_ATTEMPTS_def run_store_def eval_nat_numeral Let_def)
  from phases_complete_in_order [OF this] ext obtain before after where
    s: "[1, 2] = before @ 1 # after" "epicCurrentPhase (complete_phase 1 run_closed) (\<lambda>_. False) [1, 2] =
      epicCurrentPhase (complete_phase 1 run_closed) (\<lambda>_. False) after" by auto
  then have "after = [2]" by (auto simp: Cons_eq_append_conv)
  then show ?thesis using s(2) current by (simp add: epicCurrentPhase_def isEpicPhaseDone_def)
qed

theorem updateEpicRecord_commits_witness:
  "\<exists>k < MAX_RECORD_UPDATE_ATTEMPTS. ua_row (run_store k) = Row run_closed \<and> ua_write (run_store k) = Applied"
proof -
  have "ep_token gate_epic = ''tok''" "ep_token run_closed = ''tok''" by code_simp+
  then have "updateEpicRecord (\<lambda>_. False) run_store (set_branch ''e'') (Some ''tok'') = Inr (Some (run_closed, set_branch ''e'' run_closed))"
    by (simp add: updateEpicRecord_def MAX_RECORD_UPDATE_ATTEMPTS_def run_store_def eval_nat_numeral Let_def)
  with updateEpicRecord_commits [of "\<lambda>_. False" run_store "set_branch ''e''" "Some ''tok''" run_closed "set_branch ''e'' run_closed"]
  show ?thesis by (auto simp: run_store_def split: if_splits)
qed

theorem closing_outcome_sticky_witness:
  "\<exists>c. ep_closing (fold request_close [(''t'', Close_Abandoned, None), (''u'', Close_Completed, Some Land_Merge)] run_closed) = Some c \<and>
     ci_outcome c = Close_Abandoned"
proof -
  have "ep_status run_closed = Epic_Open" by code_simp
  from closing_outcome_sticky [OF _ this refl, of "[(''t'', Close_Abandoned, None), (''u'', Close_Completed, Some Land_Merge)]"]
  show ?thesis by auto
qed

end
