(* ===== verification/Cochange_Index.thy ===== *)
theory Cochange_Index
  imports Components
begin

text \<open>
  The co-change index of the conflict graph (\<open>cochangePartners\<close>, \<open>crossCoupled\<close>) is an
  optimised form of the pair rule of \<open>epicPairConflict\<close>: indexing the pairs by file and
  intersecting what one task owns with what the other wants decides the same relation.
\<close>

section \<open>Candidates of a path\<close>

lemma slash_suffixes_mem: "f \<in> set (slash_suffixes p) \<longleftrightarrow> suffix (slash # f) p"
  by (induction p) (auto simp: suffix_Cons)

lemma candidates_mem: "f \<in> set (p # slash_suffixes p) \<longleftrightarrow> pathMatches p f"
  by (auto simp: slash_suffixes_mem pathMatches_def)

section \<open>Pairs by file\<close>

lemma add_file_entry_get:
  "js_get_or (add_file_entry f e m) g [] = js_get_or m g [] @ (if g = f then [e] else [])"
  by (simp add: add_file_entry_def js_map_simps)

definition side_file :: "cochange_entry \<Rightarrow> pair_side \<Rightarrow> string" where
  "side_file e s = (case s of Side_A \<Rightarrow> e_fileA e | Side_B \<Rightarrow> e_fileB e)"

lemma index_pair_get:
  "key \<in> set (js_get_or (index_pair th (i, e) m) f []) \<longleftrightarrow>
     key \<in> set (js_get_or m f []) \<or> (active_pair th e \<and> fst key = i \<and> f = side_file e (snd key))"
  by (cases key; cases "snd key") (auto simp: index_pair_def active_pair_def add_file_entry_get side_file_def)

lemma index_pairs_get:
  "key \<in> set (js_get_or (fold (index_pair th) ies m) f []) \<longleftrightarrow>
     key \<in> set (js_get_or m f []) \<or>
     (\<exists>e. (fst key, e) \<in> set ies \<and> active_pair th e \<and> f = side_file e (snd key))"
proof (induction ies arbitrary: m)
  case Nil
  then show ?case by simp
next
  case (Cons ie ies)
  obtain i e where ie: "ie = (i, e)" by (cases ie)
  have "(\<exists>e'. (fst key, e') \<in> set (ie # ies) \<and> active_pair th e' \<and> f = side_file e' (snd key)) \<longleftrightarrow>
      (active_pair th e \<and> fst key = i \<and> f = side_file e (snd key)) \<or>
      (\<exists>e'. (fst key, e') \<in> set ies \<and> active_pair th e' \<and> f = side_file e' (snd key))"
    unfolding ie by auto
  then show ?case
    unfolding fold_simps Cons.IH ie index_pair_get by blast
qed

definition active_at :: "cochange_signal \<Rightarrow> nat \<Rightarrow> bool" where
  "active_at sig i = (i < length (cs_pairs sig) \<and> active_pair (cs_threshold sig) (cs_pairs sig ! i))"

lemma pairs_by_file_get:
  "key \<in> set (js_get_or (pairs_by_file sig) f []) \<longleftrightarrow>
     active_at sig (fst key) \<and> f = side_file (cs_pairs sig ! fst key) (snd key)"
proof -
  have "js_get_or ([] :: (string, pair_key list) js_map) f [] = []" by (simp add: js_get_or_def)
  then show ?thesis
    unfolding pairs_by_file_def index_pairs_get by (auto simp: in_set_enumerate_eq active_at_def)
qed

section \<open>Touched sides\<close>

definition side_bit :: "(nat, bool \<times> bool) js_map \<Rightarrow> pair_key \<Rightarrow> bool" where
  "side_bit touched key =
     (case snd key of Side_A \<Rightarrow> fst | Side_B \<Rightarrow> snd) (js_get_or touched (fst key) (False, False))"

lemma touch_side_bit: "side_bit (touch_side k t) key \<longleftrightarrow> key = k \<or> side_bit t key"
proof -
  obtain a b where ab: "js_get_or t (fst k) (False, False) = (a, b)" by fastforce
  show ?thesis
    using ab by (cases k; cases key; cases "snd k"; cases "snd key")
      (auto simp: side_bit_def touch_side_def js_map_simps)
qed

lemma touch_sides_bit: "side_bit (fold touch_side ks t) key \<longleftrightarrow> key \<in> set ks \<or> side_bit t key"
  by (induction ks arbitrary: t) (auto simp: touch_side_bit)

lemma touch_sides_distinct: "distinct (js_keys t) \<Longrightarrow> distinct (js_keys (fold touch_side ks t))"
proof (induction ks arbitrary: t)
  case Nil
  then show ?case by simp
next
  case (Cons k ks)
  have "distinct (js_keys (touch_side k t))"
    using js_maps.distinct_put [OF Cons.prems] by (simp add: touch_side_def split_beta)
  then show ?case using Cons.IH by simp
qed

lemma touched_pairs_fold:
  "touched_pairs byFile paths =
     fold touch_side (concat (map (\<lambda>f. js_get_or byFile f []) (concat (map (\<lambda>p. p # slash_suffixes p) paths)))) []"
  unfolding touched_pairs_def fold_fold_concat ..

lemma touched_pairs_bit:
  "side_bit (touched_pairs (pairs_by_file sig) paths) key \<longleftrightarrow>
     active_at sig (fst key) \<and> touches paths (side_file (cs_pairs sig ! fst key) (snd key))"
proof -
  have "side_bit [] key = False" by (cases "snd key") (simp_all add: side_bit_def js_get_or_def)
  then have "side_bit (touched_pairs (pairs_by_file sig) paths) key \<longleftrightarrow>
      (\<exists>p \<in> set paths. \<exists>f \<in> set (p # slash_suffixes p). key \<in> set (js_get_or (pairs_by_file sig) f []))"
    unfolding touched_pairs_fold touch_sides_bit set_concat set_map by blast
  also have "\<dots> \<longleftrightarrow> active_at sig (fst key) \<and> touches paths (side_file (cs_pairs sig ! fst key) (snd key))"
    unfolding touches_def pairs_by_file_get Bex_def candidates_mem by blast
  finally show ?thesis .
qed

section \<open>Owned and wanted sides\<close>

definition opposite :: "pair_side \<Rightarrow> pair_side" where
  "opposite s = (case s of Side_A \<Rightarrow> Side_B | Side_B \<Rightarrow> Side_A)"

lemma opposite_simps [simp]: "opposite Side_A = Side_B" "opposite Side_B = Side_A" "opposite (opposite s) = s"
  by (auto simp: opposite_def split: pair_side.split)

definition owns_side :: "(nat, bool \<times> bool) js_map \<Rightarrow> pair_key \<Rightarrow> bool" where
  "owns_side touched key = (side_bit touched key \<and> \<not> side_bit touched (fst key, opposite (snd key)))"

definition sides_step :: "nat \<times> bool \<times> bool \<Rightarrow> partner_sides \<Rightarrow> partner_sides" where
  "sides_step = (\<lambda>(index, a, b) ps.
     if a = b then ps
     else let mine = (if a then Side_A else Side_B)
          in \<lparr>ps_owned = set_add (index, mine) (ps_owned ps),
              ps_wanted = set_add (index, if mine = Side_A then Side_B else Side_A) (ps_wanted ps)\<rparr>)"

lemma sides_step_mem:
  "key \<in> set (ps_owned (sides_step (i, a, b) ps)) \<longleftrightarrow>
     key \<in> set (ps_owned ps) \<or> (a \<noteq> b \<and> key = (i, if a then Side_A else Side_B))"
  "key \<in> set (ps_wanted (sides_step (i, a, b) ps)) \<longleftrightarrow>
     key \<in> set (ps_wanted ps) \<or> (a \<noteq> b \<and> key = (i, if a then Side_B else Side_A))"
  by (auto simp: sides_step_def Let_def)

lemma sides_fold_mem:
  "key \<in> set (ps_owned (fold sides_step ts ps)) \<longleftrightarrow>
     key \<in> set (ps_owned ps) \<or> (\<exists>i a b. (i, a, b) \<in> set ts \<and> a \<noteq> b \<and> key = (i, if a then Side_A else Side_B))"
  "key \<in> set (ps_wanted (fold sides_step ts ps)) \<longleftrightarrow>
     key \<in> set (ps_wanted ps) \<or> (\<exists>i a b. (i, a, b) \<in> set ts \<and> a \<noteq> b \<and> key = (i, if a then Side_B else Side_A))"
proof (induction ts arbitrary: ps)
  case Nil
  case 1 show ?case by simp
  case 2 show ?case by simp
next
  case (Cons t ts)
  obtain i a b where t: "t = (i, a, b)" by (cases t)
  case 1 show ?case unfolding fold_simps Cons.IH t sides_step_mem list.set insert_iff prod.inject by blast
  case 2 show ?case unfolding fold_simps Cons.IH t sides_step_mem list.set insert_iff prod.inject by blast
qed

lemma sides_of_fold:
  assumes "distinct (js_keys touched)"
  shows "key \<in> set (ps_owned (sides_of touched)) \<longleftrightarrow> owns_side touched key"
    and "key \<in> set (ps_wanted (sides_of touched)) \<longleftrightarrow> owns_side touched (fst key, opposite (snd key))"
proof -
  have sides: "sides_of touched = fold sides_step touched \<lparr>ps_owned = [], ps_wanted = []\<rparr>"
    by (simp add: sides_of_def sides_step_def)
  have mem: "(i, a, b) \<in> set touched \<longleftrightarrow> js_get touched i = Some (a, b)" for i a b
    using assms by (simp add: map_of_eq_Some_iff)
  have own: "owns_side touched (i, s) \<longleftrightarrow>
      (\<exists>a b. js_get touched i = Some (a, b) \<and> a \<noteq> b \<and> s = (if a then Side_A else Side_B))" for i s
    by (cases s) (auto simp: owns_side_def side_bit_def js_get_or_def split: option.splits)
  obtain i s where key: "key = (i, s)" by (cases key)
  show "key \<in> set (ps_owned (sides_of touched)) \<longleftrightarrow> owns_side touched key"
    unfolding sides sides_fold_mem mem key own prod.inject by auto
  have flip: "opposite s = (if a then Side_A else Side_B) \<longleftrightarrow> s = (if a then Side_B else Side_A)" for a
    by (cases s) auto
  show "key \<in> set (ps_wanted (sides_of touched)) \<longleftrightarrow> owns_side touched (fst key, opposite (snd key))"
    unfolding sides sides_fold_mem mem key own prod.inject fst_conv snd_conv flip by auto
qed

text \<open>What the index computes for one scope.\<close>

definition scope_sides :: "cochange_signal \<Rightarrow> string list \<Rightarrow> partner_sides" where
  "scope_sides sig paths = sides_of (touched_pairs (pairs_by_file sig) paths)"

definition scope_owns :: "cochange_signal \<Rightarrow> string list \<Rightarrow> nat \<Rightarrow> pair_side \<Rightarrow> bool" where
  "scope_owns sig paths i s =
     (active_at sig i \<and> touches paths (side_file (cs_pairs sig ! i) s) \<and>
      \<not> touches paths (side_file (cs_pairs sig ! i) (opposite s)))"

lemma scope_sides_mem:
  "(i, s) \<in> set (ps_owned (scope_sides sig paths)) \<longleftrightarrow> scope_owns sig paths i s"
  "(i, s) \<in> set (ps_wanted (scope_sides sig paths)) \<longleftrightarrow> scope_owns sig paths i (opposite s)"
proof -
  have dist: "distinct (js_keys (touched_pairs (pairs_by_file sig) paths))"
    unfolding touched_pairs_fold by (rule touch_sides_distinct) simp
  have own: "owns_side (touched_pairs (pairs_by_file sig) paths) (i, s) \<longleftrightarrow> scope_owns sig paths i s" for i s
    unfolding owns_side_def touched_pairs_bit scope_owns_def by auto
  show "(i, s) \<in> set (ps_owned (scope_sides sig paths)) \<longleftrightarrow> scope_owns sig paths i s"
    unfolding scope_sides_def sides_of_fold(1) [OF dist] by (rule own)
  show "(i, s) \<in> set (ps_wanted (scope_sides sig paths)) \<longleftrightarrow> scope_owns sig paths i (opposite s)"
    unfolding scope_sides_def sides_of_fold(2) [OF dist] fst_conv snd_conv by (rule own)
qed

lemma crossCoupled_iff:
  "crossCoupled (Some a) (Some b) \<longleftrightarrow> set (ps_wanted a) \<inter> set (ps_owned b) \<noteq> {}"
  by (auto simp: crossCoupled_def list_ex_iff Let_def)

lemma scope_owns_couple:
  "(\<exists>i s. scope_owns sig a i (opposite s) \<and> scope_owns sig b i s) \<longleftrightarrow>
     (\<exists>e \<in> set (cs_pairs sig). active_pair (cs_threshold sig) e \<and> cross_couple a b e)"
proof
  assume "\<exists>i s. scope_owns sig a i (opposite s) \<and> scope_owns sig b i s"
  then obtain i s where o: "scope_owns sig a i (opposite s)" "scope_owns sig b i s" by blast
  then have "cs_pairs sig ! i \<in> set (cs_pairs sig)" "active_pair (cs_threshold sig) (cs_pairs sig ! i)"
    by (auto simp: scope_owns_def active_at_def)
  moreover have "cross_couple a b (cs_pairs sig ! i)"
    using o unfolding cross_couple_iff scope_owns_def by (cases s) (auto simp: side_file_def)
  ultimately show "\<exists>e \<in> set (cs_pairs sig). active_pair (cs_threshold sig) e \<and> cross_couple a b e" by blast
next
  assume "\<exists>e \<in> set (cs_pairs sig). active_pair (cs_threshold sig) e \<and> cross_couple a b e"
  then obtain i where i: "active_at sig i" and c: "cross_couple a b (cs_pairs sig ! i)"
    by (auto simp: active_at_def in_set_conv_nth)
  from c have "(scope_owns sig a i (opposite Side_B) \<and> scope_owns sig b i Side_B) \<or>
      (scope_owns sig a i (opposite Side_A) \<and> scope_owns sig b i Side_A)"
    using i unfolding cross_couple_iff scope_owns_def by (auto simp: side_file_def)
  then show "\<exists>i s. scope_owns sig a i (opposite s) \<and> scope_owns sig b i s" by blast
qed

section \<open>The index decides the pair rule\<close>

lemma cochangePartners_get:
  assumes "v \<in> set ids"
  shows "js_get (cochangePartners ids normalized (Some sig)) v =
    (if ps_owned (scope_sides sig (js_get_or normalized v [])) = [] then None
     else Some (scope_sides sig (js_get_or normalized v [])))"
proof (cases "pairs_by_file sig = []")
  case True
  have "\<not> scope_owns sig paths i s" for paths i s
    using pairs_by_file_get [of "(i, s)" sig] True by (auto simp: scope_owns_def js_get_or_def)
  then have "set (ps_owned (scope_sides sig paths)) = {}" for paths
    using scope_sides_mem(1) [of _ _ sig paths] by (metis all_not_in_conv surj_pair)
  then show ?thesis using True by (simp add: cochangePartners_def)
next
  case False
  let ?f = "\<lambda>v result. let sides = scope_sides sig (js_get_or normalized v [])
              in if length (ps_owned sides) > 0 then js_set v sides result else result"
  have "js_get (fold ?f ids result) v =
      (if v \<in> set ids \<and> ps_owned (scope_sides sig (js_get_or normalized v [])) \<noteq> []
       then Some (scope_sides sig (js_get_or normalized v [])) else js_get result v)" for ids result
    by (induction ids arbitrary: result) (auto simp: Let_def js_map_simps)
  from this [of ids "[]"] show ?thesis
    using False assms by (simp add: cochangePartners_def scope_sides_def)
qed

lemma index_is_pair_rule:
  assumes "a \<in> set ids" "b \<in> set ids"
  shows "crossCoupled (js_get (cochangePartners ids normalized (Some sig)) a)
      (js_get (cochangePartners ids normalized (Some sig)) b) \<longleftrightarrow>
    (\<exists>e \<in> set (cs_pairs sig). active_pair (cs_threshold sig) e \<and>
       cross_couple (js_get_or normalized a []) (js_get_or normalized b []) e)"
proof -
  let ?sa = "scope_sides sig (js_get_or normalized a [])" and ?sb = "scope_sides sig (js_get_or normalized b [])"
  have wanted_owned: "ps_owned (scope_sides sig p) = [] \<Longrightarrow> set (ps_wanted (scope_sides sig p)) = {}" for p
    using scope_sides_mem [of _ _ sig p] by (metis all_not_in_conv list.set(1) surj_pair opposite_simps(3))
  have "crossCoupled (js_get (cochangePartners ids normalized (Some sig)) a)
      (js_get (cochangePartners ids normalized (Some sig)) b) \<longleftrightarrow> set (ps_wanted ?sa) \<inter> set (ps_owned ?sb) \<noteq> {}"
  proof (cases "ps_owned ?sa = [] \<or> ps_owned ?sb = []")
    case True
    then show ?thesis
      using wanted_owned unfolding cochangePartners_get [OF assms(1)] cochangePartners_get [OF assms(2)]
      by (auto simp: crossCoupled_def split: option.splits)
  next
    case False
    then show ?thesis
      unfolding cochangePartners_get [OF assms(1)] cochangePartners_get [OF assms(2)] by (simp add: crossCoupled_iff)
  qed
  also have "\<dots> \<longleftrightarrow> (\<exists>i s. (i, s) \<in> set (ps_wanted ?sa) \<and> (i, s) \<in> set (ps_owned ?sb))" by auto
  also have "\<dots> \<longleftrightarrow> (\<exists>e \<in> set (cs_pairs sig). active_pair (cs_threshold sig) e \<and>
       cross_couple (js_get_or normalized a []) (js_get_or normalized b []) e)"
    unfolding scope_sides_mem scope_owns_couple ..
  finally show ?thesis .
qed

text \<open>Two tasks are cross-coupled by the co-change index exactly when a threshold-passing pair
  couples their scopes under the rule of \<open>epicPairConflict\<close>: the graph's indexed test and the pair
  predicate of the wave verdict are the same relation.\<close>

theorem cochange_index_is_pair_rule:
  assumes "a \<in> set ids" "b \<in> set ids"
  shows "crossCoupled (js_get (cochangePartners ids normalized (Some sig)) a)
      (js_get (cochangePartners ids normalized (Some sig)) b) \<longleftrightarrow>
    (\<exists>e \<in> set (cs_pairs sig). e_coChangeCount e \<ge> th_minCoChanges (cs_threshold sig) \<and>
       e_npmi e \<ge> th_npmi (cs_threshold sig) \<and>
       cross_couple (js_get_or normalized a []) (js_get_or normalized b []) e)"
  unfolding index_is_pair_rule [OF assms] by (simp add: active_pair_def conj_assoc)

theorem cochange_index_is_pair_rule_witness:
  "crossCoupled (js_get (cochangePartners [''1'', ''2''] [(''1'', [''x/f'']), (''2'', [''x/g''])]
       (Some \<lparr>cs_pairs = [example_pair], cs_threshold = example_threshold\<rparr>)) ''1'')
     (js_get (cochangePartners [''1'', ''2''] [(''1'', [''x/f'']), (''2'', [''x/g''])]
       (Some \<lparr>cs_pairs = [example_pair], cs_threshold = example_threshold\<rparr>)) ''2'')"
proof -
  have "cross_couple [''x/f''] [''x/g''] example_pair" by code_simp
  then show ?thesis
    using cochange_index_is_pair_rule [of "''1''" "[''1'', ''2'']" "''2''" "[(''1'', [''x/f'']), (''2'', [''x/g''])]"
        "\<lparr>cs_pairs = [example_pair], cs_threshold = example_threshold\<rparr>"]
    by (simp add: js_get_or_def example_pair_def example_threshold_def)
qed

end
