(* ===== verification/Graph_Facts.thy ===== *)
theory Graph_Facts
  imports Cochange_Index
begin

text \<open>
  The conflict graph: its vertices are the non-exclusive pending tasks, its edge relation is
  symmetric and irreflexive, and it contains every pair that conflicts under
  \<open>epicPairConflict\<close> on the tasks' scopes.
\<close>

section \<open>Exclusive tasks and vertices\<close>

lemma split_exclusive_fold:
  "fold (\<lambda>ct (exclusive, vertices).
        case R ct of
          Some reason \<Rightarrow> (js_set (c_id ct) reason exclusive, vertices)
        | None \<Rightarrow> (exclusive, vertices @ [c_id ct])) cts (ex, vs) =
     (fold (\<lambda>ct ex. case R ct of Some reason \<Rightarrow> js_set (c_id ct) reason ex | None \<Rightarrow> ex) cts ex,
      vs @ map c_id (filter (\<lambda>ct. R ct = None) cts))"
  by (induction cts arbitrary: ex vs) (auto split: option.split)

lemma fold_reasons_dom:
  "fst ` set (fold (\<lambda>ct ex. case R ct of Some reason \<Rightarrow> js_set (c_id ct) reason ex | None \<Rightarrow> ex) cts ex) =
     fst ` set ex \<union> c_id ` {ct \<in> set cts. R ct \<noteq> None}"
  by (induction cts arbitrary: ex) (auto simp: js_map_simps split: option.split)

lemma split_image_disjoint: "inj_on f A \<Longrightarrow> f ` {x \<in> A. P x} \<inter> f ` {x \<in> A. \<not> P x} = {}"
  by (auto simp: inj_on_def)

section \<open>Scopes\<close>

lemma task_scopes_fold:
  "js_get (fold (\<lambda>task. js_set (t_id task) (f (t_id task))) tasks m) t =
     (if t \<in> t_id ` set tasks then Some (f t) else js_get m t)"
  by (induction tasks arbitrary: m) (auto simp: js_map_simps)

lemma task_scopes_get:
  "js_get (task_scopes inp) t =
     (if t \<in> t_id ` set (gi_tasks inp) then Some (js_get_or (gi_scopes inp) t []) else None)"
  unfolding task_scopes_def task_scopes_fold [of "\<lambda>t. js_get_or (gi_scopes inp) t []"] by simp

section \<open>Edges\<close>

abbreviation neighbours :: "(string, string list) js_map \<Rightarrow> string \<Rightarrow> string set" where
  "neighbours adj a \<equiv> set (js_get_or adj a [])"

lemma add_conflict_edge_get:
  "y \<in> neighbours (add_conflict_edge (a, b) adj) x \<longleftrightarrow> y \<in> neighbours adj x \<or> (x = a \<and> y = b) \<or> (x = b \<and> y = a)"
  by (cases "a = b") (auto simp: add_conflict_edge_def Let_def js_map_simps)

lemma add_conflict_edge_keys:
  "a \<in> set (js_keys adj) \<Longrightarrow> b \<in> set (js_keys adj) \<Longrightarrow> js_keys (add_conflict_edge (a, b) adj) = js_keys adj"
  by (auto simp: add_conflict_edge_def Let_def js_keys_set js_dom_set)

definition add_edges :: "(string \<Rightarrow> string \<Rightarrow> bool) \<Rightarrow> (string \<times> string) list \<Rightarrow> (string, string list) js_map \<Rightarrow> (string, string list) js_map" where
  "add_edges P ps adj = fold (\<lambda>(a, b) adj. if P a b then add_conflict_edge (a, b) adj else adj) ps adj"

lemma add_edges_get:
  "y \<in> neighbours (add_edges P ps adj) x \<longleftrightarrow>
     y \<in> neighbours adj x \<or> ((x, y) \<in> set ps \<and> P x y) \<or> ((y, x) \<in> set ps \<and> P y x)"
proof (induction ps arbitrary: adj)
  case Nil
  then show ?case by (simp add: add_edges_def)
next
  case (Cons p ps)
  obtain a b where p: "p = (a, b)" by (cases p)
  have "add_edges P (p # ps) adj = add_edges P ps (if P a b then add_conflict_edge (a, b) adj else adj)"
    by (simp add: add_edges_def p)
  then show ?case
    by (cases "P a b") (auto simp: Cons.IH add_conflict_edge_get p)
qed

lemma add_edges_keys:
  "set ps \<subseteq> set (js_keys adj) \<times> set (js_keys adj) \<Longrightarrow> js_keys (add_edges P ps adj) = js_keys adj"
proof (induction ps arbitrary: adj)
  case Nil
  then show ?case by (simp add: add_edges_def)
next
  case (Cons p ps)
  obtain a b where p: "p = (a, b)" by (cases p)
  have step: "add_edges P (p # ps) adj = add_edges P ps (if P a b then add_conflict_edge (a, b) adj else adj)"
    by (simp add: add_edges_def p)
  have keq: "js_keys (add_conflict_edge (a, b) adj) = js_keys adj"
    using Cons.prems by (intro add_conflict_edge_keys) (auto simp: p)
  have "js_keys (add_edges P ps (add_conflict_edge (a, b) adj)) = js_keys (add_conflict_edge (a, b) adj)"
    by (rule Cons.IH, unfold keq) (use Cons.prems in auto)
  moreover have "js_keys (add_edges P ps adj) = js_keys adj"
    by (rule Cons.IH) (use Cons.prems in auto)
  ultimately show ?case unfolding step keq by simp
qed

section \<open>The graph\<close>

text \<open>Two tasks conflict in the graph of an input.\<close>

definition graph_conflict :: "runtime \<Rightarrow> graph_input \<Rightarrow> string \<Rightarrow> string \<Rightarrow> bool" where
  "graph_conflict rt inp a b =
     (pathOverlap rt (expandEpicScope rt (js_get_or (gi_scopes inp) a []) (gi_coWrites inp))
        (expandEpicScope rt (js_get_or (gi_scopes inp) b []) (gi_coWrites inp)) \<or>
      (case gi_cochange inp of
         None \<Rightarrow> False
       | Some sig \<Rightarrow> \<exists>e \<in> set (cs_pairs sig). active_pair (cs_threshold sig) e \<and>
           cross_couple (map (normalizePath rt) (js_get_or (gi_scopes inp) a []))
             (map (normalizePath rt) (js_get_or (gi_scopes inp) b [])) e))"

lemma graph_conflict_sym: "graph_conflict rt inp a b = graph_conflict rt inp b a"
proof -
  have "pathOverlap rt x y = pathOverlap rt y x" for x y using path_overlap.disjoint_sym by blast
  then show ?thesis
    unfolding graph_conflict_def by (auto simp: cross_couple_sym split: option.split)
qed

definition graph_vertices :: "runtime \<Rightarrow> graph_input \<Rightarrow> string list" where
  "graph_vertices rt inp = js_keys (g_adjacency (buildEpicConflictGraph rt inp))"

lemma js_get_map_keys: "js_get (map (\<lambda>v. (v, f v)) vs) v = (if v \<in> set vs then Some (f v) else None)"
  by (induction vs) auto

lemma wf_task_map_values: "wf_task_map tm \<Longrightarrow> map c_id (map snd tm) = js_keys tm"
  by (auto simp: wf_task_map_def)

definition graph_edge :: "conflict_graph \<Rightarrow> string \<Rightarrow> string \<Rightarrow> bool" where
  "graph_edge g a b = (b \<in> neighbours (g_adjacency g) a)"

lemma graph_spec:
  assumes g: "g = buildEpicConflictGraph rt inp"
  shows "g_preflight g = runPartitionPreflight rt (gi_directory inp) (gi_tasks inp) (gi_leanConfig inp)
           (Some (task_scopes inp)) (\<lambda>_. None)"
    and "distinct (js_keys (g_adjacency g))"
    and "set (js_keys (g_adjacency g)) \<union> set (js_keys (g_exclusive g)) = t_id ` set (gi_tasks inp)"
    and "set (js_keys (g_adjacency g)) \<inter> set (js_keys (g_exclusive g)) = {}"
    and "graph_edge g a b \<longleftrightarrow> a \<in> set (js_keys (g_adjacency g)) \<and> b \<in> set (js_keys (g_adjacency g)) \<and> a \<noteq> b \<and>
           graph_conflict rt inp a b"
    and "\<exists>P ps vs. g_adjacency g = add_edges P ps (map (\<lambda>v. (v, [])) vs)"
proof -
  let ?scopes = "task_scopes inp"
  let ?pf = "runPartitionPreflight rt (gi_directory inp) (gi_tasks inp) (gi_leanConfig inp) (Some ?scopes) (\<lambda>_. None)"
  let ?tm = "build_task_map (map (\<lambda>t. classify_task (gi_leanConfig inp)
      (resolve_task_scope rt (gi_directory inp) (gi_leanConfig inp) (Some ?scopes) (\<lambda>_. None) t)) (gi_tasks inp)) []"
  let ?R = "\<lambda>ct. exclusiveReasonOf rt (c_category ct) (js_get_or ?scopes (c_id ct) []) (gi_hotFiles inp)"
  let ?cts = "map snd (taskMap ?pf)"
  let ?vs = "map c_id (filter (\<lambda>ct. ?R ct = None) ?cts)"
  let ?ex = "fold (\<lambda>ct ex. case ?R ct of Some reason \<Rightarrow> js_set (c_id ct) reason ex | None \<Rightarrow> ex) ?cts []"
  have tm: "taskMap ?pf = ?tm"
    using topological_sort_spec [OF wf_build_task_map preflight_cases] by blast
  have wf: "wf_task_map ?tm" by (rule wf_build_task_map)
  have ids: "map c_id ?cts = js_keys ?tm" unfolding tm by (rule wf_task_map_values [OF wf])
  have dist: "distinct (map c_id ?cts)" unfolding ids using wf by (simp add: wf_task_map_def)
  have all: "c_id ` set ?cts = t_id ` set (gi_tasks inp)"
    unfolding list.set_map [symmetric] ids preflight_keys ..
  have split: "split_exclusive rt (gi_hotFiles inp) ?scopes ?cts = (?ex, ?vs)"
    by (simp add: split_exclusive_def split_exclusive_fold)
  have dvs: "distinct ?vs" using dist by (rule distinct_map_filter)
  have vs_tasks: "set ?vs \<subseteq> t_id ` set (gi_tasks inp)" unfolding all [symmetric] by auto
  let ?normalized = "map (\<lambda>v. (v, map (normalizePath rt) (js_get_or ?scopes v []))) ?vs"
  let ?expanded = "map (\<lambda>v. (v, expandEpicScope rt (js_get_or ?scopes v []) (gi_coWrites inp))) ?vs"
  let ?partners = "cochangePartners ?vs ?normalized (gi_cochange inp)"
  let ?P = "\<lambda>a b. pathOverlap rt (js_get_or ?expanded a []) (js_get_or ?expanded b []) \<or>
               crossCoupled (js_get ?partners a) (js_get ?partners b)"
  let ?adj0 = "map (\<lambda>v. (v, [])) ?vs"
  have g': "g = \<lparr>g_preflight = ?pf, g_exclusive = ?ex, g_adjacency = add_edges ?P (index_pairs ?vs) ?adj0,
                g_topoIndex = topo_positions rt ?pf\<rparr>"
    unfolding g buildEpicConflictGraph_def Let_def split prod.case add_edges_def ..
  show "g_preflight g = ?pf" unfolding g' by simp
  show "\<exists>P ps vs. g_adjacency g = add_edges P ps (map (\<lambda>v. (v, [])) vs)"
    unfolding g' conflict_graph.select_convs by (intro exI) (rule refl)
  have keys0: "js_keys ?adj0 = ?vs" by simp
  have keys: "js_keys (g_adjacency g) = ?vs"
    unfolding g' conflict_graph.select_convs
    by (subst add_edges_keys) (auto simp: keys0 dest: index_pairs_mem simp del: map_map)
  show "distinct (js_keys (g_adjacency g))" unfolding keys by (rule dvs)
  have ex: "set (js_keys (g_exclusive g)) = c_id ` {ct \<in> set ?cts. ?R ct \<noteq> None}"
    unfolding g' conflict_graph.select_convs set_map fold_reasons_dom by simp
  show "set (js_keys (g_adjacency g)) \<union> set (js_keys (g_exclusive g)) = t_id ` set (gi_tasks inp)"
    unfolding keys ex all [symmetric] unfolding set_map set_filter by blast
  show "set (js_keys (g_adjacency g)) \<inter> set (js_keys (g_exclusive g)) = {}"
    unfolding keys ex unfolding set_map [of c_id] set_filter
    by (rule split_image_disjoint) (use dist in \<open>simp only: distinct_map\<close>)
  have P: "?P a b \<longleftrightarrow> graph_conflict rt inp a b" if a: "a \<in> set ?vs" and b: "b \<in> set ?vs" for a b
  proof -
    have sc: "js_get_or ?scopes v [] = js_get_or (gi_scopes inp) v []" if "v \<in> set ?vs" for v
      using vs_tasks that task_scopes_get [of inp v] by (auto simp: js_get_or_def)
    have e: "js_get_or ?expanded v [] = expandEpicScope rt (js_get_or (gi_scopes inp) v []) (gi_coWrites inp)"
      and n: "js_get_or ?normalized v [] = map (normalizePath rt) (js_get_or (gi_scopes inp) v [])" if "v \<in> set ?vs" for v
      unfolding js_get_or_def [of ?expanded] js_get_or_def [of ?normalized] js_get_map_keys sc [OF that] using that by simp_all
    have c: "crossCoupled (js_get ?partners a) (js_get ?partners b) \<longleftrightarrow>
        (case gi_cochange inp of None \<Rightarrow> False
         | Some sig \<Rightarrow> \<exists>e \<in> set (cs_pairs sig). active_pair (cs_threshold sig) e \<and>
             cross_couple (map (normalizePath rt) (js_get_or (gi_scopes inp) a []))
               (map (normalizePath rt) (js_get_or (gi_scopes inp) b [])) e)"
    proof (cases "gi_cochange inp")
      case None
      then show ?thesis by (simp add: cochangePartners_def crossCoupled_def)
    next
      case (Some sig)
      show ?thesis unfolding Some option.case index_is_pair_rule [OF a b] n [OF a] n [OF b] ..
    qed
    show ?thesis unfolding graph_conflict_def c e [OF a] e [OF b] ..
  qed
  have "graph_edge g a b \<longleftrightarrow> ((a, b) \<in> set (index_pairs ?vs) \<and> ?P a b) \<or> ((b, a) \<in> set (index_pairs ?vs) \<and> ?P b a)"
  proof -
    have none: "neighbours ?adj0 a = {}" by (simp add: js_get_or_def js_get_map_keys del: map_map)
    show ?thesis
      unfolding graph_edge_def g' conflict_graph.select_convs add_edges_get none empty_iff simp_thms ..
  qed
  also have "\<dots> \<longleftrightarrow> a \<in> set ?vs \<and> b \<in> set ?vs \<and> a \<noteq> b \<and> graph_conflict rt inp a b"
    using index_pairs_mem [of a b ?vs] index_pairs_mem [of b a ?vs] index_pairs_neq [OF dvs, of a b]
      index_pairs_neq [OF dvs, of b a] index_pairs_total [of a ?vs b] P [of a b] P [of b a]
      graph_conflict_sym [of rt inp a b] by blast
  finally show "graph_edge g a b \<longleftrightarrow> a \<in> set (js_keys (g_adjacency g)) \<and> b \<in> set (js_keys (g_adjacency g)) \<and> a \<noteq> b \<and>
           graph_conflict rt inp a b" unfolding keys .
qed

text \<open>The planner is at least as strict as the pair predicate.\<close>

lemma graph_conflict_stricter:
  assumes "pv_conflict (epicPairConflict rt (js_get_or (gi_scopes inp) a []) (js_get_or (gi_scopes inp) b []) pairs th)"
    and "gi_cochange inp = Some sig \<and> set pairs \<subseteq> set (cs_pairs sig) \<and> th = cs_threshold sig \<or> pairs = []"
  shows "graph_conflict rt inp a b"
proof -
  let ?a = "map (normalizePath rt) (js_get_or (gi_scopes inp) a [])"
    and ?b = "map (normalizePath rt) (js_get_or (gi_scopes inp) b [])"
  consider "pathOverlap rt ?a ?b" | e where "e \<in> set pairs" "active_pair th e" "cross_couple ?a ?b e"
    using assms(1) unfolding epicPairConflict_iff by blast
  then show ?thesis
  proof cases
    case 1
    then have "pathOverlap rt (expandEpicScope rt (js_get_or (gi_scopes inp) a []) (gi_coWrites inp))
        (expandEpicScope rt (js_get_or (gi_scopes inp) b []) (gi_coWrites inp))"
      using path_overlap.disjoint_anti expandEpicScope_covers by (metis list.set_map)
    then show ?thesis by (simp add: graph_conflict_def)
  next
    case 2
    then show ?thesis using assms(2) by (auto simp: graph_conflict_def)
  qed
qed

end
