(* ===== verification/Component_Facts.thy ===== *)
theory Component_Facts
  imports Graph_Facts
begin

text \<open>
  \<open>partitionEpicComponents\<close> returns, and what it returns are the connected components of the
  conflict graph: the union-find classes are the reachability classes of the edge relation, each
  task is in exactly one component, and the recorded edge count is the number of edges inside.
\<close>

section \<open>The classes after the unions\<close>

lemma initial_parents_fold:
  "distinct (js_keys m @ ms) \<Longrightarrow>
   fold (\<lambda>v parent. if P v then parent else js_set v v parent) ms m = m @ map (\<lambda>v. (v, v)) (filter (\<lambda>v. \<not> P v) ms)"
proof (induction ms arbitrary: m)
  case Nil
  then show ?case by simp
next
  case (Cons v ms)
  have "js_set v v m = m @ [(v, v)]"
  proof -
    have "v \<notin> set (js_keys m)" using Cons.prems by auto
    then show ?thesis by (induction m) auto
  qed
  with Cons.IH [of m] Cons.IH [of "m @ [(v, v)]"] Cons.prems show ?case by auto
qed

lemma initial_parents_eq:
  "distinct members \<Longrightarrow> initial_parents g members =
     map (\<lambda>v. (v, v)) (filter (\<lambda>v. \<not> js_has (g_exclusive g) v) members)"
  unfolding initial_parents_def using initial_parents_fold [of "[]" members] by simp

lemma identity_parents:
  assumes "p = map (\<lambda>v. (v, v)) vs"
  shows "forest p" "js_keys p = vs" "same_class p x y \<longleftrightarrow> x = y \<and> x \<in> set vs"
proof -
  have get: "js_get p v = (if v \<in> set vs then Some v else None)" for v
    unfolding assms by (rule js_get_map_keys)
  show keys: "js_keys p = vs" unfolding assms by (simp add: comp_def)
  have self: "v \<in> set vs \<Longrightarrow> rooted p v v" for v by (rule rooted.root) (simp add: get)
  show "forest p" unfolding forest_def keys using self by blast
  show "same_class p x y \<longleftrightarrow> x = y \<and> x \<in> set vs"
  proof
    assume "same_class p x y"
    then obtain r where r: "rooted p x r" "rooted p y r" by (auto simp: same_class_def)
    have x: "x \<in> set vs" and y: "y \<in> set vs" using rooted_key [OF r(1)] rooted_key [OF r(2)] unfolding keys by auto
    show "x = y \<and> x \<in> set vs"
      using rooted_unique [OF r(1) self [OF x]] rooted_unique [OF r(2) self [OF y]] x by simp
  qed (auto simp: same_class_def intro: self)
qed

text \<open>Reachability over a list of undirected edges.\<close>

definition linked :: "('k \<times> 'k) list \<Rightarrow> 'k \<Rightarrow> 'k \<Rightarrow> bool" where
  "linked es = (\<lambda>x y. (x, y) \<in> set es \<or> (y, x) \<in> set es)\<^sup>*\<^sup>*"

lemma linked_sym: "linked es x y \<Longrightarrow> linked es y x"
  unfolding linked_def by (rule sympD [OF symp_rtranclp]) (auto simp: symp_def)

lemma linked_refl [simp]: "linked es x x"
  by (simp add: linked_def)

lemma linked_trans: "linked es x y \<Longrightarrow> linked es y z \<Longrightarrow> linked es x z"
  unfolding linked_def by (rule rtranclp_trans)

lemma linked_Nil: "linked [] x y \<longleftrightarrow> x = y"
proof
  assume "linked [] x y"
  then show "x = y" unfolding linked_def by (induction rule: rtranclp_induct) simp_all
qed simp

lemma linked_mono: "set es \<subseteq> set es' \<Longrightarrow> linked es x y \<Longrightarrow> linked es' x y"
  unfolding linked_def by (rule rtranclp_mono [THEN predicate2D, rotated]) auto

lemma linked_snoc:
  "linked (es @ [(a, b)]) x y \<longleftrightarrow>
     linked es x y \<or> (linked es x a \<and> linked es y b) \<or> (linked es x b \<and> linked es y a)"
proof
  assume "linked (es @ [(a, b)]) x y"
  then show "linked es x y \<or> (linked es x a \<and> linked es y b) \<or> (linked es x b \<and> linked es y a)"
    unfolding linked_def [of "es @ [(a, b)]"]
  proof (induction rule: rtranclp_induct)
    case base
    then show ?case by (simp add: linked_def)
  next
    case (step y z)
    consider "linked es y z" | "y = a" "z = b" | "y = b" "z = a"
      using step.hyps(2) by (auto simp: linked_def)
    then show ?case
    proof cases
      case 1
      have r: "linked es w z" if "linked es w y" for w by (rule linked_trans [OF that 1])
      have l: "linked es z w" if "linked es y w" for w by (rule linked_trans [OF linked_sym [OF 1] that])
      show ?thesis using step.IH r l by metis
    next
      case 2
      have s: "linked es w w'" if "linked es w' w" for w w' by (rule linked_sym [OF that])
      show ?thesis using step.IH s 2 linked_refl by metis
    next
      case 3
      have s: "linked es w w'" if "linked es w' w" for w w' by (rule linked_sym [OF that])
      show ?thesis using step.IH s 3 linked_refl by metis
    qed
  qed
next
  have up: "linked es u v \<Longrightarrow> linked (es @ [(a, b)]) u v" for u v by (rule linked_mono) auto
  have ab: "linked (es @ [(a, b)]) a b" "linked (es @ [(a, b)]) b a"
    unfolding linked_def by (auto intro: r_into_rtranclp)
  assume "linked es x y \<or> (linked es x a \<and> linked es y b) \<or> (linked es x b \<and> linked es y a)"
  then show "linked (es @ [(a, b)]) x y"
  proof (elim disjE conjE)
    assume "linked es x y"
    then show ?thesis by (rule up)
  next
    assume x: "linked es x a" and y: "linked es y b"
    show ?thesis by (rule linked_trans [OF up [OF x] linked_trans [OF ab(1) up [OF linked_sym [OF y]]]])
  next
    assume x: "linked es x b" and y: "linked es y a"
    show ?thesis by (rule linked_trans [OF up [OF x] linked_trans [OF ab(2) up [OF linked_sym [OF y]]]])
  qed
qed

lemma union_edges_spec:
  assumes p0: "p0 = map (\<lambda>v. (v, v)) vs" and es: "set es \<subseteq> set vs \<times> set vs"
  shows "\<exists>p. fold_option union_edge es p0 = Some p \<and> forest p \<and> js_keys p = vs \<and>
    (\<forall>x y. same_class p x y \<longleftrightarrow> x \<in> set vs \<and> y \<in> set vs \<and> linked es x y)"
proof -
  let ?P = "\<lambda>es p. forest p \<and> js_keys p = vs \<and>
    (\<forall>x y. same_class p x y \<longleftrightarrow> x \<in> set vs \<and> y \<in> set vs \<and> linked es x y)"
  have start: "?P [] p0" using identity_parents [OF p0] unfolding linked_Nil by auto
  have "\<exists>p'. union_edge e p = Some p' \<and> ?P (es' @ [e]) p'" if P: "?P es' p" and e: "e \<in> set es" for es' e p
  proof -
    obtain a b where ab: "e = (a, b)" by (cases e)
    have mem: "a \<in> set vs" "b \<in> set vs" using e es ab by auto
    from union_edge_spec [of p a b] P mem obtain p' where p': "union_edge (a, b) p = Some p'" "forest p'"
      "js_keys p' = vs" "\<forall>x y. same_class p' x y \<longleftrightarrow>
       same_class p x y \<or> (same_class p x a \<and> same_class p y b) \<or> (same_class p x b \<and> same_class p y a)"
      by auto
    have "same_class p' x y \<longleftrightarrow> x \<in> set vs \<and> y \<in> set vs \<and> linked (es' @ [e]) x y" for x y
      using p'(4) P mem unfolding ab linked_snoc by blast
    with p' ab show ?thesis by blast
  qed
  from fold_option_inv [of ?P p0 es union_edge, OF start this] show ?thesis by blast
qed

section \<open>The groups\<close>

lemma collect_groups_spec:
  assumes "forest p" "js_keys p = vs"
  shows "\<exists>p' groups. fold_option collect_group vs (p, []) = Some (p', groups) \<and> forest p' \<and> js_keys p' = vs \<and>
    rooted p' = rooted p \<and> distinct (js_keys groups) \<and>
    (\<forall>r. js_get_or groups r [] = filter (\<lambda>v. rooted p v r) vs) \<and>
    set (js_keys groups) = {r. \<exists>v \<in> set vs. rooted p v r}"
proof -
  let ?P = "\<lambda>ws s. forest (fst s) \<and> js_keys (fst s) = vs \<and> rooted (fst s) = rooted p \<and> distinct (js_keys (snd s)) \<and>
    (\<forall>r. js_get_or (snd s) r [] = filter (\<lambda>v. rooted p v r) ws) \<and>
    set (js_keys (snd s)) = {r. \<exists>v \<in> set ws. rooted p v r}"
  have start: "?P [] (p, [])" using assms by (simp add: js_get_or_def)
  have "\<exists>s'. collect_group v s = Some s' \<and> ?P (ws @ [v]) s'" if P: "?P ws s" and v: "v \<in> set vs" for ws v s
  proof -
    from uf_find_spec [of "fst s" v] P v obtain r p1 where f: "uf_find v (fst s) = Some (r, p1)" "rooted p v r"
      "forest p1" "rooted p1 = rooted p" "js_keys p1 = vs" by auto
    have un: "rooted p v r' \<longleftrightarrow> r' = r" for r' using f(2) rooted_unique by metis
    have "js_get_or (js_set r (js_get_or (snd s) r [] @ [v]) (snd s)) r' [] = filter (\<lambda>w. rooted p w r') (ws @ [v])" for r'
      using P by (cases "r' = r") (simp_all add: js_map_simps un)
    moreover have "set (js_keys (js_set r (js_get_or (snd s) r [] @ [v]) (snd s))) = {r'. \<exists>w \<in> set (ws @ [v]). rooted p w r'}"
    proof -
      have "set (js_keys (js_set r (js_get_or (snd s) r [] @ [v]) (snd s))) = insert r (set (js_keys (snd s)))"
        unfolding js_keys_set by auto
      then show ?thesis using P un by auto
    qed
    moreover have "distinct (js_keys (js_set r (js_get_or (snd s) r [] @ [v]) (snd s)))"
      using P by (intro js_maps.distinct_put) blast
    ultimately show ?thesis using f P by (simp add: collect_group_def)
  qed
  from fold_option_inv [of ?P "(p, [])" vs collect_group, OF start this] show ?thesis by auto
qed

lemma count_edges_spec:
  assumes "forest p" "js_keys p = vs" "set es \<subseteq> set vs \<times> set vs"
  shows "\<exists>p' counts. fold_option count_edge es (p, []) = Some (p', counts) \<and>
    (\<forall>r. js_get_or counts r 0 = length (filter (\<lambda>(a, b). rooted p a r) es))"
proof -
  let ?P = "\<lambda>fs s. forest (fst s) \<and> js_keys (fst s) = vs \<and> rooted (fst s) = rooted p \<and>
    (\<forall>r. js_get_or (snd s) r 0 = length (filter (\<lambda>(a, b). rooted p a r) fs))"
  have start: "?P [] (p, [])" using assms by (simp add: js_get_or_def)
  have "\<exists>s'. count_edge e s = Some s' \<and> ?P (fs @ [e]) s'" if P: "?P fs s" and e: "e \<in> set es" for fs e s
  proof -
    have "fst e \<in> set vs" using e assms(3) by auto
    with uf_find_spec [of "fst s" "fst e"] P obtain r p1 where f: "uf_find (fst e) (fst s) = Some (r, p1)"
      "rooted p (fst e) r" "forest p1" "rooted p1 = rooted p" "js_keys p1 = vs" by auto
    have un: "rooted p (fst e) r' \<longleftrightarrow> r' = r" for r' using f(2) rooted_unique by metis
    have "js_get_or (js_set r (js_get_or (snd s) r 0 + 1) (snd s)) r' 0 = length (filter (\<lambda>(a, b). rooted p a r') (fs @ [e]))" for r'
      using P by (cases "r' = r") (simp_all add: js_map_simps un split_beta)
    with f show ?thesis by (simp add: count_edge_def)
  qed
  from fold_option_inv [of ?P "(p, [])" es count_edge, OF start this] show ?thesis by auto
qed

section \<open>Edges among the members\<close>

definition wf_graph :: "conflict_graph \<Rightarrow> bool" where
  "wf_graph g =
     (distinct (js_keys (g_adjacency g)) \<and> (\<forall>(a, ns) \<in> set (g_adjacency g). distinct ns) \<and>
      (\<forall>a b. graph_edge g a b \<longrightarrow> graph_edge g b a \<and> a \<noteq> b))"

lemma distinct_neighbours_add_edges:
  "\<forall>(a, ns) \<in> set adj. distinct ns \<Longrightarrow> \<forall>(a, ns) \<in> set (add_edges P ps adj). distinct ns"
proof (induction ps arbitrary: adj)
  case Nil
  then show ?case by (simp add: add_edges_def)
next
  case (Cons p ps)
  obtain a b where p: "p = (a, b)" by (cases p)
  have put: "\<forall>(k, ns) \<in> set (js_set a (set_add b (js_get_or m a [])) m). distinct ns"
    if m: "\<forall>(k, ns) \<in> set m. distinct ns" for a b and m :: "(string, string list) js_map"
  proof -
    have "distinct (js_get_or m a [])" using js_get_or_mem [of a m "[]"] m by auto
    then have "distinct (set_add b (js_get_or m a []))" by simp
    then show ?thesis using m js_set_mem [of _ _ a "set_add b (js_get_or m a [])" m] by blast
  qed
  have step: "\<forall>(k, ns) \<in> set (add_conflict_edge (a, b) adj). distinct ns"
    unfolding add_conflict_edge_def Let_def prod.case by (intro put Cons.prems)
  have "add_edges P (p # ps) adj = add_edges P ps (if P a b then add_conflict_edge (a, b) adj else adj)"
    by (simp add: add_edges_def p)
  then show ?case using Cons.IH [OF step] Cons.IH [OF Cons.prems] by (cases "P a b") simp_all
qed

lemma wf_graph_build: "wf_graph (buildEpicConflictGraph rt inp)"
proof -
  have "\<forall>(a, ns) \<in> set (g_adjacency (buildEpicConflictGraph rt inp)). distinct ns"
  proof -
    obtain P ps vs where eq: "g_adjacency (buildEpicConflictGraph rt inp) = add_edges P ps (map (\<lambda>v. (v, [])) vs)"
      using graph_spec(6) [OF refl] by blast
    show ?thesis unfolding eq by (rule distinct_neighbours_add_edges) auto
  qed
  then show ?thesis
    unfolding wf_graph_def graph_spec(5) [OF refl]
    using graph_spec(2) [OF refl, of rt inp] graph_conflict_sym by metis
qed

text \<open>The tasks that take part in the union-find.\<close>

definition shared_tasks :: "conflict_graph \<Rightarrow> string list \<Rightarrow> string list" where
  "shared_tasks g ids = filter (\<lambda>v. \<not> js_has (g_exclusive g) v) (js_uniq ids)"

lemma code_unit_less_total: "a \<noteq> b \<Longrightarrow> code_unit_compare a b < 0 \<or> code_unit_compare b a < 0"
  using code_units.cmp_sign [of a b] code_unit_compare_eq_0 [of a b] code_unit_compare_eq_0 [of b a] by linarith

lemma member_edges_mem:
  assumes "distinct (js_keys (g_adjacency g))" "p = map (\<lambda>v. (v, v)) vs"
  shows "(a, b) \<in> set (member_edges g p) \<longleftrightarrow>
     a \<in> set vs \<and> b \<in> set vs \<and> graph_edge g a b \<and> code_unit_compare a b < 0"
proof -
  have has: "js_has p v \<longleftrightarrow> v \<in> set vs" for v unfolding assms(2) js_has_def js_get_map_keys by simp
  have nb: "(\<exists>ns. (a, ns) \<in> set (g_adjacency g) \<and> b \<in> set ns) \<longleftrightarrow> graph_edge g a b"
    using assms(1) by (auto simp: graph_edge_def js_get_or_def map_of_eq_Some_iff dest: map_of_SomeD split: option.splits)
  have "(a, b) \<in> set (member_edges g p) \<longleftrightarrow>
      (\<exists>ns. (a, ns) \<in> set (g_adjacency g) \<and> b \<in> set ns) \<and> js_has p a \<and> js_has p b \<and> code_unit_compare a b < 0"
    unfolding member_edges_def by (auto split: if_splits)
  then show ?thesis unfolding nb has by blast
qed

text \<open>Reachability in the conflict graph through the given tasks.\<close>

definition connected_in :: "conflict_graph \<Rightarrow> string set \<Rightarrow> string \<Rightarrow> string \<Rightarrow> bool" where
  "connected_in g M = (\<lambda>u v. u \<in> M \<and> v \<in> M \<and> graph_edge g u v)\<^sup>*\<^sup>*"

lemma linked_connected:
  assumes "wf_graph g" "p = map (\<lambda>v. (v, v)) vs"
  shows "linked (member_edges g p) = connected_in g (set vs)"
proof -
  have d: "distinct (js_keys (g_adjacency g))" using assms(1) by (simp add: wf_graph_def)
  have "(x, y) \<in> set (member_edges g p) \<or> (y, x) \<in> set (member_edges g p) \<longleftrightarrow>
      x \<in> set vs \<and> y \<in> set vs \<and> graph_edge g x y" for x y
    unfolding member_edges_mem [OF d assms(2)] using assms(1) code_unit_less_total [of x y]
    by (auto simp: wf_graph_def)
  then show ?thesis by (simp add: linked_def connected_in_def)
qed

section \<open>The component map\<close>

lemma js_get_fold_set: "js_get (fold (\<lambda>i. js_set i k) is m) x = (if x \<in> set is then Some k else js_get m x)"
  by (induction "is" arbitrary: m) (auto simp: js_map_simps)

lemma component_map_get:
  assumes "c \<in> set cs" "x \<in> set (ec_members c)"
    and "\<And>c'. c' \<in> set cs \<Longrightarrow> x \<in> set (ec_members c') \<Longrightarrow> ec_id c' = ec_id c"
  shows "js_get (component_map cs) x = Some (ec_id c)"
proof -
  have "js_get (fold (\<lambda>c. fold (\<lambda>i. js_set i (ec_id c)) (ec_members c)) ds m) x = Some k"
    if "\<forall>d \<in> set ds. x \<in> set (ec_members d) \<longrightarrow> ec_id d = k"
      "(\<exists>d \<in> set ds. x \<in> set (ec_members d)) \<or> js_get m x = Some k" for ds m k
    using that by (induction ds arbitrary: m) (auto simp: js_get_fold_set)
  from this [of cs "ec_id c" "[]"] assms show ?thesis unfolding component_map_def by blast
qed

lemma component_map_keys: "set (js_keys (component_map cs)) = \<Union> (set ` ec_members ` set cs)"
proof -
  have inner: "fst ` set (fold (\<lambda>i. js_set i k) is m) = fst ` set m \<union> set is" for k "is" and m :: "(string, string) js_map"
    by (induction "is" arbitrary: m) (auto simp: js_map_simps)
  have "fst ` set (fold (\<lambda>c. fold (\<lambda>i. js_set i (ec_id c)) (ec_members c)) ds m) =
      fst ` set m \<union> \<Union> (set ` ec_members ` set ds)" for ds m
    by (induction ds arbitrary: m) (auto simp: inner)
  from this [of cs "[]"] show ?thesis by (simp add: component_map_def)
qed

lemma distinct_concat_eq:
  "distinct (concat (map f xs)) \<Longrightarrow> c \<in> set xs \<Longrightarrow> c' \<in> set xs \<Longrightarrow> x \<in> set (f c) \<Longrightarrow> x \<in> set (f c') \<Longrightarrow> c = c'"
  by (induction xs) auto

section \<open>The partition\<close>

lemma filter_classes_distinct:
  assumes "distinct vs" "distinct rs" "\<And>v r r'. P v r \<Longrightarrow> P v r' \<Longrightarrow> r = r'"
  shows "distinct (concat (map (\<lambda>r. filter (\<lambda>v. P v r) vs) rs))"
  using assms(2)
proof (induction rs)
  case Nil
  then show ?case by simp
next
  case (Cons r rs)
  then show ?case using assms(1,3) by (auto simp: distinct_filter)
qed

lemma distinct_concat_mset: "mset xs = mset ys \<Longrightarrow> distinct (concat (map f xs)) = distinct (concat (map f ys))"
proof -
  assume "mset xs = mset ys"
  moreover have "mset (concat (map f zs)) = (\<Sum>z \<in># mset zs. mset (f z))" for zs
    by (induction zs) simp_all
  ultimately have "mset (concat (map f xs)) = mset (concat (map f ys))" by simp
  then show ?thesis by (rule mset_eq_imp_distinct_iff)
qed

lemma distinct_concat_sorted:
  "distinct (concat (map f xs)) \<Longrightarrow> (\<And>x. x \<in> set xs \<Longrightarrow> mset (g x) = mset (f x)) \<Longrightarrow> distinct (concat (map g xs))"
proof -
  assume d: "distinct (concat (map f xs))" and m: "\<And>x. x \<in> set xs \<Longrightarrow> mset (g x) = mset (f x)"
  have "mset (concat (map g xs)) = mset (concat (map f xs))"
    using m by (induction xs) auto
  then show ?thesis using d by (metis mset_eq_imp_distinct_iff)
qed

lemma distinct_keyed_concat:
  assumes "distinct (js_keys m)" "\<And>a ns. (a, ns) \<in> set m \<Longrightarrow> distinct (F a ns)"
  shows "distinct (concat (map (\<lambda>(a, ns). map (Pair a) (F a ns)) m))"
  using assms
proof (induction m)
  case Nil
  then show ?case by simp
next
  case (Cons e m)
  obtain a ns where e: "e = (a, ns)" by (cases e)
  have "fst x \<in> set (js_keys m)" if "x \<in> set (concat (map (\<lambda>(a, ns). map (Pair a) (F a ns)) m))" for x
    using that by (induction m) auto
  then have "set (map (Pair a) (F a ns)) \<inter> set (concat (map (\<lambda>(a, ns). map (Pair a) (F a ns)) m)) = {}"
    using Cons.prems(1) e by fastforce
  moreover have "distinct (concat (map (\<lambda>(a, ns). map (Pair a) (F a ns)) m))"
    using Cons.IH Cons.prems by simp
  moreover have "distinct (map (Pair a) (F a ns))"
    using Cons.prems(2) [of a ns] e by (simp add: distinct_map inj_on_def)
  ultimately show ?case unfolding e list.map concat.simps prod.case distinct_append by blast
qed

lemma distinct_member_edges:
  assumes "wf_graph g"
  shows "distinct (member_edges g p)"
proof -
  have eq: "member_edges g p = concat (map (\<lambda>(a, ns). map (Pair a)
      (if \<not> js_has p a then [] else filter (\<lambda>b. code_unit_compare a b < 0 \<and> js_has p b) ns)) (g_adjacency g))"
    unfolding member_edges_def by (intro arg_cong [of _ _ concat] map_cong) (auto split: prod.split)
  show ?thesis
    unfolding eq by (rule distinct_keyed_concat) (use assms in \<open>auto simp: wf_graph_def\<close>)
qed

text \<open>What a partition into components is.\<close>

definition inner_edges :: "conflict_graph \<Rightarrow> string set \<Rightarrow> (string \<times> string) set" where
  "inner_edges g M = {(a, b). a \<in> M \<and> b \<in> M \<and> graph_edge g a b \<and> code_unit_compare a b < 0}"

definition shared_component :: "conflict_graph \<Rightarrow> string list \<Rightarrow> rat \<Rightarrow> epic_component \<Rightarrow> bool" where
  "shared_component g ids th c =
     (let n = length (ec_members c) in
      (\<forall>x \<in> set (ec_members c). x \<in> set (shared_tasks g ids) \<and>
         (\<forall>y \<in> set (shared_tasks g ids). y \<in> set (ec_members c) \<longleftrightarrow> connected_in g (set (shared_tasks g ids)) x y)) \<and>
      ec_edgeCount c = card (inner_edges g (set (ec_members c))) \<and>
      ec_density c = (if n < 2 then 0 else of_nat (ec_edgeCount c) / (of_nat (n * (n - 1)) / 2)) \<and>
      ec_mode c = (if ec_density c > th then Serial_Component else Parallel) \<and>
      ec_exclusiveReason c = None)"

definition valid_partition :: "conflict_graph \<Rightarrow> string list \<Rightarrow> rat \<Rightarrow> component_partition \<Rightarrow> bool" where
  "valid_partition g ids th part =
     (distinct (concat (map ec_members (cp_components part))) \<and>
      set (concat (map ec_members (cp_components part))) = set ids \<and>
      cp_threshold part = th \<and>
      (\<forall>c \<in> set (cp_components part).
         ec_id c \<in> set (ec_members c) \<and>
         (\<forall>x \<in> set (ec_members c). js_get (cp_componentOf part) x = Some (ec_id c)) \<and>
         (case js_get (g_exclusive g) (ec_id c) of
            Some r \<Rightarrow> c = exclusive_component (ec_id c) r
          | None \<Rightarrow> shared_component g ids th c)))"

lemma group_component_shared:
  assumes wf: "wf_graph g" and vs: "vs = shared_tasks g ids"
    and p: "forest p" "\<And>x y. same_class p x y \<longleftrightarrow> x \<in> set vs \<and> y \<in> set vs \<and> connected_in g (set vs) x y"
    and grp: "grp = filter (\<lambda>v. rooted p v r) vs" "grp \<noteq> []"
    and es: "es = member_edges g (map (\<lambda>v. (v, v)) vs)"
    and cnt: "js_get_or counts r 0 = length (filter (\<lambda>(a, b). rooted p a r) es)"
  shows "shared_component g ids th (group_component rt th counts (r, grp))"
    and "ec_id (group_component rt th counts (r, grp)) \<in> set grp"
    and "mset (ec_members (group_component rt th counts (r, grp))) = mset grp"
proof -
  let ?c = "group_component rt th counts (r, grp)"
  have mem: "ec_members ?c = js_sort (locale_compare rt) grp" by (simp add: group_component_def Let_def)
  have mset: "mset (ec_members ?c) = mset grp" unfolding mem by simp
  then show "mset (ec_members ?c) = mset grp" .
  have set: "set (ec_members ?c) = set grp" unfolding mem by simp
  have "js_sort (locale_compare rt) grp \<noteq> []" using grp(2) by simp
  then have "hd (js_sort (locale_compare rt) grp) \<in> set (js_sort (locale_compare rt) grp)" by (rule hd_in_set)
  then show "ec_id ?c \<in> set grp" by (simp add: group_component_def Let_def)
  have cls: "y \<in> set grp \<longleftrightarrow> connected_in g (set vs) x y" if x: "x \<in> set grp" and y: "y \<in> set vs" for x y
  proof -
    have rx: "rooted p x r" and xv: "x \<in> set vs" using x unfolding grp(1) by auto
    have "rooted p y r \<longleftrightarrow> same_class p x y"
      using rx rooted_unique [of p x] unfolding same_class_def by blast
    then show ?thesis using p(2) [of x y] xv y unfolding grp(1) by auto
  qed
  have d: "distinct (js_keys (g_adjacency g))" using wf by (simp add: wf_graph_def)
  have edges: "set (filter (\<lambda>(a, b). rooted p a r) es) = inner_edges g (set grp)"
  proof -
    have "b \<in> set grp" if "rooted p a r" "(a, b) \<in> set es" for a b
    proof -
      have ab: "a \<in> set vs" "b \<in> set vs" "graph_edge g a b"
        using that(2) unfolding es member_edges_mem [OF d refl] by auto
      then have "connected_in g (set vs) a b" unfolding connected_in_def by (auto intro: r_into_rtranclp)
      moreover have "a \<in> set grp" using that(1) ab unfolding grp(1) by simp
      ultimately show ?thesis using cls ab by blast
    qed
    then have "x \<in> set (filter (\<lambda>(a, b). rooted p a r) es) \<longleftrightarrow> x \<in> inner_edges g (set grp)" for x
      unfolding inner_edges_def es
      by (cases x) (use member_edges_mem [OF d refl] grp(1) in \<open>auto simp: es\<close>)
    then show ?thesis by blast
  qed
  have "ec_edgeCount ?c = length (filter (\<lambda>(a, b). rooted p a r) es)"
    using cnt by (simp add: group_component_def Let_def)
  also have "\<dots> = card (inner_edges g (set grp))"
    unfolding edges [symmetric] es
    by (rule distinct_card [symmetric]) (simp add: distinct_filter distinct_member_edges [OF wf])
  finally have count: "ec_edgeCount ?c = card (inner_edges g (set grp))" .
  have len: "length (ec_members ?c) = length grp" unfolding mem by simp
  have rest: "ec_density ?c = (if length grp < 2 then 0 else of_nat (ec_edgeCount ?c) / (of_nat (length grp * (length grp - 1)) / 2))"
    "ec_mode ?c = (if ec_density ?c > th then Serial_Component else Parallel)" "ec_exclusiveReason ?c = None"
    by (simp_all add: group_component_def Let_def)
  show "shared_component g ids th ?c"
    unfolding shared_component_def Let_def len set vs [symmetric] count [symmetric]
    using cls rest grp(1) by (intro conjI ballI) auto
qed

lemma partition_spec:
  assumes wf: "wf_graph g"
  shows "\<exists>part. partitionEpicComponents rt g ids th = Some part \<and> valid_partition g ids th part"
proof -
  let ?members = "js_uniq ids"
  let ?vs = "shared_tasks g ids"
  let ?p0 = "map (\<lambda>v. (v, v)) ?vs"
  let ?es = "member_edges g ?p0"
  have p0: "initial_parents g ?members = ?p0"
    by (simp add: initial_parents_eq shared_tasks_def)
  have dvs: "distinct ?vs" by (simp add: shared_tasks_def)
  have d: "distinct (js_keys (g_adjacency g))" using wf by (simp add: wf_graph_def)
  have es_vs: "set ?es \<subseteq> set ?vs \<times> set ?vs"
    using member_edges_mem [OF d refl] by auto
  obtain p1 where p1: "fold_option union_edge ?es ?p0 = Some p1" "forest p1" "js_keys p1 = ?vs"
    "\<And>x y. same_class p1 x y \<longleftrightarrow> x \<in> set ?vs \<and> y \<in> set ?vs \<and> connected_in g (set ?vs) x y"
    using union_edges_spec [OF refl es_vs] unfolding linked_connected [OF wf refl] by blast
  obtain p2 groups where p2: "fold_option collect_group ?vs (p1, []) = Some (p2, groups)" "forest p2" "js_keys p2 = ?vs"
    "rooted p2 = rooted p1" "distinct (js_keys groups)" "\<And>r. js_get_or groups r [] = filter (\<lambda>v. rooted p1 v r) ?vs"
    "set (js_keys groups) = {r. \<exists>v \<in> set ?vs. rooted p1 v r}"
    using collect_groups_spec [OF p1(2,3)] by blast
  obtain p3 counts where p3: "fold_option count_edge ?es (p2, []) = Some (p3, counts)"
    "\<And>r. js_get_or counts r 0 = length (filter (\<lambda>(a, b). rooted p1 a r) ?es)"
    using count_edges_spec [OF p2(2,3) es_vs] unfolding p2(4) by blast
  let ?gc = "group_component rt th counts"
  let ?alone_of = "\<lambda>i. case js_get (g_exclusive g) i of Some reason \<Rightarrow> [exclusive_component i reason] | None \<Rightarrow> []"
  let ?grouped = "map ?gc groups" and ?alone = "concat (map ?alone_of ?members)"
  let ?comps = "?grouped @ ?alone"
  let ?part = "\<lparr>cp_components = js_sort (\<lambda>a b. locale_compare rt (ec_id a) (ec_id b)) ?comps,
                cp_componentOf = component_map ?comps, cp_threshold = th\<rparr>"
  have run: "partitionEpicComponents rt g ids th = Some ?part"
    unfolding partitionEpicComponents_def Let_def p0 p1(1) option.case p1(3) p2(1) prod.case p3(1) ..
  have entry: "grp = filter (\<lambda>v. rooted p1 v r) ?vs \<and> grp \<noteq> []" if "(r, grp) \<in> set groups" for r grp
  proof -
    have "js_get groups r = Some grp" using that p2(5) by simp
    then have "grp = filter (\<lambda>v. rooted p1 v r) ?vs" using p2(6) [of r] by (simp add: js_get_or_def)
    moreover have "r \<in> set (js_keys groups)" using that by force
    ultimately show ?thesis using p2(7) by (auto simp: filter_empty_conv)
  qed
  have grouped: "shared_component g ids th (?gc (r, grp)) \<and> ec_id (?gc (r, grp)) \<in> set grp \<and>
      mset (ec_members (?gc (r, grp))) = mset grp" if "(r, grp) \<in> set groups" for r grp
    using group_component_shared [OF wf refl p1(2,4) conjunct1 [OF entry [OF that]] conjunct2 [OF entry [OF that]] refl p3(2)]
    by blast
  have grouped_members: "set (ec_members c) \<subseteq> set ?vs" if c: "c \<in> set ?grouped" for c
  proof -
    obtain r grp where "(r, grp) \<in> set groups" "c = ?gc (r, grp)" using c by auto
    then have "shared_component g ids th c" using grouped by blast
    then show ?thesis by (auto simp: shared_component_def Let_def)
  qed
  have alone_mem: "c \<in> set ?alone \<longleftrightarrow> (\<exists>i r. i \<in> set ids \<and> js_get (g_exclusive g) i = Some r \<and> c = exclusive_component i r)" for c
    by (force split: option.splits)
  have distinct_grouped: "distinct (concat (map ec_members ?grouped))"
  proof -
    have "distinct (concat (map (\<lambda>r. filter (\<lambda>v. rooted p1 v r) ?vs) (js_keys groups)))"
      by (rule filter_classes_distinct [OF dvs p2(5)]) (rule rooted_unique)
    then have "distinct (concat (map (\<lambda>e. filter (\<lambda>v. rooted p1 v (fst e)) ?vs) groups))"
      by (simp add: comp_def)
    then have "distinct (concat (map (ec_members \<circ> ?gc) groups))"
    proof (rule distinct_concat_sorted)
      fix e
      assume e: "e \<in> set groups"
      obtain r grp where "e = (r, grp)" by (cases e)
      with e have rg: "(r, grp) \<in> set groups" "e = (r, grp)" by simp_all
      show "mset ((ec_members \<circ> ?gc) e) = mset (filter (\<lambda>v. rooted p1 v (fst e)) ?vs)"
        using conjunct2 [OF conjunct2 [OF grouped [OF rg(1)]]] conjunct1 [OF entry [OF rg(1)]] rg(2) by simp
    qed
    then show ?thesis by simp
  qed
  have alone_members: "concat (map ec_members ?alone) = filter (\<lambda>i. js_has (g_exclusive g) i) ?members"
  proof -
    have "concat (map ec_members (concat (map ?alone_of is))) = filter (\<lambda>i. js_has (g_exclusive g) i) is" for "is"
      by (induction "is") (auto simp: exclusive_component_def js_has_def split: option.splits)
    then show ?thesis .
  qed
  have distinct_alone: "distinct (concat (map ec_members ?alone))" unfolding alone_members by simp
  have set_alone: "set (concat (map ec_members ?alone)) = {i \<in> set ids. js_has (g_exclusive g) i}"
    unfolding alone_members by simp
  have set_grouped: "set (concat (map ec_members ?grouped)) = set ?vs"
  proof -
    have "v \<in> set (concat (map ec_members ?grouped))" if v: "v \<in> set ?vs" for v
    proof -
      obtain r where r: "rooted p1 v r" using p1(2,3) v by (auto simp: forest_def)
      then have "r \<in> set (js_keys groups)" using p2(7) v by blast
      then obtain grp where grp: "(r, grp) \<in> set groups" by auto
      have "v \<in> set grp" using entry [OF grp] r v by auto
      then have "v \<in> set (ec_members (?gc (r, grp)))" using grouped [OF grp] by (metis mset_eq_setD)
      then show ?thesis using grp by force
    qed
    then show ?thesis using grouped_members by fastforce
  qed
  have vs_excl: "v \<in> set ?vs \<longleftrightarrow> v \<in> set ids \<and> \<not> js_has (g_exclusive g) v" for v
    by (auto simp: shared_tasks_def)
  have distinct_all: "distinct (concat (map ec_members ?comps))"
    unfolding map_append concat_append distinct_append
    using distinct_grouped distinct_alone set_grouped set_alone vs_excl by auto
  have set_all: "set (concat (map ec_members ?comps)) = set ids"
    unfolding map_append concat_append set_append set_grouped set_alone using vs_excl by auto
  have same: "mset (cp_components ?part) = mset ?comps" by simp
  have comps: "set (cp_components ?part) = set ?comps" by simp
  have own: "js_get (cp_componentOf ?part) x = Some (ec_id c)" if c: "c \<in> set ?comps" "x \<in> set (ec_members c)" for c x
    unfolding component_partition.select_convs
  proof (rule component_map_get [OF c])
    fix c'
    assume c': "c' \<in> set ?comps" "x \<in> set (ec_members c')"
    have "c' = c" by (rule distinct_concat_eq [OF distinct_all c'(1) c(1) c'(2) c(2)])
    then show "ec_id c' = ec_id c" by simp
  qed
  have "ec_id c \<in> set (ec_members c) \<and>
      (case js_get (g_exclusive g) (ec_id c) of Some r \<Rightarrow> c = exclusive_component (ec_id c) r
       | None \<Rightarrow> shared_component g ids th c)" if c: "c \<in> set ?comps" for c
  proof (cases "c \<in> set ?grouped")
    case True
    then obtain r grp where grp: "(r, grp) \<in> set groups" "c = ?gc (r, grp)" by auto
    have id: "ec_id c \<in> set (ec_members c)" using grouped [OF grp(1)] unfolding grp(2) by (metis mset_eq_setD)
    then have "\<not> js_has (g_exclusive g) (ec_id c)" using grouped_members [OF True] vs_excl by blast
    then show ?thesis using id grouped [OF grp(1)] unfolding grp(2) by (simp add: js_has_def)
  next
    case False
    then show ?thesis using c alone_mem by (auto simp: exclusive_component_def)
  qed
  then have "valid_partition g ids th ?part"
    unfolding valid_partition_def comps distinct_concat_mset [OF same, of ec_members] 
    using distinct_all set_all own by (auto simp del: concat_append)
  with run show ?thesis by blast
qed

end
