(* ===== verification/Wave_Facts.thy ===== *)
theory Wave_Facts
  imports Component_Facts
begin

text \<open>
  The choice of the next wave: the greedy fill keeps the wave free of conflict edges and takes at
  most one task of a serial component, it is maximal, and exclusive tasks run alone.  The dry run
  repeats the step and loses no task.
\<close>

section \<open>Filling a wave\<close>

definition serial_clash :: "component_partition \<Rightarrow> string \<Rightarrow> string \<Rightarrow> bool" where
  "serial_clash part a b = (is_serial part a \<and> component_of part a = component_of part b)"

definition fill_inv ::
  "conflict_graph \<Rightarrow> component_partition \<Rightarrow> string list \<Rightarrow> string list \<times> string list \<Rightarrow> bool" where
  "fill_inv g part seen s =
     (set (fst s) \<subseteq> set seen \<and> (distinct seen \<longrightarrow> distinct (fst s)) \<and>
      sorted_wrt (\<lambda>a b. \<not> graph_edge g b a) (fst s) \<and>
      sorted_wrt (\<lambda>a b. \<not> serial_clash part a b) (fst s) \<and>
      set (snd s) = component_of part ` {a \<in> set (fst s). is_serial part a})"

definition blocked_by_wave :: "conflict_graph \<Rightarrow> component_partition \<Rightarrow> string list \<Rightarrow> string \<Rightarrow> bool" where
  "blocked_by_wave g part chosen v =
     (\<exists>c \<in> set chosen. graph_edge g v c \<or> serial_clash part v c)"

lemma is_serial_component: "component_of part a = component_of part b \<Longrightarrow> is_serial part a = is_serial part b"
  by (simp add: is_serial_def)

lemma fill_wave_spec:
  assumes "fill_inv g part seen (ch, us)" "length ch \<le> width"
    and "\<And>v. v \<in> set seen \<Longrightarrow> v \<in> set ch \<or> blocked_by_wave g part ch v"
    and "fill_wave g part width order (ch, us) = (ch', us')"
  shows "fill_inv g part (seen @ order) (ch', us') \<and> length ch' \<le> width \<and> set ch \<subseteq> set ch' \<and>
    (\<forall>v \<in> set (seen @ order). v \<in> set ch' \<or> length ch' = width \<or> blocked_by_wave g part ch' v)"
  using assms
proof (induction order arbitrary: seen ch us)
  case Nil
  then show ?case by auto
next
  case (Cons v order)
  have mono: "blocked_by_wave g part ch w \<Longrightarrow> blocked_by_wave g part (ch @ [v]) w" for w
    by (auto simp: blocked_by_wave_def)
  have app: "seen @ v # order = (seen @ [v]) @ order" by simp
  have skip: "fill_inv g part (seen @ [v]) (ch, us)"
    using Cons.prems(1) by (auto simp: fill_inv_def)
  have clash: "is_serial part v \<and> component_of part v \<in> set us \<longleftrightarrow> (\<exists>c \<in> set ch. serial_clash part v c)"
    using Cons.prems(1) is_serial_component [of part v] unfolding fill_inv_def serial_clash_def by fastforce
  show ?case
  proof (cases "length ch \<ge> width")
    case True
    with Cons.prems(4) have "ch' = ch" "us' = us" by simp_all
    moreover have "fill_inv g part (seen @ v # order) (ch, us)"
      using Cons.prems(1) by (auto simp: fill_inv_def)
    ultimately show ?thesis using True Cons.prems(2) by simp
  next
    case narrow: False
    show ?thesis
    proof (cases "(\<exists>c \<in> set ch. serial_clash part v c) \<or> (\<exists>c \<in> set ch. graph_edge g v c)")
      case True
      then have "fill_wave g part width order (ch, us) = (ch', us')"
        using Cons.prems(4) narrow clash by (auto simp: Let_def list_ex_iff graph_edge_def split: if_splits)
      moreover have "w \<in> set ch \<or> blocked_by_wave g part ch w" if "w \<in> set (seen @ [v])" for w
        using that True Cons.prems(3) by (auto simp: blocked_by_wave_def)
      ultimately show ?thesis unfolding app by (intro Cons.IH [OF skip Cons.prems(2)])
    next
      case False
      let ?us = "if is_serial part v then set_add (component_of part v) us else us"
      have run: "fill_wave g part width order (ch @ [v], ?us) = (ch', us')"
        using Cons.prems(4) narrow clash False by (auto simp: Let_def list_ex_iff graph_edge_def split: if_splits)
      have sym: "serial_clash part c v \<Longrightarrow> serial_clash part v c" for c
        using is_serial_component [of part c v] by (auto simp: serial_clash_def)
      have v: "distinct (seen @ [v]) \<Longrightarrow> v \<notin> set ch" using Cons.prems(1) by (auto simp: fill_inv_def)
      have inv: "fill_inv g part (seen @ [v]) (ch @ [v], ?us)"
        using Cons.prems(1) False v sym by (auto simp: fill_inv_def sorted_wrt_append)
      have "w \<in> set (ch @ [v]) \<or> blocked_by_wave g part (ch @ [v]) w" if "w \<in> set (seen @ [v])" for w
        using that Cons.prems(3) mono by auto
      moreover have "length (ch @ [v]) \<le> width" using narrow by simp
      ultimately have "fill_inv g part ((seen @ [v]) @ order) (ch', us') \<and> length ch' \<le> width \<and> set (ch @ [v]) \<subseteq> set ch' \<and>
          (\<forall>w \<in> set ((seen @ [v]) @ order). w \<in> set ch' \<or> length ch' = width \<or> blocked_by_wave g part ch' w)"
        using run by (intro Cons.IH [OF inv])
      then show ?thesis unfolding app by auto
    qed
  qed
qed

section \<open>The chosen wave\<close>

lemma find_exclusive:
  "List.find P xs = None \<longleftrightarrow> (\<forall>x \<in> set xs. \<not> P x)"
  by (induction xs) auto

lemma chooseEpicWave_None: "chooseEpicWave rt g part ready maxParallel ages = None \<longleftrightarrow> ready = []"
  by (auto simp: chooseEpicWave_def Let_def split: option.split prod.split)

definition shared_wave ::
  "conflict_graph \<Rightarrow> component_partition \<Rightarrow> string list \<Rightarrow> nat \<Rightarrow> string list \<Rightarrow> bool" where
  "shared_wave g part ready width chosen =
     (set chosen \<subseteq> set ready \<and> (distinct ready \<longrightarrow> distinct chosen) \<and> chosen \<noteq> [] \<and> length chosen \<le> width \<and>
      sorted_wrt (\<lambda>a b. \<not> graph_edge g b a) chosen \<and>
      sorted_wrt (\<lambda>a b. \<not> serial_clash part a b) chosen \<and>
      (\<forall>v \<in> set ready. v \<in> set chosen \<or> length chosen = width \<or> blocked_by_wave g part chosen v))"

lemma chooseEpicWave_spec:
  assumes "chooseEpicWave rt g part ready maxParallel ages = Some w"
  shows "if \<exists>v \<in> set ready. js_has (g_exclusive g) v
    then wv_kind w = Wave_Exclusive \<and> (\<exists>v \<in> set ready. js_has (g_exclusive g) v \<and> wv_taskIds w = [v])
    else wv_kind w \<noteq> Wave_Exclusive \<and> shared_wave g part ready (nat (max 1 maxParallel)) (wv_taskIds w)"
proof -
  let ?order = "js_sort (wave_order rt g part ages) ready"
  let ?width = "nat (max 1 maxParallel)"
  have ready: "ready \<noteq> []" using assms by (auto simp: chooseEpicWave_def)
  show ?thesis
  proof (cases "List.find (js_has (g_exclusive g)) ?order")
    case (Some v)
    then have "v \<in> set ready" "js_has (g_exclusive g) v" using find_SomeD [OF Some] by auto
    moreover have "w = \<lparr>wv_taskIds = [v], wv_kind = Wave_Exclusive\<rparr>"
      using assms Some ready by (simp add: chooseEpicWave_def)
    ultimately show ?thesis by auto
  next
    case None
    obtain ch us where run: "fill_wave g part ?width ?order ([], []) = (ch, us)" by fastforce
    have w: "wv_taskIds w = ch" "wv_kind w \<noteq> Wave_Exclusive"
      using assms None ready run by (auto simp: chooseEpicWave_def Let_def split: if_splits)
    have none: "\<not> (\<exists>v \<in> set ready. js_has (g_exclusive g) v)"
      using None unfolding find_exclusive by simp
    have inv: "fill_inv g part [] ([], [])" by (simp add: fill_inv_def)
    from fill_wave_spec [OF inv _ _ run]
    have spec: "fill_inv g part ?order (ch, us)" "length ch \<le> ?width"
      "\<forall>v \<in> set ready. v \<in> set ch \<or> length ch = ?width \<or> blocked_by_wave g part ch v" by auto
    have "ch \<noteq> []"
    proof
      assume "ch = []"
      obtain v where "v \<in> set ready" using hd_in_set [OF ready] by blast
      with \<open>ch = []\<close> spec(3) have "?width = 0" by (auto simp: blocked_by_wave_def)
      then show False by simp
    qed
    with spec have "shared_wave g part ready ?width ch"
      by (auto simp: shared_wave_def fill_inv_def)
    with w none show ?thesis by simp
  qed
qed

text \<open>A ready task comes from the preflight's sorted tasks, each once.\<close>

lemma readyEpicTasks_spec:
  assumes g: "g = buildEpicConflictGraph rt inp"
  shows "distinct (readyEpicTasks rt g dn sat)"
    and "set (readyEpicTasks rt g dn sat) \<subseteq> t_id ` set (gi_tasks inp) - set dn"
    and "v \<in> set (readyEpicTasks rt g dn sat) \<Longrightarrow> \<exists>t. List.find (\<lambda>t. t_id t = v) (gi_tasks inp) = Some t \<and>
      (\<forall>d \<in> set (depends t). if d \<in> t_id ` set (gi_tasks inp) then d \<in> set dn else sat d)"
proof -
  let ?pf = "runPartitionPreflight rt (gi_directory inp) (gi_tasks inp) (gi_leanConfig inp)
           (Some (task_scopes inp)) (\<lambda>_. None)"
  have pf: "g_preflight g = ?pf" by (rule graph_spec(1) [OF g])
  have dist: "distinct (sorted_ids ?pf)" using preflight_spec(1) [OF refl] by (simp only: distinct_append)
  have tm: "js_has (taskMap ?pf) d \<longleftrightarrow> d \<in> t_id ` set (gi_tasks inp)" for d
    using topological_sort_spec [OF wf_build_task_map preflight_cases]
    unfolding js_has_keys using preflight_keys by metis
  let ?ok = "\<lambda>ct. c_id ct \<notin> set dn \<and> makeDependencySatisfactionChecker (taskMap ?pf) dn (Some sat) ct"
  have ready: "readyEpicTasks rt g dn sat =
      map c_id (js_sort (\<lambda>a b. locale_compare rt (c_id a) (c_id b)) (filter ?ok (sortedTasks ?pf)))"
    unfolding readyEpicTasks_def getReadyTasks_def pf ..
  have "mset (readyEpicTasks rt g dn sat) = mset (map c_id (filter ?ok (sortedTasks ?pf)))"
    unfolding ready by simp
  then have "distinct (readyEpicTasks rt g dn sat) = distinct (map c_id (filter ?ok (sortedTasks ?pf)))"
    by (rule mset_eq_imp_distinct_iff)
  then show "distinct (readyEpicTasks rt g dn sat)" using distinct_map_filter [OF dist] by simp
  have mem: "v \<in> set (readyEpicTasks rt g dn sat) \<longleftrightarrow> (\<exists>ct \<in> set (sortedTasks ?pf). ?ok ct \<and> v = c_id ct)" for v
    unfolding ready by auto
  have task: "List.find (\<lambda>t. t_id t = c_id ct) (gi_tasks inp) = Some (c_task ct)" if "ct \<in> set (sortedTasks ?pf)" for ct
  proof -
    obtain i where i: "i < length (sortedTasks ?pf)" "ct = sortedTasks ?pf ! i" using \<open>ct \<in> _\<close> by (metis in_set_conv_nth)
    then show ?thesis using preflight_spec(3) [OF refl i(1)] by simp
  qed
  show "set (readyEpicTasks rt g dn sat) \<subseteq> t_id ` set (gi_tasks inp) - set dn"
  proof
    fix v
    assume "v \<in> set (readyEpicTasks rt g dn sat)"
    then obtain ct where ct: "ct \<in> set (sortedTasks ?pf)" "?ok ct" "v = c_id ct" unfolding mem by blast
    from find_SomeD [OF task [OF ct(1)]] ct show "v \<in> t_id ` set (gi_tasks inp) - set dn" by auto
  qed
  show "\<exists>t. List.find (\<lambda>t. t_id t = v) (gi_tasks inp) = Some t \<and>
      (\<forall>d \<in> set (depends t). if d \<in> t_id ` set (gi_tasks inp) then d \<in> set dn else sat d)"
    if v: "v \<in> set (readyEpicTasks rt g dn sat)"
  proof -
    obtain ct where ct: "ct \<in> set (sortedTasks ?pf)" "?ok ct" "v = c_id ct" using v unfolding mem by blast
    then have "\<forall>d \<in> set (depends (c_task ct)). if d \<in> t_id ` set (gi_tasks inp) then d \<in> set dn else sat d"
      unfolding makeDependencySatisfactionChecker_def list_all_iff tm option.case by blast
    with task [OF ct(1)] ct(3) show ?thesis by blast
  qed
qed

section \<open>The planning step\<close>

text \<open>The step never fails to return, and its wave is shared or exclusive.\<close>

lemma planNextEpicWave_spec:
  assumes g: "g = buildEpicConflictGraph rt (nw_graph inp)"
    and ready: "ready = readyEpicTasks rt g [] (nw_satisfiedOutside inp)"
  shows "\<exists>part choice. planNextEpicWave rt inp = Some (part, choice) \<and>
    valid_partition g (map t_id (gi_tasks (nw_graph inp))) (nw_densityThreshold inp) part \<and>
    (choice = None \<longleftrightarrow> ready = []) \<and>
    (\<forall>w. choice = Some w \<longrightarrow>
       (if \<exists>v \<in> set ready. js_has (g_exclusive g) v
        then wv_kind w = Wave_Exclusive \<and> (\<exists>v \<in> set ready. js_has (g_exclusive g) v \<and> wv_taskIds w = [v])
        else wv_kind w \<noteq> Wave_Exclusive \<and> shared_wave g part ready (nat (max 1 (nw_maxParallel inp))) (wv_taskIds w)))"
proof -
  have "wf_graph g" unfolding g by (rule wf_graph_build)
  from partition_spec [OF this] obtain part where part:
    "partitionEpicComponents rt g (map t_id (gi_tasks (nw_graph inp))) (nw_densityThreshold inp) = Some part"
    "valid_partition g (map t_id (gi_tasks (nw_graph inp))) (nw_densityThreshold inp) part" by blast
  let ?choice = "chooseEpicWave rt g part ready (nw_maxParallel inp) (componentAges part (nw_history inp))"
  have "planNextEpicWave rt inp = Some (part, ?choice)"
    using part(1) by (simp add: planNextEpicWave_def Let_def g [symmetric] ready)
  then show ?thesis
    using part(2) chooseEpicWave_None [of rt g part ready "nw_maxParallel inp" "componentAges part (nw_history inp)"]
    by (intro exI [of _ part] exI [of _ ?choice] conjI allI impI) (simp_all add: chooseEpicWave_spec)
qed

lemma wave_subset:
  assumes "planNextEpicWave rt inp = Some (part, Some w)"
  shows "wv_taskIds w \<noteq> [] \<and> distinct (wv_taskIds w) \<and> set (wv_taskIds w) \<subseteq> t_id ` set (gi_tasks (nw_graph inp))"
proof -
  let ?g = "buildEpicConflictGraph rt (nw_graph inp)"
  let ?ready = "readyEpicTasks rt ?g [] (nw_satisfiedOutside inp)"
  have r: "distinct ?ready" "set ?ready \<subseteq> t_id ` set (gi_tasks (nw_graph inp))"
    using readyEpicTasks_spec(1,2) [OF refl, of rt "nw_graph inp" "[]"] by auto
  from planNextEpicWave_spec [OF refl refl, of rt inp] assms
  have "if \<exists>v \<in> set ?ready. js_has (g_exclusive ?g) v
      then wv_kind w = Wave_Exclusive \<and> (\<exists>v \<in> set ?ready. js_has (g_exclusive ?g) v \<and> wv_taskIds w = [v])
      else wv_kind w \<noteq> Wave_Exclusive \<and> shared_wave ?g part ?ready (nat (max 1 (nw_maxParallel inp))) (wv_taskIds w)"
    by auto
  then show ?thesis using r by (auto simp: shared_wave_def split: if_splits)
qed

section \<open>The dry run\<close>

text \<open>The tasks the run has issued or still holds.\<close>

definition dry_ids :: "dry_state \<Rightarrow> string list" where
  "dry_ids st = concat (map wv_taskIds (ds_waves st)) @ map t_id (ds_remaining st)"

lemma filter_less: "x \<in> set xs \<Longrightarrow> \<not> P x \<Longrightarrow> length (filter P xs) < length xs"
  by (induction xs) (auto simp: le_imp_less_Suc length_filter_le)

lemma dry_loop_spec:
  assumes "length (ds_remaining st) < fuel" "distinct (map t_id (ds_remaining st))"
    "distinct (dry_ids st)" "T = set (dry_ids st)"
  shows "\<exists>st'. dry_loop rt inp maxWork blocked fuel st = Some st' \<and> distinct (dry_ids st') \<and> set (dry_ids st') = T"
  using assms
proof (induction fuel arbitrary: st)
  case 0
  then show ?case by simp
next
  case (Suc fuel)
  let ?inp = "dry_input inp blocked st" and ?st1 = "st\<lparr>ds_work := ds_work st + dry_cost inp st\<rparr>"
  have tasks: "gi_tasks (nw_graph ?inp) = ds_remaining st" by (simp add: dry_input_def)
  from planNextEpicWave_spec [OF refl refl, of rt ?inp]
  obtain part choice where plan: "planNextEpicWave rt ?inp = Some (part, choice)" by blast
  show ?case
  proof (cases "ds_remaining st = [] \<or> over_budget maxWork inp st \<or> choice = None")
    case True
    have "dry_ids (st\<lparr>ds_aborted := b\<rparr>) = dry_ids st" "dry_ids ?st1 = dry_ids st" for b
      by (simp_all add: dry_ids_def)
    then show ?thesis using True plan Suc.prems by (auto simp: Let_def)
  next
    case False
    then obtain w where some: "choice = Some w" by blast
    let ?st = "dry_issue rt part w ?st1"
    have w: "wv_taskIds w \<noteq> []" "distinct (wv_taskIds w)" "set (wv_taskIds w) \<subseteq> t_id ` set (ds_remaining st)"
      using wave_subset [of rt ?inp part w] plan some unfolding tasks by auto
    have h: "hd (wv_taskIds w) \<in> set (wv_taskIds w)" by (rule hd_in_set [OF w(1)])
    then obtain t where t: "t \<in> set (ds_remaining st)" "t_id t \<in> set (wv_taskIds w)"
      using subsetD [OF w(3) h] by auto
    have rest: "ds_remaining ?st = filter (\<lambda>t. t_id t \<notin> set (wv_taskIds w)) (ds_remaining st)"
      by (simp add: dry_issue_def)
    have len: "length (ds_remaining ?st) < fuel"
      using filter_less [OF t(1), of "\<lambda>t. t_id t \<notin> set (wv_taskIds w)"] t(2) Suc.prems(1) unfolding rest by simp
    have dist: "distinct (map t_id (ds_remaining ?st))" unfolding rest using Suc.prems(2) by (rule distinct_map_filter)
    have split: "dry_ids ?st = concat (map wv_taskIds (ds_waves st)) @ wv_taskIds w @ map t_id (ds_remaining ?st)"
      by (simp add: dry_ids_def dry_issue_def)
    have ids: "distinct (dry_ids ?st)"
      using Suc.prems(3) w dist unfolding split unfolding dry_ids_def rest by auto
    have set: "T = set (dry_ids ?st)"
      using Suc.prems(4) w(3) unfolding split unfolding dry_ids_def rest by auto
    have "\<exists>st'. dry_loop rt inp maxWork blocked fuel ?st = Some st' \<and> distinct (dry_ids st') \<and> set (dry_ids st') = T"
      by (rule Suc.IH [OF len dist ids set])
    then show ?thesis using False plan some by (simp add: Let_def)
  qed
qed

end
