(* ===== verification/Wave_Properties.thy ===== *)
theory Wave_Properties
  imports Wave_Facts
begin

text \<open>
  The properties of the Epic wave planner, over the facts of the component theories, with an
  evaluated example phase: two tasks on one file, one independent task and one on a global file.
\<close>

section \<open>Components\<close>

text \<open>Splitting the conflict graph into components always returns (the union-find loops end),
  and every task is in exactly one component.\<close>

theorem partitionEpicComponents_total:
  "\<exists>part. partitionEpicComponents rt (buildEpicConflictGraph rt inp) ids th = Some part \<and>
     distinct (concat (map ec_members (cp_components part))) \<and>
     set (concat (map ec_members (cp_components part))) = set ids"
  using partition_spec [OF wf_graph_build] unfolding valid_partition_def by blast

lemma valid_partition_component_of:
  assumes v: "valid_partition g ids th part" and x: "x \<in> set (shared_tasks g ids)"
  shows "\<exists>c \<in> set (cp_components part). x \<in> set (ec_members c) \<and> component_of part x = ec_id c \<and> shared_component g ids th c"
proof -
  have "x \<in> set ids" using x by (simp add: shared_tasks_def)
  then obtain c where c: "c \<in> set (cp_components part)" "x \<in> set (ec_members c)"
  proof -
    have "x \<in> set (concat (map ec_members (cp_components part)))"
      using v \<open>x \<in> set ids\<close> by (simp only: valid_partition_def)
    then show thesis using that by auto
  qed
  have get: "js_get (cp_componentOf part) x = Some (ec_id c)" using v c unfolding valid_partition_def by blast
  have "js_get (g_exclusive g) (ec_id c) = None"
  proof (rule ccontr)
    assume "js_get (g_exclusive g) (ec_id c) \<noteq> None"
    then obtain r where r: "js_get (g_exclusive g) (ec_id c) = Some r" by blast
    then have "c = exclusive_component (ec_id c) r" using v c(1) unfolding valid_partition_def by fastforce
    then have "x = ec_id c" using c(2) by (metis empty_iff empty_set epic_component.select_convs(2) exclusive_component_def set_ConsD)
    then show False using x r by (simp add: shared_tasks_def js_has_def)
  qed
  then have "shared_component g ids th c" using v c(1) unfolding valid_partition_def by fastforce
  with c get show ?thesis by (auto simp: component_of_def js_get_or_def)
qed

text \<open>C33: The components are the connected components of the conflict graph: two tasks that are not
  exclusive are recorded under the same component id exactly when a chain of conflicts among such
  tasks leads from one to the other.\<close>

theorem components_are_connected_components:
  assumes "g = buildEpicConflictGraph rt inp" "partitionEpicComponents rt g ids th = Some part"
    and M: "M = {v \<in> set ids. js_get (g_exclusive g) v = None}" and "x \<in> M" "y \<in> M"
  shows "component_of part x = component_of part y \<longleftrightarrow>
    (\<lambda>u v. u \<in> M \<and> v \<in> M \<and> v \<in> set (js_get_or (g_adjacency g) u []))\<^sup>*\<^sup>* x y"
proof -
  have M': "M = set (shared_tasks g ids)" unfolding M by (auto simp: shared_tasks_def js_has_def)
  have valid: "valid_partition g ids th part"
    using partition_spec [OF wf_graph_build, of rt rt inp ids th] assms(1,2) by auto
  obtain c where c: "c \<in> set (cp_components part)" "x \<in> set (ec_members c)" "component_of part x = ec_id c"
    "shared_component g ids th c" using valid_partition_component_of [OF valid] assms(4) unfolding M' by blast
  obtain d where d: "d \<in> set (cp_components part)" "y \<in> set (ec_members d)" "component_of part y = ec_id d"
    using valid_partition_component_of [OF valid] assms(5) unfolding M' by blast
  have "y \<in> set (ec_members c) \<longleftrightarrow> connected_in g M x y"
    using c(2,4) assms(5) unfolding M' shared_component_def Let_def by blast
  moreover have "component_of part x = component_of part y \<longleftrightarrow> y \<in> set (ec_members c)"
  proof
    assume "y \<in> set (ec_members c)"
    then have "js_get (cp_componentOf part) y = Some (ec_id c)" using valid c(1) unfolding valid_partition_def by blast
    then show "component_of part x = component_of part y" using c(3) by (simp add: component_of_def js_get_or_def)
  next
    assume "component_of part x = component_of part y"
    then have "ec_id c = ec_id d" using c(3) d(3) by simp
    moreover have "ec_id c \<in> set (ec_members c)" "ec_id d \<in> set (ec_members d)"
      using valid c(1) d(1) unfolding valid_partition_def by blast+
    ultimately have "c = d"
      using distinct_concat_eq [of ec_members "cp_components part" c d "ec_id c"] valid c(1) d(1)
      unfolding valid_partition_def by metis
    then show "y \<in> set (ec_members c)" using d(2) by simp
  qed
  ultimately show ?thesis unfolding connected_in_def graph_edge_def by simp
qed

section \<open>The wave\<close>

lemma wave_pairwise_disjoint:
  assumes "planNextEpicWave rt inp = Some (part, Some w)" "a \<in> set (wv_taskIds w)" "b \<in> set (wv_taskIds w)" "a \<noteq> b"
    and "gi_cochange (nw_graph inp) = Some sig \<and> set pairs \<subseteq> set (cs_pairs sig) \<and> th = cs_threshold sig \<or> pairs = []"
  shows "\<not> pv_conflict (epicPairConflict rt (js_get_or (gi_scopes (nw_graph inp)) a [])
    (js_get_or (gi_scopes (nw_graph inp)) b []) pairs th)"
proof
  assume "pv_conflict (epicPairConflict rt (js_get_or (gi_scopes (nw_graph inp)) a [])
    (js_get_or (gi_scopes (nw_graph inp)) b []) pairs th)"
  then have gc: "graph_conflict rt (nw_graph inp) a b" by (rule graph_conflict_stricter [OF _ assms(5)])
  let ?g = "buildEpicConflictGraph rt (nw_graph inp)"
  let ?ready = "readyEpicTasks rt ?g [] (nw_satisfiedOutside inp)"
  have sub: "set ?ready \<subseteq> t_id ` set (gi_tasks (nw_graph inp))"
    using readyEpicTasks_spec(2) [OF refl, of rt "nw_graph inp" "[]"] by auto
  from planNextEpicWave_spec [OF refl refl, of rt inp] assms(1)
  have spec: "if \<exists>v \<in> set ?ready. js_has (g_exclusive ?g) v
      then wv_kind w = Wave_Exclusive \<and> (\<exists>v \<in> set ?ready. js_has (g_exclusive ?g) v \<and> wv_taskIds w = [v])
      else wv_kind w \<noteq> Wave_Exclusive \<and> shared_wave ?g part ?ready (nat (max 1 (nw_maxParallel inp))) (wv_taskIds w)"
    by auto
  show False
  proof (cases "\<exists>v \<in> set ?ready. js_has (g_exclusive ?g) v")
    case True
    with spec assms(2-4) show False by auto
  next
    case False
    with spec have w: "set (wv_taskIds w) \<subseteq> set ?ready" "sorted_wrt (\<lambda>x y. \<not> graph_edge ?g y x) (wv_taskIds w)"
      by (simp_all add: shared_wave_def)
    have "v \<in> set (js_keys (g_adjacency ?g))" if v: "v \<in> set (wv_taskIds w)" for v
    proof -
      have "v \<in> set ?ready" using v w(1) by blast
      then have "\<not> js_has (g_exclusive ?g) v" "v \<in> t_id ` set (gi_tasks (nw_graph inp))" using False sub by blast+
      then show ?thesis using graph_spec(3) [OF refl, of rt "nw_graph inp"] unfolding js_has_keys by blast
    qed
    then have edge: "graph_edge ?g a b" "graph_edge ?g b a"
      unfolding graph_spec(5) [OF refl] using gc graph_conflict_sym assms(2-4) by blast+
    obtain i j where ij: "i < length (wv_taskIds w)" "wv_taskIds w ! i = a" "j < length (wv_taskIds w)" "wv_taskIds w ! j = b"
      using assms(2,3) by (auto simp: in_set_conv_nth)
    then consider "i < j" | "j < i" using assms(4) by (metis linorder_neqE_nat)
    then show False
      using w(2) edge ij unfolding sorted_wrt_iff_nth_less by cases blast+
  qed
qed

text \<open>A wave is safe to run in parallel.  Any two tasks of the wave the planner picks have
  scopes that do not conflict under \<open>epicPairConflict\<close>, with the whole co-change signal or any part
  of it, whatever was learned; the planner is never looser than the verdict the dispatch gate
  repeats.\<close>

theorem wave_members_do_not_conflict:
  assumes "planNextEpicWave rt inp = Some (part, Some w)" "a \<in> set (wv_taskIds w)" "b \<in> set (wv_taskIds w)" "a \<noteq> b"
    and "gi_cochange (nw_graph inp) = Some sig \<and> set pairs \<subseteq> set (cs_pairs sig) \<and> th = cs_threshold sig \<or> pairs = []"
  shows "\<not> pv_conflict (epicPairConflict rt (js_get_or (gi_scopes (nw_graph inp)) a [])
    (js_get_or (gi_scopes (nw_graph inp)) b []) pairs th)"
  by (rule wave_pairwise_disjoint [OF assms])

text \<open>C18: An exclusive task runs alone and first, and a shared wave respects its limits: when a ready
  task touches a global, protected or hot file or has no usable scope, the wave is one such task;
  otherwise every task of the wave is ready, the wave is no wider than the cap, holds at most one
  task of each serial component, and no further ready task could have been added.\<close>

theorem wave_exclusive_or_maximal:
  assumes "planNextEpicWave rt inp = Some (part, Some w)" and g: "g = buildEpicConflictGraph rt (nw_graph inp)"
    and ready: "ready = readyEpicTasks rt g [] (nw_satisfiedOutside inp)"
  shows "if \<exists>v \<in> set ready. js_has (g_exclusive g) v
    then wv_kind w = Wave_Exclusive \<and> (\<exists>v \<in> set ready. js_has (g_exclusive g) v \<and> wv_taskIds w = [v])
    else wv_kind w \<noteq> Wave_Exclusive \<and> set (wv_taskIds w) \<subseteq> set ready \<and> distinct (wv_taskIds w) \<and>
      1 \<le> length (wv_taskIds w) \<and> int (length (wv_taskIds w)) \<le> max 1 (nw_maxParallel inp) \<and>
      sorted_wrt (\<lambda>a b. \<not> (is_serial part a \<and> component_of part a = component_of part b)) (wv_taskIds w) \<and>
      (\<forall>v \<in> set ready - set (wv_taskIds w). int (length (wv_taskIds w)) = max 1 (nw_maxParallel inp) \<or>
         (\<exists>c \<in> set (wv_taskIds w). c \<in> set (js_get_or (g_adjacency g) v []) \<or>
            (is_serial part v \<and> component_of part v = component_of part c)))"
proof -
  have "distinct ready" unfolding ready by (rule readyEpicTasks_spec(1) [OF g])
  moreover from planNextEpicWave_spec [OF g ready] assms(1)
  have "if \<exists>v \<in> set ready. js_has (g_exclusive g) v
      then wv_kind w = Wave_Exclusive \<and> (\<exists>v \<in> set ready. js_has (g_exclusive g) v \<and> wv_taskIds w = [v])
      else wv_kind w \<noteq> Wave_Exclusive \<and> shared_wave g part ready (nat (max 1 (nw_maxParallel inp))) (wv_taskIds w)"
    by auto
  ultimately show ?thesis
    unfolding shared_wave_def serial_clash_def [abs_def] blocked_by_wave_def graph_edge_def
    by (auto simp: Suc_le_eq split: if_splits)
qed

text \<open>C35: The planner makes progress.  When the phase has tasks, none of them is on or behind a
  dependency cycle, and every dependency outside the phase is satisfied, the next wave exists.\<close>

theorem wave_exists:
  assumes "gi_tasks (nw_graph inp) \<noteq> []"
    and "tasksInCycle (runPartitionPreflight rt (gi_directory (nw_graph inp)) (gi_tasks (nw_graph inp))
           (gi_leanConfig (nw_graph inp)) (Some (task_scopes (nw_graph inp))) (\<lambda>_. None)) = []"
    and "\<And>t d. t \<in> set (gi_tasks (nw_graph inp)) \<Longrightarrow> d \<in> set (depends t) \<Longrightarrow>
           d \<in> t_id ` set (gi_tasks (nw_graph inp)) \<or> nw_satisfiedOutside inp d"
  shows "\<exists>part w. planNextEpicWave rt inp = Some (part, Some w)"
proof -
  let ?inp = "nw_graph inp"
  let ?g = "buildEpicConflictGraph rt ?inp"
  let ?pf = "runPartitionPreflight rt (gi_directory ?inp) (gi_tasks ?inp) (gi_leanConfig ?inp)
           (Some (task_scopes ?inp)) (\<lambda>_. None)"
  have pf: "g_preflight ?g = ?pf" by (rule graph_spec(1) [OF refl])
  have ids: "set (sorted_ids ?pf) = t_id ` set (gi_tasks ?inp)"
    using preflight_spec(2) [OF refl, of rt "gi_directory ?inp" "gi_tasks ?inp" "gi_leanConfig ?inp"
        "Some (task_scopes ?inp)" "\<lambda>_. None"] assms(2) by simp
  then have "sortedTasks ?pf \<noteq> []" using assms(1) by auto
  then have len: "0 < length (sortedTasks ?pf)" by simp
  let ?ct = "sortedTasks ?pf ! 0"
  have find: "List.find (\<lambda>t. t_id t = sorted_ids ?pf ! 0) (gi_tasks ?inp) = Some (c_task ?ct)"
    and deps: "set (depends (c_task ?ct)) \<inter> t_id ` set (gi_tasks ?inp) = {}"
    using preflight_spec(3) [OF refl len] by auto
  have "c_task ?ct \<in> set (gi_tasks ?inp)" using find_SomeD [OF find] by blast
  then have sat: "nw_satisfiedOutside inp d \<and> d \<notin> t_id ` set (gi_tasks ?inp)" if "d \<in> set (depends (c_task ?ct))" for d
    using assms(3) deps that by blast
  have tm: "js_has (taskMap ?pf) d \<longleftrightarrow> d \<in> t_id ` set (gi_tasks ?inp)" for d
    using topological_sort_spec [OF wf_build_task_map preflight_cases]
    unfolding js_has_keys using preflight_keys by metis
  have ok: "makeDependencySatisfactionChecker (taskMap ?pf) [] (Some (nw_satisfiedOutside inp)) ?ct"
    unfolding makeDependencySatisfactionChecker_def list_all_iff tm option.case using sat by simp
  have "?ct \<in> set (sortedTasks ?pf)" using len by (rule nth_mem)
  with ok have "c_id ?ct \<in> set (readyEpicTasks rt ?g [] (nw_satisfiedOutside inp))"
    unfolding readyEpicTasks_def getReadyTasks_def pf by simp
  then have "readyEpicTasks rt ?g [] (nw_satisfiedOutside inp) \<noteq> []" by auto
  then show ?thesis using planNextEpicWave_spec [OF refl refl, of rt inp] by auto
qed

text \<open>C38: The dry run of a phase always returns, and it accounts for every task exactly once: the
  tasks of the waves it issued and the unscheduled ones are pairwise distinct and together are all
  tasks of the phase.\<close>

theorem dryRunEpicPhase_complete:
  assumes "distinct (map t_id (gi_tasks (nw_graph inp)))"
  shows "\<exists>r. dryRunEpicPhase rt inp maxWork = Some r \<and>
    distinct (concat (map wv_taskIds (dr_waves r)) @ dr_unscheduled r) \<and>
    set (concat (map wv_taskIds (dr_waves r)) @ dr_unscheduled r) = t_id ` set (gi_tasks (nw_graph inp))"
proof -
  let ?tasks = "gi_tasks (nw_graph inp)"
  let ?blocked = "js_uniq (map t_id (filter (\<lambda>t. t_status t = Blocked) ?tasks))"
  let ?rem = "filter (\<lambda>t. t_id t \<notin> set ?blocked) ?tasks"
  let ?st = "\<lparr>ds_remaining = ?rem, ds_history = [], ds_waves = [], ds_work = 0, ds_aborted = False\<rparr>"
  have dist: "distinct (map t_id ?rem)" using assms by (rule distinct_map_filter)
  have "dry_ids ?st = map t_id ?rem" by (simp add: dry_ids_def)
  with dist obtain st' where st': "dry_loop rt inp maxWork ?blocked (length ?rem + 1) ?st = Some st'"
    "distinct (dry_ids st')" "set (dry_ids st') = set (map t_id ?rem)"
    using dry_loop_spec [of ?st "length ?rem + 1" "set (map t_id ?rem)" rt inp maxWork ?blocked] by auto
  let ?r = "\<lparr>dr_waves = ds_waves st', dr_unscheduled = js_sort (locale_compare rt) (?blocked @ map t_id (ds_remaining st')),
             dr_work = ds_work st', dr_aborted = ds_aborted st'\<rparr>"
  have run: "dryRunEpicPhase rt inp maxWork = Some ?r"
    unfolding dryRunEpicPhase_def Let_def st'(1) by simp
  have "set ?blocked \<inter> set (dry_ids st') = {}" unfolding st'(3) by (auto simp del: set_js_uniq)
  then have "distinct (concat (map wv_taskIds (dr_waves ?r)) @ dr_unscheduled ?r)"
    using st'(2) unfolding dry_ids_def by auto
  moreover have "set (concat (map wv_taskIds (dr_waves ?r)) @ dr_unscheduled ?r) = set ?blocked \<union> set (dry_ids st')"
    unfolding dry_ids_def by auto
  moreover have "set ?blocked \<union> set (dry_ids st') = t_id ` set ?tasks" unfolding st'(3) by auto
  ultimately show ?thesis using run by blast
qed

section \<open>An evaluated phase\<close>

definition wave_task :: "string \<Rightarrow> string list \<Rightarrow> plan_task" where
  "wave_task i ds = \<lparr>t_id = i, t_description = [], t_status = Pending, t_depends = Some ds, t_files_touched = None\<rparr>"

text \<open>\<open>b\<close> declares a file below \<open>a\<close>'s, \<open>c\<close> is independent and \<open>d\<close> waits for \<open>c\<close>.\<close>

definition wave_graph_input :: graph_input where
  "wave_graph_input =
     \<lparr>gi_directory = ''/w'',
      gi_tasks = [wave_task ''a'' [], wave_task ''b'' [], wave_task ''c'' [], wave_task ''d'' [''c'']],
      gi_scopes = [(''a'', [''m'']), (''b'', [''m/x'']), (''c'', [''n'']), (''d'', [''o''])],
      gi_leanConfig = \<lparr>max_parallel_coders = 4, require_declared_scope = False,
                       conflict_policy = Serialize, degrade_on_risk = False\<rparr>,
      gi_hotFiles = [], gi_coWrites = None,
      gi_cochange = Some \<lparr>cs_pairs = [example_pair], cs_threshold = example_threshold\<rparr>\<rparr>"

definition wave_input :: next_wave_input where
  "wave_input =
     \<lparr>nw_graph = wave_graph_input, nw_maxParallel = 4, nw_densityThreshold = DEFAULT_EPIC_DENSITY_THRESHOLD,
      nw_satisfiedOutside = (\<lambda>_. False), nw_history = []\<rparr>"

abbreviation wave_rt :: runtime where
  "wave_rt \<equiv> posix_runtime ''/w''"

lemma example_wave:
  "map_option (\<lambda>(part, choice). (map (component_of part) [''a'', ''b'', ''c''], map_option wv_taskIds choice))
     (planNextEpicWave wave_rt wave_input) = Some ([''a'', ''a'', ''c''], Some [''a'', ''c''])"
  by code_simp

lemma example_wave_obtain:
  obtains part w where "planNextEpicWave wave_rt wave_input = Some (part, Some w)" "wv_taskIds w = [''a'', ''c'']"
    "component_of part ''a'' = ''a''" "component_of part ''b'' = ''a''"
proof (cases "planNextEpicWave wave_rt wave_input")
  case None
  then show ?thesis using example_wave by simp
next
  case (Some r)
  obtain part choice where r: "r = (part, choice)" by (cases r)
  have "choice \<noteq> None \<and> map_option wv_taskIds choice = Some [''a'', ''c''] \<and>
      component_of part ''a'' = ''a'' \<and> component_of part ''b'' = ''a''"
    using example_wave unfolding Some r by auto
  then obtain w where "choice = Some w" "wv_taskIds w = [''a'', ''c'']" "component_of part ''a'' = ''a''"
    "component_of part ''b'' = ''a''" by auto
  then show ?thesis using that Some r by simp
qed

theorem wave_members_do_not_conflict_witness:
  "\<not> pv_conflict (epicPairConflict wave_rt [''m''] [''n''] [example_pair] example_threshold)"
proof -
  obtain part w where w: "planNextEpicWave wave_rt wave_input = Some (part, Some w)" "wv_taskIds w = [''a'', ''c'']"
    by (rule example_wave_obtain)
  have sc: "js_get_or (gi_scopes (nw_graph wave_input)) ''a'' [] = [''m'']"
    "js_get_or (gi_scopes (nw_graph wave_input)) ''c'' [] = [''n'']"
    by (simp_all add: wave_input_def wave_graph_input_def js_get_or_def)
  have cc: "gi_cochange (nw_graph wave_input) = Some \<lparr>cs_pairs = [example_pair], cs_threshold = example_threshold\<rparr>"
    by (simp add: wave_input_def wave_graph_input_def)
  show ?thesis
    using wave_members_do_not_conflict [OF w(1), of "''a''" "''c''"
        "\<lparr>cs_pairs = [example_pair], cs_threshold = example_threshold\<rparr>" "[example_pair]" example_threshold]
    unfolding sc w(2) cc by simp
qed

theorem wave_exclusive_or_maximal_witness:
  "\<exists>part w. planNextEpicWave wave_rt wave_input = Some (part, Some w) \<and> wv_taskIds w = [''a'', ''c''] \<and>
     int (length (wv_taskIds w)) \<le> 4"
proof -
  obtain part w where w: "planNextEpicWave wave_rt wave_input = Some (part, Some w)" "wv_taskIds w = [''a'', ''c'']"
    by (rule example_wave_obtain)
  have "nw_maxParallel wave_input = 4" by (simp add: wave_input_def)
  then show ?thesis using w wave_exclusive_or_maximal [OF w(1) refl refl] by (auto split: if_splits)
qed

theorem components_are_connected_components_witness:
  "\<exists>part. (let g = buildEpicConflictGraph wave_rt wave_graph_input;
               M = {v \<in> set [''a'', ''b'', ''c'', ''d'']. js_get (g_exclusive g) v = None}
           in component_of part ''a'' = component_of part ''b'' \<and>
              (\<lambda>u v. u \<in> M \<and> v \<in> M \<and> v \<in> set (js_get_or (g_adjacency g) u []))\<^sup>*\<^sup>* ''a'' ''b'')"
proof -
  obtain part w where w: "planNextEpicWave wave_rt wave_input = Some (part, Some w)"
    "component_of part ''a'' = ''a''" "component_of part ''b'' = ''a''"
    by (rule example_wave_obtain)
  let ?g = "buildEpicConflictGraph wave_rt wave_graph_input"
  have ids: "map t_id (gi_tasks wave_graph_input) = [''a'', ''b'', ''c'', ''d'']"
    and gr: "nw_graph wave_input = wave_graph_input"
    by (simp_all add: wave_input_def wave_graph_input_def wave_task_def)
  have part: "partitionEpicComponents wave_rt ?g [''a'', ''b'', ''c'', ''d''] (nw_densityThreshold wave_input) = Some part"
    using w(1) unfolding planNextEpicWave_def Let_def ids gr by (auto split: option.splits)
  have ex: "g_exclusive ?g = []" by code_simp
  have "''a'' \<in> {v \<in> set [''a'', ''b'', ''c'', ''d'']. js_get (g_exclusive ?g) v = None}"
    "''b'' \<in> {v \<in> set [''a'', ''b'', ''c'', ''d'']. js_get (g_exclusive ?g) v = None}"
    unfolding ex by simp_all
  from components_are_connected_components [OF refl part refl this] w(2,3) show ?thesis
    unfolding Let_def by (intro exI [of _ part]) simp
qed

theorem wave_exists_witness: "\<exists>part w. planNextEpicWave wave_rt wave_input = Some (part, Some w)"
proof (rule wave_exists)
  show "gi_tasks (nw_graph wave_input) \<noteq> []" by (simp add: wave_input_def wave_graph_input_def)
  show "tasksInCycle (runPartitionPreflight wave_rt (gi_directory (nw_graph wave_input)) (gi_tasks (nw_graph wave_input))
           (gi_leanConfig (nw_graph wave_input)) (Some (task_scopes (nw_graph wave_input))) (\<lambda>_. None)) = []"
    by code_simp
  show "d \<in> t_id ` set (gi_tasks (nw_graph wave_input)) \<or> nw_satisfiedOutside wave_input d"
    if "t \<in> set (gi_tasks (nw_graph wave_input))" "d \<in> set (depends t)" for t d
    using that by (auto simp: wave_input_def wave_graph_input_def wave_task_def or_empty_def)
qed

theorem dryRunEpicPhase_complete_witness:
  "\<exists>r. dryRunEpicPhase wave_rt wave_input None = Some r \<and>
    set (concat (map wv_taskIds (dr_waves r)) @ dr_unscheduled r) = {''a'', ''b'', ''c'', ''d''}"
proof -
  have ids: "map t_id (gi_tasks (nw_graph wave_input)) = [''a'', ''b'', ''c'', ''d'']"
    by (simp add: wave_input_def wave_graph_input_def wave_task_def)
  then have "t_id ` set (gi_tasks (nw_graph wave_input)) = {''a'', ''b'', ''c'', ''d''}"
    by (metis list.set_map list.simps(15) empty_set)
  then show ?thesis
    using dryRunEpicPhase_complete [of wave_input wave_rt None] unfolding ids by auto
qed

end
