(* ===== verification/Wave_Selection_Facts.thy ===== *)
theory Wave_Selection_Facts
  imports Wave_Properties Gate_Policy_Facts
begin

text \<open>
  What the selection of a wave guarantees, and its composition with the parallel verdict of
  \<^verbatim>\<open>src/plan/parallel-verdict.ts\<close> that the dispatch gate computes over the issued wave.
\<close>

section \<open>The cases of a selection\<close>

lemma find_phase_mem: "List.find (\<lambda>p. ph_id p = n) phases = Some phase \<Longrightarrow> phase \<in> set phases \<and> ph_id phase = n"
  by (rule find_SomeD)

text \<open>When the result is a wave, it is the planner's choice with a live scope for every member.\<close>

lemma selected_wave_cases:
  assumes "selectNextEpicWave rt inp = Some (Sel_Wave w)"
  shows "\<exists>phase part c. List.find (\<lambda>p. ph_id p = si_phaseId inp) (si_plan inp) = Some phase \<and>
    predecessor_problems inp (indexPlan (si_plan inp)) (batch_of phase) = [] \<and>
    planNextEpicWave rt (selection_input inp (indexPlan (si_plan inp)) (batch_of phase)) = Some (part, Some c) \<and>
    wv_taskIds c = sw_taskIds w \<and> wv_kind c = sw_kind w \<and> sw_taskIds w \<noteq> [] \<and>
    (\<forall>i \<in> set (sw_taskIds w). live_scope inp i \<noteq> []) \<and>
    sw_files w = selected_files inp (sw_taskIds w) \<and>
    sw_cochangePairs w = (case si_cochange inp of None \<Rightarrow> []
       | Some sig \<Rightarrow> cochangePairsWithin rt (concat (map snd (sw_files w))) sig) \<and>
    sw_components w = toWaveComponents rt part (sw_taskIds w)"
  using assms
  by (auto simp: selectNextEpicWave_def finish_selection_def Let_def filter_empty_conv
           split: option.splits if_splits)

lemma js_get_or_Some: "js_get m k = Some v \<Longrightarrow> js_get_or m k d = v"
  by (simp add: js_get_or_def)

lemma selected_files_get: "js_get (selected_files inp ids) i = (if i \<in> set ids then Some (live_scope inp i) else None)"
proof -
  have "js_get (fold (\<lambda>i. js_set i (f i)) ids m) i = (if i \<in> set ids then Some (f i) else js_get m i)" for f :: "string \<Rightarrow> string list" and m
    by (induction ids arbitrary: m) (auto simp: js_map_simps)
  then show ?thesis by (simp add: selected_files_def)
qed

lemma planning_scopes_live:
  "i \<in> t_id ` set batch \<Longrightarrow> live_scope inp i \<noteq> [] \<Longrightarrow> js_get_or (planning_scopes inp batch) i [] = live_scope inp i"
proof -
  assume i: "i \<in> t_id ` set batch" and live: "live_scope inp i \<noteq> []"
  let ?upd = "\<lambda>task. js_set (t_id task)
      (if length (live_scope inp (t_id task)) > 0 then live_scope inp (t_id task) else or_empty (t_files_touched task))"
  have "js_get (fold ?upd ts m) i = (if i \<in> t_id ` set ts then Some (live_scope inp i) else js_get m i)" for ts m
    using live by (induction ts arbitrary: m) (auto simp: js_map_simps)
  from this [of batch "[]"] i have "js_get (planning_scopes inp batch) i = Some (live_scope inp i)"
    unfolding planning_scopes_def Let_def by simp
  then show ?thesis unfolding js_get_or_def [of "planning_scopes inp batch"] by simp
qed

lemma cochangePairsWithin_subset: "set (cochangePairsWithin rt files sig) \<subseteq> set (cs_pairs sig)"
  by (auto simp: cochangePairsWithin_def Let_def dest!: in_set_takeD)

lemma length_cochangePairsWithin: "length (cochangePairsWithin rt files sig) \<le> MAX_WAVE_COCHANGE_PAIRS"
  by (simp add: cochangePairsWithin_def Let_def)

section \<open>A selected wave passes the verdict\<close>

lemma wave_width:
  assumes "planNextEpicWave rt inp = Some (part, Some w)"
  shows "int (length (wv_taskIds w)) \<le> max 1 (nw_maxParallel inp)"
proof -
  let ?g = "buildEpicConflictGraph rt (nw_graph inp)"
  let ?ready = "readyEpicTasks rt ?g [] (nw_satisfiedOutside inp)"
  from planNextEpicWave_spec [OF refl refl, of rt inp] assms
  have "if \<exists>v \<in> set ?ready. js_has (g_exclusive ?g) v
      then wv_kind w = Wave_Exclusive \<and> (\<exists>v \<in> set ?ready. js_has (g_exclusive ?g) v \<and> wv_taskIds w = [v])
      else wv_kind w \<noteq> Wave_Exclusive \<and> shared_wave ?g part ?ready (nat (max 1 (nw_maxParallel inp))) (wv_taskIds w)"
    by auto
  then show ?thesis by (auto simp: shared_wave_def split: if_splits)
qed

text \<open>The co-change signal frozen with a wave (\<^verbatim>\<open>next-wave.ts\<close>): the pairs within its files.\<close>

definition frozen_cochange :: "wave_selection_input \<Rightarrow> selected_wave \<Rightarrow> wave_cochange option" where
  "frozen_cochange inp w =
     map_option (\<lambda>sig. \<lparr>wcc_pairs = sw_cochangePairs w, wcc_threshold = cs_threshold sig\<rparr>) (si_cochange inp)"

lemma selected_wave_disjoint:
  assumes sel: "selectNextEpicWave rt inp = Some (Sel_Wave w)" and le: "si_maxParallel inp \<le> 64"
  shows "\<exists>v. computeEpicWaveVerdict rt (sw_files w) (frozen_cochange inp w) (sw_taskIds w) = Inr v \<and>
    v_verdict v = All_Disjoint"
proof -
  from selected_wave_cases [OF sel] obtain phase part c where c:
    "planNextEpicWave rt (selection_input inp (indexPlan (si_plan inp)) (batch_of phase)) = Some (part, Some c)"
    "wv_taskIds c = sw_taskIds w" "\<forall>i \<in> set (sw_taskIds w). live_scope inp i \<noteq> []"
    "sw_files w = selected_files inp (sw_taskIds w)"
    "sw_cochangePairs w = (case si_cochange inp of None \<Rightarrow> []
       | Some sig \<Rightarrow> cochangePairsWithin rt (concat (map snd (sw_files w))) sig)" by blast
  let ?inp = "selection_input inp (indexPlan (si_plan inp)) (batch_of phase)"
  have nw: "gi_scopes (nw_graph ?inp) = planning_scopes inp (batch_of phase)" "gi_tasks (nw_graph ?inp) = batch_of phase"
    "gi_cochange (nw_graph ?inp) = si_cochange inp" "nw_maxParallel ?inp = si_maxParallel inp"
    by (simp_all add: selection_input_def)
  have sub: "distinct (sw_taskIds w)" "set (sw_taskIds w) \<subseteq> t_id ` set (batch_of phase)"
    using wave_subset [OF c(1)] unfolding c(2) nw by blast+
  have files: "js_get_or (sw_files w) i [] = live_scope inp i" if "i \<in> set (sw_taskIds w)" for i
    by (rule js_get_or_Some) (simp add: c(4) selected_files_get that)
  have scopes: "js_get_or (planning_scopes inp (batch_of phase)) i [] = live_scope inp i" if "i \<in> set (sw_taskIds w)" for i
    using planning_scopes_live that sub(2) c(3) by blast
  have len: "length (sw_taskIds w) \<le> MAX_PARALLEL_VERDICT_TASKS"
    using wave_width [OF c(1)] le unfolding c(2) nw MAX_PARALLEL_VERDICT_TASKS_def by linarith
  have sig: "si_cochange inp = Some sig \<and> set (case frozen_cochange inp w of None \<Rightarrow> [] | Some c \<Rightarrow> wcc_pairs c) \<subseteq> set (cs_pairs sig) \<and>
      (case frozen_cochange inp w of None \<Rightarrow> DEFAULT_PARALLEL_COCHANGE_THRESHOLD | Some c \<Rightarrow> wcc_threshold c) = cs_threshold sig \<or>
      (case frozen_cochange inp w of None \<Rightarrow> [] | Some c \<Rightarrow> wcc_pairs c) = []"
    if "si_cochange inp = Some sig \<or> si_cochange inp = None" for sig
    using that c(5) by (auto simp: frozen_cochange_def dest: subsetD [OF cochangePairsWithin_subset])
  have "\<not> frozen_conflict rt (sw_files w) (frozen_cochange inp w) a b" if "(a, b) \<in> set (index_pairs (sw_taskIds w))" for a b
  proof -
    have ab: "a \<in> set (sw_taskIds w)" "b \<in> set (sw_taskIds w)" "a \<noteq> b"
      using that index_pairs_mem index_pairs_neq sub(1) by fast+
    obtain sg where sg: "si_cochange inp = Some sg \<or> si_cochange inp = None" by (cases "si_cochange inp") auto
    show ?thesis
      unfolding frozen_conflict_def files [OF ab(1)] files [OF ab(2)]
      using wave_pairwise_disjoint [OF c(1), of a b sg, unfolded nw scopes [OF ab(1)] scopes [OF ab(2)] c(2), OF ab sig [OF sg]] .
  qed
  then show ?thesis unfolding wave_verdict_iff using len files c(3) by auto
qed

text \<open>The planner and the verdict agree.  When the selection returns a wave and the width is at most
  64, the verdict over the frozen scopes and the frozen co-change pairs is \<open>all_disjoint\<close>, so the
  check before a wave is issued keeps all of its tasks: the code's fallback to a single task is never taken.\<close>

theorem selected_wave_is_issued_whole:
  assumes "selectNextEpicWave rt inp = Some (Sel_Wave w)" "si_maxParallel inp \<le> 64"
    and "cochange = map_option (\<lambda>sig. \<lparr>wcc_pairs = sw_cochangePairs w, wcc_threshold = cs_threshold sig\<rparr>) (si_cochange inp)"
  shows "(\<exists>v. computeEpicWaveVerdict rt (sw_files w) cochange (sw_taskIds w) = Inr v \<and> v_verdict v = All_Disjoint) \<and>
    assertWaveDisjoint rt (sw_taskIds w) (sw_files w) cochange = sw_taskIds w"
proof -
  obtain v where "computeEpicWaveVerdict rt (sw_files w) cochange (sw_taskIds w) = Inr v" "v_verdict v = All_Disjoint"
    using selected_wave_disjoint [OF assms(1,2)] unfolding assms(3) frozen_cochange_def by blast
  then show ?thesis by (simp add: assertWaveDisjoint_def)
qed

section \<open>What a selected wave may depend on\<close>

lemma selected_task_ready:
  assumes "selectNextEpicWave rt inp = Some (Sel_Wave w)" "i \<in> set (sw_taskIds w)"
  shows "\<exists>phase t. List.find (\<lambda>p. ph_id p = si_phaseId inp) (si_plan inp) = Some phase \<and> t \<in> set (batch_of phase) \<and> t_id t = i \<and>
    t_status t \<in> {Pending, In_Progress} \<and>
    js_get (sw_files w) i = Some (js_get_or (si_liveScopes inp) i []) \<and> js_get_or (si_liveScopes inp) i [] \<noteq> [] \<and>
    (\<forall>d \<in> set (depends t). d \<notin> t_id ` set (batch_of phase) \<and> si_isCommitted inp d \<and>
       (\<exists>t' n. js_get (indexPlan (si_plan inp)) d = Some (t', n) \<and> t_status t' = Completed))"
proof -
  from selected_wave_cases [OF assms(1)] obtain phase part c where c:
    "List.find (\<lambda>p. ph_id p = si_phaseId inp) (si_plan inp) = Some phase"
    "planNextEpicWave rt (selection_input inp (indexPlan (si_plan inp)) (batch_of phase)) = Some (part, Some c)"
    "wv_taskIds c = sw_taskIds w" "\<forall>i \<in> set (sw_taskIds w). live_scope inp i \<noteq> []"
    "sw_files w = selected_files inp (sw_taskIds w)" by blast
  let ?inp = "selection_input inp (indexPlan (si_plan inp)) (batch_of phase)"
  let ?ready = "readyEpicTasks rt (buildEpicConflictGraph rt (nw_graph ?inp)) [] (nw_satisfiedOutside ?inp)"
  have "set (wv_taskIds c) \<subseteq> set ?ready"
    using planNextEpicWave_spec [OF refl refl, of rt ?inp] c(2) by (auto simp: shared_wave_def split: if_splits)
  then have "i \<in> set ?ready" using assms(2) c(3) by auto
  from readyEpicTasks_spec(3) [OF refl this] obtain t where
    t: "List.find (\<lambda>t. t_id t = i) (batch_of phase) = Some t"
      "\<forall>d \<in> set (depends t). d \<notin> t_id ` set (batch_of phase) \<and> satisfied_outside inp (indexPlan (si_plan inp)) d"
    by (auto simp: selection_input_def split: if_splits)
  have "t \<in> set (batch_of phase)" "t_id t = i" using find_SomeD [OF t(1)] by auto
  then have "t_status t \<in> {Pending, In_Progress}" by (cases "t_status t"; simp add: batch_of_def isResolved_def)
  moreover have "js_get (sw_files w) i = Some (live_scope inp i)" unfolding c(5) selected_files_get using assms(2) by simp
  moreover have "d \<notin> t_id ` set (batch_of phase) \<and> si_isCommitted inp d \<and> (\<exists>t' n. js_get (indexPlan (si_plan inp)) d = Some (t', n) \<and> t_status t' = Completed)"
    if "d \<in> set (depends t)" for d
    using t(2) that by (auto simp: satisfied_outside_def split: option.splits)
  ultimately show ?thesis
    using c(1,4) assms(2) \<open>t_id t = i\<close> \<open>t \<in> set (batch_of phase)\<close> by blast
qed

text \<open>A task of a wave is ready to run: it is an unresolved, unblocked task of the phase with a
  declared live scope, and every task it depends on is a completed task of the plan whose commit
  is on the branch; nothing it waits for is still pending.\<close>

theorem selected_wave_tasks_ready:
  assumes "selectNextEpicWave rt inp = Some (Sel_Wave w)" "i \<in> set (sw_taskIds w)"
  shows "\<exists>phase t. phase \<in> set (si_plan inp) \<and> ph_id phase = si_phaseId inp \<and> t \<in> set (ph_tasks phase) \<and> t_id t = i \<and>
    t_status t \<in> {Pending, In_Progress} \<and>
    js_get (sw_files w) i = Some (js_get_or (si_liveScopes inp) i []) \<and> js_get_or (si_liveScopes inp) i [] \<noteq> [] \<and>
    (\<forall>d \<in> set (depends t). si_isCommitted inp d \<and>
       (\<exists>t' n. js_get (indexPlan (si_plan inp)) d = Some (t', n) \<and> t_status t' = Completed))"
proof -
  from selected_task_ready [OF assms] obtain phase t where t:
    "List.find (\<lambda>p. ph_id p = si_phaseId inp) (si_plan inp) = Some phase" "t \<in> set (batch_of phase)" "t_id t = i"
    "t_status t \<in> {Pending, In_Progress}" "js_get (sw_files w) i = Some (live_scope inp i)" "live_scope inp i \<noteq> []"
    "\<forall>d \<in> set (depends t). si_isCommitted inp d \<and>
       (\<exists>t' n. js_get (indexPlan (si_plan inp)) d = Some (t', n) \<and> t_status t' = Completed)" by blast
  have "t \<in> set (ph_tasks phase)" using t(2) by (simp add: batch_of_def)
  then show ?thesis using find_phase_mem [OF t(1)] t by blast
qed

text \<open>The selection always returns, and says that nothing is left exactly when the phase does not
  exist or all of its tasks are resolved: blocked tasks, missing predecessors, undeclared scopes and cycles are reported as such.\<close>

theorem selection_total:
  "\<exists>s. selectNextEpicWave rt inp = Some s \<and>
     (s = Sel_None \<longleftrightarrow>
        (case List.find (\<lambda>p. ph_id p = si_phaseId inp) (si_plan inp) of
           None \<Rightarrow> True
         | Some phase \<Rightarrow> \<forall>t \<in> set (ph_tasks phase). t_status t = Completed \<or> t_status t = Closed))"
proof (cases "List.find (\<lambda>p. ph_id p = si_phaseId inp) (si_plan inp)")
  case None
  then show ?thesis by (simp add: selectNextEpicWave_def)
next
  case (Some phase)
  have resolved: "(\<forall>t \<in> set (ph_tasks phase). t_status t = Completed \<or> t_status t = Closed) \<longleftrightarrow>
      batch_of phase = [] \<and> blocked_ids phase = []"
    by (auto simp: batch_of_def blocked_ids_def filter_empty_conv isResolved_def)
  obtain part choice where plan:
    "planNextEpicWave rt (selection_input inp (indexPlan (si_plan inp)) (batch_of phase)) = Some (part, choice)"
    using planNextEpicWave_spec [OF refl refl, of rt "selection_input inp (indexPlan (si_plan inp)) (batch_of phase)"] by auto
  show ?thesis
    unfolding selectNextEpicWave_def Some option.case resolved Let_def plan prod.case
    by (auto simp: finish_selection_def Let_def)
qed

section \<open>An evaluated selection\<close>

text \<open>The phase of \<open>Wave_Properties\<close>, chosen with the same scopes and co-change signal.\<close>

definition select_input :: wave_selection_input where
  "select_input =
     \<lparr>si_directory = ''/w'',
      si_plan = [\<lparr>ph_id = 1, ph_name = [], ph_tasks = gi_tasks wave_graph_input\<rparr>], si_phaseId = 1,
      si_liveScopes = gi_scopes wave_graph_input, si_maxParallel = 4, si_leanConfig = gi_leanConfig wave_graph_input,
      si_isCommitted = (\<lambda>_. False), si_hotFiles = [], si_coWrites = None, si_cochange = gi_cochange wave_graph_input,
      si_densityThreshold = DEFAULT_EPIC_DENSITY_THRESHOLD, si_waveHistory = []\<rparr>"

fun selected_ids :: "wave_selection \<Rightarrow> string list" where
  "selected_ids (Sel_Wave w) = sw_taskIds w"
| "selected_ids _ = []"

lemma example_selection:
  "map_option selected_ids (selectNextEpicWave wave_rt select_input) = Some [''a'', ''c'']"
  by code_simp

lemma selected_ids_wave: "map_option selected_ids s = Some (i # is) \<Longrightarrow> \<exists>w. s = Some (Sel_Wave w) \<and> sw_taskIds w = i # is"
  by (cases s) (auto elim: selected_ids.elims)

lemma example_selection_obtain:
  obtains w where "selectNextEpicWave wave_rt select_input = Some (Sel_Wave w)" "sw_taskIds w = [''a'', ''c'']"
  using selected_ids_wave [OF example_selection] by blast

theorem selected_wave_is_issued_whole_witness:
  "\<exists>w cochange. selectNextEpicWave wave_rt select_input = Some (Sel_Wave w) \<and>
     assertWaveDisjoint wave_rt [''a'', ''c''] (sw_files w) cochange = [''a'', ''c'']"
proof -
  obtain w where w: "selectNextEpicWave wave_rt select_input = Some (Sel_Wave w)" "sw_taskIds w = [''a'', ''c'']"
    by (rule example_selection_obtain)
  have "si_maxParallel select_input \<le> 64" by (simp add: select_input_def)
  from selected_wave_is_issued_whole [OF w(1) this refl] w show ?thesis by auto
qed

theorem selected_wave_tasks_ready_witness:
  "\<exists>w. selectNextEpicWave wave_rt select_input = Some (Sel_Wave w) \<and> js_get (sw_files w) ''c'' = Some [''n'']"
proof -
  obtain w where w: "selectNextEpicWave wave_rt select_input = Some (Sel_Wave w)" "sw_taskIds w = [''a'', ''c'']"
    by (rule example_selection_obtain)
  have "js_get_or (si_liveScopes select_input) ''c'' [] = [''n'']"
    by (simp add: select_input_def wave_graph_input_def js_get_or_def)
  with selected_wave_tasks_ready [OF w(1), of "''c''"] w show ?thesis by auto
qed

theorem selection_total_witness:
  "selectNextEpicWave wave_rt (select_input\<lparr>si_plan :=
     [\<lparr>ph_id = 1, ph_name = [], ph_tasks = [(wave_task ''a'' [])\<lparr>t_status := Completed\<rparr>]\<rparr>]\<rparr>) = Some Sel_None"
  using selection_total [of wave_rt "select_input\<lparr>si_plan :=
     [\<lparr>ph_id = 1, ph_name = [], ph_tasks = [(wave_task ''a'' [])\<lparr>t_status := Completed\<rparr>]\<rparr>]\<rparr>"]
  by (auto simp: select_input_def)

end
