(* ===== verification/Serial_Order.thy ===== *)
theory Serial_Order
  imports Parallel_Verdict
begin

text \<open>
  The suggested serial order of the parallel verdict.  Conflict edges always lead from an earlier
  to a later task, and the ready queue is kept in input order, so the topological sort of
  \<open>topoSort\<close> returns the tasks in the order they were given.
\<close>

section \<open>The conflict edges\<close>

text \<open>What judging a list of pairs does to the edges, when no pair repeats.\<close>

lemma judge_pairs_edges:
  assumes "distinct ps" "\<And>a b. (a, b) \<in> set ps \<Longrightarrow> b \<notin> set (js_get_or (vs_adj st) a [])"
  shows "js_get_or (vs_adj (fold (judge_pair rt resolved pairs th) ps st)) x [] =
      js_get_or (vs_adj st) x [] @ map snd (filter (\<lambda>ab. fst ab = x \<and> pair_kind rt resolved pairs th ab = Pair_Conflict) ps)
    \<and> js_get_or (vs_inDegree (fold (judge_pair rt resolved pairs th) ps st)) y 0 =
      js_get_or (vs_inDegree st) y 0 +
        int (length (filter (\<lambda>ab. snd ab = y \<and> pair_kind rt resolved pairs th ab = Pair_Conflict) ps))"
  using assms
proof (induction ps arbitrary: st)
  case Nil
  then show ?case by simp
next
  case (Cons p ps)
  obtain a b where p: "p = (a, b)" by (cases p)
  let ?st = "judge_pair rt resolved pairs th p st"
  have new: "b \<notin> set (js_get_or (vs_adj st) a [])" using Cons.prems(2) p by simp
  have adj: "vs_adj ?st = (if pair_kind rt resolved pairs th p = Pair_Conflict
      then js_set a (js_get_or (vs_adj st) a [] @ [b]) (vs_adj st) else vs_adj st)"
    and deg: "vs_inDegree ?st = (if pair_kind rt resolved pairs th p = Pair_Conflict
      then js_set b (js_get_or (vs_inDegree st) b 0 + 1) (vs_inDegree st) else vs_inDegree st)"
    using new by (auto simp: judge_pair_def pair_kind_def p Let_def)
  have "y \<notin> set (js_get_or (vs_adj ?st) x [])" if "(x, y) \<in> set ps" for x y
  proof -
    have "(x, y) \<noteq> (a, b)" using Cons.prems(1) that p by auto
    moreover have "y \<notin> set (js_get_or (vs_adj st) x [])" using Cons.prems(2) that by simp
    ultimately show ?thesis by (auto simp: adj js_map_simps)
  qed
  note IH = Cons.IH [OF _ this]
  have A: "js_get_or (vs_adj ?st) x [] = js_get_or (vs_adj st) x [] @
      (if fst p = x \<and> pair_kind rt resolved pairs th p = Pair_Conflict then [snd p] else [])"
    unfolding adj using p by (simp add: js_map_simps)
  have B: "js_get_or (vs_inDegree ?st) y 0 = js_get_or (vs_inDegree st) y 0 +
      (if snd p = y \<and> pair_kind rt resolved pairs th p = Pair_Conflict then 1 else 0)"
    unfolding deg using p by (simp add: js_map_simps)
  have "distinct ps" using Cons.prems(1) by simp
  from IH [OF this] show ?case unfolding fold_simps A B by simp
qed

lemma js_get_or_fold_const: "js_get_or (fold (\<lambda>v. js_set v d) vs []) x d = d"
  by (simp add: js_get_or_def js_get_fold_value)

lemma distinct_index_pairs: "distinct xs \<Longrightarrow> distinct (index_pairs xs)"
proof (induction xs)
  case Nil
  then show ?case by simp
next
  case (Cons x xs)
  then show ?case by (auto simp: distinct_map inj_on_def dest: index_pairs_mem)
qed

text \<open>The edges out of and into the task at a position.\<close>

lemma edges_out:
  "distinct xs \<Longrightarrow> k < length xs \<Longrightarrow>
   map snd (filter (\<lambda>ab. fst ab = xs ! k \<and> P ab) (index_pairs xs)) = filter (\<lambda>y. P (xs ! k, y)) (drop (Suc k) xs)"
proof (induction xs arbitrary: k)
  case Nil
  then show ?case by simp
next
  case (Cons x xs)
  show ?case
  proof (cases k)
    case 0
    have none: "filter (\<lambda>ab. fst ab = x \<and> P ab) (index_pairs xs) = []"
      using Cons.prems(1) by (auto simp: filter_empty_conv dest: index_pairs_mem)
    have "map snd (filter (\<lambda>ab. fst ab = x \<and> P ab) (map (Pair x) xs)) = filter (\<lambda>y. P (x, y)) xs"
      by (induction xs) auto
    with 0 none show ?thesis by simp
  next
    case (Suc k')
    have "xs ! k' \<noteq> x" using Cons.prems Suc by auto
    then have none: "filter (\<lambda>ab. fst ab = xs ! k' \<and> P ab) (map (Pair x) xs) = []"
      by (auto simp: filter_empty_conv)
    have "map snd (filter (\<lambda>ab. fst ab = xs ! k' \<and> P ab) (index_pairs xs)) = filter (\<lambda>y. P (xs ! k', y)) (drop (Suc k') xs)"
      using Cons.IH [of k'] Cons.prems Suc by simp
    with Suc none show ?thesis by simp
  qed
qed

lemma edges_in:
  "distinct xs \<Longrightarrow> j < length xs \<Longrightarrow>
   length (filter (\<lambda>ab. snd ab = xs ! j \<and> P ab) (index_pairs xs)) = length (filter (\<lambda>x. P (x, xs ! j)) (take j xs))"
proof (induction xs arbitrary: j)
  case Nil
  then show ?case by simp
next
  case (Cons x xs)
  show ?case
  proof (cases j)
    case 0
    have "filter (\<lambda>ab. snd ab = x \<and> P ab) (map (Pair x) xs @ index_pairs xs) = []"
      using Cons.prems(1) by (auto simp: filter_empty_conv dest: index_pairs_mem)
    with 0 show ?thesis by simp
  next
    case (Suc j')
    have head: "length (filter (\<lambda>ab. snd ab = ys ! i \<and> P ab) (map (Pair x) ys)) = (if P (x, ys ! i) then 1 else 0)"
      if "distinct ys" "i < length ys" for ys i
      using that
    proof (induction ys arbitrary: i)
      case Nil
      then show ?case by simp
    next
      case (Cons y ys)
      show ?case
      proof (cases i)
        case 0
        have "filter (\<lambda>ab. snd ab = y \<and> P ab) (map (Pair x) ys) = []"
          using Cons.prems(1) by (auto simp: filter_empty_conv)
        with 0 show ?thesis by simp
      next
        case (Suc i')
        then show ?thesis using Cons.IH [of i'] Cons.prems by auto
      qed
    qed
    have "length (filter (\<lambda>ab. snd ab = xs ! j' \<and> P ab) (index_pairs xs)) = length (filter (\<lambda>x. P (x, xs ! j')) (take j' xs))"
      using Cons.IH [of j'] Cons.prems Suc by simp
    with head [of xs j'] Cons.prems Suc show ?thesis by simp
  qed
qed

section \<open>Positions\<close>

interpretation by_position: signed_comparator "\<lambda>x y. position taskIds x - position taskIds y" for taskIds
  by unfold_locales auto

lemma position_nth: "distinct xs \<Longrightarrow> j < length xs \<Longrightarrow> position xs (xs ! j) = int j"
proof -
  assume d: "distinct xs" and j: "j < length xs"
  obtain i where i: "find_index (\<lambda>y. y = xs ! j) xs = Some i"
    using find_index_None [of "\<lambda>y. y = xs ! j" xs] j by (cases "find_index (\<lambda>y. y = xs ! j) xs") auto
  then have "i < length xs" "xs ! i = xs ! j" using find_index_Some [OF i] by auto
  then have "i = j" using d j by (simp add: nth_eq_iff_index_eq)
  with i show ?thesis by (simp add: position_def)
qed

section \<open>Releasing the successors\<close>

lemma release_next_fold:
  "distinct vs \<Longrightarrow> fold release_next vs (deg, q) = (deg', q') \<Longrightarrow>
   (\<forall>x. js_get_or deg' x 0 = js_get_or deg x 0 - (if x \<in> set vs then 1 else 0)) \<and>
   q' = q @ filter (\<lambda>v. js_get_or deg v 0 = 1) vs"
proof (induction vs arbitrary: deg q)
  case Nil
  then show ?case by simp
next
  case (Cons v vs)
  let ?deg = "js_set v (js_get_or deg v 0 - 1) deg"
  let ?q = "if js_get_or deg v 0 = 1 then q @ [v] else q"
  have step: "release_next v (deg, q) = (?deg, ?q)" by (auto simp: release_next_def Let_def js_map_simps)
  with Cons.prems have f: "fold release_next vs (?deg, ?q) = (deg', q')" by (simp del: split_paired_All)
  have v: "v \<notin> set vs" and d: "distinct vs" using Cons.prems(1) by auto
  have same: "filter (\<lambda>w. js_get_or ?deg w 0 = 1) vs = filter (\<lambda>w. js_get_or deg w 0 = 1) vs"
    using v by (intro filter_cong) (auto simp: js_map_simps)
  from Cons.IH [OF d f] show ?case unfolding same using v by (auto simp: js_map_simps)
qed

section \<open>The drain returns the input order\<close>

text \<open>Conflicts with the tasks that are still waiting, for the task at position \<open>j\<close>.\<close>

definition waiting_for :: "string list \<Rightarrow> (string \<times> string \<Rightarrow> bool) \<Rightarrow> nat \<Rightarrow> nat \<Rightarrow> nat" where
  "waiting_for xs P k j = length (filter (\<lambda>x. P (x, xs ! j)) (drop k (take j xs)))"

lemma waiting_for_Suc:
  "k < j \<Longrightarrow> j < length xs \<Longrightarrow>
   waiting_for xs P k j = (if P (xs ! k, xs ! j) then 1 else 0) + waiting_for xs P (Suc k) j"
proof -
  assume kj: "k < j" "j < length xs"
  then have "drop k (take j xs) = xs ! k # drop (Suc k) (take j xs)"
    by (simp add: Cons_nth_drop_Suc [symmetric])
  then show ?thesis by (simp add: waiting_for_def)
qed

definition drain_inv :: "string list \<Rightarrow> (string \<times> string \<Rightarrow> bool) \<Rightarrow> nat \<Rightarrow> degrees \<Rightarrow> string list \<Rightarrow> bool" where
  "drain_inv xs P k deg q =
     ((\<forall>j. k \<le> j \<and> j < length xs \<longrightarrow> js_get_or deg (xs ! j) 0 = int (waiting_for xs P k j)) \<and>
      set q = {xs ! j | j. k \<le> j \<and> j < length xs \<and> waiting_for xs P k j = 0} \<and> distinct q \<and>
      sorted_wrt (\<lambda>a b. position xs a - position xs b \<le> 0) q)"

text \<open>Sets of the elements at the positions in a range.\<close>

lemma positions_union:
  "(\<And>j. R j \<Longrightarrow> C j \<longleftrightarrow> A j \<or> B j) \<Longrightarrow> {f j | j. R j \<and> A j} \<union> {f j | j. R j \<and> B j} = {f j | j. R j \<and> C j}"
  by auto

lemma positions_disjoint:
  "inj_on f {j. R j} \<Longrightarrow> (\<And>j. R j \<Longrightarrow> A j \<Longrightarrow> B j \<Longrightarrow> False) \<Longrightarrow> {f j | j. R j \<and> A j} \<inter> {f j | j. R j \<and> B j} = {}"
  by (auto simp: inj_on_def)

lemma drain_step:
  assumes d: "distinct xs" and k: "k < length xs" and inv: "drain_inv xs P k deg q"
    and adj: "js_get_or adj (xs ! k) [] = filter (\<lambda>y. P (xs ! k, y)) (drop (Suc k) xs)"
  shows "\<exists>q1 deg' q'. q = xs ! k # q1 \<and> fold release_next (js_get_or adj (xs ! k) []) (deg, q1) = (deg', q') \<and>
    drain_inv xs P (Suc k) deg' (js_sort (\<lambda>x y. position xs x - position xs y) q')"
proof -
  have w0: "waiting_for xs P k k = 0" by (simp add: waiting_for_def)
  then have mem: "xs ! k \<in> set q" using inv k by (auto simp: drain_inv_def)
  then obtain c q1 where q: "q = c # q1" by (cases q) auto
  have "c \<in> set q" using q by simp
  then obtain j where j: "k \<le> j" "j < length xs" "c = xs ! j" using inv by (auto simp: drain_inv_def)
  have "position xs c - position xs (xs ! k) \<le> 0"
    using inv mem q by (auto simp: drain_inv_def)
  then have "int j \<le> int k" unfolding j(3) position_nth [OF d j(2)] position_nth [OF d k] by simp
  then have c: "c = xs ! k" using j by simp
  let ?ns = "filter (\<lambda>y. P (xs ! k, y)) (drop (Suc k) xs)"
  obtain deg' q' where f: "fold release_next ?ns (deg, q1) = (deg', q')" by fastforce
  have dns: "distinct ?ns" using d by simp
  note r = release_next_fold [OF dns f]
  have ns: "xs ! j \<in> set ?ns \<longleftrightarrow> P (xs ! k, xs ! j)" if "Suc k \<le> j" "j < length xs" for j
  proof -
    have "xs ! j \<in> set (drop (Suc k) xs)"
      using that by (auto simp: in_set_conv_nth intro!: exI [of _ "j - Suc k"])
    then show ?thesis by auto
  qed
  have deg': "js_get_or deg' (xs ! j) 0 = int (waiting_for xs P (Suc k) j)" if j: "Suc k \<le> j" "j < length xs" for j
  proof -
    have "js_get_or deg (xs ! j) 0 = int (waiting_for xs P k j)" using inv j by (simp add: drain_inv_def)
    then show ?thesis
      using r ns [OF j] waiting_for_Suc [of k j xs P] j by simp
  qed
  have ns_idx: "y \<in> set ?ns \<Longrightarrow> \<exists>j. Suc k \<le> j \<and> j < length xs \<and> y = xs ! j \<and> P (xs ! k, xs ! j)" for y
  proof -
    assume y: "y \<in> set ?ns"
    then obtain i where "i < length (drop (Suc k) xs)" "drop (Suc k) xs ! i = y" by (auto simp: in_set_conv_nth)
    then show ?thesis using y by (intro exI [of _ "Suc k + i"]) auto
  qed
  have idx: "i = j" if "i < length xs" "j < length xs" "xs ! i = xs ! j" for i j
    using d that by (simp add: nth_eq_iff_index_eq)
  have q1: "set q1 = {xs ! j | j. Suc k \<le> j \<and> j < length xs \<and> waiting_for xs P k j = 0}"
  proof -
    have "set q1 = set q - {xs ! k}" using inv q c by (auto simp: drain_inv_def)
    also have "\<dots> = {xs ! j | j. k \<le> j \<and> j < length xs \<and> waiting_for xs P k j = 0} - {xs ! k}"
      using inv by (simp add: drain_inv_def)
    also have "\<dots> = {xs ! j | j. Suc k \<le> j \<and> j < length xs \<and> waiting_for xs P k j = 0}"
    proof -
      have "xs ! j \<noteq> xs ! k \<longleftrightarrow> Suc k \<le> j" if "k \<le> j" "j < length xs" for j
        using idx [of j k] k that by (cases "j = k") auto
      then have "(\<exists>j. y = xs ! j \<and> k \<le> j \<and> j < length xs \<and> waiting_for xs P k j = 0) \<and> y \<noteq> xs ! k \<longleftrightarrow>
          (\<exists>j. y = xs ! j \<and> Suc k \<le> j \<and> j < length xs \<and> waiting_for xs P k j = 0)" for y
        by (metis Suc_leD)
      then show ?thesis by (simp add: set_eq_iff)
    qed
    finally show ?thesis .
  qed
  have fresh: "set (filter (\<lambda>v. js_get_or deg v 0 = 1) ?ns) =
      {xs ! j | j. Suc k \<le> j \<and> j < length xs \<and> P (xs ! k, xs ! j) \<and> waiting_for xs P k j = 1}"
  proof -
    have "js_get_or deg (xs ! j) 0 = int (waiting_for xs P k j)" if "Suc k \<le> j" "j < length xs" for j
      using inv that by (simp add: drain_inv_def)
    then have one: "js_get_or deg (xs ! j) 0 = 1 \<longleftrightarrow> waiting_for xs P k j = 1" if "Suc k \<le> j" "j < length xs" for j
      using that by simp
    show ?thesis
    proof (rule set_eqI, rule iffI)
      fix y assume "y \<in> set (filter (\<lambda>v. js_get_or deg v 0 = 1) ?ns)"
      then have y: "y \<in> set ?ns" "js_get_or deg y 0 = 1" by simp_all
      from ns_idx [OF y(1)] obtain j where j: "Suc k \<le> j" "j < length xs" "y = xs ! j" "P (xs ! k, xs ! j)" by blast
      with one [OF j(1,2)] y(2) have "waiting_for xs P k j = 1" by simp
      with j show "y \<in> {xs ! j | j. Suc k \<le> j \<and> j < length xs \<and> P (xs ! k, xs ! j) \<and> waiting_for xs P k j = 1}" by blast
    next
      fix y assume "y \<in> {xs ! j | j. Suc k \<le> j \<and> j < length xs \<and> P (xs ! k, xs ! j) \<and> waiting_for xs P k j = 1}"
      then obtain j where j: "Suc k \<le> j" "j < length xs" "y = xs ! j" "P (xs ! k, xs ! j)" "waiting_for xs P k j = 1" by blast
      with ns [OF j(1,2)] one [OF j(1,2)] show "y \<in> set (filter (\<lambda>v. js_get_or deg v 0 = 1) ?ns)"
        unfolding set_filter by simp
    qed
  qed
  have set_q': "set q' = {xs ! j | j. Suc k \<le> j \<and> j < length xs \<and> waiting_for xs P (Suc k) j = 0}"
  proof -
    have "set q' = set q1 \<union> set (filter (\<lambda>v. js_get_or deg v 0 = 1) ?ns)" using r by simp
    also have "\<dots> = {xs ! j | j. (Suc k \<le> j \<and> j < length xs) \<and> waiting_for xs P k j = 0} \<union>
        {xs ! j | j. (Suc k \<le> j \<and> j < length xs) \<and> P (xs ! k, xs ! j) \<and> waiting_for xs P k j = 1}"
      unfolding q1 fresh by (simp only: conj_assoc)
    also have "\<dots> = {xs ! j | j. (Suc k \<le> j \<and> j < length xs) \<and> waiting_for xs P (Suc k) j = 0}"
      by (rule positions_union) (use waiting_for_Suc [of k _ xs P] in auto)
    finally show ?thesis by (simp only: conj_assoc)
  qed
  have dq': "distinct q'"
  proof -
    have "set q1 \<inter> set (filter (\<lambda>v. js_get_or deg v 0 = 1) ?ns) = {}"
      using positions_disjoint [of "\<lambda>j. xs ! j" "\<lambda>j. Suc k \<le> j \<and> j < length xs" "\<lambda>j. waiting_for xs P k j = 0"
          "\<lambda>j. P (xs ! k, xs ! j) \<and> waiting_for xs P k j = 1"] idx
      unfolding q1 fresh by (auto simp: inj_on_def conj_assoc)
    moreover have "distinct q1" using inv q by (auto simp: drain_inv_def)
    ultimately show ?thesis using r d by (simp add: distinct_filter)
  qed
  have "drain_inv xs P (Suc k) deg' (js_sort (\<lambda>x y. position xs x - position xs y) q')"
    unfolding drain_inv_def set_js_sort distinct_js_sort
    using deg' set_q' dq' by_position.sorted_js_sort [of xs q'] by auto
  then show ?thesis using q c f adj by auto
qed

lemma drain_queue_input_order:
  assumes d: "distinct xs" and "drain_inv xs P k deg q" "k \<le> length xs"
    and adj: "\<And>i. i < length xs \<Longrightarrow> js_get_or adj (xs ! i) [] = filter (\<lambda>y. P (xs ! i, y)) (drop (Suc i) xs)"
  shows "drain_queue xs adj deg q (take k xs) = xs"
  using assms(2,3)
proof (induction "length xs - k" arbitrary: k deg q)
  case 0
  then have "k = length xs" by simp
  have "set q = {}" using 0(2) unfolding drain_inv_def \<open>k = length xs\<close> by auto
  then have "q = []" by simp
  then show ?case using \<open>k = length xs\<close> by simp
next
  case (Suc n)
  then have k: "k < length xs" by simp
  from drain_step [OF d k Suc.prems(1) adj [OF k]] obtain q1 deg' q' where step: "q = xs ! k # q1"
    "fold release_next (js_get_or adj (xs ! k) []) (deg, q1) = (deg', q')"
    "drain_inv xs P (Suc k) deg' (js_sort (\<lambda>x y. position xs x - position xs y) q')" by blast
  have "take k xs @ [xs ! k] = take (Suc k) xs" using k by (simp add: take_Suc_conv_app_nth)
  then show ?case using Suc(1) [OF _ step(3)] Suc(2) k step(1,2) by simp
qed

lemma sorted_by_position: "distinct xs \<Longrightarrow> sorted_wrt (\<lambda>a b. position xs a - position xs b \<le> 0) xs"
  by (simp add: sorted_wrt_iff_nth_less position_nth)

lemma topoSort_input_order:
  assumes "distinct taskIds" "computeParallelVerdict rt bindings taskIds opts = Inr v"
  shows "v_suggestedSerialOrder v = taskIds"
proof -
  let ?resolved = "fold (\<lambda>i. js_set i (resolve_verdict_scope opts bindings i)) taskIds []"
  let ?P = "\<lambda>ab. pair_kind rt ?resolved (verdict_pairs opts) (verdict_threshold opts) ab = Pair_Conflict"
  let ?st = "judge_pairs rt bindings taskIds opts"
  let ?init = "\<lparr>vs_pairs = [], vs_inDegree = fold (\<lambda>v. js_set v 0) taskIds [], vs_adj = fold (\<lambda>v. js_set v []) taskIds []\<rparr>"
  have fresh: "b \<notin> set (js_get_or (vs_adj ?init) a [])" for a b by (simp add: js_get_or_fold_const)
  note edges = judge_pairs_edges [OF distinct_index_pairs [OF assms(1)] fresh, of rt ?resolved "verdict_pairs opts"
      "verdict_threshold opts", folded judge_pairs_eq]
  have adj: "js_get_or (vs_adj ?st) (taskIds ! i) [] = filter (\<lambda>y. ?P (taskIds ! i, y)) (drop (Suc i) taskIds)"
    if "i < length taskIds" for i
  proof -
    have base: "js_get_or (vs_adj ?init) x [] = []" for x by (simp add: js_get_or_fold_const)
    show ?thesis using trans [OF conjunct1 [OF edges] arg_cong2 [where f = append, OF base edges_out [OF assms(1) that, of ?P]]]
      by (simp only: append_Nil)
  qed
  have deg: "js_get_or (vs_inDegree ?st) (taskIds ! j) 0 = int (waiting_for taskIds ?P 0 j)" if "j < length taskIds" for j
    using conjunct2 [OF edges, of "taskIds ! j"] edges_in [OF assms(1) that, of ?P]
    by (simp add: js_get_or_fold_const waiting_for_def)
  let ?ready = "filter (\<lambda>v. js_get_or (vs_inDegree ?st) v 0 = 0) taskIds"
  have "set ?ready = {taskIds ! j | j. 0 \<le> j \<and> j < length taskIds \<and> waiting_for taskIds ?P 0 j = 0}"
    using deg by (fastforce simp: in_set_conv_nth)
  then have inv: "drain_inv taskIds ?P 0 (vs_inDegree ?st) ?ready"
    unfolding drain_inv_def using deg assms(1) sorted_by_position [OF assms(1)] by (simp add: sorted_wrt_filter)
  have "drain_queue taskIds (vs_adj ?st) (vs_inDegree ?st) ?ready (take 0 taskIds) = taskIds"
    by (rule drain_queue_input_order [OF assms(1) inv _ adj]) simp_all
  then show ?thesis
    unfolding verdict_simps(5) [OF assms(2)] topoSort_def Let_def by simp
qed

text \<open>C39: For distinct task ids the serialization order the verdict suggests is the input order: whatever conflicts
  there are among the tasks, the topological sort returns them exactly as they were
  given, so each task comes before the later tasks it conflicts with and none is lost.  (The tool does not
  remove duplicates: of a repeated id the order keeps only one.)\<close>

theorem suggested_order_is_input_order:
  assumes "distinct taskIds" "computeParallelVerdict rt bindings taskIds opts = Inr v"
  shows "v_suggestedSerialOrder v = taskIds"
  using assms by (rule topoSort_input_order)

theorem suggested_order_is_input_order_witness:
  "\<exists>v. computeParallelVerdict (posix_runtime []) (\<lambda>_. None) [''b'', ''a'']
      \<lparr>vo_useCochange = False, vo_cochangePairs = None, vo_cochangeThreshold = None,
       vo_scopes = Some [(''a'', [''m'']), (''b'', [''m''])]\<rparr> = Inr v \<and> v_suggestedSerialOrder v = [''b'', ''a'']"
proof -
  let ?opts = "\<lparr>vo_useCochange = False, vo_cochangePairs = None, vo_cochangeThreshold = None,
       vo_scopes = Some [(''a'', [''m'']), (''b'', [''m''])]\<rparr>"
  have "length [''b'', ''a''] \<le> MAX_PARALLEL_VERDICT_TASKS" by (simp add: MAX_PARALLEL_VERDICT_TASKS_def)
  then obtain v where "computeParallelVerdict (posix_runtime []) (\<lambda>_. None) [''b'', ''a''] ?opts = Inr v"
    using verdict_cases by blast
  then show ?thesis using suggested_order_is_input_order [of "[''b'', ''a'']" "posix_runtime []" "\<lambda>_. None" ?opts v] by simp
qed

end
