(* ===== verification/Commit_Marker_Facts.thy ===== *)
theory Commit_Marker_Facts
  imports Commit_Markers Epic_Run
begin

text \<open>
  Ref names are unambiguous, commit messages are read back as they were written, and a successful
  sync leaves every commit of the record under its ref.
\<close>

section \<open>Characters\<close>

lemma of_char_less [simp]: "(of_char c :: nat) < 256"
  using nat_of_char_less_256 by simp

lemma hex_digit_inj: "a < 16 \<Longrightarrow> b < 16 \<Longrightarrow> hex_digit a = hex_digit b \<longleftrightarrow> a = b"
proof -
  assume "a < 16" "b < 16"
  then have "(of_char (hex_digit a) :: nat) = (if a < 10 then 48 + a else 87 + a)"
    "(of_char (hex_digit b) :: nat) = (if b < 10 then 48 + b else 87 + b)"
    by (simp_all add: hex_digit_def)
  then have "hex_digit a = hex_digit b \<Longrightarrow> (if a < 10 then 48 + a else 87 + a) = (if b < 10 then 48 + b else 87 + b)" by simp
  then have "hex_digit a = hex_digit b \<Longrightarrow> a = b" by (simp split: if_splits)
  then show ?thesis by blast
qed

lemma hex_byte_inj: "a < 256 \<Longrightarrow> b < 256 \<Longrightarrow> hex_byte a = hex_byte b \<longleftrightarrow> a = b"
proof -
  assume "a < 256" "b < 256"
  then have "a div 16 < 16" "b div 16 < 16" by simp_all
  then have "hex_byte a = hex_byte b \<longleftrightarrow> a div 16 = b div 16 \<and> a mod 16 = b mod 16"
    by (simp add: hex_byte_def hex_digit_inj)
  then show ?thesis by (metis div_mult_mod_eq)
qed

lemma hex_bytes_inj:
  "list_all (\<lambda>b. b < 256) xs \<Longrightarrow> list_all (\<lambda>b. b < 256) ys \<Longrightarrow>
   concat (map hex_byte xs) = concat (map hex_byte ys) \<longleftrightarrow> xs = ys"
proof (induction xs arbitrary: ys)
  case Nil
  then show ?case by (cases ys) (auto simp: hex_byte_def)
next
  case (Cons x xs)
  show ?case
  proof (cases ys)
    case Nil
    then show ?thesis by (simp add: hex_byte_def)
  next
    case (Cons y zs)
    have "hex_byte x @ concat (map hex_byte xs) = hex_byte y @ concat (map hex_byte zs) \<longleftrightarrow>
        hex_byte x = hex_byte y \<and> concat (map hex_byte xs) = concat (map hex_byte zs)"
      by (rule append_eq_append_conv) (simp add: hex_byte_def)
    then show ?thesis using Cons.IH [of zs] Cons.prems \<open>ys = y # zs\<close> by (simp add: hex_byte_inj)
  qed
qed

lemma utf8_bytes_bounded: "list_all (\<lambda>b. b < 256) (utf8_bytes c)"
proof -
  have "(of_char c :: nat) < 256" by simp
  then have "192 + (of_char c :: nat) div 64 < 256" by linarith
  then show ?thesis by (auto simp: utf8_bytes_def Let_def)
qed

text \<open>The first byte tells how many belong to the character, so concatenation can be undone.\<close>

lemma utf8_bytes_decode:
  "utf8_bytes c @ xs = utf8_bytes d @ ys \<longleftrightarrow> c = d \<and> xs = ys"
proof -
  let ?m = "of_char c :: nat" and ?n = "of_char d :: nat"
  have b: "?m < 256" "?n < 256" by simp_all
  have "?m = 64 * (?m div 64) + ?m mod 64" "?n = 64 * (?n div 64) + ?n mod 64" by simp_all
  then have eq: "?m div 64 = ?n div 64 \<Longrightarrow> ?m mod 64 = ?n mod 64 \<Longrightarrow> c = d" by (metis of_char_eq_iff)
  show ?thesis
  proof
    assume "utf8_bytes c @ xs = utf8_bytes d @ ys"
    then show "c = d \<and> xs = ys"
      using b eq by (auto simp: utf8_bytes_def Let_def of_char_eq_iff split: if_splits)
  qed simp
qed

lemma utf8_inj: "concat (map utf8_bytes s) = concat (map utf8_bytes t) \<longleftrightarrow> s = t"
proof (induction s arbitrary: t)
  case Nil
  have "utf8_bytes c \<noteq> []" for c by (simp add: utf8_bytes_def Let_def)
  then show ?case by (cases t) auto
next
  case (Cons c s)
  have "utf8_bytes c \<noteq> []" for c by (simp add: utf8_bytes_def Let_def)
  with Cons.IH show ?case by (cases t) (auto simp: utf8_bytes_decode)
qed

lemma hex_component_inj:
  "concat (map hex_byte (concat (map utf8_bytes s))) = concat (map hex_byte (concat (map utf8_bytes t))) \<longleftrightarrow> s = t"
proof -
  have "list_all (\<lambda>b. b < 256) (concat (map utf8_bytes s))" for s
    using utf8_bytes_bounded by (induction s) auto
  then show ?thesis using hex_bytes_inj utf8_inj by blast
qed

section \<open>Ref names\<close>

lemma taskRefComponent_inj: "taskRefComponent i = taskRefComponent j \<longleftrightarrow> i = j"
proof -
  have "\<not> is_alnum CHR ''_''" by code_simp
  then have "safe_component i \<Longrightarrow> i \<noteq> ''_x'' @ s" for i s by (auto simp: safe_component_def)
  then show ?thesis
    unfolding taskRefComponent_def using hex_component_inj by auto
qed

lemma show_nat_neq_Nil: "show_nat n \<noteq> []"
  by (subst show_nat.simps) simp

lemma digit_inj: "a < 10 \<Longrightarrow> b < 10 \<Longrightarrow> (char_of (48 + a) :: char) = char_of (48 + b) \<longleftrightarrow> a = (b :: nat)"
proof -
  assume ab: "a < 10" "b < 10"
  then have "(of_char (char_of (48 + a) :: char) :: nat) = 48 + a" "(of_char (char_of (48 + b) :: char) :: nat) = 48 + b"
    by simp_all
  then show ?thesis by (metis add_left_imp_eq)
qed

lemma show_nat_inj: "show_nat m = show_nat n \<longleftrightarrow> m = n"
proof (induction m arbitrary: n rule: show_nat.induct)
  case (1 m)
  have digit: "(char_of (48 + m mod 10) :: char) = char_of (48 + n mod 10) \<longleftrightarrow> m mod 10 = n mod 10" by (rule digit_inj) simp_all
  have last: "show_nat k = (if k < 10 then [] else show_nat (k div 10)) @ [char_of (48 + k mod 10)]" for k
    by (subst show_nat.simps) simp
  have "show_nat m = show_nat n \<longleftrightarrow>
      (if m < 10 then [] else show_nat (m div 10)) = (if n < 10 then [] else show_nat (n div 10)) \<and> m mod 10 = n mod 10"
    by (subst last, subst last [of n]) (simp add: digit del: char_of_mod_256)
  also have "\<dots> \<longleftrightarrow> m = n"
  proof
    assume a: "(if m < 10 then [] else show_nat (m div 10)) = (if n < 10 then [] else show_nat (n div 10)) \<and> m mod 10 = n mod 10"
    show "m = n"
    proof (cases "m < 10")
      case True
      then have "n < 10" using a show_nat_neq_Nil [of "n div 10"] by (metis (full_types))
      with True a show ?thesis by simp
    next
      case False
      then have "\<not> n < 10" using a show_nat_neq_Nil [of "m div 10"] by (auto split: if_splits)
      then have "m div 10 = n div 10" using "1.IH" [OF False, of "n div 10"] a False by simp
      then show ?thesis using a by (metis div_mult_mod_eq)
    qed
  qed simp
  finally show ?case .
qed

lemma show_nat_digit: "c \<in> set (show_nat n) \<Longrightarrow> 48 \<le> (of_char c :: nat)"
  by (induction n rule: show_nat.induct) (subst (asm) (2) show_nat.simps, auto split: if_splits)

lemma show_int_inj: "show_int m = show_int n \<longleftrightarrow> m = n"
proof -
  have minus: "show_nat k \<noteq> CHR ''-'' # s" for k s
    using show_nat_digit [of "CHR ''-''" k] by auto
  show ?thesis
    unfolding show_int_def using minus minus [symmetric] by (auto simp: show_nat_inj)
qed

lemma split_dots_neq_Nil [simp]: "split_dots s \<noteq> []"
  by (induction s rule: split_dots.induct) (auto split: list.splits)

lemma split_dots_single: "\<not> sublist [dot, dot] s \<Longrightarrow> split_dots s = [s]"
  by (induction s rule: split_dots.induct) (auto simp: sublist_Cons_right)

lemma split_dots_append:
  assumes "\<not> sublist [dot, dot] (slash # b)"
  shows "split_dots (a @ slash # b) = butlast (split_dots a) @ [last (split_dots a) @ slash # b]"
proof (induction a rule: split_dots.induct)
  case 1
  then show ?case using split_dots_single [OF assms] by simp
next
  case (2 c)
  then show ?case using split_dots_single [OF assms] by simp
next
  case (3 c d s)
  show ?case
  proof (cases "c = dot \<and> d = dot")
    case True
    then show ?thesis using 3(1) by simp
  next
    case False
    obtain w ws where w: "split_dots (d # s) = w # ws" by (cases "split_dots (d # s)") auto
    have "split_dots ((d # s) @ slash # b) = butlast (w # ws) @ [last (w # ws) @ slash # b]"
      using 3(2) [OF False] w by simp
    then show ?thesis using False w by (cases ws) auto
  qed
qed

lemma safe_append:
  assumes "isSafeGitRefArg p" "\<not> sublist [dot, dot] (slash # b)"
  shows "isSafeGitRefArg (p @ slash # b)"
proof -
  have "list_all (\<lambda>side. \<not> prefix ''-'' side) (butlast (split_dots p) @ [last (split_dots p)])"
    using assms(1) by (simp add: isSafeGitRefArg_def)
  then have "list_all (\<lambda>side. \<not> prefix ''-'' side) (butlast (split_dots p))" "\<not> prefix ''-'' (last (split_dots p))"
    by (auto simp: list_all_iff dest: in_set_butlastD)
  then have "\<not> prefix ''-'' (last (split_dots p) @ slash # b)" by (cases "last (split_dots p)") auto
  with \<open>list_all _ (butlast (split_dots p))\<close> show ?thesis
    by (simp add: isSafeGitRefArg_def split_dots_append [OF assms(2)])
qed

lemma split_on_neq_Nil [simp]: "split_on c s \<noteq> []"
  by (induction s) (auto split: list.splits)

lemma dots_empty_segment: "sublist [dot, dot] s \<Longrightarrow> [] \<in> set (tl (split_on dot s))"
proof (induction s)
  case Nil
  then show ?case by simp
next
  case (Cons c s)
  then consider "prefix [dot, dot] (c # s)" | "sublist [dot, dot] s" by (auto simp: sublist_Cons_right)
  then show ?case
  proof cases
    case 1
    then obtain r where "c # s = dot # dot # r" by (auto simp: prefix_def)
    then show ?thesis by simp
  next
    case 2
    then have "[] \<in> set (tl (split_on dot s))" by (rule Cons.IH)
    then show ?thesis by (cases "split_on dot s") auto
  qed
qed

lemma component_no_dots: "\<not> sublist [dot, dot] (taskRefComponent i)"
proof (cases "safe_component i \<and> \<not> suffix ''.lock'' i")
  case True
  then have "[] \<notin> set (split_on dot i)" by (auto simp: safe_component_def list_all_iff)
  then show ?thesis
    using True dots_empty_segment [of i] list.set_sel(2) [of "split_on dot i" "[]"] by (auto simp: taskRefComponent_def)
next
  case False
  have hex: "hex_digit n \<noteq> dot" if "n < 16" for n
  proof -
    have "(of_char (hex_digit n) :: nat) \<ge> 48" using that by (simp add: hex_digit_def)
    then show ?thesis by auto
  qed
  have "dot \<notin> set (hex_byte b)" if "b < 256" for b
  proof -
    have "b div 16 < 16" "b mod 16 < 16" using that by simp_all
    then show ?thesis using hex [of "b div 16"] hex [of "b mod 16"] by (simp add: hex_byte_def)
  qed
  then have "dot \<notin> set (taskRefComponent i)"
    using False utf8_bytes_bounded unfolding taskRefComponent_def list_all_iff if_not_P [OF False]
    by (auto simp: list_all_iff)
  moreover have "dot \<in> set s" if "sublist [dot, dot] s" for s
    using set_mono_sublist [OF that] by simp
  ultimately show ?thesis by blast
qed

lemma epicTaskRef_eq:
  "epicTaskRef key i = map_option (\<lambda>p. p @ ''/tasks/'' @ taskRefComponent i) (epicRefPrefix key)"
proof (cases "epicRefPrefix key")
  case None
  then show ?thesis by (simp add: epicTaskRef_def)
next
  case (Some p)
  then have "isSafeGitRefArg p" by (auto simp: epicRefPrefix_def assertSafeGitRefArg_def split: if_splits)
  moreover have "\<not> sublist [dot, dot] (slash # ''tasks/'' @ taskRefComponent i)"
    using component_no_dots by (auto simp: sublist_Cons_right)
  ultimately have "isSafeGitRefArg (p @ slash # ''tasks/'' @ taskRefComponent i)" by (rule safe_append)
  with Some show ?thesis by (simp add: epicTaskRef_def assertSafeGitRefArg_def)
qed

text \<open>The names of the base, wave and task refs of one epic.\<close>

lemma ref_names:
  assumes "epicRefPrefix key = Some p"
  shows "epicBaseRef key = Some (p @ ''/base'')" "epicWaveRef key s = Some (p @ ''/waves/'' @ show_int s)"
    "epicTaskRef key i = Some (p @ ''/tasks/'' @ taskRefComponent i)"
  using assms by (simp_all add: epicBaseRef_def epicWaveRef_def epicTaskRef_eq)

text \<open>Ref names are unambiguous and always usable: when git accepts the prefix of the epic, every
  task id, however odd, gets a ref that git accepts as well, and no two of the epic's base, waves and tasks share a ref.\<close>

theorem refs_unambiguous:
  assumes "epicRefPrefix key = Some p"
  shows "epicTaskRef key i \<noteq> None \<and> epicWaveRef key s \<noteq> None \<and> epicBaseRef key \<noteq> None \<and>
    (epicTaskRef key i = epicTaskRef key j \<longleftrightarrow> i = j) \<and> (epicWaveRef key s = epicWaveRef key t \<longleftrightarrow> s = t) \<and>
    epicTaskRef key i \<noteq> epicWaveRef key s \<and> epicTaskRef key i \<noteq> epicBaseRef key \<and> epicWaveRef key s \<noteq> epicBaseRef key"
  using ref_names [OF assms] by (simp add: taskRefComponent_inj show_int_inj)

theorem refs_unambiguous_witness: "epicTaskRef ''k'' ''1.2'' \<noteq> epicTaskRef ''k'' ''a b''"
proof -
  have "epicRefPrefix ''k'' = Some ''refs/swarm/epics/k''" by code_simp
  from refs_unambiguous [OF this, of "''1.2''" undefined "''a b''"] show ?thesis by simp
qed

section \<open>Commit messages are read back\<close>

lemma split_on_no_sep: "c \<notin> set s \<Longrightarrow> split_on c s = [s]"
  by (induction s) auto

lemma split_on_append: "c \<notin> set s \<Longrightarrow> split_on c (s @ c # t) = s # split_on c t"
  by (induction s) auto

lemma split_on_terminated:
  "(\<forall>r \<in> set rs. c \<notin> set r) \<Longrightarrow> split_on c (concat (map (\<lambda>r. r @ [c]) rs)) = rs @ [[]]"
  by (induction rs) (auto simp: split_on_append)

lemma index_of_first: "c \<notin> set s \<Longrightarrow> index_of (s @ c # t) [c] = Some (length s)"
  by (induction s) auto

lemma index_of_none: "c \<notin> set s \<Longrightarrow> index_of s [c] = None"
  by (induction s) auto

lemma is_hex_ascii: "is_hex c \<Longrightarrow> \<not> is_space c \<and> c \<noteq> field_sep \<and> c \<noteq> record_sep \<and> c \<noteq> newline \<and> c \<noteq> carriage_return"
proof -
  assume "is_hex c"
  then have "48 \<le> (of_char c :: nat)" "(of_char c :: nat) \<le> 102" by (auto simp: is_hex_def char_in_def)
  then show ?thesis by (auto simp: is_space_def)
qed

lemma js_trim_id: "s \<noteq> [] \<Longrightarrow> \<not> is_space (hd s) \<Longrightarrow> \<not> is_space (last s) \<Longrightarrow> js_trim s = s"
proof -
  assume s: "s \<noteq> []" "\<not> is_space (hd s)" "\<not> is_space (last s)"
  then have "dropWhile is_space s = s" "dropWhile is_space (rev s) = rev s"
    by (simp_all add: dropWhile_eq_self_iff hd_rev)
  then show ?thesis by (simp add: js_trim_def)
qed

lemma js_trim_prefix:
  assumes "a \<noteq> []" "\<not> is_space (hd a)" "\<not> is_space (last a)"
  shows "prefix a (js_trim (a @ b))"
proof -
  have "dropWhile is_space (a @ b) = a @ b" using assms(1,2) by (cases a) auto
  moreover have "suffix (rev a) (dropWhile is_space (rev b @ rev a))"
  proof (cases "\<forall>x \<in> set b. is_space x")
    case True
    then have "dropWhile is_space (rev b @ rev a) = dropWhile is_space (rev a)" by (intro dropWhile_append2) simp
    moreover have "dropWhile is_space (rev a) = rev a" using assms by (simp add: dropWhile_eq_self_iff hd_rev)
    ultimately show ?thesis by simp
  next
    case False
    then obtain x where "x \<in> set (rev b)" "\<not> is_space x" by auto
    then have "dropWhile is_space (rev b @ rev a) = dropWhile is_space (rev b) @ rev a" by (rule dropWhile_append1)
    then show ?thesis by (simp add: suffix_def)
  qed
  ultimately show ?thesis by (simp add: js_trim_def suffix_to_prefix)
qed

definition marker_subject :: "string \<Rightarrow> string" where
  "marker_subject i = ''swarm(task '' @ scrubTaskIdForGitSubject i @ ''):''"

lemma scrub_chars: "c \<in> set (scrubTaskIdForGitSubject i) \<Longrightarrow> subject_char c"
  by (auto simp: scrubTaskIdForGitSubject_def subject_char_def)

lemma subject_char_plain: "subject_char c \<Longrightarrow> c \<noteq> CHR '')'' \<and> c \<noteq> newline \<and> c \<noteq> record_sep"
proof -
  assume "subject_char c"
  then have "45 \<le> (of_char c :: nat)" by (auto simp: subject_char_def is_alnum_def char_in_def)
  then show ?thesis by auto
qed

lemma match_subject_prefix: "i \<noteq> [] \<Longrightarrow> prefix (marker_subject i) s \<Longrightarrow> match_subject s = Some (scrubTaskIdForGitSubject i)"
proof -
  assume i: "i \<noteq> []" and "prefix (marker_subject i) s"
  then obtain b where s: "s = ''swarm(task '' @ scrubTaskIdForGitSubject i @ ''):'' @ b"
    by (auto simp: marker_subject_def prefix_def)
  have "takeWhile (\<lambda>c. c \<noteq> CHR '')'') (scrubTaskIdForGitSubject i @ ''):'' @ b) = scrubTaskIdForGitSubject i"
    using scrub_chars subject_char_plain by (subst takeWhile_append2) auto
  moreover have "scrubTaskIdForGitSubject i \<noteq> []" using i by (simp add: scrubTaskIdForGitSubject_def)
  ultimately show ?thesis by (simp add: match_subject_def s Let_def)
qed

lemma marker_subject_ends: "marker_subject i \<noteq> []" "\<not> is_space (hd (marker_subject i))" "\<not> is_space (last (marker_subject i))"
  "last (marker_subject i) \<noteq> carriage_return"
  by (simp_all add: marker_subject_def is_space_def)

lemma strip_cr_prefix: "a \<noteq> [] \<Longrightarrow> last a \<noteq> carriage_return \<Longrightarrow> prefix a (strip_cr (a @ b))"
  by (cases b rule: rev_cases) (auto simp: strip_cr_def suffix_def butlast_append)

lemma strip_cr_id: "s \<noteq> [] \<Longrightarrow> last s \<noteq> carriage_return \<Longrightarrow> strip_cr s = s"
  by (cases s rule: rev_cases) (auto simp: strip_cr_def suffix_def)

lemma match_trailer_key:
  assumes "key \<noteq> []" "list_all is_hex key"
  shows "match_trailer (strip_cr (formatSwarmPlanTrailer key)) = Some key"
proof -
  have key: "\<not> is_space c \<and> c \<noteq> carriage_return" if "c \<in> set key" for c
    using that assms(2) is_hex_ascii by (auto simp: list_all_iff)
  then have "last key \<noteq> carriage_return" using assms(1) last_in_set by blast
  then have "strip_cr (formatSwarmPlanTrailer key) = ''Swarm-Plan: '' @ key"
    using assms(1) strip_cr_id [of "''Swarm-Plan: '' @ key"] by (simp add: formatSwarmPlanTrailer_def)
  moreover have "dropWhile is_blank ('' '' @ key) = key"
    using assms(1) key [of "hd key"] by (cases key) (auto simp: is_blank_def is_space_def)
  moreover have tw: "takeWhile (\<lambda>c. \<not> is_space c) key = key" using key by (simp add: takeWhile_eq_all_conv)
  ultimately show ?thesis using assms(1) by (simp add: match_trailer_def Let_def tw)
qed

lemma collapse_spaces_Cons:
  "collapse_spaces (c # s) = (if \<not> is_space c then c # collapse_spaces s
     else if s \<noteq> [] \<and> is_space (hd s) then collapse_spaces s else CHR '' '' # collapse_spaces s)"
  by (cases s) simp_all

lemma collapse_spaces_no_newline: "newline \<notin> set (collapse_spaces s)"
proof (induction s)
  case Nil
  then show ?case by simp
next
  case (Cons c s)
  have "is_space newline" by (simp add: is_space_def)
  then have "\<not> is_space c \<Longrightarrow> newline \<noteq> c" by blast
  with Cons show ?case unfolding collapse_spaces_Cons by simp
qed

lemma set_collapse_spaces: "set (collapse_spaces s) \<subseteq> insert CHR '' '' (set s)"
proof (induction s)
  case Nil
  then show ?case by simp
next
  case (Cons c s)
  then show ?case unfolding collapse_spaces_Cons by auto
qed

lemma set_js_trim: "set (js_trim s) \<subseteq> set s"
  unfolding js_trim_def by (auto dest!: set_dropWhileD)

text \<open>The part of the message's first line after the subject.\<close>

definition marker_body :: "string option \<Rightarrow> string" where
  "marker_body summary =
     (let body = js_trim (collapse_spaces (case summary of None \<Rightarrow> ''completed'' | Some s \<Rightarrow> s));
          truncated = (if length body > 60 then take 57 body @ ''...'' else body)
      in '' '' @ (if truncated = [] then ''completed'' else truncated))"

lemma format_eq:
  "formatEpicTaskCommitMessage i key summary =
     (marker_subject i @ marker_body summary) @ newline # newline # formatSwarmPlanTrailer key"
  by (simp add: formatEpicTaskCommitMessage_def marker_subject_def marker_body_def Let_def)

lemma marker_body_chars:
  "newline \<notin> set (marker_body summary)"
  "(\<forall>s. summary = Some s \<longrightarrow> record_sep \<notin> set s) \<Longrightarrow> record_sep \<notin> set (marker_body summary)"
proof -
  let ?s = "case summary of None \<Rightarrow> ''completed'' | Some s \<Rightarrow> s"
  have "newline \<notin> set (js_trim (collapse_spaces ?s))"
    using set_js_trim collapse_spaces_no_newline by blast
  then show "newline \<notin> set (marker_body summary)" by (auto simp: marker_body_def Let_def dest: in_set_takeD)
  assume "\<forall>s. summary = Some s \<longrightarrow> record_sep \<notin> set s"
  then have "record_sep \<notin> set ?s" by (cases summary) auto
  moreover have "set (js_trim (collapse_spaces ?s)) \<subseteq> insert CHR '' '' (set ?s)"
    using set_js_trim set_collapse_spaces by blast
  ultimately have "record_sep \<notin> set (js_trim (collapse_spaces ?s))" by auto
  then show "record_sep \<notin> set (marker_body summary)" by (auto simp: marker_body_def Let_def dest: in_set_takeD)
qed

lemma parse_marker:
  assumes "isFullSha sha" "i \<noteq> []" "key \<noteq> []" "list_all is_hex key" "tail = [] \<or> tail = [newline]"
  shows "parse_marker_record (sha @ field_sep # formatEpicTaskCommitMessage i key summary @ tail) =
    Some \<lparr>tmc_sha = sha, tmc_taskId = scrubTaskIdForGitSubject i, tmc_planKey = Some key\<rparr>"
proof -
  have sha: "sha \<noteq> []" "field_sep \<notin> set sha" "\<not> is_space (hd sha)" "\<not> is_space (last sha)"
  proof -
    have hex: "is_hex c" if "c \<in> set sha" for c using assms(1) that by (auto simp: isFullSha_def list_all_iff)
    show ne: "sha \<noteq> []" using assms(1) by (auto simp: isFullSha_def)
    show "field_sep \<notin> set sha" using hex is_hex_ascii by blast
    show "\<not> is_space (hd sha)" "\<not> is_space (last sha)" using is_hex_ascii [OF hex] ne by simp_all
  qed
  let ?first = "marker_subject i @ marker_body summary"
  have "newline \<notin> set (marker_subject i)"
    using scrub_chars subject_char_plain by (auto simp: marker_subject_def)
  then have first: "newline \<notin> set ?first" using marker_body_chars(1) by simp
  have key: "newline \<notin> set (formatSwarmPlanTrailer key)"
    using assms(4) is_hex_ascii by (auto simp: formatSwarmPlanTrailer_def list_all_iff)
  have lines: "split_on newline (formatEpicTaskCommitMessage i key summary @ tail) =
      ?first # [] # formatSwarmPlanTrailer key # (if tail = [] then [] else [[]])"
    using assms(5) unfolding format_eq
    by (auto simp: split_on_append [OF first, simplified] split_on_append [OF key] split_on_no_sep [OF key])
  have "prefix (marker_subject i) (strip_cr ?first)" by (rule strip_cr_prefix) (rule marker_subject_ends)+
  then obtain b where "strip_cr ?first = marker_subject i @ b" by (auto simp: prefix_def)
  then have "prefix (marker_subject i) (js_trim (strip_cr ?first))"
    using js_trim_prefix [OF marker_subject_ends(1-3)] by simp
  then have subject: "match_subject (js_trim (strip_cr ?first)) = Some (scrubTaskIdForGitSubject i)"
    by (rule match_subject_prefix [OF assms(2)])
  have nil: "match_trailer (strip_cr []) = None" by code_simp
  show ?thesis
    unfolding parse_marker_record_def
    by (simp add: index_of_first [OF sha(2)] js_trim_id [OF sha(1,3,4)] assms(1) lines subject nil
        match_trailer_key [OF assms(3,4)] Let_def)
qed

text \<open>The log of a list of task commits, newest first, as \<open>git log -z\<close> prints it: every record ends with
  the separator, and the raw message with a newline.\<close>

record task_commit =
  tc_sha :: string
  tc_taskId :: string
  tc_planKey :: string
  tc_summary :: "string option"

definition commit_log :: "task_commit list \<Rightarrow> string" where
  "commit_log commits =
     concat (map (\<lambda>c. (tc_sha c @ field_sep # formatEpicTaskCommitMessage (tc_taskId c) (tc_planKey c) (tc_summary c) @ [newline])
                    @ [record_sep]) commits)"

definition good_commit :: "task_commit \<Rightarrow> bool" where
  "good_commit c =
     (isFullSha (tc_sha c) \<and> tc_taskId c \<noteq> [] \<and> tc_planKey c \<noteq> [] \<and> list_all is_hex (tc_planKey c) \<and>
      (case tc_summary c of None \<Rightarrow> True | Some s \<Rightarrow> record_sep \<notin> set s))"

lemma message_no_separator:
  assumes "good_commit c"
  shows "record_sep \<notin> set (tc_sha c @ field_sep # formatEpicTaskCommitMessage (tc_taskId c) (tc_planKey c) (tc_summary c) @ [newline])"
proof -
  have "record_sep \<notin> set (tc_sha c)" "record_sep \<notin> set (tc_planKey c)"
    using assms is_hex_ascii by (auto simp: good_commit_def isFullSha_def list_all_iff)
  moreover have "record_sep \<notin> set (marker_body (tc_summary c))"
    using assms by (intro marker_body_chars) (auto simp: good_commit_def)
  moreover have "record_sep \<notin> set (marker_subject (tc_taskId c))"
    using scrub_chars subject_char_plain by (auto simp: marker_subject_def)
  ultimately show ?thesis by (simp add: format_eq formatSwarmPlanTrailer_def)
qed

lemma parse_commit_log:
  assumes "\<forall>c \<in> set commits. good_commit c"
  shows "parseTaskMarkerLog (commit_log commits) =
    map (\<lambda>c. \<lparr>tmc_sha = tc_sha c, tmc_taskId = scrubTaskIdForGitSubject (tc_taskId c), tmc_planKey = Some (tc_planKey c)\<rparr>) commits"
proof -
  let ?r = "\<lambda>c. tc_sha c @ field_sep # formatEpicTaskCommitMessage (tc_taskId c) (tc_planKey c) (tc_summary c) @ [newline]"
  have "split_on record_sep (commit_log commits) = map ?r commits @ [[]]"
    using split_on_terminated [of "map ?r commits" record_sep] message_no_separator assms
    by (simp add: commit_log_def o_def)
  moreover have "parse_marker_record [] = None" by code_simp
  moreover have "List.map_filter parse_marker_record (map ?r commits) =
      map (\<lambda>c. \<lparr>tmc_sha = tc_sha c, tmc_taskId = scrubTaskIdForGitSubject (tc_taskId c), tmc_planKey = Some (tc_planKey c)\<rparr>) commits"
    using assms
  proof (induction commits)
    case Nil
    then show ?case by (simp add: map_filter_simps)
  next
    case (Cons c cs)
    then have "parse_marker_record (?r c) =
        Some \<lparr>tmc_sha = tc_sha c, tmc_taskId = scrubTaskIdForGitSubject (tc_taskId c), tmc_planKey = Some (tc_planKey c)\<rparr>"
      by (intro parse_marker) (simp_all add: good_commit_def)
    with Cons show ?case by (simp add: map_filter_simps)
  qed
  ultimately show ?thesis by (simp add: parseTaskMarkerLog_def List.map_filter_def)
qed

text \<open>Looking up the commits of tasks whose subjects differ.\<close>

lemma wanted_get:
  assumes "inj_on scrubTaskIdForGitSubject (set ids)" "i \<in> set ids"
  shows "js_get (fold (\<lambda>i. js_set (scrubTaskIdForGitSubject i) i) ids []) (scrubTaskIdForGitSubject i) = Some i"
proof -
  let ?s = scrubTaskIdForGitSubject
  have "js_get (fold (\<lambda>i. js_set (?s i) i) js m) (?s i) = (if i \<in> set js then Some i else js_get m (?s i))"
    if "set js \<subseteq> set ids" for js m
    using that
  proof (induction js arbitrary: m)
    case Nil
    then show ?case by simp
  next
    case (Cons j js)
    then have "?s j = ?s i \<longleftrightarrow> j = i" using inj_onD [OF assms(1), of j i] assms(2) by auto
    with Cons show ?case by (auto simp: js_get_set)
  qed
  from this [of ids "[]"] assms(2) show ?thesis by simp
qed

lemma wanted_some:
  "js_get (fold (\<lambda>i. js_set (scrubTaskIdForGitSubject i) i) ids []) s = Some j \<Longrightarrow> j \<in> set ids \<and> scrubTaskIdForGitSubject j = s"
proof -
  have "js_get (fold (\<lambda>i. js_set (scrubTaskIdForGitSubject i) i) js m) s = Some j \<Longrightarrow>
      (j \<in> set js \<and> scrubTaskIdForGitSubject j = s) \<or> js_get m s = Some j" for js m
    by (induction js arbitrary: m) (force simp: js_get_set split: if_splits)+
  then show "js_get (fold (\<lambda>i. js_set (scrubTaskIdForGitSubject i) i) ids []) s = Some j \<Longrightarrow>
      j \<in> set ids \<and> scrubTaskIdForGitSubject j = s" by fastforce
qed

text \<open>Commits are read back: in a log of task commits written by the program, the commit found for a task is
  the newest one that carries the task's subject and the plan's trailer, whatever the summaries say, provided no two wanted tasks
  share a subject.\<close>

theorem findTaskCommits_newest:
  assumes "\<forall>c \<in> set commits. good_commit c" "inj_on scrubTaskIdForGitSubject (set ids)" "i \<in> set ids"
  shows "js_get (findTaskCommits (commit_log commits) key ids) i =
    map_option tc_sha (List.find (\<lambda>c. tc_planKey c = key \<and>
      scrubTaskIdForGitSubject (tc_taskId c) = scrubTaskIdForGitSubject i) commits)"
proof -
  let ?s = scrubTaskIdForGitSubject
  let ?wanted = "fold (\<lambda>i. js_set (?s i) i) ids []"
  let ?m = "\<lambda>c. \<lparr>tmc_sha = tc_sha c, tmc_taskId = ?s (tc_taskId c), tmc_planKey = Some (tc_planKey c)\<rparr>"
  let ?step = "\<lambda>marker found. if tmc_planKey marker \<noteq> Some key then found
      else case js_get ?wanted (tmc_taskId marker) of None \<Rightarrow> found
         | Some taskId \<Rightarrow> if js_has found taskId then found else js_set taskId (tmc_sha marker) found"
  let ?hit = "\<lambda>c. tc_planKey c = key \<and> ?s (tc_taskId c) = ?s i"
  have wanted: "js_get ?wanted (?s i) = Some i" by (rule wanted_get [OF assms(2,3)])
  have other: "js_get ?wanted k = Some j \<Longrightarrow> k \<noteq> ?s i \<Longrightarrow> j \<noteq> i" for k j using wanted_some by blast
  have step: "js_get (?step (?m c) found) i =
      (case js_get found i of Some sha \<Rightarrow> Some sha | None \<Rightarrow> if ?hit c then Some (tc_sha c) else None)" for c found
    using wanted other [of "?s (tc_taskId c)"]
    by (cases "?s (tc_taskId c) = ?s i") (auto simp: js_get_set js_has_def split: option.splits)
  have found: "js_get (fold ?step (map ?m cs) found) i =
      (case js_get found i of Some sha \<Rightarrow> Some sha | None \<Rightarrow> map_option tc_sha (List.find ?hit cs))" for cs found
  proof (induction cs arbitrary: found)
    case Nil
    then show ?case by (simp split: option.split)
  next
    case (Cons c cs)
    have "fold ?step (map ?m (c # cs)) found = fold ?step (map ?m cs) (?step (?m c) found)" by simp
    then show ?case using Cons.IH [of "?step (?m c) found"] step [of c found] by (simp split: option.splits)
  qed
  have "?wanted \<noteq> []" using wanted by auto
  then have "findTaskCommits (commit_log commits) key ids = fold ?step (map ?m commits) []"
    unfolding findTaskCommits_def parse_commit_log [OF assms(1)] Let_def by (simp only: if_False)
  then show ?thesis using found [of commits "[]"] by simp
qed

theorem findTaskCommits_newest_witness:
  "js_get (findTaskCommits (commit_log
      [\<lparr>tc_sha = replicate 40 CHR ''b'', tc_taskId = ''1.1'', tc_planKey = ''ab'', tc_summary = Some ''fix: Swarm-Plan: cd''\<rparr>,
       \<lparr>tc_sha = replicate 40 CHR ''a'', tc_taskId = ''1.1'', tc_planKey = ''ab'', tc_summary = None\<rparr>]) ''ab'' [''1.1'', ''1.2'']) ''1.1''
   = Some (replicate 40 CHR ''b'')"
proof -
  let ?commits = "[\<lparr>tc_sha = replicate 40 CHR ''b'', tc_taskId = ''1.1'', tc_planKey = ''ab'', tc_summary = Some ''fix: Swarm-Plan: cd''\<rparr>,
       \<lparr>tc_sha = replicate 40 CHR ''a'', tc_taskId = ''1.1'', tc_planKey = ''ab'', tc_summary = None\<rparr>]"
  have "list_all good_commit ?commits" by code_simp
  then have "\<forall>c \<in> set ?commits. good_commit c" by (simp add: list_all_iff)
  moreover have "scrubTaskIdForGitSubject ''1.1'' = ''1.1''" "scrubTaskIdForGitSubject ''1.2'' = ''1.2''" by code_simp+
  then have "inj_on scrubTaskIdForGitSubject (set [''1.1'', ''1.2''])" by simp
  ultimately show ?thesis using findTaskCommits_newest [of ?commits "[''1.1'', ''1.2'']" "''1.1''" "''ab''"] by simp
qed

text \<open>Two task ids that differ only in characters a subject cannot hold share their commits.\<close>

lemma subjects_collide: "formatEpicTaskCommitMessage ''a/b'' key summary = formatEpicTaskCommitMessage ''a_b'' key summary"
proof -
  have "scrubTaskIdForGitSubject ''a/b'' = scrubTaskIdForGitSubject ''a_b''" by code_simp
  then show ?thesis by (simp add: formatEpicTaskCommitMessage_def)
qed

end
