(* ===== verification/Ref_Sync.thy ===== *)
theory Ref_Sync
  imports Commit_Marker_Facts
begin

text \<open>
  The refs mirror the record.  \<open>ref_store\<close> states what the code relies on of git's ref commands;
  it is interpreted on an executable model of them.  Under it a sync that succeeds leaves every
  commit the record names under its ref, and one that fails has changed no other ref.
\<close>

section \<open>The contract of git's ref commands\<close>

locale ref_store =
  fixes env :: git_env
  assumes list_sound: "ge_list env refs p = Inr out \<Longrightarrow> prefix (p @ ''/'') name \<Longrightarrow>
      js_get (parse_refs out) name = Some s \<Longrightarrow> js_get refs name = Some s"
    and update_applied: "ge_update env refs ref sha existing = (True, refs') \<Longrightarrow> refs' = js_set ref sha refs"
    and update_lost: "ge_update env refs ref sha existing = (False, refs') \<Longrightarrow> refs' = refs \<or> refs' = js_set ref sha refs"
    and reread_sound: "ge_reread env refs ref = Inr out \<Longrightarrow> isFullSha (hd (split_lines (js_trim out))) \<Longrightarrow>
      js_get refs ref = Some (hd (split_lines (js_trim out)))"
begin

text \<open>A write that reports success left the value there, even when the command itself failed.\<close>

lemma write_spec:
  assumes "writeEpicRef env refs ref sha existing = (res, refs')"
    and "\<And>v. existing = Some v \<Longrightarrow> js_get refs ref = Some v"
  shows "(res = Inr w \<longrightarrow> js_get refs' ref = Some sha) \<and> (\<forall>r. r \<noteq> ref \<longrightarrow> js_get refs' r = js_get refs r) \<and>
    (js_get refs' ref = js_get refs ref \<or> js_get refs' ref = Some sha)"
proof (cases "\<not> isFullSha sha \<or> assertSafeGitRefArg ref = None \<or> existing = Some sha")
  case True
  then show ?thesis using assms by (auto simp: writeEpicRef_def split: if_splits)
next
  case False
  obtain ok refs1 where u: "ge_update env refs ref sha existing = (ok, refs1)" by (cases "ge_update env refs ref sha existing")
  have applied: "refs1 = js_set ref sha refs" if ok
    using update_applied [of refs ref sha existing refs1] u that by simp
  have refs1: "refs1 = refs \<or> refs1 = js_set ref sha refs"
    using update_lost [of refs ref sha existing refs1] applied u by (cases ok) simp_all
  have refs': "refs' = refs1" using assms(1) False u by (auto simp: writeEpicRef_def Let_def split: if_splits sum.splits)
  have "js_get refs1 ref = Some sha" if "res = Inr w"
  proof (cases ok)
    case True
    then show ?thesis using applied by (simp add: js_get_set)
  next
    case False
    then have "readOneRef env refs1 ref = Inr (Some sha)"
      using assms(1) \<open>\<not> (_ \<or> _ \<or> _)\<close> u that by (auto simp: writeEpicRef_def Let_def split: if_splits sum.splits)
    then show ?thesis using reread_sound by (auto simp: readOneRef_def Let_def split: sum.splits if_splits)
  qed
  then show ?thesis using refs1 refs' by (auto simp: js_get_set)
qed

lemma sync_loop_spec:
  assumes "sync_loop env desired existing refs = (res, refs')" "distinct (map fst desired)"
    and "\<And>r v. r \<in> fst ` set desired \<Longrightarrow> js_get existing r = Some v \<Longrightarrow> js_get refs r = Some v"
  shows "(\<forall>r. r \<notin> fst ` set desired \<longrightarrow> js_get refs' r = js_get refs r) \<and>
    (\<forall>(r, s) \<in> set desired. js_get refs' r = js_get refs r \<or> js_get refs' r = Some s) \<and>
    (\<forall>ex. res = Inr ex \<longrightarrow> (\<forall>(r, s) \<in> set desired. js_get refs' r = Some s))"
  using assms
proof (induction desired arbitrary: existing refs)
  case Nil
  then show ?case by simp
next
  case (Cons d desired)
  obtain ref sha where d: "d = (ref, sha)" by (cases d)
  obtain res1 refs1 where w: "writeEpicRef env refs ref sha (js_get existing ref) = (res1, refs1)"
    by (cases "writeEpicRef env refs ref sha (js_get existing ref)")
  have spec: "res1 = Inr x \<longrightarrow> js_get refs1 ref = Some sha" "\<forall>r. r \<noteq> ref \<longrightarrow> js_get refs1 r = js_get refs r"
    "js_get refs1 ref = js_get refs ref \<or> js_get refs1 ref = Some sha" for x
    using write_spec [OF w, of x] Cons.prems(3) d by auto
  show ?case
  proof (cases res1)
    case (Inl e)
    then have r: "res = Inl e" "refs' = refs1" using Cons.prems(1) w d by simp_all
    have "js_get refs1 r = js_get refs r" if "(r, s) \<in> set desired" for r s
    proof -
      have "r \<noteq> ref" using that Cons.prems(2) d by (auto simp: image_iff)
      then show ?thesis using spec(2) by blast
    qed
    then show ?thesis using r spec d by auto
  next
    case (Inr x)
    have rest: "sync_loop env desired (js_set ref sha existing) refs1 = (res, refs')" using Cons.prems(1) w d Inr by simp
    have new: "ref \<notin> fst ` set desired" "distinct (map fst desired)" using Cons.prems(2) d by auto
    have "js_get refs1 r = Some v" if "r \<in> fst ` set desired" "js_get (js_set ref sha existing) r = Some v" for r v
    proof -
      have "r \<noteq> ref" using that(1) new by blast
      then show ?thesis using that Cons.prems(3) [of r v] spec(2) d by (auto simp: js_get_set)
    qed
    note ih = Cons.IH [OF rest new(2) this]
    have here: "js_get refs' ref = Some sha" using conjunct1 [OF ih] new(1) spec(1) Inr by simp
    have "js_get refs' r = js_get refs r" if "r \<notin> fst ` set (d # desired)" for r
      using that conjunct1 [OF ih] spec(2) d by simp
    moreover have "js_get refs' r = js_get refs r \<or> js_get refs' r = Some s" if "(r, s) \<in> set (d # desired)" for r s
    proof (cases "(r, s) = d")
      case True
      then show ?thesis using here d by simp
    next
      case False
      then have in': "(r, s) \<in> set desired" using that by simp
      then have "r \<in> fst ` set desired" by (simp add: image_iff) (rule bexI [of _ "(r, s)"], simp_all)
      then have "r \<noteq> ref" using new(1) by blast
      then have "js_get refs1 r = js_get refs r" using spec(2) by blast
      moreover have "js_get refs' r = js_get refs1 r \<or> js_get refs' r = Some s"
        using bspec [OF conjunct1 [OF conjunct2 [OF ih]] in'] by simp
      ultimately show ?thesis by simp
    qed
    moreover have "js_get refs' r = Some s" if "res = Inr ex" "(r, s) \<in> set (d # desired)" for ex r s
      using that here d conjunct2 [OF conjunct2 [OF ih]] by auto
    ultimately show ?thesis by blast
  qed
qed

end

section \<open>What a record asks for\<close>

lemma in_set_js_set: "p \<in> set (js_set k v m) \<Longrightarrow> p = (k, v) \<or> p \<in> set m"
  by (induction m) (auto split: if_splits)

lemma distinct_js_set: "distinct (map fst m) \<Longrightarrow> distinct (map fst (js_set k v m))"
  by (rule distinct_update)

lemma add_desired_None: "fold add_desired ps None = None"
proof (induction ps)
  case Nil
  then show ?case by simp
next
  case (Cons p ps)
  have "add_desired p None = None" by (cases p; cases "snd p") auto
  with Cons show ?case by simp
qed

lemma add_desired_spec:
  assumes "fold add_desired ps (Some d) = Some d'" "distinct (map fst ps)" "distinct (map fst d)"
    and "\<And>r. r \<in> fst ` set d \<Longrightarrow> Some r \<notin> fst ` set ps"
  shows "distinct (map fst d') \<and>
    (\<forall>r s. js_get d' r = Some s \<longleftrightarrow> ((Some r, Some s) \<in> set ps \<and> isFullSha s) \<or> js_get d r = Some s)"
  using assms
proof (induction ps arbitrary: d)
  case Nil
  then show ?case by simp
next
  case (Cons p ps)
  obtain ref sha where p: "p = (ref, sha)" by (cases p)
  show ?case
  proof (cases "\<exists>s. sha = Some s \<and> isFullSha s")
    case False
    then have "add_desired p (Some d) = Some d" using p by (cases sha) auto
    then have "fold add_desired ps (Some d) = Some d'" using Cons.prems(1) by simp
    moreover have "distinct (map fst ps)" "Some r \<notin> fst ` set ps" if "r \<in> fst ` set d" for r
      using Cons.prems(2) Cons.prems(4) [OF that] by simp_all
    ultimately have "distinct (map fst d') \<and>
        (\<forall>r s. js_get d' r = Some s \<longleftrightarrow> ((Some r, Some s) \<in> set ps \<and> isFullSha s) \<or> js_get d r = Some s)"
      using Cons.IH [OF _ _ Cons.prems(3)] Cons.prems(2) by (metis distinct.simps(2) list.simps(9))
    then show ?thesis using False p by auto
  next
    case True
    then obtain s where s: "sha = Some s" "isFullSha s" by blast
    have "ref \<noteq> None"
    proof
      assume "ref = None"
      then have "add_desired p (Some d) = None" using p s by simp
      then show False using Cons.prems(1) add_desired_None by simp
    qed
    then obtain r0 where r0: "ref = Some r0" by blast
    have step: "add_desired p (Some d) = Some (js_set r0 s d)" using p s r0 by simp
    have new: "Some r0 \<notin> fst ` set ps" "r0 \<notin> fst ` set d" using Cons.prems(2,4) p r0 by auto
    have "distinct (map fst d') \<and>
        (\<forall>r t. js_get d' r = Some t \<longleftrightarrow> ((Some r, Some t) \<in> set ps \<and> isFullSha t) \<or> js_get (js_set r0 s d) r = Some t)"
    proof (rule Cons.IH)
      show "fold add_desired ps (Some (js_set r0 s d)) = Some d'" using Cons.prems(1) step by simp
      show "distinct (map fst ps)" using Cons.prems(2) by simp
      show "distinct (map fst (js_set r0 s d))" by (rule distinct_js_set [OF Cons.prems(3)])
      show "Some r \<notin> fst ` set ps" if "r \<in> fst ` set (js_set r0 s d)" for r
        using that new(1) Cons.prems(4) [of r] by (auto simp: js_dom_set)
    qed
    moreover have "js_get (js_set r0 s d) r = Some t \<longleftrightarrow> (r = r0 \<and> t = s) \<or> js_get d r = Some t" for r t
      using js_get_no_key [OF new(2)] by (auto simp: js_get_set)
    moreover have "(Some r0, x) \<notin> set ps" for x using new(1) by (metis fst_conv image_eqI)
    ultimately show ?thesis using p s r0 by auto
  qed
qed

text \<open>The outcomes of a record are kept under their own task ids.\<close>

definition tasks_keyed :: "epic_record \<Rightarrow> bool" where
  "tasks_keyed r = (distinct (map fst (ep_tasks r)) \<and> (\<forall>(k, x) \<in> set (ep_tasks r). o_taskId x = k))"

lemma tasks_keyed_cong: "ep_tasks r' = ep_tasks r \<Longrightarrow> tasks_keyed r \<Longrightarrow> tasks_keyed r'"
  by (simp add: tasks_keyed_def)

definition keyed :: "(string, epic_outcome) js_map \<Rightarrow> bool" where
  "keyed m = (distinct (map fst m) \<and> (\<forall>(k, x) \<in> set m. o_taskId x = k))"

lemma keyed_set: "keyed m \<Longrightarrow> o_taskId x = k \<Longrightarrow> keyed (js_set k x m)"
  unfolding keyed_def using distinct_js_set in_set_js_set by fast

lemma keyed_get: "keyed m \<Longrightarrow> js_get m k = Some x \<Longrightarrow> o_taskId x = k"
  unfolding keyed_def using map_of_SomeD by fast

lemma keyed_close: "keyed m \<Longrightarrow> keyed (fold (\<lambda>x. js_set (o_taskId x) (remember_previous tasks x)) xs m)"
proof (induction xs arbitrary: m)
  case Nil
  then show ?case by simp
next
  case (Cons x xs)
  have "o_taskId (remember_previous tasks x) = o_taskId x" by (simp add: remember_previous_def split: option.split)
  then show ?case using Cons keyed_set by simp
qed

lemma keyed_repair:
  "keyed m \<Longrightarrow> (\<And>t s x. o_taskId (f t s x) = o_taskId x) \<Longrightarrow>
   keyed (fold (\<lambda>(taskId, sha) tasks. case js_get tasks taskId of
           None \<Rightarrow> tasks | Some x \<Rightarrow> js_set taskId (f taskId sha x) tasks) repairs m)"
proof (induction repairs arbitrary: m)
  case Nil
  then show ?case by simp
next
  case (Cons p ps)
  obtain i sha where p: "p = (i, sha)" by (cases p)
  have "keyed (case js_get m i of None \<Rightarrow> m | Some x \<Rightarrow> js_set i (f i sha x) m)"
    using Cons.prems keyed_get keyed_set by (auto split: option.split)
  with Cons p show ?case by simp
qed

lemma epic_run_keyed: "epic_run h \<Longrightarrow> \<forall>r \<in> set h. keyed (ep_tasks r)"
proof (induction rule: epic_run.induct)
  case (run_start key token hash planKey digest startedAt isRepo base width isClosed plan)
  then show ?case by (simp add: start_record_def keyed_def)
next
  case (run_close r h r0 s w c now)
  then have "keyed (ep_tasks (applyWaveClose s c now r))"
    by (simp add: applyWaveClose_def keyed_close split: option.split)
  with run_close show ?case by simp
next
  case (run_repair r h ref repairs)
  then have "keyed (ep_tasks (repair_markers ref repairs r))"
    unfolding repair_markers_def by simp (rule keyed_repair; simp)
  with run_repair show ?case by simp
qed (simp_all add: issue_wave_def clear_dangling_def abort_wave_def record_merge_failures_def sync_phases_def
      complete_phase_def record_review_run_def mark_closing_def resumeClosing_def set_branch_def set_landing_attempt_def
      Let_def split: option.split prod.split)

section \<open>A sync leaves every commit under its ref\<close>

lemma desired_refs_distinct:
  assumes "wave_inv r" "keyed (ep_tasks r)" "epicRefPrefix (ep_epicKey r) = Some p"
  shows "distinct (map fst ((epicBaseRef (ep_epicKey r), ep_baseCommit r) # wave_refs r @ task_refs r))"
proof -
  note names = ref_names [OF assms(3)]
  have "distinct (map ew_seq (ep_waves r))"
    using wave_inv_seq_inj [OF assms(1)] by (auto simp: distinct_conv_nth)
  then have seqs: "distinct (map ew_seq (filter (\<lambda>w. ew_status w = Wave_Closed) (ep_waves r)))" by (rule distinct_map_filter)
  have "map fst (wave_refs r) = map (\<lambda>s. Some (p @ ''/waves/'' @ show_int s))
      (map ew_seq (filter (\<lambda>w. ew_status w = Wave_Closed) (ep_waves r)))"
    by (simp add: wave_refs_def names)
  then have "distinct (map fst (wave_refs r))"
    using seqs by (simp add: distinct_map inj_on_def show_int_inj)
  moreover have "map o_taskId (map snd (ep_tasks r)) = map fst (ep_tasks r)"
    using assms(2) by (auto simp: keyed_def)
  then have "distinct (map o_taskId (map snd (ep_tasks r)))"
    using assms(2) by (simp only: keyed_def)
  then have "distinct (map o_taskId (filter (\<lambda>x. o_resolution x = Res_Completed) (map snd (ep_tasks r))))"
    by (rule distinct_map_filter)
  then have "distinct (map fst (task_refs r))"
    by (simp add: task_refs_def names o_def distinct_map inj_on_def taskRefComponent_inj)
  ultimately show ?thesis
    by (auto simp: names wave_refs_def task_refs_def)
qed

lemma desired_refs_names:
  assumes "epicRefPrefix (ep_epicKey r) = Some p"
    and "(Some name, x) \<in> set ((epicBaseRef (ep_epicKey r), ep_baseCommit r) # wave_refs r @ task_refs r)"
  shows "prefix (p @ ''/'') name"
  using assms(2) by (auto simp: ref_names [OF assms(1)] wave_refs_def task_refs_def)

lemma sync_cases:
  assumes "syncEpicRefs env refs r = (res, refs')"
  shows "(\<exists>e. res = Inl e \<and> refs' = refs) \<or>
    (\<exists>p out desired. epicRefPrefix (ep_epicKey r) = Some p \<and> ge_list env refs p = Inr out \<and>
       desiredEpicRefs r = Some desired \<and> sync_loop env desired (parse_refs out) refs = (res, refs'))"
  using assms by (auto simp: syncEpicRefs_def readEpicRefs_def split: sum.splits option.splits)

text \<open>The commits a record names, with the ref each belongs under: its base, the head of every closed wave, and the commit
  of every completed task.\<close>

definition names_commit :: "epic_record \<Rightarrow> string \<Rightarrow> string \<Rightarrow> bool" where
  "names_commit r name s =
     (isFullSha s \<and>
      ((epicBaseRef (ep_epicKey r) = Some name \<and> ep_baseCommit r = Some s) \<or>
       (\<exists>w \<in> set (ep_waves r). ew_status w = Wave_Closed \<and> epicWaveRef (ep_epicKey r) (ew_seq w) = Some name \<and> ew_closeHead w = Some s) \<or>
       (\<exists>(i, x) \<in> set (ep_tasks r). o_resolution x = Res_Completed \<and> epicTaskRef (ep_epicKey r) i = Some name \<and> marker_sha x = Some s)))"

lemma names_commit_refs:
  assumes "keyed (ep_tasks r)"
  shows "names_commit r name s \<longleftrightarrow>
    (Some name, Some s) \<in> set ((epicBaseRef (ep_epicKey r), ep_baseCommit r) # wave_refs r @ task_refs r) \<and> isFullSha s"
proof -
  have "(Some name, Some s) \<in> set (task_refs r) \<longleftrightarrow>
      (\<exists>(i, x) \<in> set (ep_tasks r). o_resolution x = Res_Completed \<and> epicTaskRef (ep_epicKey r) i = Some name \<and> marker_sha x = Some s)"
    using assms unfolding task_refs_def keyed_def by (auto simp: image_iff Bex_def split_beta) (metis fst_conv snd_conv)+
  moreover have "(Some name, Some s) \<in> set (wave_refs r) \<longleftrightarrow>
      (\<exists>w \<in> set (ep_waves r). ew_status w = Wave_Closed \<and> epicWaveRef (ep_epicKey r) (ew_seq w) = Some name \<and> ew_closeHead w = Some s)"
    unfolding wave_refs_def by force
  ultimately show ?thesis unfolding names_commit_def by auto
qed

lemma desired_refs_spec:
  assumes "wave_inv r" "keyed (ep_tasks r)" "ep_isRepo r" "epicRefPrefix (ep_epicKey r) = Some p" "desiredEpicRefs r = Some desired"
  shows "distinct (map fst desired)" "(name, s) \<in> set desired \<longleftrightarrow> names_commit r name s"
proof -
  let ?ps = "(epicBaseRef (ep_epicKey r), ep_baseCommit r) # wave_refs r @ task_refs r"
  have "fold add_desired ?ps (Some []) = Some desired" using assms(3,5) by (simp add: desiredEpicRefs_def)
  then have d: "distinct (map fst desired)"
    "js_get desired n = Some v \<longleftrightarrow> (Some n, Some v) \<in> set ?ps \<and> isFullSha v" for n v
    using add_desired_spec [OF _ desired_refs_distinct [OF assms(1,2,4)]] by fastforce+
  show "distinct (map fst desired)" by (rule d(1))
  show "(name, s) \<in> set desired \<longleftrightarrow> names_commit r name s"
    using d map_of_eq_Some_iff [OF d(1)] unfolding names_commit_refs [OF assms(2)] by blast
qed

lemma names_commit_namespace:
  assumes "keyed (ep_tasks r)" "epicRefPrefix (ep_epicKey r) = Some p" "names_commit r name s"
  shows "prefix (p @ ''/'') name"
  using assms(3) desired_refs_names [OF assms(2)] unfolding names_commit_refs [OF assms(1)] by blast

lemma sync_spec:
  assumes "ref_store env" "epic_run (r # h)" "ep_isRepo r" "syncEpicRefs env refs r = (res, refs')" "\<not> (\<exists>e. res = Inl e \<and> refs' = refs)"
  shows "epicRefPrefix (ep_epicKey r) \<noteq> None \<and>
    (\<forall>name s. names_commit r name s \<longrightarrow>
       prefix (EPIC_REFS_ROOT @ ''/'' @ ep_epicKey r @ ''/'') name \<and> (\<forall>ex. res = Inr ex \<longrightarrow> js_get refs' name = Some s)) \<and>
    (\<forall>name. js_get refs' name = js_get refs name \<or> (\<exists>s. names_commit r name s \<and> js_get refs' name = Some s))"
proof -
  obtain p out desired where s: "epicRefPrefix (ep_epicKey r) = Some p" "ge_list env refs p = Inr out"
    "desiredEpicRefs r = Some desired" "sync_loop env desired (parse_refs out) refs = (res, refs')"
    using sync_cases [OF assms(4)] assms(5) by blast
  have inv: "wave_inv r" "keyed (ep_tasks r)"
    using epic_run_good [OF assms(2)] epic_run_keyed [OF assms(2)] by (simp_all add: good_history_def)
  note d = desired_refs_spec [OF inv assms(3) s(1,3)]
  have ns: "prefix (p @ ''/'') name" if "name \<in> fst ` set desired" for name
    using that d(2) names_commit_namespace [OF inv(2) s(1)] by (metis imageE prod.collapse)
  have p: "p = EPIC_REFS_ROOT @ ''/'' @ ep_epicKey r"
    using s(1) by (simp add: epicRefPrefix_def assertSafeGitRefArg_def split: if_splits)
  note sync = ref_store.sync_loop_spec [OF assms(1) s(4) d(1) ref_store.list_sound [OF assms(1) s(2) ns]]
  have "prefix (EPIC_REFS_ROOT @ ''/'' @ ep_epicKey r @ ''/'') name \<and> (\<forall>ex. res = Inr ex \<longrightarrow> js_get refs' name = Some v)"
    if n: "names_commit r name v" for name v
  proof -
    have "(name, v) \<in> set desired" using n d(2) by simp
    then show ?thesis using conjunct2 [OF conjunct2 [OF sync]] names_commit_namespace [OF inv(2) s(1) n] p by auto
  qed
  moreover have "js_get refs' name = js_get refs name \<or> (\<exists>v. names_commit r name v \<and> js_get refs' name = Some v)" for name
  proof (cases "name \<in> fst ` set desired")
    case True
    then obtain v where v: "(name, v) \<in> set desired" by auto
    then show ?thesis using bspec [OF conjunct1 [OF conjunct2 [OF sync]] v] d(2) by auto
  next
    case False
    then show ?thesis using conjunct1 [OF sync] by blast
  qed
  ultimately show ?thesis using s(1) by blast
qed

text \<open>C34: The refs mirror the record.  After a sync of a reachable record that succeeds, the commit of every completed task,
  the head of every closed wave and the base commit are held by their refs, all of them in the epic's namespace.
  And whatever happens, also when git fails half-way, every other ref is left as it was, inside the
  namespace and outside: a ref that changed is one the record names, and it changed to the commit the record names for it.\<close>

theorem synced_refs_hold_the_commits:
  assumes "ref_store env" "epic_run (r # h)" "ep_isRepo r" "syncEpicRefs env refs r = (res, refs')"
  shows "(\<forall>existing. res = Inr existing \<longrightarrow>
      (\<forall>i x s. js_get (ep_tasks r) i = Some x \<and> o_resolution x = Res_Completed \<and> marker_sha x = Some s \<and> isFullSha s \<longrightarrow>
         js_get refs' (the (epicTaskRef (ep_epicKey r) i)) = Some s) \<and>
      (\<forall>w \<in> set (ep_waves r). \<forall>s. ew_status w = Wave_Closed \<and> ew_closeHead w = Some s \<and> isFullSha s \<longrightarrow>
         js_get refs' (the (epicWaveRef (ep_epicKey r) (ew_seq w))) = Some s) \<and>
      (\<forall>s. ep_baseCommit r = Some s \<and> isFullSha s \<longrightarrow> js_get refs' (the (epicBaseRef (ep_epicKey r))) = Some s) \<and>
      (\<forall>name s. names_commit r name s \<longrightarrow> prefix (EPIC_REFS_ROOT @ ''/'' @ ep_epicKey r @ ''/'') name)) \<and>
    (\<forall>name. js_get refs' name = js_get refs name \<or> (\<exists>s. names_commit r name s \<and> js_get refs' name = Some s))"
proof (cases "\<exists>e. res = Inl e \<and> refs' = refs")
  case True
  then show ?thesis by auto
next
  case False
  note sync = sync_spec [OF assms False]
  then obtain p where p: "epicRefPrefix (ep_epicKey r) = Some p" by blast
  have held: "js_get refs' (the n) = Some s" if "res = Inr ex" "names_commit r (the n) s" for ex n s
    using that sync by blast
  have "names_commit r (the (epicTaskRef (ep_epicKey r) i)) s"
    if "js_get (ep_tasks r) i = Some x" "o_resolution x = Res_Completed" "marker_sha x = Some s" "isFullSha s" for i x s
    using that map_of_SomeD [OF that(1)] unfolding names_commit_def ref_names [OF p] by force
  moreover have "names_commit r (the (epicWaveRef (ep_epicKey r) (ew_seq w))) s"
    if "w \<in> set (ep_waves r)" "ew_status w = Wave_Closed" "ew_closeHead w = Some s" "isFullSha s" for w s
    using that unfolding names_commit_def ref_names [OF p] by auto
  moreover have "names_commit r (the (epicBaseRef (ep_epicKey r))) s" if "ep_baseCommit r = Some s" "isFullSha s" for s
    using that unfolding names_commit_def ref_names [OF p] by auto
  moreover have "\<forall>name s. names_commit r name s \<longrightarrow> prefix (EPIC_REFS_ROOT @ ''/'' @ ep_epicKey r @ ''/'') name"
    "\<forall>name. js_get refs' name = js_get refs name \<or> (\<exists>s. names_commit r name s \<and> js_get refs' name = Some s)"
    using sync by (blast, blast)
  ultimately show ?thesis using held by (intro conjI allI impI ballI; (elim conjE)?) (simp_all, blast)
qed

section \<open>Git's ref commands\<close>

text \<open>\<open>update-ref\<close> with an expected value is a compare-and-swap; names with white space cannot exist.\<close>

definition valid_ref :: "git_refs \<Rightarrow> string \<Rightarrow> bool" where
  "valid_ref refs n = (n \<noteq> [] \<and> list_all (\<lambda>c. \<not> is_space c) n \<and> (case js_get refs n of None \<Rightarrow> False | Some s \<Rightarrow> isFullSha s))"

definition ref_line :: "string \<times> string \<Rightarrow> string" where
  "ref_line = (\<lambda>(n, s). (s @ '' '' @ n) @ [newline])"

definition git_model :: git_env where
  "git_model =
     \<lparr>ge_list = (\<lambda>refs p. Inr (concat (map ref_line (map (\<lambda>n. (n, the (js_get refs n)))
        (filter (\<lambda>n. (n = p \<or> prefix (p @ ''/'') n) \<and> valid_ref refs n) (js_keys refs)))))),
      ge_update = (\<lambda>refs ref sha existing.
        if js_get refs ref = existing then (True, js_set ref sha refs) else (False, refs)),
      ge_delete = (\<lambda>refs ref sha. if js_get refs ref = Some sha then (True, js_delete ref refs) else (False, refs)),
      ge_reread = (\<lambda>refs ref. Inr (case js_get refs ref of None \<Rightarrow> []
        | Some s \<Rightarrow> if isFullSha s then s @ [newline] else [])),
      ge_ancestor = (\<lambda>_. True)\<rparr>"

lemma isFullSha_plain:
  assumes "isFullSha s"
  shows "s \<noteq> []" "\<And>c. c \<in> set s \<Longrightarrow> \<not> is_space c"
  using assms is_hex_ascii by (auto simp: isFullSha_def list_all_iff)

lemma is_space_newline [simp]: "is_space newline" "is_space CHR '' ''" "is_space carriage_return"
  by (simp_all add: is_space_def)

lemma plain_trim: "n \<noteq> [] \<Longrightarrow> (\<And>c. c \<in> set n \<Longrightarrow> \<not> is_space c) \<Longrightarrow> js_trim n = n"
  by (rule js_trim_id) simp_all

lemma parse_ref_lines:
  assumes "\<forall>(n, s) \<in> set es. isFullSha s \<and> n \<noteq> [] \<and> list_all (\<lambda>c. \<not> is_space c) n"
  shows "parse_refs (concat (map ref_line es)) = fold (\<lambda>(n, s). js_set n s) es []"
proof -
  let ?l = "\<lambda>(n, s). s @ '' '' @ n"
  have line: "newline \<notin> set (?l e) \<and> strip_cr (?l e) = ?l e \<and> parse_ref_line (?l e) m = (case e of (n, s) \<Rightarrow> js_set n s m)"
    if "e \<in> set es" for e m
  proof -
    obtain n s where ens: "e = (n, s)" by (cases e)
    then have e: "e = (n, s)" "isFullSha s" "n \<noteq> []" "\<And>c. c \<in> set n \<Longrightarrow> \<not> is_space c"
      using bspec [OF assms that] by (simp_all add: list_all_iff)
    have plain: "newline \<notin> set n" "newline \<notin> set s" "CHR '' '' \<notin> set s" "last n \<noteq> carriage_return"
      using e(3,4) isFullSha_plain [OF e(2)] last_in_set [OF e(3)] by (metis is_space_newline)+
    have "strip_cr (s @ '' '' @ n) = s @ '' '' @ n" by (rule strip_cr_id) (use plain(4) e(3) in simp_all)
    moreover have "index_of (s @ CHR '' '' # n) '' '' = Some (length s)" by (rule index_of_first [OF plain(3)])
    ultimately show ?thesis
      using e plain isFullSha_plain(1) [OF e(2)] plain_trim [OF e(3,4)] by (simp add: parse_ref_line_def Let_def)
  qed
  have split: "split_on newline (concat (map ref_line es)) = map ?l es @ [[]]"
    using split_on_terminated [of "map ?l es" newline] line by (simp add: ref_line_def o_def split_def)
  have cr: "map strip_cr (map ?l es) = map ?l es" using line by simp
  have empty: "parse_ref_line [] m = m" for m by (simp add: parse_ref_line_def)
  have folded: "fold parse_ref_line (map ?l xs) m = fold (\<lambda>(n, s). js_set n s) xs m" if "set xs \<subseteq> set es" for xs m
    using that
  proof (induction xs arbitrary: m)
    case Nil
    then show ?case by simp
  next
    case (Cons x xs)
    then have "parse_ref_line (?l x) m = (case x of (n, s) \<Rightarrow> js_set n s m)" using line by simp
    with Cons show ?case by (simp add: split_def)
  qed
  have "parse_refs (concat (map ref_line es)) = fold parse_ref_line (map strip_cr (map ?l es) @ [[]]) []"
    by (simp only: parse_refs_def split_lines_def Let_def split butlast_snoc last_snoc)
  also have "\<dots> = fold parse_ref_line (map ?l es) []" unfolding cr by (simp add: empty)
  finally show ?thesis using folded by simp
qed

lemma fold_js_set_mem: "js_get (fold (\<lambda>(n, s). js_set n s) es m) name = Some v \<Longrightarrow> (name, v) \<in> set es \<or> js_get m name = Some v"
  by (induction es arbitrary: m) (force simp: js_get_set split: if_splits)+

interpretation git: ref_store git_model
proof unfold_locales
  fix refs p out name s
  assume out: "ge_list git_model refs p = Inr out" and "js_get (parse_refs out) name = Some s"
  let ?es = "map (\<lambda>n. (n, the (js_get refs n))) (filter (\<lambda>n. (n = p \<or> prefix (p @ ''/'') n) \<and> valid_ref refs n) (js_keys refs))"
  have "parse_refs (concat (map ref_line ?es)) = fold (\<lambda>(n, s). js_set n s) ?es []"
    by (rule parse_ref_lines) (auto simp: valid_ref_def split: option.splits)
  then have "(name, s) \<in> set ?es"
    using out \<open>js_get (parse_refs out) name = Some s\<close> fold_js_set_mem [of ?es "[]" name s] by (simp add: git_model_def)
  then show "js_get refs name = Some s" by (auto simp: valid_ref_def split: option.splits)
next
  show "refs' = js_set ref sha refs" if "ge_update git_model refs ref sha existing = (True, refs')" for refs ref sha existing refs'
    using that by (simp add: git_model_def split: if_splits)
  show "refs' = refs \<or> refs' = js_set ref sha refs" if "ge_update git_model refs ref sha existing = (False, refs')"
    for refs ref sha existing refs'
    using that by (simp add: git_model_def split: if_splits)
  have no_sha: "\<not> isFullSha (hd (split_lines (js_trim [])))" by code_simp
  show "js_get refs ref = Some (hd (split_lines (js_trim out)))"
    if "ge_reread git_model refs ref = Inr out" "isFullSha (hd (split_lines (js_trim out)))" for refs ref out
  proof (cases "js_get refs ref")
    case None
    then show ?thesis using that no_sha by (simp add: git_model_def)
  next
    case (Some s)
    show ?thesis
    proof (cases "isFullSha s")
      case False
      then show ?thesis using that Some no_sha by (simp add: git_model_def)
    next
      case True
      have "js_trim (s @ [newline]) = js_trim s"
        using isFullSha_plain [OF True] by (cases s) (simp_all add: js_trim_def)
      also have "\<dots> = s" using isFullSha_plain [OF True] by (rule plain_trim)
      finally have "js_trim out = s" using that(1) Some True by (simp add: git_model_def)
      moreover have "newline \<notin> set s" using isFullSha_plain(2) [OF True] is_space_newline(1) by blast
      ultimately show ?thesis using Some by (simp add: split_lines_def split_on_no_sep)
    qed
  qed
qed

section \<open>An evaluated sync\<close>

definition sync_sha :: string where
  "sync_sha = replicate 40 CHR ''a''"

definition sync_start :: epic_record where
  "sync_start = start_record ''k'' ''tok'' ''h'' ''p'' None ''t'' True (Some sync_sha) 4 (\<lambda>_. False) []"

definition sync_result :: "(ref_error + git_refs) \<times> git_refs" where
  "sync_result = syncEpicRefs git_model [(''refs/heads/main'', sync_sha)] sync_start"

theorem synced_refs_hold_the_commits_witness:
  "js_get (snd sync_result) ''refs/swarm/epics/k/base'' = Some sync_sha"
proof -
  have run: "epic_run [sync_start]" unfolding sync_start_def by (rule epic_run.run_start)
  have "case fst sync_result of Inl _ \<Rightarrow> False | Inr _ \<Rightarrow> True"
    by code_simp
  then obtain ex where ex: "fst sync_result = Inr ex" by (auto split: sum.splits)
  have facts: "ep_isRepo sync_start" "ep_baseCommit sync_start = Some sync_sha" "ep_epicKey sync_start = ''k''"
    by (simp_all add: sync_start_def start_record_def)
  have "isFullSha sync_sha" "the (epicBaseRef ''k'') = ''refs/swarm/epics/k/base''" by code_simp+
  moreover have "syncEpicRefs git_model [(''refs/heads/main'', sync_sha)] sync_start = (Inr ex, snd sync_result)"
    using ex by (metis prod.collapse sync_result_def)
  ultimately show ?thesis
    using synced_refs_hold_the_commits [OF git.ref_store_axioms run facts(1), of "[(''refs/heads/main'', sync_sha)]" "Inr ex" "snd sync_result"]
      facts(2,3) by simp
qed

end
