(* ===== verification/Next_Wave_Facts.thy ===== *)
theory Next_Wave_Facts
  imports Next_Wave Epic_Properties Wave_Selection_Facts Serial_Order Ref_Sync
begin

text \<open>
  What one step of \<open>epic_next_wave\<close> guarantees: its writes are steps of the epic's life
  (\<open>epic_run\<close>), a wave is closed only when its tasks are settled, and a wave it dispatches is recorded, runs
  the first phase that is not done, and contains only tasks that are ready and do not conflict.
\<close>

section \<open>The writes\<close>

lemma commit_update_D:
  assumes "commit_update env store epic mutate = Inr (Some (row, new))"
  shows "new = mutate row" "\<exists>k. ua_row (store k) = Row row"
  using update_loop_commits [OF assms [unfolded commit_update_def updateEpicRecord_def]] unfolding commits_def by blast+

text \<open>A commit is a step of the epic's life, whatever the history of the row it is applied to.\<close>

definition run_step :: "commit \<Rightarrow> bool" where
  "run_step = (\<lambda>(snap, row, new). \<forall>h. epic_run (row # h) \<longrightarrow> snap \<in> set (row # h) \<longrightarrow> epic_run (new # row # h))"

lemma run_stepI: "(\<And>h. epic_run (row # h) \<Longrightarrow> snap \<in> set (row # h) \<Longrightarrow> epic_run (new # row # h)) \<Longrightarrow> run_step (snap, row, new)"
  by (simp add: run_step_def)

lemma best_effort_step:
  assumes "c \<in> set (best_effort env store epic mutate)"
    and "\<And>row h. epic_run (row # h) \<Longrightarrow> epic \<in> set (row # h) \<Longrightarrow> epic_run (mutate row # row # h)"
  shows "run_step c"
proof -
  obtain row new where c: "c = (epic, row, new)" "commit_update env store epic mutate = Inr (Some (row, new))"
    using assms(1) by (auto simp: best_effort_def split: sum.splits option.splits)
  show ?thesis unfolding c(1) commit_update_D(1) [OF c(2)] by (rule run_stepI) (rule assms(2))
qed

lemma close_outcome_of_simps [simp]:
  "o_taskId (close_outcome_of rt parse reads epic wave plan now events changed closeHead taskCommits i) = i"
  "eo_waveSeq (close_outcome_of rt parse reads epic wave plan now events changed closeHead taskCommits i) = ew_seq wave"
  "o_resolution (close_outcome_of rt parse reads epic wave plan now events changed closeHead taskCommits i) = close_resolution plan i"
  by (simp_all add: close_outcome_of_def Let_def split: prod.split)

lemma close_computation_matches:
  "map o_taskId (cc_outcomes (computeWaveClose rt parse reads epic wave plan now)) = ew_taskIds wave"
  "x \<in> set (cc_outcomes (computeWaveClose rt parse reads epic wave plan now)) \<Longrightarrow> eo_waveSeq x = ew_seq wave"
  by (auto simp: computeWaveClose_def Let_def comp_def)

lemma issued_find:
  "(case find_wave s epic of None \<Rightarrow> None | Some w \<Rightarrow> if ew_status w = Issued then Some w else None) = Some wave \<longleftrightarrow>
   find_wave s epic = Some wave \<and> ew_status wave = Issued"
  by (auto split: option.splits)

lemma find_wave_seq: "find_wave s r = Some w \<Longrightarrow> ew_seq w = s \<and> w \<in> set (ep_waves r)"
  unfolding find_wave_def by (auto dest: find_SomeD)

lemma close_wave_step:
  assumes "issued_in s epic wave" "c \<in> set (snd (close_wave rt env epic plan wave))"
  shows "run_step c"
proof -
  let ?c = "computeWaveClose rt (nx_parse env) (nx_close env) epic wave plan (nx_closeTime env)"
  have s: "ew_seq wave = s" using assms(1) by (auto simp: issued_in_def dest: find_wave_seq)
  obtain row new where c: "c = (epic, row, new)"
    "commit_update env (nx_advanceStore env) epic (applyWaveClose s ?c (nx_closeTime env)) = Inr (Some (row, new))"
    using assms(2) s by (auto simp: close_wave_def Let_def split: if_splits sum.splits option.splits)
  show ?thesis
    unfolding c(1) commit_update_D(1) [OF c(2)]
    by (intro run_stepI run_close [OF _ _ assms(1)] close_computation_matches(1))
       (simp_all add: close_computation_matches(2) s)
qed

lemma advanceActiveWave_step:
  assumes "ep_activeWaveSeq epic = Some s" "c \<in> set (snd (advanceActiveWave rt env epic plan s))"
  shows "run_step c"
proof (cases "case find_wave s epic of None \<Rightarrow> None | Some w \<Rightarrow> if ew_status w = Issued then Some w else None")
  case None
  then have d: "dangling s epic" by (auto simp: dangling_def split: option.splits if_splits)
  obtain row new where c: "c = (epic, row, new)" "commit_update env (nx_advanceStore env) epic (clear_dangling s) = Inr (Some (row, new))"
    using assms(2) None by (auto simp: advanceActiveWave_def split: sum.splits option.splits)
  show ?thesis
    unfolding c(1) commit_update_D(1) [OF c(2)] by (intro run_stepI run_dangling [OF _ _ assms(1) d])
next
  case (Some wave)
  then have "find_wave s epic = Some wave \<and> ew_status wave = Issued" by (simp only: issued_find)
  then have i: "issued_in s epic wave" and s: "ew_seq wave = s" using assms(1) by (auto simp: issued_in_def dest: find_wave_seq)
  let ?mutate = "abort_wave s (moved_tasks plan wave)"
  from assms(2) Some s consider
      row new where "c = (epic, row, new)" "commit_update env (nx_advanceStore env) epic ?mutate = Inr (Some (row, new))"
    | failures where "c \<in> set (best_effort env (nx_advanceStore env) epic (record_merge_failures s failures))"
    | "c \<in> set (snd (close_wave rt env epic plan wave))"
    by (fastforce simp: advanceActiveWave_def Let_def split: if_splits sum.splits option.splits)
  then show ?thesis
  proof cases
    case 1
    show ?thesis unfolding 1(1) commit_update_D(1) [OF 1(2)] by (intro run_stepI run_abort [OF _ _ i])
  next
    case 2
    then show ?thesis by (rule best_effort_step) (rule run_failures [OF _ _ i])
  next
    case 3
    then show ?thesis by (rule close_wave_step [OF i])
  qed
qed

text \<open>When a wave is issued, or the issue is tried, it is the selected wave.\<close>

lemma issueNextWave_cases:
  assumes "issueNextWave rt env epic plan phaseId = Some (res, cs)" "cs \<noteq> [] \<or> (\<exists>w. res = NW_Dispatch w)"
  obtains batch isCommitted sel where
    "batch = (case List.find (\<lambda>p. ph_id p = phaseId) plan of None \<Rightarrow> []
       | Some p \<Rightarrow> filter (\<lambda>t. t_id t \<in> t_id ` set (batch_of p)) (ph_tasks p))"
    "committed_predecessors env epic plan batch = Some isCommitted"
    "selectNextEpicWave rt (wave_selection_input_of env epic plan phaseId
       (resolveEpicDeclaredScopes env (case List.find (\<lambda>p. ph_id p = phaseId) plan of None \<Rightarrow> [] | Some p \<Rightarrow> map t_id (batch_of p)))
       isCommitted) = Some (Sel_Wave sel)"
    "issue_commit env epic plan (wave_draft_of rt env epic phaseId sel) = (res, cs)"
    "ep_isRepo epic \<longrightarrow> settleDirtyBaseline (nx_baseline env) = None"
proof (cases "List.find (\<lambda>p. ph_id p = phaseId) plan")
  case None
  with assms that show ?thesis
    by (auto simp: issueNextWave_def Let_def split: option.splits wave_selection.splits if_splits)
next
  case (Some p)
  with assms that show ?thesis
    by (auto simp: issueNextWave_def Let_def split: option.splits wave_selection.splits if_splits)
qed

lemma issueNextWave_step:
  assumes "issueNextWave rt env epic plan phaseId = Some (res, cs)" "c \<in> set cs"
  shows "run_step c"
proof -
  from assms(2) have "cs \<noteq> [] \<or> (\<exists>w. res = NW_Dispatch w)" by auto
  from assms(1) this obtain draft where "issue_commit env epic plan draft = (res, cs)" by (rule issueNextWave_cases)
  then obtain row new where c: "c = (epic, row, new)" "commit_update env (nx_issueStore env) epic (issue_wave draft) = Inr (Some (row, new))"
    using assms(2) by (auto simp: issue_commit_def split: sum.splits option.splits)
  show ?thesis unfolding c(1) commit_update_D(1) [OF c(2)] by (intro run_stepI run_issue)
qed

lemma plan_next_step:
  assumes "plan_next rt env epic plan = Some (res, cs)" "c \<in> set cs"
  shows "run_step c"
proof -
  from assms consider (sync) n where "c \<in> set (sync_phase_commit env epic n Phase_Review)"
    | (issue) n where "issueNextWave rt env epic plan n = Some (res, cs)"
    by (auto simp: plan_next_def Let_def split: if_splits option.splits)
  then show ?thesis
  proof cases
    case sync
    then have "c \<in> set (best_effort env (nx_phaseStore env) epic (sync_phases n Phase_Review))"
      by (simp add: sync_phase_commit_def split: if_splits)
    then show ?thesis by (rule best_effort_step) (rule run_sync, simp_all)
  next
    case issue
    then show ?thesis using assms(2) by (rule issueNextWave_step)
  qed
qed

text \<open>The cases of a step that got past the checks.\<close>

lemma runEpicNextWave_cases:
  assumes "runEpicNextWave rt env = Some out" "no_commits out \<noteq> [] \<or> no_closed out \<noteq> None \<or> (\<exists>w. no_result out = NW_Dispatch w)"
  obtains (stopped) epic plan s res where "nx_openEpic env = Inr (Some epic)" "nx_plan env = Some plan" "ep_activeWaveSeq epic = Some s"
      "advanceActiveWave rt env epic plan s = (Adv_Result res, no_commits out)" "out = plain_outcome res (no_commits out)"
    | (advanced) epic plan s base closed cs res cs' where "nx_openEpic env = Inr (Some epic)" "nx_plan env = Some plan"
      "ep_activeWaveSeq epic = Some s" "advanceActiveWave rt env epic plan s = (Adv_Epic base closed, cs)"
      "plan_next rt env base plan = Some (res, cs')" "out = with_closed closed (res, cs') cs"
    | (idle) epic plan res cs' where "nx_openEpic env = Inr (Some epic)" "nx_plan env = Some plan" "ep_activeWaveSeq epic = None"
      "plan_next rt env epic plan = Some (res, cs')" "out = with_closed None (res, cs') []"
  using assms
  by (auto simp: runEpicNextWave_def plain_outcome_def describeNoEpic_def split: if_splits sum.splits option.splits prod.splits advance.splits)

text \<open>C4: Every write of a step of \<open>epic_next_wave\<close> is a step of the epic's life: whatever the other writers committed
  between the step's reading of the record and its write, applying the write to the current row yields a
  history that the invariants of the record cover.\<close>

theorem next_wave_refines_run:
  assumes "runEpicNextWave rt env = Some out" "(snap, row, new) \<in> set (no_commits out)"
    and "epic_run (row # h)" "snap \<in> set (row # h)"
  shows "epic_run (new # row # h)"
proof -
  have "run_step c" if "c \<in> set (no_commits out)" for c
  proof -
    have "no_commits out \<noteq> [] \<or> no_closed out \<noteq> None \<or> (\<exists>w. no_result out = NW_Dispatch w)" using that by auto
    from assms(1) this show ?thesis
    proof (cases rule: runEpicNextWave_cases)
      case (stopped epic plan s res)
      then show ?thesis using advanceActiveWave_step [OF stopped(3), of c rt env plan] that by simp
    next
      case (advanced epic plan s base closed cs res cs')
      from that advanced(6) have "c \<in> set cs \<or> c \<in> set cs'" by (simp add: with_closed_def)
      then show ?thesis using advanceActiveWave_step [OF advanced(3), of c rt env plan] plan_next_step [OF advanced(5), of c] advanced(4) by auto
    next
      case (idle epic plan res cs')
      from that idle(5) have "c \<in> set cs'" by (simp add: with_closed_def)
      then show ?thesis by (rule plan_next_step [OF idle(4)])
    qed
  qed
  then show ?thesis using assms(2-4) unfolding run_step_def by blast
qed

section \<open>Closing\<close>

lemma open_tasks_empty:
  "moved_tasks plan wave = [] \<Longrightarrow> blocked_tasks plan wave = [] \<Longrightarrow> waiting_tasks plan wave = [] \<Longrightarrow> open_tasks plan wave = []"
  by (cases "open_tasks plan wave") (auto simp: moved_tasks_def blocked_tasks_def waiting_tasks_def split: if_splits)

lemma open_tasks_none:
  assumes "open_tasks plan wave = []" "i \<in> set (ew_taskIds wave)" "findTask plan i = Some (t, n)"
  shows "isResolved (t_status t)"
  using assms
  by (auto simp: open_tasks_def List.map_filter_def filter_empty_conv split: option.splits if_splits)

lemma no_wave_failures:
  assumes "wave_merge_failures rt env plan wave = []" "i \<in> set (ew_taskIds wave)" "task_completed plan i"
  shows "relevantMergeFailureForProject rt (nx_registry env) (nx_statusFile env) i
    (case nx_parse env (ew_issuedAt wave) of None \<Rightarrow> 0 | Some t \<Rightarrow> t) = None"
  using assms by (auto simp: wave_merge_failures_def Let_def List.map_filter_def filter_empty_conv split: if_splits)

lemma advance_closed:
  assumes "advanceActiveWave rt env epic plan s = (Adv_Epic base (Some w), cs)"
  shows "\<exists>wave row. find_wave s epic = Some wave \<and> ew_status wave = Issued \<and> open_tasks plan wave = [] \<and>
    wave_merge_failures rt env plan wave = [] \<and>
    (ep_isRepo epic \<longrightarrow>
       snd (commitWaveResidue rt (nx_commit env) (cr_attribution (nx_close env)) (nx_dirty env) epic wave plan)) \<and>
    cs = [(epic, row, base)] \<and> ew_seq w = s \<and>
    base = applyWaveClose s (computeWaveClose rt (nx_parse env) (nx_close env) epic wave plan (nx_closeTime env)) (nx_closeTime env) row"
proof -
  from assms obtain wave where i: "find_wave s epic = Some wave \<and> ew_status wave = Issued"
    by (auto simp: advanceActiveWave_def split: option.splits if_splits sum.splits)
  then have s: "ew_seq wave = s" by (auto dest: find_wave_seq)
  from assms i have c: "moved_tasks plan wave = []" "blocked_tasks plan wave = []" "waiting_tasks plan wave = []"
    "wave_merge_failures rt env plan wave = []" "close_wave rt env epic plan wave = (Adv_Epic base (Some w), cs)"
    by (auto simp: advanceActiveWave_def Let_def split: if_splits sum.splits option.splits)
  let ?c = "computeWaveClose rt (nx_parse env) (nx_close env) epic wave plan (nx_closeTime env)"
  from c(5) obtain row where r: "commit_update env (nx_advanceStore env) epic (applyWaveClose s ?c (nx_closeTime env)) = Inr (Some (row, base))"
    "cs = [(epic, row, base)]" "w = (case find_wave s base of None \<Rightarrow> wave | Some w \<Rightarrow> w)"
    "ep_isRepo epic \<longrightarrow>
       snd (commitWaveResidue rt (nx_commit env) (cr_attribution (nx_close env)) (nx_dirty env) epic wave plan)"
    by (auto simp: close_wave_def Let_def s split: if_splits sum.splits option.splits)
  have "ew_seq w = s" using r(3) s by (auto split: option.splits dest: find_wave_seq)
  then show ?thesis
    using i open_tasks_empty [OF c(1-3)] c(4) r(2,4) commit_update_D(1) [OF r(1)] by blast
qed

text \<open>C5: A wave is closed only when it is settled: every task of it is completed, closed or no longer in the plan, no
  completed task has a merge-back failure recorded since the wave was issued, in a repository the residue of its tasks was
  committed, and the close that is committed is the one computed from that wave and plan.\<close>

theorem wave_closes_when_settled:
  assumes "runEpicNextWave rt env = Some out" "no_closed out = Some w"
  shows "\<exists>epic plan wave row base.
    nx_openEpic env = Inr (Some epic) \<and> nx_plan env = Some plan \<and> ep_activeWaveSeq epic = Some (ew_seq w) \<and>
    find_wave (ew_seq w) epic = Some wave \<and> ew_status wave = Issued \<and>
    (\<forall>i \<in> set (ew_taskIds wave).
       (case findTask plan i of None \<Rightarrow> True | Some (t, _) \<Rightarrow> t_status t = Completed \<or> t_status t = Closed) \<and>
       (task_completed plan i \<longrightarrow>
          relevantMergeFailureForProject rt (nx_registry env) (nx_statusFile env) i
            (case nx_parse env (ew_issuedAt wave) of None \<Rightarrow> 0 | Some t \<Rightarrow> t) = None)) \<and>
    (ep_isRepo epic \<longrightarrow>
       snd (commitWaveResidue rt (nx_commit env) (cr_attribution (nx_close env)) (nx_dirty env) epic wave plan)) \<and>
    (epic, row, base) \<in> set (no_commits out) \<and>
    base = applyWaveClose (ew_seq w)
      (computeWaveClose rt (nx_parse env) (nx_close env) epic wave plan (nx_closeTime env)) (nx_closeTime env) row"
proof -
  have "no_commits out \<noteq> [] \<or> no_closed out \<noteq> None \<or> (\<exists>w. no_result out = NW_Dispatch w)" using assms(2) by simp
  from assms(1) this obtain epic plan base cs res cs' where c: "nx_openEpic env = Inr (Some epic)" "nx_plan env = Some plan"
      "ep_activeWaveSeq epic = Some (ew_seq w)" "advanceActiveWave rt env epic plan (ew_seq w) = (Adv_Epic base (Some w), cs)"
      "out = with_closed (Some w) (res, cs') cs"
  proof (cases rule: runEpicNextWave_cases)
    case (stopped epic plan s res)
    have "no_closed out = None" using arg_cong [OF stopped(5), of no_closed] by (simp add: plain_outcome_def)
    then show ?thesis using assms(2) by simp
  next
    case (advanced epic plan s base closed cs res cs')
    have "closed = Some w" using assms(2) unfolding advanced(6) by (cases res) (simp_all add: with_closed_def)
    moreover have "ew_seq w = s" using advance_closed advanced(4) \<open>closed = Some w\<close> by blast
    ultimately show ?thesis using that advanced by blast
  next
    case (idle epic plan res cs')
    have "no_closed out = None" unfolding idle(5) by (cases res) (simp_all add: with_closed_def)
    then show ?thesis using assms(2) by simp
  qed
  from advance_closed [OF c(4)] obtain wave row where a: "find_wave (ew_seq w) epic = Some wave" "ew_status wave = Issued"
    "open_tasks plan wave = []" "wave_merge_failures rt env plan wave = []"
    "ep_isRepo epic \<longrightarrow>
       snd (commitWaveResidue rt (nx_commit env) (cr_attribution (nx_close env)) (nx_dirty env) epic wave plan)"
    "cs = [(epic, row, base)]"
    "base = applyWaveClose (ew_seq w)
       (computeWaveClose rt (nx_parse env) (nx_close env) epic wave plan (nx_closeTime env)) (nx_closeTime env) row" by blast
  have "(case findTask plan i of None \<Rightarrow> True | Some (t, _) \<Rightarrow> t_status t = Completed \<or> t_status t = Closed) \<and>
       (task_completed plan i \<longrightarrow>
          relevantMergeFailureForProject rt (nx_registry env) (nx_statusFile env) i
            (case nx_parse env (ew_issuedAt wave) of None \<Rightarrow> 0 | Some t \<Rightarrow> t) = None)" if "i \<in> set (ew_taskIds wave)" for i
    using open_tasks_none [OF a(3) that] no_wave_failures [OF a(4) that]
    by (cases "findTask plan i") (auto simp: isResolved_def)
  moreover have "(epic, row, base) \<in> set (no_commits out)" unfolding c(5) with_closed_def a(6) by simp
  ultimately show ?thesis using c(1-3) a(1,2,5,7) by blast
qed

section \<open>Dispatching\<close>

lemma assertWaveDisjoint_spec:
  assumes "xs \<noteq> []" "distinct xs"
  shows "assertWaveDisjoint rt xs files cc \<noteq> []" "distinct (assertWaveDisjoint rt xs files cc)"
    "set (assertWaveDisjoint rt xs files cc) \<subseteq> set xs" "length (assertWaveDisjoint rt xs files cc) \<le> length xs"
    "a \<in> set (assertWaveDisjoint rt xs files cc) \<Longrightarrow> b \<in> set (assertWaveDisjoint rt xs files cc) \<Longrightarrow> a \<noteq> b \<Longrightarrow>
       \<not> frozen_conflict rt files cc a b"
proof -
  let ?ids = "assertWaveDisjoint rt xs files cc"
  have first: "(case xs of [] \<Rightarrow> hd xs | first # _ \<Rightarrow> first) = hd xs" using assms(1) by (cases xs) auto
  consider "length xs < 2" "?ids = xs" | "?ids = [hd xs]"
    | v where "computeEpicWaveVerdict rt files cc xs = Inr v" "v_verdict v = All_Disjoint" "?ids = xs"
  proof (cases "computeEpicWaveVerdict rt files cc xs")
    case (Inl e)
    then show ?thesis using that(1,2) by (cases "length xs < 2") (simp_all add: assertWaveDisjoint_def)
  next
    case (Inr v)
    have "v_suggestedSerialOrder v = xs"
      using topoSort_input_order [OF assms(2) Inr [unfolded computeEpicWaveVerdict_def]] .
    then show ?thesis using that Inr first
      by (cases "length xs < 2"; cases "v_verdict v = All_Disjoint") (simp_all add: assertWaveDisjoint_def)
  qed
  then have "?ids \<noteq> [] \<and> distinct ?ids \<and> set ?ids \<subseteq> set xs \<and> length ?ids \<le> length xs \<and>
    (\<forall>a \<in> set ?ids. \<forall>b \<in> set ?ids. a \<noteq> b \<longrightarrow> \<not> frozen_conflict rt files cc a b)"
  proof cases
    case 1
    then have "?ids = [hd xs]" using assms(1) by (cases xs) auto
    then show ?thesis using assms(1) by (cases xs) auto
  next
    case 2
    then show ?thesis using assms(1) by (cases xs) auto
  next
    case 3
    then show ?thesis using assms wave_verdict_disjoint [OF 3(1,2)] by simp
  qed
  then show "?ids \<noteq> []" "distinct ?ids" "set ?ids \<subseteq> set xs" "length ?ids \<le> length xs"
    "a \<in> set ?ids \<Longrightarrow> b \<in> set ?ids \<Longrightarrow> a \<noteq> b \<Longrightarrow> \<not> frozen_conflict rt files cc a b" by blast+
qed

lemma js_get_pickFiles: "js_get (pickFiles files ids) i = (if i \<in> set ids then Some (js_get_or files i []) else None)"
proof -
  have "js_get (fold (\<lambda>i. js_set i (f i)) ids m) i = (if i \<in> set ids then Some (f i) else js_get m i)" for f :: "string \<Rightarrow> string list" and m
    by (induction ids arbitrary: m) (auto simp: js_map_simps)
  then show ?thesis by (simp add: pickFiles_def)
qed

lemma frozen_conflict_pick:
  "a \<in> set ids \<Longrightarrow> b \<in> set ids \<Longrightarrow> frozen_conflict rt (pickFiles files ids) cc a b = frozen_conflict rt files cc a b"
  by (simp add: frozen_conflict_def js_get_or_def [of "pickFiles files ids"] js_get_pickFiles)

lemma indexPlan_findTask: "js_get (indexPlan plan) i = findTask plan i"
proof -
  let ?step = "\<lambda>n task index. if js_has index (t_id task) then index else js_set (t_id task) (task, n) index"
  have phase: "js_get (fold (?step n) ts m) i =
      (case js_get m i of Some x \<Rightarrow> Some x | None \<Rightarrow> map_option (\<lambda>t. (t, n)) (List.find (\<lambda>t. t_id t = i) ts))" for n ts m
    by (induction ts arbitrary: m) (auto simp: js_map_simps js_has_def split: option.splits)
  have "js_get (fold (\<lambda>phase. fold (?step (ph_id phase)) (ph_tasks phase)) ps m) i =
      (case js_get m i of Some x \<Rightarrow> Some x | None \<Rightarrow> findTask ps i)" for ps m
    by (induction ps arbitrary: m) (auto simp: phase split: option.splits)
  then show ?thesis by (simp add: indexPlan_def)
qed

lemma issue_commit_dispatch:
  assumes "issue_commit env epic plan draft = (NW_Dispatch w, cs)"
  obtains row where "ep_activeWaveSeq row = None" "w = draft_wave (next_seq row) draft" "cs = [(epic, row, issue_wave draft row)]"
  using assms commit_update_D(1) [of env "nx_issueStore env" epic "issue_wave draft"]
  by (auto simp: issue_commit_def describeNoEpic_def split: sum.splits option.splits)

lemma plan_next_dispatch:
  assumes "plan_next rt env base plan = Some (NW_Dispatch w, cs)"
  obtains phase where "List.find (\<lambda>p. \<not> isEpicPhaseDone base (nx_isClosed env) (ph_id p)) plan = Some phase"
    "issueNextWave rt env base plan (ph_id phase) = Some (NW_Dispatch w, cs)"
  using assms by (auto simp: plan_next_def Let_def split: if_splits option.splits)

text \<open>A dispatched wave is the wave the selection returned for the current phase, checked and committed.\<close>

lemma dispatch_cases:
  assumes "runEpicNextWave rt env = Some out" "no_result out = NW_Dispatch w"
  obtains plan base phase batch isCommitted sel row where "nx_plan env = Some plan"
    "List.find (\<lambda>p. \<not> isEpicPhaseDone base (nx_isClosed env) (ph_id p)) plan = Some phase"
    "batch = (case List.find (\<lambda>p. ph_id p = ph_id phase) plan of None \<Rightarrow> []
       | Some p \<Rightarrow> filter (\<lambda>t. t_id t \<in> t_id ` set (batch_of p)) (ph_tasks p))"
    "committed_predecessors env base plan batch = Some isCommitted"
    "selectNextEpicWave rt (wave_selection_input_of env base plan (ph_id phase)
       (resolveEpicDeclaredScopes env (case List.find (\<lambda>p. ph_id p = ph_id phase) plan of None \<Rightarrow> [] | Some p \<Rightarrow> map t_id (batch_of p)))
       isCommitted) = Some (Sel_Wave sel)"
    "ep_isRepo base \<longrightarrow> settleDirtyBaseline (nx_baseline env) = None"
    "ep_activeWaveSeq row = None" "w = draft_wave (next_seq row) (wave_draft_of rt env base (ph_id phase) sel)"
    "no_commits out \<noteq> []" "last (no_commits out) = (base, row, issue_wave (wave_draft_of rt env base (ph_id phase) sel) row)"
proof -
  have "no_commits out \<noteq> [] \<or> no_closed out \<noteq> None \<or> (\<exists>w. no_result out = NW_Dispatch w)" using assms(2) by blast
  from assms(1) this obtain plan base cs cs' where p: "nx_plan env = Some plan" "plan_next rt env base plan = Some (NW_Dispatch w, cs')"
    "no_commits out = cs @ cs'"
  proof (cases rule: runEpicNextWave_cases)
    case (stopped epic plan s res)
    have "no_result out = res" using arg_cong [OF stopped(5), of no_result] by (simp add: plain_outcome_def)
    then have "advanceActiveWave rt env epic plan s = (Adv_Result (NW_Dispatch w), no_commits out)" using stopped(4) assms(2) by simp
    then have False
      by (auto simp: advanceActiveWave_def close_wave_def describeNoEpic_def Let_def split: option.splits sum.splits if_splits)
    then show ?thesis ..
  next
    case (advanced epic plan s base closed cs res cs')
    then show ?thesis using that [of plan base cs' cs] assms(2) by (simp add: with_closed_def)
  next
    case (idle epic plan res cs')
    then show ?thesis using that [of plan epic cs' "[]"] assms(2) by (simp add: with_closed_def)
  qed
  from plan_next_dispatch [OF p(2)] obtain phase where ph:
    "List.find (\<lambda>p. \<not> isEpicPhaseDone base (nx_isClosed env) (ph_id p)) plan = Some phase"
    "issueNextWave rt env base plan (ph_id phase) = Some (NW_Dispatch w, cs')" by blast
  have nonempty: "cs' \<noteq> [] \<or> (\<exists>w'. NW_Dispatch w = NW_Dispatch w')" by simp
  from issueNextWave_cases [OF ph(2) nonempty] show ?thesis
  proof (cases rule: issueNextWave_cases [OF ph(2) nonempty])
    case (1 batch isCommitted sel)
    from issue_commit_dispatch [OF 1(4)] obtain row where row: "ep_activeWaveSeq row = None"
      "w = draft_wave (next_seq row) (wave_draft_of rt env base (ph_id phase) sel)"
      "cs' = [(base, row, issue_wave (wave_draft_of rt env base (ph_id phase) sel) row)]" by blast
    show ?thesis by (rule that [OF p(1) ph(1) 1(1-3,5) row(1,2)]) (simp_all add: p(3) row(3))
  qed
qed

lemma selected_ids_facts:
  assumes "selectNextEpicWave rt inp = Some (Sel_Wave sel)"
  shows "sw_taskIds sel \<noteq> []" "distinct (sw_taskIds sel)" "int (length (sw_taskIds sel)) \<le> max 1 (si_maxParallel inp)"
proof -
  from selected_wave_cases [OF assms] obtain phase part c where c:
    "planNextEpicWave rt (selection_input inp (indexPlan (si_plan inp)) (batch_of phase)) = Some (part, Some c)"
    "wv_taskIds c = sw_taskIds sel" "sw_taskIds sel \<noteq> []" by blast
  show "sw_taskIds sel \<noteq> []" by (rule c(3))
  show "distinct (sw_taskIds sel)" using wave_subset [OF c(1)] c(2) by simp
  show "int (length (sw_taskIds sel)) \<le> max 1 (si_maxParallel inp)"
    using wave_width [OF c(1)] c(2) by (simp add: selection_input_def)
qed

lemma wave_selection_input_simps [simp]:
  "si_plan (wave_selection_input_of env epic plan n scopes isCommitted) = plan"
  "si_phaseId (wave_selection_input_of env epic plan n scopes isCommitted) = n"
  "si_maxParallel (wave_selection_input_of env epic plan n scopes isCommitted) = ep_maxParallel epic"
  "si_liveScopes (wave_selection_input_of env epic plan n scopes isCommitted) = scopes"
  "si_isCommitted (wave_selection_input_of env epic plan n scopes isCommitted) = isCommitted"
  by (simp_all add: wave_selection_input_of_def)

lemma settled_baseline: "settleDirtyBaseline status = None \<Longrightarrow> \<exists>dirty. listDirtyEntries status = Inr dirty \<and> (\<forall>e \<in> set dirty. de_untracked e)"
  by (auto simp: settleDirtyBaseline_def classifyDirtyBaseline_def Let_def filter_empty_conv split: sum.splits if_splits)

text \<open>C1: A wave handed out for dispatch is already recorded as the only active wave, appended to a row that had none; it is not
  wider than the epic allows, its tasks pairwise do not conflict under the frozen scopes and co-change signal,
  whatever the width, and in a repository no tracked file was dirty when it was issued.\<close>

theorem dispatched_wave_safe:
  assumes "runEpicNextWave rt env = Some out" "no_result out = NW_Dispatch w"
  shows "\<exists>base row new. no_commits out \<noteq> [] \<and> last (no_commits out) = (base, row, new) \<and>
    ep_activeWaveSeq row = None \<and> ep_waves new = ep_waves row @ [w] \<and> ep_activeWaveSeq new = Some (ew_seq w) \<and>
    ew_taskIds w \<noteq> [] \<and> distinct (ew_taskIds w) \<and> int (length (ew_taskIds w)) \<le> max 1 (ep_maxParallel base) \<and>
    (\<forall>a \<in> set (ew_taskIds w). \<forall>b \<in> set (ew_taskIds w). a \<noteq> b \<longrightarrow>
       \<not> pv_conflict (epicPairConflict rt (js_get_or (ew_files w) a []) (js_get_or (ew_files w) b [])
           (case ew_cochange w of None \<Rightarrow> [] | Some c \<Rightarrow> wcc_pairs c)
           (case ew_cochange w of None \<Rightarrow> DEFAULT_PARALLEL_COCHANGE_THRESHOLD | Some c \<Rightarrow> wcc_threshold c))) \<and>
    (ep_isRepo base \<longrightarrow> (\<exists>dirty. listDirtyEntries (nx_baseline env) = Inr dirty \<and> (\<forall>e \<in> set dirty. de_untracked e)))"
proof -
  obtain base n sel row inp where d: "selectNextEpicWave rt inp = Some (Sel_Wave sel)" "si_maxParallel inp = ep_maxParallel base"
    "ep_isRepo base \<longrightarrow> settleDirtyBaseline (nx_baseline env) = None"
    "ep_activeWaveSeq row = None" "w = draft_wave (next_seq row) (wave_draft_of rt env base n sel)"
    "no_commits out \<noteq> []" "last (no_commits out) = (base, row, issue_wave (wave_draft_of rt env base n sel) row)"
    by (rule dispatch_cases [OF assms]) (rule that, assumption, simp, assumption+)
  define cc where "cc = map_option (\<lambda>sig. \<lparr>wcc_pairs = sw_cochangePairs sel, wcc_threshold = cs_threshold sig\<rparr>)
      (ps_cochange (nx_signals env))"
  define ids where "ids = assertWaveDisjoint rt (sw_taskIds sel) (sw_files sel) cc"
  have w: "ew_taskIds w = ids" "ew_files w = pickFiles (sw_files sel) ids" "ew_cochange w = cc" "ew_seq w = next_seq row"
    by (simp_all add: d(5) draft_wave_def wave_draft_of_def Let_def ids_def cc_def)
  note f = selected_ids_facts [OF d(1)]
  note a = assertWaveDisjoint_spec [OF f(1,2), where rt = rt and files = "sw_files sel" and cc = cc, folded ids_def]
  have new: "ep_waves (issue_wave (wave_draft_of rt env base n sel) row) = ep_waves row @ [w]"
    "ep_activeWaveSeq (issue_wave (wave_draft_of rt env base n sel) row) = Some (ew_seq w)"
    using d(4) by (simp_all add: issue_wave_def Let_def d(5) draft_wave_def)
  have disj: "\<not> frozen_conflict rt (ew_files w) (ew_cochange w) x y" if "x \<in> set (ew_taskIds w)" "y \<in> set (ew_taskIds w)" "x \<noteq> y" for x y
    using a(5) that frozen_conflict_pick [of x ids y rt "sw_files sel" cc] by (simp add: w)
  have "int (length (ew_taskIds w)) \<le> max 1 (ep_maxParallel base)" using a(4) f(3) by (simp add: d(2) w(1))
  then show ?thesis
    using d(3,4,6,7) new a(1,2) disj settled_baseline unfolding w(1) [symmetric] frozen_conflict_def by blast
qed

text \<open>The live scope of a task is the declared scope that can be read.\<close>

lemma resolved_scope:
  assumes "js_get_or (resolveEpicDeclaredScopes env ids) i [] \<noteq> []"
  shows "nx_scopeOf env i = Inr (Some (js_get_or (resolveEpicDeclaredScopes env ids) i []))"
proof -
  let ?start = "fold (\<lambda>i. js_set i ([] :: string list)) ids []"
  let ?read = "\<lambda>i. case nx_scopeOf env i of Inr (Some files) \<Rightarrow> files | _ \<Rightarrow> []"
  let ?step = "\<lambda>bound i result. if i \<notin> set bound then result else js_set i (?read i) result"
  have start: "js_get ?start j = Some v \<Longrightarrow> v = []" for j v
  proof -
    have "js_get (fold (\<lambda>i. js_set i ([] :: string list)) is m) j = Some v \<Longrightarrow> v = [] \<or> js_get m j = Some v" for "is" m
    proof (induction "is" arbitrary: m)
      case Nil
      then show ?case by simp
    next
      case (Cons a xs)
      from Cons.IH [of "js_set a [] m"] Cons.prems show ?case by (auto simp: js_get_set split: if_splits)
    qed
    from this [of ids "[]"] show "js_get ?start j = Some v \<Longrightarrow> v = []" by simp
  qed
  have step: "js_get (fold (?step bound) is m) j = Some v \<Longrightarrow> v = ?read j \<or> js_get m j = Some v" for bound "is" m j v
  proof (induction "is" arbitrary: m)
    case Nil
    then show ?case by simp
  next
    case (Cons a xs)
    from Cons.IH [of "?step bound a m"] Cons.prems show ?case by (auto simp: js_get_set split: if_splits)
  qed
  obtain v where v: "js_get (resolveEpicDeclaredScopes env ids) i = Some v" "v \<noteq> []"
    using assms by (auto simp: js_get_or_def split: option.splits)
  have "v = ?read i"
  proof (cases "\<exists>bound. nx_bindings env = Inr (Some bound)")
    case True
    then obtain bound where "nx_bindings env = Inr (Some bound)" by blast
    then have "js_get (fold (?step bound) ids ?start) i = Some v" using v(1) by (simp add: resolveEpicDeclaredScopes_def Let_def)
    then show ?thesis using step [of bound ids ?start i v] start [of i v] v(2) by blast
  next
    case False
    then have "resolveEpicDeclaredScopes env ids = ?start"
      by (auto simp: resolveEpicDeclaredScopes_def Let_def split: sum.splits option.splits)
    then show ?thesis using v start by auto
  qed
  then show ?thesis using v by (auto simp: js_get_or_def split: sum.splits option.splits)
qed

lemma committed_needed:
  assumes "committed_predecessors env epic plan batch = Some isCommitted" "isCommitted d" "ep_isRepo epic"
    and "d \<in> set (concat (map depends batch))" "d \<notin> t_id ` set batch" "task_completed plan d"
  shows "completedBeforeEpic env epic plan d \<or>
    (\<exists>refs ref sha. fst (syncEpicRefs (nx_git env) (nx_refs env) epic) = Inr refs \<and> epicTaskRef (ep_epicKey epic) d = Some ref \<and>
       js_get refs ref = Some sha \<and> isCommitAncestorOfHead (nx_git env) sha)"
proof -
  have "d \<in> set (needed_predecessors plan batch)" using assms(4-6) by (simp add: needed_predecessors_def)
  then have "needed_predecessors plan batch \<noteq> []" by auto
  then show ?thesis
    using assms(1-3) by (auto simp: committed_predecessors_def Let_def split: sum.splits option.splits)
qed

text \<open>C3: Every task of a dispatched wave is ready: it is an open task of the first phase of the plan that is not done, its frozen
  scope is the declared scope that was read for it, and each task it depends on is completed and, in a repository,
  either was completed before the epic or its recorded commit is an ancestor of \<open>HEAD\<close>.\<close>

theorem dispatched_tasks_ready:
  assumes "runEpicNextWave rt env = Some out" "no_result out = NW_Dispatch w"
    and "last (no_commits out) = (base, row, new)" "i \<in> set (ew_taskIds w)"
  shows "\<exists>plan phase holder t. nx_plan env = Some plan \<and>
    List.find (\<lambda>p. \<not> isEpicPhaseDone base (nx_isClosed env) (ph_id p)) plan = Some phase \<and> ew_phase w = ph_id phase \<and>
    holder \<in> set plan \<and> ph_id holder = ph_id phase \<and> t \<in> set (ph_tasks holder) \<and> t_id t = i \<and> t_status t \<in> {Pending, In_Progress} \<and>
    (\<exists>files. files \<noteq> [] \<and> nx_scopeOf env i = Inr (Some files) \<and> js_get (ew_files w) i = Some files) \<and>
    (\<forall>d \<in> set (depends t). task_completed plan d \<and>
       (ep_isRepo base \<longrightarrow> completedBeforeEpic env base plan d \<or>
          (\<exists>refs ref sha. fst (syncEpicRefs (nx_git env) (nx_refs env) base) = Inr refs \<and>
             epicTaskRef (ep_epicKey base) d = Some ref \<and> js_get refs ref = Some sha \<and> isCommitAncestorOfHead (nx_git env) sha)))"
proof (rule dispatch_cases [OF assms(1,2)])
  fix plan :: "plan_phase list" and base' and phase :: plan_phase and batch isCommitted sel row'
  let ?scopes = "resolveEpicDeclaredScopes env
      (case List.find (\<lambda>p. ph_id p = ph_id phase) plan of None \<Rightarrow> [] | Some p \<Rightarrow> map t_id (batch_of p))"
  let ?inp = "wave_selection_input_of env base' plan (ph_id phase) ?scopes isCommitted"
  assume plan: "nx_plan env = Some plan"
    and phase: "List.find (\<lambda>p. \<not> isEpicPhaseDone base' (nx_isClosed env) (ph_id p)) plan = Some phase"
    and batch: "batch = (case List.find (\<lambda>p. ph_id p = ph_id phase) plan of None \<Rightarrow> []
       | Some p \<Rightarrow> filter (\<lambda>t. t_id t \<in> t_id ` set (batch_of p)) (ph_tasks p))"
    and committed: "committed_predecessors env base' plan batch = Some isCommitted"
    and sel: "selectNextEpicWave rt ?inp = Some (Sel_Wave sel)"
    and w: "w = draft_wave (next_seq row') (wave_draft_of rt env base' (ph_id phase) sel)"
    and last': "last (no_commits out) = (base', row', issue_wave (wave_draft_of rt env base' (ph_id phase) sel) row')"
  have base: "base' = base" using last' assms(3) by simp
  define cc where "cc = map_option (\<lambda>sig. \<lparr>wcc_pairs = sw_cochangePairs sel, wcc_threshold = cs_threshold sig\<rparr>)
      (ps_cochange (nx_signals env))"
  define ids where "ids = assertWaveDisjoint rt (sw_taskIds sel) (sw_files sel) cc"
  have w': "ew_taskIds w = ids" "ew_files w = pickFiles (sw_files sel) ids" "ew_phase w = ph_id phase"
    by (simp_all add: w draft_wave_def wave_draft_of_def Let_def ids_def cc_def)
  note f = selected_ids_facts [OF sel]
  have i: "i \<in> set (sw_taskIds sel)"
    using assertWaveDisjoint_spec(3) [OF f(1,2)] assms(4) unfolding w'(1) ids_def by blast
  from selected_task_ready [OF sel i] obtain holder t where t:
    "List.find (\<lambda>p. ph_id p = ph_id phase) plan = Some holder" "t \<in> set (batch_of holder)" "t_id t = i"
    "t_status t \<in> {Pending, In_Progress}" "js_get (sw_files sel) i = Some (js_get_or ?scopes i [])" "js_get_or ?scopes i [] \<noteq> []"
    "\<forall>d \<in> set (depends t). d \<notin> t_id ` set (batch_of holder) \<and> isCommitted d \<and>
       (\<exists>t' n. js_get (indexPlan plan) d = Some (t', n) \<and> t_status t' = Completed)"
    unfolding wave_selection_input_simps by blast
  have b: "batch = filter (\<lambda>t. t_id t \<in> t_id ` set (batch_of holder)) (ph_tasks holder)" using batch t(1) by simp
  have tb: "t \<in> set (ph_tasks holder)" "t \<in> set batch" using t(2) unfolding b by (simp_all add: batch_of_def)
  have dep: "task_completed plan d \<and> (ep_isRepo base \<longrightarrow> completedBeforeEpic env base plan d \<or>
      (\<exists>refs ref sha. fst (syncEpicRefs (nx_git env) (nx_refs env) base) = Inr refs \<and>
         epicTaskRef (ep_epicKey base) d = Some ref \<and> js_get refs ref = Some sha \<and> isCommitAncestorOfHead (nx_git env) sha))"
    if d: "d \<in> set (depends t)" for d
  proof -
    have completed: "task_completed plan d" using t(7) d by (auto simp: task_completed_def indexPlan_findTask)
    have "d \<in> set (concat (map depends batch))" using tb(2) d by auto
    moreover have "d \<notin> t_id ` set batch" using t(7) d unfolding b by auto
    ultimately show ?thesis using committed_needed [OF committed _ _ _ _ completed] t(7) d completed unfolding base by blast
  qed
  have files: "js_get (ew_files w) i = Some (js_get_or ?scopes i [])"
    using assms(4) t(5) unfolding w'(1,2) js_get_pickFiles by (simp add: js_get_or_Some)
  have holder: "holder \<in> set plan \<and> ph_id holder = ph_id phase" using find_SomeD [OF t(1)] by simp
  show ?thesis
    using plan phase w'(3) holder tb(1) t(3,4,6) resolved_scope [OF t(6)] files dep unfolding base by blast
qed

section \<open>Returning\<close>

lemma selection_returns: "selectNextEpicWave rt inp \<noteq> None"
proof (cases "List.find (\<lambda>p. ph_id p = si_phaseId inp) (si_plan inp)")
  case None
  then show ?thesis by (simp add: selectNextEpicWave_def)
next
  case (Some phase)
  obtain part choice where
    "planNextEpicWave rt (selection_input inp (indexPlan (si_plan inp)) (batch_of phase)) = Some (part, choice)"
    using planNextEpicWave_spec [OF refl refl, of rt "selection_input inp (indexPlan (si_plan inp)) (batch_of phase)"] by auto
  then show ?thesis unfolding selectNextEpicWave_def Some by (simp add: Let_def)
qed

lemma issueNextWave_returns: "issueNextWave rt env epic plan n \<noteq> None"
  by (auto simp: issueNextWave_def Let_def selection_returns split: option.splits wave_selection.splits)

text \<open>A step always returns a result, and it commits at most two updates: one for the active wave and one for what follows.\<close>

theorem runEpicNextWave_total:
  "\<exists>out. runEpicNextWave rt env = Some out \<and> length (no_commits out) \<le> 2"
proof -
  have be: "length (best_effort env store epic mutate) \<le> 1" for store epic mutate
    by (simp add: best_effort_def split: sum.split option.split)
  have adv: "length (snd (advanceActiveWave rt env epic plan s)) \<le> 1" for epic plan s
    using be by (auto simp: advanceActiveWave_def close_wave_def Let_def split: option.split sum.split)
  have issue: "\<exists>res cs. issueNextWave rt env epic plan n = Some (res, cs) \<and> length cs \<le> 1" for epic plan n
  proof -
    obtain res cs where r: "issueNextWave rt env epic plan n = Some (res, cs)" using issueNextWave_returns by fastforce
    have "length cs \<le> 1"
    proof (cases "cs = []")
      case False
      then have "cs \<noteq> [] \<or> (\<exists>w. res = NW_Dispatch w)" by simp
      from r this obtain draft where "issue_commit env epic plan draft = (res, cs)" by (rule issueNextWave_cases)
      then show ?thesis by (auto simp: issue_commit_def split: sum.splits option.splits)
    qed simp
    with r show ?thesis by blast
  qed
  have next': "\<exists>res cs. plan_next rt env epic plan = Some (res, cs) \<and> length cs \<le> 1" for epic plan
    using issue be by (auto simp: plan_next_def Let_def sync_phase_commit_def split: option.split)
  show ?thesis
  proof (cases "\<exists>epic plan. nx_openEpic env = Inr (Some epic) \<and> nx_plan env = Some plan")
    case False
    then show ?thesis
      by (auto simp: runEpicNextWave_def plain_outcome_def split: sum.split option.split)
  next
    case True
    then obtain epic plan where e: "nx_openEpic env = Inr (Some epic)" "nx_plan env = Some plan" by blast
    show ?thesis
    proof (cases "ep_activeWaveSeq epic")
      case None
      obtain res cs where "plan_next rt env epic plan = Some (res, cs)" "length cs \<le> 1" using next' by blast
      then show ?thesis using e None by (simp add: runEpicNextWave_def plain_outcome_def with_closed_def)
    next
      case (Some s)
      obtain a cs where a: "advanceActiveWave rt env epic plan s = (a, cs)" by fastforce
      then have l: "length cs \<le> 1" using adv [of epic plan s] by simp
      show ?thesis
      proof (cases a)
        case (Adv_Result res)
        then show ?thesis using e Some a l by (simp add: runEpicNextWave_def plain_outcome_def)
      next
        case (Adv_Epic base closed)
        obtain res cs' where "plan_next rt env base plan = Some (res, cs')" "length cs' \<le> 1" using next' by blast
        then show ?thesis using e Some a l Adv_Epic by (simp add: runEpicNextWave_def plain_outcome_def with_closed_def)
      qed
    qed
  qed
qed

section \<open>An evaluated step\<close>

text \<open>The wave of \<open>gate_epic\<close> is finished, one of its files still uncommitted, and a task of the next phase
  waits for \<open>a\<close>.  The row the second write finds was closed by another process.\<close>

definition step_task :: "string \<Rightarrow> task_status \<Rightarrow> string list \<Rightarrow> plan_task" where
  "step_task i st ds = \<lparr>t_id = i, t_description = [], t_status = st, t_depends = Some ds, t_files_touched = None\<rparr>"

definition step_plan :: "plan_phase list" where
  "step_plan =
     [\<lparr>ph_id = 1, ph_name = [], ph_tasks = [step_task ''a'' Completed [], step_task ''b'' Completed []]\<rparr>,
      \<lparr>ph_id = 2, ph_name = [], ph_tasks = [step_task ''c'' Pending [''a'']]\<rparr>]"

definition step_status :: string where
  "step_status = '' M src/a'' @ [record_sep] @ ''?? notes'' @ [record_sep]"

definition step_env :: next_wave_env where
  "step_env =
     \<lparr>nx_directory = ''/w'', nx_config = Inr True, nx_openEpic = Inr (Some gate_epic), nx_inspect = Inr None,
      nx_branchOk = (\<lambda>_. True), nx_plan = Some step_plan, nx_isClosed = (\<lambda>n. n = 1), nx_parse = (\<lambda>_. None),
      nx_registry = \<lparr>mr_bound = Inl (), mr_live = (\<lambda>_. None), mr_scan = Inr []\<rparr>, nx_statusFile = ''/w/s'',
      nx_dirty = Inr step_status, nx_commit = (\<lambda>_ _ _. Inr (Some sync_sha)),
      nx_close = \<lparr>cr_head = Inr sync_sha, cr_events = Inr [], cr_diff = (\<lambda>_. Inr []), cr_status = Inr [], cr_log = (\<lambda>_. Inr []),
                  cr_evidence = (\<lambda>_. Inr None), cr_attribution = (\<lambda>i. if i = ''a'' then [''src/a''] else [])\<rparr>,
      nx_tooLarge = (\<lambda>_. False),
      nx_advanceStore = (\<lambda>_. \<lparr>ua_row = Row gate_epic, ua_write = Applied\<rparr>),
      nx_phaseStore = (\<lambda>_. \<lparr>ua_row = Row run_closed, ua_write = Applied\<rparr>),
      nx_issueStore = (\<lambda>_. \<lparr>ua_row = Row run_closed, ua_write = Applied\<rparr>),
      nx_closeTime = ''u'', nx_issueTime = ''v'', nx_bindings = Inr (Some [''c'']), nx_scopeOf = (\<lambda>_. Inr (Some [''src/c''])),
      nx_events = Inr [], nx_git = git_model, nx_refs = [],
      nx_signals = \<lparr>ps_hotFiles = [], ps_coWrites = None, ps_cochange = None, ps_densityThreshold = DEFAULT_EPIC_DENSITY_THRESHOLD\<rparr>,
      nx_leanConfig = gi_leanConfig wave_graph_input, nx_baseline = Inr (''?? notes'' @ [record_sep]), nx_baseHead = Inr sync_sha\<rparr>"

fun dispatched :: "next_wave_result \<Rightarrow> (int \<times> string list) option" where
  "dispatched (NW_Dispatch w) = Some (ew_seq w, ew_taskIds w)"
| "dispatched _ = None"

lemma step_runs:
  "map_option (\<lambda>out. (dispatched (no_result out), map_option ew_seq (no_closed out),
      map (\<lambda>(snap, row, new). (snap = gate_epic, row = gate_epic)) (no_commits out))) (runEpicNextWave gate_rt step_env) =
   Some (Some (2, [''c'']), Some 1, [(True, True), (False, False)])"
  by code_simp

lemma dispatched_Some: "dispatched r = Some (n, ids) \<Longrightarrow> \<exists>w. r = NW_Dispatch w \<and> ew_seq w = n \<and> ew_taskIds w = ids"
  by (cases r) auto

lemma step_outcome:
  obtains out w closed new base row new' where "runEpicNextWave gate_rt step_env = Some out" "no_result out = NW_Dispatch w"
    "ew_taskIds w = [''c'']" "no_closed out = Some closed" "ew_seq closed = 1"
    "no_commits out = [(gate_epic, gate_epic, new), (base, row, new')]"
proof -
  obtain out where out: "runEpicNextWave gate_rt step_env = Some out" using step_runs by (cases "runEpicNextWave gate_rt step_env") auto
  have f: "dispatched (no_result out) = Some (2, [''c''])" "map_option ew_seq (no_closed out) = Some 1"
    "map (\<lambda>(snap, row, new). (snap = gate_epic, row = gate_epic)) (no_commits out) = [(True, True), (False, False)]"
    using step_runs out by simp_all
  from dispatched_Some [OF f(1)] obtain w where w: "no_result out = NW_Dispatch w" "ew_taskIds w = [''c'']" by blast
  obtain closed where c: "no_closed out = Some closed" "ew_seq closed = 1" using f(2) by auto
  obtain x y where xy: "no_commits out = [x, y]" "(\<lambda>(snap, row, new). (snap = gate_epic, row = gate_epic)) x = (True, True)"
    using f(3) by (auto simp: map_eq_Cons_conv)
  obtain new where "x = (gate_epic, gate_epic, new)" using xy(2) by (cases x) auto
  moreover obtain base row new' where "y = (base, row, new')" by (cases y) auto
  ultimately show ?thesis using that [OF out w c] xy(1) by simp
qed

theorem next_wave_refines_run_witness:
  "\<exists>out new. runEpicNextWave gate_rt step_env = Some out \<and> epic_run [new, gate_epic, run_start_record]"
proof -
  obtain out new base row new' where o: "runEpicNextWave gate_rt step_env = Some out"
    "no_commits out = [(gate_epic, gate_epic, new), (base, row, new')]" by (rule step_outcome) blast
  have "epic_run (new # gate_epic # [run_start_record])"
    by (rule next_wave_refines_run [OF o(1) _ run_issued, where snap = gate_epic]) (simp_all add: o(2))
  with o(1) show ?thesis by blast
qed

theorem wave_closes_when_settled_witness:
  "\<exists>out w. runEpicNextWave gate_rt step_env = Some out \<and> no_closed out = Some w \<and> find_wave 1 gate_epic = Some gate_wave \<and>
     find_wave (ew_seq w) gate_epic \<noteq> None"
proof -
  obtain out w where o: "runEpicNextWave gate_rt step_env = Some out" "no_closed out = Some w" by (rule step_outcome) blast
  have "nx_openEpic step_env = Inr (Some gate_epic)" by (simp add: step_env_def)
  then have "find_wave (ew_seq w) gate_epic \<noteq> None" using wave_closes_when_settled [OF o] by auto
  moreover have "find_wave 1 gate_epic = Some gate_wave" by (simp add: find_wave_def draft_wave_def)
  ultimately show ?thesis using o by blast
qed

theorem dispatched_wave_safe_witness:
  "\<exists>out w. runEpicNextWave gate_rt step_env = Some out \<and> no_result out = NW_Dispatch w \<and> distinct (ew_taskIds w)"
proof -
  obtain out w where o: "runEpicNextWave gate_rt step_env = Some out" "no_result out = NW_Dispatch w" by (rule step_outcome) blast
  with dispatched_wave_safe [OF o] show ?thesis by blast
qed

theorem dispatched_tasks_ready_witness:
  "\<exists>out w. runEpicNextWave gate_rt step_env = Some out \<and> no_result out = NW_Dispatch w \<and> js_get (ew_files w) ''c'' = Some [''src/c'']"
proof -
  obtain out w new base row new' where o: "runEpicNextWave gate_rt step_env = Some out" "no_result out = NW_Dispatch w"
    "ew_taskIds w = [''c'']" "no_commits out = [(gate_epic, gate_epic, new), (base, row, new')]" by (rule step_outcome) blast
  have "last (no_commits out) = (base, row, new')" "''c'' \<in> set (ew_taskIds w)" using o(3,4) by simp_all
  from dispatched_tasks_ready [OF o(1,2) this] obtain files where "nx_scopeOf step_env ''c'' = Inr (Some files)"
    "js_get (ew_files w) ''c'' = Some files" by blast
  then show ?thesis using o(1,2) by (simp add: step_env_def)
qed

theorem residue_commits_only_task_files_witness:
  "''a'' \<in> set (ew_taskIds gate_wave) \<and> task_completed step_plan ''a'' \<and> \<not> isSwarmStatePath ''src/a''"
proof -
  have run: "commitWaveResidue gate_rt (\<lambda>_ _ _. Inr (Some sync_sha)) (\<lambda>i. if i = ''a'' then [''src/a''] else []) (Inr step_status)
      gate_epic gate_wave step_plan = ([(''a'', [''src/a''])], True)" by code_simp
  obtain dirty where "listDirtyEntries (Inr step_status) = Inr dirty" by (simp add: listDirtyEntries_def)
  from residue_commits_only_task_files [OF run this, of "''a''" "[''src/a'']" "''src/a''"] show ?thesis by simp
qed

end
