(* ===== verification/Spawn_Circuit.thy ===== *)
theory Spawn_Circuit
  imports Js_String Transition
begin

text \<open>
  \<^verbatim>\<open>src/dispatch/spawn-circuit.ts\<close>: the circuit that stops repeated failures of the same dispatch.  The two
  process-wide maps are explicit states: the circuits by action key, and the identities armed
  before a call.  An entry of the code's map is updated in place, which keeps its position; times are milliseconds.  The hash that
  identifies an action (\<open>createActionIdentity\<close>) is an argument.
\<close>

definition MAX_TRACKED_SPAWN_CIRCUITS :: nat where "MAX_TRACKED_SPAWN_CIRCUITS = 500"
definition SPAWN_CIRCUIT_TTL_MS :: int where "SPAWN_CIRCUIT_TTL_MS = 30 * 60000"
definition MAX_ARMED_DISPATCH_IDENTITIES :: nat where "MAX_ARMED_DISPATCH_IDENTITIES = 500"

datatype spawn_state = Spawn_Closed | Spawn_Open | Spawn_Half_Open

record spawn_entry =
  se_state :: spawn_state
  se_session :: string
  se_invocation :: string
  se_digest :: string
  se_failureCount :: int
  se_openedAt :: int
  se_denyUntil :: int
  se_denials :: int
  se_updatedAt :: int

type_synonym spawn_circuits = "(string, spawn_entry) js_map"

record spawn_action =
  sa_session :: string
  sa_invocation :: string
  sa_digest :: string

definition entryKey :: "spawn_action \<Rightarrow> string" where
  "entryKey a = sa_session a @ [CHR 0x00] @ sa_invocation a @ [CHR 0x00] @ sa_digest a"

section \<open>Bounded memory\<close>

definition sweep_stale :: "int \<Rightarrow> spawn_circuits \<Rightarrow> spawn_circuits" where
  "sweep_stale now circuits = filter (\<lambda>(_, e). \<not> now - se_updatedAt e > SPAWN_CIRCUIT_TTL_MS) circuits"

definition by_age :: "spawn_circuits \<Rightarrow> spawn_circuits" where
  "by_age circuits = js_sort (\<lambda>a b. se_updatedAt (snd a) - se_updatedAt (snd b)) circuits"

definition evictExpired :: "int \<Rightarrow> spawn_circuits \<Rightarrow> spawn_circuits" where
  "evictExpired now circuits =
     (if length circuits \<le> MAX_TRACKED_SPAWN_CIRCUITS then sweep_stale now circuits
      else
        let excess = length circuits - MAX_TRACKED_SPAWN_CIRCUITS
        in sweep_stale now (fold js_delete (map fst (take excess (by_age circuits))) circuits))"

section \<open>The circuit\<close>

definition fresh_entry :: "spawn_action \<Rightarrow> int \<Rightarrow> spawn_entry" where
  "fresh_entry a now =
     \<lparr>se_state = Spawn_Closed, se_session = sa_session a, se_invocation = sa_invocation a, se_digest = sa_digest a,
      se_failureCount = 1, se_openedAt = 0, se_denyUntil = 0, se_denials = 0, se_updatedAt = now\<rparr>"

definition open_entry :: "int \<Rightarrow> int \<Rightarrow> spawn_entry \<Rightarrow> spawn_entry" where
  "open_entry now halfOpenAfterMs e =
     e\<lparr>se_state := Spawn_Open, se_openedAt := now, se_denyUntil := now + max 1 halfOpenAfterMs, se_denials := 0\<rparr>"

definition noteDispatchSpawnFailure ::
  "spawn_action \<Rightarrow> int \<Rightarrow> int \<Rightarrow> int \<Rightarrow> spawn_circuits \<Rightarrow> (spawn_entry \<times> bool) \<times> spawn_circuits" where
  "noteDispatchSpawnFailure a threshold halfOpenAfterMs now circuits =
     (let entry = (case js_get circuits (entryKey a) of
            Some e \<Rightarrow> e\<lparr>se_failureCount := se_failureCount e + 1, se_updatedAt := now\<rparr>
          | None \<Rightarrow> fresh_entry a now);
          (entry', opened) =
            (if se_state entry = Spawn_Half_Open then (open_entry now halfOpenAfterMs entry, False)
             else if se_state entry \<noteq> Spawn_Open \<and> se_failureCount entry \<ge> max 1 threshold
             then (open_entry now halfOpenAfterMs entry, True)
             else (entry, False));
          final = entry'\<lparr>se_updatedAt := now\<rparr>
      in ((final, opened), evictExpired now (js_set (entryKey a) final circuits)))"

text \<open>Whether the dispatch is admitted; a refusal is the thrown denial.\<close>

definition assertDispatchSpawnCircuitAdmits :: "spawn_action \<Rightarrow> int \<Rightarrow> spawn_circuits \<Rightarrow> bool \<times> spawn_circuits" where
  "assertDispatchSpawnCircuitAdmits a now circuits =
     (case js_get circuits (entryKey a) of
        None \<Rightarrow> (True, circuits)
      | Some e \<Rightarrow>
          (case se_state e of
             Spawn_Closed \<Rightarrow> (True, circuits)
           | Spawn_Open \<Rightarrow>
               if now < se_denyUntil e \<or> se_denials e = 0
               then (False, js_set (entryKey a) (e\<lparr>se_denials := se_denials e + 1, se_updatedAt := now\<rparr>) circuits)
               else (True, js_set (entryKey a) (e\<lparr>se_state := Spawn_Half_Open, se_updatedAt := now\<rparr>) circuits)
           | Spawn_Half_Open \<Rightarrow> (False, circuits)))"

definition noteDispatchSpawnSuccess :: "spawn_action \<Rightarrow> spawn_circuits \<Rightarrow> spawn_circuits" where
  "noteDispatchSpawnSuccess a circuits = js_delete (entryKey a) circuits"

definition getSpawnCircuitEntry :: "spawn_action \<Rightarrow> spawn_circuits \<Rightarrow> spawn_entry option" where
  "getSpawnCircuitEntry a circuits = js_get circuits (entryKey a)"

section \<open>Armed identities\<close>

type_synonym armed_identities = "(string, string \<times> string) js_map"

definition armDispatchIdentity :: "string \<Rightarrow> string \<times> string \<Rightarrow> armed_identities \<Rightarrow> armed_identities" where
  "armDispatchIdentity callID identity armed =
     js_set callID identity
       (if length armed \<ge> MAX_ARMED_DISPATCH_IDENTITIES
        then (case js_keys armed of [] \<Rightarrow> armed | oldest # _ \<Rightarrow> js_delete oldest armed) else armed)"

definition takeArmedDispatchIdentity :: "string \<Rightarrow> armed_identities \<Rightarrow> (string \<times> string) option \<times> armed_identities" where
  "takeArmedDispatchIdentity callID armed =
     (case js_get armed callID of
        None \<Rightarrow> (None, armed)
      | Some identity \<Rightarrow> (Some identity, js_delete callID armed))"

section \<open>Runs\<close>

datatype spawn_event =
    Dispatch_Failed spawn_action int int int
  | Dispatch_Asked spawn_action int
  | Dispatch_Succeeded spawn_action

fun spawn_step :: "spawn_event \<Rightarrow> spawn_circuits \<Rightarrow> spawn_circuits" where
  "spawn_step (Dispatch_Failed a threshold half now) circuits = snd (noteDispatchSpawnFailure a threshold half now circuits)"
| "spawn_step (Dispatch_Asked a now) circuits = snd (assertDispatchSpawnCircuitAdmits a now circuits)"
| "spawn_step (Dispatch_Succeeded a) circuits = noteDispatchSpawnSuccess a circuits"

fun event_key :: "spawn_event \<Rightarrow> string" where
  "event_key (Dispatch_Failed a _ _ _) = entryKey a"
| "event_key (Dispatch_Asked a _) = entryKey a"
| "event_key (Dispatch_Succeeded a) = entryKey a"

end
