(* ===== verification/Spawn_Facts.thy ===== *)
theory Spawn_Facts
  imports Spawn_Circuit
begin

text \<open>
  The spawn circuit against its specification per action: what every event does to the phase of an action,
  that memory is bounded whatever the order of events, and that there is one probe at a time.
\<close>

section \<open>The specification of one action\<close>

datatype spawn_phase = Phase_Closed int | Phase_Open int bool | Phase_Probing

text \<open>\<open>Phase_Open until told\<close>: denied until the time, and whether the caller was denied once in this episode.\<close>

definition phase_of :: "spawn_entry option \<Rightarrow> spawn_phase" where
  "phase_of e =
     (case e of
        None \<Rightarrow> Phase_Closed 0
      | Some e \<Rightarrow>
          (case se_state e of
             Spawn_Closed \<Rightarrow> Phase_Closed (se_failureCount e)
           | Spawn_Open \<Rightarrow> Phase_Open (se_denyUntil e) (se_denials e \<noteq> 0)
           | Spawn_Half_Open \<Rightarrow> Phase_Probing))"

fun spec_step :: "spawn_event \<Rightarrow> spawn_phase \<Rightarrow> spawn_phase" where
  "spec_step (Dispatch_Failed _ threshold half now) (Phase_Closed n) =
     (if n + 1 \<ge> max 1 threshold then Phase_Open (now + max 1 half) False else Phase_Closed (n + 1))"
| "spec_step (Dispatch_Failed _ threshold half now) (Phase_Open u told) = Phase_Open u told"
| "spec_step (Dispatch_Failed _ threshold half now) Phase_Probing = Phase_Open (now + max 1 half) False"
| "spec_step (Dispatch_Asked _ now) (Phase_Open u told) = (if now < u \<or> \<not> told then Phase_Open u True else Phase_Probing)"
| "spec_step (Dispatch_Asked _ now) p = p"
| "spec_step (Dispatch_Succeeded _) p = Phase_Closed 0"

fun spec_admits :: "int \<Rightarrow> spawn_phase \<Rightarrow> bool" where
  "spec_admits now (Phase_Closed _) = True"
| "spec_admits now (Phase_Open u told) = (u \<le> now \<and> told)"
| "spec_admits now Phase_Probing = False"

section \<open>The invariant\<close>

definition spawn_inv :: "spawn_circuits \<Rightarrow> bool" where
  "spawn_inv m =
     (distinct (js_keys m) \<and> length m \<le> MAX_TRACKED_SPAWN_CIRCUITS \<and> (\<forall>(_, e) \<in> set m. 0 \<le> se_denials e \<and> 0 \<le> se_failureCount e))"

lemma js_keys_sweep: "js_keys (sweep_stale now m) = map fst (filter (\<lambda>(_, e). \<not> now - se_updatedAt e > SPAWN_CIRCUIT_TTL_MS) m)"
  by (simp add: sweep_stale_def)

lemma get_sweep:
  assumes "distinct (js_keys m)"
  shows "js_get (sweep_stale now m) k =
    (case js_get m k of None \<Rightarrow> None | Some e \<Rightarrow> if now - se_updatedAt e > SPAWN_CIRCUIT_TTL_MS then None else Some e)"
  using assms
proof (induction m)
  case Nil
  then show ?case by (simp add: sweep_stale_def)
next
  case (Cons p m)
  obtain k' e where p: "p = (k', e)" by (cases p)
  have "js_get m k' = None" using Cons.prems p by (simp add: map_of_eq_None_iff)
  then show ?case using Cons p by (auto simp: sweep_stale_def split: option.splits)
qed

lemma sweep_simps:
  "distinct (js_keys m) \<Longrightarrow> distinct (js_keys (sweep_stale now m))" "length (sweep_stale now m) \<le> length m"
  "set (sweep_stale now m) \<subseteq> set m"
  by (auto simp: sweep_stale_def distinct_map_filter)

lemma fold_delete:
  "js_get (fold js_delete ks m) k = (if k \<in> set ks then None else js_get m k)"
  "js_keys (fold js_delete ks m) = filter (\<lambda>x. x \<notin> set ks) (js_keys m)"
  "set (fold js_delete ks m) \<subseteq> set m"
proof -
  show "js_get (fold js_delete ks m) k = (if k \<in> set ks then None else js_get m k)"
    by (induction ks arbitrary: m) (auto simp: js_map_simps)
  show "js_keys (fold js_delete ks m) = filter (\<lambda>x. x \<notin> set ks) (js_keys m)"
  proof (induction ks arbitrary: m)
    case Nil
    then show ?case by simp
  next
    case (Cons a ks)
    have "filter (\<lambda>x. x \<notin> set ks) (filter (\<lambda>x. x \<noteq> a) (js_keys m)) = filter (\<lambda>x. x \<notin> set (a # ks)) (js_keys m)"
      by (simp add: conj_commute)
    with Cons [of "js_delete a m"] show ?case by (simp add: js_keys_delete)
  qed
  show "set (fold js_delete ks m) \<subseteq> set m"
  proof (induction ks arbitrary: m)
    case Nil
    then show ?case by simp
  next
    case (Cons a ks)
    have "set (js_delete a m) \<subseteq> set m" by (auto simp: AList.delete_eq)
    with Cons [of "js_delete a m"] show ?case by auto
  qed
qed

lemma length_fold_delete:
  assumes "distinct (js_keys m)" "set ks \<subseteq> set (js_keys m)" "distinct ks"
  shows "length (fold js_delete ks m) = length m - length ks"
proof -
  have "length (filter (\<lambda>x. x \<notin> set ks) (js_keys m)) = card (set (js_keys m) - set ks)"
    using assms(1) distinct_card [of "filter (\<lambda>x. x \<notin> set ks) (js_keys m)"] by (simp add: set_diff_eq [symmetric] Collect_conj_eq)
  also have "\<dots> = length m - length ks"
    using assms card_Diff_subset [of "set ks" "set (js_keys m)"] distinct_card [of ks] distinct_card [of "js_keys m"] by simp
  finally show ?thesis using fold_delete(2) [of ks m] by (metis length_map)
qed

text \<open>Over the cap, the stalest entries are dropped first; then the expired ones.\<close>

lemma by_age_keys: "set (map fst (take n (by_age m))) \<subseteq> set (js_keys m)" "distinct (js_keys m) \<Longrightarrow> distinct (map fst (take n (by_age m)))"
proof -
  show "set (map fst (take n (by_age m))) \<subseteq> set (js_keys m)"
    using set_take_subset [of n "by_age m"] by (auto simp: by_age_def)
  assume "distinct (js_keys m)"
  then have "distinct (map fst (by_age m))"
    using mset_js_sort [of _ m] by (metis by_age_def mset_eq_imp_distinct_iff mset_map)
  then show "distinct (map fst (take n (by_age m)))" by (metis distinct_take take_map)
qed

lemma evictExpired_spec:
  assumes "distinct (js_keys m)"
  shows "distinct (js_keys (evictExpired now m))" "length (evictExpired now m) \<le> MAX_TRACKED_SPAWN_CIRCUITS"
    "set (evictExpired now m) \<subseteq> set m" "js_get (evictExpired now m) k = None \<or> js_get (evictExpired now m) k = js_get m k"
    "js_get m k = Some e \<Longrightarrow> js_get (evictExpired now m) k = None \<Longrightarrow>
       now - se_updatedAt e > SPAWN_CIRCUIT_TTL_MS \<or> length m > MAX_TRACKED_SPAWN_CIRCUITS"
proof -
  let ?ks = "map fst (take (length m - MAX_TRACKED_SPAWN_CIRCUITS) (by_age m))"
  let ?m = "if length m \<le> MAX_TRACKED_SPAWN_CIRCUITS then m else fold js_delete ?ks m"
  have ev: "evictExpired now m = sweep_stale now ?m" by (simp add: evictExpired_def Let_def)
  have d: "distinct (js_keys ?m)" using assms by (simp add: fold_delete(2))
  have "length (by_age m) = length m" by (simp add: by_age_def)
  then have l: "length ?m \<le> MAX_TRACKED_SPAWN_CIRCUITS"
    using length_fold_delete [OF assms by_age_keys(1) by_age_keys(2) [OF assms]] by auto
  have s: "set ?m \<subseteq> set m" using fold_delete(3) by auto
  show "distinct (js_keys (evictExpired now m))" unfolding ev by (rule sweep_simps(1) [OF d])
  show "length (evictExpired now m) \<le> MAX_TRACKED_SPAWN_CIRCUITS" unfolding ev using sweep_simps(2) l by (rule order_trans)
  show "set (evictExpired now m) \<subseteq> set m" unfolding ev using sweep_simps(3) s by (rule subset_trans)
  show "js_get (evictExpired now m) k = None \<or> js_get (evictExpired now m) k = js_get m k"
    unfolding ev get_sweep [OF d] by (auto simp: fold_delete(1) split: option.splits)
  assume "js_get m k = Some e" "js_get (evictExpired now m) k = None"
  then show "now - se_updatedAt e > SPAWN_CIRCUIT_TTL_MS \<or> length m > MAX_TRACKED_SPAWN_CIRCUITS"
    unfolding ev get_sweep [OF d] by (auto split: if_splits)
qed

text \<open>The entry a failure writes.\<close>

definition failed_entry :: "spawn_action \<Rightarrow> int \<Rightarrow> int \<Rightarrow> int \<Rightarrow> spawn_entry option \<Rightarrow> spawn_entry" where
  "failed_entry a threshold half now existing =
     (let entry = (case existing of Some e \<Rightarrow> e\<lparr>se_failureCount := se_failureCount e + 1, se_updatedAt := now\<rparr> | None \<Rightarrow> fresh_entry a now)
      in (if se_state entry = Spawn_Half_Open \<or> (se_state entry \<noteq> Spawn_Open \<and> se_failureCount entry \<ge> max 1 threshold)
          then open_entry now half entry else entry)\<lparr>se_updatedAt := now\<rparr>)"

lemma failure_step:
  "snd (noteDispatchSpawnFailure a threshold half now m) =
     evictExpired now (js_set (entryKey a) (failed_entry a threshold half now (js_get m (entryKey a))) m)"
  by (simp add: noteDispatchSpawnFailure_def failed_entry_def Let_def split: option.split)

lemma failed_entry_simps:
  "phase_of (Some (failed_entry a threshold half now existing)) = spec_step (Dispatch_Failed a threshold half now) (phase_of existing)"
  "(\<And>e. existing = Some e \<Longrightarrow> 0 \<le> se_denials e \<and> 0 \<le> se_failureCount e) \<Longrightarrow>
     0 \<le> se_denials (failed_entry a threshold half now existing) \<and> 0 \<le> se_failureCount (failed_entry a threshold half now existing)"
  "se_updatedAt (failed_entry a threshold half now existing) = now"
proof -
  show "phase_of (Some (failed_entry a threshold half now existing)) = spec_step (Dispatch_Failed a threshold half now) (phase_of existing)"
    by (cases existing; cases "se_state (the existing)")
       (auto simp: failed_entry_def phase_of_def fresh_entry_def open_entry_def Let_def)
  show "(\<And>e. existing = Some e \<Longrightarrow> 0 \<le> se_denials e \<and> 0 \<le> se_failureCount e) \<Longrightarrow>
     0 \<le> se_denials (failed_entry a threshold half now existing) \<and> 0 \<le> se_failureCount (failed_entry a threshold half now existing)"
    by (cases existing) (auto simp: failed_entry_def fresh_entry_def open_entry_def Let_def)
  show "se_updatedAt (failed_entry a threshold half now existing) = now" by (simp add: failed_entry_def Let_def)
qed

lemma in_spawn_js_set: "p \<in> set (js_set k v m) \<Longrightarrow> p = (k, v) \<or> p \<in> set m"
  by (induction m) (auto split: if_splits)

lemma spawn_inv_get: "spawn_inv m \<Longrightarrow> js_get m k = Some e \<Longrightarrow> 0 \<le> se_denials e \<and> 0 \<le> se_failureCount e"
  by (auto simp: spawn_inv_def dest: map_of_SomeD)

lemma spawn_inv_set:
  assumes "spawn_inv m" "js_get m k = Some e0" "0 \<le> se_denials e" "0 \<le> se_failureCount e"
  shows "spawn_inv (js_set k e m)"
proof -
  have "k \<in> set (js_keys m)" using js_get_key [OF assms(2)] by simp
  then have "js_keys (js_set k e m) = js_keys m" by (simp add: js_keys_set)
  then have "length (js_set k e m) = length m" "distinct (js_keys (js_set k e m))"
    using assms(1) by (metis length_map, simp add: spawn_inv_def)
  then show ?thesis using assms by (auto simp: spawn_inv_def dest!: in_spawn_js_set)
qed

lemma spawn_inv_step: "spawn_inv m \<Longrightarrow> spawn_inv (spawn_step ev m)"
proof (cases ev)
  case (Dispatch_Failed a threshold half now)
  assume inv: "spawn_inv m"
  let ?e = "failed_entry a threshold half now (js_get m (entryKey a))"
  let ?m = "js_set (entryKey a) ?e m"
  have d: "distinct (js_keys ?m)" using inv by (simp add: spawn_inv_def js_keys_set)
  have "0 \<le> se_denials ?e \<and> 0 \<le> se_failureCount ?e" using failed_entry_simps(2) spawn_inv_get [OF inv] by blast
  then have "\<forall>(_, e) \<in> set ?m. 0 \<le> se_denials e \<and> 0 \<le> se_failureCount e"
    using inv by (auto simp: spawn_inv_def dest!: in_spawn_js_set)
  then have "\<forall>(_, e) \<in> set (evictExpired now ?m). 0 \<le> se_denials e \<and> 0 \<le> se_failureCount e"
    using evictExpired_spec(3) [OF d, of now] by blast
  then show ?thesis
    using evictExpired_spec(1,2) [OF d, of now] by (simp add: Dispatch_Failed failure_step spawn_inv_def)
next
  case (Dispatch_Asked a now)
  assume inv: "spawn_inv m"
  then show ?thesis
    using spawn_inv_set [OF inv] spawn_inv_get [OF inv]
    by (auto simp: Dispatch_Asked assertDispatchSpawnCircuitAdmits_def split: option.split spawn_state.split)
next
  case (Dispatch_Succeeded a)
  assume inv: "spawn_inv m"
  have "set (js_delete (entryKey a) m) \<subseteq> set m" "length (js_delete (entryKey a) m) \<le> length m"
    by (auto simp: AList.delete_eq)
  then show ?thesis
    using inv by (auto simp: Dispatch_Succeeded noteDispatchSpawnSuccess_def spawn_inv_def js_keys_delete)
qed

interpretation spawn: invariant_machine spawn_step spawn_inv
  by unfold_locales (rule spawn_inv_step)

section \<open>Refinement\<close>

lemma spawn_step_get:
  assumes "spawn_inv m"
  shows "js_get (spawn_step ev m) k = None \<or>
    phase_of (js_get (spawn_step ev m) k) = (if event_key ev = k then spec_step ev (phase_of (js_get m k)) else phase_of (js_get m k))"
proof (cases ev)
  case (Dispatch_Failed a threshold half now)
  let ?m = "js_set (entryKey a) (failed_entry a threshold half now (js_get m (entryKey a))) m"
  have d: "distinct (js_keys ?m)" using assms by (simp add: spawn_inv_def js_keys_set)
  show ?thesis
    using evictExpired_spec(4) [OF d, of now k]
    by (auto simp: Dispatch_Failed failure_step js_get_set failed_entry_simps(1))
next
  case (Dispatch_Asked a now)
  show ?thesis
  proof (cases "js_get m (entryKey a)")
    case None
    then show ?thesis by (auto simp: Dispatch_Asked assertDispatchSpawnCircuitAdmits_def)
  next
    case (Some e)
    with spawn_inv_get [OF assms] have "0 \<le> se_denials e" by blast
    then show ?thesis
      using Some by (cases "se_state e") (auto simp: Dispatch_Asked assertDispatchSpawnCircuitAdmits_def js_get_set phase_of_def)
  qed
next
  case (Dispatch_Succeeded a)
  then show ?thesis by (auto simp: noteDispatchSpawnSuccess_def js_get_delete phase_of_def)
qed

lemma admits_phase:
  "fst (assertDispatchSpawnCircuitAdmits a now m) = spec_admits now (phase_of (js_get m (entryKey a)))"
  by (auto simp: assertDispatchSpawnCircuitAdmits_def phase_of_def split: option.split spawn_state.split)

text \<open>When an entry disappears without the specification saying so: only by a failure, which found it expired while
  another action failed, or found the memory full when it had to add an action.\<close>

definition evicts :: "spawn_event \<Rightarrow> spawn_circuits \<Rightarrow> string \<Rightarrow> bool" where
  "evicts ev m k =
     (case ev of
        Dispatch_Failed b _ _ t \<Rightarrow>
          (length m = MAX_TRACKED_SPAWN_CIRCUITS \<and> js_get m (entryKey b) = None) \<or>
          (entryKey b \<noteq> k \<and> (case js_get m k of None \<Rightarrow> False | Some e \<Rightarrow> t - se_updatedAt e > SPAWN_CIRCUIT_TTL_MS))
      | _ \<Rightarrow> False)"

lemma length_js_set_old:
  assumes "js_get m k = Some e"
  shows "length (js_set k v m) = length m"
proof -
  have "k \<in> set (js_keys m)" using js_get_key [OF assms] by simp
  then have "length (js_keys (js_set k v m)) = length (js_keys m)" by (simp add: js_keys_set)
  then show ?thesis by simp
qed

lemma failure_gone:
  assumes "spawn_inv m" "js_get (spawn_step (Dispatch_Failed b threshold half t) m) k = None"
  shows "evicts (Dispatch_Failed b threshold half t) m k \<or> (js_get m k = None \<and> k \<noteq> entryKey b)"
proof (rule ccontr)
  assume *: "\<not> ?thesis"
  let ?e = "failed_entry b threshold half t (js_get m (entryKey b))"
  let ?m = "js_set (entryKey b) ?e m"
  have d: "distinct (js_keys ?m)" using assms(1) by (simp add: spawn_inv_def js_keys_set)
  have cap: "length m \<le> MAX_TRACKED_SPAWN_CIRCUITS" using assms(1) by (simp add: spawn_inv_def)
  have gone: "js_get (evictExpired t ?m) k = None" using assms(2) by (simp add: failure_step)
  obtain e where e: "js_get ?m k = Some e" "t - se_updatedAt e \<le> SPAWN_CIRCUIT_TTL_MS"
    using * by (cases "k = entryKey b"; cases "js_get m k")
      (auto simp: js_get_set evicts_def failed_entry_simps(3) SPAWN_CIRCUIT_TTL_MS_def)
  with evictExpired_spec(5) [OF d e(1) gone] have full: "length ?m > MAX_TRACKED_SPAWN_CIRCUITS" by simp
  show False
  proof (cases "js_get m (entryKey b)")
    case None
    then show False
      using * full cap js_maps.length_put [of "entryKey b" ?e m] by (auto simp: evicts_def)
  next
    case (Some e0)
    then show False using full cap length_js_set_old [OF Some, of ?e] by simp
  qed
qed

lemma spawn_step_phase:
  assumes "spawn_inv m"
  shows "phase_of (js_get (spawn_step ev m) k) =
      (if event_key ev = k then spec_step ev (phase_of (js_get m k)) else phase_of (js_get m k)) \<or>
    (js_get (spawn_step ev m) k = None \<and> evicts ev m k)"
proof (cases "js_get (spawn_step ev m) k = None")
  case False
  with spawn_step_get [OF assms, of ev k] show ?thesis by (auto split: if_splits)
next
  case True
  show ?thesis
  proof (cases ev)
    case (Dispatch_Failed b threshold half t)
    from failure_gone [OF assms True [unfolded Dispatch_Failed]] show ?thesis
      using True by (auto simp: Dispatch_Failed phase_of_def)
  next
    case (Dispatch_Asked b t)
    then have "js_get m k = None"
      using True by (auto simp: assertDispatchSpawnCircuitAdmits_def js_get_set split: option.splits spawn_state.splits if_splits)
    then show ?thesis using True by (simp add: Dispatch_Asked phase_of_def)
  next
    case (Dispatch_Succeeded b)
    then have "k \<noteq> entryKey b \<Longrightarrow> js_get m k = None" using True by (simp add: noteDispatchSpawnSuccess_def js_get_delete)
    then show ?thesis using True by (auto simp: Dispatch_Succeeded phase_of_def)
  qed
qed

text \<open>C17: The circuit map refines one small machine per action.  After any events, the admission of a dispatch is the
  one the action's own phase gives, and every further event leaves the action in exactly the phase the
  specification gives: moved if the event is the action's own (a first failure is counted, enough failures open
  the circuit), unchanged otherwise.  The one exception is eviction: a failure forgets the action when it adds a new
  action to a full memory, or when it belongs to another action and the entry was not touched for the TTL.\<close>

theorem spawn_circuit_refines_spec:
  assumes "m = fold spawn_step events []"
  shows "fst (assertDispatchSpawnCircuitAdmits a now m) = spec_admits now (phase_of (getSpawnCircuitEntry a m)) \<and>
    (phase_of (getSpawnCircuitEntry a (spawn_step ev m)) =
       (if event_key ev = entryKey a then spec_step ev (phase_of (getSpawnCircuitEntry a m)) else phase_of (getSpawnCircuitEntry a m)) \<or>
     (getSpawnCircuitEntry a (spawn_step ev m) = None \<and>
      (\<exists>b threshold half t. ev = Dispatch_Failed b threshold half t \<and>
         ((length m = MAX_TRACKED_SPAWN_CIRCUITS \<and> getSpawnCircuitEntry b m = None) \<or>
          (entryKey b \<noteq> entryKey a \<and>
           (\<exists>e. getSpawnCircuitEntry a m = Some e \<and> t - se_updatedAt e > SPAWN_CIRCUIT_TTL_MS))))))"
proof -
  have inv: "spawn_inv m" unfolding assms by (rule spawn.inv_run) (simp add: spawn_inv_def)
  show ?thesis
    unfolding getSpawnCircuitEntry_def
    using admits_phase spawn_step_phase [OF inv, of ev "entryKey a"]
    by (auto simp: evicts_def split: spawn_event.splits option.splits)
qed

section \<open>One probe at a time\<close>

fun no_outcome :: "string \<Rightarrow> spawn_event \<Rightarrow> bool" where
  "no_outcome k (Dispatch_Asked _ _) = True"
| "no_outcome k ev = (event_key ev \<noteq> k)"

lemma probing_kept:
  assumes "spawn_inv m" "no_outcome k ev" "js_get m k = None \<or> phase_of (js_get m k) = Phase_Probing"
  shows "js_get (spawn_step ev m) k = None \<or> phase_of (js_get (spawn_step ev m) k) = Phase_Probing"
proof (cases "js_get m k")
  case None
  have "js_get (spawn_step ev m) k = None"
  proof (cases ev)
    case (Dispatch_Failed a threshold half now)
    let ?m = "js_set (entryKey a) (failed_entry a threshold half now (js_get m (entryKey a))) m"
    have d: "distinct (js_keys ?m)" using assms(1) by (simp add: spawn_inv_def js_keys_set)
    show ?thesis
      using evictExpired_spec(4) [OF d, of now k] None assms(2) by (auto simp: Dispatch_Failed failure_step js_get_set)
  next
    case (Dispatch_Asked a now)
    then show ?thesis
      using None by (auto simp: assertDispatchSpawnCircuitAdmits_def js_get_set split: option.splits spawn_state.splits if_splits)
  next
    case (Dispatch_Succeeded a)
    then show ?thesis using None by (simp add: noteDispatchSpawnSuccess_def js_get_delete)
  qed
  then show ?thesis ..
next
  case (Some e)
  then have p: "phase_of (js_get m k) = Phase_Probing" using assms(3) by simp
  show ?thesis
    using spawn_step_get [OF assms(1), of ev k] assms(2) unfolding p by (cases ev) (auto split: if_splits)
qed

lemma probing_run:
  "spawn_inv m \<Longrightarrow> list_all (no_outcome k) evs \<Longrightarrow> js_get m k = None \<or> phase_of (js_get m k) = Phase_Probing \<Longrightarrow>
   js_get (fold spawn_step evs m) k = None \<or> phase_of (js_get (fold spawn_step evs m) k) = Phase_Probing"
proof (induction evs arbitrary: m)
  case Nil
  then show ?case by simp
next
  case (Cons ev evs)
  then show ?case using spawn_inv_step probing_kept by simp
qed

text \<open>An open circuit lets through one probe at a time, and only after it said no: a dispatch is admitted through an open
  circuit only when its interval has elapsed and the same episode refused at least one dispatch, and from then on
  every further dispatch of the action is refused, whatever happens to other actions and at whatever time, until the
  action's own success or failure is reported (or the entry is evicted).\<close>

theorem spawn_single_probe:
  assumes "m = fold spawn_step before []" "getSpawnCircuitEntry a m = Some e" "se_state e = Spawn_Open"
    and "assertDispatchSpawnCircuitAdmits a now m = (True, m')"
    and "list_all (no_outcome (entryKey a)) events" "getSpawnCircuitEntry a (fold spawn_step events m') \<noteq> None"
  shows "se_denyUntil e \<le> now \<and> se_denials e \<noteq> 0 \<and> \<not> fst (assertDispatchSpawnCircuitAdmits a later (fold spawn_step events m'))"
proof -
  have inv: "spawn_inv m" unfolding assms(1) by (rule spawn.inv_run) (simp add: spawn_inv_def)
  have inv': "spawn_inv m'" using spawn_inv_step [OF inv, of "Dispatch_Asked a now"] assms(4) by simp
  have m: "js_get m (entryKey a) = Some e" using assms(2) by (simp add: getSpawnCircuitEntry_def)
  have "spec_admits now (phase_of (js_get m (entryKey a)))" using admits_phase [of a now m] assms(4) by simp
  then have first: "se_denyUntil e \<le> now" "se_denials e \<noteq> 0" using m assms(3) by (auto simp: phase_of_def)
  then have "phase_of (js_get m' (entryKey a)) = Phase_Probing"
    using assms(3,4) m by (auto simp: assertDispatchSpawnCircuitAdmits_def js_get_set phase_of_def split: if_splits)
  with probing_run [OF inv' assms(5)] assms(6)
  have "phase_of (js_get (fold spawn_step events m') (entryKey a)) = Phase_Probing" by (auto simp: getSpawnCircuitEntry_def)
  then show ?thesis using first admits_phase by simp
qed

section \<open>Bounds\<close>

lemma armed_bounded:
  assumes "distinct (js_keys armed)" "length armed \<le> MAX_ARMED_DISPATCH_IDENTITIES"
  shows "distinct (js_keys (armDispatchIdentity callID identity armed)) \<and>
    length (armDispatchIdentity callID identity armed) \<le> MAX_ARMED_DISPATCH_IDENTITIES"
proof -
  let ?m = "if length armed \<ge> MAX_ARMED_DISPATCH_IDENTITIES
        then (case js_keys armed of [] \<Rightarrow> armed | oldest # _ \<Rightarrow> js_delete oldest armed) else armed"
  have "distinct (js_keys ?m) \<and> length ?m < MAX_ARMED_DISPATCH_IDENTITIES"
  proof (cases "length armed \<ge> MAX_ARMED_DISPATCH_IDENTITIES")
    case True
    then obtain k ks where k: "js_keys armed = k # ks"
      using assms(2) by (cases "js_keys armed") (auto simp: MAX_ARMED_DISPATCH_IDENTITIES_def)
    then have d: "js_keys (js_delete k armed) = ks" by (rule js_maps.length_del_hd [OF assms(1)])
    then have "length (js_delete k armed) = length ks" by (metis length_map)
    moreover have "length armed = Suc (length ks)" using k by (metis length_Cons length_map)
    moreover have "distinct ks" using assms(1) k by simp
    ultimately show ?thesis using True k d assms(2) by simp
  next
    case False
    then show ?thesis using assms(1) by simp
  qed
  then show ?thesis
    using js_maps.distinct_put [of ?m callID identity] js_maps.length_put [of callID identity ?m]
    unfolding armDispatchIdentity_def by simp
qed

text \<open>The circuit's memory is bounded whatever the order of events: after any run at most 500 circuits are tracked, one per
  key, and arming any sequence of calls keeps at most 500 identities, the last armed one always among them.\<close>

theorem spawn_memory_bounded:
  "length (fold spawn_step events []) \<le> 500 \<and> distinct (js_keys (fold spawn_step events [])) \<and>
   length (fold (\<lambda>(callID, identity). armDispatchIdentity callID identity) calls []) \<le> 500 \<and>
   (calls \<noteq> [] \<longrightarrow> fst (takeArmedDispatchIdentity (fst (last calls))
       (fold (\<lambda>(callID, identity). armDispatchIdentity callID identity) calls [])) = Some (snd (last calls)))"
proof -
  have inv: "spawn_inv (fold spawn_step events [])" by (rule spawn.inv_run) (simp add: spawn_inv_def)
  let ?arm = "\<lambda>calls. fold (\<lambda>(callID, identity). armDispatchIdentity callID identity) calls []"
  have armed: "distinct (js_keys (?arm calls)) \<and> length (?arm calls) \<le> MAX_ARMED_DISPATCH_IDENTITIES"
    by (induction calls rule: rev_induct) (simp_all add: armed_bounded split: prod.split)
  have "fst (takeArmedDispatchIdentity (fst (last calls)) (?arm calls)) = Some (snd (last calls))" if "calls \<noteq> []"
    using that by (cases calls rule: rev_cases)
      (auto simp: takeArmedDispatchIdentity_def armDispatchIdentity_def js_get_set split: prod.split)
  then show ?thesis
    using inv armed by (simp add: spawn_inv_def MAX_TRACKED_SPAWN_CIRCUITS_def MAX_ARMED_DISPATCH_IDENTITIES_def)
qed

section \<open>An evaluated run\<close>

definition spawn_example :: spawn_action where
  "spawn_example = \<lparr>sa_session = ''s'', sa_invocation = ''1'', sa_digest = ''d''\<rparr>"

definition spawn_failures :: "spawn_event list" where
  "spawn_failures = [Dispatch_Failed spawn_example 2 10 0, Dispatch_Failed spawn_example 2 10 1, Dispatch_Asked spawn_example 2]"

definition spawn_failed_entry :: spawn_entry where
  "spawn_failed_entry =
     \<lparr>se_state = Spawn_Open, se_session = ''s'', se_invocation = ''1'', se_digest = ''d'', se_failureCount = 2, se_openedAt = 1,
      se_denyUntil = 11, se_denials = 1, se_updatedAt = 2\<rparr>"

lemma spawn_example_run:
  "fold spawn_step spawn_failures [] = [(entryKey spawn_example, spawn_failed_entry)]"
  "assertDispatchSpawnCircuitAdmits spawn_example 20 [(entryKey spawn_example, spawn_failed_entry)] =
     (True, [(entryKey spawn_example, spawn_failed_entry\<lparr>se_state := Spawn_Half_Open, se_updatedAt := 20\<rparr>)])"
  by code_simp+

theorem spawn_circuit_refines_spec_witness:
  "\<not> fst (assertDispatchSpawnCircuitAdmits spawn_example 5 (fold spawn_step spawn_failures []))"
proof -
  have "phase_of (getSpawnCircuitEntry spawn_example (fold spawn_step spawn_failures [])) = Phase_Open 11 True" by code_simp
  with spawn_circuit_refines_spec [OF refl, where events = spawn_failures and a = spawn_example and now = 5] show ?thesis by simp
qed

theorem spawn_single_probe_witness:
  "\<not> fst (assertDispatchSpawnCircuitAdmits spawn_example 1000 (fold spawn_step [Dispatch_Asked spawn_example 30]
      [(entryKey spawn_example, spawn_failed_entry\<lparr>se_state := Spawn_Half_Open, se_updatedAt := 20\<rparr>)]))"
proof -
  let ?m' = "[(entryKey spawn_example, spawn_failed_entry\<lparr>se_state := Spawn_Half_Open, se_updatedAt := 20\<rparr>)]"
  have e: "getSpawnCircuitEntry spawn_example [(entryKey spawn_example, spawn_failed_entry)] = Some spawn_failed_entry"
    "se_state spawn_failed_entry = Spawn_Open"
    by (simp_all add: getSpawnCircuitEntry_def spawn_failed_entry_def)
  have "getSpawnCircuitEntry spawn_example (fold spawn_step [Dispatch_Asked spawn_example 30] ?m') \<noteq> None"
    by (simp add: assertDispatchSpawnCircuitAdmits_def getSpawnCircuitEntry_def)
  from spawn_single_probe [OF spawn_example_run(1) [symmetric] e spawn_example_run(2) _ this] show ?thesis by simp
qed

theorem spawn_memory_bounded_witness:
  "fst (takeArmedDispatchIdentity ''c2'' (fold (\<lambda>(callID, identity). armDispatchIdentity callID identity)
     [(''c1'', (''d'', ''p'')), (''c2'', (''e'', ''q''))] [])) = Some (''e'', ''q'')"
  using spawn_memory_bounded [of "[]" "[(''c1'', (''d'', ''p'')), (''c2'', (''e'', ''q''))]"] by simp

end
