(* ===== verification/Review_Circuit.thy ===== *)
theory Review_Circuit
  imports Js_String "HOL-Library.Word"
begin

text \<open>
  \<^verbatim>\<open>src/pr-review/circuit.ts\<close>: the resilience circuit of the PR review, a pure state machine over typed signals.
  An ISO time in a record is the number \<open>Date.parse\<close> gives for it, \<open>None\<close> where it is not a time;
  a time the code writes with \<open>toISOString\<close> reads back as itself (the range of a \<open>Date\<close>, 8.64e15 milliseconds, is not modelled).
  \<open>lc\<close> is \<open>localeCompare\<close>.  The constraints of the zod schemas are predicates; the parser that reads
  a value into a record of their shape, or finds that it has neither shape, is third-party code.
\<close>

unbundle bit_operations_syntax

definition PR_REVIEW_CIRCUIT_CONTRIBUTOR_LIMIT :: nat where "PR_REVIEW_CIRCUIT_CONTRIBUTOR_LIMIT = 768"

section \<open>Signals\<close>

datatype ignored_reason =
    Observer_Deadline | Client_Unavailable | Parser_Failure | Validation | Policy | Filesystem | Git
  | Cancellation | Stale_Observation | Host_Abandonment | Operator_Abandonment | Unknown

record provider_signal =
  ps_providerClass :: string
  ps_batchId :: string
  ps_laneId :: string
  ps_terminalAtMs :: int

datatype circuit_signal = Provider_Terminal provider_signal | Ignored ignored_reason

datatype error_kind = Kind_Provider | Kind_Aborted | Kind_Output_Length | Kind_Other

text \<open>What the classification reads of a delegation record; \<open>dr_times\<close> are \<open>recordedAt\<close>, \<open>completedAt\<close>, \<open>updatedAt\<close>
  and \<open>createdAt\<close> where they are present.\<close>

record delegation_result =
  rs_outputRef :: "string option"
  rs_text :: "string option"
  rs_chars :: "int option"
  rs_errorClass :: "(error_kind \<times> string) option"
  rs_laneFailure :: "string option"

record delegation_record =
  dr_status :: string
  dr_result :: "delegation_result option"
  dr_terminalResult :: "delegation_result option"
  dr_batchId :: "string option"
  dr_laneId :: "string option"
  dr_times :: "int option list"

definition CIRCUIT_TERMINAL_DELEGATION_STATUSES :: "string list" where
  "CIRCUIT_TERMINAL_DELEGATION_STATUSES = [''completed'', ''error'', ''cancelled'', ''stale'']"

definition zeroOutputResult :: "delegation_result option \<Rightarrow> bool" where
  "zeroOutputResult result =
     (case result of
        None \<Rightarrow> True
      | Some r \<Rightarrow>
          js_trim (case rs_outputRef r of None \<Rightarrow> [] | Some s \<Rightarrow> s) = [] \<and>
          js_trim (case rs_text r of None \<Rightarrow> [] | Some s \<Rightarrow> s) = [] \<and>
          (case rs_chars r of None \<Rightarrow> 0 | Some n \<Rightarrow> n) = 0)"

definition first_time :: "int option list \<Rightarrow> int" where
  "first_time ts = (case List.find (\<lambda>t. t \<noteq> None) ts of Some (Some t) \<Rightarrow> t | _ \<Rightarrow> 0)"

definition classifyPrReviewCircuitSignal :: "delegation_record \<Rightarrow> circuit_signal option" where
  "classifyPrReviewCircuitSignal rec =
     (if dr_status rec \<notin> set CIRCUIT_TERMINAL_DELEGATION_STATUSES then None
      else
        let result = (case dr_terminalResult rec of Some r \<Rightarrow> Some r | None \<Rightarrow> dr_result rec);
            errorClass = (case result of None \<Rightarrow> None | Some r \<Rightarrow> rs_errorClass r);
            laneFailure = (case result of None \<Rightarrow> None | Some r \<Rightarrow> rs_laneFailure r);
            status = dr_status rec;
            plain =
              (if laneFailure = Some ''liveness'' then Some (Ignored Host_Abandonment)
               else if laneFailure = Some ''operator_cancelled'' then Some (Ignored Operator_Abandonment)
               else if status = ''error'' then Some (Ignored Unknown)
               else if status = ''stale'' then Some (Ignored Stale_Observation)
               else if status = ''cancelled'' then Some (Ignored Cancellation)
               else if status = ''completed'' then (if zeroOutputResult result then Some (Ignored Parser_Failure) else None)
               else None)
        in case errorClass of
             Some (kind, providerClass) \<Rightarrow>
               if providerClass = [] then plain
               else if status \<noteq> ''error'' then Some (Ignored Cancellation)
               else if kind = Kind_Provider then Some (Provider_Terminal
                 \<lparr>ps_providerClass = providerClass,
                  ps_batchId = (case dr_batchId rec of None \<Rightarrow> [] | Some b \<Rightarrow> b),
                  ps_laneId = (case dr_laneId rec of None \<Rightarrow> [] | Some l \<Rightarrow> l),
                  ps_terminalAtMs = first_time (dr_times rec)\<rparr>)
               else if kind = Kind_Aborted then Some (Ignored Cancellation)
               else if kind = Kind_Output_Length then Some (Ignored Validation)
               else Some (Ignored Unknown)
           | None \<Rightarrow> plain)"

section \<open>Evidence\<close>

text \<open>The key of a lane; the generation stands in front of every key alike.\<close>

definition lane_of :: "provider_signal \<Rightarrow> string" where
  "lane_of s = ps_batchId s @ [CHR 0x00] @ ps_laneId s"

text \<open>The newest signal of each lane after the waterline.\<close>

definition counts_as_evidence :: "int option \<Rightarrow> provider_signal \<Rightarrow> bool" where
  "counts_as_evidence waterline s =
     (\<not> (ps_terminalAtMs s \<le> 0 \<or> (case waterline of None \<Rightarrow> False | Some w \<Rightarrow> ps_terminalAtMs s \<le> w)))"

definition add_signal :: "int option \<Rightarrow> circuit_signal \<Rightarrow> (string, provider_signal) js_map \<Rightarrow> (string, provider_signal) js_map" where
  "add_signal waterline sig byKey =
     (case sig of
        Ignored _ \<Rightarrow> byKey
      | Provider_Terminal s \<Rightarrow>
          if \<not> counts_as_evidence waterline s then byKey
          else case js_get byKey (lane_of s) of
                 None \<Rightarrow> js_set (lane_of s) s byKey
               | Some prior \<Rightarrow> if ps_terminalAtMs prior < ps_terminalAtMs s then js_set (lane_of s) s byKey else byKey)"

definition signal_order :: "(string \<Rightarrow> string \<Rightarrow> int) \<Rightarrow> provider_signal \<Rightarrow> provider_signal \<Rightarrow> int" where
  "signal_order lc l r =
     cmp_or (ps_terminalAtMs r - ps_terminalAtMs l)
       (cmp_or (lc (ps_providerClass l) (ps_providerClass r))
         (cmp_or (lc (ps_batchId l) (ps_batchId r)) (lc (ps_laneId l) (ps_laneId r))))"

definition group_signal ::
  "provider_signal \<Rightarrow> (string, provider_signal list) js_map \<Rightarrow> (string, provider_signal list) js_map" where
  "group_signal s grouped =
     (let list = js_get_or grouped (ps_providerClass s) []
      in js_set (ps_providerClass s)
           (if length list < PR_REVIEW_CIRCUIT_CONTRIBUTOR_LIMIT then list @ [s] else list) grouped)"

definition scanPrReviewCircuitEvidence ::
  "(string \<Rightarrow> string \<Rightarrow> int) \<Rightarrow> circuit_signal list \<Rightarrow> int option \<Rightarrow> (string, provider_signal list) js_map" where
  "scanPrReviewCircuitEvidence lc signals waterline =
     (let byKey = fold (add_signal waterline) signals []
      in fold group_signal (js_sort (signal_order lc) (map snd byKey)) [])"

section \<open>The record\<close>

datatype circuit_state = Closed_State | Open_State | Half_Open_State

record contributor =
  co_batchId :: string
  co_laneId :: string
  co_terminalAt :: "int option"

record probe_record =
  pb_batchId :: string
  pb_laneId :: string
  pb_admittedAt :: "int option"

text \<open>An optional time: absent, or the result of parsing it.\<close>

record circuit_record =
  rc_state :: circuit_state
  rc_generation :: int
  rc_providerClass :: "string option"
  rc_contributors :: "contributor list"
  rc_openedAt :: "int option option"
  rc_openUntil :: "int option option"
  rc_evidenceWaterline :: "int option option"
  rc_probe :: "probe_record option"

record legacy_record =
  lr_signature :: string
  lr_count :: int
  lr_contributors :: "(string \<times> string) list"
  lr_openedAt :: string

text \<open>The strict schemas a persisted record is parsed with; every text of a time is present and not empty here.\<close>

definition PrReviewCircuitLegacyRecordSchema :: "legacy_record \<Rightarrow> bool" where
  "PrReviewCircuitLegacyRecordSchema r =
     (1 \<le> length (lr_signature r) \<and> length (lr_signature r) \<le> 512 \<and>
      2 \<le> lr_count r \<and> lr_count r \<le> int PR_REVIEW_CIRCUIT_CONTRIBUTOR_LIMIT \<and>
      list_all (\<lambda>(batchId, laneId). batchId \<noteq> [] \<and> laneId \<noteq> []) (lr_contributors r) \<and>
      2 \<le> length (lr_contributors r) \<and> length (lr_contributors r) \<le> PR_REVIEW_CIRCUIT_CONTRIBUTOR_LIMIT \<and>
      lr_openedAt r \<noteq> [])"

definition PrReviewCircuitRecordV2Schema :: "circuit_record \<Rightarrow> bool" where
  "PrReviewCircuitRecordV2Schema r =
     (1 \<le> rc_generation r \<and>
      (case rc_providerClass r of None \<Rightarrow> True | Some c \<Rightarrow> 1 \<le> length c \<and> length c \<le> 128) \<and>
      list_all (\<lambda>c. co_batchId c \<noteq> [] \<and> co_laneId c \<noteq> []) (rc_contributors r) \<and>
      length (rc_contributors r) \<le> PR_REVIEW_CIRCUIT_CONTRIBUTOR_LIMIT \<and>
      (case rc_probe r of None \<Rightarrow> True | Some p \<Rightarrow> pb_batchId p \<noteq> [] \<and> pb_laneId p \<noteq> []))"

definition iso :: "int \<Rightarrow> int option option" where
  "iso ms = Some (Some ms)"

definition freshRecord :: "int \<Rightarrow> bool \<Rightarrow> circuit_record" where
  "freshRecord nowMs withWaterline =
     \<lparr>rc_state = Closed_State, rc_generation = 1, rc_providerClass = None, rc_contributors = [], rc_openedAt = None,
      rc_openUntil = None, rc_evidenceWaterline = (if withWaterline then iso nowMs else None), rc_probe = None\<rparr>"

section \<open>Adoption\<close>

text \<open>A persisted value: absent, with the fields and types of one of the two record shapes, or of neither; with its JSON text.\<close>

datatype raw_circuit = Raw_Absent | Raw_V2 circuit_record string | Raw_Legacy legacy_record string | Raw_Other string

datatype adoption_diagnostic = Migrated_Legacy_Circuit nat | Malformed_Circuit_Dropped string nat

datatype circuit_adoption =
    Adopt_V2 circuit_record
  | Adopt_Absent
  | Adopt_Migrated circuit_record adoption_diagnostic
  | Adopt_Malformed adoption_diagnostic

text \<open>FNV-1a: \<open>h ^= c; h = Math.imul(h, 0x01000193)\<close>, 32 bits wide.\<close>

definition fnv_step :: "char \<Rightarrow> 32 word \<Rightarrow> 32 word" where
  "fnv_step c h = (h XOR of_nat (of_char c)) * 0x01000193"

definition fnv1a :: "string \<Rightarrow> 32 word" where
  "fnv1a body = fold fnv_step body 0x811c9dc5"

definition hex_nibble :: "nat \<Rightarrow> char" where
  "hex_nibble n = (if n < 10 then char_of (48 + n) else char_of (87 + n))"

text \<open>\<open>n.toString(16)\<close> and \<open>padStart(8, '0')\<close>\<close>

fun to_hex :: "nat \<Rightarrow> string" where
  "to_hex n = (if n < 16 then [hex_nibble n] else to_hex (n div 16) @ [hex_nibble (n mod 16)])"

definition pad8 :: "string \<Rightarrow> string" where
  "pad8 s = replicate (8 - length s) CHR ''0'' @ s"

definition body_hash :: "string \<Rightarrow> string" where
  "body_hash body = pad8 (to_hex (unat (fnv1a body)))"

definition malformed_circuit :: "string \<Rightarrow> circuit_adoption" where
  "malformed_circuit body = Adopt_Malformed (Malformed_Circuit_Dropped (body_hash body) (length body))"

definition adoptPrReviewCircuit :: "raw_circuit \<Rightarrow> int \<Rightarrow> circuit_adoption" where
  "adoptPrReviewCircuit raw nowMs =
     (case raw of
        Raw_Absent \<Rightarrow> Adopt_Absent
      | Raw_V2 record body \<Rightarrow> if PrReviewCircuitRecordV2Schema record then Adopt_V2 record else malformed_circuit body
      | Raw_Legacy legacy body \<Rightarrow>
          if PrReviewCircuitLegacyRecordSchema legacy
          then Adopt_Migrated (freshRecord nowMs True) (Migrated_Legacy_Circuit (length (lr_contributors legacy)))
          else malformed_circuit body
      | Raw_Other body \<Rightarrow> malformed_circuit body)"

section \<open>The state machine\<close>

record probe_observation =
  po_terminalStatus :: string
  po_signal :: "circuit_signal option"
  po_terminalAtMs :: int

record advance_input =
  ai_nowMs :: int
  ai_threshold :: int
  ai_openDurationMs :: int
  ai_admission :: "(string \<times> string) option"
  ai_laneSignals :: "circuit_signal list"
  ai_probeObservation :: "probe_observation option"

datatype block_cause = Circuit_Is_Open | Probe_In_Flight

text \<open>The decision, and the new record where it changed.\<close>

datatype circuit_action = Admit | Admit_As_Probe | Block block_cause

type_synonym advance_result = "circuit_action \<times> circuit_record option"

definition better_class ::
  "(string \<Rightarrow> string \<Rightarrow> int) \<Rightarrow> int \<Rightarrow> string \<times> provider_signal list \<Rightarrow> (string \<times> provider_signal list) option \<Rightarrow>
   (string \<times> provider_signal list) option" where
  "better_class lc threshold = (\<lambda>(providerClass, lanes) best.
     if int (length lanes) < threshold then best
     else case best of
            None \<Rightarrow> Some (providerClass, lanes)
          | Some (c, ls) \<Rightarrow>
              if length lanes > length ls \<or> (length lanes = length ls \<and> lc providerClass c < 0)
              then Some (providerClass, lanes) else best)"

definition opened_record :: "circuit_record \<Rightarrow> advance_input \<Rightarrow> string \<Rightarrow> provider_signal list \<Rightarrow> circuit_record" where
  "opened_record record inp providerClass lanes =
     record\<lparr>rc_state := Open_State, rc_providerClass := Some providerClass,
            rc_contributors := map (\<lambda>s. \<lparr>co_batchId = ps_batchId s, co_laneId = ps_laneId s, co_terminalAt = Some (ps_terminalAtMs s)\<rparr>) lanes,
            rc_openedAt := iso (ai_nowMs inp), rc_openUntil := iso (ai_nowMs inp + ai_openDurationMs inp)\<rparr>"

definition advance_closed :: "(string \<Rightarrow> string \<Rightarrow> int) \<Rightarrow> circuit_record \<Rightarrow> advance_input \<Rightarrow> advance_result" where
  "advance_closed lc record inp =
     (let evidence = scanPrReviewCircuitEvidence lc (ai_laneSignals inp)
            (case rc_evidenceWaterline record of None \<Rightarrow> None | Some t \<Rightarrow> t)
      in case fold (better_class lc (ai_threshold inp)) evidence None of
           None \<Rightarrow> (Admit, None)
         | Some (providerClass, lanes) \<Rightarrow> (Block Circuit_Is_Open, Some (opened_record record inp providerClass lanes)))"

text \<open>\<open>nowMs < Date.parse(openUntil)\<close> is false where the time does not parse.\<close>

definition still_open :: "circuit_record \<Rightarrow> int \<Rightarrow> bool" where
  "still_open record nowMs =
     (case rc_openUntil record of None \<Rightarrow> nowMs < 0 | Some None \<Rightarrow> False | Some (Some t) \<Rightarrow> nowMs < t)"

definition advance_open :: "circuit_record \<Rightarrow> advance_input \<Rightarrow> advance_result" where
  "advance_open record inp =
     (if still_open record (ai_nowMs inp) then (Block Circuit_Is_Open, None)
      else case ai_admission inp of
             None \<Rightarrow> (Block Circuit_Is_Open, None)
           | Some (batchId, laneId) \<Rightarrow>
               (Admit_As_Probe, Some (record\<lparr>rc_state := Half_Open_State,
                  rc_probe := Some \<lparr>pb_batchId = batchId, pb_laneId = laneId, pb_admittedAt = Some (ai_nowMs inp)\<rparr>\<rparr>)))"

text \<open>\<open>xs.slice(-n)\<close>\<close>

definition last_n :: "nat \<Rightarrow> 'a list \<Rightarrow> 'a list" where
  "last_n n xs = drop (length xs - n) xs"

definition cooled_record :: "circuit_record \<Rightarrow> int \<Rightarrow> circuit_record" where
  "cooled_record record until = record\<lparr>rc_state := Open_State, rc_openUntil := iso until, rc_probe := None\<rparr>"

definition reopened_record :: "circuit_record \<Rightarrow> advance_input \<Rightarrow> probe_record \<Rightarrow> provider_signal \<Rightarrow> circuit_record" where
  "reopened_record record inp probe sig =
     (let c = \<lparr>co_batchId = pb_batchId probe, co_laneId = pb_laneId probe, co_terminalAt = Some (ps_terminalAtMs sig)\<rparr>
      in (cooled_record record (ai_nowMs inp + ai_openDurationMs inp))
           \<lparr>rc_contributors := last_n PR_REVIEW_CIRCUIT_CONTRIBUTOR_LIMIT
              (filter (\<lambda>e. \<not> (co_batchId e = co_batchId c \<and> co_laneId e = co_laneId c)) (rc_contributors record) @ [c])\<rparr>)"

definition closed_record :: "circuit_record \<Rightarrow> int \<Rightarrow> circuit_record" where
  "closed_record record waterline =
     \<lparr>rc_state = Closed_State, rc_generation = rc_generation record + 1, rc_providerClass = None, rc_contributors = [],
      rc_openedAt = None, rc_openUntil = None, rc_evidenceWaterline = iso waterline, rc_probe = None\<rparr>"

definition advance_half_open :: "circuit_record \<Rightarrow> advance_input \<Rightarrow> advance_result" where
  "advance_half_open record inp =
     (case rc_probe record of
        None \<Rightarrow> (Block Probe_In_Flight, None)
      | Some probe \<Rightarrow>
          (case ai_probeObservation inp of
             None \<Rightarrow>
               (case ai_admission inp of
                  Some (batchId, _) \<Rightarrow> if batchId = pb_batchId probe then (Admit_As_Probe, None) else (Block Probe_In_Flight, None)
                | None \<Rightarrow> (Block Probe_In_Flight, None))
           | Some obs \<Rightarrow>
               (case po_signal obs of
                  Some (Provider_Terminal sig) \<Rightarrow> (Block Circuit_Is_Open, Some (reopened_record record inp probe sig))
                | _ \<Rightarrow>
                    if po_terminalStatus obs = ''completed'' \<and> po_signal obs = None
                    then (Admit, Some (closed_record record (if po_terminalAtMs obs = 0 then ai_nowMs inp else po_terminalAtMs obs)))
                    else (Block Circuit_Is_Open, Some (cooled_record record (ai_nowMs inp + ai_openDurationMs inp))))))"

definition advancePrReviewCircuit ::
  "(string \<Rightarrow> string \<Rightarrow> int) \<Rightarrow> circuit_record option \<Rightarrow> advance_input \<Rightarrow> advance_result" where
  "advancePrReviewCircuit lc current inp =
     (let record = (case current of None \<Rightarrow> freshRecord (ai_nowMs inp) False | Some r \<Rightarrow> r)
      in case rc_state record of
           Closed_State \<Rightarrow> advance_closed lc record inp
         | Open_State \<Rightarrow> advance_open record inp
         | Half_Open_State \<Rightarrow> advance_half_open record inp)"

section \<open>The transitions outside the machine\<close>

record resilience_policy =
  rp_enabled :: bool
  rp_canaryProbeMs :: int
  rp_statusProbeTimeoutMs :: int
  rp_correlatedFailureThreshold :: int
  rp_maxRetryAttemptsAfterInitial :: int
  rp_circuitOpenDurationMs :: "int option"

record resilience_config =
  rg_enabled :: "bool option"
  rg_canary_probe_ms :: "int option"
  rg_status_probe_timeout_ms :: "int option"
  rg_correlated_failure_threshold :: "int option"
  rg_max_retry_attempts_after_initial :: "int option"
  rg_circuit_open_duration_ms :: "int option"

text \<open>The defaults of \<^verbatim>\<open>src/config/schema.ts\<close>.\<close>

definition DEFAULT_PR_REVIEW_RESILIENCE_CONFIG :: resilience_policy where
  "DEFAULT_PR_REVIEW_RESILIENCE_CONFIG =
     \<lparr>rp_enabled = False, rp_canaryProbeMs = 300000, rp_statusProbeTimeoutMs = 2000, rp_correlatedFailureThreshold = 2,
      rp_maxRetryAttemptsAfterInitial = 2, rp_circuitOpenDurationMs = Some 60000\<rparr>"

definition config_or :: "resilience_config option \<Rightarrow> (resilience_config \<Rightarrow> 'a option) \<Rightarrow> 'a \<Rightarrow> 'a" where
  "config_or policy f d = option_or (Option.bind policy f) d"

definition resolvePrReviewResiliencePolicy :: "resilience_config option \<Rightarrow> resilience_policy" where
  "resolvePrReviewResiliencePolicy policy =
     (let defaults = DEFAULT_PR_REVIEW_RESILIENCE_CONFIG
      in \<lparr>rp_enabled = config_or policy rg_enabled (rp_enabled defaults),
          rp_canaryProbeMs = config_or policy rg_canary_probe_ms (rp_canaryProbeMs defaults),
          rp_statusProbeTimeoutMs = config_or policy rg_status_probe_timeout_ms (rp_statusProbeTimeoutMs defaults),
          rp_correlatedFailureThreshold = config_or policy rg_correlated_failure_threshold (rp_correlatedFailureThreshold defaults),
          rp_maxRetryAttemptsAfterInitial =
            config_or policy rg_max_retry_attempts_after_initial (rp_maxRetryAttemptsAfterInitial defaults),
          rp_circuitOpenDurationMs =
            config_or policy (map_option Some \<circ> rg_circuit_open_duration_ms) (rp_circuitOpenDurationMs defaults)\<rparr>)"

definition resetPrReviewResilienceForReEnable :: "circuit_record option \<Rightarrow> int \<Rightarrow> circuit_record" where
  "resetPrReviewResilienceForReEnable previous nowMs =
     (freshRecord nowMs True)\<lparr>rc_generation := (case previous of None \<Rightarrow> 1 | Some r \<Rightarrow> rc_generation r) + 1\<rparr>"

definition rollbackPrReviewCircuitProbe :: "circuit_record \<Rightarrow> int \<Rightarrow> int \<Rightarrow> circuit_record" where
  "rollbackPrReviewCircuitProbe circuit nowMs openDurationMs =
     (if rc_state circuit \<noteq> Half_Open_State \<or> rc_probe circuit = None then circuit
      else cooled_record circuit (nowMs + openDurationMs))"

section \<open>Runs\<close>

datatype review_event =
    Review_Advance advance_input
  | Review_Rollback int int
  | Review_Reset int

definition review_step ::
  "(string \<Rightarrow> string \<Rightarrow> int) \<Rightarrow> review_event \<Rightarrow> circuit_record option \<Rightarrow> circuit_record option" where
  "review_step lc ev current =
     (case ev of
        Review_Advance inp \<Rightarrow>
          (case snd (advancePrReviewCircuit lc current inp) of None \<Rightarrow> current | Some r \<Rightarrow> Some r)
      | Review_Rollback nowMs openDurationMs \<Rightarrow>
          map_option (\<lambda>r. rollbackPrReviewCircuitProbe r nowMs openDurationMs) current
      | Review_Reset nowMs \<Rightarrow> Some (resetPrReviewResilienceForReEnable current nowMs))"

end
