(* ===== verification/Review_Circuit_Facts.thy ===== *)
theory Review_Circuit_Facts
  imports Review_Circuit Transition
begin

text \<open>
  The PR-review circuit: when it opens, stated over the newest evidence of every lane (\<open>newest\<close>,
  \<open>failing_lanes\<close>); what no signal can do; the invariant and the schema of every record it writes; recovery.
\<close>

section \<open>The newest evidence of a lane\<close>

definition provider_signals :: "circuit_signal list \<Rightarrow> provider_signal list" where
  "provider_signals sigs = List.map_filter (\<lambda>s. case s of Provider_Terminal p \<Rightarrow> Some p | Ignored _ \<Rightarrow> None) sigs"

definition evidence :: "int option \<Rightarrow> circuit_signal list \<Rightarrow> provider_signal list" where
  "evidence w sigs = filter (counts_as_evidence w) (provider_signals sigs)"

definition newest :: "provider_signal list \<Rightarrow> provider_signal option" where
  "newest ss = List.find (\<lambda>s. \<forall>t \<in> set ss. ps_terminalAtMs t \<le> ps_terminalAtMs s) ss"

definition lane_newest :: "int option \<Rightarrow> circuit_signal list \<Rightarrow> string \<Rightarrow> provider_signal option" where
  "lane_newest w sigs k = newest (filter (\<lambda>s. lane_of s = k) (evidence w sigs))"

definition failing_lanes :: "int option \<Rightarrow> circuit_signal list \<Rightarrow> string \<Rightarrow> string list" where
  "failing_lanes w sigs c =
     filter (\<lambda>k. case lane_newest w sigs k of None \<Rightarrow> False | Some s \<Rightarrow> ps_providerClass s = c)
       (js_uniq (map lane_of (provider_signals sigs)))"

lemma provider_signals_simps:
  "provider_signals [] = []"
  "provider_signals (sigs @ [Provider_Terminal s]) = provider_signals sigs @ [s]"
  "provider_signals (sigs @ [Ignored r]) = provider_signals sigs"
  by (simp_all add: provider_signals_def map_filter_def)

lemma newest_append:
  "newest (xs @ [s]) =
     (case newest xs of None \<Rightarrow> Some s | Some p \<Rightarrow> if ps_terminalAtMs p < ps_terminalAtMs s then Some s else Some p)"
proof (cases "newest xs")
  case None
  have "xs = []"
  proof (rule ccontr)
    assume "xs \<noteq> []"
    then have "Max (ps_terminalAtMs ` set xs) \<in> ps_terminalAtMs ` set xs" by simp
    then obtain s where "s \<in> set xs" "ps_terminalAtMs s = Max (ps_terminalAtMs ` set xs)" by fastforce
    with None show False by (auto simp: newest_def find_None_iff)
  qed
  then show ?thesis using None by (simp add: newest_def)
next
  case (Some p)
  then have p: "p \<in> set xs" "\<forall>t \<in> set xs. ps_terminalAtMs t \<le> ps_terminalAtMs p"
    by (auto simp: newest_def find_Some_iff)
  show ?thesis
  proof (cases "ps_terminalAtMs p < ps_terminalAtMs s")
    case True
    then have "List.find (\<lambda>x. \<forall>t \<in> set (xs @ [s]). ps_terminalAtMs t \<le> ps_terminalAtMs x) xs = None"
      using p by (force simp: find_None_iff)
    moreover have "\<forall>t \<in> set (xs @ [s]). ps_terminalAtMs t \<le> ps_terminalAtMs s" using True p by force
    ultimately show ?thesis using Some True unfolding newest_def find_append by simp
  next
    case False
    then have "List.find (\<lambda>x. \<forall>t \<in> set (xs @ [s]). ps_terminalAtMs t \<le> ps_terminalAtMs x) xs =
      List.find (\<lambda>x. \<forall>t \<in> set xs. ps_terminalAtMs t \<le> ps_terminalAtMs x) xs"
      using p by (intro find_cong_set) force
    then show ?thesis using Some False unfolding newest_def find_append by simp
  qed
qed

lemma newest_member: "newest xs = Some s \<Longrightarrow> s \<in> set xs"
  by (auto simp: newest_def find_Some_iff)

section \<open>The scan\<close>

abbreviation scanned :: "int option \<Rightarrow> circuit_signal list \<Rightarrow> (string, provider_signal) js_map" where
  "scanned w sigs \<equiv> fold (add_signal w) sigs []"

lemma scanned_get: "js_get (scanned w sigs) k = lane_newest w sigs k"
proof (induction sigs rule: rev_induct)
  case Nil
  then show ?case by (simp add: lane_newest_def evidence_def provider_signals_simps newest_def)
next
  case (snoc sig sigs)
  show ?case
  proof (cases sig)
    case (Ignored r)
    then show ?thesis using snoc by (simp add: add_signal_def lane_newest_def evidence_def provider_signals_simps)
  next
    case (Provider_Terminal s)
    show ?thesis
    proof (cases "counts_as_evidence w s \<and> lane_of s = k")
      case True
      then have "lane_newest w (sigs @ [sig]) k = newest (filter (\<lambda>s. lane_of s = k) (evidence w sigs) @ [s])"
        by (simp add: Provider_Terminal lane_newest_def evidence_def provider_signals_simps)
      then show ?thesis
        using True snoc unfolding newest_append lane_newest_def [symmetric]
        by (auto simp: Provider_Terminal add_signal_def js_map_simps split: option.split)
    next
      case False
      then have "lane_newest w (sigs @ [sig]) k = lane_newest w sigs k"
        by (auto simp: Provider_Terminal lane_newest_def evidence_def provider_signals_simps)
      then show ?thesis
        using False snoc by (auto simp: Provider_Terminal add_signal_def js_map_simps split: option.split)
    qed
  qed
qed

lemma scanned_distinct: "distinct (js_keys (scanned w sigs))"
  by (induction sigs rule: rev_induct)
    (auto simp: add_signal_def js_map_simps split: circuit_signal.split option.split)

lemma lane_newest_facts:
  assumes "lane_newest w sigs k = Some s"
  shows "lane_of s = k" "Provider_Terminal s \<in> set sigs" "counts_as_evidence w s"
proof -
  have s: "s \<in> set (provider_signals sigs)" "lane_of s = k" "counts_as_evidence w s"
    using newest_member [of _ s] assms by (auto simp: lane_newest_def evidence_def dest!: newest_member)
  then show "lane_of s = k" "counts_as_evidence w s" by simp_all
  show "Provider_Terminal s \<in> set sigs"
    using s(1) by (auto simp: provider_signals_def map_filter_def split: circuit_signal.splits)
qed

lemma scanned_set: "(k, s) \<in> set (scanned w sigs) \<longleftrightarrow> lane_newest w sigs k = Some s"
  using scanned_get [of w sigs k] map_of_eq_Some_iff [OF scanned_distinct] by metis

lemma scanned_lanes: "map lane_of (map snd (scanned w sigs)) = js_keys (scanned w sigs)"
  using lane_newest_facts(1) scanned_set by (force intro: map_cong)


text \<open>The newest evidence in the order of the scan, and its share of one class.\<close>

definition ordered_evidence :: "(string \<Rightarrow> string \<Rightarrow> int) \<Rightarrow> int option \<Rightarrow> circuit_signal list \<Rightarrow> provider_signal list" where
  "ordered_evidence lc w sigs = js_sort (signal_order lc) (map snd (scanned w sigs))"

definition class_evidence ::
  "(string \<Rightarrow> string \<Rightarrow> int) \<Rightarrow> int option \<Rightarrow> circuit_signal list \<Rightarrow> string \<Rightarrow> provider_signal list" where
  "class_evidence lc w sigs c = filter (\<lambda>s. ps_providerClass s = c) (ordered_evidence lc w sigs)"

lemma class_evidence_lanes:
  "distinct (map lane_of (class_evidence lc w sigs c))"
  "set (map lane_of (class_evidence lc w sigs c)) = set (failing_lanes w sigs c)"
  "length (class_evidence lc w sigs c) = length (failing_lanes w sigs c)"
proof -
  have "distinct (map lane_of (ordered_evidence lc w sigs))"
    unfolding ordered_evidence_def
    by (metis mset_eq_imp_distinct_iff mset_js_sort mset_map scanned_distinct scanned_lanes)
  then show d: "distinct (map lane_of (class_evidence lc w sigs c))"
    by (simp add: class_evidence_def distinct_map_filter)
  show s: "set (map lane_of (class_evidence lc w sigs c)) = set (failing_lanes w sigs c)"
  proof (rule set_eqI)
    fix k
    have "k \<in> set (map lane_of (class_evidence lc w sigs c)) \<longleftrightarrow> (\<exists>s. lane_newest w sigs k = Some s \<and> ps_providerClass s = c)"
      using lane_newest_facts(1)
      by (force simp: class_evidence_def ordered_evidence_def image_iff scanned_set Bex_def)
    moreover have "k \<in> lane_of ` set (provider_signals sigs)" if "lane_newest w sigs k = Some s" for s
      using that by (auto simp: lane_newest_def evidence_def dest!: newest_member)
    ultimately show "k \<in> set (map lane_of (class_evidence lc w sigs c)) \<longleftrightarrow> k \<in> set (failing_lanes w sigs c)"
      by (auto simp: failing_lanes_def split: option.splits)
  qed
  have "distinct (failing_lanes w sigs c)" by (simp add: failing_lanes_def)
  with d s show "length (class_evidence lc w sigs c) = length (failing_lanes w sigs c)"
    by (metis distinct_card length_map)
qed

lemma class_evidence_facts:
  assumes "s \<in> set (class_evidence lc w sigs c)"
  shows "ps_providerClass s = c" "Provider_Terminal s \<in> set sigs" "counts_as_evidence w s"
  using assms lane_newest_facts [of w sigs "lane_of s" s]
  by (auto simp: class_evidence_def ordered_evidence_def scanned_set dest: lane_newest_facts)

lemma grouped_get:
  "js_get (fold group_signal xs []) c =
     (let ys = filter (\<lambda>s. ps_providerClass s = c) xs
      in if ys = [] then None else Some (take PR_REVIEW_CIRCUIT_CONTRIBUTOR_LIMIT ys))"
proof (induction xs rule: rev_induct)
  case Nil
  then show ?case by simp
next
  case (snoc s xs)
  then show ?case
    by (auto simp: group_signal_def js_map_simps js_get_or_def Let_def split: if_splits)
qed

lemma grouped_distinct: "distinct (js_keys (fold group_signal xs []))"
  by (induction xs rule: rev_induct) (auto simp: group_signal_def js_map_simps Let_def)

lemma scan_entries:
  "(c, ls) \<in> set (scanPrReviewCircuitEvidence lc sigs w) \<longleftrightarrow>
     class_evidence lc w sigs c \<noteq> [] \<and> ls = take PR_REVIEW_CIRCUIT_CONTRIBUTOR_LIMIT (class_evidence lc w sigs c)"
proof -
  have "(c, ls) \<in> set (scanPrReviewCircuitEvidence lc sigs w) \<longleftrightarrow> js_get (scanPrReviewCircuitEvidence lc sigs w) c = Some ls"
    using map_of_eq_Some_iff [OF grouped_distinct] by (metis scanPrReviewCircuitEvidence_def)
  then show ?thesis
    unfolding scanPrReviewCircuitEvidence_def Let_def grouped_get
    by (auto simp: class_evidence_def ordered_evidence_def)
qed

section \<open>The choice of the class\<close>

abbreviation picked ::
  "(string \<Rightarrow> string \<Rightarrow> int) \<Rightarrow> int \<Rightarrow> (string \<times> provider_signal list) list \<Rightarrow> (string \<times> provider_signal list) option" where
  "picked lc threshold evs \<equiv> fold (better_class lc threshold) evs None"

lemma picked_snoc:
  "picked lc threshold (evs @ [(d, ms)]) =
     (if int (length ms) < threshold then picked lc threshold evs
      else case picked lc threshold evs of
             None \<Rightarrow> Some (d, ms)
           | Some (c, ls) \<Rightarrow>
               if length ms > length ls \<or> (length ms = length ls \<and> lc d c < 0) then Some (d, ms) else Some (c, ls))"
  by (auto simp: better_class_def split: option.split)

lemma picked_None: "picked lc threshold evs = None \<longleftrightarrow> (\<forall>(c, ls) \<in> set evs. int (length ls) < threshold)"
proof (induction evs rule: rev_induct)
  case Nil
  then show ?case by simp
next
  case (snoc e evs)
  obtain d ms where e: "e = (d, ms)" by (cases e)
  show ?case using snoc.IH unfolding e picked_snoc by (auto split: option.split)
qed

lemma picked_Some:
  "picked lc threshold evs = Some (c, ls) \<Longrightarrow>
     (c, ls) \<in> set evs \<and> threshold \<le> int (length ls) \<and> (\<forall>(c', ls') \<in> set evs. length ls' \<le> length ls)"
proof (induction evs arbitrary: c ls rule: rev_induct)
  case Nil
  then show ?case by simp
next
  case (snoc e evs)
  obtain d ms where e: "e = (d, ms)" by (cases e)
  show ?case
  proof (cases "picked lc threshold evs")
    case None
    then have "\<forall>(c, ls) \<in> set evs. int (length ls) < threshold" by (simp only: picked_None)
    moreover have "\<not> int (length ms) < threshold" "c = d" "ls = ms"
      using snoc.prems unfolding e picked_snoc None by (simp_all split: if_splits)
    ultimately show ?thesis using e by fastforce
  next
    case (Some b)
    obtain d0 ms0 where b: "b = (d0, ms0)" by (cases b)
    have ih: "(d0, ms0) \<in> set evs" "threshold \<le> int (length ms0)" "\<forall>(c', ls') \<in> set evs. length ls' \<le> length ms0"
      using snoc.IH [of d0 ms0] Some b by simp_all
    have "(c, ls) = (d0, ms0) \<and> length ms \<le> length ms0 \<or> (c, ls) = (d, ms) \<and> threshold \<le> int (length ms) \<and> length ms0 \<le> length ms"
      using snoc.prems ih(2) unfolding e picked_snoc Some b by (auto split: if_splits)
    then show ?thesis using ih e by fastforce
  qed
qed

section \<open>Opening\<close>

definition waterline :: "circuit_record \<Rightarrow> int option" where
  "waterline r = (case rc_evidenceWaterline r of None \<Rightarrow> None | Some t \<Rightarrow> t)"

definition contributor_lane :: "contributor \<Rightarrow> string" where
  "contributor_lane c = co_batchId c @ [CHR 0x00] @ co_laneId c"

text \<open>The lanes of a class the circuit can count: all of them up to the bound of the ledger.\<close>

definition counted :: "int option \<Rightarrow> circuit_signal list \<Rightarrow> string \<Rightarrow> nat" where
  "counted w sigs c = min PR_REVIEW_CIRCUIT_CONTRIBUTOR_LIMIT (length (failing_lanes w sigs c))"

lemma advance_closed_admits:
  "advance_closed lc r inp = (Admit, None) \<longleftrightarrow>
     (\<forall>c. failing_lanes (waterline r) (ai_laneSignals inp) c = [] \<or>
          int (counted (waterline r) (ai_laneSignals inp) c) < ai_threshold inp)"
proof -
  let ?evs = "scanPrReviewCircuitEvidence lc (ai_laneSignals inp) (waterline r)"
  have "advance_closed lc r inp = (Admit, None) \<longleftrightarrow> fold (better_class lc (ai_threshold inp)) ?evs None = None"
    by (auto simp: advance_closed_def waterline_def Let_def split: option.split)
  also have "\<dots> \<longleftrightarrow> (\<forall>(c, ls) \<in> set ?evs. int (length ls) < ai_threshold inp)" by (rule picked_None)
  also have "\<dots> \<longleftrightarrow> (\<forall>c. class_evidence lc (waterline r) (ai_laneSignals inp) c \<noteq> [] \<longrightarrow>
      int (length (take PR_REVIEW_CIRCUIT_CONTRIBUTOR_LIMIT (class_evidence lc (waterline r) (ai_laneSignals inp) c))) < ai_threshold inp)"
    by (force simp: scan_entries)
  also have "\<dots> \<longleftrightarrow> (\<forall>c. failing_lanes (waterline r) (ai_laneSignals inp) c = [] \<or>
      int (counted (waterline r) (ai_laneSignals inp) c) < ai_threshold inp)"
    by (metis (no_types, opaque_lifting) class_evidence_lanes(3) counted_def length_0_conv length_take min.commute)
  finally show ?thesis .
qed

lemma advance_closed_opens:
  assumes "advance_closed lc r inp = (action, Some r')"
  obtains c where "action = Block Circuit_Is_Open" "failing_lanes (waterline r) (ai_laneSignals inp) c \<noteq> []"
    "ai_threshold inp \<le> int (counted (waterline r) (ai_laneSignals inp) c)"
    "r' = opened_record r inp c (take PR_REVIEW_CIRCUIT_CONTRIBUTOR_LIMIT (class_evidence lc (waterline r) (ai_laneSignals inp) c))"
proof -
  let ?evs = "scanPrReviewCircuitEvidence lc (ai_laneSignals inp) (waterline r)"
  obtain c ls where best: "fold (better_class lc (ai_threshold inp)) ?evs None = Some (c, ls)"
    and r: "action = Block Circuit_Is_Open" "r' = opened_record r inp c ls"
    using assms by (auto simp: advance_closed_def waterline_def Let_def split: option.splits)
  have "(c, ls) \<in> set ?evs \<and> ai_threshold inp \<le> int (length ls)" using picked_Some [OF best] by simp
  then have all: "class_evidence lc (waterline r) (ai_laneSignals inp) c \<noteq> [] \<and>
      ls = take PR_REVIEW_CIRCUIT_CONTRIBUTOR_LIMIT (class_evidence lc (waterline r) (ai_laneSignals inp) c) \<and>
      ai_threshold inp \<le> int (length ls)"
    unfolding scan_entries by blast
  note ls = all [THEN conjunct1] all [THEN conjunct2, THEN conjunct1] all [THEN conjunct2, THEN conjunct2]
  show thesis
  proof (rule that [of c])
    show "failing_lanes (waterline r) (ai_laneSignals inp) c \<noteq> []" using ls(1) class_evidence_lanes(3) by (metis length_0_conv)
    show "ai_threshold inp \<le> int (counted (waterline r) (ai_laneSignals inp) c)"
      using ls(3) unfolding ls(2) by (simp add: counted_def class_evidence_lanes(3) min.commute)
  qed (use r ls(2) in simp_all)
qed

lemma contributor_lanes_opened:
  "map contributor_lane (rc_contributors (opened_record r inp c ls)) = map lane_of ls"
  by (simp add: opened_record_def contributor_lane_def lane_of_def)

text \<open>C11: When the closed circuit opens: exactly when some provider class is the class of the newest evidence (after the
  waterline) of at least \<open>threshold\<close> distinct lanes, at most 768 counted, and at least one.  Then it blocks, names such a
  class, and lists as contributors exactly the counted number of distinct lanes, each of them failing with that class.\<close>

theorem circuit_opens_iff_correlated:
  assumes "rc_state r = Closed_State"
  shows "(advancePrReviewCircuit lc (Some r) inp = (Admit, None) \<longleftrightarrow>
      (\<forall>c. failing_lanes (waterline r) (ai_laneSignals inp) c = [] \<or>
           int (counted (waterline r) (ai_laneSignals inp) c) < ai_threshold inp)) \<and>
    (\<forall>action r'. advancePrReviewCircuit lc (Some r) inp = (action, Some r') \<longrightarrow>
      action = Block Circuit_Is_Open \<and> rc_state r' = Open_State \<and> rc_openUntil r' = iso (ai_nowMs inp + ai_openDurationMs inp) \<and>
      (\<exists>c. rc_providerClass r' = Some c \<and> ai_threshold inp \<le> int (length (rc_contributors r')) \<and>
        length (rc_contributors r') = counted (waterline r) (ai_laneSignals inp) c \<and>
        distinct (map contributor_lane (rc_contributors r')) \<and>
        set (map contributor_lane (rc_contributors r')) \<subseteq> set (failing_lanes (waterline r) (ai_laneSignals inp) c)))"
proof -
  have adv: "advancePrReviewCircuit lc (Some r) inp = advance_closed lc r inp"
    using assms by (simp add: advancePrReviewCircuit_def Let_def)
  have "action = Block Circuit_Is_Open \<and> rc_state r' = Open_State \<and> rc_openUntil r' = iso (ai_nowMs inp + ai_openDurationMs inp) \<and>
      (\<exists>c. rc_providerClass r' = Some c \<and> ai_threshold inp \<le> int (length (rc_contributors r')) \<and>
        length (rc_contributors r') = counted (waterline r) (ai_laneSignals inp) c \<and>
        distinct (map contributor_lane (rc_contributors r')) \<and>
        set (map contributor_lane (rc_contributors r')) \<subseteq> set (failing_lanes (waterline r) (ai_laneSignals inp) c))"
    if "advance_closed lc r inp = (action, Some r')" for action r'
  proof -
    from that obtain c where c: "action = Block Circuit_Is_Open"
      "ai_threshold inp \<le> int (counted (waterline r) (ai_laneSignals inp) c)"
      "r' = opened_record r inp c (take PR_REVIEW_CIRCUIT_CONTRIBUTOR_LIMIT (class_evidence lc (waterline r) (ai_laneSignals inp) c))"
      by (rule advance_closed_opens)
    let ?ls = "take PR_REVIEW_CIRCUIT_CONTRIBUTOR_LIMIT (class_evidence lc (waterline r) (ai_laneSignals inp) c)"
    have len: "length (rc_contributors r') = counted (waterline r) (ai_laneSignals inp) c"
      by (simp add: c(3) opened_record_def counted_def class_evidence_lanes(3) min.commute)
    have lanes: "map contributor_lane (rc_contributors r') = map lane_of ?ls"
      unfolding c(3) by (rule contributor_lanes_opened)
    have "distinct (map lane_of ?ls)" using class_evidence_lanes(1) by (metis distinct_take take_map)
    moreover have "set (map lane_of ?ls) \<subseteq> set (failing_lanes (waterline r) (ai_laneSignals inp) c)"
      using class_evidence_lanes(2) [of lc "waterline r" "ai_laneSignals inp" c] by (auto dest: in_set_takeD)
    moreover have "rc_state r' = Open_State" "rc_openUntil r' = iso (ai_nowMs inp + ai_openDurationMs inp)"
      "rc_providerClass r' = Some c"
      by (simp_all add: c(3) opened_record_def)
    ultimately show ?thesis using c(1,2) unfolding lanes len by blast
  qed
  then show ?thesis unfolding adv using advance_closed_admits by blast
qed


section \<open>What no signal can do\<close>

definition relevant_signal :: "int option \<Rightarrow> circuit_signal \<Rightarrow> bool" where
  "relevant_signal w sig = (case sig of Provider_Terminal s \<Rightarrow> counts_as_evidence w s | Ignored _ \<Rightarrow> False)"

lemma scanned_relevant: "fold (add_signal w) (filter (relevant_signal w) sigs) m = fold (add_signal w) sigs m"
  by (induction sigs arbitrary: m) (auto simp: relevant_signal_def add_signal_def split: circuit_signal.splits)

lemma scan_relevant:
  "scanPrReviewCircuitEvidence lc (filter (relevant_signal w) sigs) w = scanPrReviewCircuitEvidence lc sigs w"
  by (simp add: scanPrReviewCircuitEvidence_def scanned_relevant)

definition current_waterline :: "circuit_record option \<Rightarrow> int option" where
  "current_waterline current = (case current of None \<Rightarrow> None | Some r \<Rightarrow> waterline r)"

lemma advance_simps:
  "advancePrReviewCircuit lc None inp = advance_closed lc (freshRecord (ai_nowMs inp) False) inp"
  "rc_state r = Closed_State \<Longrightarrow> advancePrReviewCircuit lc (Some r) inp = advance_closed lc r inp"
  "rc_state r = Open_State \<Longrightarrow> advancePrReviewCircuit lc (Some r) inp = advance_open r inp"
  "rc_state r = Half_Open_State \<Longrightarrow> advancePrReviewCircuit lc (Some r) inp = advance_half_open r inp"
  by (simp_all add: advancePrReviewCircuit_def freshRecord_def)

text \<open>Only provider terminations after the waterline are evidence: removing from the lane signals every ignored kind
  (timeouts of the observer, cancellations, parse failures, abandonment and so on), every signal without a time and
  every signal at or before the waterline changes neither the decision nor the record, in any state.\<close>

theorem ignored_signals_never_matter:
  "advancePrReviewCircuit lc current (inp\<lparr>ai_laneSignals := filter (relevant_signal (current_waterline current)) (ai_laneSignals inp)\<rparr>) =
   advancePrReviewCircuit lc current inp"
proof -
  have closed: "advance_closed lc r (inp\<lparr>ai_laneSignals := filter (relevant_signal (waterline r)) (ai_laneSignals inp)\<rparr>) =
      advance_closed lc r inp" for r
  proof -
    have "(case rc_evidenceWaterline r of None \<Rightarrow> None | Some t \<Rightarrow> t) = waterline r" by (simp add: waterline_def)
    then show ?thesis by (simp add: advance_closed_def scan_relevant opened_record_def split: option.split)
  qed
  show ?thesis
  proof (cases current)
    case None
    then show ?thesis
      using closed [of "freshRecord (ai_nowMs inp) False"]
      by (simp add: advance_simps(1) current_waterline_def waterline_def freshRecord_def)
  next
    case (Some r)
    show ?thesis
    proof (cases "rc_state r")
      case Closed_State
      then show ?thesis using Some closed by (simp add: advance_simps(2) current_waterline_def)
    next
      case Open_State
      then show ?thesis using Some by (simp add: advance_simps(3) advance_open_def split: option.split)
    next
      case Half_Open_State
      then show ?thesis
        using Some
        by (simp add: advance_simps(4) advance_half_open_def reopened_record_def split: option.split circuit_signal.split)
    qed
  qed
qed

section \<open>The records it writes\<close>

definition named_lane :: "string \<Rightarrow> string \<Rightarrow> bool" where
  "named_lane batchId laneId = (batchId \<noteq> [] \<and> laneId \<noteq> [])"

fun named_signal :: "circuit_signal \<Rightarrow> bool" where
  "named_signal (Provider_Terminal s) =
     (named_lane (ps_batchId s) (ps_laneId s) \<and> 1 \<le> length (ps_providerClass s) \<and> length (ps_providerClass s) \<le> 128)"
| "named_signal (Ignored _) = True"

fun named_event :: "review_event \<Rightarrow> bool" where
  "named_event (Review_Advance inp) =
     (list_all named_signal (ai_laneSignals inp) \<and>
      (case ai_admission inp of None \<Rightarrow> True | Some (batchId, laneId) \<Rightarrow> named_lane batchId laneId))"
| "named_event _ = True"

definition circuit_shape :: "circuit_record \<Rightarrow> bool" where
  "circuit_shape r =
     ((rc_state r = Half_Open_State \<longleftrightarrow> rc_probe r \<noteq> None) \<and>
      (rc_state r = Closed_State \<longleftrightarrow> rc_contributors r = []) \<and>
      (rc_state r = Closed_State \<longleftrightarrow> rc_providerClass r = None))"

definition review_inv :: "circuit_record option \<Rightarrow> bool" where
  "review_inv current = (case current of None \<Rightarrow> True | Some r \<Rightarrow> PrReviewCircuitRecordV2Schema r \<and> circuit_shape r)"

lemma fresh_inv: "review_inv (Some (freshRecord t b))"
  by (simp add: review_inv_def freshRecord_def PrReviewCircuitRecordV2Schema_def circuit_shape_def)

lemma opened_inv:
  assumes "review_inv (Some r)" "rc_state r = Closed_State" "list_all named_signal (ai_laneSignals inp)"
    and "advance_closed lc r inp = (action, Some r')"
  shows "review_inv (Some r')"
proof -
  from assms(4) obtain c where c: "failing_lanes (waterline r) (ai_laneSignals inp) c \<noteq> []"
    "r' = opened_record r inp c (take PR_REVIEW_CIRCUIT_CONTRIBUTOR_LIMIT (class_evidence lc (waterline r) (ai_laneSignals inp) c))"
    by (rule advance_closed_opens)
  let ?ls = "take PR_REVIEW_CIRCUIT_CONTRIBUTOR_LIMIT (class_evidence lc (waterline r) (ai_laneSignals inp) c)"
  have ne: "class_evidence lc (waterline r) (ai_laneSignals inp) c \<noteq> []"
    using c(1) class_evidence_lanes(3) [of lc "waterline r" "ai_laneSignals inp" c] by auto
  have named: "named_signal (Provider_Terminal s) \<and> ps_providerClass s = c"
    if "s \<in> set (class_evidence lc (waterline r) (ai_laneSignals inp) c)" for s
    using class_evidence_facts [OF that] assms(3) by (auto simp: list_all_iff)
  have len: "1 \<le> length c \<and> length c \<le> 128" using ne named [OF hd_in_set [OF ne]] by auto
  have lanes: "list_all (\<lambda>s. ps_batchId s \<noteq> [] \<and> ps_laneId s \<noteq> []) ?ls"
    unfolding list_all_iff
  proof
    fix s assume "s \<in> set ?ls"
    then have "s \<in> set (class_evidence lc (waterline r) (ai_laneSignals inp) c)" by (rule in_set_takeD)
    with named show "ps_batchId s \<noteq> [] \<and> ps_laneId s \<noteq> []" by (auto simp: named_lane_def)
  qed
  have ls: "?ls \<noteq> []" using ne by (simp add: PR_REVIEW_CIRCUIT_CONTRIBUTOR_LIMIT_def)
  show ?thesis
    using assms(1,2) len lanes ls unfolding c(2)
    by (auto simp: review_inv_def PrReviewCircuitRecordV2Schema_def circuit_shape_def opened_record_def list_all_iff)
qed

lemma last_n_facts: "set (last_n n xs) \<subseteq> set xs" "length (last_n n xs) \<le> n"
  by (auto simp: last_n_def dest: in_set_dropD)

lemma reopened_inv:
  assumes "review_inv (Some r)" "rc_state r = Half_Open_State" "rc_probe r = Some probe"
  shows "review_inv (Some (reopened_record r inp probe sig))"
proof -
  let ?c = "\<lparr>co_batchId = pb_batchId probe, co_laneId = pb_laneId probe, co_terminalAt = Some (ps_terminalAtMs sig)\<rparr>"
  let ?old = "filter (\<lambda>e. \<not> (co_batchId e = co_batchId ?c \<and> co_laneId e = co_laneId ?c)) (rc_contributors r)"
  have sub: "set (last_n PR_REVIEW_CIRCUIT_CONTRIBUTOR_LIMIT (?old @ [?c])) \<subseteq> insert ?c (set (rc_contributors r))"
    using last_n_facts(1) [of PR_REVIEW_CIRCUIT_CONTRIBUTOR_LIMIT "?old @ [?c]"] by auto
  have "last_n PR_REVIEW_CIRCUIT_CONTRIBUTOR_LIMIT (?old @ [?c]) \<noteq> []"
    by (simp add: last_n_def PR_REVIEW_CIRCUIT_CONTRIBUTOR_LIMIT_def)
  moreover have "\<forall>c \<in> set (last_n PR_REVIEW_CIRCUIT_CONTRIBUTOR_LIMIT (?old @ [?c])). co_batchId c \<noteq> [] \<and> co_laneId c \<noteq> []"
    using sub assms by (fastforce simp: review_inv_def PrReviewCircuitRecordV2Schema_def list_all_iff)
  ultimately show ?thesis
    using assms last_n_facts(2) [of PR_REVIEW_CIRCUIT_CONTRIBUTOR_LIMIT "?old @ [?c]"]
    by (simp add: review_inv_def PrReviewCircuitRecordV2Schema_def circuit_shape_def reopened_record_def cooled_record_def
        Let_def list_all_iff)
qed

lemma cooled_inv: "review_inv (Some r) \<Longrightarrow> rc_state r = Half_Open_State \<Longrightarrow> review_inv (Some (cooled_record r until))"
  by (simp add: review_inv_def PrReviewCircuitRecordV2Schema_def circuit_shape_def cooled_record_def)

lemma closed_inv: "review_inv (Some r) \<Longrightarrow> review_inv (Some (closed_record r t))"
  by (simp add: review_inv_def PrReviewCircuitRecordV2Schema_def circuit_shape_def closed_record_def)

lemma probing_inv:
  assumes "review_inv (Some r)" "advance_open r inp = (action, Some r')" "named_event (Review_Advance inp)" "rc_state r = Open_State"
  shows "review_inv (Some r')"
  using assms
  by (auto simp: review_inv_def PrReviewCircuitRecordV2Schema_def circuit_shape_def advance_open_def named_lane_def
      split: if_splits option.splits)

lemma advance_inv:
  assumes "review_inv current" "named_event (Review_Advance inp)" "snd (advancePrReviewCircuit lc current inp) = Some r'"
  shows "review_inv (Some r')"
proof -
  let ?r = "case current of None \<Rightarrow> freshRecord (ai_nowMs inp) False | Some r \<Rightarrow> r"
  have inv: "review_inv (Some ?r)" using assms(1) fresh_inv by (cases current) simp_all
  have some: "snd (advancePrReviewCircuit lc (Some ?r) inp) = Some r'"
    using assms(3) by (cases current) (simp_all add: advancePrReviewCircuit_def)
  have named: "list_all named_signal (ai_laneSignals inp)" using assms(2) by simp
  show ?thesis
  proof (cases "rc_state ?r")
    case Closed_State
    then show ?thesis using opened_inv [OF inv Closed_State named] some by (metis advance_simps(2) prod.collapse)
  next
    case Open_State
    then show ?thesis using probing_inv [OF inv _ assms(2) Open_State] some by (metis advance_simps(3) prod.collapse)
  next
    case Half_Open_State
    then have "snd (advance_half_open ?r inp) = Some r'" using some by (simp add: advance_simps(4))
    then show ?thesis
      using reopened_inv [OF inv Half_Open_State] cooled_inv [OF inv Half_Open_State] closed_inv [OF inv]
      by (auto simp: advance_half_open_def split: option.splits circuit_signal.splits if_splits prod.splits)
  qed
qed

lemma review_step_inv: "named_event ev \<Longrightarrow> review_inv current \<Longrightarrow> review_inv (review_step lc ev current)"
proof (cases ev)
  case (Review_Advance inp)
  assume "named_event ev" "review_inv current"
  then show ?thesis
    using advance_inv [of current inp lc] by (auto simp: Review_Advance review_step_def split: option.split)
next
  case (Review_Rollback t d)
  assume "review_inv current"
  then show ?thesis
    using cooled_inv by (cases current) (auto simp: Review_Rollback review_step_def rollbackPrReviewCircuitProbe_def)
next
  case (Review_Reset t)
  assume "review_inv current"
  then show ?thesis
    by (cases current)
      (auto simp: Review_Reset review_step_def resetPrReviewResilienceForReEnable_def review_inv_def
        PrReviewCircuitRecordV2Schema_def circuit_shape_def freshRecord_def)
qed

interpretation review: guarded_machine "review_step lc" named_event review_inv for lc
  by unfold_locales (rule review_step_inv)

section \<open>Generations\<close>

definition generation_of :: "circuit_record option \<Rightarrow> int" where
  "generation_of current = (case current of None \<Rightarrow> 1 | Some r \<Rightarrow> rc_generation r)"

lemma review_step_generation: "generation_of current \<le> generation_of (review_step lc ev current)"
proof (cases ev)
  case (Review_Advance inp)
  show ?thesis
    by (auto simp: Review_Advance review_step_def generation_of_def advancePrReviewCircuit_def freshRecord_def advance_closed_def
        opened_record_def advance_open_def advance_half_open_def reopened_record_def cooled_record_def closed_record_def Let_def
        split: option.splits circuit_state.splits circuit_signal.splits if_splits prod.splits)
next
  case (Review_Rollback t d)
  then show ?thesis
    by (auto simp: review_step_def generation_of_def rollbackPrReviewCircuitProbe_def cooled_record_def split: option.split)
next
  case (Review_Reset t)
  then show ?thesis
    by (auto simp: review_step_def generation_of_def resetPrReviewResilienceForReEnable_def split: option.split)
qed

interpretation generations: monotone_machine "review_step lc" "\<lambda>s t. generation_of s \<le> generation_of t" for lc
  by unfold_locales (auto intro: review_step_generation)

text \<open>Every record the circuit ever writes, from nothing and through any sequence of advances, rollbacks of a probe and
  re-enable resets over named lanes, satisfies the schema the state file is read with, so reading it back adopts it
  unchanged; a half-open circuit always carries its probe, a closed one neither probe nor contributors nor class; and no
  continuation lowers the generation.\<close>

theorem review_records_readopted:
  assumes "list_all named_event events" "fold (review_step lc) events None = Some r"
  shows "adoptPrReviewCircuit (Raw_V2 r body) nowMs = Adopt_V2 r \<and> circuit_shape r \<and>
    rc_generation r \<le> generation_of (fold (review_step lc) later (Some r))"
proof -
  have "review_inv (fold (review_step lc) events None)"
    using review.guarded_run [OF assms(1)] by (simp add: review_inv_def)
  then show ?thesis
    using assms(2) generations.le_run [of "Some r" lc later] by (simp add: review_inv_def adoptPrReviewCircuit_def generation_of_def)
qed


section \<open>Recovery\<close>

lemma no_evidence_admits:
  assumes "rc_state r = Closed_State" "list_all (\<lambda>sig. \<not> relevant_signal (waterline r) sig) (ai_laneSignals inp)"
  shows "advancePrReviewCircuit lc (Some r) inp = (Admit, None)"
proof -
  have "filter (relevant_signal (waterline r)) (ai_laneSignals inp) = []" using assms(2) by (simp add: filter_empty_conv list_all_iff)
  then have "scanPrReviewCircuitEvidence lc (ai_laneSignals inp) (waterline r) = []"
    using scan_relevant [of lc "waterline r" "ai_laneSignals inp"] by (simp add: scanPrReviewCircuitEvidence_def)
  then show ?thesis using assms(1) by (simp add: advance_simps advance_closed_def waterline_def split: option.splits)
qed

definition old_signal :: "int \<Rightarrow> circuit_signal \<Rightarrow> bool" where
  "old_signal t sig = (case sig of Provider_Terminal s \<Rightarrow> ps_terminalAtMs s \<le> t | Ignored _ \<Rightarrow> True)"

lemma old_signals_irrelevant:
  "list_all (old_signal t) sigs \<Longrightarrow> list_all (\<lambda>sig. \<not> relevant_signal (Some t) sig) sigs"
  by (auto simp: list_all_iff old_signal_def relevant_signal_def counts_as_evidence_def split: circuit_signal.splits)

text \<open>C36: An open circuit recovers.  Whatever record it is, the first admission once the cooldown has elapsed is let through
  as the one probe: the record turns half-open with the probe's batch, lane and time and nothing else changed.
  While that probe runs only the same batch is admitted, everything else is blocked and nothing is written.  A probe that
  completes without a signal ends the episode: the dispatch is admitted and the record written is a closed one with
  the next generation, no provider class, contributor, opening time, deadline or probe left, and the probe's
  completion (the time of the report where it carries none) as its waterline.  From then on evidence from before that time no longer blocks anything: an
  advance that sees only such signals admits.\<close>

theorem open_circuit_recovers:
  assumes "rc_state r = Open_State" "rc_openUntil r = iso until" "until \<le> ai_nowMs ask" "ai_admission ask = Some (batchId, laneId)"
    and "ai_probeObservation idle = None"
    and "ai_probeObservation report = Some \<lparr>po_terminalStatus = ''completed'', po_signal = None, po_terminalAtMs = t\<rparr>"
    and "closedAt = (if t = 0 then ai_nowMs report else t)"
    and "\<forall>s. Provider_Terminal s \<in> set (ai_laneSignals later) \<longrightarrow> ps_terminalAtMs s \<le> closedAt"
  shows "\<exists>p c. advancePrReviewCircuit lc (Some r) ask = (Admit_As_Probe, Some p) \<and>
    p = r\<lparr>rc_state := Half_Open_State,
          rc_probe := Some \<lparr>pb_batchId = batchId, pb_laneId = laneId, pb_admittedAt = Some (ai_nowMs ask)\<rparr>\<rparr> \<and>
    advancePrReviewCircuit lc (Some p) idle =
      ((case ai_admission idle of
          Some (b, _) \<Rightarrow> if b = batchId then Admit_As_Probe else Block Probe_In_Flight
        | None \<Rightarrow> Block Probe_In_Flight), None) \<and>
    advancePrReviewCircuit lc (Some p) report = (Admit, Some c) \<and>
    c = \<lparr>rc_state = Closed_State, rc_generation = rc_generation r + 1, rc_providerClass = None, rc_contributors = [],
         rc_openedAt = None, rc_openUntil = None, rc_evidenceWaterline = Some (Some closedAt), rc_probe = None\<rparr> \<and>
    advancePrReviewCircuit lc (Some c) later = (Admit, None)"
proof -
  let ?p = "r\<lparr>rc_state := Half_Open_State,
      rc_probe := Some \<lparr>pb_batchId = batchId, pb_laneId = laneId, pb_admittedAt = Some (ai_nowMs ask)\<rparr>\<rparr>"
  have ask: "advancePrReviewCircuit lc (Some r) ask = (Admit_As_Probe, Some ?p)"
    using assms(1-4) by (simp add: advance_simps advance_open_def still_open_def iso_def)
  have idle: "advancePrReviewCircuit lc (Some ?p) idle =
      ((case ai_admission idle of
          Some (b, _) \<Rightarrow> if b = batchId then Admit_As_Probe else Block Probe_In_Flight
        | None \<Rightarrow> Block Probe_In_Flight), None)"
    using assms(5) by (simp add: advance_simps advance_half_open_def split: option.split prod.split)
  have report: "advancePrReviewCircuit lc (Some ?p) report = (Admit, Some (closed_record r closedAt))"
    using assms(6,7) by (simp add: advance_simps advance_half_open_def closed_record_def)
  have "list_all (old_signal closedAt) (ai_laneSignals later)"
    using assms(8) by (auto simp: list_all_iff old_signal_def split: circuit_signal.split)
  then have "advancePrReviewCircuit lc (Some (closed_record r closedAt)) later = (Admit, None)"
    using old_signals_irrelevant by (intro no_evidence_admits) (auto simp: closed_record_def waterline_def iso_def)
  then show ?thesis
    using ask idle report unfolding closed_record_def iso_def by blast
qed

text \<open>History never reopens a circuit: after the circuit was closed by a probe that completed at \<open>t\<close>, or reset, or migrated
  from a legacy record, at \<open>t\<close>, any number of advances that see only signals at or before \<open>t\<close> all admit, and leave the record as it is.\<close>

theorem history_never_reopens:
  assumes "r = closed_record old t \<or> r = resetPrReviewResilienceForReEnable previous t \<or>
      adoptPrReviewCircuit (Raw_Legacy legacy body) t = Adopt_Migrated r diagnostic"
    and "list_all (\<lambda>inp. list_all (old_signal t) (ai_laneSignals inp)) inps"
  shows "fold (review_step lc) (map Review_Advance inps) (Some r) = Some r \<and>
    list_all (\<lambda>inp. advancePrReviewCircuit lc (Some r) inp = (Admit, None)) inps"
proof -
  have r: "rc_state r = Closed_State" "waterline r = Some t"
    using assms(1)
    by (auto simp: closed_record_def resetPrReviewResilienceForReEnable_def adoptPrReviewCircuit_def freshRecord_def
        malformed_circuit_def waterline_def iso_def split: if_splits)
  have admits: "advancePrReviewCircuit lc (Some r) inp = (Admit, None)" if "inp \<in> set inps" for inp
  proof (rule no_evidence_admits [OF r(1)])
    have "list_all (old_signal t) (ai_laneSignals inp)" using assms(2) that by (simp add: list_all_iff)
    then show "list_all (\<lambda>sig. \<not> relevant_signal (waterline r) sig) (ai_laneSignals inp)"
      unfolding r(2) by (rule old_signals_irrelevant)
  qed
  then have "fold (review_step lc) (map Review_Advance inps) (Some r) = Some r"
    by (induction inps) (simp_all add: review_step_def)
  then show ?thesis using admits by (simp add: list_all_iff)
qed

section \<open>The digest of a malformed record\<close>

declare to_hex.simps [simp del]

lemma to_hex_digit: "n < 16 \<Longrightarrow> to_hex n = [hex_nibble n]"
  and to_hex_step: "\<not> n < 16 \<Longrightarrow> to_hex n = to_hex (n div 16) @ [hex_nibble (n mod 16)]"
  by (simp_all add: to_hex.simps [of n])

lemma to_hex_length: "0 < k \<Longrightarrow> n < 16 ^ k \<Longrightarrow> length (to_hex n) \<le> k"
proof (induction n arbitrary: k rule: to_hex.induct)
  case (1 n)
  show ?case
  proof (cases "n < 16")
    case True
    then show ?thesis using "1.prems" by (simp add: to_hex_digit)
  next
    case False
    then obtain j where k: "k = Suc j" "0 < j" using "1.prems" by (cases k) (auto, cases "k - 1", auto)
    have "n div 16 < 16 ^ j" using "1.prems"(2) k(1) by (simp add: less_mult_imp_div_less mult.commute)
    then have "length (to_hex (n div 16)) \<le> j" using "1.IH" False k(2) by blast
    then show ?thesis using False k(1) by (simp add: to_hex_step)
  qed
qed

definition is_hex_digit :: "char \<Rightarrow> bool" where
  "is_hex_digit c = (c \<in> set ''0123456789abcdef'')"

lemma hex_nibble_digit: "n < 16 \<Longrightarrow> is_hex_digit (hex_nibble n)"
proof -
  assume "n < 16"
  then have "n \<in> set [0..<16]" by simp
  moreover have "list_all (\<lambda>n. is_hex_digit (hex_nibble n)) [0..<16]" by code_simp
  ultimately show ?thesis by (simp only: list_all_iff)
qed

lemma to_hex_digits: "list_all is_hex_digit (to_hex n)"
proof (induction n rule: to_hex.induct)
  case (1 n)
  then show ?case using hex_nibble_digit by (cases "n < 16") (simp_all add: to_hex_digit to_hex_step)
qed

text \<open>What is kept of a record that cannot be read is bounded and says nothing of its content: whatever the body, the
  adoption fails open with a digest of exactly eight lower-case hexadecimal digits and the length of the body.\<close>

theorem malformed_digest_bounded:
  "\<exists>digest. adoptPrReviewCircuit (Raw_Other body) nowMs = Adopt_Malformed (Malformed_Circuit_Dropped digest (length body)) \<and>
    length digest = 8 \<and> list_all is_hex_digit digest"
proof -
  have "unat (fnv1a body) < 2 ^ LENGTH(32)" by (rule unsigned_less)
  then have "unat (fnv1a body) < 16 ^ 8" by simp
  then have "length (to_hex (unat (fnv1a body))) \<le> 8" by (intro to_hex_length) simp_all
  moreover have "is_hex_digit CHR ''0''" by code_simp
  ultimately have "length (body_hash body) = 8 \<and> list_all is_hex_digit (body_hash body)"
    using to_hex_digits by (auto simp: body_hash_def pad8_def list_all_iff)
  then show ?thesis by (simp add: adoptPrReviewCircuit_def malformed_circuit_def)
qed


section \<open>Evaluated circuits\<close>

definition lane_signal :: "string \<Rightarrow> int \<Rightarrow> circuit_signal" where
  "lane_signal laneId t =
     Provider_Terminal \<lparr>ps_providerClass = ''rate_limit'', ps_batchId = ''b1'', ps_laneId = laneId, ps_terminalAtMs = t\<rparr>"

definition review_input :: "int \<Rightarrow> circuit_signal list \<Rightarrow> advance_input" where
  "review_input now sigs =
     \<lparr>ai_nowMs = now, ai_threshold = 2, ai_openDurationMs = 100, ai_admission = Some (''b2'', ''l1''),
      ai_laneSignals = sigs, ai_probeObservation = None\<rparr>"

definition two_failures :: "circuit_signal list" where
  "two_failures = [lane_signal ''l1'' 10, Ignored Git, lane_signal ''l2'' 11, lane_signal ''l1'' 12]"

abbreviation no_collation :: "string \<Rightarrow> string \<Rightarrow> int" where
  "no_collation \<equiv> \<lambda>_ _. 0"

theorem circuit_opens_iff_correlated_witness:
  "advancePrReviewCircuit no_collation (Some (freshRecord 5 True)) (review_input 20 two_failures) \<noteq> (Admit, None) \<and>
   advancePrReviewCircuit no_collation (Some (freshRecord 11 True)) (review_input 20 two_failures) = (Admit, None)"
proof -
  have f: "rc_state (freshRecord t b) = Closed_State" for t b by (simp add: freshRecord_def)
  have two: "failing_lanes (waterline (freshRecord 5 True)) two_failures ''rate_limit'' =
      [''b1'' @ [CHR 0x00] @ ''l1'', ''b1'' @ [CHR 0x00] @ ''l2'']"
    by code_simp
  have "\<not> (\<forall>c. failing_lanes (waterline (freshRecord 5 True)) (ai_laneSignals (review_input 20 two_failures)) c = [] \<or>
      int (counted (waterline (freshRecord 5 True)) (ai_laneSignals (review_input 20 two_failures)) c) < ai_threshold (review_input 20 two_failures))"
    using two by (intro notI) (auto simp: review_input_def counted_def PR_REVIEW_CIRCUIT_CONTRIBUTOR_LIMIT_def dest!: spec [of _ "''rate_limit''"])
  then have one: "advancePrReviewCircuit no_collation (Some (freshRecord 5 True)) (review_input 20 two_failures) \<noteq> (Admit, None)"
    using circuit_opens_iff_correlated [OF f] by blast
  have ev: "scanned (waterline (freshRecord 11 True)) two_failures = [(''b1'' @ [CHR 0x00] @ ''l1'', \<lparr>ps_providerClass = ''rate_limit'', ps_batchId = ''b1'', ps_laneId = ''l1'', ps_terminalAtMs = 12\<rparr>)]"
    by code_simp
  have "length (failing_lanes (waterline (freshRecord 11 True)) two_failures c) \<le> 1" for c
    using class_evidence_lanes(3) [of no_collation "waterline (freshRecord 11 True)" two_failures c]
    by (simp add: class_evidence_def ordered_evidence_def ev split: if_splits)
  then have "\<forall>c. int (counted (waterline (freshRecord 11 True)) (ai_laneSignals (review_input 20 two_failures)) c) <
      ai_threshold (review_input 20 two_failures)"
    by (simp add: review_input_def counted_def min.strict_coboundedI2 le_imp_less_Suc numeral_2_eq_2)
  with one circuit_opens_iff_correlated [OF f, of no_collation 11 True "review_input 20 two_failures"] show ?thesis by blast
qed

theorem review_records_readopted_witness:
  "\<exists>r. fold (review_step no_collation) [Review_Advance (review_input 20 two_failures), Review_Advance (review_input 200 [])] None = Some r \<and>
     rc_state r = Half_Open_State \<and> adoptPrReviewCircuit (Raw_V2 r []) 0 = Adopt_V2 r"
proof -
  let ?evs = "[Review_Advance (review_input 20 two_failures), Review_Advance (review_input 200 [])]"
  have named: "list_all named_event ?evs" by code_simp
  have st: "map_option rc_state (fold (review_step no_collation) ?evs None) = Some Half_Open_State" by code_simp
  then obtain r where r: "fold (review_step no_collation) ?evs None = Some r" by (auto simp del: fold_simps)
  with st have "rc_state r = Half_Open_State" by (simp del: fold_simps)
  with r review_records_readopted [OF named r] show ?thesis by blast
qed

definition open_example :: circuit_record where
  "open_example = (freshRecord 0 False)\<lparr>rc_state := Open_State, rc_openUntil := iso 120\<rparr>"

theorem open_circuit_recovers_witness:
  "\<exists>p c. advancePrReviewCircuit no_collation (Some open_example) (review_input 120 []) = (Admit_As_Probe, Some p) \<and>
    advancePrReviewCircuit no_collation (Some p) (review_input 130 []) = (Admit_As_Probe, None) \<and>
    advancePrReviewCircuit no_collation (Some c) (review_input 150 two_failures) = (Admit, None)"
proof -
  have r: "rc_state open_example = Open_State" "rc_openUntil open_example = iso 120" by (simp_all add: open_example_def)
  let ?report = "(review_input 140 [])\<lparr>ai_probeObservation := Some \<lparr>po_terminalStatus = ''completed'', po_signal = None, po_terminalAtMs = 135\<rparr>\<rparr>"
  have i: "120 \<le> ai_nowMs (review_input 120 [])" "ai_admission (review_input 120 []) = Some (''b2'', ''l1'')"
    "ai_probeObservation (review_input 130 []) = None"
    "ai_probeObservation ?report = Some \<lparr>po_terminalStatus = ''completed'', po_signal = None, po_terminalAtMs = 135\<rparr>" "135 = (if (135::int) = 0 then ai_nowMs ?report else 135)"
    by (simp_all add: review_input_def)
  have "list_all (old_signal 135) (ai_laneSignals (review_input 150 two_failures))" by code_simp
  then have "\<forall>s. Provider_Terminal s \<in> set (ai_laneSignals (review_input 150 two_failures)) \<longrightarrow> ps_terminalAtMs s \<le> 135"
    by (force simp: list_all_iff old_signal_def)
  from open_circuit_recovers [OF r i this, of no_collation] show ?thesis by (auto simp: review_input_def)
qed

theorem history_never_reopens_witness:
  "fold (review_step no_collation) (map Review_Advance [review_input 20 two_failures, review_input 30 two_failures])
     (Some (closed_record open_example 12)) = Some (closed_record open_example 12)"
proof -
  have "list_all (\<lambda>inp. list_all (old_signal 12) (ai_laneSignals inp)) [review_input 20 two_failures, review_input 30 two_failures]"
    by code_simp
  from history_never_reopens [OF disjI1 [OF refl] this] show ?thesis by blast
qed

end
