(* ===== verification/Automation_Queue.thy ===== *)
theory Automation_Queue
  imports Js_String Transition
begin

text \<open>
  \<^verbatim>\<open>src/background/queue.ts\<close>: the in-process queue with priorities and retries.  The clock is an argument of the
  operations that read it, once per reading; what they publish on the event bus is appended to \<open>aq_log\<close>.  The payload
  of an item stands for its payload and its metadata, which the queue only carries.  An item is handed out by reference, and \<open>retry\<close> changes its retry counters where the queue
  holds it.
\<close>

section \<open>Data\<close>

datatype queue_priority = Prio_Critical | Prio_High | Prio_Normal | Prio_Low

datatype overflow_strategy = Overflow_Throw | Evict_Oldest

record retry_metadata =
  rm_attempts :: int
  rm_maxAttempts :: int
  rm_lastAttempt :: "int option"
  rm_nextAttemptAt :: "int option"
  rm_backoffMs :: int
  rm_maxBackoffMs :: int

record 'a queue_item =
  qi_id :: string
  qi_priority :: queue_priority
  qi_payload :: 'a
  qi_createdAt :: int
  qi_retry :: "retry_metadata option"

record queue_options =
  qo_maxSize :: "nat option"
  qo_defaultMaxRetries :: "int option"
  qo_defaultBackoffMs :: "int option"
  qo_maxBackoffMs :: "int option"
  qo_overflowStrategy :: "overflow_strategy option"

datatype queue_event =
    Item_Evicted string
  | Item_Enqueued string queue_priority
  | Item_Dequeued string
  | Item_Completed string
  | Item_Failed string int
  | Item_Retry_Scheduled string int int int

record 'a queue =
  aq_items :: "'a queue_item list"
  aq_inflight :: "(string, 'a queue_item) js_map"
  aq_terminalIds :: "(string, int) js_map"
  aq_maxSize :: nat
  aq_defaultMaxRetries :: int
  aq_defaultBackoffMs :: int
  aq_maxBackoffMs :: int
  aq_overflowStrategy :: overflow_strategy
  aq_itemCounter :: nat
  aq_log :: "queue_event list"

fun priority_order :: "queue_priority \<Rightarrow> int" where
  "priority_order Prio_Critical = 0"
| "priority_order Prio_High = 1"
| "priority_order Prio_Normal = 2"
| "priority_order Prio_Low = 3"

definition comparePriority :: "'a queue_item \<Rightarrow> 'a queue_item \<Rightarrow> int" where
  "comparePriority a b =
     cmp_or (priority_order (qi_priority a) - priority_order (qi_priority b)) (qi_createdAt a - qi_createdAt b)"

definition MAX_TERMINAL_IDS :: nat where "MAX_TERMINAL_IDS = 2048"

definition publish :: "queue_event \<Rightarrow> 'a queue \<Rightarrow> 'a queue" where
  "publish e q = q\<lparr>aq_log := aq_log q @ [e]\<rparr>"

definition newQueue :: "queue_options option \<Rightarrow> 'a queue" where
  "newQueue config =
     (let opt = (case config of Some c \<Rightarrow> c
                | None \<Rightarrow> \<lparr>qo_maxSize = None, qo_defaultMaxRetries = None, qo_defaultBackoffMs = None, qo_maxBackoffMs = None,
                            qo_overflowStrategy = None\<rparr>)
      in \<lparr>aq_items = [], aq_inflight = [], aq_terminalIds = [],
          aq_maxSize = option_or (qo_maxSize opt) 1000,
          aq_defaultMaxRetries = option_or (qo_defaultMaxRetries opt) 3,
          aq_defaultBackoffMs = option_or (qo_defaultBackoffMs opt) 1000,
          aq_maxBackoffMs = option_or (qo_maxBackoffMs opt) 60000,
          aq_overflowStrategy = option_or (qo_overflowStrategy opt) Overflow_Throw,
          aq_itemCounter = 0, aq_log = []\<rparr>)"

section \<open>Operations\<close>

definition generateId :: "int \<Rightarrow> 'a queue \<Rightarrow> string \<times> 'a queue" where
  "generateId now q =
     (''queue-'' @ show_int now @ ''-'' @ show_nat (Suc (aq_itemCounter q)), q\<lparr>aq_itemCounter := Suc (aq_itemCounter q)\<rparr>)"

text \<open>The index of the first item with the smallest \<open>createdAt\<close>.\<close>

definition oldest_index :: "'a queue_item list \<Rightarrow> nat" where
  "oldest_index items =
     fold (\<lambda>i oldest. if qi_createdAt (items ! i) < qi_createdAt (items ! oldest) then i else oldest) [1..<length items] 0"

text \<open>\<open>items.splice(i, 1)\<close>\<close>

definition splice1 :: "nat \<Rightarrow> 'b list \<Rightarrow> 'b list" where
  "splice1 i xs = take i xs @ drop (Suc i) xs"

definition evict_oldest :: "'a queue \<Rightarrow> 'a queue" where
  "evict_oldest q =
     (if aq_items q = [] then q
      else let i = oldest_index (aq_items q)
           in publish (Item_Evicted (qi_id (aq_items q ! i))) (q\<lparr>aq_items := splice1 i (aq_items q)\<rparr>))"

definition new_item :: "'a \<Rightarrow> queue_priority \<Rightarrow> string \<Rightarrow> int \<Rightarrow> 'a queue \<Rightarrow> 'a queue_item" where
  "new_item payload priority id' createdAt q =
     \<lparr>qi_id = id', qi_priority = priority, qi_payload = payload, qi_createdAt = createdAt,
      qi_retry = Some \<lparr>rm_attempts = 0, rm_maxAttempts = aq_defaultMaxRetries q, rm_lastAttempt = None, rm_nextAttemptAt = None,
                       rm_backoffMs = aq_defaultBackoffMs q, rm_maxBackoffMs = aq_maxBackoffMs q\<rparr>\<rparr>"

definition push_sorted :: "'a queue_item \<Rightarrow> 'a queue \<Rightarrow> 'a queue" where
  "push_sorted item q = q\<lparr>aq_items := js_sort comparePriority (aq_items q @ [item])\<rparr>"

text \<open>The new ID; \<open>None\<close> is the thrown \<open>Queue is full\<close>.\<close>

definition enqueue :: "'a \<Rightarrow> queue_priority \<Rightarrow> int \<Rightarrow> int \<Rightarrow> 'a queue \<Rightarrow> string option \<times> 'a queue" where
  "enqueue payload priority idNow createdNow q =
     (if length (aq_items q) \<ge> aq_maxSize q \<and> aq_overflowStrategy q = Overflow_Throw then (None, q)
      else
        let q1 = (if length (aq_items q) \<ge> aq_maxSize q then evict_oldest q else q);
            (id', q2) = generateId idNow q1;
            item = new_item payload priority id' createdNow q2
        in (Some id', publish (Item_Enqueued id' priority) (push_sorted item q2)))"

definition is_due :: "int \<Rightarrow> 'a queue_item \<Rightarrow> bool" where
  "is_due now item =
     (case qi_retry item of
        None \<Rightarrow> True
      | Some r \<Rightarrow> (case rm_nextAttemptAt r of None \<Rightarrow> True | Some t \<Rightarrow> t \<le> now))"

definition dequeue :: "int \<Rightarrow> 'a queue \<Rightarrow> 'a queue_item option \<times> 'a queue" where
  "dequeue now q =
     (if length (aq_inflight q) \<ge> aq_maxSize q then (None, q)
      else case find_index (is_due now) (aq_items q) of
             None \<Rightarrow> (None, q)
           | Some i \<Rightarrow>
               let item = aq_items q ! i
               in (Some item, publish (Item_Dequeued (qi_id item))
                     (q\<lparr>aq_items := splice1 i (aq_items q), aq_inflight := js_set (qi_id item) item (aq_inflight q)\<rparr>)))"

definition peek :: "'a queue \<Rightarrow> 'a queue_item option" where
  "peek q = (case aq_items q of [] \<Rightarrow> None | item # _ \<Rightarrow> Some item)"

definition has_id :: "string \<Rightarrow> 'a queue_item \<Rightarrow> bool" where
  "has_id i item = (qi_id item = i)"

definition get_item :: "string \<Rightarrow> 'a queue \<Rightarrow> 'a queue_item option" where
  "get_item i q = (case List.find (has_id i) (aq_items q) of Some item \<Rightarrow> Some item | None \<Rightarrow> js_get (aq_inflight q) i)"

definition inflightSize :: "'a queue \<Rightarrow> nat" where
  "inflightSize q = length (aq_inflight q)"

definition removeQueuedOrInflight :: "string \<Rightarrow> 'a queue \<Rightarrow> 'a queue_item option \<times> 'a queue" where
  "removeQueuedOrInflight i q =
     (case find_index (has_id i) (aq_items q) of
        Some n \<Rightarrow> (Some (aq_items q ! n), q\<lparr>aq_items := splice1 n (aq_items q)\<rparr>)
      | None \<Rightarrow>
          (case js_get (aq_inflight q) i of
             None \<Rightarrow> (None, q)
           | Some item \<Rightarrow> (Some item, q\<lparr>aq_inflight := js_delete i (aq_inflight q)\<rparr>)))"

definition markTerminal :: "string \<Rightarrow> int \<Rightarrow> 'a queue \<Rightarrow> 'a queue" where
  "markTerminal i at' q =
     (let ids = js_set i at' (aq_terminalIds q)
      in q\<lparr>aq_terminalIds :=
             (if length ids > MAX_TERMINAL_IDS
              then (case js_keys ids of [] \<Rightarrow> ids | oldest # _ \<Rightarrow> js_delete oldest ids) else ids)\<rparr>)"

definition remove_item :: "string \<Rightarrow> 'a queue \<Rightarrow> bool \<times> 'a queue" where
  "remove_item i q =
     (if js_has (aq_terminalIds q) i then (False, q)
      else let (removed, q') = removeQueuedOrInflight i q in (removed \<noteq> None, q'))"

definition complete_item :: "string \<Rightarrow> int \<Rightarrow> 'a queue \<Rightarrow> bool \<times> 'a queue" where
  "complete_item i now q =
     (if js_has (aq_terminalIds q) i then (False, q)
      else
        let (removed, q') = removeQueuedOrInflight i q
        in if removed = None then (False, q')
           else (True, publish (Item_Completed i) (markTerminal i now q')))"

text \<open>The backoff of the \<open>n\<close>th attempt: doubled each time, capped.\<close>

definition backoff_of :: "retry_metadata \<Rightarrow> int" where
  "backoff_of r = min (rm_backoffMs r * 2 ^ nat (rm_attempts r - 1)) (rm_maxBackoffMs r)"

definition failed_once :: "int \<Rightarrow> retry_metadata \<Rightarrow> retry_metadata" where
  "failed_once now r = r\<lparr>rm_attempts := rm_attempts r + 1, rm_lastAttempt := Some now\<rparr>"

text \<open>The item with its counters changed, put where the old one is queued, or back into the queue.\<close>

definition requeue :: "string \<Rightarrow> 'a queue_item \<Rightarrow> 'a queue \<Rightarrow> 'a queue" where
  "requeue i item q =
     (let q' = q\<lparr>aq_inflight := js_delete i (aq_inflight q)\<rparr>
      in case find_index (has_id i) (aq_items q') of
           Some n \<Rightarrow> q'\<lparr>aq_items := (aq_items q')[n := item]\<rparr>
         | None \<Rightarrow> push_sorted item q')"

definition retry_item :: "string \<Rightarrow> int \<Rightarrow> int \<Rightarrow> 'a queue \<Rightarrow> bool \<times> 'a queue" where
  "retry_item i lastNow now q =
     (if js_has (aq_terminalIds q) i then (False, q)
      else case get_item i q of
             None \<Rightarrow> (False, q)
           | Some item \<Rightarrow>
               (case qi_retry item of
                  None \<Rightarrow> (False, q)
                | Some r0 \<Rightarrow>
                    let r = failed_once lastNow r0
                    in if rm_attempts r \<ge> rm_maxAttempts r
                       then (False, publish (Item_Failed i (rm_attempts r)) (markTerminal i now (snd (removeQueuedOrInflight i q))))
                       else
                         let backoff = backoff_of r;
                             r' = r\<lparr>rm_nextAttemptAt := Some (now + backoff)\<rparr>
                         in (True, publish (Item_Retry_Scheduled i (rm_attempts r) (now + backoff) backoff)
                                     (requeue i (item\<lparr>qi_retry := Some r'\<rparr>) q))))"

definition getRetryableItems :: "int \<Rightarrow> 'a queue \<Rightarrow> 'a queue_item list" where
  "getRetryableItems now q =
     filter (\<lambda>item. case qi_retry item of
                None \<Rightarrow> False
              | Some r \<Rightarrow> (case rm_nextAttemptAt r of None \<Rightarrow> False | Some t \<Rightarrow> t \<noteq> 0 \<and> t \<le> now)) (aq_items q)"

definition queue_size :: "'a queue \<Rightarrow> nat" where
  "queue_size q = length (aq_items q)"

definition isFull :: "'a queue \<Rightarrow> bool" where
  "isFull q = (length (aq_items q) \<ge> aq_maxSize q)"

definition clear_queue :: "'a queue \<Rightarrow> 'a queue" where
  "clear_queue q =
     (let q1 = (fold (\<lambda>item. publish (Item_Evicted (qi_id item))) (aq_items q) q)\<lparr>aq_items := []\<rparr>
      in (fold (\<lambda>(_, item). publish (Item_Evicted (qi_id item))) (aq_inflight q1) q1)\<lparr>aq_inflight := []\<rparr>)"

definition getByPriority :: "queue_priority \<Rightarrow> 'a queue \<Rightarrow> 'a queue_item list" where
  "getByPriority p q = filter (\<lambda>item. qi_priority item = p) (aq_items q)"

record queue_stats =
  st_size :: nat
  st_maxSize :: nat
  st_critical :: nat
  st_high :: nat
  st_normal :: nat
  st_low :: nat
  st_retryable :: nat
  st_inflight :: nat

definition getStats :: "int \<Rightarrow> 'a queue \<Rightarrow> queue_stats" where
  "getStats now q =
     \<lparr>st_size = length (aq_items q), st_maxSize = aq_maxSize q,
      st_critical = length (getByPriority Prio_Critical q), st_high = length (getByPriority Prio_High q),
      st_normal = length (getByPriority Prio_Normal q), st_low = length (getByPriority Prio_Low q),
      st_retryable = length (getRetryableItems now q), st_inflight = length (aq_inflight q)\<rparr>"

section \<open>Runs\<close>

datatype 'a queue_op =
    Op_Enqueue 'a queue_priority int int
  | Op_Dequeue int
  | Op_Remove string
  | Op_Complete string int
  | Op_Retry string int int
  | Op_Clear

fun queue_step :: "'a queue_op \<Rightarrow> 'a queue \<Rightarrow> 'a queue" where
  "queue_step (Op_Enqueue payload priority idNow createdNow) q = snd (enqueue payload priority idNow createdNow q)"
| "queue_step (Op_Dequeue now) q = snd (dequeue now q)"
| "queue_step (Op_Remove i) q = snd (remove_item i q)"
| "queue_step (Op_Complete i now) q = snd (complete_item i now q)"
| "queue_step (Op_Retry i lastNow now) q = snd (retry_item i lastNow now q)"
| "queue_step Op_Clear q = clear_queue q"

end
