(* ===== verification/Automation_Queue_Facts.thy ===== *)
theory Automation_Queue_Facts
  imports Automation_Queue Commit_Marker_Facts
begin

text \<open>
  The automation queue: an invariant of every run (one place per item, bounded, in order), and the history of every
  identifier in the log of published events (it settles at most once, and is rescheduled fewer times than its limit).
\<close>

section \<open>Order\<close>

interpretation queue_prio: signed_comparator comparePriority
  by unfold_locales (auto simp: comparePriority_def cmp_or_def split: if_splits)

section \<open>Lists\<close>

lemma splice1_split: "i < length xs \<Longrightarrow> xs = take i xs @ xs ! i # drop (Suc i) xs"
  by (simp add: id_take_nth_drop)

lemma mset_splice1: "i < length xs \<Longrightarrow> mset xs = add_mset (xs ! i) (mset (splice1 i xs))"
  using arg_cong [OF splice1_split [of i xs], of mset] by (simp add: splice1_def)

lemma sorted_splice1: "sorted_wrt R xs \<Longrightarrow> sorted_wrt R (splice1 i xs)"
proof (cases "i < length xs")
  case True
  assume "sorted_wrt R xs"
  then have "sorted_wrt R (take i xs @ xs ! i # drop (Suc i) xs)" using splice1_split [OF True] by simp
  then show ?thesis by (simp add: splice1_def sorted_wrt_append)
qed (simp add: splice1_def)

lemma length_splice1: "i < length xs \<Longrightarrow> length xs = Suc (length (splice1 i xs))"
  using arg_cong [OF mset_splice1, of i xs size] by simp

section \<open>Items and their history\<close>

definition all_items :: "'a queue \<Rightarrow> 'a queue_item list" where
  "all_items q = aq_items q @ map snd (aq_inflight q)"

definition queue_shape :: "'a queue \<Rightarrow> bool" where
  "queue_shape q =
     ((\<forall>(k, item) \<in> set (aq_inflight q). k = qi_id item) \<and>
      distinct (map qi_id (all_items q)) \<and>
      sorted_wrt (\<lambda>a b. comparePriority a b \<le> 0) (aq_items q) \<and>
      length (aq_inflight q) \<le> aq_maxSize q \<and>
      length (all_items q) \<le> max 1 (2 * aq_maxSize q) \<and>
      distinct (js_keys (aq_terminalIds q)) \<and> length (aq_terminalIds q) \<le> MAX_TERMINAL_IDS \<and>
      qi_id ` set (all_items q) \<inter> set (js_keys (aq_terminalIds q)) = {})"

definition issued :: "'a queue \<Rightarrow> string \<Rightarrow> bool" where
  "issued q i = (\<exists>t n. n \<le> aq_itemCounter q \<and> i = ''queue-'' @ show_int t @ ''-'' @ show_nat n)"

fun settles :: "string \<Rightarrow> queue_event \<Rightarrow> bool" where
  "settles i (Item_Completed j) = (j = i)"
| "settles i (Item_Failed j _) = (j = i)"
| "settles i _ = False"

fun reschedules :: "string \<Rightarrow> queue_event \<Rightarrow> bool" where
  "reschedules i (Item_Retry_Scheduled j _ _ _) = (j = i)"
| "reschedules i _ = False"

definition occurrences :: "('e \<Rightarrow> bool) \<Rightarrow> 'e list \<Rightarrow> nat" where
  "occurrences P es = length (filter P es)"

lemma occurrences_simps [simp]:
  "occurrences P [] = 0" "occurrences P (es @ es') = occurrences P es + occurrences P es'"
  "occurrences P [e] = (if P e then 1 else 0)"
  by (simp_all add: occurrences_def)

definition item_history :: "'a queue \<Rightarrow> 'a queue_item \<Rightarrow> bool" where
  "item_history q item =
     (issued q (qi_id item) \<and> occurrences (settles (qi_id item)) (aq_log q) = 0 \<and>
      (\<exists>r. qi_retry item = Some r \<and> rm_maxAttempts r = aq_defaultMaxRetries q \<and>
         rm_attempts r = int (occurrences (reschedules (qi_id item)) (aq_log q))))"

definition queue_history :: "'a queue \<Rightarrow> bool" where
  "queue_history q =
     ((\<forall>item \<in> set (all_items q). item_history q item) \<and>
      (\<forall>i. occurrences (settles i) (aq_log q) \<le> 1 \<and>
           int (occurrences (reschedules i) (aq_log q)) \<le> max 0 (aq_defaultMaxRetries q - 1)) \<and>
      (\<forall>i. \<not> issued q i \<longrightarrow> occurrences (settles i) (aq_log q) = 0 \<and> occurrences (reschedules i) (aq_log q) = 0) \<and>
      (\<forall>i \<in> set (js_keys (aq_terminalIds q)). issued q i))"

definition queue_inv :: "'a queue \<Rightarrow> bool" where
  "queue_inv q = (queue_shape q \<and> queue_history q)"

lemma inflight_keys: "queue_shape q \<Longrightarrow> js_keys (aq_inflight q) = map qi_id (map snd (aq_inflight q))"
  by (auto simp: queue_shape_def)

lemma inflight_distinct: "queue_shape q \<Longrightarrow> distinct (js_keys (aq_inflight q))"
  unfolding inflight_keys by (simp add: queue_shape_def all_items_def)

lemma generated_id_fresh: "\<not> issued q (''queue-'' @ show_int t @ ''-'' @ show_nat (Suc (aq_itemCounter q)))"
proof
  assume "issued q (''queue-'' @ show_int t @ ''-'' @ show_nat (Suc (aq_itemCounter q)))"
  then obtain t' n where n: "n \<le> aq_itemCounter q"
    and eq: "(''queue-'' @ show_int t) @ CHR ''-'' # show_nat (Suc (aq_itemCounter q)) = (''queue-'' @ show_int t') @ CHR ''-'' # show_nat n"
    by (auto simp: issued_def)
  have "CHR ''-'' \<notin> set (show_nat k)" for k using show_nat_digit [of "CHR ''-''" k] by auto
  then have tw: "takeWhile (\<lambda>c. c \<noteq> CHR ''-'') (rev (show_nat k) @ CHR ''-'' # s) = rev (show_nat k)" for k s
    by (subst takeWhile_append2) auto
  have "rev (show_nat (Suc (aq_itemCounter q))) @ CHR ''-'' # rev (''queue-'' @ show_int t) =
      rev (show_nat n) @ CHR ''-'' # rev (''queue-'' @ show_int t')"
    using arg_cong [OF eq, of rev] by (simp only: rev_append rev.simps append_assoc append.simps)
  then have "rev (show_nat (Suc (aq_itemCounter q))) = rev (show_nat n)" by (metis tw)
  then show False using n by (simp add: show_nat_inj)
qed

section \<open>What one removal does\<close>

lemma remove_None:
  assumes "queue_shape q" "removeQueuedOrInflight i q = (None, q')"
  shows "q' = q" "i \<notin> qi_id ` set (all_items q)"
proof -
  have none: "find_index (has_id i) (aq_items q) = None" "js_get (aq_inflight q) i = None" "q' = q"
    using assms(2) by (auto simp: removeQueuedOrInflight_def split: option.splits)
  then have "i \<notin> qi_id ` set (aq_items q)" by (auto simp: find_index_None has_id_def)
  moreover have "i \<notin> set (js_keys (aq_inflight q))" using none(2) by (simp add: map_of_eq_None_iff)
  ultimately show "i \<notin> qi_id ` set (all_items q)"
    using inflight_keys [OF assms(1)] by (metis Un_iff all_items_def image_set map_append set_append)
  show "q' = q" by (rule none(3))
qed

lemma remove_Some:
  assumes "queue_shape q" "removeQueuedOrInflight i q = (Some item, q')"
  shows "qi_id item = i" "mset (all_items q) = add_mset item (mset (all_items q'))"
    "q' = q\<lparr>aq_items := aq_items q', aq_inflight := aq_inflight q'\<rparr>"
    "sorted_wrt (\<lambda>a b. comparePriority a b \<le> 0) (aq_items q')" "length (aq_inflight q') \<le> length (aq_inflight q)"
    "set (aq_inflight q') \<subseteq> set (aq_inflight q)"
proof -
  have sorted: "sorted_wrt (\<lambda>a b. comparePriority a b \<le> 0) (aq_items q)" using assms(1) by (simp add: queue_shape_def)
  have "qi_id item = i \<and> mset (all_items q) = add_mset item (mset (all_items q')) \<and>
    q' = q\<lparr>aq_items := aq_items q', aq_inflight := aq_inflight q'\<rparr> \<and>
    sorted_wrt (\<lambda>a b. comparePriority a b \<le> 0) (aq_items q') \<and> length (aq_inflight q') \<le> length (aq_inflight q) \<and>
    set (aq_inflight q') \<subseteq> set (aq_inflight q)"
  proof (cases "find_index (has_id i) (aq_items q)")
    case (Some n)
    then have n: "n < length (aq_items q)" "qi_id (aq_items q ! n) = i" using find_index_Some [OF Some] by (simp_all add: has_id_def)
    have q': "item = aq_items q ! n" "q' = q\<lparr>aq_items := splice1 n (aq_items q)\<rparr>"
      using assms(2) Some by (simp_all add: removeQueuedOrInflight_def)
    show ?thesis
      using n sorted_splice1 [OF sorted] mset_splice1 [OF n(1)] by (simp add: q' all_items_def)
  next
    case None
    then obtain v where v: "js_get (aq_inflight q) i = Some v" "item = v" "q' = q\<lparr>aq_inflight := js_delete i (aq_inflight q)\<rparr>"
      using assms(2) by (auto simp: removeQueuedOrInflight_def split: option.splits)
    have "(i, v) \<in> set (aq_inflight q)" using v(1) by (rule map_of_SomeD)
    then have "qi_id v = i" using assms(1) by (auto simp: queue_shape_def)
    moreover have m: "mset (aq_inflight q) = add_mset (i, v) (mset (js_delete i (aq_inflight q)))"
      by (rule mset_js_delete [OF inflight_distinct [OF assms(1)] v(1)])
    moreover have "mset (map snd (aq_inflight q)) = add_mset v (mset (map snd (js_delete i (aq_inflight q))))"
      using arg_cong [OF m, of "image_mset snd"] by simp
    moreover have "length (js_delete i (aq_inflight q)) \<le> length (aq_inflight q)" using arg_cong [OF m, of size] by simp
    moreover have "set (js_delete i (aq_inflight q)) \<subseteq> set (aq_inflight q)" by (auto simp: AList.delete_eq)
    ultimately show ?thesis using sorted by (simp add: v all_items_def)
  qed
  then show "qi_id item = i" "mset (all_items q) = add_mset item (mset (all_items q'))"
    "q' = q\<lparr>aq_items := aq_items q', aq_inflight := aq_inflight q'\<rparr>"
    "sorted_wrt (\<lambda>a b. comparePriority a b \<le> 0) (aq_items q')" "length (aq_inflight q') \<le> length (aq_inflight q)"
    "set (aq_inflight q') \<subseteq> set (aq_inflight q)" by blast+
qed


lemma distinct_ids_add:
  assumes "mset xs = add_mset item (mset ys)"
  shows "distinct (map qi_id xs) \<longleftrightarrow> qi_id item \<notin> qi_id ` set ys \<and> distinct (map qi_id ys)"
    "set xs = insert item (set ys)" "length xs = Suc (length ys)"
proof -
  have m: "mset (map qi_id xs) = mset (map qi_id (item # ys))" using assms by simp
  show "distinct (map qi_id xs) \<longleftrightarrow> qi_id item \<notin> qi_id ` set ys \<and> distinct (map qi_id ys)"
    using mset_eq_imp_distinct_iff [OF m] by simp
  show "set xs = insert item (set ys)" using arg_cong [OF assms, of set_mset] by simp
  show "length xs = Suc (length ys)" using arg_cong [OF assms, of size] by simp
qed

lemma publish_simps [simp]:
  "aq_items (publish e q) = aq_items q" "aq_inflight (publish e q) = aq_inflight q"
  "aq_terminalIds (publish e q) = aq_terminalIds q" "aq_maxSize (publish e q) = aq_maxSize q"
  "aq_itemCounter (publish e q) = aq_itemCounter q" "aq_defaultMaxRetries (publish e q) = aq_defaultMaxRetries q"
  "aq_log (publish e q) = aq_log q @ [e]" "all_items (publish e q) = all_items q" "issued (publish e q) = issued q"
  "queue_shape (publish e q) = queue_shape q" "aq_overflowStrategy (publish e q) = aq_overflowStrategy q"
  by (simp_all add: publish_def all_items_def issued_def queue_shape_def fun_eq_iff)

definition silent :: "queue_event \<Rightarrow> bool" where
  "silent e = (\<forall>i. \<not> settles i e \<and> \<not> reschedules i e)"

lemma silent_events: "silent (Item_Evicted i)" "silent (Item_Enqueued i p)" "silent (Item_Dequeued i)"
  by (simp_all add: silent_def)

lemma history_publish: "silent e \<Longrightarrow> queue_history q \<Longrightarrow> queue_history (publish e q)"
  by (simp add: silent_def queue_history_def item_history_def)

text \<open>Items may leave.\<close>

lemma shape_fewer:
  assumes "queue_shape q" "mset (all_items q') \<subseteq># mset (all_items q)" "set (aq_inflight q') \<subseteq> set (aq_inflight q)"
    and "length (aq_inflight q') \<le> length (aq_inflight q)" "sorted_wrt (\<lambda>a b. comparePriority a b \<le> 0) (aq_items q')"
    and "aq_terminalIds q' = aq_terminalIds q" "aq_maxSize q' = aq_maxSize q"
  shows "queue_shape q'"
proof -
  obtain M where "mset (all_items q) = mset (all_items q') + M" using assms(2) unfolding mset_subset_eq_exists_conv by blast
  moreover obtain rest where "mset rest = M" using ex_mset by blast
  ultimately have m: "mset (map qi_id (all_items q)) = mset (map qi_id (all_items q' @ rest))" by simp
  have "distinct (map qi_id (all_items q))" using assms(1) by (simp add: queue_shape_def)
  then have "distinct (map qi_id (all_items q' @ rest))" unfolding mset_eq_imp_distinct_iff [OF m] .
  then have "distinct (map qi_id (all_items q'))" by simp
  moreover have "set (all_items q') \<subseteq> set (all_items q)" using set_mset_mono [OF assms(2)] by simp
  then have "qi_id ` set (all_items q') \<inter> set (js_keys (aq_terminalIds q)) = {}"
    using assms(1) unfolding queue_shape_def by blast
  moreover have "length (all_items q') \<le> length (all_items q)" using size_mset_mono [OF assms(2)] by simp
  moreover have "\<forall>(k, item) \<in> set (aq_inflight q'). k = qi_id item" using assms(1,3) unfolding queue_shape_def by blast
  ultimately show ?thesis using assms(1,4-7) unfolding queue_shape_def by (simp del: set_map)
qed

lemma history_fewer:
  assumes "queue_history q" "set (all_items q') \<subseteq> set (all_items q)" "aq_log q' = aq_log q"
    and "aq_terminalIds q' = aq_terminalIds q" "aq_itemCounter q' = aq_itemCounter q" "aq_defaultMaxRetries q' = aq_defaultMaxRetries q"
  shows "queue_history q'"
proof -
  have "issued q' = issued q" using assms(5) by (simp add: issued_def fun_eq_iff)
  then show ?thesis using assms unfolding queue_history_def item_history_def by auto
qed

lemma removed_inv:
  assumes "queue_inv q" "removeQueuedOrInflight i q = (r, q')"
  shows "queue_inv q'"
proof (cases r)
  case None
  then show ?thesis using assms remove_None(1) by (auto simp: queue_inv_def)
next
  case (Some item)
  have shape: "queue_shape q" and hist: "queue_history q" using assms(1) by (simp_all add: queue_inv_def)
  note rem = remove_Some [OF shape assms(2) [unfolded Some]]
  have fields: "aq_log q' = aq_log q" "aq_terminalIds q' = aq_terminalIds q" "aq_itemCounter q' = aq_itemCounter q"
    "aq_defaultMaxRetries q' = aq_defaultMaxRetries q" "aq_maxSize q' = aq_maxSize q"
    by (subst rem(3), simp)+
  have "queue_shape q'"
    by (rule shape_fewer [OF shape _ rem(6,5,4) fields(2,5)]) (simp add: rem(2))
  moreover have "queue_history q'"
    by (rule history_fewer [OF hist _ fields(1-4)]) (simp add: distinct_ids_add(2) [OF rem(2)] subset_insertI)
  ultimately show ?thesis by (simp add: queue_inv_def)
qed

section \<open>Settling\<close>

lemma markTerminal_simps [simp]:
  "aq_items (markTerminal i t q) = aq_items q" "aq_inflight (markTerminal i t q) = aq_inflight q"
  "aq_maxSize (markTerminal i t q) = aq_maxSize q" "aq_itemCounter (markTerminal i t q) = aq_itemCounter q"
  "aq_defaultMaxRetries (markTerminal i t q) = aq_defaultMaxRetries q" "aq_log (markTerminal i t q) = aq_log q"
  "all_items (markTerminal i t q) = all_items q" "issued (markTerminal i t q) = issued q"
  by (simp_all add: markTerminal_def all_items_def issued_def Let_def fun_eq_iff)

lemma markTerminal_ids:
  assumes "distinct (js_keys (aq_terminalIds q))" "length (aq_terminalIds q) \<le> MAX_TERMINAL_IDS" "\<not> js_has (aq_terminalIds q) i"
  shows "distinct (js_keys (aq_terminalIds (markTerminal i t q)))" "length (aq_terminalIds (markTerminal i t q)) \<le> MAX_TERMINAL_IDS"
    "set (js_keys (aq_terminalIds (markTerminal i t q))) \<subseteq> insert i (set (js_keys (aq_terminalIds q)))"
    "js_has (aq_terminalIds (markTerminal i t q)) i"
proof -
  let ?old = "aq_terminalIds q"
  let ?ids = "js_set i t ?old"
  have new: "i \<notin> set (js_keys ?old)" using assms(3) by (simp add: js_has_keys)
  then have ids: "?ids = ?old @ [(i, t)]" by (rule js_set_fresh)
  have d: "distinct (js_keys ?ids)" using assms(1) new by (simp add: ids)
  have "distinct (js_keys (aq_terminalIds (markTerminal i t q))) \<and> length (aq_terminalIds (markTerminal i t q)) \<le> MAX_TERMINAL_IDS \<and>
    set (js_keys (aq_terminalIds (markTerminal i t q))) \<subseteq> insert i (set (js_keys ?old)) \<and> js_has (aq_terminalIds (markTerminal i t q)) i"
  proof (cases "length ?ids > MAX_TERMINAL_IDS")
    case True
    then have len: "length ?old = MAX_TERMINAL_IDS" using assms(2) by (simp add: ids)
    then obtain p m where old: "?old = p # m" by (cases ?old) (auto simp: MAX_TERMINAL_IDS_def)
    then have k: "js_keys ?ids = fst p # (js_keys m @ [i])" unfolding ids by simp
    then have keys: "js_keys (js_delete (fst p) ?ids) = js_keys m @ [i]" by (rule js_maps.length_del_hd [OF d])
    then have "length (js_delete (fst p) ?ids) = Suc (length m)" by (metis length_append_singleton length_map)
    moreover have "aq_terminalIds (markTerminal i t q) = js_delete (fst p) ?ids"
      using True k by (simp add: markTerminal_def Let_def)
    ultimately show ?thesis using d k keys old len by (auto simp: js_has_keys)
  next
    case False
    then have "aq_terminalIds (markTerminal i t q) = ?ids" by (simp add: markTerminal_def Let_def)
    then show ?thesis using d False by (auto simp: ids js_has_keys)
  qed
  then show "distinct (js_keys (aq_terminalIds (markTerminal i t q)))" "length (aq_terminalIds (markTerminal i t q)) \<le> MAX_TERMINAL_IDS"
    "set (js_keys (aq_terminalIds (markTerminal i t q))) \<subseteq> insert i (set (js_keys ?old))"
    "js_has (aq_terminalIds (markTerminal i t q)) i" by blast+
qed

lemma settled_inv:
  assumes "queue_inv q" "removeQueuedOrInflight i q = (Some item, q')" "\<not> js_has (aq_terminalIds q) i"
    and e: "\<And>j. settles j e = (j = i)" "\<And>j. \<not> reschedules j e"
  shows "queue_inv (publish e (markTerminal i t q'))"
proof -
  have shape: "queue_shape q" and hist: "queue_history q" using assms(1) by (simp_all add: queue_inv_def)
  have inv': "queue_inv q'" by (rule removed_inv [OF assms(1,2)])
  note rem = remove_Some [OF shape assms(2)]
  have fields: "aq_log q' = aq_log q" "aq_terminalIds q' = aq_terminalIds q" "aq_itemCounter q' = aq_itemCounter q"
    "aq_defaultMaxRetries q' = aq_defaultMaxRetries q"
    by (subst rem(3), simp)+
  have issued: "issued q' = issued q" using fields(3) by (simp add: issued_def fun_eq_iff)
  have fresh: "i \<notin> qi_id ` set (all_items q')"
    using shape distinct_ids_add(1) [OF rem(2)] rem(1) by (simp add: queue_shape_def)
  have "item \<in> set (all_items q)" using distinct_ids_add(2) [OF rem(2)] by simp
  then have "item_history q item" using hist by (simp add: queue_history_def)
  then have old: "issued q i" "occurrences (settles i) (aq_log q) = 0" using rem(1) by (simp_all add: item_history_def)
  have shape': "queue_shape q'" and hist': "queue_history q'" using inv' by (simp_all add: queue_inv_def)
  have "distinct (js_keys (aq_terminalIds q'))" "length (aq_terminalIds q') \<le> MAX_TERMINAL_IDS"
    using shape' by (simp_all add: queue_shape_def)
  note ids = markTerminal_ids [OF this, of i t, unfolded fields(2), OF assms(3)]
  have "qi_id ` set (all_items q') \<inter> set (js_keys (aq_terminalIds (markTerminal i t q'))) = {}"
    using shape' ids(3) fresh unfolding queue_shape_def fields(2) by blast
  then have "queue_shape (markTerminal i t q')"
    using shape' ids(1,2) unfolding queue_shape_def by simp
  moreover have "\<forall>j \<in> set (js_keys (aq_terminalIds (markTerminal i t q'))). issued q j"
    using hist' ids(3) old(1) unfolding queue_history_def fields issued by blast
  then have "queue_history (publish e (markTerminal i t q'))"
    using hist' fresh old unfolding queue_history_def item_history_def fields issued
    by (auto simp: e fields issued simp del: set_map)
  ultimately show ?thesis by (simp add: queue_inv_def)
qed


section \<open>The operations keep the invariant\<close>

lemma remove_inv: "queue_inv q \<Longrightarrow> queue_inv (snd (remove_item i q))"
  using removed_inv by (auto simp: remove_item_def split: prod.split)

lemma complete_inv: "queue_inv q \<Longrightarrow> queue_inv (snd (complete_item i t q))"
proof -
  assume inv: "queue_inv q"
  obtain r q' where rem: "removeQueuedOrInflight i q = (r, q')" by (cases "removeQueuedOrInflight i q")
  show ?thesis
  proof (cases r)
    case None
    then show ?thesis using inv removed_inv [OF inv rem] by (simp add: complete_item_def rem)
  next
    case (Some item)
    show ?thesis
    proof (cases "js_has (aq_terminalIds q) i")
      case True
      then show ?thesis using inv by (simp add: complete_item_def)
    next
      case False
      then show ?thesis
        using settled_inv [OF inv rem [unfolded Some] False, of "Item_Completed i" t] Some
        by (simp add: complete_item_def rem eq_commute [of i])
    qed
  qed
qed

lemma get_item_remove: "get_item i q = fst (removeQueuedOrInflight i q)"
proof -
  have "List.find P xs = map_option ((!) xs) (find_index P xs)" for P :: "'a queue_item \<Rightarrow> bool" and xs
    by (induction xs) (auto simp: option.map_comp comp_def)
  then show ?thesis by (auto simp: get_item_def removeQueuedOrInflight_def split: option.split)
qed

lemma sorted_same_keys:
  fixes xs ys :: "'a queue_item list"
  assumes "map (\<lambda>a. (qi_priority a, qi_createdAt a)) xs = map (\<lambda>a. (qi_priority a, qi_createdAt a)) ys"
    and "sorted_wrt (\<lambda>a b. comparePriority a b \<le> 0) xs"
  shows "sorted_wrt (\<lambda>a b. comparePriority a b \<le> 0) ys"
proof -
  let ?c = "\<lambda>(p, t) (p', t'). cmp_or (priority_order p - priority_order p') (t - t') \<le> 0"
  have key: "sorted_wrt (\<lambda>a b. comparePriority a b \<le> 0) zs = sorted_wrt ?c (map (\<lambda>a. (qi_priority a, qi_createdAt a)) zs)"
    for zs :: "'a queue_item list"
    unfolding sorted_wrt_map by (simp add: comparePriority_def)
  show ?thesis using assms(2) unfolding key assms(1) .
qed

lemma requeue_spec:
  assumes "queue_shape q" "get_item i q = Some item" "qi_id item' = i" "qi_priority item' = qi_priority item"
    "qi_createdAt item' = qi_createdAt item"
  shows "queue_shape (requeue i item' q) \<and> requeue i item' q = q\<lparr>aq_items := aq_items (requeue i item' q), aq_inflight := aq_inflight (requeue i item' q)\<rparr> \<and>
    (\<exists>others. mset (all_items q) = add_mset item (mset others) \<and> mset (all_items (requeue i item' q)) = add_mset item' (mset others))"
proof (cases "find_index (has_id i) (aq_items q)")
  case (Some n)
  then have n: "n < length (aq_items q)" "qi_id (aq_items q ! n) = i" using find_index_Some [OF Some] by (simp_all add: has_id_def)
  have item: "item = aq_items q ! n" using assms(2) Some unfolding get_item_remove by (simp add: removeQueuedOrInflight_def)
  have "i \<in> qi_id ` set (aq_items q)" using n by (metis image_eqI nth_mem)
  then have "i \<notin> set (js_keys (aq_inflight q))"
    using assms(1) unfolding inflight_keys [OF assms(1)] by (auto simp: queue_shape_def all_items_def)
  then have rq: "requeue i item' q = q\<lparr>aq_items := (aq_items q)[n := item']\<rparr>"
    using Some by (simp add: requeue_def js_delete_fresh del: set_map)
  have ids: "map qi_id ((aq_items q)[n := item']) = map qi_id (aq_items q)"
    using n assms(3) by (metis list_update_id map_update)
  have keys: "map (\<lambda>a. (qi_priority a, qi_createdAt a)) ((aq_items q)[n := item']) = map (\<lambda>a. (qi_priority a, qi_createdAt a)) (aq_items q)"
    using n(1) assms(4,5) item by (simp add: map_update list_update_same_conv)
  have sorted: "sorted_wrt (\<lambda>a b. comparePriority a b \<le> 0) ((aq_items q)[n := item'])"
    using assms(1) sorted_same_keys [OF keys [symmetric]] by (simp add: queue_shape_def)
  have all: "map qi_id (all_items (requeue i item' q)) = map qi_id (all_items q)"
    using ids by (simp add: rq all_items_def)
  then have "qi_id ` set (all_items (requeue i item' q)) = qi_id ` set (all_items q)"
    "length (all_items (requeue i item' q)) = length (all_items q)"
    by (metis list.set_map, metis length_map)
  then have "queue_shape (requeue i item' q)"
    using assms(1) sorted all unfolding queue_shape_def by (simp add: rq)
  moreover have "mset (all_items q) = add_mset item (mset (splice1 n (aq_items q) @ map snd (aq_inflight q)))"
    using mset_splice1 [OF n(1)] by (simp add: all_items_def item)
  moreover have "mset ((aq_items q)[n := item']) = add_mset item' (mset (splice1 n (aq_items q)))"
    using n(1) by (simp add: splice1_def upd_conv_take_nth_drop)
  then have "mset (all_items (requeue i item' q)) = add_mset item' (mset (splice1 n (aq_items q) @ map snd (aq_inflight q)))"
    by (simp add: rq all_items_def)
  moreover have "requeue i item' q = q\<lparr>aq_items := aq_items (requeue i item' q), aq_inflight := aq_inflight (requeue i item' q)\<rparr>"
    by (simp add: rq)
  ultimately show ?thesis by blast
next
  case None
  then have v: "js_get (aq_inflight q) i = Some item"
    using assms(2) unfolding get_item_remove by (auto simp: removeQueuedOrInflight_def split: option.splits)
  let ?m = "js_delete i (aq_inflight q)"
  have rq: "requeue i item' q = push_sorted item' (q\<lparr>aq_inflight := ?m\<rparr>)" using None by (simp add: requeue_def)
  have m: "mset (aq_inflight q) = add_mset (i, item) (mset ?m)"
    by (rule mset_js_delete [OF inflight_distinct [OF assms(1)] v])
  have m2: "mset (map snd (aq_inflight q)) = add_mset item (mset (map snd ?m))" using arg_cong [OF m, of "image_mset snd"] by simp
  have len: "length (aq_inflight q) = Suc (length ?m)" using arg_cong [OF m, of size] by simp
  have sub: "set ?m \<subseteq> set (aq_inflight q)" by (auto simp: AList.delete_eq)
  let ?rest = "aq_items q @ map snd ?m"
  have old: "mset (all_items q) = add_mset item (mset ?rest)" using m2 by (simp add: all_items_def)
  have new: "mset (all_items (requeue i item' q)) = add_mset item' (mset ?rest)" by (simp add: rq push_sorted_def all_items_def)
  have "qi_id item = i" using v assms(1) by (auto simp: queue_shape_def dest: map_of_SomeD)
  then have ids: "qi_id ` set (all_items (requeue i item' q)) = qi_id ` set (all_items q)"
    "distinct (map qi_id (all_items (requeue i item' q))) = distinct (map qi_id (all_items q))"
    "length (all_items (requeue i item' q)) = length (all_items q)"
    using distinct_ids_add [OF old] distinct_ids_add [OF new] assms(3) by simp_all
  have "queue_shape (requeue i item' q)"
    using assms(1) ids len sub queue_prio.sorted_js_sort unfolding queue_shape_def
    by (auto simp: rq push_sorted_def)
  moreover have "requeue i item' q = q\<lparr>aq_items := aq_items (requeue i item' q), aq_inflight := aq_inflight (requeue i item' q)\<rparr>"
    by (simp add: rq push_sorted_def)
  ultimately show ?thesis using old new by blast
qed


lemma rescheduled_history:
  assumes "queue_shape q" "queue_history q"
    and m: "mset (all_items q) = add_mset item (mset others)" "mset (all_items q') = add_mset item' (mset others)"
    and fields: "aq_log q' = aq_log q" "aq_terminalIds q' = aq_terminalIds q" "aq_itemCounter q' = aq_itemCounter q"
      "aq_defaultMaxRetries q' = aq_defaultMaxRetries q"
    and ids: "qi_id item = i" "qi_id item' = i"
    and r: "qi_retry item = Some r" "qi_retry item' = Some r'" "rm_maxAttempts r' = rm_maxAttempts r"
      "rm_attempts r' = rm_attempts r + 1" "rm_attempts r' < rm_maxAttempts r"
  shows "queue_history (publish (Item_Retry_Scheduled i a b c) q')"
proof -
  let ?e = "Item_Retry_Scheduled i a b c"
  have issued: "issued q' = issued q" using fields(3) by (simp add: issued_def fun_eq_iff)
  have "i \<notin> qi_id ` set others"
    using assms(1) distinct_ids_add(1) [OF m(1)] ids(1) unfolding queue_shape_def by blast
  then have other: "qi_id x \<noteq> i" if "x \<in> set others" for x using that by blast
  have "item_history q item" using assms(2) distinct_ids_add(2) [OF m(1)] by (simp add: queue_history_def)
  then have ih: "issued q i" "occurrences (settles i) (aq_log q) = 0" "rm_maxAttempts r = aq_defaultMaxRetries q"
    "rm_attempts r = int (occurrences (reschedules i) (aq_log q))"
    using ids(1) r(1) by (simp_all add: item_history_def)
  have "item_history (publish ?e q') x" if "x \<in> set (all_items q')" for x
  proof (cases "x = item'")
    case True
    then show ?thesis using ids(2) r ih by (simp add: item_history_def fields issued)
  next
    case False
    then have x: "x \<in> set others" using that distinct_ids_add(2) [OF m(2)] by auto
    then have "item_history q x" using assms(2) distinct_ids_add(2) [OF m(1)] by (simp add: queue_history_def)
    then show ?thesis using other [OF x] by (auto simp: item_history_def fields issued)
  qed
  moreover have "int (occurrences (reschedules i) (aq_log q)) + 1 \<le> max 0 (aq_defaultMaxRetries q - 1)"
    using r(4,5) ih(3,4) by simp
  ultimately show ?thesis
    using assms(2) ih(1) unfolding queue_history_def by (auto simp: fields issued)
qed

lemma retry_inv: "queue_inv q \<Longrightarrow> queue_inv (snd (retry_item i t now q))"
proof -
  assume inv: "queue_inv q"
  then have shape: "queue_shape q" and hist: "queue_history q" by (simp_all add: queue_inv_def)
  show ?thesis
  proof (cases "js_has (aq_terminalIds q) i \<or> get_item i q = None")
    case True
    then show ?thesis using inv by (auto simp: retry_item_def)
  next
    case False
    then have fresh: "\<not> js_has (aq_terminalIds q) i" by simp
    obtain item where item: "get_item i q = Some item" using False by auto
    then obtain q' where rem: "removeQueuedOrInflight i q = (Some item, q')"
      unfolding get_item_remove by (metis prod.collapse)
    note spec = remove_Some [OF shape rem]
    have "item \<in> set (all_items q)" using distinct_ids_add(2) [OF spec(2)] by simp
    then have ih: "item_history q item" using hist by (simp add: queue_history_def)
    then obtain r where r: "qi_retry item = Some r" "rm_maxAttempts r = aq_defaultMaxRetries q"
      "rm_attempts r = int (occurrences (reschedules i) (aq_log q))" using spec(1) by (auto simp: item_history_def)
    show ?thesis
    proof (cases "rm_attempts (failed_once t r) \<ge> rm_maxAttempts (failed_once t r)")
      case True
      then show ?thesis
        using settled_inv [OF inv rem fresh, of "Item_Failed i (rm_attempts (failed_once t r))" now]
        by (simp add: retry_item_def fresh item r(1) rem eq_commute [of i] Let_def)
    next
      case False
      let ?r = "failed_once t r"
      let ?item = "item\<lparr>qi_retry := Some (?r\<lparr>rm_nextAttemptAt := Some (now + backoff_of ?r)\<rparr>)\<rparr>"
      let ?q = "requeue i ?item q"
      let ?e = "Item_Retry_Scheduled i (rm_attempts ?r) (now + backoff_of ?r) (backoff_of ?r)"
      have step: "snd (retry_item i t now q) = publish ?e ?q"
        using False by (simp add: retry_item_def fresh item r(1) Let_def)
      obtain others where rq: "queue_shape ?q" "?q = q\<lparr>aq_items := aq_items ?q, aq_inflight := aq_inflight ?q\<rparr>"
        "mset (all_items q) = add_mset item (mset others)" "mset (all_items ?q) = add_mset ?item (mset others)"
        using requeue_spec [OF shape item, of ?item] spec(1) by auto
      have fields: "aq_log ?q = aq_log q" "aq_terminalIds ?q = aq_terminalIds q" "aq_itemCounter ?q = aq_itemCounter q"
        "aq_defaultMaxRetries ?q = aq_defaultMaxRetries q"
        by (subst rq(2), simp)+
      have "queue_history (publish ?e ?q)"
        using spec(1) False
        by (intro rescheduled_history [OF shape hist rq(3,4) fields spec(1) _ r(1),
              where r' = "?r\<lparr>rm_nextAttemptAt := Some (now + backoff_of ?r)\<rparr>"])
          (simp_all add: failed_once_def)
      then show ?thesis unfolding step using rq(1) by (simp add: queue_inv_def)
    qed
  qed
qed

lemma dequeue_cases:
  assumes "queue_shape q"
  shows "dequeue now q = (None, q) \<and> (aq_maxSize q \<le> length (aq_inflight q) \<or> (\<forall>item \<in> set (aq_items q). \<not> is_due now item)) \<or>
    (\<exists>n item q'. length (aq_inflight q) < aq_maxSize q \<and> n < length (aq_items q) \<and> item = aq_items q ! n \<and> is_due now item \<and>
      (\<forall>m<n. \<not> is_due now (aq_items q ! m)) \<and>
      q' = q\<lparr>aq_items := splice1 n (aq_items q), aq_inflight := aq_inflight q @ [(qi_id item, item)]\<rparr> \<and>
      dequeue now q = (Some item, publish (Item_Dequeued (qi_id item)) q'))"
proof (cases "length (aq_inflight q) \<ge> aq_maxSize q")
  case True
  then show ?thesis by (simp add: dequeue_def)
next
  case room: False
  show ?thesis
  proof (cases "find_index (is_due now) (aq_items q)")
    case None
    then have "\<forall>item \<in> set (aq_items q). \<not> is_due now item" by (simp only: find_index_None)
    then show ?thesis using None room by (simp add: dequeue_def)
  next
    case (Some n)
    note n = find_index_Some [OF Some]
    have "qi_id (aq_items q ! n) \<in> qi_id ` set (aq_items q)" using n by simp
    then have "qi_id (aq_items q ! n) \<notin> set (js_keys (aq_inflight q))"
      using assms unfolding inflight_keys [OF assms] by (auto simp: queue_shape_def all_items_def)
    then have "js_set (qi_id (aq_items q ! n)) (aq_items q ! n) (aq_inflight q) = aq_inflight q @ [(qi_id (aq_items q ! n), aq_items q ! n)]"
      by (rule js_set_fresh)
    then have "dequeue now q = (Some (aq_items q ! n), publish (Item_Dequeued (qi_id (aq_items q ! n)))
        (q\<lparr>aq_items := splice1 n (aq_items q), aq_inflight := aq_inflight q @ [(qi_id (aq_items q ! n), aq_items q ! n)]\<rparr>))"
      using room Some by (simp add: dequeue_def Let_def)
    then show ?thesis using room n by auto
  qed
qed

lemma dequeue_inv: "queue_inv q \<Longrightarrow> queue_inv (snd (dequeue now q))"
proof -
  assume inv: "queue_inv q"
  then have shape: "queue_shape q" and hist: "queue_history q" by (simp_all add: queue_inv_def)
  from dequeue_cases [OF shape, of now] show ?thesis
  proof (elim disjE conjE exE)
    fix n item q'
    assume n: "length (aq_inflight q) < aq_maxSize q" "n < length (aq_items q)" "item = aq_items q ! n"
      and q': "q' = q\<lparr>aq_items := splice1 n (aq_items q), aq_inflight := aq_inflight q @ [(qi_id item, item)]\<rparr>"
      and d: "dequeue now q = (Some item, publish (Item_Dequeued (qi_id item)) q')"
    have m: "mset (all_items q') = mset (all_items q)" using mset_splice1 [OF n(2)] by (simp add: q' all_items_def n(3))
    then have "mset (map qi_id (all_items q')) = mset (map qi_id (all_items q))" by simp
    then have "distinct (map qi_id (all_items q')) = distinct (map qi_id (all_items q))" by (rule mset_eq_imp_distinct_iff)
    moreover have set: "set (all_items q') = set (all_items q)" and "length (all_items q') = length (all_items q)"
      using m by (metis set_mset_mset, metis size_mset)
    ultimately have "queue_shape q'"
      using shape n(1) sorted_splice1 unfolding queue_shape_def by (auto simp: q' simp del: set_map)
    moreover have "queue_history q'" by (rule history_fewer [OF hist]) (simp_all add: set, simp_all add: q')
    ultimately show ?thesis by (simp add: d queue_inv_def history_publish silent_events)
  qed (use inv in simp_all)
qed

section \<open>Enqueueing\<close>

lemma oldest_index_spec:
  assumes "items \<noteq> []"
  shows "oldest_index items < length items \<and> (\<forall>item \<in> set items. qi_createdAt (items ! oldest_index items) \<le> qi_createdAt item)"
proof -
  let ?f = "\<lambda>i oldest. if qi_createdAt (items ! i) < qi_createdAt (items ! oldest) then i else oldest"
  have "fold ?f [1..<Suc n] 0 < Suc n \<and> (\<forall>j<Suc n. qi_createdAt (items ! fold ?f [1..<Suc n] 0) \<le> qi_createdAt (items ! j))" for n
  proof (induction n)
    case 0
    then show ?case by simp
  next
    case (Suc n)
    have "[1..<Suc (Suc n)] = [1..<Suc n] @ [Suc n]" by simp
    then show ?case using Suc by (auto simp: less_Suc_eq simp del: upt_Suc)
  qed
  from this [of "length items - 1"] assms show ?thesis
    by (auto simp: oldest_index_def in_set_conv_nth simp del: upt_Suc)
qed

lemma evict_inv:
  assumes "queue_inv q"
  shows "queue_inv (evict_oldest q)"
    and "aq_items q \<noteq> [] \<Longrightarrow> length (all_items q) = Suc (length (all_items (evict_oldest q)))"
    and "aq_inflight (evict_oldest q) = aq_inflight q" "aq_maxSize (evict_oldest q) = aq_maxSize q"
proof -
  have shape: "queue_shape q" and hist: "queue_history q" using assms by (simp_all add: queue_inv_def)
  let ?n = "oldest_index (aq_items q)"
  let ?q = "q\<lparr>aq_items := splice1 ?n (aq_items q)\<rparr>"
  show "aq_inflight (evict_oldest q) = aq_inflight q" "aq_maxSize (evict_oldest q) = aq_maxSize q"
    by (simp_all add: evict_oldest_def Let_def)
  have fewer: "mset (all_items q) = add_mset (aq_items q ! ?n) (mset (all_items ?q))" if "aq_items q \<noteq> []"
    using mset_splice1 [of ?n "aq_items q"] oldest_index_spec [OF that] by (simp add: all_items_def)
  show "length (all_items q) = Suc (length (all_items (evict_oldest q)))" if "aq_items q \<noteq> []"
    using distinct_ids_add(3) [OF fewer [OF that]] that by (simp add: evict_oldest_def Let_def)
  show "queue_inv (evict_oldest q)"
  proof (cases "aq_items q = []")
    case True
    then show ?thesis using assms by (simp add: evict_oldest_def)
  next
    case False
    have "sorted_wrt (\<lambda>a b. comparePriority a b \<le> 0) (aq_items ?q)" using shape by (simp add: queue_shape_def sorted_splice1)
    then have "queue_shape ?q" by (intro shape_fewer [OF shape]) (simp_all add: fewer [OF False])
    moreover have "set (all_items ?q) \<subseteq> set (all_items q)" using distinct_ids_add(2) [OF fewer [OF False]] by auto
    then have "queue_history ?q" by (rule history_fewer [OF hist]) simp_all
    ultimately show ?thesis using False by (simp add: evict_oldest_def Let_def queue_inv_def history_publish silent_events)
  qed
qed

lemma insert_inv:
  assumes "queue_inv q" "length (all_items q) < max 1 (2 * aq_maxSize q)"
    and "\<not> issued q i" "issued (q\<lparr>aq_itemCounter := Suc (aq_itemCounter q)\<rparr>) i"
  shows "queue_inv (push_sorted (new_item payload p i created (q\<lparr>aq_itemCounter := Suc (aq_itemCounter q)\<rparr>))
    (q\<lparr>aq_itemCounter := Suc (aq_itemCounter q)\<rparr>))"
proof -
  have shape: "queue_shape q" and hist: "queue_history q" using assms(1) by (simp_all add: queue_inv_def)
  let ?g = "q\<lparr>aq_itemCounter := Suc (aq_itemCounter q)\<rparr>"
  let ?item = "new_item payload p i created ?g"
  let ?q = "push_sorted ?item ?g"
  have m: "mset (all_items ?q) = add_mset ?item (mset (all_items q))" by (simp add: push_sorted_def all_items_def)
  have id_item: "qi_id ?item = i" by (simp add: new_item_def)
  have "i \<notin> qi_id ` set (all_items q)" using hist assms(3) by (auto simp: queue_history_def item_history_def)
  moreover have "i \<notin> set (js_keys (aq_terminalIds q))" using hist assms(3) unfolding queue_history_def by blast
  ultimately have "distinct (map qi_id (all_items ?q)) \<and> length (all_items ?q) \<le> max 1 (2 * aq_maxSize q) \<and>
    qi_id ` set (all_items ?q) \<inter> set (js_keys (aq_terminalIds q)) = {}"
    using shape assms(2) distinct_ids_add [OF m] unfolding queue_shape_def by (simp add: id_item del: set_map)
  then have shape': "queue_shape ?q"
    using shape queue_prio.sorted_js_sort unfolding queue_shape_def by (simp add: push_sorted_def)
  have more: "issued ?q j" if "issued q j" for j
    using that by (auto simp: issued_def push_sorted_def intro: le_SucI)
  have "issued ?q i" using assms(4) by (simp add: issued_def push_sorted_def)
  moreover have "occurrences (settles i) (aq_log q) = 0 \<and> occurrences (reschedules i) (aq_log q) = 0"
    using hist assms(3) unfolding queue_history_def by blast
  ultimately have "item_history ?q ?item" unfolding item_history_def id_item by (simp add: push_sorted_def new_item_def)
  moreover have "item_history ?q x" if "item_history q x" for x
    using that more by (auto simp: item_history_def push_sorted_def)
  ultimately have "\<forall>x \<in> set (all_items ?q). item_history ?q x"
    using hist distinct_ids_add(2) [OF m] by (simp add: queue_history_def)
  moreover have "aq_log ?q = aq_log q" "aq_terminalIds ?q = aq_terminalIds q" "aq_defaultMaxRetries ?q = aq_defaultMaxRetries q"
    by (simp_all add: push_sorted_def)
  ultimately have "queue_history ?q" using hist more unfolding queue_history_def by metis
  then show ?thesis using shape' by (simp add: queue_inv_def)
qed

lemma enqueue_inv: "queue_inv q \<Longrightarrow> queue_inv (snd (enqueue payload p t created q))"
proof (cases "length (aq_items q) \<ge> aq_maxSize q \<and> aq_overflowStrategy q = Overflow_Throw")
  case True
  assume "queue_inv q"
  then show ?thesis using True by (simp add: enqueue_def)
next
  case False
  assume inv: "queue_inv q"
  then have shape: "queue_shape q" by (simp add: queue_inv_def)
  let ?q1 = "if length (aq_items q) \<ge> aq_maxSize q then evict_oldest q else q"
  have len: "length (aq_inflight q) \<le> aq_maxSize q" "length (all_items q) \<le> max 1 (2 * aq_maxSize q)"
    using shape by (simp_all add: queue_shape_def)
  have inv1: "queue_inv ?q1" using inv evict_inv(1) [OF inv] by simp
  have max1: "aq_maxSize ?q1 = aq_maxSize q" using evict_inv(4) [OF inv] by simp
  have "length (all_items ?q1) < max 1 (2 * aq_maxSize q)"
  proof (cases "length (aq_items q) \<ge> aq_maxSize q")
    case full: True
    show ?thesis
    proof (cases "aq_items q = []")
      case True
      then have "length (all_items ?q1) = 0" using full len(1) by (simp add: evict_oldest_def all_items_def)
      then show ?thesis by simp
    next
      case False
      then show ?thesis using full evict_inv(2) [OF inv False] len(2) by simp
    qed
  next
    case False
    then show ?thesis using len(1) by (simp add: all_items_def)
  qed
  then have room: "length (all_items ?q1) < max 1 (2 * aq_maxSize ?q1)" unfolding max1 .
  let ?i = "fst (generateId t ?q1)"
  let ?g = "?q1\<lparr>aq_itemCounter := Suc (aq_itemCounter ?q1)\<rparr>"
  have i: "\<not> issued ?q1 ?i" "issued ?g ?i"
    using generated_id_fresh [of ?q1 t] by (simp_all only: generateId_def fst_conv) (auto simp: issued_def)
  have "snd (enqueue payload p t created q) = publish (Item_Enqueued ?i p) (push_sorted (new_item payload p ?i created ?g) ?g)"
    using False by (cases "length (aq_items q) \<ge> aq_maxSize q") (simp_all add: enqueue_def Let_def generateId_def)
  then show ?thesis
    using insert_inv [OF inv1 room i, of payload p created] by (simp add: queue_inv_def history_publish silent_events)
qed

section \<open>Clearing, and every run\<close>

lemma publish_all: "fold (\<lambda>x. publish (f x)) xs q = q\<lparr>aq_log := aq_log q @ map f xs\<rparr>"
  by (induction xs arbitrary: q) (simp_all add: publish_def)

lemma occurrences_evicted: "occurrences (settles i) (map (\<lambda>x. Item_Evicted (f x)) xs) = 0"
  "occurrences (reschedules i) (map (\<lambda>x. Item_Evicted (f x)) xs) = 0"
  by (simp_all add: occurrences_def filter_empty_conv)

lemma clear_simps:
  "clear_queue q = q\<lparr>aq_items := [], aq_inflight := [],
     aq_log := aq_log q @ map (\<lambda>item. Item_Evicted (qi_id item)) (aq_items q) @ map (\<lambda>p. Item_Evicted (qi_id (snd p))) (aq_inflight q)\<rparr>"
  by (simp add: clear_queue_def publish_all case_prod_unfold Let_def)

lemma clear_inv: "queue_inv q \<Longrightarrow> queue_inv (clear_queue q)"
  by (simp add: clear_simps queue_inv_def queue_shape_def queue_history_def all_items_def issued_def occurrences_evicted)

lemma queue_step_inv: "queue_inv q \<Longrightarrow> queue_inv (queue_step op q)"
  by (cases op) (simp_all add: enqueue_inv dequeue_inv remove_inv complete_inv retry_inv clear_inv)

interpretation queue: invariant_machine queue_step queue_inv
  by unfold_locales (rule queue_step_inv)

lemma new_queue_inv: "queue_inv (newQueue config)"
  by (simp add: newQueue_def Let_def queue_inv_def queue_shape_def queue_history_def all_items_def)

lemma queue_run_inv: "queue_inv (fold queue_step ops (newQueue config))"
  by (rule queue.inv_run [OF new_queue_inv])


section \<open>Properties\<close>

lemma live_not_terminal: "queue_inv q \<Longrightarrow> get_item i q \<noteq> None \<Longrightarrow> \<not> js_has (aq_terminalIds q) i"
proof -
  assume inv: "queue_inv q" and live: "get_item i q \<noteq> None"
  then have shape: "queue_shape q" by (simp add: queue_inv_def)
  obtain item q' where rem: "removeQueuedOrInflight i q = (Some item, q')"
    using live unfolding get_item_remove by (metis not_Some_eq prod.collapse)
  note spec = remove_Some [OF shape rem]
  have "i \<in> qi_id ` set (all_items q)" using distinct_ids_add(2) [OF spec(2)] spec(1) by auto
  then show ?thesis using shape unfolding queue_shape_def js_has_keys by blast
qed

lemma live_history:
  assumes "queue_inv q" "get_item i q = Some item"
  shows "qi_id item = i" "item_history q item"
proof -
  have shape: "queue_shape q" and hist: "queue_history q" using assms(1) by (simp_all add: queue_inv_def)
  obtain q' where rem: "removeQueuedOrInflight i q = (Some item, q')"
    using assms(2) unfolding get_item_remove by (metis prod.collapse)
  note spec = remove_Some [OF shape rem]
  show "qi_id item = i" by (rule spec(1))
  show "item_history q item" using hist distinct_ids_add(2) [OF spec(2)] by (simp add: queue_history_def)
qed

text \<open>C12: An item settles exactly once.  After any sequence of operations no identifier has more than one completed or failed
  event in the log; \<open>complete\<close> succeeds exactly on the identifiers that are queued or in flight; and once an identifier
  has settled it is in neither set, and completing, retrying and removing it all return false.\<close>

theorem queue_settles_once:
  assumes "q = fold queue_step ops (newQueue config)"
  shows "occurrences (settles i) (aq_log q) \<le> 1 \<and> (fst (complete_item i t q) \<longleftrightarrow> get_item i q \<noteq> None) \<and>
    (occurrences (settles i) (aq_log q) = 1 \<longrightarrow>
      get_item i q = None \<and> \<not> fst (complete_item i t q) \<and> \<not> fst (retry_item i t t' q) \<and> \<not> fst (remove_item i q))"
proof -
  have inv: "queue_inv q" unfolding assms by (rule queue_run_inv)
  then have once: "occurrences (settles i) (aq_log q) \<le> 1" unfolding queue_inv_def queue_history_def by blast
  have complete: "fst (complete_item i t q) \<longleftrightarrow> get_item i q \<noteq> None"
    using live_not_terminal [OF inv, of i]
    by (auto simp: complete_item_def get_item_remove split: prod.split)
  have "get_item i q = None" if settled: "occurrences (settles i) (aq_log q) = 1"
  proof (rule ccontr)
    assume "get_item i q \<noteq> None"
    then obtain item where "get_item i q = Some item" by auto
    from live_history [OF inv this] settled show False by (simp add: item_history_def)
  qed
  moreover have "\<not> fst (retry_item i t t' q) \<and> \<not> fst (remove_item i q)" if "get_item i q = None"
    using that by (auto simp: retry_item_def remove_item_def get_item_remove split: prod.split)
  ultimately show ?thesis using once complete by blast
qed

text \<open>The queue stays bounded and in order after any sequence of operations: at most \<open>maxSize\<close> items are in flight, at
  most twice \<open>maxSize\<close> (and never more than one for a queue of size zero) are held in all, each under its own identifier
  and in exactly one place, at most 2048 settled identifiers are remembered, and the queued items are sorted by priority
  and then by age.\<close>

theorem queue_bounded_and_ordered:
  assumes "q = fold queue_step ops (newQueue config)"
  shows "length (aq_inflight q) \<le> aq_maxSize q \<and> length (aq_items q) + length (aq_inflight q) \<le> max 1 (2 * aq_maxSize q) \<and>
    distinct (map qi_id (aq_items q) @ js_keys (aq_inflight q)) \<and>
    set (map qi_id (aq_items q) @ js_keys (aq_inflight q)) \<inter> set (js_keys (aq_terminalIds q)) = {} \<and>
    length (aq_terminalIds q) \<le> 2048 \<and> sorted_wrt (\<lambda>a b. comparePriority a b \<le> 0) (aq_items q)"
proof -
  have "queue_inv q" unfolding assms by (rule queue_run_inv)
  then have shape: "queue_shape q" by (simp add: queue_inv_def)
  have ids: "map qi_id (all_items q) = map qi_id (aq_items q) @ js_keys (aq_inflight q)"
    unfolding inflight_keys [OF shape] by (simp add: all_items_def)
  have "set (map qi_id (all_items q)) \<inter> set (js_keys (aq_terminalIds q)) = {}" "distinct (map qi_id (all_items q))"
    using shape by (simp_all add: queue_shape_def)
  then show ?thesis
    using shape unfolding ids by (simp add: queue_shape_def all_items_def MAX_TERMINAL_IDS_def)
qed

text \<open>What is handed out: the queue hands out nothing only when \<open>maxSize\<close> items are in flight or no queued item is due;
  otherwise the item it hands out is due, no due item is more urgent or, at the same priority, older, and it is in
  flight afterwards and no longer queued.\<close>

theorem dequeue_most_urgent_due:
  assumes "q = fold queue_step ops (newQueue config)"
  shows "case dequeue now q of
      (None, q') \<Rightarrow> q' = q \<and> (aq_maxSize q \<le> length (aq_inflight q) \<or> (\<forall>item \<in> set (aq_items q). \<not> is_due now item))
    | (Some item, q') \<Rightarrow> is_due now item \<and> item \<in> set (aq_items q) \<and>
        (\<forall>other \<in> set (aq_items q). is_due now other \<longrightarrow> comparePriority item other \<le> 0) \<and>
        js_get (aq_inflight q') (qi_id item) = Some item \<and> qi_id item \<notin> qi_id ` set (aq_items q')"
proof -
  have "queue_inv q" unfolding assms by (rule queue_run_inv)
  then have shape: "queue_shape q" by (simp add: queue_inv_def)
  from dequeue_cases [OF shape, of now] show ?thesis
  proof (elim disjE conjE exE)
    fix n item q'
    assume n: "n < length (aq_items q)" "item = aq_items q ! n" "is_due now item" "\<forall>m<n. \<not> is_due now (aq_items q ! m)"
      and q': "q' = q\<lparr>aq_items := splice1 n (aq_items q), aq_inflight := aq_inflight q @ [(qi_id item, item)]\<rparr>"
      and d: "dequeue now q = (Some item, publish (Item_Dequeued (qi_id item)) q')"
    have sorted: "sorted_wrt (\<lambda>a b. comparePriority a b \<le> 0) (aq_items q)" using shape by (simp add: queue_shape_def)
    have first: "comparePriority item other \<le> 0" if o: "other \<in> set (aq_items q)" "is_due now other" for other
    proof -
      obtain m where m: "m < length (aq_items q)" "other = aq_items q ! m" using o(1) by (auto simp: in_set_conv_nth)
      then have "m = n \<or> n < m" using n(4) o(2) by (meson linorder_neqE_nat)
      then show ?thesis using sorted m n(2) queue_prio.cmp_refl [of other] by (auto simp: sorted_wrt_iff_nth_less)
    qed
    have "distinct (map qi_id (all_items q))" using shape by (simp add: queue_shape_def)
    then have parts: "distinct (map qi_id (aq_items q))" "qi_id ` set (aq_items q) \<inter> qi_id ` set (map snd (aq_inflight q)) = {}"
      by (auto simp: all_items_def)
    have out: "qi_id item \<notin> qi_id ` set (splice1 n (aq_items q))"
      using parts(1) distinct_ids_add(1) [OF mset_splice1 [OF n(1)]] n(2) by simp
    have "qi_id item \<notin> set (js_keys (aq_inflight q))"
      unfolding inflight_keys [OF shape] using parts(2) n(1,2) by (metis disjoint_iff image_eqI image_set nth_mem)
    then have "js_get (aq_inflight q) (qi_id item) = None" by (simp add: map_of_eq_None_iff)
    then have "js_get (aq_inflight q') (qi_id item) = Some item" by (simp add: q' map_add_def)
    then show ?thesis using n first out by (simp add: d q')
  qed auto
qed

text \<open>Retrying ends.  After any sequence of operations an identifier has been rescheduled at most \<open>maxRetries - 1\<close> times;
  a retry of a live item reschedules it exactly when this limit is not reached, with the attempt counted and no earlier
  than the doubled, capped backoff; and otherwise it settles the item as failed.\<close>

theorem queue_retries_end:
  assumes "q = fold queue_step ops (newQueue config)"
  shows "int (occurrences (reschedules i) (aq_log q)) \<le> max 0 (aq_defaultMaxRetries q - 1) \<and>
    (\<forall>item r. get_item i q = Some item \<longrightarrow> qi_retry item = Some r \<longrightarrow>
      (let k = int (occurrences (reschedules i) (aq_log q)) + 1;
           b = min (rm_backoffMs r * 2 ^ nat (k - 1)) (rm_maxBackoffMs r)
       in if k < aq_defaultMaxRetries q
          then fst (retry_item i t now q) \<and>
               aq_log (snd (retry_item i t now q)) = aq_log q @ [Item_Retry_Scheduled i k (now + b) b]
          else \<not> fst (retry_item i t now q) \<and> aq_log (snd (retry_item i t now q)) = aq_log q @ [Item_Failed i k]))"
proof -
  have inv: "queue_inv q" unfolding assms by (rule queue_run_inv)
  then have shape: "queue_shape q" by (simp add: queue_inv_def)
  have "int (occurrences (reschedules i) (aq_log q)) \<le> max 0 (aq_defaultMaxRetries q - 1)"
    using inv unfolding queue_inv_def queue_history_def by blast
  moreover have "let k = int (occurrences (reschedules i) (aq_log q)) + 1;
           b = min (rm_backoffMs r * 2 ^ nat (k - 1)) (rm_maxBackoffMs r)
       in if k < aq_defaultMaxRetries q
          then fst (retry_item i t now q) \<and>
               aq_log (snd (retry_item i t now q)) = aq_log q @ [Item_Retry_Scheduled i k (now + b) b]
          else \<not> fst (retry_item i t now q) \<and> aq_log (snd (retry_item i t now q)) = aq_log q @ [Item_Failed i k]"
    if item: "get_item i q = Some item" "qi_retry item = Some r" for item r
  proof -
    have "\<not> js_has (aq_terminalIds q) i" using live_not_terminal [OF inv] item(1) by simp
    moreover have hist: "rm_maxAttempts r = aq_defaultMaxRetries q" "rm_attempts r = int (occurrences (reschedules i) (aq_log q))"
      using live_history [OF inv item(1)] item(2) by (auto simp: item_history_def)
    moreover obtain q' where rem: "removeQueuedOrInflight i q = (Some item, q')"
      using item(1) unfolding get_item_remove by (metis prod.collapse)
    moreover have "aq_log q' = aq_log q" using remove_Some(3) [OF shape rem] by (metis queue.select_convs(10) queue.surjective queue.update_convs(1,2))
    moreover have "aq_log (requeue i x q) = aq_log q" for x
      by (simp add: requeue_def push_sorted_def Let_def split: option.split)
    ultimately show ?thesis
      using item by (auto simp: retry_item_def failed_once_def backoff_of_def Let_def)
  qed
  ultimately show ?thesis by blast
qed


section \<open>Evaluated runs\<close>

definition small_queue :: queue_options where
  "small_queue = \<lparr>qo_maxSize = Some 2, qo_defaultMaxRetries = Some 2, qo_defaultBackoffMs = Some 100, qo_maxBackoffMs = Some 1000,
     qo_overflowStrategy = None\<rparr>"

definition queue_example :: "nat queue_op list" where
  "queue_example = [Op_Enqueue 7 Prio_Normal 5 5, Op_Enqueue 8 Prio_Critical 6 6, Op_Dequeue 7, Op_Retry ''queue-6-2'' 8 8, Op_Dequeue 9]"

theorem queue_settles_once_witness:
  "let q = fold queue_step (queue_example @ [Op_Complete ''queue-5-1'' 10]) (newQueue (Some small_queue))
   in \<not> fst (complete_item ''queue-5-1'' 11 q) \<and> \<not> fst (retry_item ''queue-5-1'' 11 12 q)"
proof -
  have "occurrences (settles ''queue-5-1'')
      (aq_log (fold queue_step (queue_example @ [Op_Complete ''queue-5-1'' 10]) (newQueue (Some small_queue)))) = 1"
    by code_simp
  with queue_settles_once [OF refl, where i = "''queue-5-1''" and ops = "queue_example @ [Op_Complete ''queue-5-1'' 10]" and config = "Some small_queue" and t = 11 and t' = 12]
  show ?thesis unfolding Let_def by blast
qed

theorem queue_bounded_and_ordered_witness:
  "length (aq_inflight (fold queue_step queue_example (newQueue (Some small_queue)))) \<le> 2"
proof -
  have "aq_maxSize (fold queue_step queue_example (newQueue (Some small_queue))) = 2" by code_simp
  with queue_bounded_and_ordered [OF refl, where ops = queue_example and config = "Some small_queue"] show ?thesis by simp
qed

theorem dequeue_most_urgent_due_witness:
  "map_option qi_id (fst (dequeue 200 (fold queue_step queue_example (newQueue (Some small_queue))))) = Some ''queue-6-2'' \<and>
   map_option (is_due 200) (fst (dequeue 200 (fold queue_step queue_example (newQueue (Some small_queue))))) = Some True"
proof -
  let ?out = "fst (dequeue 200 (fold queue_step queue_example (newQueue (Some small_queue))))"
  have a: "map_option qi_id ?out = Some ''queue-6-2''" by code_simp
  then obtain item where i: "?out = Some item" by (auto simp del: fold_simps)
  have "is_due 200 item"
    using dequeue_most_urgent_due [OF refl, where now = 200 and ops = queue_example and config = "Some small_queue"] i
    by (auto simp del: fold_simps split: prod.splits)
  with a i show ?thesis by (simp del: fold_simps)
qed

theorem queue_retries_end_witness:
  "let q = fold queue_step (queue_example @ [Op_Dequeue 200]) (newQueue (Some small_queue))
   in aq_log (snd (retry_item ''queue-6-2'' 201 202 q)) = aq_log q @ [Item_Failed ''queue-6-2'' 2]"
proof -
  let ?q = "fold queue_step (queue_example @ [Op_Dequeue 200]) (newQueue (Some small_queue))"
  have st: "map_option (\<lambda>item. qi_retry item \<noteq> None) (get_item ''queue-6-2'' ?q) = Some True"
    "occurrences (reschedules ''queue-6-2'') (aq_log ?q) = 1" "aq_defaultMaxRetries ?q = 2"
    by code_simp+
  then obtain item r where "get_item ''queue-6-2'' ?q = Some item" "qi_retry item = Some r" by (auto simp del: fold_simps)
  with queue_retries_end [OF refl, where i = "''queue-6-2''" and ops = "queue_example @ [Op_Dequeue 200]" and config = "Some small_queue" and now = 202 and t = 201] st(2,3)
  show ?thesis by (simp only: Let_def) (auto simp del: fold_simps)
qed

end
