(* ===== verification/Circuit_Breaker.thy ===== *)
theory Circuit_Breaker
  imports Js_String Transition
begin

text \<open>
  \<^verbatim>\<open>src/background/circuit-breaker.ts\<close>: the circuit breaker around asynchronous calls, and the loop
  protection.  A call is two events, its start (\<open>execute\<close> up to the call) and its settling
  (\<open>recordSuccess\<close> or \<open>recordFailure\<close>, a timeout being a failure), so calls may overlap in any order.  The clock is an argument; what
  is told to \<open>onStateChange\<close> and \<open>onLoopDetected\<close> is returned.
\<close>

section \<open>The breaker\<close>

datatype breaker_state = Breaker_Closed | Breaker_Open | Breaker_Half_Open

record breaker_config =
  bc_failureThreshold :: int
  bc_resetTimeoutMs :: int
  bc_successThreshold :: int
  bc_callTimeoutMs :: int

record breaker_options =
  bo_failureThreshold :: "int option"
  bo_resetTimeoutMs :: "int option"
  bo_successThreshold :: "int option"
  bo_callTimeoutMs :: "int option"

record breaker =
  br_state :: breaker_state
  br_failureCount :: int
  br_successCount :: int
  br_lastFailureTime :: "int option"
  br_config :: breaker_config

datatype breaker_event = Told_Closed | Told_Opened int | Told_Half_Open | Told_Success int | Told_Failure int

definition newCircuitBreaker :: "breaker_options option \<Rightarrow> breaker" where
  "newCircuitBreaker config =
     \<lparr>br_state = Breaker_Closed, br_failureCount = 0, br_successCount = 0, br_lastFailureTime = None,
      br_config =
        (case config of
           None \<Rightarrow> \<lparr>bc_failureThreshold = 5, bc_resetTimeoutMs = 30000, bc_successThreshold = 3, bc_callTimeoutMs = 10000\<rparr>
         | Some c \<Rightarrow> \<lparr>bc_failureThreshold = option_or (bo_failureThreshold c) 5,
                      bc_resetTimeoutMs = option_or (bo_resetTimeoutMs c) 30000,
                      bc_successThreshold = option_or (bo_successThreshold c) 3,
                      bc_callTimeoutMs = option_or (bo_callTimeoutMs c) 10000\<rparr>)\<rparr>"

definition transitionTo :: "breaker_state \<Rightarrow> breaker \<Rightarrow> breaker \<times> breaker_event list" where
  "transitionTo s b =
     (case s of
        Breaker_Closed \<Rightarrow> (b\<lparr>br_state := s, br_failureCount := 0, br_successCount := 0\<rparr>, [Told_Closed])
      | Breaker_Open \<Rightarrow> (b\<lparr>br_state := s, br_successCount := 0\<rparr>, [Told_Opened (br_failureCount b)])
      | Breaker_Half_Open \<Rightarrow> (b\<lparr>br_state := s, br_successCount := 0\<rparr>, [Told_Half_Open]))"

text \<open>A time of zero is no time to the code.\<close>

definition getState :: "int \<Rightarrow> breaker \<Rightarrow> breaker_state \<times> breaker \<times> breaker_event list" where
  "getState now b =
     (if br_state b = Breaker_Open \<and>
         (case br_lastFailureTime b of None \<Rightarrow> False | Some t \<Rightarrow> t \<noteq> 0 \<and> now - t \<ge> bc_resetTimeoutMs (br_config b))
      then let (b', told) = transitionTo Breaker_Half_Open b in (br_state b', b', told)
      else (br_state b, b, []))"

text \<open>\<open>execute\<close> up to the call: whether the function is called.\<close>

definition execute_start :: "int \<Rightarrow> breaker \<Rightarrow> bool \<times> breaker \<times> breaker_event list" where
  "execute_start now b = (let (s, b', told) = getState now b in (s \<noteq> Breaker_Open, b', told))"

definition recordSuccess :: "int \<Rightarrow> breaker \<Rightarrow> breaker \<times> breaker_event list" where
  "recordSuccess duration b =
     (let b1 = b\<lparr>br_failureCount := 0\<rparr>;
          (b2, told) =
            (if br_state b1 = Breaker_Half_Open
             then let b' = b1\<lparr>br_successCount := br_successCount b1 + 1\<rparr>
                  in if br_successCount b' \<ge> bc_successThreshold (br_config b') then transitionTo Breaker_Closed b' else (b', [])
             else (b1, []))
      in (b2, told @ [Told_Success duration]))"

definition recordFailure :: "int \<Rightarrow> int \<Rightarrow> breaker \<Rightarrow> breaker \<times> breaker_event list" where
  "recordFailure now duration b =
     (let b1 = b\<lparr>br_failureCount := br_failureCount b + 1, br_lastFailureTime := Some now\<rparr>;
          (b2, told) =
            (if br_state b1 = Breaker_Half_Open then transitionTo Breaker_Open b1
             else if br_state b1 = Breaker_Closed \<and> br_failureCount b1 \<ge> bc_failureThreshold (br_config b1)
             then transitionTo Breaker_Open b1
             else (b1, []))
      in (b2, told @ [Told_Failure duration]))"

definition reset_breaker :: "breaker \<Rightarrow> breaker \<times> breaker_event list" where
  "reset_breaker b = transitionTo Breaker_Closed b"

text \<open>The whole of \<open>executeWithTimeout\<close>: a call settles after some time, or not within it.\<close>

datatype 'r call_result = Call_Resolved 'r | Call_Rejected | Call_Timed_Out

definition executeWithTimeout :: "breaker_config \<Rightarrow> int \<Rightarrow> 'r option \<Rightarrow> 'r call_result" where
  "executeWithTimeout config elapsed outcome =
     (let settled = (case outcome of Some r \<Rightarrow> Call_Resolved r | None \<Rightarrow> Call_Rejected)
      in if bc_callTimeoutMs config \<le> 0 then settled
         else if elapsed < bc_callTimeoutMs config then settled else Call_Timed_Out)"

datatype breaker_input = Call_Started int | Call_Succeeded int | Call_Failed int int | Breaker_Reset

fun breaker_step :: "breaker_input \<Rightarrow> breaker \<Rightarrow> breaker" where
  "breaker_step (Call_Started now) b = fst (snd (execute_start now b))"
| "breaker_step (Call_Succeeded duration) b = fst (recordSuccess duration b)"
| "breaker_step (Call_Failed now duration) b = fst (recordFailure now duration b)"
| "breaker_step Breaker_Reset b = fst (reset_breaker b)"

section \<open>Loop protection\<close>

record loop_config =
  lc_maxIterations :: int
  lc_timeWindowMs :: int
  lc_operationKey :: string

record loop_record =
  lr_attempts :: int
  lr_firstAttempt :: int
  lr_lastAttempt :: int

type_synonym loop_records = "(string, loop_record) js_map"

definition operation_key :: "loop_config \<Rightarrow> string option \<Rightarrow> string" where
  "operation_key c key = (case key of Some k \<Rightarrow> k | None \<Rightarrow> lc_operationKey c)"

definition in_window :: "loop_config \<Rightarrow> int \<Rightarrow> loop_record \<Rightarrow> bool" where
  "in_window c now r = (\<not> now - lr_firstAttempt r > lc_timeWindowMs c)"

text \<open>Whether the attempt is allowed, the records, and the count told to \<open>onLoopDetected\<close>.\<close>

definition recordAttempt :: "loop_config \<Rightarrow> string option \<Rightarrow> int \<Rightarrow> loop_records \<Rightarrow> bool \<times> loop_records \<times> (string \<times> int) option" where
  "recordAttempt c key now records =
     (let k = operation_key c key;
          fresh = (True, js_set k \<lparr>lr_attempts = 1, lr_firstAttempt = now, lr_lastAttempt = now\<rparr> records, None)
      in case js_get records k of
           None \<Rightarrow> fresh
         | Some r \<Rightarrow>
             if \<not> in_window c now r then fresh
             else
               let r' = r\<lparr>lr_attempts := lr_attempts r + 1, lr_lastAttempt := now\<rparr>
               in if lr_attempts r' > lc_maxIterations c
                  then (False, js_set k r' records, Some (k, lr_attempts r'))
                  else (True, js_set k r' records, None))"

definition canProceed :: "loop_config \<Rightarrow> string option \<Rightarrow> int \<Rightarrow> loop_records \<Rightarrow> bool" where
  "canProceed c key now records =
     (case js_get records (operation_key c key) of
        None \<Rightarrow> True
      | Some r \<Rightarrow> \<not> in_window c now r \<or> lr_attempts r \<le> lc_maxIterations c)"

definition getRemainingIterations :: "loop_config \<Rightarrow> string option \<Rightarrow> int \<Rightarrow> loop_records \<Rightarrow> int" where
  "getRemainingIterations c key now records =
     (case js_get records (operation_key c key) of
        None \<Rightarrow> lc_maxIterations c
      | Some r \<Rightarrow> if \<not> in_window c now r then lc_maxIterations c else max 0 (lc_maxIterations c - lr_attempts r))"

definition reset_loop :: "loop_config \<Rightarrow> string option \<Rightarrow> loop_records \<Rightarrow> loop_records" where
  "reset_loop c key records = js_delete (operation_key c key) records"

definition getIterationCount :: "loop_config \<Rightarrow> string option \<Rightarrow> int \<Rightarrow> loop_records \<Rightarrow> int" where
  "getIterationCount c key now records =
     (case js_get records (operation_key c key) of
        None \<Rightarrow> 0
      | Some r \<Rightarrow> if \<not> in_window c now r then 0 else lr_attempts r)"

text \<open>A run of attempts at the given times, with the verdicts.\<close>

fun attempts ::
  "loop_config \<Rightarrow> (string option \<times> int) list \<Rightarrow> loop_records \<Rightarrow> (string \<times> int \<times> bool) list \<times> loop_records" where
  "attempts c [] records = ([], records)"
| "attempts c ((key, t) # ks) records =
     (let (ok, records', _) = recordAttempt c key t records;
          (verdicts, records'') = attempts c ks records'
      in ((operation_key c key, t, ok) # verdicts, records''))"

end
