(* ===== verification/Circuit_Breaker_Facts.thy ===== *)
theory Circuit_Breaker_Facts
  imports Circuit_Breaker
begin

text \<open>
  The loop protection bounds the rate of every operation, and where its two questions disagree; the breaker trips on
  consecutive failures only and fails fast until its timeout, whatever calls are still settling.
\<close>

section \<open>Rate of attempts\<close>

definition allowed :: "string \<Rightarrow> int \<Rightarrow> int \<Rightarrow> (string \<times> int \<times> bool) list \<Rightarrow> int" where
  "allowed k from until verdicts = int (length (filter (\<lambda>(k', t, ok). k' = k \<and> ok \<and> from \<le> t \<and> t \<le> until) verdicts))"

lemma allowed_simps [simp]:
  "allowed k f u [] = 0" "allowed k f u (vs @ ws) = allowed k f u vs + allowed k f u ws"
  "allowed k f u ((k', t, ok) # vs) = (if k' = k \<and> ok \<and> f \<le> t \<and> t \<le> u then 1 else 0) + allowed k f u vs"
  by (simp_all add: allowed_def)

definition positive_counts :: "loop_records \<Rightarrow> bool" where
  "positive_counts records = (\<forall>k r. js_get records k = Some r \<longrightarrow> 1 \<le> lr_attempts r)"

lemma attempt_positive: "positive_counts records \<Longrightarrow> positive_counts (fst (snd (recordAttempt c key t records)))"
  by (auto simp: positive_counts_def recordAttempt_def Let_def js_get_set split: option.split) force+

lemma attempts_positive: "positive_counts records \<Longrightarrow> positive_counts (snd (attempts c ks records))"
proof (induction c ks records rule: attempts.induct)
  case (1 c records)
  then show ?case by simp
next
  case (2 c key t ks records)
  obtain ok m told where s: "recordAttempt c key t records = (ok, m, told)" by (cases "recordAttempt c key t records")
  have "positive_counts m" using attempt_positive [OF 2(2), of c key t] s by simp
  then show ?case using 2(1) [OF s [symmetric] refl] s by (simp split: prod.split) (metis snd_conv)
qed

text \<open>How many more attempts a window can allow to a key.\<close>

definition budget :: "loop_config \<Rightarrow> string \<Rightarrow> loop_records \<Rightarrow> int" where
  "budget c k records =
     (case js_get records k of None \<Rightarrow> 0 | Some r \<Rightarrow> max 0 (lc_maxIterations c - lr_attempts r))"

lemma attempt_other: "operation_key c key \<noteq> k \<Longrightarrow> js_get (fst (snd (recordAttempt c key t records))) k = js_get records k"
  by (auto simp: recordAttempt_def Let_def js_get_set split: option.split)

lemma attempt_same:
  "recordAttempt c key t records =
     (case js_get records (operation_key c key) of
        None \<Rightarrow> (True, js_set (operation_key c key) \<lparr>lr_attempts = 1, lr_firstAttempt = t, lr_lastAttempt = t\<rparr> records, None)
      | Some r \<Rightarrow>
          if in_window c t r then
            (lr_attempts r + 1 \<le> lc_maxIterations c,
             js_set (operation_key c key) (r\<lparr>lr_attempts := lr_attempts r + 1, lr_lastAttempt := t\<rparr>) records,
             if lr_attempts r + 1 \<le> lc_maxIterations c then None else Some (operation_key c key, lr_attempts r + 1))
          else (True, js_set (operation_key c key) \<lparr>lr_attempts = 1, lr_firstAttempt = t, lr_lastAttempt = t\<rparr> records, None))"
  by (auto simp: recordAttempt_def Let_def split: option.split)

text \<open>While its window lasts, a key has its budget.\<close>

lemma allowed_in_window:
  assumes "js_get records k = Some r" "\<forall>(key, t) \<in> set ks. t - lr_firstAttempt r \<le> lc_timeWindowMs c"
  shows "allowed k f u (fst (attempts c ks records)) \<le> budget c k records"
  using assms
proof (induction ks arbitrary: records r)
  case Nil
  then show ?case by (simp add: budget_def)
next
  case (Cons p ks)
  obtain key t where p: "p = (key, t)" by (cases p)
  obtain ok m told where s: "recordAttempt c key t records = (ok, m, told)" by (cases "recordAttempt c key t records")
  have rest: "\<forall>(key, t) \<in> set ks. t - lr_firstAttempt r \<le> lc_timeWindowMs c" using Cons.prems(2) by simp
  have run: "fst (attempts c (p # ks) records) = (operation_key c key, t, ok) # fst (attempts c ks m)"
    by (simp add: p s split: prod.split)
  show ?case
  proof (cases "operation_key c key = k")
    case True
    have inw: "in_window c t r" using Cons.prems(2) p by (simp add: in_window_def)
    have m: "m = js_set k (r\<lparr>lr_attempts := lr_attempts r + 1, lr_lastAttempt := t\<rparr>) records"
      "ok = (lr_attempts r + 1 \<le> lc_maxIterations c)"
      using s True Cons.prems(1) inw by (simp_all add: attempt_same)
    have ih: "allowed k f u (fst (attempts c ks m)) \<le> budget c k m"
      by (rule Cons.IH [of m "r\<lparr>lr_attempts := lr_attempts r + 1, lr_lastAttempt := t\<rparr>"]) (use rest in \<open>simp_all add: m js_get_set\<close>)
    have "budget c k m + (if ok then 1 else 0) \<le> budget c k records"
      using Cons.prems(1) by (simp add: budget_def m js_get_set)
    then show ?thesis using ih unfolding run by (simp split: if_splits)
  next
    case False
    then have m: "js_get m k = js_get records k" using attempt_other [OF False, of t records] s by simp
    have "allowed k f u (fst (attempts c ks m)) \<le> budget c k m"
      by (rule Cons.IH [of m r]) (use Cons.prems(1) rest m in simp_all)
    then show ?thesis using False unfolding run by (simp add: budget_def m)
  qed
qed

text \<open>Within one length of the window a key's record expires at most once.\<close>

lemma allowed_in_span:
  assumes "\<forall>(key, t) \<in> set ks. f \<le> t \<and> t \<le> f + lc_timeWindowMs c"
  shows "allowed k f u (fst (attempts c ks records)) \<le> budget c k records + max 1 (lc_maxIterations c)"
  using assms
proof (induction ks arbitrary: records)
  case Nil
  then show ?case by (simp add: budget_def split: option.split)
next
  case (Cons p ks)
  obtain key t where p: "p = (key, t)" by (cases p)
  obtain ok m told where s: "recordAttempt c key t records = (ok, m, told)" by (cases "recordAttempt c key t records")
  have rest: "\<forall>(key, t) \<in> set ks. f \<le> t \<and> t \<le> f + lc_timeWindowMs c" using Cons.prems by simp
  have run: "fst (attempts c (p # ks) records) = (operation_key c key, t, ok) # fst (attempts c ks m)"
    by (simp add: p s split: prod.split)
  note ih = Cons.IH [OF rest, of m]
  show ?case
  proof (cases "operation_key c key = k")
    case False
    then have "js_get m k = js_get records k" using attempt_other [OF False, of t records] s by simp
    then show ?thesis using ih False unfolding run by (simp add: budget_def)
  next
    case True
    show ?thesis
    proof (cases "\<exists>r. js_get records k = Some r \<and> in_window c t r")
      case inw: True
      then obtain r where r: "js_get records k = Some r" "in_window c t r" by auto
      have m: "m = js_set k (r\<lparr>lr_attempts := lr_attempts r + 1, lr_lastAttempt := t\<rparr>) records"
        "ok = (lr_attempts r + 1 \<le> lc_maxIterations c)"
        using s True r by (simp_all add: attempt_same)
      have "budget c k m + (if ok then 1 else 0) \<le> budget c k records" using r(1) by (simp add: budget_def m js_get_set)
      then show ?thesis using ih unfolding run by (simp split: if_splits)
    next
      case False
      let ?r = "\<lparr>lr_attempts = 1, lr_firstAttempt = t, lr_lastAttempt = t\<rparr>"
      have m: "m = js_set k ?r records" using s True False by (auto simp: attempt_same split: option.splits)
      have "\<forall>(key, t') \<in> set ks. t' - lr_firstAttempt ?r \<le> lc_timeWindowMs c" using Cons.prems p by fastforce
      then have "allowed k f u (fst (attempts c ks m)) \<le> budget c k m"
        by (intro allowed_in_window [of m k ?r]) (simp_all add: m js_get_set)
      moreover have "budget c k m = max 0 (lc_maxIterations c - 1)" by (simp add: budget_def m js_get_set)
      moreover have "0 \<le> budget c k records" by (simp add: budget_def split: option.split)
      ultimately have "1 + allowed k f u (fst (attempts c ks m)) \<le> budget c k records + max 1 (lc_maxIterations c)" by linarith
      then show ?thesis unfolding run by simp
    qed
  qed
qed

lemma attempts_append:
  "fst (attempts c (ks @ ks') records) = fst (attempts c ks records) @ fst (attempts c ks' (snd (attempts c ks records)))"
  by (induction c ks records rule: attempts.induct) (auto split: prod.split)

lemma allowed_outside: "\<forall>(key, t) \<in> set ks. t < f \<or> u < t \<Longrightarrow> allowed k f u (fst (attempts c ks records)) = 0"
  by (induction c ks records rule: attempts.induct) (auto split: prod.split)

text \<open>Loop protection bounds the rate: in any run of attempts in the order of time, on any keys, every stretch of time as long
  as the window holds at most twice \<open>maxIterations\<close> allowed attempts of one key (twice one, if the limit is below one).\<close>

theorem loop_protection_bounds_rate:
  assumes "sorted (map snd ks)"
  shows "allowed k f (f + lc_timeWindowMs c) (fst (attempts c ks [])) \<le> 2 * max 1 (lc_maxIterations c)"
proof -
  let ?u = "f + lc_timeWindowMs c"
  let ?before = "takeWhile (\<lambda>p. snd p < f) ks"
  let ?from = "dropWhile (\<lambda>p. snd p < f) ks"
  let ?span = "takeWhile (\<lambda>p. snd p \<le> ?u) ?from"
  let ?after = "dropWhile (\<lambda>p. snd p \<le> ?u) ?from"
  have s: "sorted (map snd ?from)" using assms by (metis dropWhile_eq_drop drop_map sorted_wrt_drop)
  have from_ge: "f \<le> snd p" if "p \<in> set ?from" for p
  proof -
    from that obtain q qs where qs: "?from = q # qs" by (cases ?from) auto
    have "\<not> snd q < f" using hd_dropWhile [of "\<lambda>p. snd p < f" ks] qs by auto
    moreover have "snd q \<le> snd p" using s that unfolding qs by auto
    ultimately show ?thesis by simp
  qed
  have after_gt: "?u < snd p" if "p \<in> set ?after" for p
  proof -
    from that obtain q qs where qs: "?after = q # qs" by (cases ?after) auto
    have "\<not> snd q \<le> ?u" using hd_dropWhile [of "\<lambda>p. snd p \<le> ?u" ?from] qs by auto
    moreover have "sorted (map snd ?after)" using s by (metis dropWhile_eq_drop drop_map sorted_wrt_drop)
    then have "snd q \<le> snd p" using that unfolding qs by auto
    ultimately show ?thesis by simp
  qed
  have ks: "ks = ?before @ ?span @ ?after" by simp
  have 1: "allowed k f ?u (fst (attempts c ?before [])) = 0"
    by (rule allowed_outside) (auto dest: set_takeWhileD)
  have 3: "allowed k f ?u (fst (attempts c ?after m)) = 0" for m
    by (rule allowed_outside) (use after_gt in fastforce)
  let ?m = "snd (attempts c ?before [])"
  have span: "\<forall>(key, t) \<in> set ?span. f \<le> t \<and> t \<le> ?u"
    using from_ge by (force dest: set_takeWhileD)
  have "positive_counts ?m" by (rule attempts_positive) (simp add: positive_counts_def)
  then have "budget c k ?m \<le> max 0 (lc_maxIterations c - 1)"
    by (force simp: budget_def positive_counts_def split: option.split)
  moreover have "allowed k f ?u (fst (attempts c ?span ?m)) \<le> budget c k ?m + max 1 (lc_maxIterations c)"
    by (rule allowed_in_span [OF span])
  moreover have "allowed k f ?u (fst (attempts c ks [])) = allowed k f ?u (fst (attempts c ?span ?m))"
    by (subst ks, simp only: attempts_append allowed_simps 1 3)
  ultimately show ?thesis by linarith
qed

text \<open>\<open>canProceed\<close> and \<open>recordAttempt\<close> disagree exactly at the limit: the attempt that the loop protection is about to refuse is
  the one \<open>canProceed\<close> still allows when as many attempts as the limit are recorded in the window, and then
  \<open>getRemainingIterations\<close> is zero.\<close>

theorem can_proceed_at_limit:
  "canProceed c key now records \<and> \<not> fst (recordAttempt c key now records) \<longleftrightarrow>
     (\<exists>r. js_get records (operation_key c key) = Some r \<and> in_window c now r \<and> lr_attempts r = lc_maxIterations c \<and>
        getRemainingIterations c key now records = 0)"
  by (auto simp: canProceed_def attempt_same getRemainingIterations_def split: option.splits if_splits)

section \<open>The breaker\<close>

fun settles_between :: "int \<Rightarrow> int \<Rightarrow> breaker_input \<Rightarrow> bool" where
  "settles_between from until (Call_Started now) = (now < until)"
| "settles_between from until (Call_Failed now _) = (from \<le> now)"
| "settles_between from until (Call_Succeeded _) = True"
| "settles_between from until Breaker_Reset = False"

definition holds_open :: "int \<Rightarrow> breaker_config \<Rightarrow> breaker \<Rightarrow> bool" where
  "holds_open t0 config b =
     (br_state b = Breaker_Open \<and> br_config b = config \<and> (\<exists>t. br_lastFailureTime b = Some t \<and> t0 \<le> t))"

lemma holds_open_rejects:
  "holds_open t0 config b \<Longrightarrow> now < t0 + bc_resetTimeoutMs config \<Longrightarrow> execute_start now b = (False, b, [])"
  by (auto simp: holds_open_def execute_start_def getState_def)

lemma holds_open_step:
  assumes "settles_between t0 (t0 + bc_resetTimeoutMs config) i" "holds_open t0 config b"
  shows "holds_open t0 config (breaker_step i b)"
proof (cases i)
  case (Call_Started now)
  then show ?thesis using assms holds_open_rejects [OF assms(2), of now] by simp
next
  case (Call_Succeeded d)
  then show ?thesis using assms by (auto simp: holds_open_def recordSuccess_def Let_def)
next
  case (Call_Failed now d)
  then show ?thesis using assms by (auto simp: holds_open_def recordFailure_def Let_def)
next
  case Breaker_Reset
  then show ?thesis using assms by simp
qed

interpretation breaker_open: guarded_machine breaker_step "settles_between t0 (t0 + bc_resetTimeoutMs config)" "holds_open t0 config" for t0 config
  by unfold_locales (rule holds_open_step)

definition failures_at :: "(int \<times> int) list \<Rightarrow> breaker_input list" where
  "failures_at fs = map (\<lambda>(now, duration). Call_Failed now duration) fs"

lemma run_failures:
  assumes "br_state b = Breaker_Closed" "br_failureCount b = 0" "1 \<le> bc_failureThreshold (br_config b)"
  shows "br_config (fold breaker_step (failures_at fs) b) = br_config b \<and>
    br_failureCount (fold breaker_step (failures_at fs) b) = int (length fs) \<and>
    br_state (fold breaker_step (failures_at fs) b) =
      (if bc_failureThreshold (br_config b) \<le> int (length fs) then Breaker_Open else Breaker_Closed) \<and>
    (fs \<noteq> [] \<longrightarrow> br_lastFailureTime (fold breaker_step (failures_at fs) b) = Some (fst (last fs)))"
proof (induction fs rule: rev_induct)
  case Nil
  then show ?case using assms by (simp add: failures_at_def)
next
  case (snoc p fs)
  then show ?case
    by (cases p) (auto simp: failures_at_def recordFailure_def transitionTo_def Let_def)
qed

text \<open>The breaker trips on consecutive failures and then fails fast: from a closed breaker without failures, a row of failed calls
  opens it exactly when there are at least \<open>failureThreshold\<close> of them; and until \<open>resetTimeoutMs\<close> after the last of
  them every new call is refused, whatever overlapping calls still succeed or fail in the meantime.\<close>

theorem breaker_trips_and_fails_fast:
  assumes "br_state b = Breaker_Closed" "br_failureCount b = 0" "1 \<le> bc_failureThreshold (br_config b)" "fs \<noteq> []"
    and "b' = fold breaker_step (failures_at fs) b" "t0 = fst (last fs)"
    and "list_all (settles_between t0 (t0 + bc_resetTimeoutMs (br_config b))) inputs"
  shows "(br_state b' = Breaker_Open \<longleftrightarrow> bc_failureThreshold (br_config b) \<le> int (length fs)) \<and>
    (br_state b' = Breaker_Open \<longrightarrow>
      br_state (fold breaker_step inputs b') = Breaker_Open \<and>
      (\<forall>now < t0 + bc_resetTimeoutMs (br_config b). \<not> fst (execute_start now (fold breaker_step inputs b'))))"
proof -
  note run = run_failures [OF assms(1-3), of fs, folded assms(5)]
  have "br_state (fold breaker_step inputs b') = Breaker_Open \<and>
      (\<forall>now < t0 + bc_resetTimeoutMs (br_config b). \<not> fst (execute_start now (fold breaker_step inputs b')))"
    if "br_state b' = Breaker_Open"
  proof -
    have "holds_open t0 (br_config b) b'" using that run assms(4,6) by (simp add: holds_open_def)
    from breaker_open.guarded_run [OF assms(7) this]
    have h: "holds_open t0 (br_config b) (fold breaker_step inputs b')" .
    then show ?thesis using holds_open_rejects [OF h] by (simp add: holds_open_def)
  qed
  then show ?thesis using run by simp
qed


section \<open>Evaluated runs\<close>

definition loop_example :: loop_config where
  "loop_example = \<lparr>lc_maxIterations = 2, lc_timeWindowMs = 10, lc_operationKey = ''op''\<rparr>"

theorem loop_protection_bounds_rate_witness:
  "allowed ''op'' 5 15 (fst (attempts loop_example [(None, 0), (None, 9), (None, 10), (None, 11), (None, 15), (None, 16)] [])) \<le> 4 \<and>
   allowed ''op'' 5 15 (fst (attempts loop_example [(None, 0), (None, 9), (None, 10), (None, 11), (None, 15), (None, 16)] [])) = 3"
proof -
  let ?ks = "[(None, 0), (None, 9), (None, 10), (None, 11), (None, 15), (None, 16)] :: (string option \<times> int) list"
  have "sorted (map snd ?ks)" by simp
  from loop_protection_bounds_rate [OF this, of "''op''" 5 loop_example]
  have "allowed ''op'' 5 15 (fst (attempts loop_example ?ks [])) \<le> 4" by (simp add: loop_example_def del: attempts.simps)
  moreover have "allowed ''op'' 5 15 (fst (attempts loop_example ?ks [])) = 3" by code_simp
  ultimately show ?thesis by blast
qed

theorem breaker_trips_and_fails_fast_witness:
  "\<not> fst (execute_start 20 (fold breaker_step [Call_Succeeded 3, Call_Failed 12 3]
      (fold breaker_step (failures_at (replicate 5 (10, 1))) (newCircuitBreaker None))))"
proof -
  let ?b = "newCircuitBreaker None"
  have c: "br_state ?b = Breaker_Closed" "br_failureCount ?b = 0" "bc_failureThreshold (br_config ?b) = 5"
    "bc_resetTimeoutMs (br_config ?b) = 30000"
    by (simp_all add: newCircuitBreaker_def)
  have "1 \<le> bc_failureThreshold (br_config ?b)" "replicate 5 (10::int, 1::int) \<noteq> []" using c by simp_all
  note trip = breaker_trips_and_fails_fast [OF c(1,2) this refl refl]
  have "list_all (settles_between (fst (last (replicate 5 (10::int, 1::int))))
      (fst (last (replicate 5 (10::int, 1::int))) + bc_resetTimeoutMs (br_config ?b))) [Call_Succeeded 3, Call_Failed 12 3]"
    by simp
  from trip [OF this] show ?thesis using c by (simp del: fold_simps)
qed

end
