(* ===== verification/Task_Workflow.thy ===== *)
theory Task_Workflow
  imports Js_String Transition
begin

text \<open>
  \<^verbatim>\<open>src/gate-evidence.ts\<close>: the workflow of one task, from the dispatch of a coder to its completion, as the reducer over
  the evidence file of the task, and the transaction that applies it.  A record of gates is a map from the gate's name;
  the write-ahead logs of the task and the identity of the plan, which the transaction reads from disk, are arguments, as
  is the clock.  A thrown error is a value of \<open>workflow_error\<close>.
\<close>

section \<open>Data\<close>

datatype workflow_state =
    W_Idle | W_Coder_Delegated | W_Pre_Check_Passed | W_Reviewer_Run | W_Tests_Run | W_Rework_Required | W_Complete
  | W_Blocked | W_Closed

datatype workflow_outcome =
    Out_None | Out_Dispatch_Attempted | Out_Dispatch_No_Mutation | Out_Accepted_Mutation | Out_Accepted_Mutation_Failed
  | Out_Stage_A_Passed | Out_Stage_A_Failed | Out_Stage_B_Completed | Out_Stage_B_Failed | Out_Gate_Recorded
  | Out_Task_Completed | Out_Task_Blocked | Out_Task_Closed | Out_Repair_Idle | Out_External_Attested | Out_External_Revoked

record gate_evidence =
  ge_sessionId :: string
  ge_timestamp :: string
  ge_agent :: string

type_synonym gates = "(string, gate_evidence) js_map"

record evidence_anchor =
  an_command :: string
  an_expect :: "string option"
  an_expectPrefix :: "string option"
  an_matched :: bool
  an_exitCode :: int
  an_stdout :: string

record external_bundle =
  xb_transitionId :: string
  xb_declarationDigest :: string
  xb_anchors :: "evidence_anchor list"
  xb_attestedAt :: string

record no_mutation_settlement =
  nm_generation :: int
  nm_transitionId :: string
  nm_declaredFiles :: "string list"

record workflow_metadata =
  wm_generation :: int
  wm_state :: workflow_state
  wm_retryCount :: int
  wm_retryHistory :: "workflow_outcome list"
  wm_retryEpoch :: int
  wm_lastOutcome :: workflow_outcome
  wm_lastTransitionId :: "string option"
  wm_updatedAt :: string
  wm_forcedCompletion :: bool
  wm_supervisedRecovery :: bool
  wm_settlementRecovery :: bool
  wm_noMutationSettlement :: "no_mutation_settlement option"
  wm_externalEvidence :: "external_bundle option"

text \<open>The metadata, and whether the evidence carries it.\<close>

type_synonym workflow_snapshot = "workflow_metadata \<times> bool"

record todo_scan =
  ts_priority :: string
  ts_count :: nat

record task_evidence =
  te_taskId :: string
  te_requiredGates :: "string list"
  te_gates :: gates
  te_turbo :: "bool option"
  te_requirementsState :: "string option"
  te_testEngineerExempt :: "bool option"
  te_planId :: "string option"
  te_planIdentityHash :: "string option"
  te_workflow :: "workflow_metadata option"
  te_repairProvenance :: "(string option \<times> int option \<times> string option) option"
  te_todoScan :: "todo_scan option"

record gate_context =
  gc_testEngineerExempt :: bool
  gc_settlementFailed :: bool
  gc_declaredFiles :: "string list option"
  gc_settlementTransitionId :: "string option"

record dispatch_args =
  da_agentType :: "string option"
  da_context :: "gate_context option"
  da_turbo :: "bool option"

datatype stage_b_gate = Reviewer_Gate | Test_Engineer_Gate

fun gate_name :: "stage_b_gate \<Rightarrow> string" where
  "gate_name Reviewer_Gate = ''reviewer''"
| "gate_name Test_Engineer_Gate = ''test_engineer''"

datatype event_kind =
    Dispatch_Attempted dispatch_args
  | Dispatch_No_Mutation dispatch_args
  | Accepted_Mutation dispatch_args
  | Stage_A_Passed bool bool                \<comment> \<open>supervised recovery, settlement recovery\<close>
  | Stage_A_Failed
  | Stage_B_Completed stage_b_gate string "bool option" "bool option" bool
      \<comment> \<open>gate, session, route complete, turbo, ensure the default gates\<close>
  | Stage_B_Failed stage_b_gate
  | Gate_Recorded string string "bool option"
  | Task_Completed bool bool bool            \<comment> \<open>QA exempt, read only, external evidence\<close>
  | Task_Blocked
  | Task_Closed
  | Repair_Idle
  | External_Attested external_bundle
  | External_Revoked

record task_event =
  ev_kind :: event_kind
  ev_expectedGeneration :: "int option"
  ev_transitionId :: "string option"

datatype workflow_error =
    Err_Generation_Mismatch int int
  | Err_Terminal workflow_state
  | Err_Stage_A_Required workflow_state
  | Err_Coder_Mutation_Required workflow_state
  | Err_External_Attest_State workflow_state
  | Err_QA_Required workflow_state
  | Err_Settlement_In_Progress
  | Err_Terminal_Prepared
  | Err_Repair_Prepared
  | Err_Schema

section \<open>Metadata\<close>

definition createDefaultWorkflowMetadata :: "string \<Rightarrow> workflow_metadata" where
  "createDefaultWorkflowMetadata nowIso =
     \<lparr>wm_generation = 0, wm_state = W_Idle, wm_retryCount = 0, wm_retryHistory = [], wm_retryEpoch = 0, wm_lastOutcome = Out_None,
      wm_lastTransitionId = None, wm_updatedAt = nowIso, wm_forcedCompletion = False, wm_supervisedRecovery = False,
      wm_settlementRecovery = False, wm_noMutationSettlement = None, wm_externalEvidence = None\<rparr>"

definition settlement_failed :: "dispatch_args \<Rightarrow> bool" where
  "settlement_failed d = (case da_context d of None \<Rightarrow> False | Some c \<Rightarrow> gc_settlementFailed c)"

fun getEventOutcome :: "event_kind \<Rightarrow> workflow_outcome" where
  "getEventOutcome (Dispatch_Attempted _) = Out_Dispatch_Attempted"
| "getEventOutcome (Dispatch_No_Mutation _) = Out_Dispatch_No_Mutation"
| "getEventOutcome (Accepted_Mutation d) = (if settlement_failed d then Out_Accepted_Mutation_Failed else Out_Accepted_Mutation)"
| "getEventOutcome (Stage_A_Passed _ _) = Out_Stage_A_Passed"
| "getEventOutcome Stage_A_Failed = Out_Stage_A_Failed"
| "getEventOutcome (Stage_B_Completed _ _ _ _ _) = Out_Stage_B_Completed"
| "getEventOutcome (Stage_B_Failed _) = Out_Stage_B_Failed"
| "getEventOutcome (Gate_Recorded _ _ _) = Out_Gate_Recorded"
| "getEventOutcome (Task_Completed _ _ _) = Out_Task_Completed"
| "getEventOutcome Task_Blocked = Out_Task_Blocked"
| "getEventOutcome Task_Closed = Out_Task_Closed"
| "getEventOutcome Repair_Idle = Out_Repair_Idle"
| "getEventOutcome (External_Attested _) = Out_External_Attested"
| "getEventOutcome External_Revoked = Out_External_Revoked"

definition getTaskWorkflowSnapshot :: "task_evidence option \<Rightarrow> workflow_snapshot" where
  "getTaskWorkflowSnapshot evidence =
     (case evidence of
        Some e \<Rightarrow> (case te_workflow e of Some w \<Rightarrow> (w, True) | None \<Rightarrow> (createDefaultWorkflowMetadata [], False))
      | None \<Rightarrow> (createDefaultWorkflowMetadata [], False))"

section \<open>Required gates\<close>

definition empty_context :: gate_context where
  "empty_context = \<lparr>gc_testEngineerExempt = False, gc_settlementFailed = False, gc_declaredFiles = None, gc_settlementTransitionId = None\<rparr>"

definition deriveRequiredGates :: "string \<Rightarrow> gate_context \<Rightarrow> string list" where
  "deriveRequiredGates agentType context =
     (if agentType = ''coder'' then
        (if gc_testEngineerExempt context then [''reviewer''] else [''reviewer'', ''test_engineer''])
      else if agentType = ''docs'' then [''docs'']
      else if agentType = ''designer'' then [''designer'', ''reviewer'', ''test_engineer'']
      else if agentType = ''explorer'' then [''explorer'']
      else if agentType = ''sme'' then [''sme'']
      else if agentType = ''reviewer'' then [''reviewer'']
      else if agentType = ''test_engineer'' then [''test_engineer'']
      else if agentType = ''critic'' then [''critic'']
      else if agentType = ''critic_sounding_board'' then [''critic_sounding_board'']
      else if agentType = ''critic_drift_verifier'' then [''critic_drift_verifier'']
      else if agentType = ''critic_hallucination_verifier'' then [''critic_hallucination_verifier'']
      else if agentType = ''critic_architecture_supervisor'' then [''critic_architecture_supervisor'']
      else [''reviewer'', ''test_engineer''])"

definition expandRequiredGates :: "string list \<Rightarrow> string \<Rightarrow> gate_context \<Rightarrow> string list" where
  "expandRequiredGates existingGates newAgentType context =
     js_sort code_unit_compare (js_uniq (existingGates @ deriveRequiredGates newAgentType context))"

definition RECONSTRUCTION_SENTINEL :: string where
  "RECONSTRUCTION_SENTINEL = ''requirements_reconstruction''"

definition existing_gates :: "task_evidence option \<Rightarrow> string list" where
  "existing_gates existing = (case existing of None \<Rightarrow> [] | Some e \<Rightarrow> te_requiredGates e)"

definition expand_for :: "task_evidence option \<Rightarrow> string \<Rightarrow> string list" where
  "expand_for existing gate =
     (case existing of
        Some e \<Rightarrow> expandRequiredGates (te_requiredGates e) gate empty_context
      | None \<Rightarrow> deriveRequiredGates gate empty_context)"

definition maybeExpandRequiredGates :: "task_evidence option \<Rightarrow> event_kind \<Rightarrow> string list" where
  "maybeExpandRequiredGates existing event =
     (case event of
        Accepted_Mutation d \<Rightarrow>
          (case da_agentType d of
             None \<Rightarrow> existing_gates existing
           | Some agentType \<Rightarrow>
               if js_trim agentType = [] then existing_gates existing
               else
                 let context = option_or (da_context d) empty_context
                 in case existing of
                      Some e \<Rightarrow> expandRequiredGates (filter (\<lambda>g. g \<noteq> RECONSTRUCTION_SENTINEL) (te_requiredGates e)) agentType context
                    | None \<Rightarrow> deriveRequiredGates agentType context)
      | Stage_B_Completed gate _ _ _ ensureDefault \<Rightarrow>
          if ensureDefault then expandRequiredGates (existing_gates existing) ''coder'' empty_context
          else expand_for existing (gate_name gate)
      | Gate_Recorded gate _ _ \<Rightarrow> expand_for existing gate
      | _ \<Rightarrow> existing_gates existing)"

definition hasAllRequiredGatesPassed :: "string list \<Rightarrow> gates \<Rightarrow> bool" where
  "hasAllRequiredGatesPassed requiredGates gates = (requiredGates \<noteq> [] \<and> list_all (js_has gates) requiredGates)"

definition clearWorkflowGateProof :: "gates \<Rightarrow> gates" where
  "clearWorkflowGateProof gates =
     fold js_delete [''pre_check'', ''reviewer'', ''test_engineer'', ''council'', ''critic'', ''critic_sounding_board''] gates"

section \<open>Duplicates\<close>

definition assertExpectedGeneration :: "workflow_metadata \<Rightarrow> task_event \<Rightarrow> workflow_error option" where
  "assertExpectedGeneration current event =
     (case ev_expectedGeneration event of
        None \<Rightarrow> None
      | Some g \<Rightarrow> if g \<noteq> wm_generation current then Some (Err_Generation_Mismatch g (wm_generation current)) else None)"

definition no_mutation_proof :: "dispatch_args \<Rightarrow> string option \<Rightarrow> bool" where
  "no_mutation_proof d transitionId =
     (case da_context d of
        None \<Rightarrow> False
      | Some c \<Rightarrow> gc_declaredFiles c = Some [] \<and> gc_settlementTransitionId c = transitionId)"

definition isDuplicateTransition :: "workflow_snapshot \<Rightarrow> task_event \<Rightarrow> bool" where
  "isDuplicateTransition snapshot event =
     (let (current, authoritative) = snapshot
      in if (case ev_kind event of
               Dispatch_No_Mutation d \<Rightarrow> no_mutation_proof d (ev_transitionId event) \<and> wm_noMutationSettlement current = None
             | _ \<Rightarrow> False) then False
         else
           authoritative \<and>
           (case ev_transitionId event of
              None \<Rightarrow> False
            | Some t \<Rightarrow> t \<noteq> [] \<and> wm_lastTransitionId current = Some t \<and> wm_lastOutcome current = getEventOutcome (ev_kind event)))"

section \<open>The proofs that replace QA\<close>

definition isNoMutationSettlementMetadata :: "workflow_snapshot \<Rightarrow> bool" where
  "isNoMutationSettlementMetadata snapshot =
     (let (w, authoritative) = snapshot
      in case wm_noMutationSettlement w of
           None \<Rightarrow> False
         | Some s \<Rightarrow>
             authoritative \<and> wm_generation w = 0 \<and> nm_generation s = 0 \<and> nm_transitionId s \<noteq> [] \<and> nm_declaredFiles s = [] \<and>
             (wm_state w = W_Idle \<or> wm_state w = W_Complete))"

definition bundle_matched :: "external_bundle option \<Rightarrow> bool" where
  "bundle_matched bundle =
     (case bundle of None \<Rightarrow> False | Some b \<Rightarrow> xb_anchors b \<noteq> [] \<and> list_all an_matched (xb_anchors b))"

record applicable_gates =
  ag_requiredGates :: "string list"
  ag_satisfiedGates :: "string list"
  ag_missingGates :: "string list"
  ag_readOnlyNoMutation :: bool

text \<open>\<open>currentDeclaredFiles\<close>: \<open>None\<close> where the caller does not ask, \<open>Some None\<close> where the scope is unknown.\<close>

definition deriveApplicableGateSet :: "task_evidence option \<Rightarrow> string list option option \<Rightarrow> applicable_gates" where
  "deriveApplicableGateSet evidence currentDeclaredFiles =
     (case evidence of
        None \<Rightarrow> \<lparr>ag_requiredGates = [''pre_check''], ag_satisfiedGates = [], ag_missingGates = [''pre_check''], ag_readOnlyNoMutation = False\<rparr>
      | Some e \<Rightarrow>
          let (w, authoritative) = getTaskWorkflowSnapshot (Some e);
              readOnly = isNoMutationSettlementMetadata (w, authoritative) \<and>
                (case currentDeclaredFiles of None \<Rightarrow> True | Some files \<Rightarrow> files = Some []);
              external = wm_lastOutcome w = Out_External_Attested \<and> bundle_matched (wm_externalEvidence w);
              declared = js_uniq (te_requiredGates e);
              required = (if \<not> readOnly \<and> \<not> external \<and> ''pre_check'' \<notin> set declared then ''pre_check'' # declared else declared)
          in \<lparr>ag_requiredGates = required, ag_satisfiedGates = filter (js_has (te_gates e)) required,
              ag_missingGates = filter (\<lambda>g. \<not> js_has (te_gates e) g) required, ag_readOnlyNoMutation = readOnly\<rparr>)"

definition hasPassedAllGates :: "task_evidence option \<Rightarrow> string list option option \<Rightarrow> bool" where
  "hasPassedAllGates evidence currentDeclaredFiles =
     (case evidence of
        None \<Rightarrow> False
      | Some e \<Rightarrow>
          (case currentDeclaredFiles of
             None \<Rightarrow>
               if ag_readOnlyNoMutation (deriveApplicableGateSet evidence None) then False
               else hasAllRequiredGatesPassed (te_requiredGates e) (te_gates e)
           | Some _ \<Rightarrow> ag_missingGates (deriveApplicableGateSet evidence currentDeclaredFiles) = []))"

section \<open>The reducer\<close>

definition terminal_state :: "workflow_state \<Rightarrow> bool" where
  "terminal_state s = (s = W_Complete \<or> s = W_Blocked \<or> s = W_Closed)"

definition leaves_terminal :: "workflow_state \<Rightarrow> event_kind \<Rightarrow> bool" where
  "leaves_terminal s event =
     (case event of
        Repair_Idle \<Rightarrow> True
      | Task_Completed _ _ _ \<Rightarrow> s = W_Complete
      | Task_Blocked \<Rightarrow> s = W_Blocked
      | Task_Closed \<Rightarrow> s = W_Blocked
      | Stage_A_Passed _ settlementRecovery \<Rightarrow> s = W_Blocked \<and> settlementRecovery
      | _ \<Rightarrow> False)"

definition base_metadata :: "workflow_metadata \<Rightarrow> task_event \<Rightarrow> string \<Rightarrow> workflow_metadata" where
  "base_metadata current event nowIso =
     current\<lparr>wm_lastOutcome := getEventOutcome (ev_kind event),
             wm_lastTransitionId := (case ev_transitionId event of Some t \<Rightarrow> Some t | None \<Rightarrow> wm_lastTransitionId current),
             wm_updatedAt := nowIso\<rparr>"

text \<open>Both proofs that replace QA, dropped.\<close>

definition without_proofs :: "workflow_metadata \<Rightarrow> workflow_metadata" where
  "without_proofs w = w\<lparr>wm_noMutationSettlement := None, wm_externalEvidence := None\<rparr>"

definition last3 :: "'a list \<Rightarrow> 'a list" where
  "last3 xs = drop (length xs - 3) xs"

definition count_retry :: "workflow_metadata \<Rightarrow> workflow_outcome \<Rightarrow> workflow_metadata \<Rightarrow> workflow_metadata" where
  "count_retry current outcome w =
     w\<lparr>wm_retryCount := min (wm_retryCount current + 1) 3,
       wm_retryHistory := last3 (wm_retryHistory current @ [outcome]),
       wm_retryEpoch := (if wm_retryEpoch current \<noteq> 0 then wm_retryEpoch current else wm_generation current + 1)\<rparr>"

definition reduceTaskWorkflowSnapshot ::
  "workflow_snapshot \<Rightarrow> task_event \<Rightarrow> string list \<Rightarrow> gates \<Rightarrow> string \<Rightarrow> workflow_error + workflow_metadata" where
  "reduceTaskWorkflowSnapshot snapshot event requiredGates gates nowIso =
     (let (current, authoritative) = snapshot;
          s = wm_state current;
          outcome = getEventOutcome (ev_kind event);
          base = base_metadata current event nowIso
      in if terminal_state s \<and> \<not> leaves_terminal s (ev_kind event) then Inl (Err_Terminal s)
         else case ev_kind event of
           Dispatch_Attempted _ \<Rightarrow> Inr (without_proofs base)
         | Dispatch_No_Mutation d \<Rightarrow>
             Inr ((count_retry current outcome (without_proofs base))
               \<lparr>wm_noMutationSettlement :=
                 (case ev_transitionId event of
                    None \<Rightarrow> None
                  | Some t \<Rightarrow>
                      if wm_generation current = 0 \<and> t \<noteq> [] \<and> no_mutation_proof d (Some t)
                      then Some \<lparr>nm_generation = 0, nm_transitionId = t, nm_declaredFiles = []\<rparr> else None)\<rparr>)
         | Stage_B_Failed gate \<Rightarrow>
             if s \<notin> {W_Pre_Check_Passed, W_Reviewer_Run, W_Tests_Run, W_Rework_Required} then Inl (Err_Stage_A_Required s)
             else Inr (count_retry current outcome (base\<lparr>wm_state := W_Rework_Required\<rparr>))
         | Accepted_Mutation d \<Rightarrow>
             let fresh = (without_proofs base)\<lparr>wm_generation := wm_generation current + 1, wm_supervisedRecovery := False,
                   wm_settlementRecovery := False\<rparr>
             in if settlement_failed d then Inr (count_retry current outcome (fresh\<lparr>wm_state := W_Rework_Required\<rparr>))
                else Inr (fresh\<lparr>wm_state := W_Coder_Delegated\<rparr>)
         | Stage_A_Passed supervised settlement \<Rightarrow>
             if s = W_Coder_Delegated \<or> s = W_Pre_Check_Passed \<or> (s = W_Rework_Required \<and> supervised) \<or>
                (settlement \<and> (s = W_Idle \<or> s = W_Blocked))
             then Inr (base\<lparr>wm_supervisedRecovery := (wm_supervisedRecovery base \<or> supervised),
                            wm_settlementRecovery := (wm_settlementRecovery base \<or> settlement),
                            wm_state := W_Pre_Check_Passed\<rparr>)
             else Inl (Err_Coder_Mutation_Required s)
         | Stage_A_Failed \<Rightarrow>
             if s = W_Coder_Delegated \<or> s = W_Pre_Check_Passed \<or> s = W_Rework_Required
             then Inr (count_retry current outcome (base\<lparr>wm_state := W_Rework_Required\<rparr>))
             else Inl (Err_Coder_Mutation_Required s)
         | Stage_B_Completed gate _ routeComplete _ _ \<Rightarrow>
             if s \<noteq> W_Pre_Check_Passed \<and> s \<noteq> W_Reviewer_Run \<and> s \<noteq> W_Tests_Run then Inl (Err_Stage_A_Required s)
             else (case routeComplete of
                     Some False \<Rightarrow> Inr (base\<lparr>wm_state := (if gate = Reviewer_Gate \<or> s = W_Reviewer_Run then W_Reviewer_Run else s)\<rparr>)
                   | Some True \<Rightarrow> Inr (base\<lparr>wm_state := W_Tests_Run\<rparr>)
                   | None \<Rightarrow> Inr (base\<lparr>wm_state := (if hasAllRequiredGatesPassed requiredGates gates then W_Tests_Run else W_Reviewer_Run)\<rparr>))
         | Gate_Recorded _ _ _ \<Rightarrow> Inr base
         | External_Attested bundle \<Rightarrow>
             if s \<noteq> W_Idle then Inl (Err_External_Attest_State s)
             else if (case wm_externalEvidence current of None \<Rightarrow> False | Some b \<Rightarrow> xb_transitionId b = xb_transitionId bundle) then Inr base
             else Inr (base\<lparr>wm_externalEvidence := Some bundle\<rparr>)
         | External_Revoked \<Rightarrow> Inr (base\<lparr>wm_externalEvidence := None\<rparr>)
         | Task_Completed qaExempt readOnly external \<Rightarrow>
             let readOnlyNoMutation = readOnly \<and> s = W_Idle \<and> wm_generation current = 0 \<and> isNoMutationSettlementMetadata snapshot \<and>
                   list_all (js_has gates) requiredGates;
                 externalAdmitted = external \<and> bundle_matched (wm_externalEvidence current) \<and> (s = W_Idle \<or> s = W_Complete)
             in if \<not> qaExempt \<and> s \<noteq> W_Tests_Run \<and> s \<noteq> W_Complete \<and> \<not> (s = W_Pre_Check_Passed \<and> js_has gates ''council'') \<and>
                   \<not> readOnlyNoMutation \<and> \<not> externalAdmitted
                then Inl (Err_QA_Required s)
                else Inr (base\<lparr>wm_state := W_Complete, wm_forcedCompletion := (wm_forcedCompletion base \<or> qaExempt)\<rparr>)
         | Task_Blocked \<Rightarrow> Inr (base\<lparr>wm_state := W_Blocked\<rparr>)
         | Task_Closed \<Rightarrow> Inr (base\<lparr>wm_state := W_Closed\<rparr>)
         | Repair_Idle \<Rightarrow>
             Inr ((without_proofs base)\<lparr>wm_forcedCompletion := False, wm_supervisedRecovery := False, wm_settlementRecovery := False,
                  wm_generation := wm_generation current + 1, wm_state := W_Idle, wm_retryCount := 0, wm_retryHistory := [],
                  wm_retryEpoch := 0\<rparr>))"

section \<open>The evidence\<close>

definition event_gates :: "event_kind \<Rightarrow> string \<Rightarrow> gates \<Rightarrow> gates" where
  "event_gates event nowIso gates =
     (case event of
        Accepted_Mutation _ \<Rightarrow> clearWorkflowGateProof gates
      | Repair_Idle \<Rightarrow> clearWorkflowGateProof gates
      | Stage_A_Passed _ _ \<Rightarrow> js_set ''pre_check'' \<lparr>ge_sessionId = ''system'', ge_timestamp = nowIso, ge_agent = ''pre_check''\<rparr> gates
      | Stage_A_Failed \<Rightarrow> js_delete ''pre_check'' gates
      | Stage_B_Failed _ \<Rightarrow> js_delete ''test_engineer'' (js_delete ''reviewer'' gates)
      | Stage_B_Completed gate sessionId _ _ _ \<Rightarrow>
          js_set (gate_name gate) \<lparr>ge_sessionId = sessionId, ge_timestamp = nowIso, ge_agent = gate_name gate\<rparr> gates
      | Gate_Recorded gate sessionId _ \<Rightarrow> js_set gate \<lparr>ge_sessionId = sessionId, ge_timestamp = nowIso, ge_agent = gate\<rparr> gates
      | _ \<Rightarrow> gates)"

definition event_turbo :: "event_kind \<Rightarrow> bool option" where
  "event_turbo event =
     (case event of
        Dispatch_Attempted d \<Rightarrow> da_turbo d | Dispatch_No_Mutation d \<Rightarrow> da_turbo d | Accepted_Mutation d \<Rightarrow> da_turbo d
      | Stage_B_Completed _ _ _ turbo _ \<Rightarrow> turbo | Gate_Recorded _ _ turbo \<Rightarrow> turbo | _ \<Rightarrow> None)"

definition event_dispatch :: "event_kind \<Rightarrow> dispatch_args option" where
  "event_dispatch event =
     (case event of
        Dispatch_Attempted d \<Rightarrow> Some d | Dispatch_No_Mutation d \<Rightarrow> Some d | Accepted_Mutation d \<Rightarrow> Some d | _ \<Rightarrow> None)"

definition next_exempt :: "event_kind \<Rightarrow> string list \<Rightarrow> bool option \<Rightarrow> bool option" where
  "next_exempt event requiredGates old =
     (case event_dispatch event of
        Some d \<Rightarrow>
          if da_agentType d = Some ''coder''
          then Some ((case da_context d of None \<Rightarrow> False | Some c \<Rightarrow> gc_testEngineerExempt c) \<and> ''test_engineer'' \<notin> set requiredGates)
          else old
      | None \<Rightarrow> old)"

text \<open>The next evidence, and whether the event was a duplicate.\<close>

definition updateEvidenceForTransition ::
  "string \<Rightarrow> task_evidence option \<Rightarrow> task_event \<Rightarrow> workflow_error + (task_evidence \<times> bool)" where
  "updateEvidenceForTransition nowIso existing event =
     (let requiredGates = maybeExpandRequiredGates existing (ev_kind event);
          gates = event_gates (ev_kind event) nowIso (case existing of None \<Rightarrow> [] | Some e \<Rightarrow> te_gates e);
          snapshot = getTaskWorkflowSnapshot existing
      in case assertExpectedGeneration (fst snapshot) event of
           Some err \<Rightarrow> Inl err
         | None \<Rightarrow>
             if isDuplicateTransition snapshot event \<and> existing \<noteq> None then Inr (the existing, True)
             else case reduceTaskWorkflowSnapshot snapshot event requiredGates gates nowIso of
                    Inl err \<Rightarrow> Inl err
                  | Inr workflow \<Rightarrow>
                      Inr (\<lparr>te_taskId = (case existing of None \<Rightarrow> [] | Some e \<Rightarrow> te_taskId e),
                            te_requiredGates = requiredGates, te_gates = gates,
                            te_turbo = (if event_turbo (ev_kind event) = Some True then Some True
                                        else case existing of None \<Rightarrow> None | Some e \<Rightarrow> te_turbo e),
                            te_requirementsState = (case existing of None \<Rightarrow> None | Some e \<Rightarrow> te_requirementsState e),
                            te_testEngineerExempt = next_exempt (ev_kind event) requiredGates
                              (case existing of None \<Rightarrow> None | Some e \<Rightarrow> te_testEngineerExempt e),
                            te_planId = None, te_planIdentityHash = None, te_workflow = Some workflow,
                            te_repairProvenance = (case existing of None \<Rightarrow> None | Some e \<Rightarrow> te_repairProvenance e),
                            te_todoScan = (case existing of None \<Rightarrow> None | Some e \<Rightarrow> te_todoScan e)\<rparr>, False))"

section \<open>The transaction\<close>

datatype wal_state = Wal_Aborted | Wal_Committed | Wal_Dispatched | Wal_Prepared

record coder_wal =
  cw_state :: wal_state
  cw_transitionId :: string
  cw_accepted :: "bool option"
  cw_declaredFiles :: "string list option"

record terminal_wal =
  tw_state :: wal_state
  tw_transitionId :: string
  tw_newPlanStatus :: string

record repair_wal =
  rw_state :: wal_state
  rw_transitionId :: string

record task_wals =
  wals_coder :: "coder_wal option"
  wals_terminal :: "terminal_wal option"
  wals_repair :: "repair_wal option"

definition owns :: "string \<Rightarrow> (event_kind \<Rightarrow> bool) \<Rightarrow> task_event option \<Rightarrow> bool" where
  "owns t kinds event = (case event of None \<Rightarrow> False | Some e \<Rightarrow> ev_transitionId e = Some t \<and> kinds (ev_kind e))"

definition coder_kind :: "event_kind \<Rightarrow> bool" where
  "coder_kind k = (case k of Dispatch_Attempted _ \<Rightarrow> True | Dispatch_No_Mutation _ \<Rightarrow> True | Accepted_Mutation _ \<Rightarrow> True | _ \<Rightarrow> False)"

definition terminal_kind :: "string \<Rightarrow> event_kind \<Rightarrow> bool" where
  "terminal_kind status k =
     (case k of
        Task_Completed _ _ _ \<Rightarrow> status = ''completed'' | Task_Blocked \<Rightarrow> status = ''blocked'' | Task_Closed \<Rightarrow> status = ''closed''
      | _ \<Rightarrow> False)"

definition assertTaskEvidenceWriteAllowed :: "task_wals \<Rightarrow> task_event option \<Rightarrow> workflow_error option" where
  "assertTaskEvidenceWriteAllowed wals event =
     (if (case wals_coder wals of
            None \<Rightarrow> False
          | Some w \<Rightarrow> (cw_state w = Wal_Dispatched \<or> cw_state w = Wal_Prepared) \<and> \<not> owns (cw_transitionId w) coder_kind event)
      then Some Err_Settlement_In_Progress
      else if (case wals_terminal wals of
            None \<Rightarrow> False
          | Some w \<Rightarrow> tw_state w = Wal_Prepared \<and> \<not> owns (tw_transitionId w) (terminal_kind (tw_newPlanStatus w)) event)
      then Some Err_Terminal_Prepared
      else if (case wals_repair wals of
            None \<Rightarrow> False
          | Some w \<Rightarrow> rw_state w = Wal_Prepared \<and> \<not> owns (rw_transitionId w) (\<lambda>k. k = Repair_Idle) event)
      then Some Err_Repair_Prepared
      else None)"

text \<open>The proof of a settlement without a mutation is taken from the log of the coder settlement, never from the caller.\<close>

definition trusted_settlement :: "coder_wal option \<Rightarrow> string \<Rightarrow> gate_context \<Rightarrow> bool" where
  "trusted_settlement wal t context =
     (case wal of
        None \<Rightarrow> False
      | Some w \<Rightarrow> (cw_state w = Wal_Prepared \<or> cw_state w = Wal_Committed) \<and> cw_accepted w = Some False \<and> cw_transitionId w = t \<and>
          cw_declaredFiles w = Some [] \<and> gc_declaredFiles context = Some [])"

definition bindTrustedNoMutationSettlement :: "coder_wal option \<Rightarrow> task_event \<Rightarrow> task_event" where
  "bindTrustedNoMutationSettlement wal event =
     (case ev_kind event of
        Dispatch_No_Mutation d \<Rightarrow>
          (case (da_context d, ev_transitionId event) of
             (Some context, Some t) \<Rightarrow>
               event\<lparr>ev_kind := Dispatch_No_Mutation (d\<lparr>da_context := Some
                 (if trusted_settlement wal t context
                  then context\<lparr>gc_declaredFiles := Some [], gc_settlementTransitionId := Some t\<rparr>
                  else context\<lparr>gc_settlementTransitionId := None\<rparr>)\<rparr>)\<rparr>
           | _ \<Rightarrow> event\<lparr>ev_kind := Dispatch_No_Mutation (d\<lparr>da_context := None\<rparr>)\<rparr>)
      | _ \<Rightarrow> event)"

definition planStampForPersist ::
  "task_evidence \<Rightarrow> task_evidence option \<Rightarrow> (string \<times> string) option \<Rightarrow> bool \<Rightarrow> task_evidence" where
  "planStampForPersist nextEvidence previous planIdentity campaignRestart =
     (if te_planIdentityHash nextEvidence \<noteq> None then nextEvidence
      else if te_gates nextEvidence \<noteq> [] \<and> previous \<noteq> None \<and> \<not> campaignRestart then
        (case te_planIdentityHash (the previous) of
           None \<Rightarrow> nextEvidence
         | Some h \<Rightarrow>
             nextEvidence\<lparr>te_planId := (case te_planId (the previous) of Some i \<Rightarrow> Some i | None \<Rightarrow> te_planId nextEvidence),
                          te_planIdentityHash := Some h\<rparr>)
      else (case planIdentity of
              None \<Rightarrow> nextEvidence
            | Some (i, h) \<Rightarrow> nextEvidence\<lparr>te_planId := Some i, te_planIdentityHash := Some h\<rparr>))"

section \<open>The schema of the evidence file\<close>

definition is_sha256 :: "string \<Rightarrow> bool" where
  "is_sha256 s = (length s = 64 \<and> list_all (\<lambda>c. c \<in> set ''0123456789abcdef'') s)"

definition anchor_schema :: "evidence_anchor \<Rightarrow> bool" where
  "anchor_schema a =
     (1 \<le> length (an_command a) \<and> length (an_command a) \<le> 400 \<and>
      (case an_expect a of None \<Rightarrow> True | Some s \<Rightarrow> length s \<le> 4096) \<and>
      (case an_expectPrefix a of None \<Rightarrow> True | Some s \<Rightarrow> 1 \<le> length s \<and> length s \<le> 4096) \<and>
      length (an_stdout a) \<le> 4096 \<and> \<not> (an_expect a = None \<and> an_expectPrefix a = None))"

definition ExternalEvidenceBundleSchema :: "external_bundle \<Rightarrow> bool" where
  "ExternalEvidenceBundleSchema b =
     (1 \<le> length (xb_transitionId b) \<and> length (xb_transitionId b) \<le> 512 \<and> is_sha256 (xb_declarationDigest b) \<and>
      1 \<le> length (xb_anchors b) \<and> length (xb_anchors b) \<le> 16 \<and> list_all anchor_schema (xb_anchors b) \<and> 1 \<le> length (xb_attestedAt b))"

definition TaskWorkflowMetadataSchema :: "workflow_metadata \<Rightarrow> bool" where
  "TaskWorkflowMetadataSchema w =
     (0 \<le> wm_generation w \<and> 0 \<le> wm_retryCount w \<and> length (wm_retryHistory w) \<le> 3 \<and> 0 \<le> wm_retryEpoch w \<and>
      wm_lastTransitionId w \<noteq> Some [] \<and>
      (case wm_noMutationSettlement w of
         None \<Rightarrow> True
       | Some s \<Rightarrow> nm_generation s = 0 \<and> 1 \<le> length (nm_transitionId s) \<and> length (nm_transitionId s) \<le> 512 \<and> nm_declaredFiles s = []) \<and>
      (case wm_externalEvidence w of None \<Rightarrow> True | Some b \<Rightarrow> ExternalEvidenceBundleSchema b))"

definition TaskEvidenceSchema :: "task_evidence \<Rightarrow> bool" where
  "TaskEvidenceSchema e =
     ((case te_requirementsState e of None \<Rightarrow> True | Some s \<Rightarrow> s = ''known'' \<or> s = ''unknown'') \<and>
      (case te_planIdentityHash e of None \<Rightarrow> True | Some h \<Rightarrow> is_sha256 h) \<and>
      (case te_workflow e of None \<Rightarrow> True | Some w \<Rightarrow> TaskWorkflowMetadataSchema w) \<and>
      (case te_repairProvenance e of
         None \<Rightarrow> True
       | Some (source, generation, receipt) \<Rightarrow>
           (case source of None \<Rightarrow> True | Some h \<Rightarrow> is_sha256 h) \<and> (case generation of None \<Rightarrow> True | Some g \<Rightarrow> 0 \<le> g) \<and>
           (case receipt of None \<Rightarrow> True | Some h \<Rightarrow> is_sha256 h)))"

definition campaign_restart :: "task_event \<Rightarrow> bool \<Rightarrow> bool" where
  "campaign_restart event duplicated =
     (case ev_kind event of Accepted_Mutation d \<Rightarrow> da_agentType d = Some ''coder'' \<and> \<not> duplicated | _ \<Rightarrow> False)"

text \<open>One transition of the evidence file of a task, under its lock.\<close>

definition transitionTaskWorkflowEvidence ::
  "task_wals \<Rightarrow> (string \<times> string) option \<Rightarrow> string \<Rightarrow> string \<Rightarrow> task_evidence option \<Rightarrow> task_event \<Rightarrow>
   workflow_error + (task_evidence \<times> bool)" where
  "transitionTaskWorkflowEvidence wals planIdentity nowIso taskId current event =
     (let bound = bindTrustedNoMutationSettlement (wals_coder wals) event
      in case assertTaskEvidenceWriteAllowed wals (Some bound) of
           Some err \<Rightarrow> Inl err
         | None \<Rightarrow>
             (case updateEvidenceForTransition nowIso current bound of
                Inl err \<Rightarrow> Inl err
              | Inr (nextEvidence, duplicated) \<Rightarrow>
                  let validated = planStampForPersist (nextEvidence\<lparr>te_taskId := taskId\<rparr>) current planIdentity
                        (campaign_restart bound duplicated)
                  in if TaskEvidenceSchema validated then Inr (validated, duplicated) else Inl Err_Schema))"

end
