(* ===== verification/Task_Workflow_Facts.thy ===== *)
theory Task_Workflow_Facts
  imports Task_Workflow
begin

text \<open>
  The workflow of a task: no completion without QA since the last change, events bound to an old generation, replays,
  where the proof of an empty settlement comes from, and that every evidence the reducer writes is readable again.
\<close>

section \<open>Runs\<close>

text \<open>One input: the logs, the plan's identity and the clock at that moment, and the event.\<close>

record task_input =
  ti_wals :: task_wals
  ti_identity :: "(string \<times> string) option"
  ti_now :: string
  ti_event :: task_event

definition apply_input :: "string \<Rightarrow> task_input \<Rightarrow> task_evidence option \<Rightarrow> workflow_error + (task_evidence \<times> bool)" where
  "apply_input taskId i current =
     transitionTaskWorkflowEvidence (ti_wals i) (ti_identity i) (ti_now i) taskId current (ti_event i)"

definition task_step :: "string \<Rightarrow> task_input \<Rightarrow> task_evidence option \<Rightarrow> task_evidence option" where
  "task_step taskId i current = (case apply_input taskId i current of Inl _ \<Rightarrow> current | Inr (e, _) \<Rightarrow> Some e)"

section \<open>One transition\<close>

lemma planStamp_simps [simp]:
  "te_workflow (planStampForPersist e p i c) = te_workflow e" "te_gates (planStampForPersist e p i c) = te_gates e"
  "te_requiredGates (planStampForPersist e p i c) = te_requiredGates e" "te_taskId (planStampForPersist e p i c) = te_taskId e"
  "te_requirementsState (planStampForPersist e p i c) = te_requirementsState e"
  "te_repairProvenance (planStampForPersist e p i c) = te_repairProvenance e"
  by (auto simp: planStampForPersist_def split: option.split)

lemma bind_simps [simp]:
  "ev_expectedGeneration (bindTrustedNoMutationSettlement wal ev) = ev_expectedGeneration ev"
  "ev_transitionId (bindTrustedNoMutationSettlement wal ev) = ev_transitionId ev"
  by (auto simp: bindTrustedNoMutationSettlement_def split: event_kind.split option.split)

lemma bind_other: "(\<And>d. ev_kind ev \<noteq> Dispatch_No_Mutation d) \<Longrightarrow> bindTrustedNoMutationSettlement wal ev = ev"
  by (auto simp: bindTrustedNoMutationSettlement_def split: event_kind.split)

lemma bind_no_mutation:
  "ev_kind ev = Dispatch_No_Mutation d \<Longrightarrow> \<exists>d'. ev_kind (bindTrustedNoMutationSettlement wal ev) = Dispatch_No_Mutation d'"
  by (auto simp: bindTrustedNoMutationSettlement_def split: option.split)

definition old_gates :: "task_evidence option \<Rightarrow> gates" where
  "old_gates existing = (case existing of None \<Rightarrow> [] | Some e \<Rightarrow> te_gates e)"

text \<open>What a transition that is applied and not a duplicate writes.\<close>

lemma applied_step:
  assumes "apply_input taskId i current = Inr (e, False)"
  obtains w where
    "reduceTaskWorkflowSnapshot (getTaskWorkflowSnapshot current) (bindTrustedNoMutationSettlement (wals_coder (ti_wals i)) (ti_event i))
       (te_requiredGates e) (te_gates e) (ti_now i) = Inr w"
    "te_workflow e = Some w"
    "te_gates e = event_gates (ev_kind (bindTrustedNoMutationSettlement (wals_coder (ti_wals i)) (ti_event i))) (ti_now i) (old_gates current)"
    "assertExpectedGeneration (fst (getTaskWorkflowSnapshot current)) (ti_event i) = None"
  using assms
  by (auto simp: apply_input_def transitionTaskWorkflowEvidence_def updateEvidenceForTransition_def Let_def old_gates_def
      assertExpectedGeneration_def split: option.splits sum.splits if_splits prod.splits)

lemma duplicate_step:
  assumes "apply_input taskId i current = Inr (e, True)"
  obtains old where "current = Some old" "te_workflow e = te_workflow old" "te_gates e = te_gates old"
    "te_requiredGates e = te_requiredGates old"
  using assms
  by (auto simp: apply_input_def transitionTaskWorkflowEvidence_def updateEvidenceForTransition_def Let_def
      split: option.splits sum.splits if_splits prod.splits)

section \<open>QA before completion\<close>

datatype qa_stage = Unchecked | Checked | Reviewed

text \<open>How far QA has come since the last change, rejection or repair.\<close>

fun qa_monitor :: "event_kind \<Rightarrow> qa_stage \<Rightarrow> qa_stage" where
  "qa_monitor (Accepted_Mutation _) m = Unchecked"
| "qa_monitor Repair_Idle m = Unchecked"
| "qa_monitor Stage_A_Failed m = Unchecked"
| "qa_monitor (Stage_B_Failed _) m = Unchecked"
| "qa_monitor (Stage_A_Passed _ _) m = Checked"
| "qa_monitor (Stage_B_Completed _ _ _ _ _) m = (if m = Unchecked then Unchecked else Reviewed)"
| "qa_monitor _ m = m"

definition monitored_step :: "string \<Rightarrow> task_input \<Rightarrow> qa_stage \<times> task_evidence option \<Rightarrow> qa_stage \<times> task_evidence option" where
  "monitored_step taskId i = (\<lambda>(m, current).
     (case apply_input taskId i current of
        Inl _ \<Rightarrow> (m, current)
      | Inr (e, duplicated) \<Rightarrow> (if duplicated then m else qa_monitor (ev_kind (ti_event i)) m, Some e)))"

definition qa_ok :: "qa_stage \<Rightarrow> workflow_metadata \<Rightarrow> gates \<Rightarrow> bool" where
  "qa_ok m w gates =
     ((wm_state w = W_Pre_Check_Passed \<longrightarrow> m \<noteq> Unchecked \<and> js_has gates ''pre_check'') \<and>
      (wm_state w = W_Reviewer_Run \<or> wm_state w = W_Tests_Run \<longrightarrow> m = Reviewed \<and> js_has gates ''pre_check'') \<and>
      (wm_state w = W_Complete \<and> \<not> wm_forcedCompletion w \<longrightarrow>
        js_has gates ''pre_check'' \<and> (m = Reviewed \<or> m = Checked \<and> js_has gates ''council'') \<or>
        isNoMutationSettlementMetadata (w, True) \<or> bundle_matched (wm_externalEvidence w)))"

lemma base_simps [simp]:
  "wm_state (base_metadata w ev now) = wm_state w" "wm_generation (base_metadata w ev now) = wm_generation w"
  "wm_forcedCompletion (base_metadata w ev now) = wm_forcedCompletion w"
  "wm_noMutationSettlement (base_metadata w ev now) = wm_noMutationSettlement w"
  "wm_externalEvidence (base_metadata w ev now) = wm_externalEvidence w"
  "wm_retryCount (base_metadata w ev now) = wm_retryCount w" "wm_retryHistory (base_metadata w ev now) = wm_retryHistory w"
  "wm_retryEpoch (base_metadata w ev now) = wm_retryEpoch w"
  "wm_lastOutcome (base_metadata w ev now) = getEventOutcome (ev_kind ev)"
  "wm_lastTransitionId (base_metadata w ev now) = (case ev_transitionId ev of Some t \<Rightarrow> Some t | None \<Rightarrow> wm_lastTransitionId w)"
  by (simp_all add: base_metadata_def)

lemma update_simps [simp]:
  "wm_state (without_proofs w) = wm_state w" "wm_generation (without_proofs w) = wm_generation w"
  "wm_state (count_retry c outcome w) = wm_state w" "wm_generation (count_retry c outcome w) = wm_generation w"
  "wm_forcedCompletion (count_retry c outcome w) = wm_forcedCompletion w"
  "wm_forcedCompletion (without_proofs w) = wm_forcedCompletion w"
  "wm_noMutationSettlement (without_proofs w) = None" "wm_externalEvidence (without_proofs w) = None"
  "wm_noMutationSettlement (count_retry c outcome w) = wm_noMutationSettlement w"
  "wm_externalEvidence (count_retry c outcome w) = wm_externalEvidence w"
  "wm_lastOutcome (without_proofs w) = wm_lastOutcome w" "wm_lastOutcome (count_retry c outcome w) = wm_lastOutcome w"
  "wm_lastTransitionId (without_proofs w) = wm_lastTransitionId w"
  "wm_lastTransitionId (count_retry c outcome w) = wm_lastTransitionId w"
  "wm_retryCount (without_proofs w) = wm_retryCount w" "wm_retryHistory (without_proofs w) = wm_retryHistory w"
  "wm_retryEpoch (without_proofs w) = wm_retryEpoch w"
  by (simp_all add: without_proofs_def count_retry_def)

lemmas reduce_splits = if_splits option.splits bool.splits

text \<open>Where the states come from.\<close>

definition keeps_qa :: "event_kind \<Rightarrow> bool" where
  "keeps_qa k =
     (case k of
        Dispatch_Attempted _ \<Rightarrow> True | Dispatch_No_Mutation _ \<Rightarrow> True | Gate_Recorded _ _ _ \<Rightarrow> True | External_Attested _ \<Rightarrow> True
      | External_Revoked \<Rightarrow> True | _ \<Rightarrow> False)"

lemma reaches_complete:
  "reduceTaskWorkflowSnapshot (w, a) ev req gates now = Inr w' \<Longrightarrow> wm_state w' = W_Complete \<Longrightarrow>
     \<exists>q r x. ev_kind ev = Task_Completed q r x"
  by (cases "ev_kind ev")
    (auto simp: reduceTaskWorkflowSnapshot_def Let_def terminal_state_def leaves_terminal_def split: if_splits option.splits bool.splits)

lemma reaches_pre_check:
  "reduceTaskWorkflowSnapshot (w, a) ev req gates now = Inr w' \<Longrightarrow> wm_state w' = W_Pre_Check_Passed \<Longrightarrow>
     (\<exists>x y. ev_kind ev = Stage_A_Passed x y) \<or>
     wm_state w = W_Pre_Check_Passed \<and> (keeps_qa (ev_kind ev) \<or> (\<exists>g s r t d. ev_kind ev = Stage_B_Completed g s r t d))"
  by (cases "ev_kind ev")
    (auto simp: reduceTaskWorkflowSnapshot_def Let_def keeps_qa_def split: if_splits option.splits bool.splits)

lemma reaches_reviewed:
  "reduceTaskWorkflowSnapshot (w, a) ev req gates now = Inr w' \<Longrightarrow> wm_state w' = W_Reviewer_Run \<or> wm_state w' = W_Tests_Run \<Longrightarrow>
     (\<exists>g s r t d. ev_kind ev = Stage_B_Completed g s r t d) \<and>
       (wm_state w = W_Pre_Check_Passed \<or> wm_state w = W_Reviewer_Run \<or> wm_state w = W_Tests_Run) \<or>
     wm_state w = wm_state w' \<and> keeps_qa (ev_kind ev)"
  by (cases "ev_kind ev")
    (auto simp: reduceTaskWorkflowSnapshot_def Let_def keeps_qa_def split: if_splits option.splits bool.splits)

lemma keeps_monitor: "keeps_qa k \<Longrightarrow> qa_monitor k m = m"
  by (cases k) (simp_all add: keeps_qa_def)

lemma keeps_gates: "keeps_qa k \<Longrightarrow> js_has gates g \<Longrightarrow> js_has (event_gates k now gates) g"
  by (cases k) (simp_all add: keeps_qa_def event_gates_def js_has_set)

lemma completed_from:
  assumes "reduceTaskWorkflowSnapshot (w, a) ev req gates now = Inr w'" "ev_kind ev = Task_Completed q r x"
  shows "w' = (base_metadata w ev now)\<lparr>wm_state := W_Complete, wm_forcedCompletion := (wm_forcedCompletion w \<or> q)\<rparr>"
    "q \<or> wm_state w = W_Tests_Run \<or> wm_state w = W_Complete \<or> (wm_state w = W_Pre_Check_Passed \<and> js_has gates ''council'') \<or>
       (isNoMutationSettlementMetadata (w, a) \<and> wm_state w = W_Idle) \<or> bundle_matched (wm_externalEvidence w)"
  using assms by (auto simp: reduceTaskWorkflowSnapshot_def Let_def split: if_splits)

lemma settlement_completed:
  assumes "isNoMutationSettlementMetadata (w, a)" "wm_noMutationSettlement w' = wm_noMutationSettlement w"
    "wm_generation w' = wm_generation w" "wm_state w' = W_Complete"
  shows "isNoMutationSettlementMetadata (w', True)"
  using assms by (auto simp: isNoMutationSettlementMetadata_def split: option.splits)

lemma qa_step:
  assumes "qa_ok m w gates" "reduceTaskWorkflowSnapshot (w, a) ev req (event_gates (ev_kind ev) now gates) now = Inr w'"
  shows "qa_ok (qa_monitor (ev_kind ev) m) w' (event_gates (ev_kind ev) now gates)"
proof -
  let ?m = "qa_monitor (ev_kind ev) m" and ?g = "event_gates (ev_kind ev) now gates"
  have pre: "?m \<noteq> Unchecked \<and> js_has ?g ''pre_check''" if "wm_state w' = W_Pre_Check_Passed"
    using reaches_pre_check [OF assms(2) that]
  proof (elim disjE exE conjE)
    fix x y assume "ev_kind ev = Stage_A_Passed x y"
    then show ?thesis by (simp add: event_gates_def js_has_set)
  next
    assume "wm_state w = W_Pre_Check_Passed" "keeps_qa (ev_kind ev)"
    then show ?thesis using assms(1) by (simp add: qa_ok_def keeps_monitor keeps_gates)
  next
    fix g s r t d assume "wm_state w = W_Pre_Check_Passed" "ev_kind ev = Stage_B_Completed g s r t d"
    then show ?thesis using assms(1) by (simp add: qa_ok_def event_gates_def js_has_set)
  qed
  have reviewed: "?m = Reviewed \<and> js_has ?g ''pre_check''" if "wm_state w' = W_Reviewer_Run \<or> wm_state w' = W_Tests_Run"
  proof -
    from reaches_reviewed [OF assms(2) that] consider
      "\<exists>g s r t d. ev_kind ev = Stage_B_Completed g s r t d"
        "wm_state w = W_Pre_Check_Passed \<or> wm_state w = W_Reviewer_Run \<or> wm_state w = W_Tests_Run"
    | "wm_state w = wm_state w'" "keeps_qa (ev_kind ev)" by blast
    then show ?thesis
    proof cases
      case 1
      then have "m \<noteq> Unchecked \<and> js_has gates ''pre_check''" using assms(1) by (auto simp: qa_ok_def)
      then show ?thesis using 1(1) by (auto simp: event_gates_def js_has_set)
    next
      case 2
      then show ?thesis using assms(1) that by (auto simp: qa_ok_def keeps_monitor keeps_gates)
    qed
  qed
  have complete: "js_has ?g ''pre_check'' \<and> (?m = Reviewed \<or> ?m = Checked \<and> js_has ?g ''council'') \<or>
      isNoMutationSettlementMetadata (w', True) \<or> bundle_matched (wm_externalEvidence w')"
    if c: "wm_state w' = W_Complete" "\<not> wm_forcedCompletion w'"
  proof -
    obtain q r x where k: "ev_kind ev = Task_Completed q r x" using reaches_complete [OF assms(2) c(1)] by blast
    have g: "?g = gates" "?m = m" by (simp_all add: k event_gates_def)
    note src = completed_from [OF assms(2) k]
    have forced: "\<not> q" "\<not> wm_forcedCompletion w" using c(2) by (simp_all add: src(1))
    have fields: "wm_noMutationSettlement w' = wm_noMutationSettlement w" "wm_generation w' = wm_generation w"
      "wm_externalEvidence w' = wm_externalEvidence w" by (simp_all add: src(1))
    from src(2) forced(1) consider "wm_state w = W_Tests_Run" | "wm_state w = W_Complete"
      | "wm_state w = W_Pre_Check_Passed" "js_has gates ''council''" | "isNoMutationSettlementMetadata (w, a)"
      | "bundle_matched (wm_externalEvidence w)" unfolding g by blast
    then show ?thesis
    proof cases
      case 1
      then show ?thesis using assms(1) unfolding g qa_ok_def by simp
    next
      case 2
      then show ?thesis
        using assms(1) forced(2) settlement_completed [OF _ fields(1,2) c(1), of True] unfolding g fields qa_ok_def by blast
    next
      case 3
      then show ?thesis using assms(1) unfolding g qa_ok_def by (cases m) simp_all
    next
      case 4
      then show ?thesis using settlement_completed [OF 4 fields(1,2) c(1)] by blast
    next
      case 5
      then show ?thesis by (simp add: fields)
    qed
  qed
  show ?thesis unfolding qa_ok_def using pre reviewed complete by blast
qed

definition qa_inv :: "qa_stage \<times> task_evidence option \<Rightarrow> bool" where
  "qa_inv s = (case s of (m, current) \<Rightarrow>
     (case current of None \<Rightarrow> m = Unchecked | Some e \<Rightarrow> (\<exists>w. te_workflow e = Some w \<and> qa_ok m w (te_gates e))))"


lemma monitor_bound: "qa_monitor (ev_kind (bindTrustedNoMutationSettlement wal ev)) m = qa_monitor (ev_kind ev) m"
  by (cases "ev_kind ev") (auto simp: bindTrustedNoMutationSettlement_def split: option.split)

lemma qa_ok_initial: "qa_ok Unchecked (createDefaultWorkflowMetadata t) gates"
  by (simp add: qa_ok_def createDefaultWorkflowMetadata_def)

lemma qa_inv_step: "qa_inv s \<Longrightarrow> qa_inv (monitored_step taskId i s)"
proof -
  assume inv: "qa_inv s"
  obtain m current where s: "s = (m, current)" by (cases s)
  show ?thesis
  proof (cases "apply_input taskId i current")
    case (Inl err)
    then show ?thesis using inv by (simp add: s monitored_step_def)
  next
    case (Inr r)
    obtain e duplicated where r: "r = (e, duplicated)" by (cases r)
    show ?thesis
    proof (cases duplicated)
      case True
      with Inr r have "apply_input taskId i current = Inr (e, True)" by simp
      then obtain old where "current = Some old" "te_workflow e = te_workflow old" "te_gates e = te_gates old"
        by (rule duplicate_step)
      then show ?thesis using inv Inr r True by (simp add: s monitored_step_def qa_inv_def)
    next
      case False
      with Inr r have step: "apply_input taskId i current = Inr (e, False)" by simp
      let ?ev = "bindTrustedNoMutationSettlement (wals_coder (ti_wals i)) (ti_event i)"
      from step obtain w' where red: "reduceTaskWorkflowSnapshot (getTaskWorkflowSnapshot current) ?ev
          (te_requiredGates e) (te_gates e) (ti_now i) = Inr w'" "te_workflow e = Some w'"
        "te_gates e = event_gates (ev_kind ?ev) (ti_now i) (old_gates current)"
        by (rule applied_step)
      obtain w a where snap: "getTaskWorkflowSnapshot current = (w, a)" by (cases "getTaskWorkflowSnapshot current")
      have "qa_ok m w (old_gates current)"
        using inv snap qa_ok_initial
        by (auto simp: s qa_inv_def old_gates_def getTaskWorkflowSnapshot_def split: option.splits)
      from qa_step [OF this red(1) [unfolded snap red(3)]] show ?thesis
        using step by (simp add: s monitored_step_def qa_inv_def red monitor_bound)
    qed
  qed
qed

interpretation qa: invariant_machine "monitored_step taskId" qa_inv for taskId
  by unfold_locales (rule qa_inv_step)

lemma monitored_evidence: "snd (fold (monitored_step taskId) inputs (m, current)) = fold (task_step taskId) inputs current"
proof (induction inputs arbitrary: m current)
  case Nil
  then show ?case by simp
next
  case (Cons i inputs)
  have "snd (monitored_step taskId i (m, current)) = task_step taskId i current"
    by (auto simp: monitored_step_def task_step_def split: sum.split)
  then show ?case using Cons by (metis fold_simps(2) prod.collapse)
qed

text \<open>C2: A task completes only through QA of what was last changed.  Whatever events arrive, in whatever order, with whatever
  logs on disk: if the task is complete and not marked as a forced completion, then since the last accepted mutation,
  rejection or repair a Stage A pass was recorded and after it a Stage B completion (or a council verdict after Stage A),
  with the pre-check gate in the evidence; or the evidence carries the proof of an empty settlement; or all anchors of an
  attested external bundle matched.\<close>

theorem completion_needs_qa:
  assumes "fold (monitored_step taskId) inputs (Unchecked, None) = (stage, Some e)"
    and "te_workflow e = Some w" "wm_state w = W_Complete" "\<not> wm_forcedCompletion w"
  shows "fold (task_step taskId) inputs None = Some e \<and>
    (js_has (te_gates e) ''pre_check'' \<and> (stage = Reviewed \<or> stage = Checked \<and> js_has (te_gates e) ''council'') \<or>
     isNoMutationSettlementMetadata (w, True) \<or> bundle_matched (wm_externalEvidence w))"
proof -
  have "qa_inv (fold (monitored_step taskId) inputs (Unchecked, None))" by (rule qa.inv_run) (simp add: qa_inv_def)
  moreover have "fold (task_step taskId) inputs None = Some e"
    using monitored_evidence [of taskId inputs Unchecked None] assms(1) by simp
  ultimately show ?thesis using assms by (simp add: qa_inv_def qa_ok_def)
qed

section \<open>Generations\<close>

definition generation_at :: "task_evidence option \<Rightarrow> int" where
  "generation_at current = wm_generation (fst (getTaskWorkflowSnapshot current))"

definition rotates :: "event_kind \<Rightarrow> bool" where
  "rotates k = (case k of Accepted_Mutation _ \<Rightarrow> True | Repair_Idle \<Rightarrow> True | _ \<Rightarrow> False)"

lemma reduce_generation:
  "reduceTaskWorkflowSnapshot (w, a) ev req gates now = Inr w' \<Longrightarrow>
     wm_generation w' = wm_generation w + (if rotates (ev_kind ev) then 1 else 0)"
  by (cases "ev_kind ev") (auto simp: reduceTaskWorkflowSnapshot_def Let_def rotates_def split: reduce_splits)

lemma bind_rotates: "rotates (ev_kind (bindTrustedNoMutationSettlement wal ev)) = rotates (ev_kind ev)"
  by (cases "ev_kind ev") (auto simp: bindTrustedNoMutationSettlement_def rotates_def split: option.split)

lemma applied_generation:
  assumes "apply_input taskId i current = Inr (e, False)"
  shows "generation_at (Some e) = generation_at current + (if rotates (ev_kind (ti_event i)) then 1 else 0)"
proof -
  from assms obtain w' where red: "reduceTaskWorkflowSnapshot (getTaskWorkflowSnapshot current)
      (bindTrustedNoMutationSettlement (wals_coder (ti_wals i)) (ti_event i)) (te_requiredGates e) (te_gates e) (ti_now i) = Inr w'"
    "te_workflow e = Some w'" by (rule applied_step)
  obtain w a where snap: "getTaskWorkflowSnapshot current = (w, a)" by (cases "getTaskWorkflowSnapshot current")
  show ?thesis
    using reduce_generation [OF red(1) [unfolded snap]] red(2) snap
    by (simp add: generation_at_def getTaskWorkflowSnapshot_def bind_rotates)
qed

lemma duplicate_generation:
  assumes "apply_input taskId i current = Inr (e, True)"
  shows "generation_at (Some e) = generation_at current"
proof -
  from assms obtain old where "current = Some old" "te_workflow e = te_workflow old" by (rule duplicate_step)
  then show ?thesis by (simp add: generation_at_def getTaskWorkflowSnapshot_def)
qed

lemma step_generation: "generation_at current \<le> generation_at (task_step taskId i current)"
  using applied_generation [of taskId i current] duplicate_generation [of taskId i current]
  by (auto simp: task_step_def split: sum.split prod.split) (metis (full_types) add.right_neutral order_refl zless_add1_eq zle_add1_eq_le)

interpretation task_generations: monotone_machine "task_step taskId" "\<lambda>s t. generation_at s \<le> generation_at t" for taskId
  by unfold_locales (auto intro: step_generation)

text \<open>C19: An event bound to an old generation is dead for good: once an accepted mutation or a repair has been applied, every event
  whose expected generation is the one before, or an earlier one, is refused at any later time, whatever happened in
  between, and so leaves the evidence as it is.\<close>

theorem stale_generation_refused:
  assumes "apply_input taskId i current = Inr (e, False)" "rotates (ev_kind (ti_event i))"
    and "ev_expectedGeneration (ti_event late) = Some g" "g \<le> generation_at current"
  shows "\<exists>err. apply_input taskId late (fold (task_step taskId) inputs (Some e)) = Inl err \<and>
    task_step taskId late (fold (task_step taskId) inputs (Some e)) = fold (task_step taskId) inputs (Some e)"
proof -
  let ?now = "fold (task_step taskId) inputs (Some e)"
  have "generation_at current < generation_at (Some e)" using applied_generation [OF assms(1)] assms(2) by simp
  also have "\<dots> \<le> generation_at ?now" by (rule task_generations.le_run)
  finally have "g < generation_at ?now" using assms(4) by simp
  then have "assertExpectedGeneration (fst (getTaskWorkflowSnapshot ?now)) (ti_event late) \<noteq> None"
    using assms(3) by (simp add: assertExpectedGeneration_def generation_at_def)
  then have "\<exists>err. apply_input taskId late ?now = Inl err"
    by (auto simp: apply_input_def transitionTaskWorkflowEvidence_def updateEvidenceForTransition_def Let_def
        assertExpectedGeneration_def split: option.splits sum.splits)
  then show ?thesis by (auto simp: task_step_def)
qed


section \<open>Replays\<close>

lemma update_applied:
  assumes "updateEvidenceForTransition now existing ev = Inr (e, False)"
  obtains w where "te_workflow e = Some w" "assertExpectedGeneration (fst (getTaskWorkflowSnapshot existing)) ev = None"
    "reduceTaskWorkflowSnapshot (getTaskWorkflowSnapshot existing) ev (te_requiredGates e) (te_gates e) now = Inr w"
  using assms
  by (auto simp: updateEvidenceForTransition_def Let_def split: option.splits sum.splits if_splits)

lemma reduce_last:
  "reduceTaskWorkflowSnapshot (w, a) ev req gates now = Inr w' \<Longrightarrow>
     wm_lastOutcome w' = getEventOutcome (ev_kind ev) \<and>
     wm_lastTransitionId w' = (case ev_transitionId ev of Some t \<Rightarrow> Some t | None \<Rightarrow> wm_lastTransitionId w)"
  by (cases "ev_kind ev") (auto simp: reduceTaskWorkflowSnapshot_def Let_def split: if_splits option.splits bool.splits)

lemma reduce_no_mutation:
  assumes "ev_kind ev = Dispatch_No_Mutation d" "reduceTaskWorkflowSnapshot (w, a) ev req gates now = Inr w'"
  shows "wm_retryCount w' = min (wm_retryCount w + 1) 3" "wm_generation w' = wm_generation w" "wm_state w' = wm_state w"
    "\<not> terminal_state (wm_state w)"
    "wm_noMutationSettlement w' =
       (case ev_transitionId ev of
          None \<Rightarrow> None
        | Some t \<Rightarrow> if wm_generation w = 0 \<and> t \<noteq> [] \<and> no_mutation_proof d (Some t)
                    then Some \<lparr>nm_generation = 0, nm_transitionId = t, nm_declaredFiles = []\<rparr> else None)"
  using assms by (auto simp: reduceTaskWorkflowSnapshot_def Let_def count_retry_def leaves_terminal_def split: if_splits)

text \<open>The settlements the duplicate check lets through again.\<close>

definition reapplied :: "int \<Rightarrow> task_event \<Rightarrow> bool" where
  "reapplied generation ev =
     (case ev_kind ev of Dispatch_No_Mutation d \<Rightarrow> no_mutation_proof d (ev_transitionId ev) \<and> generation \<noteq> 0 | _ \<Rightarrow> False)"

text \<open>What a replay does: an event with a transition id, sent again right after it was applied, is a duplicate that changes
  nothing, with two exceptions.  An accepted mutation or a repair bound to its generation is refused, because the
  generation is compared first; and a trusted settlement without a mutation, at any generation but the first, is applied
  once more and counted once more against the retries.\<close>

theorem replay_of_transition:
  assumes "updateEvidenceForTransition now existing ev = Inr (e, False)" "ev_transitionId ev = Some t" "t \<noteq> []"
  shows "(\<not> rotates (ev_kind ev) \<and> \<not> reapplied (generation_at existing) ev \<longrightarrow>
      updateEvidenceForTransition later (Some e) ev = Inr (e, True)) \<and>
    (rotates (ev_kind ev) \<and> ev_expectedGeneration ev = Some g \<longrightarrow>
      updateEvidenceForTransition later (Some e) ev = Inl (Err_Generation_Mismatch g (g + 1))) \<and>
    (reapplied (generation_at existing) ev \<longrightarrow>
      (\<exists>w e' w'. te_workflow e = Some w \<and> updateEvidenceForTransition later (Some e) ev = Inr (e', False) \<and>
        te_workflow e' = Some w' \<and> wm_retryCount w' = min (wm_retryCount w + 1) 3))"
proof -
  obtain w a where snap: "getTaskWorkflowSnapshot existing = (w, a)" by (cases "getTaskWorkflowSnapshot existing")
  from assms(1) obtain w' where w': "te_workflow e = Some w'"
    "assertExpectedGeneration w ev = None" "reduceTaskWorkflowSnapshot (w, a) ev (te_requiredGates e) (te_gates e) now = Inr w'"
    by (rule update_applied) (simp add: snap)
  note gen = reduce_generation [OF w'(3)] and lst = reduce_last [OF w'(3)]
  have snap': "getTaskWorkflowSnapshot (Some e) = (w', True)" by (simp add: getTaskWorkflowSnapshot_def w'(1))
  have g: "generation_at existing = wm_generation w" by (simp add: generation_at_def snap)
  have rot: "updateEvidenceForTransition later (Some e) ev = Inl (Err_Generation_Mismatch g (g + 1))"
    if "rotates (ev_kind ev)" "ev_expectedGeneration ev = Some g"
    using that w'(2) gen by (auto simp: updateEvidenceForTransition_def snap' assertExpectedGeneration_def Let_def split: if_splits)
  have same: "assertExpectedGeneration w' ev = None" if "\<not> rotates (ev_kind ev)"
    using that w'(2) gen by (auto simp: assertExpectedGeneration_def split: option.splits if_splits)
  have dup: "updateEvidenceForTransition later (Some e) ev = Inr (e, True)"
    if n: "\<not> rotates (ev_kind ev)" "\<not> reapplied (generation_at existing) ev"
  proof -
    have "isDuplicateTransition (w', True) ev"
    proof (cases "\<exists>d. ev_kind ev = Dispatch_No_Mutation d")
      case True
      then obtain d where d: "ev_kind ev = Dispatch_No_Mutation d" by blast
      have "no_mutation_proof d (ev_transitionId ev) \<longrightarrow> wm_noMutationSettlement w' \<noteq> None"
        using n(2) reduce_no_mutation(5) [OF d w'(3)] assms(2,3) by (simp add: reapplied_def d g)
      then show ?thesis using lst assms(2,3) by (simp add: isDuplicateTransition_def d)
    next
      case False
      then show ?thesis using lst assms(2,3) by (cases "ev_kind ev") (simp_all add: isDuplicateTransition_def)
    qed
    then show ?thesis using same [OF n(1)] by (simp add: updateEvidenceForTransition_def snap' Let_def)
  qed
  have again: "\<exists>w e' w'. te_workflow e = Some w \<and> updateEvidenceForTransition later (Some e) ev = Inr (e', False) \<and>
        te_workflow e' = Some w' \<and> wm_retryCount w' = min (wm_retryCount w + 1) 3"
    if r: "reapplied (generation_at existing) ev"
  proof -
    from r obtain d where d: "ev_kind ev = Dispatch_No_Mutation d" "no_mutation_proof d (Some t)" "wm_generation w \<noteq> 0"
      by (auto simp: reapplied_def g assms(2) split: event_kind.splits)
    note red = reduce_no_mutation [OF d(1) w'(3)]
    have none: "wm_noMutationSettlement w' = None" using red(5) d(3) by (simp add: assms(2))
    then have notdup: "\<not> isDuplicateTransition (w', True) ev" using d by (simp add: isDuplicateTransition_def assms(2))
    have "\<not> rotates (ev_kind ev)" by (simp add: d(1) rotates_def)
    note ok = same [OF this]
    obtain w'' where w'': "reduceTaskWorkflowSnapshot (w', True) ev (maybeExpandRequiredGates (Some e) (ev_kind ev))
        (event_gates (ev_kind ev) later (te_gates e)) later = Inr w''"
      using red(3,4) by (simp add: reduceTaskWorkflowSnapshot_def d(1) Let_def)
    then have "\<exists>e'. updateEvidenceForTransition later (Some e) ev = Inr (e', False) \<and> te_workflow e' = Some w''"
      using ok notdup by (simp add: updateEvidenceForTransition_def snap' Let_def)
    then show ?thesis using w'(1) reduce_no_mutation(1) [OF d(1) w''] by blast
  qed
  show ?thesis using rot dup again by blast
qed

section \<open>Where the proof of an empty settlement comes from\<close>

definition proves_settlement :: "string \<Rightarrow> task_input \<Rightarrow> bool" where
  "proves_settlement t i =
     (case wals_coder (ti_wals i) of
        None \<Rightarrow> False
      | Some w \<Rightarrow> (cw_state w = Wal_Prepared \<or> cw_state w = Wal_Committed) \<and> cw_accepted w = Some False \<and>
          cw_transitionId w = t \<and> cw_declaredFiles w = Some [])"

lemma bound_proof:
  assumes "ev_kind (bindTrustedNoMutationSettlement wal ev) = Dispatch_No_Mutation d" "no_mutation_proof d (Some t)"
    "ev_transitionId ev = Some t"
  shows "\<exists>c. trusted_settlement wal t c"
  using assms
  by (auto simp: bindTrustedNoMutationSettlement_def no_mutation_proof_def split: event_kind.splits option.splits if_splits)

lemma reduce_settlement:
  assumes "reduceTaskWorkflowSnapshot (w, a) ev req gates now = Inr w'" "wm_noMutationSettlement w' = Some s"
  shows "wm_noMutationSettlement w = Some s \<or>
    (\<exists>d. ev_kind ev = Dispatch_No_Mutation d \<and> ev_transitionId ev = Some (nm_transitionId s) \<and>
       no_mutation_proof d (Some (nm_transitionId s)))"
proof (cases "ev_kind ev")
  case (Dispatch_No_Mutation d)
  then show ?thesis
    using reduce_no_mutation(5) [OF Dispatch_No_Mutation assms(1)] assms(2) by (auto split: option.splits if_splits)
qed (use assms in \<open>auto simp: reduceTaskWorkflowSnapshot_def Let_def split: if_splits option.splits bool.splits\<close>)

text \<open>A proof of an empty settlement that a step leaves was there before, or the input of the step proves it.\<close>

lemma settlement_step:
  assumes "task_step taskId i current = Some e" "te_workflow e = Some w" "wm_noMutationSettlement w = Some s"
  shows "proves_settlement (nm_transitionId s) i \<or>
    (\<exists>old w0. current = Some old \<and> te_workflow old = Some w0 \<and> wm_noMutationSettlement w0 = Some s)"
proof (cases "apply_input taskId i current")
  case (Inl err)
  then show ?thesis using assms by (simp add: task_step_def)
next
  case (Inr r)
  then obtain duplicated where r: "apply_input taskId i current = Inr (e, duplicated)"
    using assms(1) by (cases r) (simp add: task_step_def)
  show ?thesis
  proof (cases duplicated)
    case True
    with r have "apply_input taskId i current = Inr (e, True)" by simp
    then obtain old where "current = Some old" "te_workflow old = Some w"
      using duplicate_step assms(2) by metis
    then show ?thesis using assms(3) by blast
  next
    case False
    let ?ev = "bindTrustedNoMutationSettlement (wals_coder (ti_wals i)) (ti_event i)"
    from r False have "apply_input taskId i current = Inr (e, False)" by simp
    then obtain w1 where red: "reduceTaskWorkflowSnapshot (getTaskWorkflowSnapshot current) ?ev (te_requiredGates e) (te_gates e) (ti_now i) = Inr w1"
      "te_workflow e = Some w1" by (rule applied_step)
    obtain w0 a where snap: "getTaskWorkflowSnapshot current = (w0, a)" by (cases "getTaskWorkflowSnapshot current")
    have "wm_noMutationSettlement w1 = Some s" using red(2) assms(2,3) by simp
    from reduce_settlement [OF red(1) [unfolded snap] this] show ?thesis
    proof (elim disjE exE conjE)
      assume "wm_noMutationSettlement w0 = Some s"
      then show ?thesis using snap
        by (auto simp: getTaskWorkflowSnapshot_def createDefaultWorkflowMetadata_def split: option.splits)
    next
      fix d
      assume "ev_kind ?ev = Dispatch_No_Mutation d" "ev_transitionId ?ev = Some (nm_transitionId s)"
        "no_mutation_proof d (Some (nm_transitionId s))"
      then obtain c where "trusted_settlement (wals_coder (ti_wals i)) (nm_transitionId s) c" using bound_proof by fastforce
      then show ?thesis by (auto simp: trusted_settlement_def proves_settlement_def split: option.splits)
    qed
  qed
qed

text \<open>C7: The proof of an empty settlement cannot be forged by a caller: if the evidence, after any run, carries the proof of a
  settlement without a mutation, then at one of the transitions of the run the task's settlement log held a prepared or
  committed settlement with exactly that transition id, not accepted, and with an empty declared scope.\<close>

theorem settlement_proof_from_log:
  assumes "fold (task_step taskId) inputs None = Some e" "te_workflow e = Some w" "wm_noMutationSettlement w = Some s"
  shows "\<exists>i \<in> set inputs. proves_settlement (nm_transitionId s) i"
  using assms
proof (induction inputs arbitrary: e w rule: rev_induct)
  case Nil
  then show ?case by simp
next
  case (snoc i inputs)
  from snoc.prems(1) have "task_step taskId i (fold (task_step taskId) inputs None) = Some e" by simp
  from settlement_step [OF this snoc.prems(2,3)] show ?case using snoc.IH by auto
qed


section \<open>The evidence is always readable again\<close>

text \<open>What a transition takes from outside without checking it before the schema does: the transition id, an attested bundle and
  the plan's hash.\<close>

definition well_formed_input :: "task_input \<Rightarrow> bool" where
  "well_formed_input i =
     ((case ev_transitionId (ti_event i) of None \<Rightarrow> True | Some t \<Rightarrow> t \<noteq> [] \<and> length t \<le> 512) \<and>
      (case ev_kind (ti_event i) of External_Attested b \<Rightarrow> ExternalEvidenceBundleSchema b | _ \<Rightarrow> True) \<and>
      (case ti_identity i of None \<Rightarrow> True | Some (_, h) \<Rightarrow> is_sha256 h))"

definition readable :: "task_evidence option \<Rightarrow> bool" where
  "readable current = (case current of None \<Rightarrow> True | Some e \<Rightarrow> TaskEvidenceSchema e)"

lemma last3_length: "length (last3 xs) \<le> 3"
  by (simp add: last3_def)

lemma schema_counted:
  "TaskWorkflowMetadataSchema w \<Longrightarrow> TaskWorkflowMetadataSchema x \<Longrightarrow> TaskWorkflowMetadataSchema (count_retry w outcome x)"
  by (simp add: TaskWorkflowMetadataSchema_def count_retry_def last3_length)

lemma schema_base:
  "TaskWorkflowMetadataSchema w \<Longrightarrow> ev_transitionId ev \<noteq> Some [] \<Longrightarrow> TaskWorkflowMetadataSchema (base_metadata w ev now)"
  by (auto simp: TaskWorkflowMetadataSchema_def split: option.split)

lemma schema_changes:
  assumes "TaskWorkflowMetadataSchema w"
  shows "TaskWorkflowMetadataSchema (without_proofs w)" "TaskWorkflowMetadataSchema (w\<lparr>wm_state := s\<rparr>)"
    "0 \<le> g \<Longrightarrow> TaskWorkflowMetadataSchema (w\<lparr>wm_generation := g\<rparr>)"
    "TaskWorkflowMetadataSchema (w\<lparr>wm_supervisedRecovery := b\<rparr>)" "TaskWorkflowMetadataSchema (w\<lparr>wm_settlementRecovery := b\<rparr>)"
    "TaskWorkflowMetadataSchema (w\<lparr>wm_forcedCompletion := b\<rparr>)" "TaskWorkflowMetadataSchema (w\<lparr>wm_externalEvidence := None\<rparr>)"
    "ExternalEvidenceBundleSchema x \<Longrightarrow> TaskWorkflowMetadataSchema (w\<lparr>wm_externalEvidence := Some x\<rparr>)"
    "TaskWorkflowMetadataSchema (w\<lparr>wm_noMutationSettlement := None\<rparr>)"
    "1 \<le> length t \<Longrightarrow> length t \<le> 512 \<Longrightarrow> TaskWorkflowMetadataSchema
       (w\<lparr>wm_noMutationSettlement := Some \<lparr>nm_generation = 0, nm_transitionId = t, nm_declaredFiles = []\<rparr>\<rparr>)"
    "TaskWorkflowMetadataSchema (w\<lparr>wm_retryCount := 0\<rparr>)" "TaskWorkflowMetadataSchema (w\<lparr>wm_retryHistory := []\<rparr>)"
    "TaskWorkflowMetadataSchema (w\<lparr>wm_retryEpoch := 0\<rparr>)"
  using assms by (simp_all add: TaskWorkflowMetadataSchema_def without_proofs_def)

lemma schema_generation: "TaskWorkflowMetadataSchema w \<Longrightarrow> 0 \<le> wm_generation w + 1"
  by (simp add: TaskWorkflowMetadataSchema_def)

lemma reduce_schema:
  assumes w: "TaskWorkflowMetadataSchema w" and red: "reduceTaskWorkflowSnapshot (w, a) ev req gates now = Inr w'"
    and ev: "ev_transitionId ev \<noteq> Some []" "\<And>t. ev_transitionId ev = Some t \<Longrightarrow> length t \<le> 512"
    "\<And>b. ev_kind ev = External_Attested b \<Longrightarrow> ExternalEvidenceBundleSchema b"
  shows "TaskWorkflowMetadataSchema w'"
proof -
  note base = schema_base [OF w ev(1), of now]
  note rules = base schema_changes schema_counted [OF w] schema_generation [OF w]
  show ?thesis
  proof (cases "ev_kind ev")
    case (Dispatch_No_Mutation d)
    then show ?thesis
      using red ev(2) by (auto simp: reduceTaskWorkflowSnapshot_def Let_def rules Suc_le_eq split: if_splits option.splits)
  next
    case (External_Attested b)
    then show ?thesis using red ev(3) by (auto simp: reduceTaskWorkflowSnapshot_def Let_def rules split: if_splits option.splits)
  qed (use red in \<open>auto simp: reduceTaskWorkflowSnapshot_def Let_def rules split: if_splits option.splits bool.splits\<close>)
qed

lemma schema_default: "TaskWorkflowMetadataSchema (createDefaultWorkflowMetadata t)"
  by (simp add: TaskWorkflowMetadataSchema_def createDefaultWorkflowMetadata_def)

lemma snapshot_schema: "readable current \<Longrightarrow> TaskWorkflowMetadataSchema (fst (getTaskWorkflowSnapshot current))"
  by (auto simp: readable_def getTaskWorkflowSnapshot_def TaskEvidenceSchema_def schema_default split: option.splits)

lemma stamp_schema:
  assumes "TaskEvidenceSchema e" "readable previous" "case identity of None \<Rightarrow> True | Some (_, h) \<Rightarrow> is_sha256 h"
  shows "TaskEvidenceSchema (planStampForPersist e previous identity c)"
  using assms by (auto simp: planStampForPersist_def TaskEvidenceSchema_def readable_def split: option.splits prod.splits)

lemma update_schema:
  assumes "readable current" "updateEvidenceForTransition now current ev = Inr (e, duplicated)"
    and "ev_transitionId ev \<noteq> Some []" "\<And>t. ev_transitionId ev = Some t \<Longrightarrow> length t \<le> 512"
    "\<And>b. ev_kind ev = External_Attested b \<Longrightarrow> ExternalEvidenceBundleSchema b"
  shows "TaskEvidenceSchema e"
proof (cases duplicated)
  case True
  then have "current = Some e" using assms(2)
    by (auto simp: updateEvidenceForTransition_def Let_def split: option.splits if_splits sum.splits)
  then show ?thesis using assms(1) by (simp add: readable_def)
next
  case False
  then have upd: "updateEvidenceForTransition now current ev = Inr (e, False)" using assms(2) by simp
  then obtain w where w: "te_workflow e = Some w"
    "reduceTaskWorkflowSnapshot (getTaskWorkflowSnapshot current) ev (te_requiredGates e) (te_gates e) now = Inr w"
    by (rule update_applied)
  obtain w0 a where snap: "getTaskWorkflowSnapshot current = (w0, a)" by (cases "getTaskWorkflowSnapshot current")
  have "TaskWorkflowMetadataSchema w0" using snapshot_schema [OF assms(1)] by (simp add: snap)
  from reduce_schema [OF this w(2) [unfolded snap] assms(3-5)] have "TaskWorkflowMetadataSchema w" .
  moreover have "te_planIdentityHash e = None"
    "te_requirementsState e = (case current of None \<Rightarrow> None | Some x \<Rightarrow> te_requirementsState x)"
    "te_repairProvenance e = (case current of None \<Rightarrow> None | Some x \<Rightarrow> te_repairProvenance x)"
    using upd by (auto simp: updateEvidenceForTransition_def Let_def split: option.splits if_splits sum.splits)
  ultimately show ?thesis using assms(1) w(1) by (auto simp: TaskEvidenceSchema_def readable_def split: option.splits)
qed

lemma reduce_no_schema_error: "reduceTaskWorkflowSnapshot snapshot ev req gates now = Inl Err_Schema \<Longrightarrow> False"
  by (cases snapshot; cases "ev_kind ev")
    (auto simp: reduceTaskWorkflowSnapshot_def Let_def split: if_splits option.splits bool.splits)

lemma taskId_schema: "TaskEvidenceSchema (e\<lparr>te_taskId := t\<rparr>) = TaskEvidenceSchema e"
  by (simp add: TaskEvidenceSchema_def)

lemma apply_schema:
  assumes "readable current" "well_formed_input i"
  shows "apply_input taskId i current \<noteq> Inl Err_Schema"
    "apply_input taskId i current = Inr (e, duplicated) \<Longrightarrow> TaskEvidenceSchema e"
proof -
  let ?ev = "bindTrustedNoMutationSettlement (wals_coder (ti_wals i)) (ti_event i)"
  have ev: "ev_transitionId ?ev \<noteq> Some []" "\<And>t. ev_transitionId ?ev = Some t \<Longrightarrow> length t \<le> 512"
    "\<And>b. ev_kind ?ev = External_Attested b \<Longrightarrow> ExternalEvidenceBundleSchema b"
    using assms(2)
    by (auto simp: well_formed_input_def bindTrustedNoMutationSettlement_def split: event_kind.splits option.splits)
  have ident: "case ti_identity i of None \<Rightarrow> True | Some (_, h) \<Rightarrow> is_sha256 h" using assms(2) by (simp add: well_formed_input_def)
  have ok: "TaskEvidenceSchema (planStampForPersist (x\<lparr>te_taskId := taskId\<rparr>) current (ti_identity i) c)"
    if "updateEvidenceForTransition (ti_now i) current ?ev = Inr (x, d)" for x d c
  proof -
    have "TaskEvidenceSchema x" by (rule update_schema [OF assms(1) that]) (use ev in auto)
    then show ?thesis by (intro stamp_schema [OF _ assms(1) ident]) (simp add: taskId_schema)
  qed
  have upd: "updateEvidenceForTransition (ti_now i) current ?ev \<noteq> Inl Err_Schema"
    by (auto simp: updateEvidenceForTransition_def Let_def assertExpectedGeneration_def split: option.splits if_splits sum.splits
        dest: reduce_no_schema_error)
  show "apply_input taskId i current \<noteq> Inl Err_Schema"
    using ok upd
    by (auto simp: apply_input_def transitionTaskWorkflowEvidence_def Let_def assertTaskEvidenceWriteAllowed_def
        split: option.splits sum.splits prod.splits if_splits)
  show "TaskEvidenceSchema e" if "apply_input taskId i current = Inr (e, duplicated)"
    using that by (auto simp: apply_input_def transitionTaskWorkflowEvidence_def Let_def split: option.splits sum.splits prod.splits if_splits)
qed

lemma readable_step: "readable current \<Longrightarrow> readable (task_step taskId i current)"
  by (auto simp: task_step_def readable_def apply_input_def transitionTaskWorkflowEvidence_def Let_def
      split: sum.splits option.splits prod.splits if_splits)

interpretation evidence: invariant_machine "task_step taskId" readable for taskId
  by unfold_locales (rule readable_step)

text \<open>C37: The strict schema that guards the evidence file never stops a transition for what earlier transitions stored.  After any
  run from no file, with whatever inputs, what is stored satisfies the schema; and if the next transition fails on the schema then
  its own input is to blame: its transition id is empty or longer than 512 characters, the external bundle it attests
  does not satisfy the bundle's schema, or the plan hash it is stamped with is not a SHA-256.  So what the
  reducer itself computes (retry counters and histories, generations, proofs, the plan stamp) always stays within the bounds the
  schema sets.\<close>

theorem schema_refuses_only_bad_input:
  assumes "current = fold (task_step taskId) inputs None" "apply_input taskId i current = Inl Err_Schema"
  shows "(case current of None \<Rightarrow> True | Some e \<Rightarrow> TaskEvidenceSchema e) \<and>
    ((\<exists>t. ev_transitionId (ti_event i) = Some t \<and> (t = [] \<or> 512 < length t)) \<or>
     (\<exists>bundle. ev_kind (ti_event i) = External_Attested bundle \<and> \<not> ExternalEvidenceBundleSchema bundle) \<or>
     (\<exists>plan h. ti_identity i = Some (plan, h) \<and> \<not> is_sha256 h))"
proof -
  have r: "readable current" unfolding assms(1) by (rule evidence.inv_run) (simp add: readable_def)
  have "\<not> well_formed_input i" using apply_schema [OF r] assms(2) by blast
  then show ?thesis using r by (auto simp: well_formed_input_def readable_def split: option.splits event_kind.splits)
qed


section \<open>Evaluated runs\<close>

definition no_wals :: task_wals where
  "no_wals = \<lparr>wals_coder = None, wals_terminal = None, wals_repair = None\<rparr>"

definition coder_args :: dispatch_args where
  "coder_args = \<lparr>da_agentType = Some ''coder'', da_context = None, da_turbo = None\<rparr>"

definition event_at :: "event_kind \<Rightarrow> int \<Rightarrow> string \<Rightarrow> task_event" where
  "event_at k g t = \<lparr>ev_kind = k, ev_expectedGeneration = Some g, ev_transitionId = Some t\<rparr>"

definition input_of :: "event_kind \<Rightarrow> int \<Rightarrow> string \<Rightarrow> task_input" where
  "input_of k g t = \<lparr>ti_wals = no_wals, ti_identity = None, ti_now = ''now'', ti_event = event_at k g t\<rparr>"

definition full_qa :: "task_input list" where
  "full_qa =
     [input_of (Accepted_Mutation coder_args) 0 ''t1'', input_of (Stage_A_Passed False False) 1 ''t2'',
      input_of (Stage_B_Completed Reviewer_Gate ''s'' None None False) 1 ''t3'',
      input_of (Stage_B_Completed Test_Engineer_Gate ''s'' None None False) 1 ''t4'', input_of (Task_Completed False False False) 1 ''t5'']"

text \<open>Completing one step earlier fails: the second reviewer is missing.\<close>

lemma incomplete_qa:
  "(case apply_input ''1.1'' (input_of (Task_Completed False False False) 1 ''t5'') (fold (task_step ''1.1'') (take 3 full_qa) None) of
      Inl err \<Rightarrow> err = Err_QA_Required W_Reviewer_Run | Inr _ \<Rightarrow> False)"
  by code_simp

theorem completion_needs_qa_witness:
  "\<exists>e stage. fold (monitored_step ''1.1'') full_qa (Unchecked, None) = (stage, Some e) \<and>
     js_has (te_gates e) ''pre_check'' \<and> stage = Reviewed"
proof -
  have run: "(case fold (monitored_step ''1.1'') full_qa (Unchecked, None) of (stage, current) \<Rightarrow>
      stage = Reviewed \<and> (case current of None \<Rightarrow> False | Some e \<Rightarrow>
        (case te_workflow e of None \<Rightarrow> False | Some w \<Rightarrow>
          wm_state w = W_Complete \<and> \<not> wm_forcedCompletion w \<and> \<not> isNoMutationSettlementMetadata (w, True) \<and>
          \<not> bundle_matched (wm_externalEvidence w))))"
    by code_simp
  then obtain e w where e: "fold (monitored_step ''1.1'') full_qa (Unchecked, None) = (Reviewed, Some e)"
    "te_workflow e = Some w" "wm_state w = W_Complete" "\<not> wm_forcedCompletion w"
    "\<not> isNoMutationSettlementMetadata (w, True)" "\<not> bundle_matched (wm_externalEvidence w)"
    by (auto split: prod.splits option.splits simp del: fold_simps)
  from completion_needs_qa [OF e(1-4)] e(1,5,6) show ?thesis by blast
qed

theorem stale_generation_refused_witness:
  "\<exists>e. apply_input ''1.1'' (input_of (Accepted_Mutation coder_args) 0 ''t1'') None = Inr (e, False) \<and>
     task_step ''1.1'' (input_of (Stage_A_Passed False False) 0 ''t0'') (fold (task_step ''1.1'') [] (Some e)) = Some e"
proof -
  let ?i = "input_of (Accepted_Mutation coder_args) 0 ''t1''" and ?late = "input_of (Stage_A_Passed False False) 0 ''t0''"
  have "(case apply_input ''1.1'' ?i None of Inl _ \<Rightarrow> False | Inr (e, duplicated) \<Rightarrow> \<not> duplicated)" by code_simp
  then obtain e where e: "apply_input ''1.1'' ?i None = Inr (e, False)" by (auto split: sum.splits)
  have "rotates (ev_kind (ti_event ?i))" "ev_expectedGeneration (ti_event ?late) = Some 0" "0 \<le> generation_at None" by code_simp+
  from stale_generation_refused [OF e this, of "[]"] e show ?thesis by auto
qed

definition empty_settlement :: task_event where
  "empty_settlement =
     \<lparr>ev_kind = Dispatch_No_Mutation \<lparr>da_agentType = Some ''coder'',
        da_context = Some \<lparr>gc_testEngineerExempt = False, gc_settlementFailed = False, gc_declaredFiles = Some [],
                           gc_settlementTransitionId = Some ''t2''\<rparr>, da_turbo = None\<rparr>,
      ev_expectedGeneration = Some 1, ev_transitionId = Some ''t2''\<rparr>"

theorem replay_of_transition_witness:
  "\<exists>e w e' w'. updateEvidenceForTransition ''now'' (fold (task_step ''1.1'') (take 1 full_qa) None) empty_settlement = Inr (e, False) \<and>
     te_workflow e = Some w \<and> updateEvidenceForTransition ''now'' (Some e) empty_settlement = Inr (e', False) \<and>
     te_workflow e' = Some w' \<and> wm_retryCount w' = min (wm_retryCount w + 1) 3"
proof -
  let ?old = "fold (task_step ''1.1'') (take 1 full_qa) None"
  have "(case updateEvidenceForTransition ''now'' ?old empty_settlement of Inl _ \<Rightarrow> False | Inr (e, duplicated) \<Rightarrow> \<not> duplicated)" by code_simp
  then obtain e where e: "updateEvidenceForTransition ''now'' ?old empty_settlement = Inr (e, False)" by (auto split: sum.splits simp del: fold_simps)
  have t: "ev_transitionId empty_settlement = Some ''t2''" "''t2'' \<noteq> []" by (simp_all add: empty_settlement_def)
  have "reapplied (generation_at ?old) empty_settlement" by code_simp
  with replay_of_transition [OF e t, of "''now''"] e show ?thesis by blast
qed

definition empty_scope_wal :: task_wals where
  "empty_scope_wal =
     \<lparr>wals_coder = Some \<lparr>cw_state = Wal_Prepared, cw_transitionId = ''t2'', cw_accepted = Some False, cw_declaredFiles = Some []\<rparr>,
      wals_terminal = None, wals_repair = None\<rparr>"

theorem settlement_proof_from_log_witness:
  "\<exists>i \<in> set [\<lparr>ti_wals = empty_scope_wal, ti_identity = None, ti_now = ''now'',
      ti_event = empty_settlement\<lparr>ev_expectedGeneration := Some 0\<rparr>\<rparr>]. proves_settlement ''t2'' i"
proof -
  let ?inputs = "[\<lparr>ti_wals = empty_scope_wal, ti_identity = None, ti_now = ''now'',
      ti_event = empty_settlement\<lparr>ev_expectedGeneration := Some 0\<rparr>\<rparr>]"
  have "(case fold (task_step ''1.1'') ?inputs None of None \<Rightarrow> False | Some e \<Rightarrow>
      (case te_workflow e of None \<Rightarrow> False | Some w \<Rightarrow> wm_noMutationSettlement w =
         Some \<lparr>nm_generation = 0, nm_transitionId = ''t2'', nm_declaredFiles = []\<rparr>))" by code_simp
  then obtain e w where "fold (task_step ''1.1'') ?inputs None = Some e" "te_workflow e = Some w"
    "wm_noMutationSettlement w = Some \<lparr>nm_generation = 0, nm_transitionId = ''t2'', nm_declaredFiles = []\<rparr>"
    by (auto split: option.splits simp del: fold_simps)
  from settlement_proof_from_log [OF this] show ?thesis by simp
qed

theorem schema_refuses_only_bad_input_witness:
  "(case fold (task_step ''1.1'') (take 1 full_qa) None of None \<Rightarrow> True | Some e \<Rightarrow> TaskEvidenceSchema e) \<and> \<not> is_sha256 ''not a hash''"
proof -
  let ?i = "(input_of Task_Blocked 1 ''t6'')\<lparr>ti_identity := Some (''p'', ''not a hash'')\<rparr>"
  have "(case apply_input ''1.1'' ?i (fold (task_step ''1.1'') (take 1 full_qa) None) of Inl Err_Schema \<Rightarrow> True | _ \<Rightarrow> False)"
    by code_simp
  then have "apply_input ''1.1'' ?i (fold (task_step ''1.1'') (take 1 full_qa) None) = Inl Err_Schema"
    by (simp del: fold_simps split: sum.splits workflow_error.splits)
  from schema_refuses_only_bad_input [OF refl this] show ?thesis by (simp add: input_of_def event_at_def del: fold_simps)
qed

end
