(* ===== verification/Session_Workflow.thy ===== *)
theory Session_Workflow
  imports Task_Workflow Wave_Close
begin

text \<open>
  \<^verbatim>\<open>src/state.ts\<close>: what a session keeps of its tasks in memory: their workflow states, the files attributed to each, the
  Stage B completions with their route evidence, the council approvals; and how it is merged with the durable evidence
  after a restart.  The snapshot is in \<^verbatim>\<open>src/session/snapshot-writer.ts\<close> and \<^verbatim>\<open>src/session/snapshot-reader.ts\<close>, whose
  loader drops the workflow states again.  The writers of other modules that set a task's state directly
  (\<^verbatim>\<open>src/hooks/delegation-gate.ts\<close>, \<^verbatim>\<open>src/hooks/guardrails/index.ts\<close>, \<^verbatim>\<open>src/background/stage-b-gates.ts\<close>,
  \<^verbatim>\<open>src/tools/update-task-status.ts\<close>, \<^verbatim>\<open>src/workflow/session-view.ts\<close>, \<^verbatim>\<open>src/evidence/task-gate-repair.ts\<close>) are
  operations of a run: each copies a durable workflow, writes one of three constants, or forgets the task.

  A map the code creates when it is missing is empty here.  The clock, whether an epic is open for a project, the
  canonical form of a path,
  the rehydration cache and the identity digest of a council review are arguments; telemetry is not modelled.
\<close>

section \<open>Data\<close>

definition MAX_TRACKED_TASK_FILE_ATTRIBUTIONS :: nat where "MAX_TRACKED_TASK_FILE_ATTRIBUTIONS = 128"

definition LINEAR_STATE_ORDER :: "workflow_state list" where
  "LINEAR_STATE_ORDER = [W_Idle, W_Coder_Delegated, W_Pre_Check_Passed, W_Reviewer_Run, W_Tests_Run, W_Complete]"

text \<open>\<open>indexOf\<close>: \<open>-1\<close> for a state that is not in the order.\<close>

definition state_index :: "workflow_state \<Rightarrow> int" where
  "state_index s = (case find_index (\<lambda>x. x = s) LINEAR_STATE_ORDER of None \<Rightarrow> -1 | Some i \<Rightarrow> int i)"

fun WORKFLOW_STATE_RANK :: "workflow_state \<Rightarrow> int" where
  "WORKFLOW_STATE_RANK W_Idle = 0"
| "WORKFLOW_STATE_RANK W_Coder_Delegated = 1"
| "WORKFLOW_STATE_RANK W_Pre_Check_Passed = 2"
| "WORKFLOW_STATE_RANK W_Reviewer_Run = 3"
| "WORKFLOW_STATE_RANK W_Tests_Run = 4"
| "WORKFLOW_STATE_RANK W_Rework_Required = 5"
| "WORKFLOW_STATE_RANK W_Blocked = 6"
| "WORKFLOW_STATE_RANK W_Closed = 7"
| "WORKFLOW_STATE_RANK W_Complete = 8"

definition compareTaskWorkflowStateRank :: "workflow_state \<Rightarrow> workflow_state \<Rightarrow> int" where
  "compareTaskWorkflowStateRank l r = WORKFLOW_STATE_RANK l - WORKFLOW_STATE_RANK r"

record cache_entry =
  ce_generation :: int
  ce_retryCount :: int
  ce_lastOutcome :: workflow_outcome
  ce_lastTransitionId :: "string option"
  ce_updatedAt :: string

record cache_overrides =
  co_generation :: "int option"
  co_retryCount :: "int option"
  co_lastOutcome :: "workflow_outcome option"
  co_lastTransitionId :: "string option"
  co_updatedAt :: "string option"

datatype council_verdict = Verdict_Approve | Verdict_Reject | Verdict_Concerns

record council_approval =
  ca_verdict :: council_verdict
  ca_roundNumber :: int
  ca_quorumSize :: "int option"

record council_config =
  cc_minimumMembers :: "int option"
  cc_requireAllMembers :: bool

record route_evidence =
  rv_role :: stage_b_gate
  rv_identity :: string
  rv_sessionId :: "string option"
  rv_taskId :: "string option"
  rv_slotId :: "string option"
  rv_callId :: "string option"
  rv_childSessionId :: "string option"
  rv_generation :: "int option"

text \<open>The array of a task's route evidence.  A rollback compares arrays and entries by reference, so an array and each entry
  put into it carry their identity, a number taken from a counter of the session.\<close>

record route_slots =
  rs_array :: nat
  rs_entries :: "(nat \<times> route_evidence) list"

record agent_session =
  ss_currentTaskId :: "string option"
  ss_owningProjectKey :: "string option"
  ss_taskWorkflowStates :: "(string, workflow_state) js_map"
  ss_taskWorkflowCache :: "(string, cache_entry) js_map"
  ss_modifiedFilesByTask :: "(string, string list) js_map"
  ss_modifiedFilesThisCoderTask :: "string list"
  ss_taskCouncilApproved :: "(string, council_approval) js_map"
  ss_stageBCompletion :: "(string, stage_b_gate list) js_map"
  ss_stageBRouteEvidence :: "(string, route_slots) js_map"
  ss_stageBRouteRequiredTasks :: "string list"
  ss_identities :: nat

definition isValidTaskId :: "string \<Rightarrow> bool" where
  "isValidTaskId taskId = (js_trim taskId \<noteq> [])"

section \<open>Files attributed to tasks\<close>

definition getModifiedFilesForTask :: "agent_session \<Rightarrow> string \<Rightarrow> string list" where
  "getModifiedFilesForTask s taskId = (if \<not> isValidTaskId taskId then [] else js_get_or (ss_modifiedFilesByTask s) taskId [])"

definition hasModifiedFilesForTask :: "agent_session option \<Rightarrow> string \<Rightarrow> bool" where
  "hasModifiedFilesForTask session taskId =
     (case session of None \<Rightarrow> False | Some s \<Rightarrow> isValidTaskId taskId \<and> js_has (ss_modifiedFilesByTask s) taskId)"

definition projectModifiedFilesForActiveTask :: "agent_session \<Rightarrow> agent_session" where
  "projectModifiedFilesForActiveTask s =
     s\<lparr>ss_modifiedFilesThisCoderTask :=
        (case ss_currentTaskId s of
           None \<Rightarrow> []
         | Some taskId \<Rightarrow> if isValidTaskId taskId then js_get_or (ss_modifiedFilesByTask s) taskId [] else [])\<rparr>"

definition project_if_active :: "string \<Rightarrow> agent_session \<Rightarrow> agent_session" where
  "project_if_active taskId s = (if ss_currentTaskId s = Some taskId then projectModifiedFilesForActiveTask s else s)"

text \<open>Room for one more slot: complete tasks are reclaimed, in the order of the map, while the map is full.\<close>

definition reclaimable :: "(string, workflow_state) js_map \<Rightarrow> string \<Rightarrow> string \<Rightarrow> bool" where
  "reclaimable states taskId candidate = (candidate \<noteq> taskId \<and> js_get states candidate = Some W_Complete)"

lemma length_js_delete_key: "k \<in> set (js_keys m) \<Longrightarrow> length (js_delete k m) < length m"
  by (induction m) (auto simp: AList.delete_eq intro: le_imp_less_Suc length_filter_le)

function reclaim_slots ::
  "(string, workflow_state) js_map \<Rightarrow> string \<Rightarrow> (string, string list) js_map \<Rightarrow> bool \<times> (string, string list) js_map" where
  "reclaim_slots states taskId entries =
     (if length entries < MAX_TRACKED_TASK_FILE_ATTRIBUTIONS then (True, entries)
      else case List.find (reclaimable states taskId) (js_keys entries) of
             None \<Rightarrow> (False, entries)
           | Some k \<Rightarrow> reclaim_slots states taskId (js_delete k entries))"
  by pat_completeness auto

termination
  by (relation "measure (\<lambda>(_, _, m). length m)") (auto dest: find_SomeD intro!: length_js_delete_key)

declare reclaim_slots.simps [simp del]

definition ensureModifiedFileTaskSlot :: "string \<Rightarrow> agent_session \<Rightarrow> bool \<times> agent_session" where
  "ensureModifiedFileTaskSlot taskId s =
     (if \<not> isValidTaskId taskId then (False, s)
      else if js_has (ss_modifiedFilesByTask s) taskId then (True, s)
      else let (free, entries) = reclaim_slots (ss_taskWorkflowStates s) taskId (ss_modifiedFilesByTask s)
           in (free, s\<lparr>ss_modifiedFilesByTask := (if free then js_set taskId [] entries else entries)\<rparr>))"

definition set_files :: "string \<Rightarrow> string list \<Rightarrow> agent_session \<Rightarrow> agent_session" where
  "set_files taskId files s = s\<lparr>ss_modifiedFilesByTask := js_set taskId files (ss_modifiedFilesByTask s)\<rparr>"

definition recordModifiedFilesForTask ::
  "(string \<Rightarrow> string option \<Rightarrow> string option) \<Rightarrow> string \<Rightarrow> string list \<Rightarrow> string option \<Rightarrow> agent_session \<Rightarrow> bool \<times> agent_session" where
  "recordModifiedFilesForTask canonical taskId files workspace s =
     (let (free, s1) = ensureModifiedFileTaskSlot taskId s
      in if \<not> free then (False, s1)
         else (True, project_if_active taskId (set_files taskId (js_uniq (List.map_filter (\<lambda>file. canonical file workspace) files)) s1)))"

definition recordModifiedFileForTask ::
  "(string \<Rightarrow> string option \<Rightarrow> string option) \<Rightarrow> string \<Rightarrow> string \<Rightarrow> string option \<Rightarrow> agent_session \<Rightarrow> bool \<times> agent_session" where
  "recordModifiedFileForTask canonical taskId file workspace s =
     (if js_trim file = [] then (False, s)
      else
        let (free, s1) = ensureModifiedFileTaskSlot taskId s
        in if \<not> free then (False, s1)
           else case canonical file workspace of
                  None \<Rightarrow> (True, s1)
                | Some path \<Rightarrow>
                    let current = js_get_or (ss_modifiedFilesByTask s1) taskId []
                    in if path \<in> set current then (True, s1)
                       else (True, project_if_active taskId (set_files taskId (current @ [path]) s1)))"

definition resetModifiedFilesForTask :: "string \<Rightarrow> bool \<Rightarrow> agent_session \<Rightarrow> bool \<times> agent_session" where
  "resetModifiedFilesForTask taskId remove s =
     (if \<not> isValidTaskId taskId then (False, s)
      else if remove then
        (True, project_if_active taskId (s\<lparr>ss_modifiedFilesByTask := js_delete taskId (ss_modifiedFilesByTask s)\<rparr>))
      else
        let (free, s1) = ensureModifiedFileTaskSlot taskId s
        in if \<not> free then (False, s1) else (True, project_if_active taskId (set_files taskId [] s1)))"

definition completeModifiedFilesForTask :: "(string \<Rightarrow> bool) \<Rightarrow> string \<Rightarrow> agent_session \<Rightarrow> agent_session" where
  "completeModifiedFilesForTask epicOpen taskId s =
     (case ss_owningProjectKey s of
        None \<Rightarrow> snd (resetModifiedFilesForTask taskId True s)
      | Some projectRoot \<Rightarrow> if \<not> epicOpen projectRoot then snd (resetModifiedFilesForTask taskId True s) else s)"

section \<open>Workflow states\<close>

definition no_overrides :: cache_overrides where
  "no_overrides = \<lparr>co_generation = None, co_retryCount = None, co_lastOutcome = None, co_lastTransitionId = None, co_updatedAt = None\<rparr>"

definition updateTaskWorkflowCache :: "string \<Rightarrow> cache_overrides \<Rightarrow> agent_session \<Rightarrow> agent_session" where
  "updateTaskWorkflowCache taskId overrides s =
     (let existing = js_get (ss_taskWorkflowCache s) taskId
      in s\<lparr>ss_taskWorkflowCache := js_set taskId
          \<lparr>ce_generation = option_or (co_generation overrides) (case existing of None \<Rightarrow> 0 | Some e \<Rightarrow> ce_generation e),
           ce_retryCount = option_or (co_retryCount overrides) (case existing of None \<Rightarrow> 0 | Some e \<Rightarrow> ce_retryCount e),
           ce_lastOutcome = option_or (co_lastOutcome overrides) (case existing of None \<Rightarrow> Out_None | Some e \<Rightarrow> ce_lastOutcome e),
           ce_lastTransitionId = (case co_lastTransitionId overrides of Some t \<Rightarrow> Some t
                                  | None \<Rightarrow> (case existing of None \<Rightarrow> None | Some e \<Rightarrow> ce_lastTransitionId e)),
           ce_updatedAt = option_or (co_updatedAt overrides) (case existing of None \<Rightarrow> [] | Some e \<Rightarrow> ce_updatedAt e)\<rparr>
          (ss_taskWorkflowCache s)\<rparr>)"

definition getTaskState :: "agent_session \<Rightarrow> string \<Rightarrow> workflow_state" where
  "getTaskState s taskId = (if \<not> isValidTaskId taskId then W_Idle else js_get_or (ss_taskWorkflowStates s) taskId W_Idle)"

definition council_minimum :: "council_config option \<Rightarrow> int" where
  "council_minimum config =
     (case config of
        None \<Rightarrow> 3
      | Some c \<Rightarrow> if cc_requireAllMembers c then 5 else option_or (cc_minimumMembers c) 3)"

definition council_approved :: "agent_session \<Rightarrow> string \<Rightarrow> council_config option \<Rightarrow> bool" where
  "council_approved s taskId config =
     (case js_get (ss_taskCouncilApproved s) taskId of
        None \<Rightarrow> False
      | Some e \<Rightarrow> ca_verdict e = Verdict_Approve \<and> option_or (ca_quorumSize e) 0 \<ge> council_minimum config)"

datatype advance_error =
    Err_Invalid_Transition workflow_state workflow_state
  | Err_Cannot_Complete workflow_state
  | Err_Central_Transaction workflow_state

definition clearStageBRouteEvidence :: "string \<Rightarrow> agent_session \<Rightarrow> agent_session" where
  "clearStageBRouteEvidence taskId s = s\<lparr>ss_stageBRouteEvidence := js_delete taskId (ss_stageBRouteEvidence s)\<rparr>"

definition markStageBRouteRequired :: "string \<Rightarrow> agent_session \<Rightarrow> agent_session" where
  "markStageBRouteRequired taskId s = s\<lparr>ss_stageBRouteRequiredTasks := set_add taskId (ss_stageBRouteRequiredTasks s)\<rparr>"

definition isStageBRouteRequired :: "agent_session \<Rightarrow> string \<Rightarrow> bool" where
  "isStageBRouteRequired s taskId = (taskId \<in> set (ss_stageBRouteRequiredTasks s))"

definition clearStageBRouteRequired :: "string \<Rightarrow> agent_session \<Rightarrow> agent_session" where
  "clearStageBRouteRequired taskId s = s\<lparr>ss_stageBRouteRequiredTasks := filter (\<lambda>t. t \<noteq> taskId) (ss_stageBRouteRequiredTasks s)\<rparr>"

definition release_completed :: "(string \<Rightarrow> bool) \<Rightarrow> string \<Rightarrow> agent_session \<Rightarrow> agent_session" where
  "release_completed epicOpen taskId s =
     completeModifiedFilesForTask epicOpen taskId (clearStageBRouteRequired taskId (clearStageBRouteEvidence taskId
       (s\<lparr>ss_stageBCompletion := js_delete taskId (ss_stageBCompletion s)\<rparr>)))"

definition advanceTaskState ::
  "(string \<Rightarrow> bool) \<Rightarrow> string \<Rightarrow> council_config option \<Rightarrow> string \<Rightarrow> workflow_state \<Rightarrow> agent_session \<Rightarrow> advance_error + agent_session" where
  "advanceTaskState epicOpen nowIso config taskId newState s =
     (if \<not> isValidTaskId taskId then Inr s
      else
        let current = js_get_or (ss_taskWorkflowStates s) taskId W_Idle;
            currentIndex = state_index current; newIndex = state_index newState
        in if currentIndex = -1 \<or> newIndex = -1 \<or> newIndex \<le> currentIndex then Inl (Err_Invalid_Transition current newState)
           else if newState = W_Complete \<and> current \<noteq> W_Tests_Run \<and>
                   (\<not> council_approved s taskId config \<or> \<not> currentIndex \<ge> state_index W_Pre_Check_Passed)
           then Inl (Err_Cannot_Complete current)
           else
             let s1 = updateTaskWorkflowCache taskId (no_overrides\<lparr>co_updatedAt := Some nowIso\<rparr>)
                        (s\<lparr>ss_taskWorkflowStates := js_set taskId newState (ss_taskWorkflowStates s)\<rparr>)
             in Inr (if newState = W_Complete then release_completed epicOpen taskId s1 else s1))"

definition canAdvanceTaskState :: "council_config option \<Rightarrow> string \<Rightarrow> workflow_state \<Rightarrow> agent_session \<Rightarrow> bool" where
  "canAdvanceTaskState config taskId newState s =
     (if \<not> isValidTaskId taskId then False
      else
        let current = js_get_or (ss_taskWorkflowStates s) taskId W_Idle;
            currentIndex = state_index current; newIndex = state_index newState
        in if currentIndex = -1 \<or> newIndex = -1 \<or> newIndex \<le> currentIndex then False
           else if newState = W_Complete \<and> current \<noteq> W_Tests_Run \<and>
                   (\<not> council_approved s taskId config \<or> \<not> currentIndex \<ge> state_index W_Pre_Check_Passed) then False
           else True)"

definition advanceTaskStateAndPersist ::
  "(string \<Rightarrow> bool) \<Rightarrow> string \<Rightarrow> council_config option \<Rightarrow> string \<Rightarrow> workflow_state \<Rightarrow> agent_session \<Rightarrow> advance_error + agent_session" where
  "advanceTaskStateAndPersist epicOpen nowIso config taskId newState s =
     (if newState = W_Coder_Delegated \<or> newState = W_Complete then Inl (Err_Central_Transaction newState)
      else advanceTaskState epicOpen nowIso config taskId newState s)"

section \<open>Stage B\<close>

definition recordStageBCompletion :: "string \<Rightarrow> stage_b_gate \<Rightarrow> agent_session \<Rightarrow> agent_session" where
  "recordStageBCompletion taskId agent s =
     (if \<not> isValidTaskId taskId then s
      else s\<lparr>ss_stageBCompletion := js_set taskId (set_add agent (js_get_or (ss_stageBCompletion s) taskId [])) (ss_stageBCompletion s)\<rparr>)"

definition hasBothStageBCompletions :: "agent_session \<Rightarrow> string \<Rightarrow> bool" where
  "hasBothStageBCompletions s taskId =
     (isValidTaskId taskId \<and>
      (case js_get (ss_stageBCompletion s) taskId of
         None \<Rightarrow> False
       | Some completions \<Rightarrow> Reviewer_Gate \<in> set completions \<and> Test_Engineer_Gate \<in> set completions))"

definition MAX_ROUTE_EVIDENCE :: nat where "MAX_ROUTE_EVIDENCE = 32"

text \<open>The parts of the identity, joined by a NUL.\<close>

definition dispatchIdentity :: "route_evidence \<Rightarrow> string option" where
  "dispatchIdentity e =
     (case (rv_callId e, rv_childSessionId e, rv_generation e) of
        (Some callId, Some child, Some generation) \<Rightarrow>
          if callId = [] \<or> child = [] then None
          else Some (concat (map (\<lambda>part. part @ [CHR 0x00])
                 [gate_name (rv_role e), option_or (rv_sessionId e) [], option_or (rv_taskId e) [], callId, child]) @ show_int generation)
      | _ \<Rightarrow> None)"

definition same_slot :: "route_evidence \<Rightarrow> route_evidence \<Rightarrow> bool" where
  "same_slot evidence entry =
     (rv_role entry = rv_role evidence \<and>
      (dispatchIdentity evidence \<noteq> None \<and> dispatchIdentity entry = dispatchIdentity evidence \<or>
       dispatchIdentity evidence = None \<and> dispatchIdentity entry = None \<and> rv_identity entry = rv_identity evidence))"

text \<open>What the rollback function of a reservation holds on to.\<close>

datatype route_reservation =
    Replaced_Slot string nat nat "nat \<times> route_evidence"    \<comment> \<open>task, array, reserved entry, previous entry\<close>
  | Appended_Slot string nat nat                         \<comment> \<open>task, array, reserved entry\<close>

definition route_slots_of :: "agent_session \<Rightarrow> string \<Rightarrow> route_slots" where
  "route_slots_of s taskId =
     (case js_get (ss_stageBRouteEvidence s) taskId of
        Some slots \<Rightarrow> slots | None \<Rightarrow> \<lparr>rs_array = ss_identities s, rs_entries = []\<rparr>)"

definition set_slots :: "string \<Rightarrow> route_slots \<Rightarrow> agent_session \<Rightarrow> agent_session" where
  "set_slots taskId slots s = s\<lparr>ss_stageBRouteEvidence := js_set taskId slots (ss_stageBRouteEvidence s)\<rparr>"

definition reserveStageBRouteEvidence ::
  "string \<Rightarrow> route_evidence \<Rightarrow> agent_session \<Rightarrow> route_reservation option \<times> agent_session" where
  "reserveStageBRouteEvidence taskId evidence s =
     (if \<not> isValidTaskId taskId then (None, s)
      else
        let slots = route_slots_of s taskId; entries = rs_entries slots;
            token = Suc (ss_identities s); s1 = s\<lparr>ss_identities := Suc (Suc (ss_identities s))\<rparr>
        in case find_index (\<lambda>(_, entry). same_slot evidence entry) entries of
             Some i \<Rightarrow>
               (Some (Replaced_Slot taskId (rs_array slots) token (entries ! i)),
                set_slots taskId (slots\<lparr>rs_entries := entries[i := (token, evidence)]\<rparr>) s1)
           | None \<Rightarrow>
               if length entries \<ge> MAX_ROUTE_EVIDENCE then (None, s1)
               else (Some (Appended_Slot taskId (rs_array slots) token),
                     set_slots taskId (slots\<lparr>rs_entries := entries @ [(token, evidence)]\<rparr>) s1))"

definition rollback_reservation :: "route_reservation \<Rightarrow> agent_session \<Rightarrow> agent_session" where
  "rollback_reservation reservation s =
     (case reservation of
        Replaced_Slot taskId array token previous \<Rightarrow>
          (case js_get (ss_stageBRouteEvidence s) taskId of
             None \<Rightarrow> s
           | Some slots \<Rightarrow>
               if rs_array slots \<noteq> array then s
               else case find_index (\<lambda>(t, _). t = token) (rs_entries slots) of
                      None \<Rightarrow> s
                    | Some i \<Rightarrow> set_slots taskId (slots\<lparr>rs_entries := (rs_entries slots)[i := previous]\<rparr>) s)
      | Appended_Slot taskId array token \<Rightarrow>
          (case js_get (ss_stageBRouteEvidence s) taskId of
             None \<Rightarrow> s
           | Some slots \<Rightarrow>
               if rs_array slots \<noteq> array then s
               else case find_index (\<lambda>(t, _). t = token) (rs_entries slots) of
                      None \<Rightarrow> s
                    | Some i \<Rightarrow>
                        let entries = take i (rs_entries slots) @ drop (Suc i) (rs_entries slots);
                            s1 = set_slots taskId (slots\<lparr>rs_entries := entries\<rparr>) s
                        in if entries = [] then clearStageBRouteEvidence taskId s1 else s1))"

definition recordStageBRouteEvidence :: "string \<Rightarrow> route_evidence \<Rightarrow> agent_session \<Rightarrow> bool \<times> agent_session" where
  "recordStageBRouteEvidence taskId evidence s =
     (let (reservation, s1) = reserveStageBRouteEvidence taskId evidence s in (reservation \<noteq> None, s1))"

definition getStageBRouteEvidence :: "agent_session \<Rightarrow> string \<Rightarrow> route_evidence list" where
  "getStageBRouteEvidence s taskId =
     (case js_get (ss_stageBRouteEvidence s) taskId of None \<Rightarrow> [] | Some slots \<Rightarrow> map snd (rs_entries slots))"

section \<open>Rehydration\<close>

definition planStatusToWorkflowState :: "task_status \<Rightarrow> workflow_state" where
  "planStatusToWorkflowState status =
     (case status of
        In_Progress \<Rightarrow> W_Idle | Completed \<Rightarrow> W_Complete | Blocked \<Rightarrow> W_Blocked | Closed \<Rightarrow> W_Closed | Pending \<Rightarrow> W_Idle)"

text \<open>The fields of the council gate of an evidence: \<open>None\<close> where the value has another type (or is not a finite number).\<close>

record council_gate =
  cg_verdict :: "string option"
  cg_roundNumber :: "int option"
  cg_quorumSize :: "int option"
  cg_workflowGeneration :: "int option"
  cg_identity_digest :: "string option"

text \<open>\<open>rh_council\<close> is the council gate of each evidence, \<open>rh_identity\<close> the digest of the current review identity of a task.\<close>

record rehydration_cache =
  rh_planTaskStates :: "(string, workflow_state) js_map"
  rh_evidenceMap :: "(string, task_evidence \<times> council_gate option) js_map"
  rh_identity :: "string \<Rightarrow> string"

definition plan_task_states :: "(string \<times> task_status) list \<Rightarrow> (string, workflow_state) js_map" where
  "plan_task_states tasks = fold (\<lambda>(taskId, status). js_set taskId (planStatusToWorkflowState status)) tasks []"

definition apply_evidence :: "string \<Rightarrow> workflow_metadata \<Rightarrow> agent_session \<Rightarrow> agent_session" where
  "apply_evidence taskId w s =
     updateTaskWorkflowCache taskId
       \<lparr>co_generation = Some (wm_generation w), co_retryCount = Some (wm_retryCount w), co_lastOutcome = Some (wm_lastOutcome w),
        co_lastTransitionId = wm_lastTransitionId w, co_updatedAt = Some (wm_updatedAt w)\<rparr>
       (s\<lparr>ss_taskWorkflowStates := js_set taskId (wm_state w) (ss_taskWorkflowStates s)\<rparr>)"

definition apply_plan_state :: "string \<Rightarrow> workflow_state \<Rightarrow> agent_session \<Rightarrow> agent_session" where
  "apply_plan_state taskId planState s =
     (if (case js_get (ss_taskWorkflowCache s) taskId of None \<Rightarrow> 0 | Some c \<Rightarrow> ce_generation c) > 0 then s
      else if (case js_get (ss_taskWorkflowStates s) taskId of
                 None \<Rightarrow> True | Some existing \<Rightarrow> compareTaskWorkflowStateRank planState existing > 0)
      then s\<lparr>ss_taskWorkflowStates := js_set taskId planState (ss_taskWorkflowStates s)\<rparr>
      else s)"

definition apply_task :: "rehydration_cache \<Rightarrow> string \<times> workflow_state \<Rightarrow> agent_session \<Rightarrow> agent_session" where
  "apply_task cache = (\<lambda>(taskId, planState) s.
     case js_get (rh_evidenceMap cache) taskId of
       Some (evidence, _) \<Rightarrow>
         let (w, authoritative) = getTaskWorkflowSnapshot (Some evidence)
         in if authoritative then apply_evidence taskId w s else apply_plan_state taskId planState s
     | None \<Rightarrow> apply_plan_state taskId planState s)"

definition parse_verdict :: "string option \<Rightarrow> council_verdict option" where
  "parse_verdict raw =
     (if raw = Some ''APPROVE'' then Some Verdict_Approve
      else if raw = Some ''REJECT'' then Some Verdict_Reject
      else if raw = Some ''CONCERNS'' then Some Verdict_Concerns else None)"

text \<open>A council gate counts when it was given under the current review identity, for the current generation, with the task after
  its pre-check.\<close>

definition council_current :: "rehydration_cache \<Rightarrow> string \<Rightarrow> task_evidence \<Rightarrow> council_gate option \<Rightarrow> bool" where
  "council_current cache taskId evidence council =
     (case council of
        None \<Rightarrow> False
      | Some c \<Rightarrow>
          (case cg_identity_digest c of None \<Rightarrow> False | Some digest \<Rightarrow> is_sha256 digest \<and> digest = rh_identity cache taskId) \<and>
          (let (w, authoritative) = getTaskWorkflowSnapshot (Some evidence)
           in authoritative \<and> cg_workflowGeneration c = Some (wm_generation w) \<and> wm_state w = W_Pre_Check_Passed))"

definition apply_council ::
  "rehydration_cache \<Rightarrow> string \<times> (task_evidence \<times> council_gate option) \<Rightarrow> agent_session \<Rightarrow> agent_session" where
  "apply_council cache = (\<lambda>(taskId, evidence, council) s.
     if \<not> council_current cache taskId evidence council then
       s\<lparr>ss_taskCouncilApproved := js_delete taskId (ss_taskCouncilApproved s)\<rparr>
     else case parse_verdict (cg_verdict (the council)) of
            None \<Rightarrow> s
          | Some verdict \<Rightarrow>
              s\<lparr>ss_taskCouncilApproved := js_set taskId
                 \<lparr>ca_verdict = verdict, ca_roundNumber = option_or (cg_roundNumber (the council)) 1,
                  ca_quorumSize = Some (case cg_quorumSize (the council) of None \<Rightarrow> 1 | Some n \<Rightarrow> if n \<ge> 1 then n else 1)\<rparr>
                 (ss_taskCouncilApproved s)\<rparr>)"

definition applyRehydrationCache ::
  "(string \<Rightarrow> rehydration_cache option) \<Rightarrow> string option \<Rightarrow> agent_session \<Rightarrow> agent_session" where
  "applyRehydrationCache cacheOf projectKey s =
     (case (case projectKey of Some k \<Rightarrow> Some k | None \<Rightarrow> ss_owningProjectKey s) of
        None \<Rightarrow> s
      | Some key \<Rightarrow>
          if key = [] then s
          else case cacheOf key of
                 None \<Rightarrow> s
               | Some cache \<Rightarrow> fold (apply_council cache) (rh_evidenceMap cache) (fold (apply_task cache) (rh_planTaskStates cache) s))"

section \<open>The snapshot\<close>

text \<open>\<open>Object.entries\<close> lists the keys that are array indices first, by value, and the others in the order they were written.\<close>

definition digit :: "char \<Rightarrow> bool" where
  "digit c = (48 \<le> (of_char c :: nat) \<and> (of_char c :: nat) \<le> 57)"

definition digits_value :: "string \<Rightarrow> nat" where
  "digits_value s = fold (\<lambda>c n. 10 * n + (of_char c - 48)) s 0"

definition is_array_index :: "string \<Rightarrow> bool" where
  "is_array_index s = (s \<noteq> [] \<and> list_all digit s \<and> (hd s = CHR ''0'' \<longrightarrow> length s = 1) \<and> digits_value s < 4294967295)"

definition object_entries :: "(string, 'v) js_map \<Rightarrow> (string \<times> 'v) list" where
  "object_entries m =
     js_sort (\<lambda>a b. int (digits_value (fst a)) - int (digits_value (fst b))) (filter (\<lambda>e. is_array_index (fst e)) m) @
     filter (\<lambda>e. \<not> is_array_index (fst e)) m"

fun workflow_state_name :: "workflow_state \<Rightarrow> string" where
  "workflow_state_name W_Idle = ''idle''"
| "workflow_state_name W_Coder_Delegated = ''coder_delegated''"
| "workflow_state_name W_Pre_Check_Passed = ''pre_check_passed''"
| "workflow_state_name W_Reviewer_Run = ''reviewer_run''"
| "workflow_state_name W_Tests_Run = ''tests_run''"
| "workflow_state_name W_Rework_Required = ''rework_required''"
| "workflow_state_name W_Complete = ''complete''"
| "workflow_state_name W_Blocked = ''blocked''"
| "workflow_state_name W_Closed = ''closed''"

definition VALID_TASK_WORKFLOW_STATES :: "workflow_state list" where
  "VALID_TASK_WORKFLOW_STATES =
     [W_Idle, W_Coder_Delegated, W_Pre_Check_Passed, W_Reviewer_Run, W_Tests_Run, W_Rework_Required, W_Complete, W_Blocked, W_Closed]"

definition serialize_states :: "agent_session \<Rightarrow> (string \<times> string) list" where
  "serialize_states s = object_entries (map (\<lambda>(taskId, st). (taskId, workflow_state_name st)) (ss_taskWorkflowStates s))"

definition deserializeTaskWorkflowStates :: "(string \<times> string) list \<Rightarrow> (string, workflow_state) js_map" where
  "deserializeTaskWorkflowStates raw =
     fold (\<lambda>(taskId, name) m.
       case List.find (\<lambda>st. workflow_state_name st = name) VALID_TASK_WORKFLOW_STATES of
         None \<Rightarrow> m | Some st \<Rightarrow> js_set taskId st m) raw []"

definition serialize_files :: "agent_session \<Rightarrow> (string \<times> string list) list" where
  "serialize_files s = object_entries (ss_modifiedFilesByTask s)"

definition deserializeModifiedFilesByTask :: "(string \<times> string list) list \<Rightarrow> (string, string list) js_map" where
  "deserializeModifiedFilesByTask raw =
     (if length raw > MAX_TRACKED_TASK_FILE_ATTRIBUTIONS then []
      else fold (\<lambda>(taskId, files) m.
             if js_trim taskId = [] then m else js_set taskId (js_uniq (filter (\<lambda>f. f \<noteq> []) files)) m) raw [])"

text \<open>What the writer keeps of a session and the reader takes back: of the fields here, the ones below.  The workflow cache, the
  route evidence, the council approvals and the owner are never written.\<close>

record session_snapshot =
  sn_currentTaskId :: "string option"
  sn_taskWorkflowStates :: "(string \<times> string) list"
  sn_modifiedFilesByTask :: "(string \<times> string list) list"
  sn_stageBCompletion :: "(string \<times> stage_b_gate list) list"
  sn_stageBRouteRequiredTasks :: "string list"

definition serializeAgentSession :: "agent_session \<Rightarrow> session_snapshot" where
  "serializeAgentSession s =
     \<lparr>sn_currentTaskId = ss_currentTaskId s, sn_taskWorkflowStates = serialize_states s,
      sn_modifiedFilesByTask = serialize_files s, sn_stageBCompletion = object_entries (ss_stageBCompletion s),
      sn_stageBRouteRequiredTasks = ss_stageBRouteRequiredTasks s\<rparr>"

definition deserializeAgentSession :: "session_snapshot \<Rightarrow> agent_session" where
  "deserializeAgentSession sn =
     (let modifiedFilesByTask = deserializeModifiedFilesByTask (sn_modifiedFilesByTask sn)
      in \<lparr>ss_currentTaskId = sn_currentTaskId sn, ss_owningProjectKey = None,
          ss_taskWorkflowStates = deserializeTaskWorkflowStates (sn_taskWorkflowStates sn), ss_taskWorkflowCache = [],
          ss_modifiedFilesByTask = modifiedFilesByTask,
          ss_modifiedFilesThisCoderTask =
            (case sn_currentTaskId sn of
               None \<Rightarrow> []
             | Some t \<Rightarrow> if isValidTaskId t \<and> js_has modifiedFilesByTask t then js_get_or modifiedFilesByTask t [] else []),
          ss_taskCouncilApproved = [],
          ss_stageBCompletion = fold (\<lambda>(t, gates). js_set t (js_uniq gates)) (sn_stageBCompletion sn) [],
          ss_stageBRouteEvidence = [],
          ss_stageBRouteRequiredTasks = js_uniq (filter (\<lambda>t. t \<noteq> []) (sn_stageBRouteRequiredTasks sn)), ss_identities = 0\<rparr>)"

text \<open>The loader trusts no workflow projection of a snapshot: it empties the states, the cache and the Stage B completions it
  just read, and stamps the owner.  \<open>loadSnapshot\<close> then applies the rehydration cache.\<close>

definition rehydrate_session :: "string \<Rightarrow> session_snapshot \<Rightarrow> agent_session" where
  "rehydrate_session projectKey sn =
     (deserializeAgentSession sn)
       \<lparr>ss_taskWorkflowStates := [], ss_taskWorkflowCache := [], ss_stageBCompletion := [], ss_owningProjectKey := Some projectKey\<rparr>"

definition restart_session :: "(string \<Rightarrow> rehydration_cache option) \<Rightarrow> string \<Rightarrow> agent_session \<Rightarrow> agent_session" where
  "restart_session cacheOf projectKey s =
     applyRehydrationCache cacheOf None (rehydrate_session projectKey (serializeAgentSession s))"

section \<open>Writers outside the session\<close>

text \<open>The other modules set a task's state directly.  Most copy the workflow of the durable evidence they just wrote or read, as
  \<open>applySessionWorkflowView\<close> does; whether they also drop the Stage B completions and the council approval of
  the task differs from writer to writer.\<close>

definition drop_barriers :: "bool \<Rightarrow> bool \<Rightarrow> string \<Rightarrow> agent_session \<Rightarrow> agent_session" where
  "drop_barriers stageB council taskId s =
     s\<lparr>ss_stageBCompletion := (if stageB then js_delete taskId (ss_stageBCompletion s) else ss_stageBCompletion s),
       ss_taskCouncilApproved := (if council then js_delete taskId (ss_taskCouncilApproved s) else ss_taskCouncilApproved s)\<rparr>"

definition copy_durable_view :: "bool \<Rightarrow> bool \<Rightarrow> string \<Rightarrow> workflow_metadata \<Rightarrow> agent_session \<Rightarrow> agent_session" where
  "copy_durable_view stageB council taskId w s = apply_evidence taskId w (drop_barriers stageB council taskId s)"

definition applySessionWorkflowView :: "string \<Rightarrow> workflow_metadata \<Rightarrow> agent_session \<Rightarrow> agent_session" where
  "applySessionWorkflowView = copy_durable_view True True"

text \<open>The others write one of three constants: \<open>idle\<close> for a task without durable workflow or reopened by a repair,
  \<open>coder_delegated\<close> after a background coder's mutation, \<open>rework_required\<close> after a failed Stage B.\<close>

datatype fallback_state = Fall_Idle | Fall_Coder_Delegated | Fall_Rework_Required

fun fallback_workflow :: "fallback_state \<Rightarrow> workflow_state" where
  "fallback_workflow Fall_Idle = W_Idle"
| "fallback_workflow Fall_Coder_Delegated = W_Coder_Delegated"
| "fallback_workflow Fall_Rework_Required = W_Rework_Required"

definition write_fallback ::
  "bool \<Rightarrow> bool \<Rightarrow> string \<Rightarrow> fallback_state \<Rightarrow> cache_overrides option \<Rightarrow> agent_session \<Rightarrow> agent_session" where
  "write_fallback stageB council taskId st overrides s =
     (let s1 = drop_barriers stageB council taskId
                 (s\<lparr>ss_taskWorkflowStates := js_set taskId (fallback_workflow st) (ss_taskWorkflowStates s)\<rparr>)
      in case overrides of None \<Rightarrow> s1 | Some ov \<Rightarrow> updateTaskWorkflowCache taskId ov s1)"

text \<open>A repaired task is forgotten in every session; this is what happens to one of them.\<close>

definition invalidateTaskEvidenceSessionFallbacks :: "string \<Rightarrow> agent_session \<Rightarrow> agent_session" where
  "invalidateTaskEvidenceSessionFallbacks taskId s =
     s\<lparr>ss_currentTaskId := (if ss_currentTaskId s = Some taskId then None else ss_currentTaskId s),
       ss_taskWorkflowStates := js_delete taskId (ss_taskWorkflowStates s),
       ss_taskWorkflowCache := js_delete taskId (ss_taskWorkflowCache s),
       ss_stageBCompletion := js_delete taskId (ss_stageBCompletion s),
       ss_taskCouncilApproved := js_delete taskId (ss_taskCouncilApproved s)\<rparr>"

section \<open>Runs\<close>

definition new_session :: "string option \<Rightarrow> agent_session" where
  "new_session owner =
     \<lparr>ss_currentTaskId = None, ss_owningProjectKey = owner, ss_taskWorkflowStates = [], ss_taskWorkflowCache = [],
      ss_modifiedFilesByTask = [], ss_modifiedFilesThisCoderTask = [], ss_taskCouncilApproved = [], ss_stageBCompletion = [],
      ss_stageBRouteEvidence = [], ss_stageBRouteRequiredTasks = [], ss_identities = 0\<rparr>"

datatype session_op =
    Op_Advance string workflow_state "council_config option" string
  | Op_Record_Files string "string list" "string option"
  | Op_Record_File string string "string option"
  | Op_Reset_Files string bool
  | Op_Stage_B string stage_b_gate
  | Op_Reserve string route_evidence
  | Op_Rollback nat
  | Op_Mark_Route string
  | Op_Council string council_approval
  | Op_Current_Task "string option"
  | Op_View string workflow_metadata bool bool
  | Op_Fallback string fallback_state "cache_overrides option" bool bool
  | Op_Forget string
  | Op_Rehydrate "rehydration_cache option" "string option"
  | Op_Restart "rehydration_cache option" string

text \<open>A run carries the reservations issued so far, so that a rollback names one of them.  A throw leaves the session as it is;
  \<open>Op_Council\<close> and \<open>Op_Current_Task\<close> are the assignments of the tools; \<open>Op_View\<close>, \<open>Op_Fallback\<close> and \<open>Op_Forget\<close> are the
  writers outside the session; \<open>Op_Rehydrate\<close> carries the cache found for the project, \<open>Op_Restart\<close> writes and reads the snapshot
  and rehydrates: the reservations of the old process are gone, and identities go on from the old counter, which nothing
  compares across the restart.\<close>

type_synonym session_run = "agent_session \<times> route_reservation list"

definition session_step ::
  "(string \<Rightarrow> bool) \<Rightarrow> (string \<Rightarrow> string option \<Rightarrow> string option) \<Rightarrow> session_op \<Rightarrow> session_run \<Rightarrow> session_run" where
  "session_step epicOpen canonical operation = (\<lambda>(s, issued).
     case operation of
       Op_Advance t st config nowIso \<Rightarrow>
         ((case advanceTaskState epicOpen nowIso config t st s of Inl _ \<Rightarrow> s | Inr s1 \<Rightarrow> s1), issued)
     | Op_Record_Files t files workspace \<Rightarrow> (snd (recordModifiedFilesForTask canonical t files workspace s), issued)
     | Op_Record_File t file workspace \<Rightarrow> (snd (recordModifiedFileForTask canonical t file workspace s), issued)
     | Op_Reset_Files t remove \<Rightarrow> (snd (resetModifiedFilesForTask t remove s), issued)
     | Op_Stage_B t gate \<Rightarrow> (recordStageBCompletion t gate s, issued)
     | Op_Reserve t evidence \<Rightarrow>
         (case reserveStageBRouteEvidence t evidence s of
            (None, s1) \<Rightarrow> (s1, issued) | (Some reservation, s1) \<Rightarrow> (s1, issued @ [reservation]))
     | Op_Rollback i \<Rightarrow> ((if i < length issued then rollback_reservation (issued ! i) s else s), issued)
     | Op_Mark_Route t \<Rightarrow> (markStageBRouteRequired t s, issued)
     | Op_Council t approval \<Rightarrow> (s\<lparr>ss_taskCouncilApproved := js_set t approval (ss_taskCouncilApproved s)\<rparr>, issued)
     | Op_Current_Task t \<Rightarrow> (s\<lparr>ss_currentTaskId := t\<rparr>, issued)
     | Op_View t w stageB council \<Rightarrow> (copy_durable_view stageB council t w s, issued)
     | Op_Fallback t st overrides stageB council \<Rightarrow> (write_fallback stageB council t st overrides s, issued)
     | Op_Forget t \<Rightarrow> (invalidateTaskEvidenceSessionFallbacks t s, issued)
     | Op_Rehydrate cache key \<Rightarrow> (applyRehydrationCache (\<lambda>_. cache) key s, issued)
     | Op_Restart cache key \<Rightarrow> ((restart_session (\<lambda>_. cache) key s)\<lparr>ss_identities := ss_identities s\<rparr>, []))"

end
