(* ===== verification/Session_Workflow_Facts.thy ===== *)
theory Session_Workflow_Facts
  imports Session_Workflow Task_Workflow_Facts
begin

text \<open>
  What the in-memory workflow of a session guarantees, in runs with rehydrations, restarts and writers outside it: the
  attributed files of live tasks are never lost and survive a restart, the session itself moves a task only forward and
  completes it only by way of the tests or a council, other completions come from durable records, a reservation
  of route evidence can be taken back, and rehydration trusts the durable evidence.
\<close>

section \<open>Slots\<close>

named_theorems session_defs

lemmas [session_defs] = set_files_def project_if_active_def projectModifiedFilesForActiveTask_def set_slots_def
  clearStageBRouteEvidence_def clearStageBRouteRequired_def markStageBRouteRequired_def recordStageBCompletion_def
  updateTaskWorkflowCache_def

text \<open>What reclaiming does to the map: it only deletes, and only complete tasks; it fails only on a map without one.\<close>

definition reclaimed ::
  "(string, workflow_state) js_map \<Rightarrow> string \<Rightarrow> (string, string list) js_map \<Rightarrow> (string, string list) js_map \<Rightarrow> bool" where
  "reclaimed states taskId m m' =
     (set m' \<subseteq> set m \<and> (distinct (js_keys m) \<longrightarrow> distinct (js_keys m')) \<and>
      (\<forall>k. \<not> reclaimable states taskId k \<longrightarrow> js_get m' k = js_get m k))"

lemma reclaimed_refl: "reclaimed states taskId m m"
  by (simp add: reclaimed_def)

lemma set_js_delete: "set (js_delete k m) \<subseteq> set m"
  by (auto simp: AList.delete_eq)

lemma reclaimed_delete:
  "reclaimable states taskId k \<Longrightarrow> reclaimed states taskId (js_delete k m) m' \<Longrightarrow> reclaimed states taskId m m'"
  using set_js_delete [of k m] by (auto simp: reclaimed_def js_map_simps)

lemma reclaim_slots_spec:
  "reclaim_slots states taskId m = (free, m') \<Longrightarrow>
     reclaimed states taskId m m' \<and> (free \<longrightarrow> length m' < MAX_TRACKED_TASK_FILE_ATTRIBUTIONS) \<and>
     (\<not> free \<longrightarrow> length m \<le> MAX_TRACKED_TASK_FILE_ATTRIBUTIONS \<longrightarrow> m' = m)"
proof (induction states taskId m arbitrary: free m' rule: reclaim_slots.induct)
  case (1 states taskId m)
  show ?case
  proof (cases "length m < MAX_TRACKED_TASK_FILE_ATTRIBUTIONS")
    case True
    with "1.prems" show ?thesis by (simp add: reclaim_slots.simps [of states taskId m] reclaimed_refl)
  next
    case full: False
    show ?thesis
    proof (cases "List.find (reclaimable states taskId) (js_keys m)")
      case None
      with full "1.prems" show ?thesis by (simp add: reclaim_slots.simps [of states taskId m] reclaimed_refl)
    next
      case (Some k)
      then have k: "k \<in> set (js_keys m)" "reclaimable states taskId k" by (auto dest: find_SomeD)
      have r: "reclaim_slots states taskId (js_delete k m) = (free, m')"
        using full Some "1.prems" by (simp add: reclaim_slots.simps [of states taskId m])
      note ih = "1.IH" [OF full Some r]
      have "free" if "length m \<le> MAX_TRACKED_TASK_FILE_ATTRIBUTIONS"
      proof -
        have "length (js_delete k m) < MAX_TRACKED_TASK_FILE_ATTRIBUTIONS"
          using length_js_delete_key [OF k(1)] that by simp
        with r show ?thesis by (simp add: reclaim_slots.simps [of states taskId "js_delete k m"])
      qed
      with ih reclaimed_delete [OF k(2)] show ?thesis by blast
    qed
  qed
qed

text \<open>The invariant of the attribution map: bounded, one slot per task, and every slot of a real task with proper files.\<close>

definition proper_files :: "string list \<Rightarrow> bool" where
  "proper_files files = (distinct files \<and> [] \<notin> set files)"

definition files_ok :: "(string, string list) js_map \<Rightarrow> bool" where
  "files_ok m =
     (distinct (js_keys m) \<and> length m \<le> MAX_TRACKED_TASK_FILE_ATTRIBUTIONS \<and>
      (\<forall>(t, files)\<in>set m. isValidTaskId t \<and> proper_files files))"

lemma reclaimed_files_ok: "reclaimed states t m m' \<Longrightarrow> files_ok m \<Longrightarrow> length m' \<le> MAX_TRACKED_TASK_FILE_ATTRIBUTIONS \<Longrightarrow> files_ok m'"
  by (auto simp: reclaimed_def files_ok_def)

lemma set_js_set: "set (js_set k v m) \<subseteq> insert (k, v) (set m)"
  by (induction m) auto

lemma length_js_set: "length (js_set k v m) = (if k \<in> set (js_keys m) then length m else Suc (length m))"
  by (induction m) auto

lemma files_ok_set:
  assumes "files_ok m" "isValidTaskId t" "proper_files files"
    and "t \<in> set (js_keys m) \<or> length m < MAX_TRACKED_TASK_FILE_ATTRIBUTIONS"
  shows "files_ok (js_set t files m)"
  using assms set_js_set [of t files m]
  by (auto simp: files_ok_def js_map_simps length_js_set distinct_update)

lemma files_ok_delete: "files_ok m \<Longrightarrow> files_ok (js_delete t m)"
  by (auto simp: files_ok_def AList.delete_eq distinct_map_filter intro: le_trans [OF length_filter_le])

text \<open>Making room for a task: nothing but the attribution map changes, and in it nothing of any task that is not complete.\<close>

lemma ensure_slot_spec:
  assumes e: "ensureModifiedFileTaskSlot t s = (free, s1)"
  shows "s1 = s\<lparr>ss_modifiedFilesByTask := ss_modifiedFilesByTask s1\<rparr>"
    and "files_ok (ss_modifiedFilesByTask s) \<Longrightarrow> files_ok (ss_modifiedFilesByTask s1)"
    and "free \<Longrightarrow> isValidTaskId t \<and> t \<in> set (js_keys (ss_modifiedFilesByTask s1))"
    and "\<not> free \<Longrightarrow> files_ok (ss_modifiedFilesByTask s) \<Longrightarrow> s1 = s"
    and "u = t \<or> js_get (ss_taskWorkflowStates s) u \<noteq> Some W_Complete \<Longrightarrow>
           js_get_or (ss_modifiedFilesByTask s1) u [] = js_get_or (ss_modifiedFilesByTask s) u []"
    and "u \<noteq> t \<Longrightarrow> js_get (ss_taskWorkflowStates s) u \<noteq> Some W_Complete \<Longrightarrow>
           js_get (ss_modifiedFilesByTask s1) u = js_get (ss_modifiedFilesByTask s) u"
proof -
  let ?m = "ss_modifiedFilesByTask s" and ?st = "ss_taskWorkflowStates s"
  have all: "s1 = s\<lparr>ss_modifiedFilesByTask := ss_modifiedFilesByTask s1\<rparr> \<and>
    (files_ok ?m \<longrightarrow> files_ok (ss_modifiedFilesByTask s1)) \<and>
    (free \<longrightarrow> isValidTaskId t \<and> t \<in> set (js_keys (ss_modifiedFilesByTask s1))) \<and>
    (\<not> free \<longrightarrow> files_ok ?m \<longrightarrow> s1 = s) \<and>
    (\<forall>u. u = t \<or> js_get ?st u \<noteq> Some W_Complete \<longrightarrow> js_get_or (ss_modifiedFilesByTask s1) u [] = js_get_or ?m u []) \<and>
    (\<forall>u. u \<noteq> t \<longrightarrow> js_get ?st u \<noteq> Some W_Complete \<longrightarrow> js_get (ss_modifiedFilesByTask s1) u = js_get ?m u)"
  proof (cases "isValidTaskId t \<and> \<not> js_has ?m t")
    case False
    then show ?thesis using e by (auto simp: ensureModifiedFileTaskSlot_def js_has_keys split: if_splits)
  next
    case True
    obtain b m' where r: "reclaim_slots ?st t ?m = (b, m')" by fastforce
    note spec = reclaim_slots_spec [OF r]
    have s1: "free = b" "s1 = s\<lparr>ss_modifiedFilesByTask := (if b then js_set t [] m' else m')\<rparr>"
      using e True r by (auto simp: ensureModifiedFileTaskSlot_def)
    have fresh: "js_get ?m t = None" using True by (simp add: js_has_def)
    have keep: "js_get m' u = js_get ?m u" if "u = t \<or> js_get ?st u \<noteq> Some W_Complete" for u
      using spec that by (auto simp: reclaimed_def reclaimable_def)
    have ok: "files_ok (ss_modifiedFilesByTask s1)" if m: "files_ok ?m"
    proof (cases b)
      case True': True
      have "files_ok m'" using reclaimed_files_ok [OF conjunct1 [OF spec] m] spec True' by simp
      then show ?thesis
        using files_ok_set [of m' t "[]"] True True' spec s1 by (simp add: proper_files_def)
    next
      case False
      then have "m' = ?m" using spec m by (simp add: files_ok_def)
      then show ?thesis using False m s1 by simp
    qed
    have "s1 = s" if "\<not> free" "files_ok ?m"
      using spec that s1 by (simp add: files_ok_def)
    moreover have "js_get_or (ss_modifiedFilesByTask s1) u [] = js_get_or ?m u []"
      if "u = t \<or> js_get ?st u \<noteq> Some W_Complete" for u
      using keep [OF that] s1 fresh by (auto simp: js_get_or_def js_map_simps)
    moreover have "js_get (ss_modifiedFilesByTask s1) u = js_get ?m u"
      if "u \<noteq> t" "js_get ?st u \<noteq> Some W_Complete" for u
      using keep [of u] that s1 by (simp add: js_map_simps)
    moreover have "free \<longrightarrow> t \<in> set (js_keys (ss_modifiedFilesByTask s1))"
      using s1 by (simp add: js_map_simps dom_update)
    ultimately show ?thesis using True s1 ok by auto
  qed
  show "s1 = s\<lparr>ss_modifiedFilesByTask := ss_modifiedFilesByTask s1\<rparr>"
    and "files_ok ?m \<Longrightarrow> files_ok (ss_modifiedFilesByTask s1)"
    and "free \<Longrightarrow> isValidTaskId t \<and> t \<in> set (js_keys (ss_modifiedFilesByTask s1))"
    and "\<not> free \<Longrightarrow> files_ok ?m \<Longrightarrow> s1 = s"
    and "u = t \<or> js_get ?st u \<noteq> Some W_Complete \<Longrightarrow> js_get_or (ss_modifiedFilesByTask s1) u [] = js_get_or ?m u []"
    and "u \<noteq> t \<Longrightarrow> js_get ?st u \<noteq> Some W_Complete \<Longrightarrow> js_get (ss_modifiedFilesByTask s1) u = js_get ?m u"
    using all by blast+
qed

text \<open>A change of the attribution of one task: bounded as before, and no other live task is touched.\<close>

definition attribution_change :: "string \<Rightarrow> agent_session \<Rightarrow> agent_session \<Rightarrow> bool" where
  "attribution_change t s s1 =
     (\<exists>m active. s1 = s\<lparr>ss_modifiedFilesByTask := m, ss_modifiedFilesThisCoderTask := active\<rparr> \<and>
        (files_ok (ss_modifiedFilesByTask s) \<longrightarrow> files_ok m) \<and>
        (\<forall>u. u \<noteq> t \<longrightarrow> js_get (ss_taskWorkflowStates s) u \<noteq> Some W_Complete \<longrightarrow>
           js_get m u = js_get (ss_modifiedFilesByTask s) u))"

lemma change_fields:
  assumes "attribution_change t s s1"
  shows "ss_taskWorkflowStates s1 = ss_taskWorkflowStates s" "ss_stageBRouteEvidence s1 = ss_stageBRouteEvidence s"
    "ss_identities s1 = ss_identities s" "ss_taskCouncilApproved s1 = ss_taskCouncilApproved s"
    "files_ok (ss_modifiedFilesByTask s) \<Longrightarrow> files_ok (ss_modifiedFilesByTask s1)"
    "u \<noteq> t \<Longrightarrow> js_get (ss_taskWorkflowStates s) u \<noteq> Some W_Complete \<Longrightarrow>
       js_get (ss_modifiedFilesByTask s1) u = js_get (ss_modifiedFilesByTask s) u"
  using assms by (auto simp: attribution_change_def)

lemma change_refl: "attribution_change t s s"
  unfolding attribution_change_def
  by (rule exI [of _ "ss_modifiedFilesByTask s"], rule exI [of _ "ss_modifiedFilesThisCoderTask s"]) simp

lemma change_trans:
  assumes a: "attribution_change t s s1" and b: "attribution_change t s1 s2"
  shows "attribution_change t s s2"
proof -
  obtain m active m' active' where s1: "s1 = s\<lparr>ss_modifiedFilesByTask := m, ss_modifiedFilesThisCoderTask := active\<rparr>"
    and s2: "s2 = s1\<lparr>ss_modifiedFilesByTask := m', ss_modifiedFilesThisCoderTask := active'\<rparr>"
    using a b unfolding attribution_change_def by blast
  have "s2 = s\<lparr>ss_modifiedFilesByTask := m', ss_modifiedFilesThisCoderTask := active'\<rparr>" by (simp add: s1 s2)
  moreover have "files_ok (ss_modifiedFilesByTask s) \<longrightarrow> files_ok m'"
    using change_fields(5) [OF a] change_fields(5) [OF b] s2 by simp
  moreover have "js_get m' u = js_get (ss_modifiedFilesByTask s) u"
    if "u \<noteq> t" "js_get (ss_taskWorkflowStates s) u \<noteq> Some W_Complete" for u
    using change_fields(6) [OF a that] change_fields(6) [OF b that(1)] change_fields(1) [OF a] that(2) s2 by simp
  ultimately show ?thesis unfolding attribution_change_def by blast
qed

lemma change_ensure:
  assumes e: "ensureModifiedFileTaskSlot t s = (free, s1)"
  shows "attribution_change t s s1"
proof -
  note spec = ensure_slot_spec [OF e]
  have "s1 = s\<lparr>ss_modifiedFilesByTask := ss_modifiedFilesByTask s1, ss_modifiedFilesThisCoderTask := ss_modifiedFilesThisCoderTask s\<rparr>"
    by (subst spec(1), simp)
  with spec(2,6) show ?thesis unfolding attribution_change_def by blast
qed

lemma changeI:
  assumes "s1 = s\<lparr>ss_modifiedFilesByTask := m, ss_modifiedFilesThisCoderTask := active\<rparr>"
    "files_ok (ss_modifiedFilesByTask s) \<Longrightarrow> files_ok m"
    "\<And>u. u \<noteq> t \<Longrightarrow> js_get (ss_taskWorkflowStates s) u \<noteq> Some W_Complete \<Longrightarrow> js_get m u = js_get (ss_modifiedFilesByTask s) u"
  shows "attribution_change t s s1"
  using assms unfolding attribution_change_def by blast

lemma change_project:
  assumes a: "attribution_change t s s1"
  shows "attribution_change t s (project_if_active t s1)"
proof (rule change_trans [OF a])
  show "attribution_change t s1 (project_if_active t s1)"
    by (rule changeI [where m = "ss_modifiedFilesByTask s1" and active = "ss_modifiedFilesThisCoderTask (project_if_active t s1)"])
      (simp_all add: session_defs)
qed

lemma change_set_files:
  assumes "files_ok (ss_modifiedFilesByTask s) \<Longrightarrow> isValidTaskId t \<and> t \<in> set (js_keys (ss_modifiedFilesByTask s)) \<and> proper_files files"
  shows "attribution_change t s (set_files t files s)"
  using assms files_ok_set [of "ss_modifiedFilesByTask s" t files]
  unfolding attribution_change_def set_files_def
  by (intro exI [of _ "js_set t files (ss_modifiedFilesByTask s)"] exI [of _ "ss_modifiedFilesThisCoderTask s"])
    (auto simp: js_map_simps)

lemma change_delete: "attribution_change t s (s\<lparr>ss_modifiedFilesByTask := js_delete t (ss_modifiedFilesByTask s)\<rparr>)"
  unfolding attribution_change_def
  by (intro exI [of _ "js_delete t (ss_modifiedFilesByTask s)"] exI [of _ "ss_modifiedFilesThisCoderTask s"])
    (simp add: js_map_simps files_ok_delete)

section \<open>Attributing files\<close>

definition canonical_ok :: "(string \<Rightarrow> string option \<Rightarrow> string option) \<Rightarrow> bool" where
  "canonical_ok canonical = (\<forall>file workspace. canonical file workspace \<noteq> Some [])"

lemma canonicalAttributionPath_ok: "canonical_ok (canonicalAttributionPath rt resolve_at)"
  by (simp add: canonical_ok_def canonicalAttributionPath_def Let_def split: option.splits)

lemma canonical_files_proper: "canonical_ok canonical \<Longrightarrow> proper_files (js_uniq (List.map_filter (\<lambda>f. canonical f w) files))"
  by (auto simp: proper_files_def canonical_ok_def List.map_filter_def)

lemma record_files_spec:
  assumes c: "canonical_ok canonical" and r: "recordModifiedFilesForTask canonical t files w s = (accepted, s1)"
  shows "attribution_change t s s1"
    and "\<not> accepted \<Longrightarrow> files_ok (ss_modifiedFilesByTask s) \<Longrightarrow> s1 = s"
    and "accepted \<Longrightarrow> js_get (ss_modifiedFilesByTask s1) t = Some (js_uniq (List.map_filter (\<lambda>f. canonical f w) files)) \<and> isValidTaskId t"
proof -
  obtain free s0 where e: "ensureModifiedFileTaskSlot t s = (free, s0)" by fastforce
  note spec = ensure_slot_spec [OF e]
  have s1: "accepted = free" "s1 = (if free then project_if_active t (set_files t (js_uniq (List.map_filter (\<lambda>f. canonical f w) files)) s0) else s0)"
    using r e by (auto simp: recordModifiedFilesForTask_def split: if_splits)
  show "attribution_change t s s1"
    using change_trans [OF change_ensure [OF e] change_project [OF change_set_files]] change_ensure [OF e] spec(3)
      canonical_files_proper [OF c] s1 by auto
  show "\<not> accepted \<Longrightarrow> files_ok (ss_modifiedFilesByTask s) \<Longrightarrow> s1 = s"
    using s1 spec(4) by simp
  show "accepted \<Longrightarrow> js_get (ss_modifiedFilesByTask s1) t = Some (js_uniq (List.map_filter (\<lambda>f. canonical f w) files)) \<and> isValidTaskId t"
    using s1 spec(3) by (simp add: session_defs js_map_simps)
qed

lemma record_refused:
  assumes r: "recordModifiedFilesForTask canonical t files w s = (accepted, s1)" and "\<not> accepted" "isValidTaskId t"
    and ok: "files_ok (ss_modifiedFilesByTask s)"
  shows "length (ss_modifiedFilesByTask s) = MAX_TRACKED_TASK_FILE_ATTRIBUTIONS \<and>
    (\<forall>u\<in>set (js_keys (ss_modifiedFilesByTask s)). js_get (ss_taskWorkflowStates s) u \<noteq> Some W_Complete)"
proof -
  let ?m = "ss_modifiedFilesByTask s" and ?st = "ss_taskWorkflowStates s"
  have new: "\<not> js_has ?m t" and no: "\<not> fst (reclaim_slots ?st t ?m)"
    using assms by (auto simp: recordModifiedFilesForTask_def ensureModifiedFileTaskSlot_def split: if_splits prod.splits)
  have full: "\<not> length ?m < MAX_TRACKED_TASK_FILE_ATTRIBUTIONS"
    using no by (simp add: reclaim_slots.simps [of ?st t ?m] split: if_splits)
  then have len: "length ?m = MAX_TRACKED_TASK_FILE_ATTRIBUTIONS" using ok by (simp add: files_ok_def)
  have none: "List.find (reclaimable ?st t) (js_keys ?m) = None"
  proof (rule ccontr)
    assume "List.find (reclaimable ?st t) (js_keys ?m) \<noteq> None"
    then obtain k where k: "List.find (reclaimable ?st t) (js_keys ?m) = Some k" by auto
    then have "length (js_delete k ?m) < MAX_TRACKED_TASK_FILE_ATTRIBUTIONS"
      using length_js_delete_key [of k ?m] len by (auto dest: find_SomeD)
    then show False
      using no full k by (simp add: reclaim_slots.simps [of ?st t ?m] reclaim_slots.simps [of ?st t "js_delete k ?m"])
  qed
  have "js_get ?st u \<noteq> Some W_Complete" if "u \<in> set (js_keys ?m)" for u
    using find_NoneD [OF none that] that new by (auto simp: reclaimable_def js_has_keys)
  then show ?thesis using len by blast
qed

lemma record_file_change:
  assumes c: "canonical_ok canonical" and r: "recordModifiedFileForTask canonical t file w s = (accepted, s1)"
  shows "attribution_change t s s1"
    and "\<not> accepted \<Longrightarrow> files_ok (ss_modifiedFilesByTask s) \<Longrightarrow> s1 = s"
proof -
  obtain free s0 where e: "ensureModifiedFileTaskSlot t s = (free, s0)" by fastforce
  note spec = ensure_slot_spec [OF e]
  let ?current = "js_get_or (ss_modifiedFilesByTask s0) t []"
  have proper: "proper_files (?current @ [path])"
    if "files_ok (ss_modifiedFilesByTask s0)" "path \<notin> set ?current" "canonical file w = Some path" for path
    using that c by (auto simp: files_ok_def proper_files_def canonical_ok_def js_get_or_def split: option.splits dest!: map_of_SomeD)
  have "attribution_change t s0 (project_if_active t (set_files t (?current @ [path]) s0))"
    if "free" "path \<notin> set ?current" "canonical file w = Some path" for path
    using change_project [OF change_set_files] proper that spec(3) by blast
  with change_ensure [OF e] r e show "attribution_change t s s1"
    by (auto simp: recordModifiedFileForTask_def Let_def change_refl split: if_splits option.splits intro: change_trans)
  show "\<not> accepted \<Longrightarrow> files_ok (ss_modifiedFilesByTask s) \<Longrightarrow> s1 = s"
    using r e spec(4) by (auto simp: recordModifiedFileForTask_def Let_def split: if_splits option.splits)
qed

lemma reset_change: "attribution_change t s (snd (resetModifiedFilesForTask t remove s))"
proof -
  obtain free s0 where e: "ensureModifiedFileTaskSlot t s = (free, s0)" by fastforce
  have "attribution_change t s (project_if_active t (set_files t [] s0))" if "free"
    using change_trans [OF change_ensure [OF e] change_project [OF change_set_files]] ensure_slot_spec(3) [OF e] that
    by (simp add: proper_files_def)
  then show ?thesis
    using change_ensure [OF e] e change_project [OF change_delete]
    by (auto simp: resetModifiedFilesForTask_def change_refl)
qed

section \<open>Advancing\<close>

lemma state_index_simps [simp]:
  "state_index W_Idle = 0" "state_index W_Coder_Delegated = 1" "state_index W_Pre_Check_Passed = 2"
  "state_index W_Reviewer_Run = 3" "state_index W_Tests_Run = 4" "state_index W_Complete = 5"
  "state_index W_Rework_Required = -1" "state_index W_Blocked = -1" "state_index W_Closed = -1"
  by (simp_all add: state_index_def LINEAR_STATE_ORDER_def)

definition advanced :: "string \<Rightarrow> string \<Rightarrow> workflow_state \<Rightarrow> agent_session \<Rightarrow> agent_session" where
  "advanced nowIso t st s =
     updateTaskWorkflowCache t (no_overrides\<lparr>co_updatedAt := Some nowIso\<rparr>)
       (s\<lparr>ss_taskWorkflowStates := js_set t st (ss_taskWorkflowStates s)\<rparr>)"

lemma advance_cases:
  "advanceTaskState epicOpen nowIso config t st s =
     (if \<not> isValidTaskId t then Inr s
      else if canAdvanceTaskState config t st s
      then Inr (if st = W_Complete then release_completed epicOpen t (advanced nowIso t st s) else advanced nowIso t st s)
      else Inl (let current = getTaskState s t
                in if state_index current = -1 \<or> state_index st = -1 \<or> state_index st \<le> state_index current
                   then Err_Invalid_Transition current st else Err_Cannot_Complete current))"
  by (auto simp: advanceTaskState_def canAdvanceTaskState_def advanced_def getTaskState_def Let_def)

lemma can_advance_iff:
  "canAdvanceTaskState config t st s \<longleftrightarrow>
     isValidTaskId t \<and> state_index (getTaskState s t) \<noteq> -1 \<and> state_index st > state_index (getTaskState s t) \<and>
     (st = W_Complete \<longrightarrow> getTaskState s t = W_Tests_Run \<or>
        council_approved s t config \<and> (getTaskState s t = W_Pre_Check_Passed \<or> getTaskState s t = W_Reviewer_Run))"
proof -
  have "state_index st \<noteq> -1" if "state_index (getTaskState s t) \<noteq> -1" "state_index st > state_index (getTaskState s t)"
    using that by (cases "getTaskState s t") auto
  then show ?thesis
    by (cases "getTaskState s t") (auto simp: canAdvanceTaskState_def getTaskState_def Let_def)
qed

lemma advanced_simps [simp]:
  "ss_taskWorkflowStates (advanced nowIso t st s) = js_set t st (ss_taskWorkflowStates s)"
  "ss_modifiedFilesByTask (advanced nowIso t st s) = ss_modifiedFilesByTask s"
  "ss_stageBRouteEvidence (advanced nowIso t st s) = ss_stageBRouteEvidence s"
  "ss_identities (advanced nowIso t st s) = ss_identities s"
  by (simp_all add: advanced_def session_defs Let_def)

lemma complete_files_change: "attribution_change t s (completeModifiedFilesForTask epicOpen t s)"
  by (auto simp: completeModifiedFilesForTask_def change_refl reset_change split: option.splits)

lemma released_simps:
  "ss_taskWorkflowStates (release_completed epicOpen t s) = ss_taskWorkflowStates s"
  "ss_identities (release_completed epicOpen t s) = ss_identities s"
  "ss_stageBRouteEvidence (release_completed epicOpen t s) = js_delete t (ss_stageBRouteEvidence s)"
  "files_ok (ss_modifiedFilesByTask s) \<Longrightarrow> files_ok (ss_modifiedFilesByTask (release_completed epicOpen t s))"
  "u \<noteq> t \<Longrightarrow> js_get (ss_taskWorkflowStates s) u \<noteq> Some W_Complete \<Longrightarrow>
     js_get (ss_modifiedFilesByTask (release_completed epicOpen t s)) u = js_get (ss_modifiedFilesByTask s) u"
  unfolding release_completed_def by (simp_all add: change_fields [OF complete_files_change] session_defs)

text \<open>The predicate and the operation agree: for a task with an id, \<open>canAdvanceTaskState\<close> says exactly whether
  \<open>advanceTaskState\<close> returns, and then the task is in the new state, which is later in the order, and no other task's
  state changes.  Without an id the operation returns and changes nothing, although the predicate says it cannot advance.\<close>

theorem advance_exactly_when_allowed:
  "(canAdvanceTaskState config t st s \<longleftrightarrow> isValidTaskId t \<and> (\<exists>s1. advanceTaskState epicOpen nowIso config t st s = Inr s1)) \<and>
   (case advanceTaskState epicOpen nowIso config t st s of
      Inl _ \<Rightarrow> isValidTaskId t
    | Inr s1 \<Rightarrow>
        if isValidTaskId t
        then state_index (getTaskState s t) < state_index st \<and> getTaskState s1 t = st \<and>
             getTaskState s1 = (getTaskState s)(t := st)
        else s1 = s \<and> \<not> canAdvanceTaskState config t st s)"
proof -
  have "getTaskState s1 = (getTaskState s)(t := st)"
    if "isValidTaskId t" "ss_taskWorkflowStates s1 = js_set t st (ss_taskWorkflowStates s)" for s1
    using that by (auto simp: getTaskState_def js_map_simps)
  then show ?thesis
    by (auto simp: advance_cases can_advance_iff released_simps)
qed

section \<open>Route evidence\<close>

definition route_ok :: "nat \<Rightarrow> route_slots \<Rightarrow> bool" where
  "route_ok n slots = (length (rs_entries slots) \<le> MAX_ROUTE_EVIDENCE \<and> (\<forall>(k, _)\<in>set (rs_entries slots). k < n))"

definition routes_ok :: "agent_session \<Rightarrow> bool" where
  "routes_ok s = (\<forall>(_, slots)\<in>set (ss_stageBRouteEvidence s). route_ok (ss_identities s) slots)"

fun restorable :: "nat \<Rightarrow> route_reservation \<Rightarrow> bool" where
  "restorable n (Replaced_Slot _ _ _ (k, _)) = (k < n)"
| "restorable n (Appended_Slot _ _ _) = True"

lemma routes_ok_get: "routes_ok s \<Longrightarrow> js_get (ss_stageBRouteEvidence s) t = Some slots \<Longrightarrow> route_ok (ss_identities s) slots"
  by (auto simp: routes_ok_def dest!: map_of_SomeD)

lemma routes_ok_of: "routes_ok s \<Longrightarrow> route_ok (ss_identities s) (route_slots_of s t)"
  by (auto simp: route_slots_of_def route_ok_def [of _ "\<lparr>rs_array = _, rs_entries = []\<rparr>"] dest: routes_ok_get split: option.splits)

lemma routes_ok_set: "routes_ok s \<Longrightarrow> route_ok (ss_identities s) slots \<Longrightarrow> routes_ok (set_slots t slots s)"
  using set_js_set [of t slots "ss_stageBRouteEvidence s"] by (auto simp: routes_ok_def session_defs)

lemma route_ok_mono: "route_ok n slots \<Longrightarrow> n \<le> m \<Longrightarrow> route_ok m slots"
  by (fastforce simp: route_ok_def)

lemma route_ok_update: "route_ok n slots \<Longrightarrow> fst x < n \<Longrightarrow> route_ok n (slots\<lparr>rs_entries := (rs_entries slots)[i := x]\<rparr>)"
  using set_update_subset_insert [of "rs_entries slots" i x] by (auto simp: route_ok_def)

lemma set_slots_simps [simp]:
  "ss_identities (set_slots t slots s) = ss_identities s"
  "ss_taskWorkflowStates (set_slots t slots s) = ss_taskWorkflowStates s"
  "ss_modifiedFilesByTask (set_slots t slots s) = ss_modifiedFilesByTask s"
  "js_get (ss_stageBRouteEvidence (set_slots t slots s)) u = (if u = t then Some slots else js_get (ss_stageBRouteEvidence s) u)"
  by (simp_all add: set_slots_def js_map_simps)

text \<open>A reservation: refused, or put in the place of the entry of the same dispatch, or at the end.\<close>

lemma reserve_cases:
  assumes "reserveStageBRouteEvidence t e s = (r, s1)"
  obtains (refused) "r = None" "ss_stageBRouteEvidence s1 = ss_stageBRouteEvidence s"
      "ss_identities s \<le> ss_identities s1" "ss_taskWorkflowStates s1 = ss_taskWorkflowStates s"
      "ss_modifiedFilesByTask s1 = ss_modifiedFilesByTask s"
    | (replaced) i where "find_index (\<lambda>(_, entry). same_slot e entry) (rs_entries (route_slots_of s t)) = Some i"
      "r = Some (Replaced_Slot t (rs_array (route_slots_of s t)) (Suc (ss_identities s)) (rs_entries (route_slots_of s t) ! i))"
      "s1 = set_slots t ((route_slots_of s t)\<lparr>rs_entries := (rs_entries (route_slots_of s t))[i := (Suc (ss_identities s), e)]\<rparr>)
              (s\<lparr>ss_identities := Suc (Suc (ss_identities s))\<rparr>)"
    | (appended) "find_index (\<lambda>(_, entry). same_slot e entry) (rs_entries (route_slots_of s t)) = None"
      "length (rs_entries (route_slots_of s t)) < MAX_ROUTE_EVIDENCE"
      "r = Some (Appended_Slot t (rs_array (route_slots_of s t)) (Suc (ss_identities s)))"
      "s1 = set_slots t ((route_slots_of s t)\<lparr>rs_entries := rs_entries (route_slots_of s t) @ [(Suc (ss_identities s), e)]\<rparr>)
              (s\<lparr>ss_identities := Suc (Suc (ss_identities s))\<rparr>)"
proof (cases "isValidTaskId t")
  case False
  then show thesis using assms refused by (simp add: reserveStageBRouteEvidence_def)
next
  case True
  show thesis
  proof (cases "find_index (\<lambda>(_, entry). same_slot e entry) (rs_entries (route_slots_of s t))")
    case None
    then show thesis
      using assms True refused appended
      by (cases "length (rs_entries (route_slots_of s t)) < MAX_ROUTE_EVIDENCE")
        (auto simp: reserveStageBRouteEvidence_def Let_def)
  next
    case (Some i)
    then show thesis using assms True replaced by (simp add: reserveStageBRouteEvidence_def Let_def)
  qed
qed

lemma reserve_ok:
  assumes r: "reserveStageBRouteEvidence t e s = (r, s1)" and ok: "routes_ok s"
  shows "routes_ok s1 \<and> ss_identities s \<le> ss_identities s1 \<and> (\<forall>x. r = Some x \<longrightarrow> restorable (ss_identities s1) x) \<and>
    ss_taskWorkflowStates s1 = ss_taskWorkflowStates s \<and> ss_modifiedFilesByTask s1 = ss_modifiedFilesByTask s"
proof -
  let ?slots = "route_slots_of s t" and ?n = "Suc (Suc (ss_identities s))"
  let ?s = "s\<lparr>ss_identities := ?n\<rparr>"
  have old: "route_ok ?n ?slots" using route_ok_mono [OF routes_ok_of [OF ok, of t]] by simp
  have ok': "routes_ok ?s" using ok route_ok_mono [of "ss_identities s" _ ?n] by (fastforce simp: routes_ok_def)
  from r show ?thesis
  proof (cases rule: reserve_cases)
    case refused
    then show ?thesis using ok route_ok_mono [of "ss_identities s" _ "ss_identities s1"] by (fastforce simp: routes_ok_def)
  next
    case (replaced i)
    have "rs_entries ?slots ! i \<in> set (rs_entries ?slots)" using find_index_Some [OF replaced(1)] by simp
    then have "fst (rs_entries ?slots ! i) < ?n" using old by (auto simp: route_ok_def)
    moreover have "routes_ok s1"
      using routes_ok_set [OF ok', of "?slots\<lparr>rs_entries := (rs_entries ?slots)[i := (Suc (ss_identities s), e)]\<rparr>" t]
        route_ok_update [OF old, of "(Suc (ss_identities s), e)" i] replaced(3) by simp
    ultimately show ?thesis using replaced(2,3) by (cases "rs_entries ?slots ! i") simp
  next
    case appended
    have "routes_ok s1"
      using routes_ok_set [OF ok', of "?slots\<lparr>rs_entries := rs_entries ?slots @ [(Suc (ss_identities s), e)]\<rparr>" t]
        old appended(2,4) by (auto simp: route_ok_def)
    then show ?thesis using appended(3,4) by simp
  qed
qed

lemma rollback_ok:
  assumes ok: "routes_ok s" and r: "restorable (ss_identities s) r"
  shows "routes_ok (rollback_reservation r s) \<and> ss_identities (rollback_reservation r s) = ss_identities s \<and>
    ss_taskWorkflowStates (rollback_reservation r s) = ss_taskWorkflowStates s \<and>
    ss_modifiedFilesByTask (rollback_reservation r s) = ss_modifiedFilesByTask s"
proof (cases r)
  case (Replaced_Slot t a k previous)
  have "routes_ok (set_slots t (slots\<lparr>rs_entries := (rs_entries slots)[i := previous]\<rparr>) s)"
    if "js_get (ss_stageBRouteEvidence s) t = Some slots" for slots i
    using routes_ok_set [OF ok] route_ok_update [OF routes_ok_get [OF ok that], of previous i] r Replaced_Slot
    by (cases previous) simp
  then show ?thesis using ok Replaced_Slot by (auto simp: rollback_reservation_def split: option.splits)
next
  case (Appended_Slot t a k)
  have part: "routes_ok (set_slots t (slots\<lparr>rs_entries := take i (rs_entries slots) @ drop (Suc i) (rs_entries slots)\<rparr>) s)"
    if "js_get (ss_stageBRouteEvidence s) t = Some slots" for slots i
    by (rule routes_ok_set [OF ok])
      (use routes_ok_get [OF ok that] in \<open>auto simp: route_ok_def dest!: in_set_takeD in_set_dropD\<close>)
  have cleared: "routes_ok (clearStageBRouteEvidence t s')" if "routes_ok s'" for s'
    using that set_js_delete [of t "ss_stageBRouteEvidence s'"] by (auto simp: routes_ok_def session_defs)
  have emptied: "routes_ok (set_slots t (slots\<lparr>rs_entries := []\<rparr>) s)" for slots
    by (rule routes_ok_set [OF ok]) (simp add: route_ok_def)
  have "routes_ok (rollback_reservation r s)"
    using ok part cleared emptied Appended_Slot
    by (auto simp: rollback_reservation_def Let_def split: option.splits)
  then show ?thesis
    using Appended_Slot by (auto simp: rollback_reservation_def clearStageBRouteEvidence_def Let_def split: option.splits)
qed

section \<open>The snapshot\<close>

lemma mset_object_entries: "mset (object_entries m) = mset m"
  by (simp add: object_entries_def flip: mset_filter) (metis multiset_partition mset_filter)

lemma object_entries_facts:
  "set (object_entries m) = set m" "length (object_entries m) = length m"
  "distinct (js_keys m) \<Longrightarrow> distinct (js_keys (object_entries m))"
proof -
  show "set (object_entries m) = set m" by (rule mset_eq_setD [OF mset_object_entries])
  show "length (object_entries m) = length m" by (rule mset_eq_length [OF mset_object_entries])
  have "mset (js_keys (object_entries m)) = mset (js_keys m)" using mset_object_entries [of m] by simp
  then show "distinct (js_keys m) \<Longrightarrow> distinct (js_keys (object_entries m))" by (metis mset_eq_imp_distinct_iff)
qed

lemma object_entries_get: "distinct (js_keys m) \<Longrightarrow> js_get (object_entries m) = js_get m"
  by (simp add: map_of_inject_set object_entries_facts)

lemma js_sort_map: "js_sort (\<lambda>a b. c (f a) (f b)) xs = ys \<Longrightarrow> js_sort c (map f xs) = map f ys"
proof -
  have "js_insert c (f x) (map f xs) = map f (js_insert (\<lambda>a b. c (f a) (f b)) x xs)" for x xs
    by (induction xs) auto
  then have "js_sort c (map f xs) = map f (js_sort (\<lambda>a b. c (f a) (f b)) xs)"
    by (induction xs) auto
  then show "js_sort (\<lambda>a b. c (f a) (f b)) xs = ys \<Longrightarrow> js_sort c (map f xs) = map f ys" by simp
qed

lemma object_entries_map: "object_entries (map (\<lambda>(k, v). (k, g v)) m) = map (\<lambda>(k, v). (k, g v)) (object_entries m)"
  unfolding object_entries_def
  by (simp add: filter_map comp_def case_prod_beta js_sort_map [OF refl])

text \<open>Reading entries back into a map, when none is rejected.\<close>

lemma fold_js_set_fresh:
  assumes "distinct (js_keys acc @ map fst xs)" "\<And>k v m. (k, v) \<in> set xs \<Longrightarrow> f (k, v) m = js_set k (g v) m"
  shows "fold f xs acc = acc @ map (\<lambda>(k, v). (k, g v)) xs"
  using assms
proof (induction xs arbitrary: acc)
  case Nil
  then show ?case by simp
next
  case (Cons x xs)
  then show ?case by (cases x) (simp add: js_set_fresh)
qed

lemma state_name_parsed: "List.find (\<lambda>st. workflow_state_name st = workflow_state_name s) VALID_TASK_WORKFLOW_STATES = Some s"
  by (cases s) (simp_all add: VALID_TASK_WORKFLOW_STATES_def)

lemma deserialize_states:
  assumes "distinct (js_keys raw)"
  shows "deserializeTaskWorkflowStates (map (\<lambda>(t, st). (t, workflow_state_name st)) raw) = raw"
proof -
  have "fold (\<lambda>x. js_set (fst x) (snd x)) raw [] = raw"
    using fold_js_set_fresh [of "[]" raw "\<lambda>x. js_set (fst x) (snd x)" "\<lambda>x. x"] assms by simp
  then show ?thesis
    by (simp add: deserializeTaskWorkflowStates_def fold_map comp_def case_prod_beta state_name_parsed)
qed

lemma deserialize_files:
  assumes "distinct (js_keys raw)" "length raw \<le> MAX_TRACKED_TASK_FILE_ATTRIBUTIONS"
    and ok: "\<And>t files. (t, files) \<in> set raw \<Longrightarrow> isValidTaskId t \<and> proper_files files"
  shows "deserializeModifiedFilesByTask raw = raw"
proof -
  have same: "js_uniq (filter (\<lambda>f. f \<noteq> []) files) = files" if "proper_files files" for files
  proof -
    have "filter (\<lambda>f. f \<noteq> []) files = files" using that by (auto simp: proper_files_def filter_id_conv)
    then show ?thesis using that by (simp add: proper_files_def)
  qed
  have "fold (\<lambda>(t, files) m. if js_trim t = [] then m else js_set t (js_uniq (filter (\<lambda>f. f \<noteq> []) files)) m) raw [] = [] @ map (\<lambda>(t, files). (t, files)) raw"
    by (rule fold_js_set_fresh) (use assms(1) ok same in \<open>auto simp: isValidTaskId_def\<close>)
  then show ?thesis using assms(2) by (simp add: deserializeModifiedFilesByTask_def)
qed

section \<open>Rehydration\<close>

text \<open>A loop over a map whose body sees and changes only what belongs to its key.\<close>

lemma fold_keyed:
  assumes "distinct (map fst xs)"
    and "\<And>k v s u. (k, v) \<in> set xs \<Longrightarrow> obs (f (k, v) s) u = (if u = k then g k v (obs s k) else obs s u)"
  shows "obs (fold f xs s) u = (case map_of xs u of None \<Rightarrow> obs s u | Some v \<Rightarrow> g u v (obs s u))"
  using assms
proof (induction xs arbitrary: s)
  case Nil
  then show ?case by simp
next
  case (Cons x xs)
  obtain k v where x: "x = (k, v)" by fastforce
  have "map_of xs k = None" using Cons.prems(1) x by (simp add: map_of_eq_None_iff)
  then show ?case using Cons x by (auto split: option.splits)
qed

definition cached_generation :: "agent_session \<Rightarrow> string \<Rightarrow> int" where
  "cached_generation s t = (case js_get (ss_taskWorkflowCache s) t of None \<Rightarrow> 0 | Some c \<Rightarrow> ce_generation c)"

text \<open>The durable workflow of a task, where its evidence carries one.\<close>

definition durable_workflow :: "rehydration_cache \<Rightarrow> string \<Rightarrow> workflow_metadata option" where
  "durable_workflow cache t =
     (case js_get (rh_evidenceMap cache) t of None \<Rightarrow> None | Some (e, _) \<Rightarrow> te_workflow e)"

definition stronger_state :: "workflow_state \<Rightarrow> workflow_state option \<Rightarrow> workflow_state" where
  "stronger_state planState existing =
     (case existing of
        None \<Rightarrow> planState
      | Some st \<Rightarrow> if WORKFLOW_STATE_RANK planState > WORKFLOW_STATE_RANK st then planState else st)"

definition merged_state ::
  "rehydration_cache \<Rightarrow> string \<Rightarrow> workflow_state \<Rightarrow> workflow_state option \<times> int \<Rightarrow> workflow_state option \<times> int" where
  "merged_state cache t planState = (\<lambda>(st, generation).
     case durable_workflow cache t of
       Some w \<Rightarrow> (Some (wm_state w), wm_generation w)
     | None \<Rightarrow> if generation > 0 then (st, generation) else (Some (stronger_state planState st), generation))"

definition task_view :: "agent_session \<Rightarrow> string \<Rightarrow> workflow_state option \<times> int" where
  "task_view s t = (js_get (ss_taskWorkflowStates s) t, cached_generation s t)"

lemma apply_plan_view:
  "task_view (apply_plan_state k planState s) u =
     (if u = k then (case task_view s k of (st, generation) \<Rightarrow>
        if generation > 0 then (st, generation) else (Some (stronger_state planState st), generation))
      else task_view s u)"
  by (auto simp: task_view_def apply_plan_state_def cached_generation_def stronger_state_def compareTaskWorkflowStateRank_def
      js_map_simps split: option.splits)

lemma apply_evidence_view:
  "task_view (apply_evidence k w s) u = (if u = k then (Some (wm_state w), wm_generation w) else task_view s u)"
  by (simp add: task_view_def apply_evidence_def updateTaskWorkflowCache_def Let_def cached_generation_def js_map_simps option_or_def)

lemma apply_task_view:
  "task_view (apply_task cache (k, planState) s) u = (if u = k then merged_state cache k planState (task_view s k) else task_view s u)"
proof (cases "durable_workflow cache k")
  case None
  then have "apply_task cache (k, planState) s = apply_plan_state k planState s"
    by (auto simp: apply_task_def durable_workflow_def getTaskWorkflowSnapshot_def split: option.splits)
  then show ?thesis using None by (simp add: apply_plan_view merged_state_def)
next
  case (Some w)
  then have "apply_task cache (k, planState) s = apply_evidence k w s"
    by (auto simp: apply_task_def durable_workflow_def getTaskWorkflowSnapshot_def split: option.splits)
  then show ?thesis using Some by (cases "task_view s k") (simp add: apply_evidence_view merged_state_def)
qed

lemma apply_task_council: "ss_taskCouncilApproved (apply_task cache x s) = ss_taskCouncilApproved s"
  by (auto simp: apply_task_def apply_plan_state_def apply_evidence_def updateTaskWorkflowCache_def Let_def split: prod.splits option.splits)

lemma apply_council_fields:
  "ss_taskWorkflowStates (apply_council cache x s) = ss_taskWorkflowStates s"
  "ss_taskWorkflowCache (apply_council cache x s) = ss_taskWorkflowCache s"
  by (auto simp: apply_council_def split: prod.splits option.splits)

definition merged_approval ::
  "rehydration_cache \<Rightarrow> string \<Rightarrow> task_evidence \<times> council_gate option \<Rightarrow> council_approval option \<Rightarrow> council_approval option" where
  "merged_approval cache t = (\<lambda>(e, council) existing.
     if \<not> council_current cache t e council then None
     else case parse_verdict (cg_verdict (the council)) of
            None \<Rightarrow> existing
          | Some verdict \<Rightarrow> Some \<lparr>ca_verdict = verdict, ca_roundNumber = option_or (cg_roundNumber (the council)) 1,
              ca_quorumSize = Some (case cg_quorumSize (the council) of None \<Rightarrow> 1 | Some n \<Rightarrow> if n \<ge> 1 then n else 1)\<rparr>)"

lemma apply_council_view:
  "js_get (ss_taskCouncilApproved (apply_council cache (k, x) s)) u =
     (if u = k then merged_approval cache k x (js_get (ss_taskCouncilApproved s) k) else js_get (ss_taskCouncilApproved s) u)"
  by (auto simp: apply_council_def merged_approval_def js_map_simps split: prod.splits option.splits)

lemma rehydrated_view:
  assumes cache: "cacheOf key = Some cache" "key \<noteq> []"
    and keys: "distinct (js_keys (rh_planTaskStates cache))" "distinct (js_keys (rh_evidenceMap cache))"
  shows "task_view (applyRehydrationCache cacheOf (Some key) s) t =
      (case js_get (rh_planTaskStates cache) t of
         None \<Rightarrow> task_view s t | Some planState \<Rightarrow> merged_state cache t planState (task_view s t))"
    and "js_get (ss_taskCouncilApproved (applyRehydrationCache cacheOf (Some key) s)) t =
      (case js_get (rh_evidenceMap cache) t of
         None \<Rightarrow> js_get (ss_taskCouncilApproved s) t
       | Some x \<Rightarrow> merged_approval cache t x (js_get (ss_taskCouncilApproved s) t))"
proof -
  let ?s1 = "fold (apply_task cache) (rh_planTaskStates cache) s"
  have r: "applyRehydrationCache cacheOf (Some key) s = fold (apply_council cache) (rh_evidenceMap cache) ?s1"
    using cache by (simp add: applyRehydrationCache_def)
  have "ss_taskWorkflowStates (fold (apply_council cache) xs s') = ss_taskWorkflowStates s'"
    "ss_taskWorkflowCache (fold (apply_council cache) xs s') = ss_taskWorkflowCache s'" for xs s'
    by (induction xs arbitrary: s') (simp_all add: apply_council_fields)
  then have "task_view (fold (apply_council cache) xs s') t = task_view s' t" for xs s'
    by (simp add: task_view_def cached_generation_def)
  then show "task_view (applyRehydrationCache cacheOf (Some key) s) t =
      (case js_get (rh_planTaskStates cache) t of
         None \<Rightarrow> task_view s t | Some planState \<Rightarrow> merged_state cache t planState (task_view s t))"
    unfolding r using fold_keyed [OF keys(1), of task_view "apply_task cache" "merged_state cache"] by (simp add: apply_task_view)
  have "ss_taskCouncilApproved (fold (apply_task cache) xs s') = ss_taskCouncilApproved s'" for xs s'
    by (induction xs arbitrary: s') (simp_all add: apply_task_council)
  then show "js_get (ss_taskCouncilApproved (applyRehydrationCache cacheOf (Some key) s)) t =
      (case js_get (rh_evidenceMap cache) t of
         None \<Rightarrow> js_get (ss_taskCouncilApproved s) t
       | Some x \<Rightarrow> merged_approval cache t x (js_get (ss_taskCouncilApproved s) t))"
    unfolding r using fold_keyed [OF keys(2), of "\<lambda>s. js_get (ss_taskCouncilApproved s)" "apply_council cache" "merged_approval cache"]
    by (simp add: apply_council_view split: option.split)
qed

text \<open>Rehydration changes nothing but the workflow states, their cache and the council approvals.\<close>

lemma apply_task_frame:
  "ss_modifiedFilesByTask (apply_task cache x s) = ss_modifiedFilesByTask s"
  "ss_stageBRouteEvidence (apply_task cache x s) = ss_stageBRouteEvidence s"
  "ss_identities (apply_task cache x s) = ss_identities s"
  "ss_currentTaskId (apply_task cache x s) = ss_currentTaskId s"
  "ss_modifiedFilesThisCoderTask (apply_task cache x s) = ss_modifiedFilesThisCoderTask s"
  "ss_stageBCompletion (apply_task cache x s) = ss_stageBCompletion s"
  "ss_stageBRouteRequiredTasks (apply_task cache x s) = ss_stageBRouteRequiredTasks s"
  "distinct (js_keys (ss_taskWorkflowStates s)) \<Longrightarrow> distinct (js_keys (ss_taskWorkflowStates (apply_task cache x s)))"
  by (auto simp: apply_task_def apply_plan_state_def apply_evidence_def updateTaskWorkflowCache_def Let_def distinct_update
      split: prod.splits option.splits)

lemma apply_council_frame:
  "ss_modifiedFilesByTask (apply_council cache x s) = ss_modifiedFilesByTask s"
  "ss_stageBRouteEvidence (apply_council cache x s) = ss_stageBRouteEvidence s"
  "ss_identities (apply_council cache x s) = ss_identities s"
  "ss_currentTaskId (apply_council cache x s) = ss_currentTaskId s"
  "ss_modifiedFilesThisCoderTask (apply_council cache x s) = ss_modifiedFilesThisCoderTask s"
  "ss_stageBCompletion (apply_council cache x s) = ss_stageBCompletion s"
  "ss_stageBRouteRequiredTasks (apply_council cache x s) = ss_stageBRouteRequiredTasks s"
  by (auto simp: apply_council_def split: prod.splits option.splits)

definition rehydration_frame :: "agent_session \<Rightarrow> agent_session \<Rightarrow> bool" where
  "rehydration_frame s s1 =
     (ss_modifiedFilesByTask s1 = ss_modifiedFilesByTask s \<and> ss_stageBRouteEvidence s1 = ss_stageBRouteEvidence s \<and>
      ss_identities s1 = ss_identities s \<and> ss_currentTaskId s1 = ss_currentTaskId s \<and>
      ss_modifiedFilesThisCoderTask s1 = ss_modifiedFilesThisCoderTask s \<and> ss_stageBCompletion s1 = ss_stageBCompletion s \<and>
      ss_stageBRouteRequiredTasks s1 = ss_stageBRouteRequiredTasks s \<and>
      (distinct (js_keys (ss_taskWorkflowStates s)) \<longrightarrow> distinct (js_keys (ss_taskWorkflowStates s1))))"

lemma rehydration_framed: "rehydration_frame s (applyRehydrationCache cacheOf key s)"
proof -
  have tasks: "rehydration_frame s (fold (apply_task cache) xs s)" for cache xs
    by (induction xs arbitrary: s) (simp_all add: rehydration_frame_def apply_task_frame)
  have councils: "rehydration_frame s1 (fold (apply_council cache) xs s1)" for cache xs and s1 :: agent_session
    by (induction xs arbitrary: s1) (simp_all add: rehydration_frame_def apply_council_frame apply_council_fields)
  show ?thesis
  proof (cases "\<exists>k cache. applyRehydrationCache cacheOf key s =
      fold (apply_council cache) (rh_evidenceMap cache) (fold (apply_task cache) (rh_planTaskStates cache) s)")
    case True
    then show ?thesis using tasks councils unfolding rehydration_frame_def by metis
  next
    case False
    then have "applyRehydrationCache cacheOf key s = s"
      by (auto simp: applyRehydrationCache_def split: option.splits if_splits)
    then show ?thesis by (simp add: rehydration_frame_def)
  qed
qed

text \<open>A task is complete after rehydration because it was, or because its durable workflow, or without one the plan, says so.\<close>

definition says_complete :: "rehydration_cache \<Rightarrow> string \<Rightarrow> bool" where
  "says_complete cache t =
     (\<exists>planState. (t, planState) \<in> set (rh_planTaskStates cache) \<and>
        (case durable_workflow cache t of Some w \<Rightarrow> wm_state w = W_Complete | None \<Rightarrow> planState = W_Complete))"

lemma tasks_complete:
  assumes "js_get (ss_taskWorkflowStates (fold (apply_task cache) xs s)) t = Some W_Complete" "set xs \<subseteq> set (rh_planTaskStates cache)"
  shows "js_get (ss_taskWorkflowStates s) t = Some W_Complete \<or> says_complete cache t"
  using assms
proof (induction xs arbitrary: s)
  case (Cons x xs)
  obtain k planState where x: "x = (k, planState)" by fastforce
  have "js_get (ss_taskWorkflowStates (apply_task cache x s)) t = Some W_Complete \<or> says_complete cache t"
    using Cons by simp
  moreover have "js_get (ss_taskWorkflowStates s) t = Some W_Complete \<or> says_complete cache t"
    if "js_get (ss_taskWorkflowStates (apply_task cache x s)) t = Some W_Complete"
    using that Cons.prems(2) apply_task_view [of cache k planState s t]
    by (auto simp: x task_view_def merged_state_def stronger_state_def says_complete_def split: if_splits option.splits)
  ultimately show ?case by blast
qed simp

lemma rehydrated_complete:
  assumes "getTaskState (applyRehydrationCache (\<lambda>_. found) key s) t = W_Complete"
  shows "getTaskState s t = W_Complete \<or> (\<exists>cache. found = Some cache \<and> says_complete cache t)"
proof -
  have c: "ss_taskWorkflowStates (fold (apply_council cache) xs s1) = ss_taskWorkflowStates s1" for cache xs and s1 :: agent_session
    by (induction xs arbitrary: s1) (simp_all add: apply_council_fields)
  have st: "getTaskState s1 t = W_Complete \<longleftrightarrow> isValidTaskId t \<and> js_get (ss_taskWorkflowStates s1) t = Some W_Complete" for s1
    by (auto simp: getTaskState_def js_get_or_def split: option.split)
  show ?thesis
    using assms tasks_complete [where xs = "rh_planTaskStates (the found)" and cache = "the found" and s = s and t = t]
    unfolding st by (auto simp: applyRehydrationCache_def c split: option.splits if_splits)
qed

section \<open>Restarts and the writers outside the session\<close>

lemma restart_files:
  assumes "files_ok (ss_modifiedFilesByTask s)"
  shows "ss_modifiedFilesByTask (restart_session cacheOf key s) = object_entries (ss_modifiedFilesByTask s)"
proof -
  have "ss_modifiedFilesByTask (rehydrate_session key (serializeAgentSession s)) = object_entries (ss_modifiedFilesByTask s)"
    unfolding rehydrate_session_def deserializeAgentSession_def serializeAgentSession_def serialize_files_def Let_def
    using assms by (simp, intro deserialize_files) (auto simp: files_ok_def object_entries_facts)
  then show ?thesis
    using rehydration_framed [of "rehydrate_session key (serializeAgentSession s)" cacheOf None]
    by (simp add: rehydration_frame_def restart_session_def)
qed

lemma files_ok_entries: "files_ok m \<Longrightarrow> files_ok (object_entries m)"
  by (simp add: files_ok_def object_entries_facts)

lemma rehydrate_fields:
  "ss_taskWorkflowStates (rehydrate_session key sn) = []" "ss_taskWorkflowCache (rehydrate_session key sn) = []"
  "ss_stageBRouteEvidence (rehydrate_session key sn) = []" "ss_stageBCompletion (rehydrate_session key sn) = []"
  "ss_taskCouncilApproved (rehydrate_session key sn) = []" "ss_owningProjectKey (rehydrate_session key sn) = Some key"
  "ss_currentTaskId (rehydrate_session key sn) = sn_currentTaskId sn"
  by (simp_all add: rehydrate_session_def deserializeAgentSession_def Let_def)

lemma restart_fields:
  "ss_stageBRouteEvidence (restart_session cacheOf key s) = []"
  "distinct (js_keys (ss_taskWorkflowStates (restart_session cacheOf key s)))"
  using rehydration_framed [of "rehydrate_session key (serializeAgentSession s)" cacheOf None]
  by (simp_all add: rehydration_frame_def restart_session_def rehydrate_fields)

lemma outside_frame [simp]:
  "ss_modifiedFilesByTask (copy_durable_view b c t w s) = ss_modifiedFilesByTask s"
  "ss_stageBRouteEvidence (copy_durable_view b c t w s) = ss_stageBRouteEvidence s"
  "ss_identities (copy_durable_view b c t w s) = ss_identities s"
  "ss_taskWorkflowStates (copy_durable_view b c t w s) = js_set t (wm_state w) (ss_taskWorkflowStates s)"
  "ss_modifiedFilesByTask (write_fallback b c t st ov s) = ss_modifiedFilesByTask s"
  "ss_stageBRouteEvidence (write_fallback b c t st ov s) = ss_stageBRouteEvidence s"
  "ss_identities (write_fallback b c t st ov s) = ss_identities s"
  "ss_taskWorkflowStates (write_fallback b c t st ov s) = js_set t (fallback_workflow st) (ss_taskWorkflowStates s)"
  "ss_modifiedFilesByTask (invalidateTaskEvidenceSessionFallbacks t s) = ss_modifiedFilesByTask s"
  "ss_stageBRouteEvidence (invalidateTaskEvidenceSessionFallbacks t s) = ss_stageBRouteEvidence s"
  "ss_identities (invalidateTaskEvidenceSessionFallbacks t s) = ss_identities s"
  "ss_taskWorkflowStates (invalidateTaskEvidenceSessionFallbacks t s) = js_delete t (ss_taskWorkflowStates s)"
  by (simp_all add: copy_durable_view_def apply_evidence_def drop_barriers_def write_fallback_def updateTaskWorkflowCache_def
      invalidateTaskEvidenceSessionFallbacks_def Let_def split: option.split)

section \<open>Runs\<close>

fun session_inv :: "session_run \<Rightarrow> bool" where
  "session_inv (s, issued) =
     (files_ok (ss_modifiedFilesByTask s) \<and> distinct (js_keys (ss_taskWorkflowStates s)) \<and> routes_ok s \<and>
      list_all (restorable (ss_identities s)) issued)"

lemma restorable_mono: "restorable n r \<Longrightarrow> n \<le> m \<Longrightarrow> restorable m r"
  by (cases "(n, r)" rule: restorable.cases) auto

lemma restorable_all_mono: "list_all (restorable n) rs \<Longrightarrow> n \<le> m \<Longrightarrow> list_all (restorable m) rs"
  by (auto simp: list_all_iff intro: restorable_mono)

lemma routes_ok_cong: "ss_stageBRouteEvidence s1 = ss_stageBRouteEvidence s \<Longrightarrow> ss_identities s1 = ss_identities s \<Longrightarrow> routes_ok s1 = routes_ok s"
  by (simp add: routes_ok_def)

lemma change_inv:
  assumes "attribution_change t s s1" "session_inv (s, issued)"
  shows "session_inv (s1, issued)"
  using assms change_fields(1-3,5) [OF assms(1)] routes_ok_cong [of s1 s] by simp

lemma advanced_inv: "session_inv (s, issued) \<Longrightarrow> session_inv (advanced nowIso t st s, issued)"
  using routes_ok_cong [of "advanced nowIso t st s" s] by (simp add: distinct_update)

lemma released_inv: "session_inv (s, issued) \<Longrightarrow> session_inv (release_completed epicOpen t s, issued)"
  using set_js_delete [of t "ss_stageBRouteEvidence s"]
  by (auto simp: routes_ok_def released_simps)

lemma session_step_inv:
  assumes c: "canonical_ok canonical" and inv: "session_inv x"
  shows "session_inv (session_step epicOpen canonical operation x)"
proof -
  obtain s issued where x: "x = (s, issued)" by fastforce
  note inv' = inv [unfolded x]
  show ?thesis
  proof (cases operation)
    case (Op_Advance t st config nowIso)
    then show ?thesis
      using inv' released_inv [OF advanced_inv [OF inv']] advanced_inv [OF inv'] x
      by (simp add: session_step_def advance_cases)
  next
    case (Op_Record_Files t files w)
    obtain b s1 where "recordModifiedFilesForTask canonical t files w s = (b, s1)" by fastforce
    with change_inv [OF record_files_spec(1) [OF c this] inv'] Op_Record_Files x show ?thesis by (simp add: session_step_def)
  next
    case (Op_Record_File t f w)
    obtain b s1 where "recordModifiedFileForTask canonical t f w s = (b, s1)" by fastforce
    with change_inv [OF record_file_change(1) [OF c this] inv'] Op_Record_File x show ?thesis by (simp add: session_step_def)
  next
    case (Op_Reset_Files t remove)
    then show ?thesis using change_inv [OF reset_change inv'] x by (simp add: session_step_def)
  next
    case (Op_Reserve t e)
    obtain r s1 where r: "reserveStageBRouteEvidence t e s = (r, s1)" by fastforce
    show ?thesis
      using reserve_ok [OF r] inv' restorable_all_mono [of "ss_identities s" issued "ss_identities s1"] Op_Reserve x r
      by (cases r) (simp_all add: session_step_def)
  next
    case (Op_Rollback i)
    then show ?thesis
      using inv' x rollback_ok [of s "issued ! i"] by (simp add: session_step_def list_all_length)
  next
    case (Op_Rehydrate cache key)
    then show ?thesis
      using inv' x rehydration_framed [of s "\<lambda>_. cache" key] routes_ok_cong [of "applyRehydrationCache (\<lambda>_. cache) key s" s]
      by (simp add: session_step_def rehydration_frame_def)
  next
    case (Op_Restart cache key)
    then show ?thesis
      using inv' x restart_fields [of "\<lambda>_. cache" key s] by (simp add: session_step_def restart_files files_ok_entries routes_ok_def)
  qed (use inv' x in \<open>simp_all add: session_step_def session_defs routes_ok_def distinct_update distinct_delete\<close>)
qed

interpretation session_run: invariant_machine "session_step epicOpen (canonicalAttributionPath rt resolve_at)" session_inv
  for epicOpen rt resolve_at
  by unfold_locales (rule session_step_inv [OF canonicalAttributionPath_ok])

lemma new_session_inv: "session_inv (new_session owner, [])"
  by (simp add: new_session_def files_ok_def routes_ok_def MAX_TRACKED_TASK_FILE_ATTRIBUTIONS_def)

lemma session_reachable_inv: "session_inv (fold (session_step epicOpen (canonicalAttributionPath rt resolve_at)) ops (new_session owner, []))"
  by (rule session_run.inv_run [OF new_session_inv])

text \<open>What an operation does to the state of a task.\<close>

lemma step_state:
  assumes c: "canonical_ok canonical" and inv: "session_inv (s, issued)"
  shows "getTaskState (fst (session_step epicOpen canonical operation (s, issued))) t =
    (case operation of
       Op_Advance u st config _ \<Rightarrow> if u = t \<and> canAdvanceTaskState config t st s then st else getTaskState s t
     | Op_View u w _ _ \<Rightarrow> if u = t \<and> isValidTaskId t then wm_state w else getTaskState s t
     | Op_Fallback u st _ _ _ \<Rightarrow> if u = t \<and> isValidTaskId t then fallback_workflow st else getTaskState s t
     | Op_Forget u \<Rightarrow> if u = t then W_Idle else getTaskState s t
     | Op_Rehydrate cache key \<Rightarrow> getTaskState (applyRehydrationCache (\<lambda>_. cache) key s) t
     | Op_Restart cache key \<Rightarrow> getTaskState (restart_session (\<lambda>_. cache) key s) t
     | _ \<Rightarrow> getTaskState s t)"
proof -
  have same: "getTaskState s1 t = getTaskState s t" if "ss_taskWorkflowStates s1 = ss_taskWorkflowStates s" for s1
    using that by (simp add: getTaskState_def)
  show ?thesis
  proof (cases operation)
    case (Op_Advance u st config nowIso)
    have valid: "isValidTaskId u" if "canAdvanceTaskState config u st s" using that by (simp add: can_advance_iff)
    have "getTaskState s1 t = (if u = t then st else getTaskState s t)"
      if "isValidTaskId u" "ss_taskWorkflowStates s1 = js_set u st (ss_taskWorkflowStates s)" for s1
      using that by (auto simp: getTaskState_def js_map_simps)
    then show ?thesis
      using Op_Advance valid by (auto simp: session_step_def advance_cases released_simps)
  next
    case (Op_Record_Files u files w)
    obtain b s1 where "recordModifiedFilesForTask canonical u files w s = (b, s1)" by fastforce
    with same [OF change_fields(1) [OF record_files_spec(1) [OF c this]]] Op_Record_Files show ?thesis by (simp add: session_step_def)
  next
    case (Op_Record_File u f w)
    obtain b s1 where "recordModifiedFileForTask canonical u f w s = (b, s1)" by fastforce
    with same [OF change_fields(1) [OF record_file_change(1) [OF c this]]] Op_Record_File show ?thesis by (simp add: session_step_def)
  next
    case (Op_Reset_Files u remove)
    then show ?thesis using same [OF change_fields(1) [OF reset_change]] by (simp add: session_step_def)
  next
    case (Op_Reserve u e)
    obtain r s1 where r: "reserveStageBRouteEvidence u e s = (r, s1)" by fastforce
    with reserve_ok [OF r] inv same [of s1] Op_Reserve show ?thesis by (cases r) (simp_all add: session_step_def)
  next
    case (Op_Rollback i)
    then show ?thesis
      using rollback_ok [of s "issued ! i"] inv same [of "rollback_reservation (issued ! i) s"]
      by (simp add: session_step_def list_all_length)
  qed (simp_all add: session_step_def session_defs getTaskState_def js_get_or_def js_map_simps)
qed

section \<open>Properties\<close>

definition state_after ::
  "(string \<Rightarrow> bool) \<Rightarrow> (string \<Rightarrow> string option \<Rightarrow> string option) \<Rightarrow> session_op list \<Rightarrow> string option \<Rightarrow> agent_session" where
  "state_after epicOpen canonical ops owner = fst (fold (session_step epicOpen canonical) ops (new_session owner, []))"

lemma state_after_snoc:
  "state_after epicOpen canonical (ops @ [operation]) owner =
     fst (session_step epicOpen canonical operation
       (state_after epicOpen canonical ops owner, snd (fold (session_step epicOpen canonical) ops (new_session owner, []))))"
  by (simp add: state_after_def)

lemma state_after_inv:
  "session_inv (state_after epicOpen (canonicalAttributionPath rt resolve_at) ops owner,
     snd (fold (session_step epicOpen (canonicalAttributionPath rt resolve_at)) ops (new_session owner, [])))"
  using session_reachable_inv [of epicOpen rt resolve_at ops owner] by (simp add: state_after_def)

text \<open>How a task gets complete.\<close>

definition completes :: "string \<Rightarrow> agent_session \<Rightarrow> session_op \<Rightarrow> bool" where
  "completes t s operation =
     ((\<exists>config nowIso. operation = Op_Advance t W_Complete config nowIso \<and>
         (getTaskState s t = W_Tests_Run \<or>
          council_approved s t config \<and> getTaskState s t \<in> {W_Pre_Check_Passed, W_Reviewer_Run})) \<or>
      (\<exists>w stageB council. operation = Op_View t w stageB council \<and> wm_state w = W_Complete) \<or>
      (\<exists>cache key. operation = Op_Rehydrate (Some cache) key \<and> says_complete cache t) \<or>
      (\<exists>cache key. operation = Op_Restart (Some cache) key \<and> says_complete cache t))"

lemma restart_complete:
  "getTaskState (restart_session (\<lambda>_. found) key s) t = W_Complete \<Longrightarrow> \<exists>cache. found = Some cache \<and> says_complete cache t"
  using rehydrated_complete [of found None "rehydrate_session key (serializeAgentSession s)" t]
  by (auto simp: restart_session_def getTaskState_def rehydrate_fields js_get_or_def split: if_splits)

lemma step_completes:
  assumes "canonical_ok canonical" "session_inv (s, issued)"
    and "getTaskState (fst (session_step epicOpen canonical operation (s, issued))) t = W_Complete" "getTaskState s t \<noteq> W_Complete"
  shows "completes t s operation"
  using assms(3) unfolding step_state [OF assms(1,2)]
proof (cases operation)
  case (Op_Rehydrate found key)
  then show ?thesis
    using assms(3,4) rehydrated_complete [of found key s t] unfolding step_state [OF assms(1,2)] by (auto simp: completes_def)
next
  case (Op_Restart found key)
  then show ?thesis
    using assms(3) restart_complete [of found key s t] unfolding step_state [OF assms(1,2)] by (auto simp: completes_def)
next
  case (Op_Fallback u st ov b c)
  then show ?thesis
    using assms(3,4) unfolding step_state [OF assms(1,2)] by (cases st) (auto split: if_splits)
qed (use assms(3,4) step_state [OF assms(1,2)] in \<open>auto simp: completes_def can_advance_iff split: if_splits\<close>)

text \<open>The operations of the session itself, as far as one task is concerned: not the writers outside, a rehydration or a restart.\<close>

fun own_step :: "string \<Rightarrow> session_op \<Rightarrow> bool" where
  "own_step t (Op_View u _ _ _) = (u \<noteq> t)"
| "own_step t (Op_Fallback u _ _ _ _) = (u \<noteq> t)"
| "own_step t (Op_Forget u) = (u \<noteq> t)"
| "own_step t (Op_Rehydrate _ _) = False"
| "own_step t (Op_Restart _ _) = False"
| "own_step t _ = True"

lemma own_step_forward:
  assumes "canonical_ok canonical" "session_inv (s, issued)" "own_step t operation"
  shows "state_index (getTaskState s t) \<le> state_index (getTaskState (fst (session_step epicOpen canonical operation (s, issued))) t)"
  using assms(3) unfolding step_state [OF assms(1,2)] by (cases operation) (auto simp: can_advance_iff)

lemma own_steps_forward:
  fixes epicOpen :: "string \<Rightarrow> bool" and owner :: "string option" and rt :: runtime and resolve_at :: "string \<Rightarrow> string \<Rightarrow> string"
  defines "after \<equiv> \<lambda>ops. state_after epicOpen (canonicalAttributionPath rt resolve_at) ops owner"
  assumes "list_all (own_step t) later"
  shows "state_index (getTaskState (after ops) t) \<le> state_index (getTaskState (after (ops @ later)) t)"
  using assms(2)
proof (induction later rule: rev_induct)
  case Nil
  then show ?case by simp
next
  case (snoc operation later)
  have "state_index (getTaskState (after (ops @ later)) t) \<le> state_index (getTaskState (after ((ops @ later) @ [operation])) t)"
    unfolding after_def state_after_snoc
    by (rule own_step_forward [OF canonicalAttributionPath_ok state_after_inv]) (use snoc.prems in simp)
  then show ?case using snoc by simp
qed

lemma completed_by:
  fixes epicOpen :: "string \<Rightarrow> bool" and owner :: "string option" and rt :: runtime and resolve_at :: "string \<Rightarrow> string \<Rightarrow> string"
  defines "after \<equiv> \<lambda>ops. state_after epicOpen (canonicalAttributionPath rt resolve_at) ops owner"
  assumes "getTaskState (after ops) t = W_Complete"
  shows "\<exists>before operation later. ops = before @ operation # later \<and> completes t (after before) operation \<and>
    (\<forall>n. getTaskState (after (before @ operation # take n later)) t = W_Complete)"
  using assms(2)
proof (induction ops rule: rev_induct)
  case Nil
  then show ?case by (simp add: after_def state_after_def new_session_def getTaskState_def js_get_or_def split: if_splits)
next
  case (snoc operation ops)
  show ?case
  proof (cases "getTaskState (after ops) t = W_Complete")
    case True
    then obtain before op' later where b: "ops = before @ op' # later" "completes t (after before) op'"
      "\<forall>n. getTaskState (after (before @ op' # take n later)) t = W_Complete"
      using snoc.IH by blast
    have "getTaskState (after (before @ op' # take n (later @ [operation]))) t = W_Complete" for n
      using b snoc.prems by (cases "n \<le> length later") auto
    then show ?thesis using b(1,2) by (intro exI [of _ before] exI [of _ op'] exI [of _ "later @ [operation]"]) simp
  next
    case False
    have "completes t (after ops) operation"
      using step_completes [OF canonicalAttributionPath_ok state_after_inv] snoc.prems False
      unfolding after_def state_after_snoc by blast
    then show ?thesis using snoc.prems by (intro exI [of _ ops] exI [of _ operation] exI [of _ "[]"]) simp
  qed
qed

text \<open>C24: A task's progress in memory is earned or read off the durable records.  Take any run of a session, with the writers
  outside it, rehydrations and restarts anywhere in between.  If a task is complete, then one operation completed
  it and it stayed complete ever since; and that operation is an advance that found the task with its tests run, or after its
  pre-check and before its tests with an approval of the council by the quorum asked for; or the copy of a
  durable workflow that is complete; or a rehydration or restart whose cache says so, that is by the durable workflow of the
  task or, only where it has none, by a plan that marks it completed.  And as long as none of
  the outside writers touches the task and nothing is rehydrated, its state never moves back in the order.\<close>

theorem task_progress_is_earned:
  assumes after: "after = (\<lambda>ops. state_after epicOpen (canonicalAttributionPath rt resolve_at) ops owner)"
    and complete: "getTaskState (after ops) t = W_Complete"
  shows "(\<exists>before operation later. ops = before @ operation # later \<and>
      (\<forall>n. getTaskState (after (before @ operation # take n later)) t = W_Complete) \<and>
      (case operation of
         Op_Advance u st config nowIso \<Rightarrow> u = t \<and> st = W_Complete \<and>
           (getTaskState (after before) t = W_Tests_Run \<or>
            council_approved (after before) t config \<and> getTaskState (after before) t \<in> {W_Pre_Check_Passed, W_Reviewer_Run})
       | Op_View u w stageB council \<Rightarrow> u = t \<and> wm_state w = W_Complete
       | Op_Rehydrate (Some cache) key \<Rightarrow> says_complete cache t
       | Op_Restart (Some cache) key \<Rightarrow> says_complete cache t
       | _ \<Rightarrow> False)) \<and>
    (\<forall>earlier later. list_all (own_step t) later \<longrightarrow>
       state_index (getTaskState (after earlier) t) \<le> state_index (getTaskState (after (earlier @ later)) t))"
proof
  obtain before operation later where b: "ops = before @ operation # later" "completes t (after before) operation"
    "\<forall>n. getTaskState (after (before @ operation # take n later)) t = W_Complete"
    using completed_by complete unfolding after by blast
  then show "\<exists>before operation later. ops = before @ operation # later \<and>
      (\<forall>n. getTaskState (after (before @ operation # take n later)) t = W_Complete) \<and>
      (case operation of
         Op_Advance u st config nowIso \<Rightarrow> u = t \<and> st = W_Complete \<and>
           (getTaskState (after before) t = W_Tests_Run \<or>
            council_approved (after before) t config \<and> getTaskState (after before) t \<in> {W_Pre_Check_Passed, W_Reviewer_Run})
       | Op_View u w stageB council \<Rightarrow> u = t \<and> wm_state w = W_Complete
       | Op_Rehydrate (Some cache) key \<Rightarrow> says_complete cache t
       | Op_Restart (Some cache) key \<Rightarrow> says_complete cache t
       | _ \<Rightarrow> False)"
    by (intro exI conjI) (assumption, assumption, auto simp: completes_def)
  show "\<forall>earlier later. list_all (own_step t) later \<longrightarrow>
      state_index (getTaskState (after earlier) t) \<le> state_index (getTaskState (after (earlier @ later)) t)"
    unfolding after using own_steps_forward by blast
qed

fun files_task :: "session_op \<Rightarrow> string option" where
  "files_task (Op_Record_Files t _ _) = Some t"
| "files_task (Op_Record_File t _ _) = Some t"
| "files_task (Op_Reset_Files t _) = Some t"
| "files_task (Op_Advance t st _ _) = (if st = W_Complete then Some t else None)"
| "files_task _ = None"

lemma step_files:
  assumes c: "canonical_ok canonical" and inv: "session_inv (s, issued)"
    and u: "files_task operation \<noteq> Some u" "js_get (ss_taskWorkflowStates s) u \<noteq> Some W_Complete"
  shows "js_get (ss_modifiedFilesByTask (fst (session_step epicOpen canonical operation (s, issued)))) u =
    js_get (ss_modifiedFilesByTask s) u"
proof (cases operation)
  case (Op_Advance t st config nowIso)
  have "js_get (ss_modifiedFilesByTask (release_completed epicOpen t (advanced nowIso t st s))) u = js_get (ss_modifiedFilesByTask s) u"
    if "st = W_Complete"
    using released_simps(5) [of u t "advanced nowIso t st s"] that u Op_Advance by (simp add: js_map_simps)
  then show ?thesis using Op_Advance by (simp add: session_step_def advance_cases)
next
  case (Op_Record_Files t files w)
  obtain b s1 where "recordModifiedFilesForTask canonical t files w s = (b, s1)" by fastforce
  with change_fields(6) [OF record_files_spec(1) [OF c this]] Op_Record_Files u show ?thesis by (simp add: session_step_def)
next
  case (Op_Record_File t f w)
  obtain b s1 where "recordModifiedFileForTask canonical t f w s = (b, s1)" by fastforce
  with change_fields(6) [OF record_file_change(1) [OF c this]] Op_Record_File u show ?thesis by (simp add: session_step_def)
next
  case (Op_Reset_Files t remove)
  then show ?thesis using change_fields(6) [OF reset_change] u by (simp add: session_step_def)
next
  case (Op_Reserve t e)
  obtain r s1 where r: "reserveStageBRouteEvidence t e s = (r, s1)" by fastforce
  with reserve_ok [OF r] inv Op_Reserve show ?thesis by (cases r) (simp_all add: session_step_def)
next
  case (Op_Rollback i)
  then show ?thesis using rollback_ok [of s "issued ! i"] inv by (simp add: session_step_def list_all_length)
next
  case (Op_Rehydrate cache key)
  then show ?thesis using rehydration_framed [of s "\<lambda>_. cache" key] by (simp add: session_step_def rehydration_frame_def)
next
  case (Op_Restart cache key)
  then show ?thesis using inv by (simp add: session_step_def restart_files object_entries_get files_ok_def)
qed (simp_all add: session_step_def session_defs)

text \<open>C25: What is attributed to a live task is never lost to make room.  In any run of a new session at most 128 tasks have a slot;
  an operation on another task leaves the slot of a task that is not complete as it is; and writing a task's files either
  stores exactly the canonical ones, or is refused and changes nothing, because all slots are taken by live tasks.\<close>

theorem live_attribution_kept:
  fixes epicOpen :: "string \<Rightarrow> bool" and rt :: runtime and resolve_at :: "string \<Rightarrow> string \<Rightarrow> string"
  defines "canonical \<equiv> canonicalAttributionPath rt resolve_at"
  assumes run: "fold (session_step epicOpen canonical) ops (new_session owner, []) = (s, issued)"
  shows "length (ss_modifiedFilesByTask s) \<le> 128 \<and>
    (\<forall>operation u. files_task operation \<noteq> Some u \<longrightarrow> js_get (ss_taskWorkflowStates s) u \<noteq> Some W_Complete \<longrightarrow>
       js_get (ss_modifiedFilesByTask (fst (session_step epicOpen canonical operation (s, issued)))) u =
       js_get (ss_modifiedFilesByTask s) u) \<and>
    (case recordModifiedFilesForTask canonical t files w s of
       (True, s1) \<Rightarrow> getModifiedFilesForTask s1 t = js_uniq (List.map_filter (\<lambda>file. canonical file w) files)
     | (False, s1) \<Rightarrow> s1 = s \<and> (isValidTaskId t \<longrightarrow>
         length (ss_modifiedFilesByTask s) = 128 \<and>
         (\<forall>u\<in>set (js_keys (ss_modifiedFilesByTask s)). js_get (ss_taskWorkflowStates s) u \<noteq> Some W_Complete)))"
proof -
  have inv: "session_inv (s, issued)"
    using session_reachable_inv [of epicOpen rt resolve_at ops owner] run by (simp add: canonical_def)
  note c = canonicalAttributionPath_ok [of rt resolve_at, folded canonical_def]
  obtain b s1 where r: "recordModifiedFilesForTask canonical t files w s = (b, s1)" by fastforce
  note spec = record_files_spec [OF c r]
  have full: "length (ss_modifiedFilesByTask s) = 128 \<and>
      (\<forall>u\<in>set (js_keys (ss_modifiedFilesByTask s)). js_get (ss_taskWorkflowStates s) u \<noteq> Some W_Complete)"
    if "\<not> b" "isValidTaskId t"
    using record_refused [OF r that] inv by (simp add: MAX_TRACKED_TASK_FILE_ATTRIBUTIONS_def)
  show ?thesis
    using inv spec(2,3) full step_files [OF c inv] r
    by (cases b) (auto simp: files_ok_def MAX_TRACKED_TASK_FILE_ATTRIBUTIONS_def getModifiedFilesForTask_def js_get_or_def)
qed

section \<open>Taking a reservation back\<close>

lemma find_index_fresh:
  "\<forall>(k, _)\<in>set xs. k \<noteq> n \<Longrightarrow> find_index (\<lambda>(k, _). k = n) (xs @ (n, e) # ys) = Some (length xs)"
  by (induction xs) auto

lemma find_index_update:
  assumes "\<forall>(k, _)\<in>set xs. k \<noteq> n" "i < length xs"
  shows "find_index (\<lambda>(k, _). k = n) (xs[i := (n, e)]) = Some i"
  using find_index_fresh [of "take i xs" n e "drop (Suc i) xs"] assms
  by (auto simp: upd_conv_take_nth_drop dest!: in_set_takeD)

lemma route_evidence_set:
  "getStageBRouteEvidence (set_slots t slots s) u = (if u = t then map snd (rs_entries slots) else getStageBRouteEvidence s u)"
  by (simp add: getStageBRouteEvidence_def)

lemma route_evidence_of: "getStageBRouteEvidence s t = map snd (rs_entries (route_slots_of s t))"
  by (simp add: getStageBRouteEvidence_def route_slots_of_def split: option.splits)

lemma route_evidence_clear:
  "getStageBRouteEvidence (clearStageBRouteEvidence t s) u = (if u = t then [] else getStageBRouteEvidence s u)"
  by (simp add: getStageBRouteEvidence_def clearStageBRouteEvidence_def js_map_simps)

text \<open>The evidence after a reservation, and after its rollback with nothing in between.\<close>

lemma reserved_evidence:
  assumes ok: "routes_ok s" and r: "reserveStageBRouteEvidence t e s = (Some r, s1)"
  shows "getStageBRouteEvidence s1 u =
    (if u = t
     then (case find_index (same_slot e) (getStageBRouteEvidence s t) of
             Some i \<Rightarrow> (getStageBRouteEvidence s t)[i := e] | None \<Rightarrow> getStageBRouteEvidence s t @ [e])
     else getStageBRouteEvidence s u)"
    and "getStageBRouteEvidence (rollback_reservation r s1) u = getStageBRouteEvidence s u"
proof -
  let ?slots = "route_slots_of s t" and ?k = "Suc (ss_identities s)"
  have ev: "getStageBRouteEvidence s t = map snd (rs_entries ?slots)" by (rule route_evidence_of)
  have find: "find_index (same_slot e) (map snd xs) = find_index (\<lambda>(_, entry). same_slot e entry) xs" for xs :: "(nat \<times> route_evidence) list"
    by (induction xs) auto
  have fresh: "\<forall>(k, _)\<in>set (rs_entries ?slots). k \<noteq> ?k"
    using routes_ok_of [OF ok, of t] by (auto simp: route_ok_def)
  have other: "getStageBRouteEvidence (s\<lparr>ss_identities := n\<rparr>) u = getStageBRouteEvidence s u" for n u
    by (simp add: getStageBRouteEvidence_def)
  have both: "(getStageBRouteEvidence s1 u =
    (if u = t
     then (case find_index (same_slot e) (getStageBRouteEvidence s t) of
             Some i \<Rightarrow> (getStageBRouteEvidence s t)[i := e] | None \<Rightarrow> getStageBRouteEvidence s t @ [e])
     else getStageBRouteEvidence s u)) \<and> getStageBRouteEvidence (rollback_reservation r s1) u = getStageBRouteEvidence s u" for u
    using r
  proof (cases rule: reserve_cases)
    case refused
    then show ?thesis by simp
  next
    case (replaced i)
    have i: "i < length (rs_entries ?slots)" using find_index_Some [OF replaced(1)] by simp
    show ?thesis
      using replaced find_index_update [OF fresh i, of e] i
      by (auto simp: rollback_reservation_def route_evidence_set other ev find map_update list_update_same_conv)
  next
    case appended
    have tail: "take (length (rs_entries ?slots)) (rs_entries ?slots @ [(?k, e)]) @ drop (Suc (length (rs_entries ?slots))) (rs_entries ?slots @ [(?k, e)]) = rs_entries ?slots"
      by simp
    show ?thesis
      using appended find_index_fresh [OF fresh, of e "[]"]
      by (auto simp: rollback_reservation_def Let_def route_evidence_set route_evidence_clear other ev find tail)
  qed
  show "getStageBRouteEvidence s1 u =
    (if u = t
     then (case find_index (same_slot e) (getStageBRouteEvidence s t) of
             Some i \<Rightarrow> (getStageBRouteEvidence s t)[i := e] | None \<Rightarrow> getStageBRouteEvidence s t @ [e])
     else getStageBRouteEvidence s u)"
    and "getStageBRouteEvidence (rollback_reservation r s1) u = getStageBRouteEvidence s u"
    using both by blast+
qed

lemma same_slot_trans: "same_slot e2 e1 \<Longrightarrow> same_slot e2 x = same_slot e1 x"
  by (auto simp: same_slot_def)

lemma same_slot_refl [simp]: "same_slot e e"
  by (cases "dispatchIdentity e") (simp_all add: same_slot_def)

definition token_of :: "route_reservation \<Rightarrow> nat" where
  "token_of r = (case r of Replaced_Slot _ _ k _ \<Rightarrow> k | Appended_Slot _ _ k \<Rightarrow> k)"

text \<open>Where the reserved entry is, under its token.\<close>

lemma reserved_slot:
  assumes ok: "routes_ok s" and r: "reserveStageBRouteEvidence t e s = (Some r, s1)"
  obtains slots i where "js_get (ss_stageBRouteEvidence s1) t = Some slots" "i < length (rs_entries slots)"
    "rs_entries slots ! i = (token_of r, e)" "find_index (\<lambda>(_, entry). same_slot e entry) (rs_entries slots) = Some i"
    "\<And>j. j < length (rs_entries slots) \<Longrightarrow> j \<noteq> i \<Longrightarrow> fst (rs_entries slots ! j) < token_of r"
    "token_of r < ss_identities s1"
proof -
  let ?slots = "route_slots_of s t" and ?k = "Suc (ss_identities s)"
  have old: "fst (rs_entries ?slots ! j) < ?k" if "j < length (rs_entries ?slots)" for j
    using routes_ok_of [OF ok, of t] nth_mem [OF that] by (fastforce simp: route_ok_def)
  have find: "find_index (\<lambda>(_, entry). same_slot e entry) xs = Some i"
    if "i < length xs" "snd (xs ! i) = e" "\<forall>j<i. \<not> same_slot e (snd (xs ! j))" for xs :: "(nat \<times> route_evidence) list" and i
    using that
  proof (induction xs arbitrary: i)
    case Nil
    then show ?case by simp
  next
    case (Cons x xs)
    then show ?case by (cases i) (force simp: case_prod_beta)+
  qed
  from r show thesis
  proof (cases rule: reserve_cases)
    case refused
    then show thesis by simp
  next
    case (replaced i)
    note i = find_index_Some [OF replaced(1)]
    let ?xs = "(rs_entries ?slots)[i := (?k, e)]"
    have "find_index (\<lambda>(_, entry). same_slot e entry) ?xs = Some i"
      by (rule find) (use i in \<open>auto simp: case_prod_beta\<close>)
    then show thesis
      using replaced i old that [of "?slots\<lparr>rs_entries := ?xs\<rparr>" i] by (simp add: token_of_def)
  next
    case appended
    let ?xs = "rs_entries ?slots @ [(?k, e)]" and ?n = "length (rs_entries ?slots)"
    have "find_index (\<lambda>(_, entry). same_slot e entry) ?xs = Some ?n"
      by (rule find) (use appended(1) in \<open>auto simp: find_index_None nth_append case_prod_beta\<close>)
    then show thesis
      using appended old that [of "?slots\<lparr>rs_entries := ?xs\<rparr>" ?n] by (auto simp: token_of_def nth_append)
  qed
qed

lemma rollback_gone:
  assumes "js_get (ss_stageBRouteEvidence s) t = Some slots" "\<forall>(k, _)\<in>set (rs_entries slots). k \<noteq> token_of r"
    and "\<exists>a p. r = Replaced_Slot t a (token_of r) p \<or> r = Appended_Slot t a (token_of r)"
  shows "rollback_reservation r s = s"
proof -
  have "find_index (\<lambda>(k, _). k = token_of r) (rs_entries slots) = None"
    using assms(2) by (auto simp: find_index_None)
  with assms(1,3) show ?thesis by (cases r) (auto simp: rollback_reservation_def token_of_def)
qed

lemma rollback_cong:
  assumes "\<And>u. js_get (ss_stageBRouteEvidence s) u = js_get (ss_stageBRouteEvidence s') u"
  shows "getStageBRouteEvidence (rollback_reservation r s) u = getStageBRouteEvidence (rollback_reservation r s') u"
  using assms
  by (cases r) (auto simp: rollback_reservation_def route_evidence_set route_evidence_clear Let_def getStageBRouteEvidence_def
      clearStageBRouteEvidence_def js_map_simps split: option.splits)

lemma reserved_for_task: "reserveStageBRouteEvidence t e s = (Some r, s1) \<Longrightarrow> \<exists>a p. r = Replaced_Slot t a (token_of r) p \<or> r = Appended_Slot t a (token_of r)"
  by (auto elim!: reserve_cases simp: token_of_def)

text \<open>A second reservation of the same dispatch takes the place of the first; its rollback puts the first one back exactly.\<close>

lemma retried_slot:
  assumes ok: "routes_ok s" and r1: "reserveStageBRouteEvidence t e1 s = (Some r1, s1)"
    and r2: "reserveStageBRouteEvidence t e2 s1 = (Some r2, s2)" and same: "same_slot e2 e1"
  shows "rollback_reservation r1 s2 = s2"
    and "js_get (ss_stageBRouteEvidence (rollback_reservation r2 s2)) u = js_get (ss_stageBRouteEvidence s1) u"
proof -
  obtain slots i where g: "js_get (ss_stageBRouteEvidence s1) t = Some slots" "i < length (rs_entries slots)"
      "rs_entries slots ! i = (token_of r1, e1)" "find_index (\<lambda>(_, entry). same_slot e1 entry) (rs_entries slots) = Some i"
    and less: "\<And>j. j < length (rs_entries slots) \<Longrightarrow> j \<noteq> i \<Longrightarrow> fst (rs_entries slots ! j) < token_of r1"
    and k1: "token_of r1 < ss_identities s1"
    using reserved_slot [OF ok r1] by blast
  let ?k = "Suc (ss_identities s1)"
  have of1: "route_slots_of s1 t = slots" by (simp add: route_slots_of_def g(1))
  have found: "find_index (\<lambda>(_, entry). same_slot e2 entry) (rs_entries slots) = Some i"
    using g(4) by (simp add: same_slot_trans [OF same])
  have ok1: "routes_ok s1" using reserve_ok [OF r1 ok] by simp
  have fresh: "\<forall>(k, _)\<in>set (rs_entries slots). k \<noteq> ?k"
    using routes_ok_get [OF ok1 g(1)] by (auto simp: route_ok_def)
  from r2 have r2': "r2 = Replaced_Slot t (rs_array slots) ?k (token_of r1, e1)"
    and s2: "s2 = set_slots t (slots\<lparr>rs_entries := (rs_entries slots)[i := (?k, e2)]\<rparr>) (s1\<lparr>ss_identities := Suc ?k\<rparr>)"
    using found g(3) by (auto elim!: reserve_cases simp: of1)
  have "fst x \<noteq> token_of r1" if x: "x \<in> set ((rs_entries slots)[i := (?k, e2)])" for x
  proof -
    obtain j where j: "j < length (rs_entries slots)" "x = ((rs_entries slots)[i := (?k, e2)]) ! j"
      using x by (auto simp: in_set_conv_nth)
    show ?thesis using less [OF j(1)] j k1 by (cases "j = i") (simp_all add: nth_list_update)
  qed
  then have gone: "\<forall>(k, _)\<in>set ((rs_entries slots)[i := (?k, e2)]). k \<noteq> token_of r1" by force
  show "rollback_reservation r1 s2 = s2"
    by (rule rollback_gone [OF _ _ reserved_for_task [OF r1], where slots = "slots\<lparr>rs_entries := (rs_entries slots)[i := (?k, e2)]\<rparr>"])
      (use gone in \<open>simp_all add: s2\<close>)
  show "js_get (ss_stageBRouteEvidence (rollback_reservation r2 s2)) u = js_get (ss_stageBRouteEvidence s1) u"
    using find_index_update [OF fresh g(2), of e2] g(1,3)
    by (simp add: rollback_reservation_def r2' s2 list_update_same_conv g(2))
qed

text \<open>C32: Taking a reservation of route evidence back restores what was recorded before it, for every task.  When a dispatch is
  reserved again before the first attempt settled, taking both back restores it too, if the later one goes first; in the
  other order the first rollback finds nothing and the second puts the entry of the first, failed attempt back.\<close>

theorem reservation_rollback:
  fixes epicOpen :: "string \<Rightarrow> bool" and rt :: runtime and resolve_at :: "string \<Rightarrow> string \<Rightarrow> string"
  assumes run: "s = state_after epicOpen (canonicalAttributionPath rt resolve_at) ops owner"
    and r1: "reserveStageBRouteEvidence t e1 s = (Some r1, s1)"
    and r2: "reserveStageBRouteEvidence t e2 s1 = (Some r2, s2)" and same: "same_slot e2 e1"
  shows "getStageBRouteEvidence (rollback_reservation r1 s1) = getStageBRouteEvidence s \<and>
    getStageBRouteEvidence (rollback_reservation r1 (rollback_reservation r2 s2)) = getStageBRouteEvidence s \<and>
    getStageBRouteEvidence (rollback_reservation r2 (rollback_reservation r1 s2)) = getStageBRouteEvidence s1 \<and>
    e1 \<in> set (getStageBRouteEvidence s1 t)"
proof -
  have ok: "routes_ok s" using state_after_inv [of epicOpen rt resolve_at ops owner] by (simp add: run)
  have ok1: "routes_ok s1" using reserve_ok [OF r1 ok] by simp
  obtain slots i where slot: "js_get (ss_stageBRouteEvidence s1) t = Some slots" "i < length (rs_entries slots)"
      "rs_entries slots ! i = (token_of r1, e1)"
    using reserved_slot [OF ok r1] by blast
  have "(token_of r1, e1) \<in> set (rs_entries slots)" using nth_mem [OF slot(2)] slot(3) by simp
  then have "e1 \<in> set (getStageBRouteEvidence s1 t)" using slot(1) by (force simp: getStageBRouteEvidence_def)
  moreover note reserved_evidence(2) [OF ok r1] reserved_evidence(2) [OF ok1 r2] retried_slot [OF ok r1 r2 same]
    rollback_cong [OF retried_slot(2) [OF ok r1 r2 same], of r1]
  ultimately show ?thesis by (simp add: fun_eq_iff)
qed

text \<open>C31: What a session believes after rehydration: a task of the plan with durable workflow metadata is in exactly the durable
  state and generation, whatever was in memory, even a later state; without metadata it keeps what it has once a
  generation is known and otherwise gets the stronger of the plan's and its own state; other tasks stay as they are.  And
  a council verdict that is not of the current review identity and generation can no longer complete its task.\<close>

theorem rehydration_trusts_evidence:
  assumes cache: "cacheOf key = Some cache" "key \<noteq> []"
    and keys: "distinct (js_keys (rh_planTaskStates cache))" "distinct (js_keys (rh_evidenceMap cache))"
    and s1: "s1 = applyRehydrationCache cacheOf (Some key) s"
  shows "(case js_get (rh_planTaskStates cache) t of
       None \<Rightarrow> task_view s1 t = task_view s t
     | Some planState \<Rightarrow>
         (case durable_workflow cache t of
            Some w \<Rightarrow> task_view s1 t = (Some (wm_state w), wm_generation w)
          | None \<Rightarrow>
              if cached_generation s t > 0 then task_view s1 t = task_view s t
              else task_view s1 t = (Some (stronger_state planState (js_get (ss_taskWorkflowStates s) t)), cached_generation s t))) \<and>
    (case js_get (rh_evidenceMap cache) t of
       None \<Rightarrow> True
     | Some (e, council) \<Rightarrow>
         \<not> council_current cache t e council \<longrightarrow> canAdvanceTaskState config t W_Complete s1 \<longrightarrow> getTaskState s1 t = W_Tests_Run)"
proof
  show "case js_get (rh_planTaskStates cache) t of
       None \<Rightarrow> task_view s1 t = task_view s t
     | Some planState \<Rightarrow>
         (case durable_workflow cache t of
            Some w \<Rightarrow> task_view s1 t = (Some (wm_state w), wm_generation w)
          | None \<Rightarrow>
              if cached_generation s t > 0 then task_view s1 t = task_view s t
              else task_view s1 t = (Some (stronger_state planState (js_get (ss_taskWorkflowStates s) t)), cached_generation s t))"
    using rehydrated_view(1) [where cache = cache and key = key and cacheOf = cacheOf and s = s and t = t, OF cache keys]
    by (auto simp: s1 merged_state_def task_view_def split: option.splits)
  show "case js_get (rh_evidenceMap cache) t of
       None \<Rightarrow> True
     | Some (e, council) \<Rightarrow>
         \<not> council_current cache t e council \<longrightarrow> canAdvanceTaskState config t W_Complete s1 \<longrightarrow> getTaskState s1 t = W_Tests_Run"
    using rehydrated_view(2) [where cache = cache and key = key and cacheOf = cacheOf and s = s and t = t, OF cache keys]
    by (auto simp: s1 merged_approval_def can_advance_iff council_approved_def split: option.splits)
qed




section \<open>Evaluated runs\<close>

abbreviation session_rt :: runtime where
  "session_rt \<equiv> posix_runtime ''/w''"

definition session_join :: "string \<Rightarrow> string \<Rightarrow> string" where
  "session_join base p = base @ ''/'' @ p"

abbreviation session_example :: "session_op list \<Rightarrow> agent_session" where
  "session_example ops \<equiv> state_after (\<lambda>_. False) (canonicalAttributionPath session_rt session_join) ops None"

definition quorum_approval :: council_approval where
  "quorum_approval = \<lparr>ca_verdict = Verdict_Approve, ca_roundNumber = 1, ca_quorumSize = Some 3\<rparr>"

definition council_run :: "session_op list" where
  "council_run =
     [Op_Record_Files ''1.1'' [''src/a.ts'', ''src/a.ts''] None, Op_Advance ''1.1'' W_Coder_Delegated None ''n'',
      Op_Advance ''1.1'' W_Complete None ''n'', Op_Advance ''1.1'' W_Pre_Check_Passed None ''n'',
      Op_Council ''1.1'' quorum_approval, Op_Record_File ''1.2'' ''src/b.ts'' None]"

definition finished_workflow :: workflow_metadata where
  "finished_workflow = the (te_workflow (the (fold (task_step ''1.2'') full_qa None)))"

theorem task_progress_is_earned_witness:
  "getTaskState (session_example (council_run @ [Op_Advance ''1.1'' W_Complete None ''n'', Op_View ''1.1'' finished_workflow True False])) ''1.1'' =
     W_Complete \<and>
   (\<exists>before operation later. council_run @ [Op_Advance ''1.1'' W_Complete None ''n''] = before @ operation # later \<and>
      completes ''1.1'' (session_example before) operation)"
proof -
  have "getTaskState (session_example (council_run @ [Op_Advance ''1.1'' W_Complete None ''n''])) ''1.1'' = W_Complete" by code_simp
  note earned = task_progress_is_earned [OF refl this]
  obtain before operation later where b:
    "council_run @ [Op_Advance ''1.1'' W_Complete None ''n''] = before @ operation # later"
    "case operation of
         Op_Advance u st config nowIso \<Rightarrow> u = ''1.1'' \<and> st = W_Complete \<and>
           (getTaskState (session_example before) ''1.1'' = W_Tests_Run \<or>
            council_approved (session_example before) ''1.1'' config \<and>
            getTaskState (session_example before) ''1.1'' \<in> {W_Pre_Check_Passed, W_Reviewer_Run})
       | Op_View u w stageB council \<Rightarrow> u = ''1.1'' \<and> wm_state w = W_Complete
       | Op_Rehydrate (Some cache) key \<Rightarrow> says_complete cache ''1.1''
       | Op_Restart (Some cache) key \<Rightarrow> says_complete cache ''1.1''
       | _ \<Rightarrow> False"
    using earned [THEN conjunct1] by (elim exE conjE) (rule that)
  have "completes ''1.1'' (session_example before) operation"
    using b(2) unfolding completes_def by (cases operation) (simp_all split: option.splits)
  moreover have "getTaskState (session_example (council_run @ [Op_Advance ''1.1'' W_Complete None ''n'', Op_View ''1.1'' finished_workflow True False]))
      ''1.1'' = W_Complete"
    by code_simp
  ultimately show ?thesis using b(1) by blast
qed

theorem live_attribution_kept_witness:
  "js_get (ss_modifiedFilesByTask (fst (session_step (\<lambda>_. False) (canonicalAttributionPath session_rt session_join)
      (Op_Reset_Files ''1.2'' True) (session_example council_run, [])))) ''1.1'' = Some [''src/a.ts'']"
proof -
  have run: "fold (session_step (\<lambda>_. False) (canonicalAttributionPath session_rt session_join)) council_run (new_session None, []) =
      (session_example council_run, [])"
    unfolding state_after_def by code_simp
  have live: "js_get (ss_taskWorkflowStates (session_example council_run)) ''1.1'' \<noteq> Some W_Complete"
    and files: "js_get (ss_modifiedFilesByTask (session_example council_run)) ''1.1'' = Some [''src/a.ts'']"
    by code_simp+
  have "files_task (Op_Reset_Files ''1.2'' True) \<noteq> Some ''1.1''" by simp
  then show ?thesis
    using live_attribution_kept [OF run] live files by auto
qed

definition route_call :: "string \<Rightarrow> route_evidence" where
  "route_call slot =
     \<lparr>rv_role = Reviewer_Gate, rv_identity = ''r'', rv_sessionId = Some ''s'', rv_taskId = Some ''1.1'', rv_slotId = Some slot,
      rv_callId = Some ''c'', rv_childSessionId = Some ''k'', rv_generation = Some 1\<rparr>"

text \<open>Both attempts are taken back, the first one first: its evidence is there again.\<close>

theorem reservation_rollback_witness:
  "\<exists>r1 r2 s1 s2. reserveStageBRouteEvidence ''1.1'' (route_call ''a'') (session_example council_run) = (Some r1, s1) \<and>
     reserveStageBRouteEvidence ''1.1'' (route_call ''b'') s1 = (Some r2, s2) \<and>
     getStageBRouteEvidence (rollback_reservation r1 (rollback_reservation r2 s2)) ''1.1'' = [] \<and>
     getStageBRouteEvidence (rollback_reservation r2 (rollback_reservation r1 s2)) ''1.1'' = [route_call ''a'']"
proof -
  let ?s = "session_example council_run"
  have same: "same_slot (route_call ''b'') (route_call ''a'')" by code_simp
  have empty: "getStageBRouteEvidence ?s ''1.1'' = []" by code_simp
  have one: "(case reserveStageBRouteEvidence ''1.1'' (route_call ''a'') ?s of (r, s1) \<Rightarrow>
      r \<noteq> None \<and> getStageBRouteEvidence s1 ''1.1'' = [route_call ''a''] \<and> fst (reserveStageBRouteEvidence ''1.1'' (route_call ''b'') s1) \<noteq> None)"
    by code_simp
  then obtain r1 s1 where 1: "reserveStageBRouteEvidence ''1.1'' (route_call ''a'') ?s = (Some r1, s1)"
    "getStageBRouteEvidence s1 ''1.1'' = [route_call ''a'']" "fst (reserveStageBRouteEvidence ''1.1'' (route_call ''b'') s1) \<noteq> None"
    by (auto split: prod.splits)
  then obtain r2 s2 where 2: "reserveStageBRouteEvidence ''1.1'' (route_call ''b'') s1 = (Some r2, s2)"
    by (cases "reserveStageBRouteEvidence ''1.1'' (route_call ''b'') s1") auto
  from reservation_rollback [OF refl 1(1) 2 same] 1 2 empty show ?thesis by metis
qed

definition durable_evidence :: task_evidence where
  "durable_evidence = the (fold (task_step ''1.1'') full_qa None)"

definition stale_verdict :: council_gate where
  "stale_verdict = \<lparr>cg_verdict = Some ''APPROVE'', cg_roundNumber = Some 1, cg_quorumSize = Some 5, cg_workflowGeneration = Some 0,
     cg_identity_digest = Some (replicate 64 CHR ''a'')\<rparr>"

definition restart_cache :: rehydration_cache where
  "restart_cache =
     \<lparr>rh_planTaskStates = plan_task_states [(''1.1'', In_Progress), (''1.2'', Completed)],
      rh_evidenceMap = [(''1.1'', durable_evidence, Some stale_verdict)], rh_identity = (\<lambda>_. replicate 64 CHR ''a'')\<rparr>"

abbreviation restart_caches :: "string \<Rightarrow> rehydration_cache option" where
  "restart_caches \<equiv> (\<lambda>key. if key = ''/w'' then Some restart_cache else None)"

theorem rehydration_trusts_evidence_witness:
  "task_view (applyRehydrationCache restart_caches (Some ''/w'') (new_session None)) ''1.1'' = (Some W_Complete, 1) \<and>
   task_view (applyRehydrationCache restart_caches (Some ''/w'') (new_session None)) ''1.2'' = (Some W_Complete, 0)"
proof -
  have keys: "distinct (js_keys (rh_planTaskStates restart_cache))" "distinct (js_keys (rh_evidenceMap restart_cache))" by code_simp+
  have plan: "js_get (rh_planTaskStates restart_cache) ''1.1'' = Some W_Idle" "js_get (rh_planTaskStates restart_cache) ''1.2'' = Some W_Complete"
    by code_simp+
  have durable: "map_option wm_state (durable_workflow restart_cache ''1.1'') = Some W_Complete"
    "map_option wm_generation (durable_workflow restart_cache ''1.1'') = Some 1" "durable_workflow restart_cache ''1.2'' = None"
    by code_simp+
  have fresh: "cached_generation (new_session None) ''1.2'' = 0"
    "stronger_state W_Complete (js_get (ss_taskWorkflowStates (new_session None)) ''1.2'') = W_Complete"
    by code_simp+
  note r = rehydration_trusts_evidence [of restart_caches "''/w''", OF _ _ keys refl]
  have "task_view (applyRehydrationCache restart_caches (Some ''/w'') (new_session None)) ''1.1'' = (Some W_Complete, 1)"
    using r [of "new_session None" "''1.1''"] plan(1) durable(1,2) by auto
  moreover have "task_view (applyRehydrationCache restart_caches (Some ''/w'') (new_session None)) ''1.2'' = (Some W_Complete, 0)"
    using r [of "new_session None" "''1.2''"] plan(2) durable(3) fresh by auto
  ultimately show ?thesis ..
qed



end
