(* ===== verification/Review_Reducer.thy ===== *)
theory Review_Reducer
  imports Review_Circuit
begin

text \<open>
  \<^verbatim>\<open>src/pr-review/reducer.ts\<close> and \<^verbatim>\<open>types.ts\<close>: the transition authority of the PR review, a pure
  function from a state and an event to the new state with its effects, or to a typed rejection; and the predicate of
  \<^verbatim>\<open>critic-routing.ts\<close>.  The gate's state has more fields than the slice the reducer reads: the reducer works on every
  extension of the record \<open>review_state\<close>, as the source's types do.  The type of a staged attempt, which the
  reducer carries without reading it, is a parameter.  The operator-facing text of a rejection is not modelled, its code is.
\<close>

section \<open>The state slice\<close>

definition PR_REVIEW_BASE_DIMENSION_IDS :: "string list" where
  "PR_REVIEW_BASE_DIMENSION_IDS =
     [''intent-architecture'', ''correctness-state'', ''tests-falsifiability'', ''security-trust'',
      ''reliability-performance'', ''compatibility-delivery'']"

record base_lane =
  bl_laneId :: string
  bl_workflowLane :: string
  bl_ownedWorkflowLanes :: "string list option"

record base_dispatch =
  bd_batchId :: string
  bd_lanes :: "base_lane list"
  bd_validatedAt :: string

record cancellation =
  cn_reason :: string
  cn_cancelledAt :: string
  cn_source :: string

text \<open>A persisted circuit, in the versioned shape or in the one before it.\<close>

datatype stored_circuit = Stored_V2 circuit_record | Stored_Legacy legacy_record

record 'a resilience_slice =
  rl_policy :: resilience_policy
  rl_attempts :: "'a list"
  rl_circuit :: "stored_circuit option"

record 'a review_state =
  rv_sessionID :: string
  rv_workflowInstanceId :: "string option"
  rv_revision :: int
  rv_prHeadSha :: "string option"
  rv_prReviewBaseSha :: "string option"
  rv_prReviewBaseDispatches :: "base_dispatch list option"
  rv_prReviewBaseDispatch :: "base_dispatch option"
  rv_prReviewResilience :: "'a resilience_slice option"
  rv_prReviewContractRetryDimensions :: "string list option"
  rv_prReviewDimensionCancellations :: "(string, cancellation) js_map option"

section \<open>Coverage, effects, events, rejections\<close>

datatype coverage_kind = Complete_Coverage | Partial_Coverage | No_Coverage

datatype report_verdict = Approve | Incomplete | Request_Changes

record unresolved_dimension =
  ud_dimension :: string
  ud_terminalState :: string
  ud_reasonKind :: string

record coverage_settlement =
  cs_kind :: coverage_kind
  cs_coveredDimensions :: "string list"
  cs_unresolvedDimensions :: "unresolved_dimension list"
  cs_liveDimensions :: "string list"

datatype review_effect =
    Persist_State
  | Settle_Delegation (se_batchId: string) (se_laneId: string) (se_status: string) (se_replay: "bool option")
  | Emit_Diagnostic (ed_code: string) (ed_boundedDetail: "string option")
  | Block_Dispatch block_cause

datatype probe_outcome = Typed_Success | Provider_Failure string | Ignored_Outcome | Rolled_Back_Admission

datatype lane_outcome = Clean | Findings | Incomplete_Lane

record critic_receipt =
  cr_findingId :: string
  cr_status :: string
  cr_reviewerRowDigest :: string

record authorization_binding =
  ab_sessionID :: string
  ab_workflowInstanceId :: "string option"
  ab_prHeadSha :: string
  ab_revisionDigest :: "string option"
  ab_generation :: int

record lane_result =
  lt_batchId :: string
  lt_laneId :: string
  lt_generation :: int
  lt_semanticEnvelopeDigest :: string
  lt_outcome :: lane_outcome
  lt_existingReceiptDigest :: "string option"
  lt_submittedBy :: "string option"

record circuit_advance =
  ca_nowMs :: int
  ca_laneSignals :: "circuit_signal list"
  ca_probeObservation :: "probe_observation option"
  ca_admission :: "(string \<times> string) option"
  ca_policy :: resilience_policy

datatype pr_review_event =
    Base_Admission_Requested string "base_lane list" int string
  | Base_Admission_Rolled_Back string bool
  | Collection_Observed string "string list" "string option"
  | Lane_Structured_Result_Submitted lane_result
  | Circuit_Advance_Requested circuit_advance
  | Circuit_Probe_Settled probe_outcome int resilience_policy
  | Resilience_Config_Changed bool "resilience_config option" int
  | Coverage_Finalization_Requested coverage_settlement "report_verdict option" bool
  | Critic_Result_Recorded "string list" "critic_receipt list"
  | Armed_Recovery_Requested authorization_binding "string list" string string
  | Unknown_Discriminant

datatype rejection_code =
    Live_Lane_Blocks_Coverage
  | Partial_Coverage_Cannot_Approve
  | No_Coverage_Requires_Incomplete
  | Degraded_Disclosure_Cannot_Approve
  | Critic_Required_Unfulfilled
  | Stale_Foreign_Authorization
  | Stale_Generation_Result
  | Duplicate_Conflicting_Result
  | Base_Batch_Limit_Reached
  | Rollback_Preconditions_Failed
  | Unknown_Event

text \<open>\<open>status: 'applied'\<close> with the effects, \<open>status: 'rejected'\<close> with the code; both carry the state.\<close>

datatype 's reduce_result =
    Applied (result_state: 's) (result_effects: "review_effect list")
  | Rejected (result_state: 's) (result_code: rejection_code)

section \<open>Critic routing\<close>

record critic_routing_input =
  ri_classification :: "string option"
  ri_severity :: "string option"
  ri_risk_impact :: "string option"
  ri_risk_tags :: "string list option"

definition prReviewFindingRequiresCritic :: "critic_routing_input \<Rightarrow> bool" where
  "prReviewFindingRequiresCritic inp =
     (if ri_classification inp \<noteq> Some ''CONFIRMED'' then False
      else
        let impact = option_or (ri_risk_impact inp) ''UNKNOWN'';
            tags = option_or (ri_risk_tags inp) []
        in if impact = ''UNKNOWN'' then True
           else case ri_severity inp of
                  None \<Rightarrow> True
                | Some severity \<Rightarrow>
                    if severity = ''CRITICAL'' \<or> severity = ''HIGH'' then True
                    else if severity = ''MEDIUM'' then impact = ''HIGH_IMPACT'' \<or> 0 < length tags
                    else False)"

section \<open>Helpers of the reducer\<close>

type_synonym ('a, 'b) review = "('a, 'b) review_state_scheme"

definition currentGeneration :: "('a, 'b) review \<Rightarrow> int" where
  "currentGeneration state = rv_revision state"

definition dispatches_of :: "('a, 'b) review \<Rightarrow> base_dispatch list" where
  "dispatches_of state = option_or (rv_prReviewBaseDispatches state) []"

definition stored_circuit_of :: "('a, 'b) review \<Rightarrow> stored_circuit option" where
  "stored_circuit_of state = Option.bind (rv_prReviewResilience state) rl_circuit"

definition circuitRecordOf :: "('a, 'b) review \<Rightarrow> circuit_record option" where
  "circuitRecordOf state =
     (case stored_circuit_of state of Some (Stored_V2 r) \<Rightarrow> Some r | _ \<Rightarrow> None)"

definition withCircuit :: "('a, 'b) review \<Rightarrow> stored_circuit option \<Rightarrow> ('a, 'b) review" where
  "withCircuit state circuit =
     (case rv_prReviewResilience state of
        None \<Rightarrow> state
      | Some sl \<Rightarrow> state\<lparr>rv_prReviewResilience := Some (sl\<lparr>rl_circuit := circuit\<rparr>)\<rparr>)"

text \<open>A stored circuit as the adoption reads it.  Its JSON text matters to the diagnostic of a malformed record only,
  which the reducer drops, so it is left empty here.\<close>

definition raw_of_stored :: "stored_circuit option \<Rightarrow> raw_circuit" where
  "raw_of_stored stored =
     (case stored of None \<Rightarrow> Raw_Absent | Some (Stored_V2 r) \<Rightarrow> Raw_V2 r [] | Some (Stored_Legacy r) \<Rightarrow> Raw_Legacy r [])"

definition adopted_record :: "circuit_adoption \<Rightarrow> circuit_record option" where
  "adopted_record adoption =
     (case adoption of Adopt_V2 r \<Rightarrow> Some r | Adopt_Migrated r _ \<Rightarrow> Some r | _ \<Rightarrow> None)"

text \<open>\<open>xs.at(-1)\<close> and \<open>xs.at(-2)\<close>\<close>

definition last_of :: "'a list \<Rightarrow> 'a option" where
  "last_of xs = (if xs = [] then None else Some (last xs))"

definition second_last_of :: "'a list \<Rightarrow> 'a option" where
  "second_last_of xs = last_of (butlast xs)"

section \<open>The transitions\<close>

definition base_admission_requested ::
  "('a, 'b) review \<Rightarrow> string \<Rightarrow> base_lane list \<Rightarrow> int \<Rightarrow> string \<Rightarrow> ('a, 'b) review reduce_result" where
  "base_admission_requested state batchId lanes maxBatches validatedAt =
     (let dispatches = dispatches_of state
      in if int (length dispatches) \<ge> maxBatches then Rejected state Base_Batch_Limit_Reached
         else
           let rec = \<lparr>bd_batchId = batchId, bd_lanes = lanes, bd_validatedAt = validatedAt\<rparr>
           in Applied (state\<lparr>rv_prReviewBaseDispatches := Some (dispatches @ [rec]), rv_prReviewBaseDispatch := Some rec\<rparr>)
                [Persist_State])"

definition base_admission_rolled_back ::
  "('a, 'b) review \<Rightarrow> string \<Rightarrow> bool \<Rightarrow> ('a, 'b) review reduce_result" where
  "base_admission_rolled_back state batchId batchDelegationRecordsExist =
     (let dispatches = dispatches_of state
      in if map_option bd_batchId (last_of dispatches) \<noteq> Some batchId then Rejected state Rollback_Preconditions_Failed
         else if batchDelegationRecordsExist then Rejected state Rollback_Preconditions_Failed
         else Applied (state\<lparr>rv_prReviewBaseDispatches := Some (butlast dispatches),
                             rv_prReviewBaseDispatch := second_last_of dispatches\<rparr>)
                [Persist_State])"

definition collection_observed ::
  "('a, 'b) review \<Rightarrow> string \<Rightarrow> string option \<Rightarrow> ('a, 'b) review reduce_result" where
  "collection_observed state diagnostic boundedDetail =
     Applied state [Emit_Diagnostic (''collection_'' @ diagnostic) boundedDetail]"

definition lane_structured_result_submitted ::
  "('a, 'b) review \<Rightarrow> lane_result \<Rightarrow> ('a, 'b) review reduce_result" where
  "lane_structured_result_submitted state ev =
     (if lt_generation ev \<noteq> currentGeneration state then Rejected state Stale_Generation_Result
      else case lt_existingReceiptDigest ev of
             Some digest \<Rightarrow>
               if digest = lt_semanticEnvelopeDigest ev
               then Applied state [Settle_Delegation (lt_batchId ev) (lt_laneId ev) ''completed'' (Some True)]
               else Rejected state Duplicate_Conflicting_Result
           | None \<Rightarrow>
               if lt_outcome ev = Incomplete_Lane then Applied state []
               else Applied state [Settle_Delegation (lt_batchId ev) (lt_laneId ev) ''completed'' None])"

definition advance_policy_duration :: "resilience_policy \<Rightarrow> int" where
  "advance_policy_duration policy =
     (case rp_circuitOpenDurationMs policy of
        Some d \<Rightarrow> d
      | None \<Rightarrow> option_or (rp_circuitOpenDurationMs (resolvePrReviewResiliencePolicy None)) 60000)"

definition circuit_advance_requested ::
  "(string \<Rightarrow> string \<Rightarrow> int) \<Rightarrow> ('a, 'b) review \<Rightarrow> circuit_advance \<Rightarrow> ('a, 'b) review reduce_result" where
  "circuit_advance_requested lc state ev =
     (let adoption = adoptPrReviewCircuit (raw_of_stored (stored_circuit_of state)) (ca_nowMs ev);
          circuit = adopted_record adoption;
          (action, changed) = advancePrReviewCircuit lc circuit
            \<lparr>ai_nowMs = ca_nowMs ev, ai_threshold = rp_correlatedFailureThreshold (ca_policy ev),
             ai_openDurationMs = advance_policy_duration (ca_policy ev), ai_admission = ca_admission ev,
             ai_laneSignals = ca_laneSignals ev, ai_probeObservation = ca_probeObservation ev\<rparr>;
          migrated = (case adoption of Adopt_Migrated r _ \<Rightarrow> withCircuit state (Some (Stored_V2 r)) | _ \<Rightarrow> state);
          next_state = (case changed of Some r \<Rightarrow> withCircuit migrated (Some (Stored_V2 r)) | None \<Rightarrow> migrated);
          persist = (if changed \<noteq> None \<and> action \<noteq> Admit_As_Probe then [Persist_State] else []);
          block = (case action of Block reason \<Rightarrow> [Block_Dispatch reason] | _ \<Rightarrow> [])
      in Applied next_state (persist @ block))"

definition circuit_probe_settled ::
  "('a, 'b) review \<Rightarrow> probe_outcome \<Rightarrow> int \<Rightarrow> resilience_policy \<Rightarrow> ('a, 'b) review reduce_result" where
  "circuit_probe_settled state outcome nowMs policy =
     (case circuitRecordOf state of
        None \<Rightarrow> Applied state []
      | Some circuit \<Rightarrow>
          if rc_state circuit \<noteq> Half_Open_State \<or> rc_probe circuit = None then Applied state []
          else if outcome = Rolled_Back_Admission
          then Applied
                 (withCircuit state
                    (Some (Stored_V2 (rollbackPrReviewCircuitProbe circuit nowMs (option_or (rp_circuitOpenDurationMs policy) 60000)))))
                 [Persist_State]
          else Applied state [])"

definition resilience_config_changed ::
  "('a, 'b) review \<Rightarrow> bool \<Rightarrow> resilience_config option \<Rightarrow> int \<Rightarrow> ('a, 'b) review reduce_result" where
  "resilience_config_changed state enabled config nowMs =
     (if \<not> enabled
      then case rv_prReviewResilience state of
             None \<Rightarrow> Applied state []
           | Some sl \<Rightarrow>
               if \<not> rp_enabled (rl_policy sl) then Applied state []
               else Applied
                      (state\<lparr>rv_prReviewResilience := Some (sl\<lparr>rl_policy := (rl_policy sl)\<lparr>rp_enabled := False\<rparr>\<rparr>)\<rparr>)
                      [Persist_State]
      else Applied
             (state\<lparr>rv_prReviewResilience := Some
                \<lparr>rl_policy = resolvePrReviewResiliencePolicy config, rl_attempts = [],
                 rl_circuit = Some (Stored_V2 (resetPrReviewResilienceForReEnable (circuitRecordOf state) nowMs))\<rparr>\<rparr>)
             [Persist_State])"

definition coverage_finalization_requested ::
  "('a, 'b) review \<Rightarrow> coverage_settlement \<Rightarrow> report_verdict option \<Rightarrow> bool \<Rightarrow> ('a, 'b) review reduce_result" where
  "coverage_finalization_requested state settlement requestedVerdict disclosedDegradation =
     (if 0 < length (cs_liveDimensions settlement) then Rejected state Live_Lane_Blocks_Coverage
      else case requestedVerdict of
             None \<Rightarrow> Applied state []
           | Some verdict \<Rightarrow>
               if cs_kind settlement = Partial_Coverage \<and> verdict = Approve
               then Rejected state Partial_Coverage_Cannot_Approve
               else if cs_kind settlement = No_Coverage \<and> verdict \<noteq> Incomplete
               then Rejected state No_Coverage_Requires_Incomplete
               else if cs_kind settlement = Complete_Coverage \<and> disclosedDegradation \<and> verdict = Approve
               then Rejected state Degraded_Disclosure_Cannot_Approve
               else Applied state [])"

definition critic_settled :: "critic_receipt \<Rightarrow> bool" where
  "critic_settled receipt = (cr_status receipt \<in> {''UPHELD'', ''DOWNGRADED'', ''DISPROVED''})"

definition critic_result_recorded ::
  "('a, 'b) review \<Rightarrow> string list \<Rightarrow> critic_receipt list \<Rightarrow> ('a, 'b) review reduce_result" where
  "critic_result_recorded state criticRequiredFindingIds criticSettledReceipts =
     (let settledFindingIds = js_uniq (map cr_findingId (filter critic_settled criticSettledReceipts));
          unfulfilled = filter (\<lambda>f. f \<notin> set settledFindingIds) criticRequiredFindingIds
      in if 0 < length unfulfilled then Rejected state Critic_Required_Unfulfilled else Applied state [])"

text \<open>Whether the binding is refused; the reason is text.\<close>

definition bindingRejection :: "('a, 'b) review \<Rightarrow> authorization_binding \<Rightarrow> bool" where
  "bindingRejection state binding =
     (if ab_sessionID binding \<noteq> rv_sessionID state then True
      else if ab_workflowInstanceId binding \<noteq> None \<and> rv_workflowInstanceId state \<noteq> None \<and>
              ab_workflowInstanceId binding \<noteq> rv_workflowInstanceId state then True
      else if option_or (rv_prHeadSha state) [] = [] \<or> Some (ab_prHeadSha binding) \<noteq> rv_prHeadSha state then True
      else if ab_generation binding \<noteq> currentGeneration state then True
      else False)"

definition armed_recovery_requested ::
  "('a, 'b) review \<Rightarrow> authorization_binding \<Rightarrow> string list \<Rightarrow> string \<Rightarrow> string \<Rightarrow> ('a, 'b) review reduce_result" where
  "armed_recovery_requested state binding dimensionsToCancel nowIso reason =
     (if bindingRejection state binding then Rejected state Stale_Foreign_Authorization
      else
        let cancellations = fold (\<lambda>dimension.
              js_set dimension \<lparr>cn_reason = reason, cn_cancelledAt = nowIso, cn_source = ''armed_recovery''\<rparr>)
              dimensionsToCancel (option_or (rv_prReviewDimensionCancellations state) [])
        in Applied (state\<lparr>rv_prReviewDimensionCancellations := Some cancellations\<rparr>) [Persist_State])"

definition reducePrReviewEvent ::
  "(string \<Rightarrow> string \<Rightarrow> int) \<Rightarrow> ('a, 'b) review \<Rightarrow> pr_review_event \<Rightarrow> ('a, 'b) review reduce_result" where
  "reducePrReviewEvent lc state event =
     (case event of
        Base_Admission_Requested batchId lanes maxBatches validatedAt \<Rightarrow>
          base_admission_requested state batchId lanes maxBatches validatedAt
      | Base_Admission_Rolled_Back batchId recordsExist \<Rightarrow> base_admission_rolled_back state batchId recordsExist
      | Collection_Observed diagnostic pendingLaneIds boundedDetail \<Rightarrow> collection_observed state diagnostic boundedDetail
      | Lane_Structured_Result_Submitted ev \<Rightarrow> lane_structured_result_submitted state ev
      | Circuit_Advance_Requested ev \<Rightarrow> circuit_advance_requested lc state ev
      | Circuit_Probe_Settled outcome nowMs policy \<Rightarrow> circuit_probe_settled state outcome nowMs policy
      | Resilience_Config_Changed enabled config nowMs \<Rightarrow> resilience_config_changed state enabled config nowMs
      | Coverage_Finalization_Requested settlement verdict degraded \<Rightarrow>
          coverage_finalization_requested state settlement verdict degraded
      | Critic_Result_Recorded required receipts \<Rightarrow> critic_result_recorded state required receipts
      | Armed_Recovery_Requested binding dimensions nowIso reason \<Rightarrow>
          armed_recovery_requested state binding dimensions nowIso reason
      | Unknown_Discriminant \<Rightarrow> Rejected state Unknown_Event)"

section \<open>Runs\<close>

definition reduce_state :: "(string \<Rightarrow> string \<Rightarrow> int) \<Rightarrow> pr_review_event \<Rightarrow> ('a, 'b) review \<Rightarrow> ('a, 'b) review" where
  "reduce_state lc event state = result_state (reducePrReviewEvent lc state event)"

end
