(* ===== verification/Review_Reducer_Facts.thy ===== *)
theory Review_Reducer_Facts
  imports Review_Reducer Review_Circuit_Facts Transition
begin

text \<open>
  The transition authority of the PR review: what each event may change, that a rejection changes nothing, that the base
  batches form a stack whose top the state names, that the circuit in the state moves by the circuit's own
  machine only, and that a recovery is bound to the exact identity of the workflow.
\<close>

named_theorems review_transitions

lemmas [review_transitions] =
  reducePrReviewEvent_def base_admission_requested_def base_admission_rolled_back_def collection_observed_def
  lane_structured_result_submitted_def circuit_advance_requested_def circuit_probe_settled_def resilience_config_changed_def
  coverage_finalization_requested_def critic_result_recorded_def armed_recovery_requested_def

lemma withCircuit_simps [simp]:
  "rv_prReviewBaseDispatches (withCircuit s c) = rv_prReviewBaseDispatches s"
  "rv_prReviewBaseDispatch (withCircuit s c) = rv_prReviewBaseDispatch s"
  "rv_revision (withCircuit s c) = rv_revision s"
  "rv_sessionID (withCircuit s c) = rv_sessionID s"
  "rv_prHeadSha (withCircuit s c) = rv_prHeadSha s"
  "rv_prReviewDimensionCancellations (withCircuit s c) = rv_prReviewDimensionCancellations s"
  by (simp_all add: withCircuit_def split: option.split)

lemma withCircuit_resilience:
  "rv_prReviewResilience (withCircuit s c) = map_option (\<lambda>sl. sl\<lparr>rl_circuit := c\<rparr>) (rv_prReviewResilience s)"
  by (simp add: withCircuit_def split: option.split)

lemma stored_circuit_withCircuit:
  "stored_circuit_of (withCircuit s c) = (if rv_prReviewResilience s = None then None else c)"
  by (cases "rv_prReviewResilience s") (simp_all add: stored_circuit_of_def withCircuit_resilience)

lemma last_of_simps [simp]:
  "last_of [] = None" "last_of (xs @ [x]) = Some x" "second_last_of (xs @ [x]) = last_of xs"
  by (simp_all add: last_of_def second_last_of_def)

lemma rejected_unchanged: "reducePrReviewEvent lc s ev = Rejected s' code \<Longrightarrow> s' = s"
  by (cases ev) (auto simp: review_transitions Let_def split: if_splits option.splits prod.splits)

section \<open>The stack of base batches\<close>

text \<open>The state names the last batch of the list.\<close>

definition dispatch_stack :: "('a, 'b) review \<Rightarrow> bool" where
  "dispatch_stack s = (rv_prReviewBaseDispatch s = last_of (dispatches_of s))"

lemma dispatches_of_simps [simp]:
  "dispatches_of (s\<lparr>rv_prReviewBaseDispatches := Some ds\<rparr>) = ds"
  "dispatches_of (s\<lparr>rv_prReviewBaseDispatch := d\<rparr>) = dispatches_of s"
  "dispatches_of (s\<lparr>rv_prReviewResilience := r\<rparr>) = dispatches_of s"
  "dispatches_of (s\<lparr>rv_prReviewDimensionCancellations := c\<rparr>) = dispatches_of s"
  "dispatches_of (withCircuit s c') = dispatches_of s"
  by (simp_all add: dispatches_of_def option_or_def)

text \<open>The batches after an event: one more, one less, or the same.\<close>

lemma reduce_dispatches:
  "dispatches_of (reduce_state lc ev s) =
     (case ev of
        Base_Admission_Requested b ls m t \<Rightarrow>
          if int (length (dispatches_of s)) \<ge> m then dispatches_of s
          else dispatches_of s @ [\<lparr>bd_batchId = b, bd_lanes = ls, bd_validatedAt = t\<rparr>]
      | Base_Admission_Rolled_Back b e \<Rightarrow>
          if map_option bd_batchId (last_of (dispatches_of s)) = Some b \<and> \<not> e then butlast (dispatches_of s)
          else dispatches_of s
      | _ \<Rightarrow> dispatches_of s)"
  by (cases ev) (auto simp: reduce_state_def review_transitions Let_def split: option.split prod.split circuit_adoption.split)

lemma reduce_stack: "dispatch_stack s \<Longrightarrow> dispatch_stack (reduce_state lc ev s)"
proof (cases ev)
  case (Base_Admission_Rolled_Back b e)
  assume "dispatch_stack s"
  then show ?thesis
    by (auto simp: Base_Admission_Rolled_Back reduce_state_def review_transitions dispatch_stack_def second_last_of_def Let_def)
qed (auto simp: reduce_state_def review_transitions dispatch_stack_def Let_def split: option.split prod.split circuit_adoption.split)

definition batch_bounded :: "int \<Rightarrow> ('a, 'b) review \<Rightarrow> bool" where
  "batch_bounded m s = (dispatch_stack s \<and> int (length (dispatches_of s)) \<le> m)"

definition capped_event :: "int \<Rightarrow> pr_review_event \<Rightarrow> bool" where
  "capped_event m ev = (case ev of Base_Admission_Requested b ls k t \<Rightarrow> k = m | _ \<Rightarrow> True)"

lemma reduce_bounded: "capped_event m ev \<Longrightarrow> batch_bounded m s \<Longrightarrow> batch_bounded m (reduce_state lc ev s)"
  by (cases ev) (auto simp: batch_bounded_def capped_event_def reduce_stack reduce_dispatches)

interpretation batches: guarded_machine "reduce_state lc" "capped_event m" "batch_bounded m" for lc m
  by unfold_locales (rule reduce_bounded)

text \<open>Events that admit or roll back nothing leave the batches alone.\<close>

definition batch_event :: "pr_review_event \<Rightarrow> bool" where
  "batch_event ev =
     (case ev of Base_Admission_Requested _ _ _ _ \<Rightarrow> True | Base_Admission_Rolled_Back _ _ \<Rightarrow> True | _ \<Rightarrow> False)"

lemma other_events_keep_batches:
  "list_all (\<lambda>ev. \<not> batch_event ev) evs \<Longrightarrow> dispatches_of (fold (reduce_state lc) evs s) = dispatches_of s"
  by (induction evs arbitrary: s) (auto simp: reduce_dispatches batch_event_def split: pr_review_event.splits)

lemma other_events_keep_top:
  "dispatch_stack s \<Longrightarrow> dispatch_stack (fold (reduce_state lc) evs s)"
  by (induction evs arbitrary: s) (auto simp: reduce_stack)

text \<open>C28: Admitting a batch and rolling it back restores the batches, as long as no other batch is admitted or rolled back in
  between and the new one stays within the limit (at the limit the admission drops the oldest batch, which no rollback brings
  back).  In a state that names the last of fewer than \<open>maxBatches\<close> batches: whatever other events
  happen, the rollback of a batch that was admitted and launched nothing succeeds and leaves the same list, of which again the
  last is named; a rollback of any other batch, or of a launched one, is rejected and changes nothing.\<close>

theorem admission_rollback_roundtrip:
  assumes "batch_bounded maxBatches s" and "int (length (dispatches_of s)) < maxBatches"
    and "list_all (\<lambda>ev. \<not> batch_event ev) evs"
  shows "\<exists>after. (let mid = fold (reduce_state lc) evs (reduce_state lc (Base_Admission_Requested b lanes maxBatches t) s)
    in dispatches_of mid = dispatches_of s @ [\<lparr>bd_batchId = b, bd_lanes = lanes, bd_validatedAt = t\<rparr>] \<and>
       batch_bounded maxBatches mid \<and>
       reducePrReviewEvent lc mid (Base_Admission_Rolled_Back b False) = Applied after [Persist_State] \<and>
       dispatches_of after = dispatches_of s \<and> rv_prReviewBaseDispatch after = last_of (dispatches_of s) \<and>
       (\<forall>b' launched. b' = b \<and> \<not> launched \<or>
          reducePrReviewEvent lc mid (Base_Admission_Rolled_Back b' launched) = Rejected mid Rollback_Preconditions_Failed))"
proof -
  let ?rec = "\<lparr>bd_batchId = b, bd_lanes = lanes, bd_validatedAt = t\<rparr>"
  let ?s1 = "reduce_state lc (Base_Admission_Requested b lanes maxBatches t) s"
  let ?mid = "fold (reduce_state lc) evs ?s1"
  have first: "dispatches_of ?s1 = dispatches_of s @ [?rec]"
    using assms(2) by (simp add: reduce_dispatches)
  then have mid: "dispatches_of ?mid = dispatches_of s @ [?rec]"
    by (simp add: other_events_keep_batches [OF assms(3)])
  have "dispatch_stack ?s1" using assms(1) by (simp add: batch_bounded_def reduce_stack)
  then have stack: "dispatch_stack ?mid" by (rule other_events_keep_top)
  then have bounded: "batch_bounded maxBatches ?mid"
    using assms(2) by (simp add: batch_bounded_def mid)
  let ?after = "?mid\<lparr>rv_prReviewBaseDispatches := Some (dispatches_of s), rv_prReviewBaseDispatch := last_of (dispatches_of s)\<rparr>"
  have "reducePrReviewEvent lc ?mid (Base_Admission_Rolled_Back b False) = Applied ?after [Persist_State]"
    by (simp add: review_transitions mid Let_def)
  moreover have "dispatches_of ?after = dispatches_of s" by (simp add: dispatches_of_def option_or_def)
  moreover have "b' = b \<and> \<not> launched \<or>
      reducePrReviewEvent lc ?mid (Base_Admission_Rolled_Back b' launched) = Rejected ?mid Rollback_Preconditions_Failed"
    for b' launched
    by (simp add: review_transitions mid Let_def)
  ultimately show ?thesis using mid bounded unfolding Let_def by fastforce
qed

section \<open>The circuit in the state\<close>

text \<open>What an event asks of the circuit's machine.\<close>

definition advance_input_of :: "circuit_advance \<Rightarrow> advance_input" where
  "advance_input_of ev =
     \<lparr>ai_nowMs = ca_nowMs ev, ai_threshold = rp_correlatedFailureThreshold (ca_policy ev),
      ai_openDurationMs = advance_policy_duration (ca_policy ev), ai_admission = ca_admission ev,
      ai_laneSignals = ca_laneSignals ev, ai_probeObservation = ca_probeObservation ev\<rparr>"

definition machine_events :: "pr_review_event \<Rightarrow> review_event list" where
  "machine_events ev =
     (case ev of
        Circuit_Advance_Requested a \<Rightarrow> [Review_Advance (advance_input_of a)]
      | Circuit_Probe_Settled Rolled_Back_Admission nowMs policy \<Rightarrow>
          [Review_Rollback nowMs (option_or (rp_circuitOpenDurationMs policy) 60000)]
      | Resilience_Config_Changed True _ nowMs \<Rightarrow> [Review_Reset nowMs]
      | _ \<Rightarrow> [])"

text \<open>The resilience record is there, its circuit is none or a record of the present version, as the machine writes it.\<close>

definition circuit_ready :: "('a, 'b) review \<Rightarrow> bool" where
  "circuit_ready s =
     (rv_prReviewResilience s \<noteq> None \<and> stored_circuit_of s = map_option Stored_V2 (circuitRecordOf s) \<and>
      review_inv (circuitRecordOf s))"

lemma circuitRecordOf_withCircuit:
  "rv_prReviewResilience s \<noteq> None \<Longrightarrow> circuitRecordOf (withCircuit s (Some (Stored_V2 r))) = Some r"
  by (auto simp: circuitRecordOf_def stored_circuit_withCircuit)

lemma circuitRecordOf_cong:
  "rv_prReviewResilience s' = rv_prReviewResilience s \<Longrightarrow>
   stored_circuit_of s' = stored_circuit_of s \<and> circuitRecordOf s' = circuitRecordOf s"
  by (simp add: circuitRecordOf_def stored_circuit_of_def)

lemma adopted_ready:
  assumes "circuit_ready s"
  shows "adoptPrReviewCircuit (raw_of_stored (stored_circuit_of s)) t =
    (case circuitRecordOf s of None \<Rightarrow> Adopt_Absent | Some r \<Rightarrow> Adopt_V2 r)"
proof (cases "circuitRecordOf s")
  case None
  then show ?thesis
    using assms by (simp add: circuit_ready_def raw_of_stored_def adoptPrReviewCircuit_def)
next
  case (Some r)
  moreover have "PrReviewCircuitRecordV2Schema r"
    using assms Some by (simp add: circuit_ready_def review_inv_def)
  ultimately show ?thesis
    using assms by (simp add: circuit_ready_def raw_of_stored_def adoptPrReviewCircuit_def)
qed

lemma advance_of_ready:
  assumes "circuit_ready s"
  shows "reducePrReviewEvent lc s (Circuit_Advance_Requested a) =
    (let (act, changed) = advancePrReviewCircuit lc (circuitRecordOf s) (advance_input_of a)
     in Applied (case changed of None \<Rightarrow> s | Some r \<Rightarrow> withCircuit s (Some (Stored_V2 r)))
          ((if changed \<noteq> None \<and> act \<noteq> Admit_As_Probe then [Persist_State] else []) @
           (case act of Block reason \<Rightarrow> [Block_Dispatch reason] | _ \<Rightarrow> [])))"
  by (cases "circuitRecordOf s")
    (simp_all add: reducePrReviewEvent_def circuit_advance_requested_def adopted_ready [OF assms] adopted_record_def
      advance_input_of_def Let_def split: prod.split option.split)

lemma reduce_circuit:
  assumes "circuit_ready s"
  shows "rv_prReviewResilience (reduce_state lc ev s) \<noteq> None \<and>
    circuitRecordOf (reduce_state lc ev s) = fold (review_step lc) (machine_events ev) (circuitRecordOf s) \<and>
    stored_circuit_of (reduce_state lc ev s) = map_option Stored_V2 (circuitRecordOf (reduce_state lc ev s))"
proof -
  have res: "rv_prReviewResilience s \<noteq> None" and st: "stored_circuit_of s = map_option Stored_V2 (circuitRecordOf s)"
    using assms by (simp_all add: circuit_ready_def)
  show ?thesis
  proof (cases ev)
    case (Circuit_Advance_Requested a)
    then show ?thesis
      using res st
      by (cases "snd (advancePrReviewCircuit lc (circuitRecordOf s) (advance_input_of a))")
        (auto simp: reduce_state_def advance_of_ready [OF assms] machine_events_def review_step_def Let_def
          circuitRecordOf_withCircuit stored_circuit_withCircuit withCircuit_resilience split: prod.split)
  next
    case (Circuit_Probe_Settled outcome nowMs policy)
    then show ?thesis
      using res st
      by (cases "circuitRecordOf s"; cases outcome)
        (auto simp: reduce_state_def review_transitions machine_events_def review_step_def rollbackPrReviewCircuitProbe_def
          circuitRecordOf_withCircuit stored_circuit_withCircuit withCircuit_resilience)
  next
    case (Resilience_Config_Changed enabled config nowMs)
    then show ?thesis
      using res st
      by (cases enabled)
        (auto simp: reduce_state_def review_transitions machine_events_def review_step_def circuitRecordOf_def
          stored_circuit_of_def split: option.splits stored_circuit.splits)
  qed (use res st in \<open>auto simp: reduce_state_def review_transitions machine_events_def circuitRecordOf_def stored_circuit_of_def
      Let_def split: option.splits\<close>)
qed

definition named_review_event :: "pr_review_event \<Rightarrow> bool" where
  "named_review_event ev = list_all named_event (machine_events ev)"

lemma reduce_ready: "named_review_event ev \<Longrightarrow> circuit_ready s \<Longrightarrow> circuit_ready (reduce_state lc ev s)"
  using reduce_circuit [of s lc ev] review.guarded_run [of "machine_events ev" "circuitRecordOf s" lc]
  by (simp add: circuit_ready_def named_review_event_def)

interpretation circuits: guarded_machine "reduce_state lc" named_review_event circuit_ready for lc
  by unfold_locales (rule reduce_ready)

text \<open>C21: The state's circuit moves by the circuit's machine and by nothing else.  Whatever events are reduced, one after the
  other, the circuit in the state is what the machine makes of the advances, the rollbacks of an unlaunched probe and
  the re-enabling resets among them; it stays readable by the schema of the state file, and what the machine
  changes is stored: the resilience record never disappears.\<close>

theorem review_circuit_refines_machine:
  assumes "circuit_ready s" and "list_all named_review_event evs"
  shows "circuitRecordOf (fold (reduce_state lc) evs s) =
      fold (review_step lc) (concat (map machine_events evs)) (circuitRecordOf s) \<and>
    circuit_ready (fold (reduce_state lc) evs s)"
proof -
  have "circuitRecordOf (fold (reduce_state lc) evs s) =
      fold (review_step lc) (concat (map machine_events evs)) (circuitRecordOf s)"
    using assms
  proof (induction evs arbitrary: s)
    case (Cons ev evs)
    then have "circuit_ready (reduce_state lc ev s)" by (simp add: reduce_ready)
    with Cons show ?case using reduce_circuit [OF Cons.prems(1), of lc ev] by simp
  qed simp
  then show ?thesis using circuits.guarded_run [OF assms(2,1)] by blast
qed

text \<open>Without a resilience record in the state every opening is lost: an advance whose evidence opens the circuit
  refuses the dispatch and asks for the state to be written, but the state it hands out is the state it was given.\<close>

theorem circuit_lost_without_record:
  assumes "rv_prReviewResilience s = None"
    and "advancePrReviewCircuit lc None (advance_input_of a) = (Block Circuit_Is_Open, Some r)"
  shows "reducePrReviewEvent lc s (Circuit_Advance_Requested a) = Applied s [Persist_State, Block_Dispatch Circuit_Is_Open]"
proof -
  have "stored_circuit_of s = None" using assms(1) by (simp add: stored_circuit_of_def)
  then have "adoptPrReviewCircuit (raw_of_stored (stored_circuit_of s)) (ca_nowMs a) = Adopt_Absent"
    by (simp add: raw_of_stored_def adoptPrReviewCircuit_def)
  then show ?thesis
    using assms by (simp add: reducePrReviewEvent_def circuit_advance_requested_def adopted_record_def Let_def
        advance_input_of_def withCircuit_def)
qed

section \<open>Recovery and results\<close>

lemma js_get_cancel:
  "js_get (fold (\<lambda>d. js_set d c) ds m) d = (if d \<in> set ds then Some c else js_get m d)"
  by (induction ds arbitrary: m) (auto simp: js_get_set)

text \<open>An armed recovery is bound to the exact workflow: it is applied exactly if its session, its head and its generation are
  the state's, the state has a head, and the workflow instances are the same where both are known; then exactly the named
  dimensions become cancelled, for the given reason and time, and earlier cancellations of other dimensions stay.
  Otherwise the state is unchanged; and a lane result of another generation settles nothing.\<close>

theorem recovery_is_bound:
  "reducePrReviewEvent lc s (Armed_Recovery_Requested b ds t reason) =
     (if ab_sessionID b = rv_sessionID s \<and> rv_prHeadSha s = Some (ab_prHeadSha b) \<and> ab_prHeadSha b \<noteq> [] \<and>
         ab_generation b = rv_revision s \<and>
         (ab_workflowInstanceId b = None \<or> rv_workflowInstanceId s = None \<or> ab_workflowInstanceId b = rv_workflowInstanceId s)
      then Applied (s\<lparr>rv_prReviewDimensionCancellations :=
             Some (fold (\<lambda>d. js_set d \<lparr>cn_reason = reason, cn_cancelledAt = t, cn_source = ''armed_recovery''\<rparr>) ds
               (option_or (rv_prReviewDimensionCancellations s) []))\<rparr>) [Persist_State]
      else Rejected s Stale_Foreign_Authorization) \<and>
   js_get (option_or (rv_prReviewDimensionCancellations (reduce_state lc (Armed_Recovery_Requested b ds t reason) s)) []) d =
     (if d \<in> set ds \<and> \<not> bindingRejection s b
      then Some \<lparr>cn_reason = reason, cn_cancelledAt = t, cn_source = ''armed_recovery''\<rparr>
      else js_get (option_or (rv_prReviewDimensionCancellations s) []) d) \<and>
   (reducePrReviewEvent lc s (Lane_Structured_Result_Submitted res) = Rejected s Stale_Generation_Result \<longleftrightarrow>
      lt_generation res \<noteq> rv_revision s)"
proof -
  have rej: "bindingRejection s b \<longleftrightarrow>
      \<not> (ab_sessionID b = rv_sessionID s \<and> rv_prHeadSha s = Some (ab_prHeadSha b) \<and> ab_prHeadSha b \<noteq> [] \<and>
         ab_generation b = rv_revision s \<and>
         (ab_workflowInstanceId b = None \<or> rv_workflowInstanceId s = None \<or> ab_workflowInstanceId b = rv_workflowInstanceId s))"
    by (auto simp: bindingRejection_def currentGeneration_def option_or_def split: option.split)
  have "reducePrReviewEvent lc s (Lane_Structured_Result_Submitted res) = Rejected s Stale_Generation_Result \<longleftrightarrow>
      lt_generation res \<noteq> rv_revision s"
    by (simp add: review_transitions currentGeneration_def split: option.split)
  then show ?thesis
    unfolding rej by (simp add: reduce_state_def review_transitions rej Let_def js_get_cancel option_or_def)
qed

section \<open>Evaluated transitions\<close>

definition review_example :: "unit review_state" where
  "review_example =
     \<lparr>rv_sessionID = ''s1'', rv_workflowInstanceId = None, rv_revision = 3, rv_prHeadSha = Some ''abc'',
      rv_prReviewBaseSha = None, rv_prReviewBaseDispatches = None, rv_prReviewBaseDispatch = None,
      rv_prReviewResilience = Some \<lparr>rl_policy = resolvePrReviewResiliencePolicy None, rl_attempts = [],
        rl_circuit = Some (Stored_V2 (freshRecord 5 True))\<rparr>,
      rv_prReviewContractRetryDimensions = None, rv_prReviewDimensionCancellations = None\<rparr>"

definition advance_example :: circuit_advance where
  "advance_example =
     \<lparr>ca_nowMs = 20, ca_laneSignals = two_failures, ca_probeObservation = None, ca_admission = Some (''b2'', ''l1''),
      ca_policy = resolvePrReviewResiliencePolicy None\<rparr>"

theorem admission_rollback_roundtrip_witness:
  "\<exists>after. reducePrReviewEvent no_collation
      (reduce_state no_collation (Circuit_Advance_Requested advance_example)
        (reduce_state no_collation (Base_Admission_Requested ''b1'' [] 128 ''t'') review_example))
      (Base_Admission_Rolled_Back ''b1'' False) = Applied after [Persist_State] \<and> dispatches_of after = []"
proof -
  have "batch_bounded 128 review_example" "int (length (dispatches_of review_example)) < 128"
    "list_all (\<lambda>ev. \<not> batch_event ev) [Circuit_Advance_Requested advance_example]" "dispatches_of review_example = []"
    by (simp_all add: batch_bounded_def dispatch_stack_def dispatches_of_def option_or_def review_example_def batch_event_def)
  with admission_rollback_roundtrip [of 128 review_example "[Circuit_Advance_Requested advance_example]" no_collation "''b1''" "[]" "''t''"]
  show ?thesis by (auto simp: Let_def)
qed

theorem review_circuit_refines_machine_witness:
  "map_option rc_state (circuitRecordOf (fold (reduce_state no_collation)
      [Circuit_Advance_Requested advance_example, Base_Admission_Requested ''b1'' [] 128 ''t'',
       Circuit_Probe_Settled Ignored_Outcome 30 (resolvePrReviewResiliencePolicy None)] review_example)) = Some Open_State"
proof -
  let ?evs = "[Circuit_Advance_Requested advance_example, Base_Admission_Requested ''b1'' [] 128 ''t'',
       Circuit_Probe_Settled Ignored_Outcome 30 (resolvePrReviewResiliencePolicy None)]"
  have ready: "circuit_ready review_example"
    by (simp add: circuit_ready_def review_example_def stored_circuit_of_def circuitRecordOf_def fresh_inv)
  have named: "list_all named_review_event ?evs" by code_simp
  have "map_option rc_state (fold (review_step no_collation) (concat (map machine_events ?evs)) (circuitRecordOf review_example)) = Some Open_State"
    by code_simp
  with review_circuit_refines_machine [OF ready named, of no_collation] show ?thesis by metis
qed

theorem circuit_lost_without_record_witness:
  "reducePrReviewEvent no_collation (review_example\<lparr>rv_prReviewResilience := None\<rparr>) (Circuit_Advance_Requested advance_example) =
     Applied (review_example\<lparr>rv_prReviewResilience := None\<rparr>) [Persist_State, Block_Dispatch Circuit_Is_Open]"
proof -
  have "map_prod id (map_option rc_state) (advancePrReviewCircuit no_collation None (advance_input_of advance_example)) =
      (Block Circuit_Is_Open, Some Open_State)"
    by code_simp
  then obtain r where "advancePrReviewCircuit no_collation None (advance_input_of advance_example) = (Block Circuit_Is_Open, Some r)"
    by (cases "advancePrReviewCircuit no_collation None (advance_input_of advance_example)") auto
  from circuit_lost_without_record [OF _ this, of "review_example\<lparr>rv_prReviewResilience := None\<rparr>"] show ?thesis by simp
qed

end
