(* ===== verification/Finding_Policy.thy ===== *)
theory Finding_Policy
  imports Review_Reducer
begin

text \<open>
  \<^verbatim>\<open>src/pr-review/finding-policy.ts\<close>: the synthesis of the findings of several reviewers, the policy that projects the final
  findings and the coverage to the verdicts a report may carry, the settlement of critic results, the feedback handoff and
  the terminal readiness; and \<open>allowedPrReviewReportVerdicts\<close> of \<^verbatim>\<open>completion.ts\<close>.  A thrown error is \<open>Inl\<close>.
  A value of type \<open>unknown\<close> that the code tests with \<open>typeof v === 'string'\<close> is \<open>None\<close> where it is none.
  \<open>lc\<close> is \<open>localeCompare\<close>.  A confidence score is given in hundredths.  Persistence and the audit events are not modelled.
\<close>

section \<open>Vocabularies\<close>

datatype finding_severity = Sev_Critical | Sev_High | Sev_Medium | Sev_Low | Sev_Info | Sev_None

datatype finding_action = Route_To_Reviewer | Route_To_Critic | Report | Suppress_With_Reason | Handoff_To_Feedback

datatype finding_status = Status_Unresolved | Status_Confirmed | Status_Disproved | Status_Non_Actionable | Status_Pre_Existing

datatype confidence_label = Low_Confidence | Medium_Confidence | High_Confidence

datatype critic_outcome = Upheld | Downgraded | Disproved | Needs_More_Evidence | Critic_Unavailable

datatype policy_error =
    Invalid_Severity
  | Invalid_Confidence
  | Missing_Field
  | Empty_Identity
  | Too_Many_Candidates
  | Unsupported_Version
  | Downgrade_Without_Severity
  | Upheld_With_None
  | Downgraded_Critical

fun CONFIDENCE_SCORE :: "confidence_label \<Rightarrow> nat" where
  "CONFIDENCE_SCORE Low_Confidence = 35"
| "CONFIDENCE_SCORE Medium_Confidence = 65"
| "CONFIDENCE_SCORE High_Confidence = 95"

fun CONFIDENCE_RANK :: "confidence_label \<Rightarrow> nat" where
  "CONFIDENCE_RANK Low_Confidence = 0"
| "CONFIDENCE_RANK Medium_Confidence = 1"
| "CONFIDENCE_RANK High_Confidence = 2"

fun SEVERITY_RANK :: "finding_severity \<Rightarrow> nat" where
  "SEVERITY_RANK Sev_None = 0"
| "SEVERITY_RANK Sev_Info = 1"
| "SEVERITY_RANK Sev_Low = 2"
| "SEVERITY_RANK Sev_Medium = 3"
| "SEVERITY_RANK Sev_High = 4"
| "SEVERITY_RANK Sev_Critical = 5"

fun ACTION_RANK :: "finding_action \<Rightarrow> nat" where
  "ACTION_RANK Suppress_With_Reason = 0"
| "ACTION_RANK Report = 1"
| "ACTION_RANK Handoff_To_Feedback = 2"
| "ACTION_RANK Route_To_Reviewer = 3"
| "ACTION_RANK Route_To_Critic = 4"

fun STATUS_RANK :: "finding_status \<Rightarrow> nat" where
  "STATUS_RANK Status_Disproved = 0"
| "STATUS_RANK Status_Pre_Existing = 1"
| "STATUS_RANK Status_Non_Actionable = 1"
| "STATUS_RANK Status_Unresolved = 2"
| "STATUS_RANK Status_Confirmed = 3"

definition severity :: "string \<Rightarrow> policy_error + finding_severity" where
  "severity v =
     (if v = ''CRITICAL'' then Inr Sev_Critical else if v = ''HIGH'' then Inr Sev_High
      else if v = ''MEDIUM'' then Inr Sev_Medium else if v = ''LOW'' then Inr Sev_Low
      else if v = ''INFO'' then Inr Sev_Info else if v = ''NONE'' then Inr Sev_None
      else Inl Invalid_Severity)"

text \<open>An action or a status outside the vocabulary, or none at all, is read as \<open>report\<close> and \<open>UNRESOLVED\<close>.\<close>

definition action :: "string option \<Rightarrow> finding_action" where
  "action v =
     (if v = Some ''route_to_reviewer'' then Route_To_Reviewer else if v = Some ''route_to_critic'' then Route_To_Critic
      else if v = Some ''suppress_with_reason'' then Suppress_With_Reason
      else if v = Some ''handoff_to_feedback'' then Handoff_To_Feedback else Report)"

definition status :: "string option \<Rightarrow> finding_status" where
  "status v =
     (if v = Some ''CONFIRMED'' then Status_Confirmed else if v = Some ''DISPROVED'' then Status_Disproved
      else if v = Some ''NON_ACTIONABLE'' then Status_Non_Actionable
      else if v = Some ''PRE_EXISTING'' then Status_Pre_Existing else Status_Unresolved)"

text \<open>\<open>toUpperCase\<close> on the letters of ASCII; the result is compared with ASCII words only, and no other letter below 256
  has an upper case that occurs in one of them.\<close>

definition upper_char :: "char \<Rightarrow> char" where
  "upper_char c = (let n = (of_char c :: nat) in if 97 \<le> n \<and> n \<le> 122 then char_of (n - 32) else c)"

definition to_upper :: "string \<Rightarrow> string" where
  "to_upper s = map upper_char s"

definition parseCandidateConfidence :: "string option \<Rightarrow> policy_error + confidence_label" where
  "parseCandidateConfidence v =
     (case v of
        None \<Rightarrow> Inl Invalid_Confidence
      | Some s \<Rightarrow>
          let normalized = to_upper (js_trim s)
          in if normalized = ''LOW'' then Inr Low_Confidence
             else if normalized = ''MEDIUM'' then Inr Medium_Confidence
             else if normalized = ''HIGH'' then Inr High_Confidence
             else Inl Invalid_Confidence)"

section \<open>Candidates\<close>

record provenance =
  pv_identity :: string
  pv_lane :: "string option"

record finding_location =
  fl_file :: string
  fl_line :: int
  fl_lineEnd :: "int option"

record candidate =
  cd_finding :: "string option"
  cd_severity :: string
  cd_action :: "string option"
  cd_confidence :: "string option"
  cd_category :: "string option"
  cd_location :: finding_location
  cd_provenance :: "provenance list"
  cd_status :: "string option"
  cd_sourceFindingId :: "string option"

text \<open>A candidate as the loop stores it in its group: texts trimmed, severity and confidence parsed.\<close>

record parsed_candidate =
  cp_finding :: string
  cp_severity :: finding_severity
  cp_action :: "string option"
  cp_confidence :: confidence_label
  cp_category :: string
  cp_location :: finding_location
  cp_provenance :: "provenance list"
  cp_status :: "string option"
  cp_sourceFindingId :: "string option"

record synthesized_finding =
  sf_id :: string
  sf_finding :: string
  sf_severity :: finding_severity
  sf_action :: finding_action
  sf_confidence :: confidence_label
  sf_confidenceScore :: nat
  sf_agreementCount :: nat
  sf_category :: string
  sf_location :: finding_location
  sf_provenance :: "provenance list"
  sf_status :: finding_status
  sf_sourceFindingIds :: "string list"

definition MAX_FINDING_SYNTHESIS_CANDIDATES :: nat where "MAX_FINDING_SYNTHESIS_CANDIDATES = 256"

definition TOKEN_ALIASES :: "(string \<times> string) list" where
  "TOKEN_ALIASES =
     [(''authorization'', ''auth''), (''authorized'', ''auth''), (''authorise'', ''auth''), (''authorised'', ''auth''),
      (''permissions'', ''permission''), (''checking'', ''check''), (''checked'', ''check''), (''checks'', ''check''),
      (''reading'', ''read''), (''reads'', ''read''), (''requests'', ''request''), (''path'', ''endpoint''),
      (''skips'', ''skip''), (''skipped'', ''skip''), (''skipping'', ''skip'')]"

definition TOKEN_STOPWORDS :: "string list" where
  "TOKEN_STOPWORDS =
     [''the'', ''and'', ''for'', ''with'', ''from'', ''evidence'', ''critic'', ''reviewer'', ''explorer'', ''rationale'',
      ''reason'', ''change'', ''probe'']"

text \<open>The table is a plain object, so the lookup also finds what every object inherits.  Of those names only \<open>constructor\<close> can be a
  word; what is found is a function, in a set by its identity and in the id by its text, which is not a word.\<close>

definition INHERITED_ALIASES :: "(string \<times> string) list" where
  "INHERITED_ALIASES = [(''constructor'', ''function Object() { [native code] }'')]"

text \<open>Every run of other characters separates words; what is empty or shorter than three characters is dropped anyway.\<close>

definition token_char :: "char \<Rightarrow> bool" where
  "token_char c = (let n = (of_char c :: nat) in (97 \<le> n \<and> n \<le> 122) \<or> (48 \<le> n \<and> n \<le> 57))"

definition tokens :: "string \<Rightarrow> string list" where
  "tokens v =
     js_uniq (map (\<lambda>t. option_or (map_of (TOKEN_ALIASES @ INHERITED_ALIASES) t) t)
       (filter (\<lambda>t. length t \<ge> 3 \<and> t \<notin> set TOKEN_STOPWORDS)
         (split_on CHR '' '' (map (\<lambda>c. if token_char c then c else CHR '' '') (to_lower v)))))"

text \<open>\<open>semanticSimilaritySets(a, b) >= 0.3\<close>: the quotient of the sizes of the intersection and of the union, which as a
  double is at least the double 0.3 exactly if ten times the one is at least three times the other.\<close>

definition similar :: "string list \<Rightarrow> string list \<Rightarrow> bool" where
  "similar a b =
     (if a = [] \<or> b = [] then False
      else let intersection = length (filter (\<lambda>t. t \<in> set b) a)
           in 10 * intersection \<ge> 3 * (length a + length b - intersection))"

definition normalizedLocation :: "finding_location \<Rightarrow> string" where
  "normalizedLocation l =
     to_lower (js_trim (map (\<lambda>c. if c = backslash then slash else c) (fl_file l))) @ '':'' @
     show_int (fl_line l) @ ''-'' @ show_int (option_or (fl_lineEnd l) (fl_line l))"

definition normalizedCategory :: "string \<Rightarrow> string" where
  "normalizedCategory category = to_lower (js_trim category)"

definition provenanceKey :: "provenance \<Rightarrow> string" where
  "provenanceKey p = js_trim (pv_identity p)"

fun unique_provenance :: "provenance list \<Rightarrow> (string, provenance) js_map \<Rightarrow> policy_error + (string, provenance) js_map" where
  "unique_provenance [] m = Inr m"
| "unique_provenance (p # ps) m =
     (if provenanceKey p = [] then Inl Empty_Identity
      else unique_provenance ps (if js_has m (provenanceKey p) then m else js_set (provenanceKey p) p m))"

definition uniqueProvenance ::
  "(string \<Rightarrow> string \<Rightarrow> int) \<Rightarrow> provenance list \<Rightarrow> policy_error + provenance list" where
  "uniqueProvenance lc values =
     (case unique_provenance values [] of
        Inl e \<Rightarrow> Inl e
      | Inr m \<Rightarrow> Inr (js_sort (\<lambda>a b. lc (provenanceKey a) (provenanceKey b)) (map snd m)))"

definition sameFinding :: "parsed_candidate \<Rightarrow> string list \<Rightarrow> parsed_candidate \<Rightarrow> string list \<Rightarrow> bool" where
  "sameFinding left leftTokens right rightTokens =
     (if normalizedCategory (cp_category left) \<noteq> normalizedCategory (cp_category right) then False
      else if normalizedLocation (cp_location left) \<noteq> normalizedLocation (cp_location right) then False
      else if js_trim (cp_finding left) = js_trim (cp_finding right) then True
      else similar leftTokens rightTokens)"

text \<open>FNV-1a over the material, as in the diagnostic of the circuit.\<close>

definition finding_material :: "parsed_candidate \<Rightarrow> string" where
  "finding_material v =
     normalizedLocation (cp_location v) @ ''|'' @ normalizedCategory (cp_category v) @ ''|'' @
     js_join '','' (js_sort code_unit_compare (tokens (cp_finding v)))"

definition findingId :: "parsed_candidate \<Rightarrow> string" where
  "findingId v = ''finding-'' @ body_hash (finding_material v)"

text \<open>\<open>reduce\<close> with a comparison of ranks: the first of the highest, the first of the lowest.\<close>

fun reduce_max :: "('a \<Rightarrow> nat) \<Rightarrow> 'a \<Rightarrow> 'a list \<Rightarrow> 'a" where
  "reduce_max rank h [] = h"
| "reduce_max rank h (v # vs) = reduce_max rank (if rank v > rank h then v else h) vs"

fun reduce_min :: "('a \<Rightarrow> nat) \<Rightarrow> 'a \<Rightarrow> 'a list \<Rightarrow> 'a" where
  "reduce_min rank l [] = l"
| "reduce_min rank l (v # vs) = reduce_min rank (if rank v < rank l then v else l) vs"

definition lowestConfidence :: "confidence_label list \<Rightarrow> confidence_label" where
  "lowestConfidence vs = reduce_min CONFIDENCE_RANK (hd vs) (tl vs)"

section \<open>Synthesis\<close>

definition parse_candidate :: "candidate \<Rightarrow> policy_error + parsed_candidate" where
  "parse_candidate raw =
     (case severity (cd_severity raw) of
        Inl e \<Rightarrow> Inl e
      | Inr sev \<Rightarrow>
          (case parseCandidateConfidence (cd_confidence raw) of
             Inl e \<Rightarrow> Inl e
           | Inr conf \<Rightarrow>
               let finding = js_trim (option_or (cd_finding raw) []);
                   category = js_trim (option_or (cd_category raw) [])
               in if finding = [] \<or> category = [] \<or> fl_file (cd_location raw) = [] then Inl Missing_Field
                  else Inr \<lparr>cp_finding = finding, cp_severity = sev, cp_action = cd_action raw, cp_confidence = conf,
                            cp_category = category, cp_location = cd_location raw, cp_provenance = cd_provenance raw,
                            cp_status = cd_status raw, cp_sourceFindingId = cd_sourceFindingId raw\<rparr>))"

text \<open>The candidate joins the first group whose first member is the same finding, or opens a group.  The tokens kept
  beside a group are those of its first member.\<close>

fun add_to_groups :: "parsed_candidate \<Rightarrow> parsed_candidate list list \<Rightarrow> parsed_candidate list list" where
  "add_to_groups c [] = [[c]]"
| "add_to_groups c (g # gs) =
     (if sameFinding (hd g) (tokens (cp_finding (hd g))) c (tokens (cp_finding c)) then (g @ [c]) # gs
      else g # add_to_groups c gs)"

fun group_candidates ::
  "candidate list \<Rightarrow> parsed_candidate list list \<Rightarrow> policy_error + parsed_candidate list list" where
  "group_candidates [] groups = Inr groups"
| "group_candidates (raw # raws) groups =
     (case parse_candidate raw of
        Inl e \<Rightarrow> Inl e
      | Inr c \<Rightarrow> group_candidates raws (add_to_groups c groups))"

definition synthesize_group ::
  "(string \<Rightarrow> string \<Rightarrow> int) \<Rightarrow> parsed_candidate list \<Rightarrow> policy_error + synthesized_finding" where
  "synthesize_group lc g =
     (case uniqueProvenance lc (concat (map cp_provenance g)) of
        Inl e \<Rightarrow> Inl e
      | Inr provs \<Rightarrow>
          let first = hd g;
              severities = map cp_severity g;
              confidences = map cp_confidence g;
              actions = map (action \<circ> cp_action) g;
              statuses = map (status \<circ> cp_status) g;
              confidence = (if length provs \<ge> 2 then High_Confidence else lowestConfidence confidences)
          in Inr
               \<lparr>sf_id = findingId first, sf_finding = cp_finding first,
                sf_severity = reduce_max SEVERITY_RANK (hd severities) (tl severities),
                sf_action = reduce_max ACTION_RANK (hd actions) (tl actions),
                sf_confidence = confidence, sf_confidenceScore = CONFIDENCE_SCORE confidence,
                sf_agreementCount = length provs, sf_category = cp_category first, sf_location = cp_location first,
                sf_provenance = provs, sf_status = reduce_max STATUS_RANK (hd statuses) (tl statuses),
                sf_sourceFindingIds = js_sort code_unit_compare (js_uniq (List.map_filter cp_sourceFindingId g))\<rparr>)"

definition group_diagnostic :: "parsed_candidate list \<Rightarrow> string list" where
  "group_diagnostic g =
     (if length (js_uniq (map cp_severity g)) > 1 \<or> length (js_uniq (map cp_confidence g)) > 1
      then [''conservative disagreement at '' @ normalizedLocation (cp_location (hd g))] else [])"

fun synthesize_groups ::
  "(string \<Rightarrow> string \<Rightarrow> int) \<Rightarrow> parsed_candidate list list \<Rightarrow> policy_error + (synthesized_finding list \<times> string list)" where
  "synthesize_groups lc [] = Inr ([], [])"
| "synthesize_groups lc (g # gs) =
     (case synthesize_group lc g of
        Inl e \<Rightarrow> Inl e
      | Inr f \<Rightarrow>
          (case synthesize_groups lc gs of
             Inl e \<Rightarrow> Inl e
           | Inr (fs, ds) \<Rightarrow> Inr (f # fs, group_diagnostic g @ ds)))"

definition synthesizePrReviewFindings ::
  "(string \<Rightarrow> string \<Rightarrow> int) \<Rightarrow> candidate list \<Rightarrow> policy_error + (synthesized_finding list \<times> string list)" where
  "synthesizePrReviewFindings lc candidates =
     (if length candidates > MAX_FINDING_SYNTHESIS_CANDIDATES then Inl Too_Many_Candidates
      else case group_candidates candidates [] of Inl e \<Rightarrow> Inl e | Inr groups \<Rightarrow> synthesize_groups lc groups)"

section \<open>The final policy\<close>

record policy_finding =
  pf_id :: "string option"
  pf_severity :: string
  pf_action :: string
  pf_status :: string

record policy_coverage =
  pc_kind :: string
  pc_quality :: string
  pc_provenance :: "string option"
  pc_disclosed :: "bool option"

datatype coverage_disposition =
    Disp_Complete | Disp_Partial | Disp_Degraded_Disclosed | Disp_Invalid_Provenance | Disp_No_Coverage

record policy_projection =
  pp_permittedVerdicts :: "report_verdict list"
  pp_coverageDisposition :: coverage_disposition
  pp_blockingFindingIds :: "string list"

definition active_status :: "string \<Rightarrow> bool" where
  "active_status v = (to_upper v \<in> {''UNRESOLVED'', ''UNVERIFIED'', ''CONFIRMED''})"

definition blocking :: "finding_severity \<Rightarrow> finding_action \<Rightarrow> string \<Rightarrow> bool" where
  "blocking sev act st =
     (active_status st \<and> sev \<noteq> Sev_None \<and>
      (sev = Sev_Critical \<or> sev = Sev_High \<or> (sev = Sev_Medium \<and> act \<noteq> Report)))"

fun blocking_ids :: "nat \<Rightarrow> policy_finding list \<Rightarrow> policy_error + string list" where
  "blocking_ids index [] = Inr []"
| "blocking_ids index (f # fs) =
     (case severity (pf_severity f) of
        Inl e \<Rightarrow> Inl e
      | Inr sev \<Rightarrow>
          (case blocking_ids (Suc index) fs of
             Inl e \<Rightarrow> Inl e
           | Inr ids \<Rightarrow>
               Inr (if blocking sev (action (Some (pf_action f))) (pf_status f)
                    then option_or (pf_id f) (show_nat index) # ids else ids)))"

definition FINDING_POLICY_VERSION :: int where "FINDING_POLICY_VERSION = 1"

definition evaluateFinalFindingPolicy ::
  "int \<Rightarrow> string \<Rightarrow> policy_coverage \<Rightarrow> policy_finding list \<Rightarrow> policy_error + policy_projection" where
  "evaluateFinalFindingPolicy policyVersion finalStatus coverage findings =
     (if policyVersion \<noteq> FINDING_POLICY_VERSION then Inl Unsupported_Version
      else
        let invalidProvenance = (pc_provenance coverage = Some ''invalid'');
            noCoverage = (pc_quality coverage = ''none'' \<or>
              (pc_kind coverage = ''base'' \<and> pc_quality coverage = ''partial'' \<and> length findings = 0));
            disposition =
              (if invalidProvenance then Disp_Invalid_Provenance
               else if noCoverage then Disp_No_Coverage
               else if pc_quality coverage = ''degraded'' \<and> pc_disclosed coverage = Some True then Disp_Degraded_Disclosed
               else if pc_quality coverage = ''complete'' then Disp_Complete
               else Disp_Partial)
        in if finalStatus \<noteq> ''COMPLETE'' \<or> invalidProvenance \<or> noCoverage
           then Inr \<lparr>pp_permittedVerdicts = [Incomplete], pp_coverageDisposition = disposition, pp_blockingFindingIds = []\<rparr>
           else case blocking_ids 0 findings of
                  Inl e \<Rightarrow> Inl e
                | Inr ids \<Rightarrow>
                    if 0 < length ids
                    then Inr \<lparr>pp_permittedVerdicts = [Request_Changes, Incomplete], pp_coverageDisposition = disposition,
                              pp_blockingFindingIds = ids\<rparr>
                    else if disposition = Disp_Degraded_Disclosed \<or> disposition = Disp_Partial
                    then Inr \<lparr>pp_permittedVerdicts = [Request_Changes, Incomplete], pp_coverageDisposition = disposition,
                              pp_blockingFindingIds = ids\<rparr>
                    else Inr \<lparr>pp_permittedVerdicts = [Approve, Request_Changes, Incomplete],
                              pp_coverageDisposition = disposition, pp_blockingFindingIds = ids\<rparr>)"

definition policy_coverage_of :: "coverage_kind \<Rightarrow> bool \<Rightarrow> policy_coverage" where
  "policy_coverage_of kind degraded =
     \<lparr>pc_kind = ''base'',
      pc_quality = (if degraded then ''degraded''
                    else case kind of Complete_Coverage \<Rightarrow> ''complete'' | Partial_Coverage \<Rightarrow> ''partial'' | No_Coverage \<Rightarrow> ''none''),
      pc_provenance = Some ''valid'', pc_disclosed = (if degraded then Some True else None)\<rparr>"

definition allowedPrReviewReportVerdicts ::
  "coverage_kind \<Rightarrow> policy_finding list \<Rightarrow> bool \<Rightarrow> policy_error + report_verdict list" where
  "allowedPrReviewReportVerdicts kind findings disclosedCoverageDegradation =
     (if kind = Partial_Coverage \<and> length findings = 0 then Inr [Request_Changes, Incomplete]
      else
        let degraded = (kind = Complete_Coverage \<and> disclosedCoverageDegradation)
        in case evaluateFinalFindingPolicy 1 ''COMPLETE'' (policy_coverage_of kind degraded) findings of
             Inl e \<Rightarrow> Inl e
           | Inr projection \<Rightarrow>
               let supported = filter (\<lambda>v. kind = Complete_Coverage \<or> v \<noteq> Approve) (pp_permittedVerdicts projection)
               in Inr (if 0 < length supported then supported else [Incomplete]))"

section \<open>Critic settlement, handoff, readiness\<close>

record settlement_finding =
  sg_id :: string
  sg_severity :: string
  sg_action :: string
  sg_status :: string

record critic_settlement =
  ct_terminal :: bool
  ct_status :: critic_outcome
  ct_finalFinding :: settlement_finding
  ct_handoffFindingIds :: "string list"

fun severity_name :: "finding_severity \<Rightarrow> string" where
  "severity_name Sev_Critical = ''CRITICAL''"
| "severity_name Sev_High = ''HIGH''"
| "severity_name Sev_Medium = ''MEDIUM''"
| "severity_name Sev_Low = ''LOW''"
| "severity_name Sev_Info = ''INFO''"
| "severity_name Sev_None = ''NONE''"

fun action_name :: "finding_action \<Rightarrow> string" where
  "action_name Route_To_Reviewer = ''route_to_reviewer''"
| "action_name Route_To_Critic = ''route_to_critic''"
| "action_name Report = ''report''"
| "action_name Suppress_With_Reason = ''suppress_with_reason''"
| "action_name Handoff_To_Feedback = ''handoff_to_feedback''"

definition settleCriticFinding ::
  "settlement_finding \<Rightarrow> critic_outcome \<Rightarrow> string option \<Rightarrow> string option \<Rightarrow> policy_error + critic_settlement" where
  "settleCriticFinding finding outcome finalSeverity finalAction =
     (if outcome = Needs_More_Evidence
      then Inr \<lparr>ct_terminal = False, ct_status = outcome, ct_finalFinding = finding, ct_handoffFindingIds = []\<rparr>
      else if outcome = Critic_Unavailable
      then Inr \<lparr>ct_terminal = True, ct_status = outcome, ct_finalFinding = finding, ct_handoffFindingIds = []\<rparr>
      else if outcome = Disproved
      then Inr \<lparr>ct_terminal = True, ct_status = outcome,
                ct_finalFinding = finding\<lparr>sg_severity := ''NONE'', sg_action := ''suppress_with_reason'', sg_status := ''DISPROVED''\<rparr>,
                ct_handoffFindingIds = []\<rparr>
      else if outcome = Downgraded \<and> finalSeverity = None then Inl Downgrade_Without_Severity
      else case severity (option_or finalSeverity (sg_severity finding)) of
             Inl e \<Rightarrow> Inl e
           | Inr sev \<Rightarrow>
               if outcome = Upheld \<and> sev = Sev_None then Inl Upheld_With_None
               else if outcome = Downgraded \<and> sev = Sev_Critical then Inl Downgraded_Critical
               else
                 let act = action (Some (option_or finalAction (sg_action finding)))
                 in Inr \<lparr>ct_terminal = True, ct_status = outcome,
                         ct_finalFinding = finding\<lparr>sg_severity := severity_name sev, sg_action := action_name act\<rparr>,
                         ct_handoffFindingIds =
                           (if act = Handoff_To_Feedback \<and> sg_status finding \<noteq> ''DISPROVED'' then [sg_id finding] else [])\<rparr>)"

record ledger_row =
  le_finding_id :: string
  le_status :: string
  le_next_action :: string

definition deriveFeedbackHandoffFindingIds :: "ledger_row list \<Rightarrow> string list" where
  "deriveFeedbackHandoffFindingIds records =
     js_sort code_unit_compare (js_uniq (map le_finding_id
       (filter (\<lambda>r. le_status r = ''CONFIRMED'' \<and> le_next_action r = ''handoff_to_feedback'') records)))"

record terminal_receipt =
  tr_id :: string
  tr_valid :: bool

record readiness_input =
  rn_baseReceipt :: "terminal_receipt option"
  rn_reviewerReceipts :: "terminal_receipt list"
  rn_criticReceipt :: "terminal_receipt option"
  rn_coverage :: policy_coverage
  rn_councilEnabled :: bool
  rn_councilReceipt :: "terminal_receipt option"
  rn_criticSettlements :: "bool list option"

definition receipt_valid :: "terminal_receipt option \<Rightarrow> bool" where
  "receipt_valid r = (case r of None \<Rightarrow> False | Some t \<Rightarrow> tr_valid t)"

definition readiness_blockers :: "readiness_input \<Rightarrow> string list" where
  "readiness_blockers inp =
     (if receipt_valid (rn_baseReceipt inp) then [] else [''BASE_RECEIPT_MISSING'']) @
     (if rn_reviewerReceipts inp = [] \<or> list_ex (\<lambda>r. \<not> tr_valid r) (rn_reviewerReceipts inp)
      then [''REVIEWER_RECEIPT_MISSING''] else []) @
     (if receipt_valid (rn_criticReceipt inp) then [] else [''CRITIC_RECEIPT_MISSING'']) @
     (if receipt_valid (rn_criticReceipt inp) \<and> rn_criticSettlements inp = Some []
      then [''CRITIC_SETTLEMENT_MISSING''] else []) @
     (if rn_councilEnabled inp \<and> \<not> receipt_valid (rn_councilReceipt inp) then [''COUNCIL_RECEIPT_MISSING''] else []) @
     (if pc_kind (rn_coverage inp) = ''micro'' \<and> pc_provenance (rn_coverage inp) = Some ''invalid''
      then [''MICRO_PROVENANCE_INVALID''] else []) @
     (if pc_quality (rn_coverage inp) = ''degraded'' \<and> pc_disclosed (rn_coverage inp) \<noteq> Some True
      then [''MICRO_DEGRADATION_UNDISCLOSED''] else []) @
     (if list_ex Not (option_or (rn_criticSettlements inp) []) then [''CRITIC_SETTLEMENT_INCOMPLETE''] else [])"

definition assessTerminalReadiness :: "readiness_input \<Rightarrow> bool \<times> string list \<times> bool" where
  "assessTerminalReadiness inp =
     (let blockers = readiness_blockers inp
      in (length blockers = 0, blockers,
          pc_quality (rn_coverage inp) = ''degraded'' \<and> pc_provenance (rn_coverage inp) = Some ''valid'' \<and>
          pc_disclosed (rn_coverage inp) = Some True))"

end
