(* ===== verification/Finding_Policy_Facts.thy ===== *)
theory Finding_Policy_Facts
  imports Finding_Policy Review_Reducer_Facts
begin

text \<open>
  What the finding policy guarantees: the verdicts a report may carry, their agreement with the transition authority, that
  synthesis never weakens what a reviewer reported, and that the retry of a reviewer adds nothing.
\<close>

section \<open>Verdicts\<close>

definition finding_blocks :: "policy_finding \<Rightarrow> bool" where
  "finding_blocks f =
     (case severity (pf_severity f) of
        Inl _ \<Rightarrow> False
      | Inr sev \<Rightarrow> blocking sev (action (Some (pf_action f))) (pf_status f))"

definition known_severity :: "policy_finding \<Rightarrow> bool" where
  "known_severity f = (case severity (pf_severity f) of Inl _ \<Rightarrow> False | Inr _ \<Rightarrow> True)"

lemma severity_error: "severity v = Inl e \<Longrightarrow> e = Invalid_Severity"
  by (auto simp: severity_def split: if_splits)

lemma blocking_ids_cases:
  "if list_all known_severity fs
   then \<exists>ids. blocking_ids n fs = Inr ids \<and> (ids = [] \<longleftrightarrow> (\<forall>f \<in> set fs. \<not> finding_blocks f))
   else blocking_ids n fs = Inl Invalid_Severity"
proof (induction fs arbitrary: n)
  case (Cons f fs)
  show ?case
  proof (cases "severity (pf_severity f)")
    case (Inl e)
    then show ?thesis using severity_error [OF Inl] by (simp add: known_severity_def)
  next
    case (Inr sev)
    then have "known_severity f" "finding_blocks f \<longleftrightarrow> blocking sev (action (Some (pf_action f))) (pf_status f)"
      by (simp_all add: known_severity_def finding_blocks_def)
    then show ?thesis
      using Inr Cons.IH [of "Suc n"] by (cases "list_all known_severity fs") auto
  qed
qed simp

text \<open>C22: When a review may approve.  Unless a final finding has no valid severity, which is an error except when nothing was
  covered, every report may be \<open>INCOMPLETE\<close>, it may request changes exactly if something was covered, and it may
  approve exactly if every dimension was covered, no degradation was disclosed and no finding blocks, that is, is
  active and critical, high, or medium with more than a report to be done.\<close>

theorem approval_needs_clean_full_review:
  "case allowedPrReviewReportVerdicts kind findings degraded of
     Inl e \<Rightarrow> e = Invalid_Severity \<and> kind \<noteq> No_Coverage \<and> \<not> list_all known_severity findings
   | Inr vs \<Rightarrow>
       (kind = No_Coverage \<or> list_all known_severity findings) \<and> Incomplete \<in> set vs \<and>
       (Request_Changes \<in> set vs \<longleftrightarrow> kind \<noteq> No_Coverage) \<and>
       (Approve \<in> set vs \<longleftrightarrow> kind = Complete_Coverage \<and> \<not> degraded \<and> (\<forall>f \<in> set findings. \<not> finding_blocks f))"
proof (cases "list_all known_severity findings")
  case True
  then obtain ids where "blocking_ids 0 findings = Inr ids" "ids = [] \<longleftrightarrow> (\<forall>f \<in> set findings. \<not> finding_blocks f)"
    using blocking_ids_cases [of findings 0] by auto
  with True show ?thesis
    by (cases kind; cases degraded)
      (auto simp: allowedPrReviewReportVerdicts_def evaluateFinalFindingPolicy_def policy_coverage_of_def
        FINDING_POLICY_VERSION_def Let_def)
next
  case False
  then have "blocking_ids 0 findings = Inl Invalid_Severity" and "findings \<noteq> []"
    using blocking_ids_cases [of findings 0] by auto
  with False show ?thesis
    by (cases kind; cases degraded)
      (auto simp: allowedPrReviewReportVerdicts_def evaluateFinalFindingPolicy_def policy_coverage_of_def
        FINDING_POLICY_VERSION_def Let_def)
qed

text \<open>C30: The transition authority and the policy state the same verdict matrix: a finalization with a verdict is applied exactly
  if no dimension is live and the verdict is among those the policy allows for the coverage, before any finding is counted;
  it never changes the state, and with findings the policy allows no verdict that the authority rejects.\<close>

theorem reducer_enforces_policy_matrix:
  "(reducePrReviewEvent lc s (Coverage_Finalization_Requested settlement (Some v) degraded) = Applied s [] \<longleftrightarrow>
      cs_liveDimensions settlement = [] \<and>
      (\<exists>vs. allowedPrReviewReportVerdicts (cs_kind settlement) [] degraded = Inr vs \<and> v \<in> set vs)) \<and>
   result_state (reducePrReviewEvent lc s (Coverage_Finalization_Requested settlement (Some v) degraded)) = s \<and>
   (case allowedPrReviewReportVerdicts (cs_kind settlement) findings degraded of
      Inl _ \<Rightarrow> True
    | Inr vs \<Rightarrow> v \<notin> set vs \<or> (\<exists>ws. allowedPrReviewReportVerdicts (cs_kind settlement) [] degraded = Inr ws \<and> v \<in> set ws))"
  by (cases "cs_kind settlement"; cases v; cases degraded)
    (auto simp: reducePrReviewEvent_def coverage_finalization_requested_def allowedPrReviewReportVerdicts_def
      evaluateFinalFindingPolicy_def policy_coverage_of_def FINDING_POLICY_VERSION_def Let_def split: sum.split)

section \<open>Reductions by rank\<close>

lemma reduce_max_ge: "rank h \<le> rank (reduce_max rank h vs) \<and> (\<forall>v \<in> set vs. rank v \<le> rank (reduce_max rank h vs))"
proof (induction vs arbitrary: h)
  case (Cons v vs)
  show ?case using Cons.IH [of v] Cons.IH [of h] by (cases "rank v > rank h"; cases "rank v < rank h") force+
qed simp

lemma reduce_max_of:
  assumes "xs \<noteq> []" "x \<in> set xs"
  shows "rank x \<le> rank (reduce_max rank (hd xs) (tl xs))"
  using assms reduce_max_ge [of rank "hd xs" "tl xs"] by (cases xs) auto

lemma reduce_max_snoc: "reduce_max rank h (vs @ [v]) =
    (if rank v > rank (reduce_max rank h vs) then v else reduce_max rank h vs)"
  by (induction vs arbitrary: h) auto

lemma reduce_min_le: "rank (reduce_min rank h vs) \<le> rank h \<and> (\<forall>v \<in> set vs. rank (reduce_min rank h vs) \<le> rank v)"
proof (induction vs arbitrary: h)
  case (Cons v vs)
  show ?case using Cons.IH [of v] Cons.IH [of h] by (cases "rank v > rank h"; cases "rank v < rank h") force+
qed simp

lemma reduce_min_snoc: "reduce_min rank h (vs @ [v]) =
    (if rank v < rank (reduce_min rank h vs) then v else reduce_min rank h vs)"
  by (induction vs arbitrary: h) auto

lemma reduce_max_repeat:
  assumes "xs \<noteq> []" "x \<in> set xs"
  shows "reduce_max rank (hd (xs @ [x])) (tl (xs @ [x])) = reduce_max rank (hd xs) (tl xs)"
  using assms reduce_max_of [OF assms, of rank] by (simp add: reduce_max_snoc)

lemma reduce_min_repeat:
  assumes "xs \<noteq> []" "x \<in> set xs"
  shows "reduce_min rank (hd (xs @ [x])) (tl (xs @ [x])) = reduce_min rank (hd xs) (tl xs)"
proof -
  have "rank (reduce_min rank (hd xs) (tl xs)) \<le> rank x"
    using assms reduce_min_le [of rank "hd xs" "tl xs"] by (cases xs) auto
  then show ?thesis using assms(1) by (simp add: reduce_min_snoc)
qed

section \<open>Provenance\<close>

definition identified :: "provenance list \<Rightarrow> bool" where
  "identified ps = list_all (\<lambda>p. provenanceKey p \<noteq> []) ps"

lemma unique_provenance_append:
  "unique_provenance (ps @ qs) m = (case unique_provenance ps m of Inl e \<Rightarrow> Inl e | Inr m' \<Rightarrow> unique_provenance qs m')"
  by (induction ps arbitrary: m) auto

lemma unique_provenance_known:
  "list_all (\<lambda>p. provenanceKey p \<noteq> [] \<and> js_has m (provenanceKey p)) ps \<Longrightarrow> unique_provenance ps m = Inr m"
  by (induction ps) auto

text \<open>Every entry of the map is filed under its own key.\<close>

definition keyed :: "(string, provenance) js_map \<Rightarrow> bool" where
  "keyed m = (distinct (js_keys m) \<and> (\<forall>(k, p) \<in> set m. k = provenanceKey p))"

lemma js_set_new: "k \<notin> set (js_keys m) \<Longrightarrow> js_set k v m = m @ [(k, v)]"
  by (induction m) auto

lemma keyed_js_set: "keyed m \<Longrightarrow> \<not> js_has m (provenanceKey p) \<Longrightarrow> keyed (js_set (provenanceKey p) p m)"
  by (auto simp: keyed_def js_has_keys js_set_new)

lemma unique_provenance_facts:
  assumes "unique_provenance ps m = Inr m'" "keyed m"
  shows "keyed m' \<and> set (js_keys m') = set (js_keys m) \<union> provenanceKey ` set ps \<and> identified ps"
  using assms
proof (induction ps arbitrary: m)
  case (Cons p ps)
  let ?m = "if js_has m (provenanceKey p) then m else js_set (provenanceKey p) p m"
  have "keyed ?m" using Cons.prems(2) by (simp add: keyed_js_set)
  moreover have "unique_provenance ps ?m = Inr m'" and "provenanceKey p \<noteq> []"
    using Cons.prems(1) by (auto split: if_splits)
  moreover have "set (js_keys ?m) = insert (provenanceKey p) (set (js_keys m))"
    by (auto simp: js_has_keys js_set_new)
  ultimately show ?case using Cons.IH [of ?m] by (auto simp: identified_def)
qed (simp add: identified_def)

lemma keyed_values: "keyed m \<Longrightarrow> map provenanceKey (map snd m) = js_keys m"
  by (auto simp: keyed_def)

lemma uniqueProvenance_facts:
  assumes "uniqueProvenance lc ps = Inr qs"
  shows "provenanceKey ` set qs = provenanceKey ` set ps" "length qs = card (provenanceKey ` set ps)"
proof -
  obtain m where m: "unique_provenance ps [] = Inr m" and qs: "qs = js_sort (\<lambda>a b. lc (provenanceKey a) (provenanceKey b)) (map snd m)"
    using assms by (auto simp: uniqueProvenance_def split: sum.splits)
  have k: "keyed m" "set (js_keys m) = provenanceKey ` set ps"
    using unique_provenance_facts [OF m] by (auto simp: keyed_def)
  have ms: "mset qs = mset (map snd m)" by (simp add: qs js_sort_simps)
  then have "provenanceKey ` set qs = set (map provenanceKey (map snd m))"
    by (metis mset_eq_setD set_map)
  then show "provenanceKey ` set qs = provenanceKey ` set ps" using k by (simp only: keyed_values)
  have "length qs = length (js_keys m)" using ms by (metis mset_eq_length length_map)
  also have "\<dots> = card (provenanceKey ` set ps)"
    using k by (metis distinct_card keyed_def)
  finally show "length qs = card (provenanceKey ` set ps)" .
qed

lemma uniqueProvenance_repeat:
  assumes "set qs \<subseteq> set ps"
  shows "uniqueProvenance lc (ps @ qs) = uniqueProvenance lc ps"
proof (cases "unique_provenance ps []")
  case (Inl e)
  then show ?thesis by (simp add: uniqueProvenance_def unique_provenance_append)
next
  case (Inr m)
  then have "set (js_keys m) = provenanceKey ` set ps" "identified ps"
    using unique_provenance_facts [OF Inr] by (auto simp: keyed_def)
  then have "list_all (\<lambda>p. provenanceKey p \<noteq> [] \<and> js_has m (provenanceKey p)) qs"
    using assms by (auto simp: list_all_iff identified_def js_has_keys subset_iff)
  then show ?thesis using Inr by (simp add: uniqueProvenance_def unique_provenance_append unique_provenance_known)
qed

section \<open>Groups\<close>

definition joins :: "parsed_candidate list \<Rightarrow> parsed_candidate \<Rightarrow> bool" where
  "joins g c = sameFinding (hd g) (tokens (cp_finding (hd g))) c (tokens (cp_finding c))"

lemma joins_self: "joins (c # g) c"
  by (simp add: joins_def sameFinding_def)

lemma joins_snoc: "g \<noteq> [] \<Longrightarrow> joins (g @ [d]) c = joins g c"
  by (simp add: joins_def)

lemma joins_key:
  "joins g c \<Longrightarrow> normalizedLocation (cp_location (hd g)) = normalizedLocation (cp_location c) \<and>
     normalizedCategory (cp_category (hd g)) = normalizedCategory (cp_category c)"
  by (simp add: joins_def sameFinding_def split: if_splits)

lemma add_to_groups_simps:
  "add_to_groups c (g # gs) = (if joins g c then (g @ [c]) # gs else g # add_to_groups c gs)"
  by (simp add: joins_def)

lemma add_to_groups_hit:
  "\<forall>h \<in> set pre. \<not> joins h c \<Longrightarrow> joins g c \<Longrightarrow> add_to_groups c (pre @ g # post) = pre @ (g @ [c]) # post"
  by (induction pre) (simp_all add: add_to_groups_simps del: add_to_groups.simps(2))

text \<open>Every member of a group joins it, and none of the groups before it.\<close>

definition grouped :: "parsed_candidate list list \<Rightarrow> bool" where
  "grouped gs = (\<forall>pre g post c. gs = pre @ g # post \<and> c \<in> set g \<longrightarrow> joins g c \<and> (\<forall>h \<in> set pre. \<not> joins h c))"

lemma grouped_Cons:
  "grouped (g # gs) \<longleftrightarrow>
     (\<forall>c \<in> set g. joins g c) \<and> (\<forall>c \<in> set (concat gs). \<not> joins g c) \<and> grouped gs"
proof
  assume gr: "grouped (g # gs)"
  have 1: "\<forall>c \<in> set g. joins g c" using gr unfolding grouped_def by (metis append_Nil)
  have 2: "\<not> joins g c" if c: "c \<in> set (concat gs)" for c
  proof -
    obtain h where h: "h \<in> set gs" "c \<in> set h" using c by auto
    then obtain pre post where "gs = pre @ h # post" by (meson split_list)
    then have "g # gs = (g # pre) @ h # post" by simp
    with gr h(2) show ?thesis unfolding grouped_def by (metis list.set_intros(1))
  qed
  have 3: "grouped gs"
    unfolding grouped_def
  proof (intro allI impI)
    fix pre h post c
    assume "gs = pre @ h # post \<and> c \<in> set h"
    then have "g # gs = (g # pre) @ h # post" and "c \<in> set h" by auto
    with gr have "joins h c \<and> (\<forall>h' \<in> set (g # pre). \<not> joins h' c)" unfolding grouped_def by blast
    then show "joins h c \<and> (\<forall>h' \<in> set pre. \<not> joins h' c)" by simp
  qed
  from 1 2 3 show "(\<forall>c \<in> set g. joins g c) \<and> (\<forall>c \<in> set (concat gs). \<not> joins g c) \<and> grouped gs" by blast
next
  assume r: "(\<forall>c \<in> set g. joins g c) \<and> (\<forall>c \<in> set (concat gs). \<not> joins g c) \<and> grouped gs"
  show "grouped (g # gs)"
    unfolding grouped_def
  proof (intro allI impI)
    fix pre h post c
    assume eq: "g # gs = pre @ h # post \<and> c \<in> set h"
    then show "joins h c \<and> (\<forall>h' \<in> set pre. \<not> joins h' c)"
      using r by (cases pre) (auto simp: grouped_def)
  qed
qed

lemma set_add_to_groups: "set (concat (add_to_groups c gs)) = insert c (set (concat gs))"
  by (induction gs) (auto simp: add_to_groups_simps simp del: add_to_groups.simps(2))

lemma nonempty_add_to_groups: "[] \<notin> set gs \<Longrightarrow> [] \<notin> set (add_to_groups c gs)"
  by (induction gs) auto

lemma grouped_add: "[] \<notin> set gs \<Longrightarrow> grouped gs \<Longrightarrow> grouped (add_to_groups c gs)"
proof (induction gs)
  case Nil
  then show ?case by (simp add: grouped_Cons joins_self)
next
  case (Cons g gs)
  then show ?case
    by (auto simp: grouped_Cons add_to_groups_simps joins_snoc set_add_to_groups simp del: add_to_groups.simps(2) set_concat)
qed

lemma group_candidates_inv:
  "group_candidates raws gs = Inr gs' \<Longrightarrow> [] \<notin> set gs \<Longrightarrow> grouped gs \<Longrightarrow> [] \<notin> set gs' \<and> grouped gs'"
  by (induction raws arbitrary: gs) (auto split: sum.splits simp: nonempty_add_to_groups grouped_add)

lemma group_candidates_members:
  "group_candidates raws gs = Inr gs' \<Longrightarrow>
     set (concat gs') = set (concat gs) \<union> {c. \<exists>raw \<in> set raws. parse_candidate raw = Inr c} \<and>
     (\<forall>raw \<in> set raws. \<exists>c. parse_candidate raw = Inr c)"
proof (induction raws arbitrary: gs)
  case (Cons raw raws)
  then obtain c where c: "parse_candidate raw = Inr c" "group_candidates raws (add_to_groups c gs) = Inr gs'"
    by (auto split: sum.splits)
  from Cons.IH [OF c(2)] c(1) show ?case by (auto simp: set_add_to_groups simp del: set_concat)
qed simp

lemma group_candidates_snoc:
  "group_candidates (raws @ [raw]) gs =
     (case group_candidates raws gs of
        Inl e \<Rightarrow> Inl e
      | Inr gs' \<Rightarrow> (case parse_candidate raw of Inl e \<Rightarrow> Inl e | Inr c \<Rightarrow> Inr (add_to_groups c gs')))"
  by (induction raws arbitrary: gs) (auto split: sum.split)

section \<open>What is synthesized\<close>

lemma synthesize_groups_append:
  "synthesize_groups lc (gs @ hs) =
     (case synthesize_groups lc gs of
        Inl e \<Rightarrow> Inl e
      | Inr (fs, ds) \<Rightarrow> (case synthesize_groups lc hs of Inl e \<Rightarrow> Inl e | Inr (fs', ds') \<Rightarrow> Inr (fs @ fs', ds @ ds')))"
  by (induction gs) (auto split: sum.split prod.split)

lemma synthesize_groups_member:
  "synthesize_groups lc gs = Inr (fs, ds) \<Longrightarrow> g \<in> set gs \<Longrightarrow> \<exists>f \<in> set fs. synthesize_group lc g = Inr f"
  by (induction gs arbitrary: fs ds) (auto split: sum.splits prod.splits)

lemma synthesize_groups_source:
  "synthesize_groups lc gs = Inr (fs, ds) \<Longrightarrow> f \<in> set fs \<Longrightarrow> \<exists>g \<in> set gs. synthesize_group lc g = Inr f"
  by (induction gs arbitrary: fs ds) (fastforce split: sum.splits prod.splits)+

lemma synthesize_group_facts:
  assumes "synthesize_group lc g = Inr f" "c \<in> set g" "joins g c"
  shows "normalizedLocation (sf_location f) = normalizedLocation (cp_location c)"
    and "normalizedCategory (sf_category f) = normalizedCategory (cp_category c)"
    and "SEVERITY_RANK (cp_severity c) \<le> SEVERITY_RANK (sf_severity f)"
    and "ACTION_RANK (action (cp_action c)) \<le> ACTION_RANK (sf_action f)"
    and "STATUS_RANK (status (cp_status c)) \<le> STATUS_RANK (sf_status f)"
    and "provenanceKey ` set (cp_provenance c) \<subseteq> provenanceKey ` set (sf_provenance f)"
proof -
  let ?r = "\<lambda>rank xs. reduce_max rank (hd xs) (tl xs)"
  obtain provs where u: "uniqueProvenance lc (concat (map cp_provenance g)) = Inr provs"
    and f: "sf_location f = cp_location (hd g)" "sf_category f = cp_category (hd g)"
      "sf_severity f = ?r SEVERITY_RANK (map cp_severity g)"
      "sf_action f = ?r ACTION_RANK (map (action \<circ> cp_action) g)"
      "sf_status f = ?r STATUS_RANK (map (status \<circ> cp_status) g)" "sf_provenance f = provs"
    using assms(1) by (auto simp: synthesize_group_def Let_def split: sum.splits)
  show "normalizedLocation (sf_location f) = normalizedLocation (cp_location c)"
    "normalizedCategory (sf_category f) = normalizedCategory (cp_category c)"
    using joins_key [OF assms(3)] f by simp_all
  have ne: "g \<noteq> []" using assms(2) by auto
  show "SEVERITY_RANK (cp_severity c) \<le> SEVERITY_RANK (sf_severity f)"
    unfolding f using ne assms(2) by (intro reduce_max_of) auto
  show "ACTION_RANK (action (cp_action c)) \<le> ACTION_RANK (sf_action f)"
    unfolding f using ne assms(2) by (intro reduce_max_of) auto
  show "STATUS_RANK (status (cp_status c)) \<le> STATUS_RANK (sf_status f)"
    unfolding f using ne assms(2) by (intro reduce_max_of) auto
  show "provenanceKey ` set (cp_provenance c) \<subseteq> provenanceKey ` set (sf_provenance f)"
    using uniqueProvenance_facts(1) [OF u] assms(2) unfolding f by auto
qed

lemma synthesize_group_agreement:
  assumes "synthesize_group lc g = Inr f"
  shows "sf_agreementCount f = card (provenanceKey ` set (concat (map cp_provenance g)))"
    and "sf_confidence f = (if sf_agreementCount f \<ge> 2 then High_Confidence else lowestConfidence (map cp_confidence g))"
  using assms uniqueProvenance_facts(2) [of lc "concat (map cp_provenance g)"]
  by (auto simp: synthesize_group_def Let_def simp del: set_concat split: sum.splits)

lemma lowestConfidence_le:
  assumes "x \<in> set xs"
  shows "CONFIDENCE_RANK (lowestConfidence xs) \<le> CONFIDENCE_RANK x"
  using assms reduce_min_le [of CONFIDENCE_RANK "hd xs" "tl xs"] by (cases xs) (auto simp: lowestConfidence_def)

text \<open>C16: Synthesis never weakens what was reported.  Every candidate of a synthesis that succeeds is part of a finding at the
  same place and of the same category, whose severity, action and status are at least as strong as the candidate's and
  which names everyone the candidate names; the confidence is high where two or more distinct identities agree, and
  otherwise no higher than the candidate's own.\<close>

theorem synthesis_never_weakens:
  assumes "synthesizePrReviewFindings lc candidates = Inr (fs, ds)" "raw \<in> set candidates"
  shows "\<exists>c. parse_candidate raw = Inr c \<and> (\<exists>f \<in> set fs.
    normalizedLocation (sf_location f) = normalizedLocation (cp_location c) \<and>
    normalizedCategory (sf_category f) = normalizedCategory (cp_category c) \<and>
    SEVERITY_RANK (cp_severity c) \<le> SEVERITY_RANK (sf_severity f) \<and>
    ACTION_RANK (action (cp_action c)) \<le> ACTION_RANK (sf_action f) \<and>
    STATUS_RANK (status (cp_status c)) \<le> STATUS_RANK (sf_status f) \<and>
    provenanceKey ` set (cp_provenance c) \<subseteq> provenanceKey ` set (sf_provenance f) \<and>
    (if card (provenanceKey ` set (sf_provenance f)) \<ge> 2 then sf_confidence f = High_Confidence
     else CONFIDENCE_RANK (sf_confidence f) \<le> CONFIDENCE_RANK (cp_confidence c)))"
proof -
  obtain gs where gs: "group_candidates candidates [] = Inr gs" and syn: "synthesize_groups lc gs = Inr (fs, ds)"
    using assms(1) by (auto simp: synthesizePrReviewFindings_def split: if_splits sum.splits)
  obtain c where c: "parse_candidate raw = Inr c" "c \<in> set (concat gs)"
    using group_candidates_members [OF gs] assms(2) by blast
  then obtain g where g: "g \<in> set gs" "c \<in> set g" by auto
  then obtain pre post where "gs = pre @ g # post" by (meson split_list)
  then have j: "joins g c"
    using group_candidates_inv [OF gs] g(2) by (auto simp: grouped_def)
  obtain f where f: "f \<in> set fs" "synthesize_group lc g = Inr f" using synthesize_groups_member [OF syn g(1)] by blast
  have "sf_agreementCount f = card (provenanceKey ` set (sf_provenance f))"
    using f(2) uniqueProvenance_facts [of lc "concat (map cp_provenance g)"]
    by (auto simp: synthesize_group_def Let_def simp del: set_concat split: sum.splits)
  then have "if card (provenanceKey ` set (sf_provenance f)) \<ge> 2 then sf_confidence f = High_Confidence
     else CONFIDENCE_RANK (sf_confidence f) \<le> CONFIDENCE_RANK (cp_confidence c)"
    using synthesize_group_agreement(2) [OF f(2)] lowestConfidence_le [of "cp_confidence c" "map cp_confidence g"] g(2) by auto
  with synthesize_group_facts [OF f(2) g(2) j] f(1) c(1) show ?thesis by blast
qed

section \<open>Retries\<close>

lemma js_uniq_repeat: "set ys \<subseteq> set xs \<Longrightarrow> js_uniq (xs @ ys) = js_uniq xs"
proof (induction ys rule: rev_induct)
  case (snoc y ys)
  then have "js_uniq (xs @ ys) = js_uniq xs" "y \<in> set (js_uniq xs)" by auto
  then show ?case by (simp add: js_uniq_def set_add_def)
qed simp

lemma synthesize_group_repeat:
  assumes "c \<in> set g"
  shows "synthesize_group lc (g @ [c]) = synthesize_group lc g"
proof -
  have ne: "g \<noteq> []" using assms by auto
  have prov: "uniqueProvenance lc (concat (map cp_provenance (g @ [c]))) = uniqueProvenance lc (concat (map cp_provenance g))"
    using assms uniqueProvenance_repeat [of "cp_provenance c" "concat (map cp_provenance g)" lc] by auto
  have rep: "reduce_max r (hd (map h (g @ [c]))) (tl (map h (g @ [c]))) = reduce_max r (hd (map h g)) (tl (map h g))"
    for r :: "'x \<Rightarrow> nat" and h
    using reduce_max_repeat [of "map h g" "h c" r] ne assms by simp
  have low: "lowestConfidence (map cp_confidence (g @ [c])) = lowestConfidence (map cp_confidence g)"
    using reduce_min_repeat [of "map cp_confidence g" "cp_confidence c" CONFIDENCE_RANK] ne assms
    by (simp add: lowestConfidence_def)
  have src: "js_uniq (List.map_filter cp_sourceFindingId (g @ [c])) = js_uniq (List.map_filter cp_sourceFindingId g)"
  proof -
    have "set (List.map_filter cp_sourceFindingId [c]) \<subseteq> set (List.map_filter cp_sourceFindingId g)"
      using assms by (auto simp: map_filter_def)
    then show ?thesis using js_uniq_repeat by (metis map_filter_def filter_append map_append)
  qed
  show ?thesis
    unfolding synthesize_group_def Let_def prov rep low src using ne by (simp split: sum.split)
qed

lemma group_diagnostic_repeat:
  assumes "c \<in> set g"
  shows "group_diagnostic (g @ [c]) = group_diagnostic g"
proof -
  have "js_uniq (map cp_severity g @ [cp_severity c]) = js_uniq (map cp_severity g)"
    "js_uniq (map cp_confidence g @ [cp_confidence c]) = js_uniq (map cp_confidence g)"
    using assms by (intro js_uniq_repeat; auto)+
  moreover have "hd (g @ [c]) = hd g" using assms by (cases g) auto
  ultimately show ?thesis by (simp add: group_diagnostic_def)
qed

text \<open>C29: The retry of a reviewer adds nothing: reporting a candidate again, word for word, leaves the synthesis as it is, its
  findings with their agreement and their confidence, their order and the diagnostics, as long as the limit of
  256 candidates is kept.\<close>

theorem retry_adds_nothing:
  assumes "raw \<in> set candidates" and "length candidates < MAX_FINDING_SYNTHESIS_CANDIDATES"
  shows "synthesizePrReviewFindings lc (candidates @ [raw]) = synthesizePrReviewFindings lc candidates"
proof (cases "group_candidates candidates []")
  case (Inl e)
  then show ?thesis using assms(2) by (simp add: synthesizePrReviewFindings_def group_candidates_snoc)
next
  case (Inr gs)
  obtain c where c: "parse_candidate raw = Inr c" "c \<in> set (concat gs)"
    using group_candidates_members [OF Inr] assms(1) by blast
  then obtain g where g: "g \<in> set gs" "c \<in> set g" by auto
  then obtain pre post where sp: "gs = pre @ g # post" by (meson split_list)
  then have j: "joins g c" "\<forall>h \<in> set pre. \<not> joins h c"
    using group_candidates_inv [OF Inr] g(2) by (auto simp: grouped_def)
  have "group_candidates (candidates @ [raw]) [] = Inr (pre @ (g @ [c]) # post)"
    using Inr c(1) by (simp add: group_candidates_snoc sp add_to_groups_hit [OF j(2,1)])
  moreover have "synthesize_groups lc ((g @ [c]) # post) = synthesize_groups lc (g # post)"
    unfolding synthesize_groups.simps synthesize_group_repeat [OF g(2)] group_diagnostic_repeat [OF g(2)] by (rule refl)
  then have "synthesize_groups lc (pre @ (g @ [c]) # post) = synthesize_groups lc gs"
    by (simp only: sp synthesize_groups_append)
  ultimately show ?thesis
    using Inr assms(2) by (simp add: synthesizePrReviewFindings_def)
qed

section \<open>Evaluated syntheses\<close>

definition candidate_example :: "string \<Rightarrow> string \<Rightarrow> string \<Rightarrow> candidate" where
  "candidate_example text sev who =
     \<lparr>cd_finding = Some text, cd_severity = sev, cd_action = None, cd_confidence = Some '' low '', cd_category = Some ''security'',
      cd_location = \<lparr>fl_file = ''src/a.ts'', fl_line = 7, fl_lineEnd = None\<rparr>,
      cd_provenance = [\<lparr>pv_identity = who, pv_lane = None\<rparr>], cd_status = None, cd_sourceFindingId = None\<rparr>"

definition candidates_example :: "candidate list" where
  "candidates_example =
     [candidate_example ''no auth check'' ''HIGH'' ''r1'',
      candidate_example ''auth check off'' ''MEDIUM'' ''r2'',
      candidate_example ''logs token'' ''LOW'' ''r1'']"

lemma unique_provenance_succeeds: "identified ps \<Longrightarrow> \<exists>m'. unique_provenance ps m = Inr m'"
  by (induction ps arbitrary: m) (auto simp: identified_def)

lemma parse_provenance: "parse_candidate raw = Inr c \<Longrightarrow> cp_provenance c = cd_provenance raw"
  by (auto simp: parse_candidate_def Let_def split: sum.splits if_splits)

lemma synthesize_groups_succeed:
  "list_all (\<lambda>g. identified (concat (map cp_provenance g))) gs \<Longrightarrow> \<exists>fs ds. synthesize_groups lc gs = Inr (fs, ds)"
proof (induction gs)
  case (Cons g gs)
  then obtain m where "unique_provenance (concat (map cp_provenance g)) [] = Inr m"
    using unique_provenance_succeeds by fastforce
  then have "\<exists>f. synthesize_group lc g = Inr f" by (simp add: synthesize_group_def uniqueProvenance_def Let_def)
  with Cons show ?case by auto
qed simp

text \<open>A synthesis succeeds if every candidate can be parsed and every identity is named.\<close>

lemma synthesis_succeeds:
  assumes "group_candidates candidates [] = Inr gs" "list_all (\<lambda>raw. identified (cd_provenance raw)) candidates"
    and "length candidates \<le> MAX_FINDING_SYNTHESIS_CANDIDATES"
  shows "\<exists>fs ds. synthesizePrReviewFindings lc candidates = Inr (fs, ds)"
proof -
  have "identified (cp_provenance c)" if c: "c \<in> set (concat gs)" for c
  proof -
    obtain raw where "raw \<in> set candidates" "parse_candidate raw = Inr c"
      using c group_candidates_members [OF assms(1)] by auto
    with assms(2) show ?thesis by (simp add: parse_provenance list_all_iff)
  qed
  then have "list_all (\<lambda>g. identified (concat (map cp_provenance g))) gs"
    by (auto simp: list_all_iff identified_def)
  then show ?thesis
    using synthesize_groups_succeed assms(1,3) by (simp add: synthesizePrReviewFindings_def)
qed

theorem synthesis_never_weakens_witness:
  "\<exists>fs ds f. synthesizePrReviewFindings (\<lambda>_ _. 0) candidates_example = Inr (fs, ds) \<and> f \<in> set fs \<and>
     SEVERITY_RANK Sev_High \<le> SEVERITY_RANK (sf_severity f) \<and> ''r1'' \<in> provenanceKey ` set (sf_provenance f)"
proof -
  let ?raw = "candidate_example ''no auth check'' ''HIGH'' ''r1''"
  have "isl (group_candidates candidates_example []) = False" by code_simp
  then obtain gs where gs: "group_candidates candidates_example [] = Inr gs"
    by (cases "group_candidates candidates_example []") auto
  have "list_all (\<lambda>raw. identified (cd_provenance raw)) candidates_example" by code_simp
  then obtain fs ds where r: "synthesizePrReviewFindings (\<lambda>_ _. 0) candidates_example = Inr (fs, ds)"
    using synthesis_succeeds [OF gs] by (fastforce simp: candidates_example_def MAX_FINDING_SYNTHESIS_CANDIDATES_def)
  have "?raw \<in> set candidates_example" by (simp add: candidates_example_def)
  from synthesis_never_weakens [OF r this] obtain c f where c: "parse_candidate ?raw = Inr c" and f: "f \<in> set fs"
    "SEVERITY_RANK (cp_severity c) \<le> SEVERITY_RANK (sf_severity f)"
    "provenanceKey ` set (cp_provenance c) \<subseteq> provenanceKey ` set (sf_provenance f)"
    by blast
  have "map_sum (\<lambda>e. e) (\<lambda>c. (cp_severity c, map provenanceKey (cp_provenance c))) (parse_candidate ?raw) = Inr (Sev_High, [''r1''])"
    by code_simp
  then have sc: "cp_severity c = Sev_High" and mp: "map provenanceKey (cp_provenance c) = [''r1'']" using c by simp_all
  then have "''r1'' \<in> provenanceKey ` set (cp_provenance c)" by (metis list.set_intros(1) set_map)
  with f(3) have "''r1'' \<in> provenanceKey ` set (sf_provenance f)" by blast
  with r f(1,2) sc show ?thesis by metis
qed

theorem retry_adds_nothing_witness:
  "synthesizePrReviewFindings (\<lambda>_ _. 0)
     (candidates_example @ [candidate_example ''logs token'' ''LOW'' ''r1'']) =
   synthesizePrReviewFindings (\<lambda>_ _. 0) candidates_example"
  by (rule retry_adds_nothing) (simp_all add: candidates_example_def MAX_FINDING_SYNTHESIS_CANDIDATES_def)

definition final_example :: "string \<Rightarrow> policy_finding" where
  "final_example sev = \<lparr>pf_id = None, pf_severity = sev, pf_action = ''report'', pf_status = ''CONFIRMED''\<rparr>"

theorem approval_needs_clean_full_review_witness:
  "\<exists>vs ws. allowedPrReviewReportVerdicts Complete_Coverage [final_example ''LOW''] False = Inr vs \<and> Approve \<in> set vs \<and>
     allowedPrReviewReportVerdicts Complete_Coverage [final_example ''HIGH''] False = Inr ws \<and> Approve \<notin> set ws"
proof -
  have k: "list_all known_severity [final_example ''LOW'']" "list_all known_severity [final_example ''HIGH'']" by code_simp+
  have f: "\<not> finding_blocks (final_example ''LOW'')" "finding_blocks (final_example ''HIGH'')" by code_simp+
  obtain vs where vs: "allowedPrReviewReportVerdicts Complete_Coverage [final_example ''LOW''] False = Inr vs" "Approve \<in> set vs"
    using approval_needs_clean_full_review [of Complete_Coverage "[final_example ''LOW'']" False] k f
    by (cases "allowedPrReviewReportVerdicts Complete_Coverage [final_example ''LOW''] False") simp_all
  obtain ws where "allowedPrReviewReportVerdicts Complete_Coverage [final_example ''HIGH''] False = Inr ws" "Approve \<notin> set ws"
    using approval_needs_clean_full_review [of Complete_Coverage "[final_example ''HIGH'']" False] k f
    by (cases "allowedPrReviewReportVerdicts Complete_Coverage [final_example ''HIGH''] False") simp_all
  with vs show ?thesis by blast
qed

definition settlement_example :: coverage_settlement where
  "settlement_example =
     \<lparr>cs_kind = Partial_Coverage, cs_coveredDimensions = [''security-trust''], cs_unresolvedDimensions = [], cs_liveDimensions = []\<rparr>"

theorem reducer_enforces_policy_matrix_witness:
  "reducePrReviewEvent (\<lambda>_ _. 0) review_example
     (Coverage_Finalization_Requested settlement_example (Some Request_Changes) False) = Applied review_example [] \<and>
   reducePrReviewEvent (\<lambda>_ _. 0) review_example
     (Coverage_Finalization_Requested settlement_example (Some Approve) False) \<noteq> Applied review_example []"
proof -
  have "allowedPrReviewReportVerdicts (cs_kind settlement_example) [] False = Inr [Request_Changes, Incomplete]" by code_simp
  moreover have "cs_liveDimensions settlement_example = []" by (simp add: settlement_example_def)
  ultimately show ?thesis
    using reducer_enforces_policy_matrix [of "\<lambda>_ _. 0" review_example settlement_example Request_Changes False "[]"]
      reducer_enforces_policy_matrix [of "\<lambda>_ _. 0" review_example settlement_example Approve False "[]"] by simp
qed

text \<open>Two findings without a word of three letters get the same id, at one place in one category.\<close>

definition parsed_example :: "string \<Rightarrow> parsed_candidate" where
  "parsed_example text =
     \<lparr>cp_finding = text, cp_severity = Sev_High, cp_action = None, cp_confidence = Low_Confidence, cp_category = ''security'',
      cp_location = \<lparr>fl_file = ''src/a.ts'', fl_line = 7, fl_lineEnd = None\<rparr>, cp_provenance = [], cp_status = None,
      cp_sourceFindingId = None\<rparr>"

lemma finding_ids_collide:
  "findingId (parsed_example ''x = y'') = findingId (parsed_example ''a < b'') \<and>
   \<not> joins [parsed_example ''x = y''] (parsed_example ''a < b'')"
proof -
  have "tokens ''x = y'' = tokens ''a < b''" by code_simp
  then have "findingId (parsed_example ''x = y'') = findingId (parsed_example ''a < b'')"
    by (simp add: findingId_def finding_material_def parsed_example_def)
  moreover have "\<not> joins [parsed_example ''x = y''] (parsed_example ''a < b'')" by code_simp
  ultimately show ?thesis by blast
qed

text \<open>A critic may call a finding downgraded and raise its severity.\<close>

lemma downgrade_may_raise:
  "map_sum (\<lambda>e. e) (sg_severity \<circ> ct_finalFinding)
     (settleCriticFinding \<lparr>sg_id = ''f'', sg_severity = ''LOW'', sg_action = ''report'', sg_status = ''CONFIRMED''\<rparr> Downgraded
       (Some ''HIGH'') None) = Inr ''HIGH''"
  by code_simp

end
