(* ===== verification/Review_Coverage.thy ===== *)
theory Review_Coverage
  imports Review_Reducer
begin

text \<open>
  The coverage of the six base dimensions, \<^verbatim>\<open>src/pr-review/completion.ts\<close>: what the recorded base batches did for each
  dimension (\<open>summarizePrReviewBaseDimensionAttempts\<close>), and the terminal settlement that is derived from it.
  Reads of the delegation store and of the lane artifacts are the environment: the records of a batch (\<open>None\<close> where the store could
  not be read), the dimensions a batch has an authoritative artifact for at the current revision, the lanes
  whose artifact is valid at its own revision, and the reason an accepted receipt gives for an unresolved dimension.
  The texts of the disclosure and of the uncertain read are not modelled.
\<close>

section \<open>Records and environment\<close>

record cov_result =
  vr_failureClass :: "string option"
  vr_terminalErrorClass :: "string option"
  vr_digest :: "string option"

record cov_terminal =
  vt_result :: "cov_result option"
  vt_status :: string
  vt_eventId :: string
  vt_recordedAt :: int

record cov_record =
  vc_laneId :: "string option"
  vc_status :: string
  vc_result :: "cov_result option"
  vc_terminalResult :: "cov_terminal option"
  vc_completedAt :: "int option"
  vc_updatedAt :: int

datatype unresolved_reason =
    Not_Executed | Partial_Output | Contract_Failure | Resource_Limit | Deadline_Exceeded | Stale_Binding | Parent_Cancelled

record coverage_env =
  ce_records :: "string \<Rightarrow> cov_record list option"
  ce_successful :: "base_dispatch \<Rightarrow> string list"
  ce_semanticallyValid :: "base_dispatch \<Rightarrow> string list"
  ce_unresolved :: "base_lane \<Rightarrow> cov_record \<Rightarrow> string \<Rightarrow> unresolved_reason option"

section \<open>Attempts per dimension\<close>

record dimension_attempts =
  da_successful :: "string list"
  da_inFlight :: "string list"
  da_contractFailed :: "string list"
  da_contractRetried :: "string list"
  da_dedicatedSuccessful :: "string list"
  da_terminallyFailed :: "string list"
  da_delegationReadUncertain :: bool

text \<open>\<open>lane.ownedWorkflowLanes?.length ? lane.ownedWorkflowLanes : [lane.workflowLane]\<close>\<close>

definition lane_dimensions :: "base_lane \<Rightarrow> string list" where
  "lane_dimensions lane =
     (case bl_ownedWorkflowLanes lane of
        None \<Rightarrow> [bl_workflowLane lane]
      | Some owned \<Rightarrow> if owned = [] then [bl_workflowLane lane] else owned)"

text \<open>\<open>lane.ownedWorkflowLanes?.length ?? 1\<close>\<close>

definition owned_length :: "base_lane \<Rightarrow> nat" where
  "owned_length lane = (case bl_ownedWorkflowLanes lane of None \<Rightarrow> 1 | Some owned \<Rightarrow> length owned)"

definition add_all :: "string list \<Rightarrow> string list \<Rightarrow> string list" where
  "add_all ds xs = fold set_add ds xs"

definition lane_records :: "cov_record list \<Rightarrow> string \<Rightarrow> cov_record list" where
  "lane_records records laneId = filter (\<lambda>r. vc_laneId r = Some laneId) records"

definition terminal_status :: "cov_record \<Rightarrow> bool" where
  "terminal_status r = (vc_status r \<in> set CIRCUIT_TERMINAL_DELEGATION_STATUSES)"

definition dedicated_dimension :: "string list \<Rightarrow> base_lane \<Rightarrow> string list" where
  "dedicated_dimension batchSuccessful lane =
     (if owned_length lane \<noteq> 1 then []
      else let dimension = hd (lane_dimensions lane)
           in if dimension \<in> set batchSuccessful then [dimension] else [])"

definition uncertain_lane :: "string list \<Rightarrow> base_lane \<Rightarrow> dimension_attempts \<Rightarrow> dimension_attempts" where
  "uncertain_lane valid lane acc =
     (if bl_laneId lane \<in> set valid then acc
      else acc\<lparr>da_inFlight := add_all (lane_dimensions lane) (da_inFlight acc)\<rparr>)"

definition last_failure_class :: "cov_record list \<Rightarrow> string option" where
  "last_failure_class rs = Option.bind (last_of rs) (\<lambda>r. Option.bind (vc_result r) vr_failureClass)"

definition readable_lane ::
  "string list \<Rightarrow> cov_record list \<Rightarrow> base_lane \<Rightarrow> dimension_attempts \<Rightarrow> dimension_attempts" where
  "readable_lane valid records lane acc =
     (if bl_laneId lane \<in> set valid then acc
      else
        let laneRecords = lane_records records (bl_laneId lane)
        in if laneRecords = [] then acc
           else if \<not> list_all terminal_status laneRecords
           then acc\<lparr>da_inFlight := add_all (lane_dimensions lane) (da_inFlight acc)\<rparr>
           else acc\<lparr>da_terminallyFailed := add_all (lane_dimensions lane) (da_terminallyFailed acc),
                    da_contractFailed :=
                      (if last_failure_class laneRecords = Some ''contract''
                       then add_all (lane_dimensions lane) (da_contractFailed acc) else da_contractFailed acc)\<rparr>)"

definition summarize_batch :: "coverage_env \<Rightarrow> base_dispatch \<Rightarrow> dimension_attempts \<Rightarrow> dimension_attempts" where
  "summarize_batch env batch acc =
     (let batchSuccessful = ce_successful env batch;
          acc1 = acc\<lparr>da_successful := add_all batchSuccessful (da_successful acc),
                     da_dedicatedSuccessful :=
                       add_all (concat (map (dedicated_dimension batchSuccessful) (bd_lanes batch))) (da_dedicatedSuccessful acc)\<rparr>;
          valid = ce_semanticallyValid env batch
      in case ce_records env (bd_batchId batch) of
           None \<Rightarrow> fold (uncertain_lane valid) (bd_lanes batch) (acc1\<lparr>da_delegationReadUncertain := True\<rparr>)
         | Some records \<Rightarrow> fold (readable_lane valid records) (bd_lanes batch) acc1)"

definition no_attempts :: "string list \<Rightarrow> dimension_attempts" where
  "no_attempts retried =
     \<lparr>da_successful = [], da_inFlight = [], da_contractFailed = [], da_contractRetried = js_uniq retried,
      da_dedicatedSuccessful = [], da_terminallyFailed = [], da_delegationReadUncertain = False\<rparr>"

definition summarizePrReviewBaseDimensionAttempts :: "coverage_env \<Rightarrow> ('a, 'b) review \<Rightarrow> dimension_attempts" where
  "summarizePrReviewBaseDimensionAttempts env state =
     fold (summarize_batch env) (dispatches_of state)
       (no_attempts (option_or (rv_prReviewContractRetryDimensions state) []))"

section \<open>The latest failure of a dimension\<close>

record typed_failure =
  tf_failureClass :: string
  tf_terminalEventId :: string
  tf_recordedAt :: int
  tf_batchId :: string
  tf_laneId :: string

record structured_unresolved =
  su_failureClass :: string
  su_recordedAt :: int
  su_batchId :: string
  su_laneId :: string

definition failure_result :: "cov_record \<Rightarrow> cov_result option" where
  "failure_result r =
     (case Option.bind (vc_terminalResult r) vt_result of Some res \<Rightarrow> Some res | None \<Rightarrow> vc_result r)"

definition failure_status :: "cov_record \<Rightarrow> string" where
  "failure_status r = (case vc_terminalResult r of None \<Rightarrow> vc_status r | Some t \<Rightarrow> vt_status t)"

definition failure_candidate :: "string \<Rightarrow> string \<Rightarrow> string \<Rightarrow> cov_record \<Rightarrow> typed_failure" where
  "failure_candidate failureClass batchId laneId r =
     \<lparr>tf_failureClass = failureClass,
      tf_terminalEventId = (case vc_terminalResult r of
         Some t \<Rightarrow> vt_eventId t
       | None \<Rightarrow> ''eventless:'' @ vc_status r @ '':'' @ option_or (Option.bind (failure_result r) vr_digest) []),
      tf_recordedAt = (case vc_terminalResult r of
         Some t \<Rightarrow> vt_recordedAt t
       | None \<Rightarrow> option_or (vc_completedAt r) (vc_updatedAt r)),
      tf_batchId = batchId, tf_laneId = laneId\<rparr>"

text \<open>A candidate replaces the latest one if it is newer, or as new with a later event id; \<open>after\<close> compares the ids.\<close>

definition newer_failure :: "(string \<Rightarrow> string \<Rightarrow> bool) \<Rightarrow> typed_failure \<Rightarrow> typed_failure option \<Rightarrow> typed_failure option" where
  "newer_failure after cand latest =
     (case latest of
        None \<Rightarrow> Some cand
      | Some l \<Rightarrow>
          if tf_recordedAt cand > tf_recordedAt l \<or>
             (tf_recordedAt cand = tf_recordedAt l \<and> after (tf_terminalEventId cand) (tf_terminalEventId l))
          then Some cand else latest)"

definition failure_step ::
  "(string \<Rightarrow> string \<Rightarrow> int) \<Rightarrow> string \<Rightarrow> string \<Rightarrow> cov_record \<Rightarrow> typed_failure option \<Rightarrow> typed_failure option" where
  "failure_step lc batchId laneId r latest =
     (let eventlessFailure = (vc_terminalResult r = None \<and> terminal_status r);
          failureClass = option_or (Option.bind (failure_result r) vr_failureClass) []
      in if (vc_terminalResult r = None \<and> \<not> eventlessFailure) \<or> failureClass = []
         then (if failure_status r = ''error'' \<and> Option.bind (failure_result r) vr_terminalErrorClass \<noteq> None
               then newer_failure (\<lambda>a b. code_unit_compare a b > 0) (failure_candidate ''resource'' batchId laneId r) latest
               else latest)
         else if failure_status r = ''completed'' then latest
         else newer_failure (\<lambda>a b. lc a b > 0) (failure_candidate failureClass batchId laneId r) latest)"

definition lane_failures ::
  "(string \<Rightarrow> string \<Rightarrow> int) \<Rightarrow> coverage_env \<Rightarrow> string \<Rightarrow> string \<Rightarrow> base_lane \<Rightarrow> typed_failure option \<Rightarrow> typed_failure option" where
  "lane_failures lc env dimension batchId lane latest =
     (if dimension \<notin> set (lane_dimensions lane) then latest
      else case ce_records env batchId of
             None \<Rightarrow> latest
           | Some records \<Rightarrow>
               fold (failure_step lc batchId (bl_laneId lane)) (lane_records records (bl_laneId lane)) latest)"

definition latestTypedFailureForBaseDimension ::
  "(string \<Rightarrow> string \<Rightarrow> int) \<Rightarrow> coverage_env \<Rightarrow> ('a, 'b) review \<Rightarrow> string \<Rightarrow> typed_failure option" where
  "latestTypedFailureForBaseDimension lc env state dimension =
     fold (\<lambda>batch. fold (lane_failures lc env dimension (bd_batchId batch)) (bd_lanes batch)) (dispatches_of state) None"

fun failureClassFromStructuredUnresolvedReason :: "unresolved_reason \<Rightarrow> string" where
  "failureClassFromStructuredUnresolvedReason Resource_Limit = ''resource''"
| "failureClassFromStructuredUnresolvedReason Deadline_Exceeded = ''deadline''"
| "failureClassFromStructuredUnresolvedReason _ = ''contract''"

definition unresolved_step ::
  "(string \<Rightarrow> string \<Rightarrow> int) \<Rightarrow> coverage_env \<Rightarrow> string \<Rightarrow> string \<Rightarrow> base_lane \<Rightarrow> cov_record \<Rightarrow>
   structured_unresolved option \<Rightarrow> structured_unresolved option" where
  "unresolved_step lc env dimension batchId lane r latest =
     (if vc_result r = None then latest
      else case ce_unresolved env lane r dimension of
             None \<Rightarrow> latest
           | Some reason \<Rightarrow>
               let cand = \<lparr>su_failureClass = failureClassFromStructuredUnresolvedReason reason, su_recordedAt = vc_updatedAt r,
                           su_batchId = batchId, su_laneId = bl_laneId lane\<rparr>
               in case latest of
                    None \<Rightarrow> Some cand
                  | Some l \<Rightarrow>
                      if su_recordedAt cand > su_recordedAt l \<or>
                         (su_recordedAt cand = su_recordedAt l \<and>
                          lc (su_batchId cand @ [CHR 0x00] @ su_laneId cand) (su_batchId l @ [CHR 0x00] @ su_laneId l) > 0)
                      then Some cand else latest)"

definition lane_unresolved ::
  "(string \<Rightarrow> string \<Rightarrow> int) \<Rightarrow> coverage_env \<Rightarrow> string \<Rightarrow> string \<Rightarrow> base_lane \<Rightarrow> structured_unresolved option \<Rightarrow>
   structured_unresolved option" where
  "lane_unresolved lc env dimension batchId lane latest =
     (case ce_records env batchId of
        None \<Rightarrow> latest
      | Some records \<Rightarrow>
          if dimension \<notin> set (lane_dimensions lane) then latest
          else fold (unresolved_step lc env dimension batchId lane) (lane_records records (bl_laneId lane)) latest)"

definition latestStructuredReceiptUnresolvedForBaseDimension ::
  "(string \<Rightarrow> string \<Rightarrow> int) \<Rightarrow> coverage_env \<Rightarrow> ('a, 'b) review \<Rightarrow> string \<Rightarrow> structured_unresolved option" where
  "latestStructuredReceiptUnresolvedForBaseDimension lc env state dimension =
     fold (\<lambda>batch. fold (lane_unresolved lc env dimension (bd_batchId batch)) (bd_lanes batch)) (dispatches_of state) None"

section \<open>The settlement\<close>

record unresolved_record = unresolved_dimension +
  ur_failureClass :: "string option"
  ur_terminalEventId :: "string option"
  ur_batchId :: "string option"
  ur_laneId :: "string option"

record dimension_settlement =
  ds_kind :: coverage_kind
  ds_coveredDimensions :: "string list"
  ds_unresolvedDimensions :: "unresolved_record list"
  ds_liveDimensions :: "string list"
  ds_allLaunchedTerminal :: bool
  ds_delegationReadUncertain :: bool

text \<open>What the first loop gathers of the launches.\<close>

record launch_evidence =
  lv_dispatched :: "string list"
  lv_uncertain :: "string list"
  lv_stale :: "(string, string \<times> string) js_map"
  lv_nonValid :: "string list"
  lv_readUncertain :: bool

definition stale_eligible :: "('a, 'b) review \<Rightarrow> bool" where
  "stale_eligible state =
     (case rv_prReviewResilience state of
        None \<Rightarrow> False
      | Some sl \<Rightarrow> rp_enabled (rl_policy sl) \<and>
          int (length (rl_attempts sl)) \<ge> 1 + rp_maxRetryAttemptsAfterInitial (rl_policy sl))"

definition launch_lane ::
  "bool \<Rightarrow> string list \<Rightarrow> cov_record list \<Rightarrow> string \<Rightarrow> base_lane \<Rightarrow> launch_evidence \<Rightarrow> launch_evidence" where
  "launch_lane eligible valid records batchId lane ev =
     (if lane_records records (bl_laneId lane) = [] then ev
      else
        let dims = lane_dimensions lane;
            ev1 = ev\<lparr>lv_dispatched := add_all dims (lv_dispatched ev)\<rparr>
        in if eligible \<and> bl_laneId lane \<in> set valid
           then ev1\<lparr>lv_stale := fold (\<lambda>d. js_set d (batchId, bl_laneId lane)) dims (lv_stale ev1)\<rparr>
           else if eligible then ev1\<lparr>lv_nonValid := add_all dims (lv_nonValid ev1)\<rparr>
           else ev1)"

definition launch_batch :: "bool \<Rightarrow> coverage_env \<Rightarrow> base_dispatch \<Rightarrow> launch_evidence \<Rightarrow> launch_evidence" where
  "launch_batch eligible env batch ev =
     (case ce_records env (bd_batchId batch) of
        None \<Rightarrow> ev\<lparr>lv_uncertain := fold (\<lambda>lane. add_all (lane_dimensions lane)) (bd_lanes batch) (lv_uncertain ev),
                   lv_readUncertain := True\<rparr>
      | Some records \<Rightarrow>
          fold (launch_lane eligible (ce_semanticallyValid env batch) records (bd_batchId batch)) (bd_lanes batch) ev)"

definition launches :: "coverage_env \<Rightarrow> ('a, 'b) review \<Rightarrow> launch_evidence" where
  "launches env state =
     fold (launch_batch (stale_eligible state) env) (dispatches_of state)
       \<lparr>lv_dispatched = [], lv_uncertain = [], lv_stale = [], lv_nonValid = [],
        lv_readUncertain = da_delegationReadUncertain (summarizePrReviewBaseDimensionAttempts env state)\<rparr>"

text \<open>The view of one dimension: covered, live, or unresolved with its evidence.\<close>

datatype dimension_view = Covered | Live | Unresolved unresolved_record

definition unresolved_of ::
  "string \<Rightarrow> string \<Rightarrow> string \<Rightarrow> string option \<Rightarrow> string option \<Rightarrow> string option \<Rightarrow> string option \<Rightarrow> unresolved_record" where
  "unresolved_of dimension terminalState reasonKind failureClass eventId batchId laneId =
     \<lparr>ud_dimension = dimension, ud_terminalState = terminalState, ud_reasonKind = reasonKind, ur_failureClass = failureClass,
      ur_terminalEventId = eventId, ur_batchId = batchId, ur_laneId = laneId\<rparr>"

definition failed_view ::
  "string \<Rightarrow> typed_failure option \<Rightarrow> structured_unresolved option \<Rightarrow> unresolved_record" where
  "failed_view dimension latestFailure latestUnresolved =
     (case latestUnresolved of
        Some u \<Rightarrow>
          (case latestFailure of
             Some f \<Rightarrow>
               if su_recordedAt u \<ge> tf_recordedAt f
               then unresolved_of dimension ''FAILED'' ''lane_failure'' (Some (su_failureClass u)) None (Some (su_batchId u)) (Some (su_laneId u))
               else unresolved_of dimension ''FAILED'' ''lane_failure'' (Some (tf_failureClass f)) (Some (tf_terminalEventId f))
                      (Some (tf_batchId f)) (Some (tf_laneId f))
           | None \<Rightarrow>
               unresolved_of dimension ''FAILED'' ''lane_failure'' (Some (su_failureClass u)) None (Some (su_batchId u)) (Some (su_laneId u)))
      | None \<Rightarrow>
          (case latestFailure of
             Some f \<Rightarrow> unresolved_of dimension ''FAILED'' ''lane_failure'' (Some (tf_failureClass f)) (Some (tf_terminalEventId f))
                         (Some (tf_batchId f)) (Some (tf_laneId f))
           | None \<Rightarrow> unresolved_of dimension ''FAILED'' ''lane_failure'' None None None None))"

definition dimension_view ::
  "(string \<Rightarrow> string \<Rightarrow> int) \<Rightarrow> coverage_env \<Rightarrow> ('a, 'b) review \<Rightarrow> string \<Rightarrow> dimension_view" where
  "dimension_view lc env state dimension =
     (let attempts = summarizePrReviewBaseDimensionAttempts env state;
          ev = launches env state;
          latestUnresolved = latestStructuredReceiptUnresolvedForBaseDimension lc env state dimension
      in if dimension \<in> set (da_successful attempts) then Covered
         else if dimension \<in> set (da_inFlight attempts) then Live
         else if js_has (option_or (rv_prReviewDimensionCancellations state) []) dimension
         then Unresolved (unresolved_of dimension ''CANCELLED'' ''cancelled'' None None None None)
         else if dimension \<in> set (da_terminallyFailed attempts) \<or> latestUnresolved \<noteq> None
         then Unresolved (failed_view dimension (latestTypedFailureForBaseDimension lc env state dimension) latestUnresolved)
         else if dimension \<in> set (lv_dispatched ev)
         then (case js_get (lv_stale ev) dimension of
                 Some (batchId, laneId) \<Rightarrow>
                   if stale_eligible state \<and> dimension \<notin> set (lv_nonValid ev)
                   then Unresolved (unresolved_of dimension ''FAILED'' ''lane_failure'' (Some ''resource'') None (Some batchId) (Some laneId))
                   else Live
               | None \<Rightarrow> Live)
         else if dimension \<in> set (lv_uncertain ev) then Live
         else Unresolved (unresolved_of dimension ''NOT_LAUNCHED'' ''not_launched'' None None None None))"

definition coverage_kind_of :: "string list \<Rightarrow> coverage_kind" where
  "coverage_kind_of coveredDimensions =
     (if length coveredDimensions = length PR_REVIEW_BASE_DIMENSION_IDS then Complete_Coverage
      else if 0 < length coveredDimensions then Partial_Coverage else No_Coverage)"

definition unresolved_view :: "dimension_view \<Rightarrow> unresolved_record option" where
  "unresolved_view v = (case v of Unresolved r \<Rightarrow> Some r | _ \<Rightarrow> None)"

definition derivePrReviewDimensionSettlement ::
  "(string \<Rightarrow> string \<Rightarrow> int) \<Rightarrow> coverage_env \<Rightarrow> ('a, 'b) review \<Rightarrow> dimension_settlement" where
  "derivePrReviewDimensionSettlement lc env state =
     (let view = dimension_view lc env state;
          coveredDimensions = filter (\<lambda>d. view d = Covered) PR_REVIEW_BASE_DIMENSION_IDS;
          unresolvedDimensions = List.map_filter (\<lambda>d. unresolved_view (view d)) PR_REVIEW_BASE_DIMENSION_IDS;
          liveDimensions = filter (\<lambda>d. view d = Live) PR_REVIEW_BASE_DIMENSION_IDS
      in \<lparr>ds_kind = coverage_kind_of coveredDimensions, ds_coveredDimensions = coveredDimensions,
          ds_unresolvedDimensions = unresolvedDimensions, ds_liveDimensions = liveDimensions,
          ds_allLaunchedTerminal = (length liveDimensions = 0),
          ds_delegationReadUncertain = lv_readUncertain (launches env state)\<rparr>)"

text \<open>What the gate hands to the transition authority.\<close>

definition finalization_settlement :: "dimension_settlement \<Rightarrow> coverage_settlement" where
  "finalization_settlement s =
     \<lparr>cs_kind = ds_kind s, cs_coveredDimensions = ds_coveredDimensions s,
      cs_unresolvedDimensions = map unresolved_dimension.truncate (ds_unresolvedDimensions s),
      cs_liveDimensions = ds_liveDimensions s\<rparr>"

end
