(* ===== verification/Review_Coverage_Facts.thy ===== *)
theory Review_Coverage_Facts
  imports Review_Coverage Review_Reducer_Facts
begin

text \<open>
  The coverage of a review is honest: every base dimension has exactly one view, what was covered has an authoritative artifact,
  what is called never launched provably was not, and once the retries are used up nothing stays live for want of a view.
\<close>

section \<open>What the summary records\<close>

lemma set_add_all [simp]: "set (add_all ds xs) = set ds \<union> set xs"
  by (auto simp: add_all_def set_fold_set_add)

text \<open>A lane of a readable batch that was launched and has no valid artifact.\<close>

definition open_lane :: "coverage_env \<Rightarrow> base_dispatch \<Rightarrow> base_lane \<Rightarrow> cov_record list \<Rightarrow> bool" where
  "open_lane env b lane rs =
     (lane \<in> set (bd_lanes b) \<and> bl_laneId lane \<notin> set (ce_semanticallyValid env b) \<and>
      lane_records rs (bl_laneId lane) \<noteq> [])"

lemma uncertain_lanes:
  "set (da_inFlight (fold (uncertain_lane valid) lanes acc)) =
     set (da_inFlight acc) \<union> (\<Union>lane \<in> {l \<in> set lanes. bl_laneId l \<notin> set valid}. set (lane_dimensions lane)) \<and>
   da_successful (fold (uncertain_lane valid) lanes acc) = da_successful acc \<and>
   da_terminallyFailed (fold (uncertain_lane valid) lanes acc) = da_terminallyFailed acc"
  by (induction lanes arbitrary: acc) (auto simp: uncertain_lane_def)

lemma readable_lanes:
  "set (da_inFlight (fold (readable_lane valid rs) lanes acc)) =
     set (da_inFlight acc) \<union> (\<Union>lane \<in> {l \<in> set lanes. bl_laneId l \<notin> set valid \<and> lane_records rs (bl_laneId l) \<noteq> [] \<and>
       \<not> list_all terminal_status (lane_records rs (bl_laneId l))}. set (lane_dimensions lane)) \<and>
   da_successful (fold (readable_lane valid rs) lanes acc) = da_successful acc \<and>
   set (da_terminallyFailed (fold (readable_lane valid rs) lanes acc)) =
     set (da_terminallyFailed acc) \<union> (\<Union>lane \<in> {l \<in> set lanes. bl_laneId l \<notin> set valid \<and> lane_records rs (bl_laneId l) \<noteq> [] \<and>
       list_all terminal_status (lane_records rs (bl_laneId l))}. set (lane_dimensions lane))"
  by (induction lanes arbitrary: acc) (auto simp: readable_lane_def Let_def)

definition batch_inFlight :: "coverage_env \<Rightarrow> base_dispatch \<Rightarrow> string set" where
  "batch_inFlight env b =
     (\<Union>lane \<in> set (bd_lanes b). if bl_laneId lane \<in> set (ce_semanticallyValid env b) then {}
        else case ce_records env (bd_batchId b) of
               None \<Rightarrow> set (lane_dimensions lane)
             | Some rs \<Rightarrow> if list_all terminal_status (lane_records rs (bl_laneId lane)) then {} else set (lane_dimensions lane))"

definition batch_failed :: "coverage_env \<Rightarrow> base_dispatch \<Rightarrow> string set" where
  "batch_failed env b =
     (case ce_records env (bd_batchId b) of
        None \<Rightarrow> {}
      | Some rs \<Rightarrow> \<Union>lane \<in> {l. open_lane env b l rs \<and> list_all terminal_status (lane_records rs (bl_laneId l))}. set (lane_dimensions lane))"

lemma summarize_batch_facts:
  "set (da_successful (summarize_batch env b acc)) = set (da_successful acc) \<union> set (ce_successful env b)"
  "set (da_inFlight (summarize_batch env b acc)) = set (da_inFlight acc) \<union> batch_inFlight env b"
  "set (da_terminallyFailed (summarize_batch env b acc)) = set (da_terminallyFailed acc) \<union> batch_failed env b"
  by (cases "ce_records env (bd_batchId b)";
      auto simp: summarize_batch_def Let_def uncertain_lanes readable_lanes batch_inFlight_def batch_failed_def open_lane_def split: if_splits)+

lemma summarize_batches:
  "set (da_successful (fold (summarize_batch env) bs acc)) = set (da_successful acc) \<union> (\<Union>b \<in> set bs. set (ce_successful env b))"
  "set (da_inFlight (fold (summarize_batch env) bs acc)) = set (da_inFlight acc) \<union> (\<Union>b \<in> set bs. batch_inFlight env b)"
  "set (da_terminallyFailed (fold (summarize_batch env) bs acc)) = set (da_terminallyFailed acc) \<union> (\<Union>b \<in> set bs. batch_failed env b)"
  by (induction bs arbitrary: acc) (auto simp: summarize_batch_facts)

lemma summary_sets:
  "set (da_successful (summarizePrReviewBaseDimensionAttempts env s)) = (\<Union>b \<in> set (dispatches_of s). set (ce_successful env b))"
  "set (da_inFlight (summarizePrReviewBaseDimensionAttempts env s)) = (\<Union>b \<in> set (dispatches_of s). batch_inFlight env b)"
  "set (da_terminallyFailed (summarizePrReviewBaseDimensionAttempts env s)) = (\<Union>b \<in> set (dispatches_of s). batch_failed env b)"
  by (simp_all add: summarizePrReviewBaseDimensionAttempts_def summarize_batches no_attempts_def)

section \<open>What the launches record\<close>

definition launched_lane :: "coverage_env \<Rightarrow> base_dispatch \<Rightarrow> base_lane \<Rightarrow> bool" where
  "launched_lane env b lane =
     (lane \<in> set (bd_lanes b) \<and> (\<exists>rs. ce_records env (bd_batchId b) = Some rs \<and> lane_records rs (bl_laneId lane) \<noteq> []))"

lemma keys_js_set: "fst ` set (js_set k v m) = insert k (fst ` set m)"
  by (induction m) auto

lemma js_keys_fold_set: "fst ` set (fold (\<lambda>d. js_set d v) ds m) = set ds \<union> fst ` set m"
  by (induction ds arbitrary: m) (auto simp: keys_js_set)

lemma launch_lanes:
  "set (lv_dispatched (fold (launch_lane e valid rs b) lanes ev)) =
     set (lv_dispatched ev) \<union> (\<Union>l \<in> {l \<in> set lanes. lane_records rs (bl_laneId l) \<noteq> []}. set (lane_dimensions l)) \<and>
   set (lv_nonValid (fold (launch_lane e valid rs b) lanes ev)) =
     set (lv_nonValid ev) \<union> (\<Union>l \<in> {l \<in> set lanes. e \<and> bl_laneId l \<notin> set valid \<and> lane_records rs (bl_laneId l) \<noteq> []}. set (lane_dimensions l)) \<and>
   fst ` set (lv_stale (fold (launch_lane e valid rs b) lanes ev)) =
     fst ` set (lv_stale ev) \<union> (\<Union>l \<in> {l \<in> set lanes. e \<and> bl_laneId l \<in> set valid \<and> lane_records rs (bl_laneId l) \<noteq> []}. set (lane_dimensions l)) \<and>
   lv_uncertain (fold (launch_lane e valid rs b) lanes ev) = lv_uncertain ev"
  by (induction lanes arbitrary: ev) (auto simp: launch_lane_def Let_def js_keys_fold_set)

lemma uncertain_dimensions:
  "set (fold (\<lambda>lane. add_all (lane_dimensions lane)) lanes xs) = set xs \<union> (\<Union>l \<in> set lanes. set (lane_dimensions l))"
  by (induction lanes arbitrary: xs) auto

lemma launch_batch_facts:
  "set (lv_dispatched (launch_batch e env b ev)) = set (lv_dispatched ev) \<union> (\<Union>l \<in> {l. launched_lane env b l}. set (lane_dimensions l))"
  "set (lv_nonValid (launch_batch e env b ev)) = set (lv_nonValid ev) \<union>
     (\<Union>l \<in> {l. e \<and> launched_lane env b l \<and> bl_laneId l \<notin> set (ce_semanticallyValid env b)}. set (lane_dimensions l))"
  "fst ` set (lv_stale (launch_batch e env b ev)) = fst ` set (lv_stale ev) \<union>
     (\<Union>l \<in> {l. e \<and> launched_lane env b l \<and> bl_laneId l \<in> set (ce_semanticallyValid env b)}. set (lane_dimensions l))"
  "set (lv_uncertain (launch_batch e env b ev)) = set (lv_uncertain ev) \<union>
     (\<Union>l \<in> {l \<in> set (bd_lanes b). ce_records env (bd_batchId b) = None}. set (lane_dimensions l))"
  by (cases "ce_records env (bd_batchId b)"; auto simp: launch_batch_def launch_lanes launched_lane_def uncertain_dimensions)+

lemma launch_batches:
  "set (lv_dispatched (fold (launch_batch e env) bs ev)) =
     set (lv_dispatched ev) \<union> (\<Union>b \<in> set bs. \<Union>l \<in> {l. launched_lane env b l}. set (lane_dimensions l))"
  "set (lv_nonValid (fold (launch_batch e env) bs ev)) = set (lv_nonValid ev) \<union>
     (\<Union>b \<in> set bs. \<Union>l \<in> {l. e \<and> launched_lane env b l \<and> bl_laneId l \<notin> set (ce_semanticallyValid env b)}. set (lane_dimensions l))"
  "fst ` set (lv_stale (fold (launch_batch e env) bs ev)) = fst ` set (lv_stale ev) \<union>
     (\<Union>b \<in> set bs. \<Union>l \<in> {l. e \<and> launched_lane env b l \<and> bl_laneId l \<in> set (ce_semanticallyValid env b)}. set (lane_dimensions l))"
  "set (lv_uncertain (fold (launch_batch e env) bs ev)) = set (lv_uncertain ev) \<union>
     (\<Union>b \<in> set bs. \<Union>l \<in> {l \<in> set (bd_lanes b). ce_records env (bd_batchId b) = None}. set (lane_dimensions l))"
  by (induction bs arbitrary: ev) (auto simp: launch_batch_facts)

lemma launch_sets:
  "d \<in> set (lv_dispatched (launches env s)) \<longleftrightarrow> (\<exists>b \<in> set (dispatches_of s). \<exists>l. launched_lane env b l \<and> d \<in> set (lane_dimensions l))"
  "d \<in> set (lv_nonValid (launches env s)) \<longleftrightarrow>
     (\<exists>b \<in> set (dispatches_of s). \<exists>l. stale_eligible s \<and> launched_lane env b l \<and> bl_laneId l \<notin> set (ce_semanticallyValid env b) \<and>
        d \<in> set (lane_dimensions l))"
  "js_get (lv_stale (launches env s)) d = None \<longleftrightarrow>
     \<not> (\<exists>b \<in> set (dispatches_of s). \<exists>l. stale_eligible s \<and> launched_lane env b l \<and> bl_laneId l \<in> set (ce_semanticallyValid env b) \<and>
        d \<in> set (lane_dimensions l))"
  "d \<in> set (lv_uncertain (launches env s)) \<longleftrightarrow>
     (\<exists>b \<in> set (dispatches_of s). \<exists>l \<in> set (bd_lanes b). ce_records env (bd_batchId b) = None \<and> d \<in> set (lane_dimensions l))"
proof -
  have "js_get (lv_stale (launches env s)) d = None \<longleftrightarrow> d \<notin> fst ` set (lv_stale (launches env s))"
    by (simp add: map_of_eq_None_iff)
  then show "js_get (lv_stale (launches env s)) d = None \<longleftrightarrow>
     \<not> (\<exists>b \<in> set (dispatches_of s). \<exists>l. stale_eligible s \<and> launched_lane env b l \<and> bl_laneId l \<in> set (ce_semanticallyValid env b) \<and>
        d \<in> set (lane_dimensions l))"
    unfolding launches_def by (simp only: launch_batches) auto
qed (auto simp: launches_def launch_batches)

section \<open>Every dimension has one view\<close>

lemma view_dimension: "dimension_view lc env s d = Unresolved r \<Longrightarrow> ud_dimension r = d"
  by (auto simp: dimension_view_def Let_def unresolved_of_def failed_view_def split: if_splits option.splits prod.splits)

lemma views_split:
  "mset (filter (\<lambda>d. v d = Covered) ds @ map ud_dimension (List.map_filter (\<lambda>d. unresolved_view (v d)) ds) @ filter (\<lambda>d. v d = Live) ds) = mset ds"
  if "\<And>d r. v d = Unresolved r \<Longrightarrow> ud_dimension r = d"
  using that by (induction ds) (auto simp: unresolved_view_def map_filter_simps split: dimension_view.split)

lemma covered_iff: "dimension_view lc env s d = Covered \<longleftrightarrow> (\<exists>b \<in> set (dispatches_of s). d \<in> set (ce_successful env b))"
proof -
  have "dimension_view lc env s d = Covered \<longleftrightarrow> d \<in> set (da_successful (summarizePrReviewBaseDimensionAttempts env s))"
    by (auto simp: dimension_view_def Let_def split: option.splits prod.splits)
  then show ?thesis by (simp add: summary_sets)
qed

text \<open>A structured receipt, like every other failure, is read off a record.\<close>

lemma lane_unresolved_launched:
  assumes "lane_unresolved lc env d (bd_batchId b) lane acc \<noteq> acc" "lane \<in> set (bd_lanes b)"
  shows "launched_lane env b lane \<and> d \<in> set (lane_dimensions lane)"
  using assms by (auto simp: lane_unresolved_def launched_lane_def split: if_splits option.splits)

lemma lanes_unresolved_launched:
  assumes "fold (lane_unresolved lc env d (bd_batchId b)) lanes acc \<noteq> acc" "set lanes \<subseteq> set (bd_lanes b)"
  shows "\<exists>l. launched_lane env b l \<and> d \<in> set (lane_dimensions l)"
  using assms
proof (induction lanes arbitrary: acc)
  case (Cons lane lanes)
  show ?case
  proof (cases "lane_unresolved lc env d (bd_batchId b) lane acc = acc")
    case True
    then show ?thesis using Cons by simp
  next
    case False
    then show ?thesis using lane_unresolved_launched Cons.prems(2) by fastforce
  qed
qed simp

lemma batches_unresolved_launched:
  assumes "fold (\<lambda>b. fold (lane_unresolved lc env d (bd_batchId b)) (bd_lanes b)) bs acc \<noteq> acc"
  shows "\<exists>b \<in> set bs. \<exists>l. launched_lane env b l \<and> d \<in> set (lane_dimensions l)"
  using assms
proof (induction bs arbitrary: acc)
  case (Cons b bs)
  show ?case
  proof (cases "fold (lane_unresolved lc env d (bd_batchId b)) (bd_lanes b) acc = acc")
    case True
    then show ?thesis using Cons by simp
  next
    case False
    then show ?thesis using lanes_unresolved_launched [OF False] by auto
  qed
qed simp

lemma receipt_launched:
  "latestStructuredReceiptUnresolvedForBaseDimension lc env s d \<noteq> None \<Longrightarrow> d \<in> set (lv_dispatched (launches env s))"
  using batches_unresolved_launched [where acc = None] unfolding latestStructuredReceiptUnresolvedForBaseDimension_def launch_sets by blast

lemma failure_launched:
  "d \<in> set (da_terminallyFailed (summarizePrReviewBaseDimensionAttempts env s)) \<Longrightarrow> d \<in> set (lv_dispatched (launches env s))"
  unfolding summary_sets launch_sets by (fastforce simp: batch_failed_def open_lane_def launched_lane_def split: option.splits)

text \<open>The state an unresolved dimension is reported in.\<close>

lemma failed_view_state: "ud_terminalState (failed_view d f u) = ''FAILED''"
  by (simp add: failed_view_def unresolved_of_def split: option.split)

lemma view_state:
  assumes "dimension_view lc env s d = Unresolved r"
  shows "ud_terminalState r =
    (if js_has (option_or (rv_prReviewDimensionCancellations s) []) d then ''CANCELLED''
     else if d \<in> set (lv_dispatched (launches env s)) then ''FAILED'' else ''NOT_LAUNCHED'')"
  using assms receipt_launched [of lc env s d] failure_launched [of d env s]
  by (auto simp: dimension_view_def Let_def failed_view_state unresolved_of_def split: if_splits option.splits prod.splits)

lemma view_not_launched:
  assumes "dimension_view lc env s d = Unresolved r" "ud_terminalState r = ''NOT_LAUNCHED''"
    and "b \<in> set (dispatches_of s)" "lane \<in> set (bd_lanes b)" "d \<in> set (lane_dimensions lane)"
  shows "\<exists>rs. ce_records env (bd_batchId b) = Some rs \<and> lane_records rs (bl_laneId lane) = []"
proof -
  have "d \<notin> set (lv_dispatched (launches env s))" "d \<notin> set (lv_uncertain (launches env s))"
    using assms(1,2) view_state [OF assms(1)]
    by (auto simp: dimension_view_def Let_def unresolved_of_def failed_view_state split: if_splits option.splits prod.splits)
  then show ?thesis using assms(3-5) unfolding launch_sets by (fastforce simp: launched_lane_def)
qed

lemma view_unresolved:
  assumes "dimension_view lc env s d = Unresolved r" "b \<in> set (dispatches_of s)" "lane \<in> set (bd_lanes b)"
    and "d \<in> set (lane_dimensions lane)" "bl_laneId lane \<notin> set (ce_semanticallyValid env b)"
  shows "\<exists>rs. ce_records env (bd_batchId b) = Some rs \<and> list_all terminal_status (lane_records rs (bl_laneId lane))"
proof -
  have "d \<notin> set (da_inFlight (summarizePrReviewBaseDimensionAttempts env s))"
    using assms(1) by (auto simp: dimension_view_def Let_def split: if_splits)
  then have "d \<notin> batch_inFlight env b" using assms(2) by (simp add: summary_sets)
  then show ?thesis
    using assms(3-5) by (auto simp: batch_inFlight_def split: option.splits if_splits)
qed

lemma map_filter_member: "r \<in> set (List.map_filter f xs) \<longleftrightarrow> (\<exists>x \<in> set xs. f x = Some r)"
  by (force simp: map_filter_def)

lemma unresolved_view_Some: "unresolved_view v = Some r \<longleftrightarrow> v = Unresolved r"
  by (cases v) (auto simp: unresolved_view_def)

lemma unresolved_view_of:
  assumes "r \<in> set (ds_unresolvedDimensions (derivePrReviewDimensionSettlement lc env s))"
  shows "dimension_view lc env s (ud_dimension r) = Unresolved r"
proof -
  obtain d where "dimension_view lc env s d = Unresolved r"
    using assms by (auto simp: derivePrReviewDimensionSettlement_def Let_def map_filter_member unresolved_view_Some)
  then show ?thesis using view_dimension by metis
qed

lemma settlement_split:
  "mset (ds_coveredDimensions (derivePrReviewDimensionSettlement lc env s) @
     map ud_dimension (ds_unresolvedDimensions (derivePrReviewDimensionSettlement lc env s)) @
     ds_liveDimensions (derivePrReviewDimensionSettlement lc env s)) = mset PR_REVIEW_BASE_DIMENSION_IDS"
  unfolding derivePrReviewDimensionSettlement_def Let_def dimension_settlement.simps
  by (rule views_split) (rule view_dimension)

text \<open>C14: The settlement is honest.  Each of the six base dimensions is covered, unresolved or live, exactly once; it is covered
  exactly if some batch has an authoritative artifact for it at the current revision.  A dimension is unresolved only if every
  lane that owns it and has no valid artifact is in a readable batch with all its records terminal, and what is said
  of it is determined by the evidence: cancelled exactly if its cancellation is recorded; otherwise failed if some
  lane that owns it has a record in a batch that could be read, and never launched if none has.  Never launched also means
  that every batch with a lane that owns the dimension could be read.\<close>

theorem settlement_is_honest:
  assumes "derivePrReviewDimensionSettlement lc env s = st"
  shows "mset (ds_coveredDimensions st @ map ud_dimension (ds_unresolvedDimensions st) @ ds_liveDimensions st) =
      mset PR_REVIEW_BASE_DIMENSION_IDS \<and>
    (\<forall>d \<in> set PR_REVIEW_BASE_DIMENSION_IDS. d \<in> set (ds_coveredDimensions st) \<longleftrightarrow>
       (\<exists>b \<in> set (dispatches_of s). d \<in> set (ce_successful env b))) \<and>
    (\<forall>r \<in> set (ds_unresolvedDimensions st).
       ud_terminalState r =
         (if js_has (option_or (rv_prReviewDimensionCancellations s) []) (ud_dimension r) then ''CANCELLED''
          else if \<exists>b \<in> set (dispatches_of s). \<exists>lane \<in> set (bd_lanes b). \<exists>rs. ud_dimension r \<in> set (lane_dimensions lane) \<and>
                    ce_records env (bd_batchId b) = Some rs \<and> lane_records rs (bl_laneId lane) \<noteq> []
          then ''FAILED'' else ''NOT_LAUNCHED'')) \<and>
    (\<forall>r \<in> set (ds_unresolvedDimensions st). \<forall>b \<in> set (dispatches_of s). \<forall>lane \<in> set (bd_lanes b).
       ud_dimension r \<in> set (lane_dimensions lane) \<longrightarrow>
         (bl_laneId lane \<notin> set (ce_semanticallyValid env b) \<longrightarrow>
            (\<exists>rs. ce_records env (bd_batchId b) = Some rs \<and> list_all terminal_status (lane_records rs (bl_laneId lane)))) \<and>
         (ud_terminalState r = ''NOT_LAUNCHED'' \<longrightarrow>
            (\<exists>rs. ce_records env (bd_batchId b) = Some rs \<and> lane_records rs (bl_laneId lane) = [])))"
  unfolding assms [symmetric]
proof (intro conjI ballI impI)
  let ?st = "derivePrReviewDimensionSettlement lc env s"
  fix r assume r: "r \<in> set (ds_unresolvedDimensions ?st)"
  show "ud_terminalState r =
      (if js_has (option_or (rv_prReviewDimensionCancellations s) []) (ud_dimension r) then ''CANCELLED''
       else if \<exists>b \<in> set (dispatches_of s). \<exists>lane \<in> set (bd_lanes b). \<exists>rs. ud_dimension r \<in> set (lane_dimensions lane) \<and>
                 ce_records env (bd_batchId b) = Some rs \<and> lane_records rs (bl_laneId lane) \<noteq> []
       then ''FAILED'' else ''NOT_LAUNCHED'')"
    unfolding view_state [OF unresolved_view_of [OF r]] launch_sets launched_lane_def by (auto intro: if_cong)
  fix b lane
  assume b: "b \<in> set (dispatches_of s)" "lane \<in> set (bd_lanes b)" "ud_dimension r \<in> set (lane_dimensions lane)"
  show "\<exists>rs. ce_records env (bd_batchId b) = Some rs \<and> list_all terminal_status (lane_records rs (bl_laneId lane))"
    if "bl_laneId lane \<notin> set (ce_semanticallyValid env b)"
    using view_unresolved [OF unresolved_view_of [OF r] b that] .
  show "\<exists>rs. ce_records env (bd_batchId b) = Some rs \<and> lane_records rs (bl_laneId lane) = []"
    if "ud_terminalState r = ''NOT_LAUNCHED''"
    using view_not_launched [OF unresolved_view_of [OF r] that b] .
qed (rule settlement_split, simp add: derivePrReviewDimensionSettlement_def Let_def covered_iff)

section \<open>Approval\<close>

lemma distinct_dimensions: "distinct PR_REVIEW_BASE_DIMENSION_IDS"
  by code_simp

lemma derived_kind:
  "ds_kind (derivePrReviewDimensionSettlement lc env s) = Complete_Coverage \<longleftrightarrow>
     (\<forall>d \<in> set PR_REVIEW_BASE_DIMENSION_IDS. \<exists>b \<in> set (dispatches_of s). d \<in> set (ce_successful env b))"
proof -
  have "length (filter P xs) = length xs \<longleftrightarrow> (\<forall>x \<in> set xs. P x)" for P :: "string \<Rightarrow> bool" and xs
  proof (induction xs)
    case (Cons x xs)
    have "length (filter P xs) \<noteq> Suc (length xs)" using length_filter_le [of P xs] by linarith
    with Cons show ?case by auto
  qed simp
  then show ?thesis
    by (auto simp: derivePrReviewDimensionSettlement_def Let_def coverage_kind_of_def covered_iff)
qed

text \<open>C9: An approval stands for six covered dimensions.  When the gate asks the transition authority to finalize the settlement it
  derived, \<open>APPROVE\<close> is applied exactly if every base dimension has an authoritative artifact at the current revision
  in some recorded batch and no degradation was disclosed; the state is never changed by it.\<close>

theorem approval_means_all_covered:
  "(\<exists>effs. reducePrReviewEvent lc s (Coverage_Finalization_Requested
       (finalization_settlement (derivePrReviewDimensionSettlement lc' env s)) (Some Approve) degraded) = Applied s effs) \<longleftrightarrow>
   (\<forall>d \<in> set PR_REVIEW_BASE_DIMENSION_IDS. \<exists>b \<in> set (dispatches_of s). d \<in> set (ce_successful env b)) \<and> \<not> degraded"
proof -
  let ?st = "derivePrReviewDimensionSettlement lc' env s"
  have live: "ds_liveDimensions ?st = []" if "ds_kind ?st = Complete_Coverage"
  proof -
    have "dimension_view lc' env s d = Covered" if "d \<in> set PR_REVIEW_BASE_DIMENSION_IDS" for d
      using that \<open>ds_kind ?st = Complete_Coverage\<close> by (simp add: derived_kind covered_iff)
    then show ?thesis
      by (simp add: derivePrReviewDimensionSettlement_def Let_def filter_empty_conv)
  qed
  have "(\<exists>effs. reducePrReviewEvent lc s (Coverage_Finalization_Requested (finalization_settlement ?st) (Some Approve) degraded) =
      Applied s effs) \<longleftrightarrow> ds_kind ?st = Complete_Coverage \<and> ds_liveDimensions ?st = [] \<and> \<not> degraded"
    by (cases "ds_kind ?st") (auto simp: review_transitions finalization_settlement_def)
  then show ?thesis using live derived_kind [of lc' env s] by blast
qed

text \<open>C27: Nothing stays live once the retries are used up: if the staged policy is enabled and its attempts are spent, every
  batch can be read and every record of a base lane is terminal, then no dimension is live, so the settlement says of each
  either that it is covered or how it failed, and a completion can be reported.\<close>

theorem settlement_terminates_after_retries:
  assumes "stale_eligible s"
    and "\<forall>b \<in> set (dispatches_of s). \<exists>rs. ce_records env (bd_batchId b) = Some rs \<and> list_all terminal_status rs"
  shows "ds_liveDimensions (derivePrReviewDimensionSettlement lc env s) = [] \<and>
    ds_allLaunchedTerminal (derivePrReviewDimensionSettlement lc env s)"
proof -
  have trm: "list_all terminal_status (lane_records rs l)"
    if b: "b \<in> set (dispatches_of s)" "ce_records env (bd_batchId b) = Some rs" for b rs l
    using assms(2) b by (fastforce simp: lane_records_def list_all_iff)
  have "dimension_view lc env s d \<noteq> Live" for d
  proof
    assume live: "dimension_view lc env s d = Live"
    have flight: "d \<notin> set (da_inFlight (summarizePrReviewBaseDimensionAttempts env s))"
      using assms(2) trm by (fastforce simp: summary_sets batch_inFlight_def split: if_splits option.splits)
    have "d \<notin> set (da_terminallyFailed (summarizePrReviewBaseDimensionAttempts env s))"
      using live flight by (auto simp: dimension_view_def Let_def split: if_splits)
    then have failed: "\<forall>b \<in> set (dispatches_of s). d \<notin> batch_failed env b" by (simp add: summary_sets)
    have un: "d \<notin> set (lv_uncertain (launches env s))"
      using assms(2) unfolding launch_sets by fastforce
    have valid: "bl_laneId l \<in> set (ce_semanticallyValid env b)"
      if l: "b \<in> set (dispatches_of s)" "launched_lane env b l" "d \<in> set (lane_dimensions l)" for b l
      using failed l trm by (fastforce simp: batch_failed_def open_lane_def launched_lane_def)
    then have nonv: "d \<notin> set (lv_nonValid (launches env s))" unfolding launch_sets by blast
    show False
    proof (cases "d \<in> set (lv_dispatched (launches env s))")
      case True
      then have "js_get (lv_stale (launches env s)) d \<noteq> None"
        using valid assms(1) unfolding launch_sets by blast
      then show False using live flight True nonv assms(1)
        by (auto simp: dimension_view_def Let_def split: if_splits)
    next
      case False
      then show False using live flight un by (auto simp: dimension_view_def Let_def split: if_splits)
    qed
  qed
  then show ?thesis by (simp add: derivePrReviewDimensionSettlement_def Let_def filter_empty_conv)
qed

section \<open>Evaluated settlements\<close>

definition cov_record_example :: "string \<Rightarrow> string \<Rightarrow> cov_record" where
  "cov_record_example laneId st =
     \<lparr>vc_laneId = Some laneId, vc_status = st,
      vc_result = Some \<lparr>vr_failureClass = Some ''contract'', vr_terminalErrorClass = None, vr_digest = None\<rparr>,
      vc_terminalResult = None, vc_completedAt = None, vc_updatedAt = 7\<rparr>"

definition base_lane_example :: "string \<Rightarrow> string \<Rightarrow> base_lane" where
  "base_lane_example laneId dimension = \<lparr>bl_laneId = laneId, bl_workflowLane = dimension, bl_ownedWorkflowLanes = None\<rparr>"

text \<open>One batch with a covered, a failed and a stale lane; the other dimensions were never launched.\<close>

definition covered_state :: "unit review_state" where
  "covered_state = review_example
     \<lparr>rv_prReviewBaseDispatches := Some [\<lparr>bd_batchId = ''b1'', bd_lanes =
         [base_lane_example ''l1'' ''intent-architecture'', base_lane_example ''l2'' ''correctness-state'',
          base_lane_example ''l3'' ''security-trust''], bd_validatedAt = ''t''\<rparr>],
      rv_prReviewResilience := Some \<lparr>rl_policy = (resolvePrReviewResiliencePolicy None)\<lparr>rp_enabled := True\<rparr>,
        rl_attempts = [(), (), ()], rl_circuit = None\<rparr>\<rparr>"

definition covered_env :: coverage_env where
  "covered_env =
     \<lparr>ce_records = (\<lambda>b. Some [cov_record_example ''l1'' ''completed'', cov_record_example ''l2'' ''error'', cov_record_example ''l3'' ''completed'']),
      ce_successful = (\<lambda>b. [''intent-architecture'']), ce_semanticallyValid = (\<lambda>b. [''l1'', ''l3'']),
      ce_unresolved = (\<lambda>_ _ _. None)\<rparr>"

lemma covered_example_views:
  "map (\<lambda>r. (ud_dimension r, ud_terminalState r, ur_failureClass r))
     (ds_unresolvedDimensions (derivePrReviewDimensionSettlement no_collation covered_env covered_state)) =
   [(''correctness-state'', ''FAILED'', Some ''contract''), (''tests-falsifiability'', ''NOT_LAUNCHED'', None),
    (''security-trust'', ''FAILED'', Some ''resource''), (''reliability-performance'', ''NOT_LAUNCHED'', None),
    (''compatibility-delivery'', ''NOT_LAUNCHED'', None)]"
  by code_simp

theorem settlement_is_honest_witness:
  "''intent-architecture'' \<in> set (ds_coveredDimensions (derivePrReviewDimensionSettlement no_collation covered_env covered_state)) \<and>
   length (ds_coveredDimensions (derivePrReviewDimensionSettlement no_collation covered_env covered_state) @
     map ud_dimension (ds_unresolvedDimensions (derivePrReviewDimensionSettlement no_collation covered_env covered_state)) @
     ds_liveDimensions (derivePrReviewDimensionSettlement no_collation covered_env covered_state)) = 6"
proof -
  let ?st = "derivePrReviewDimensionSettlement no_collation covered_env covered_state"
  note honest = settlement_is_honest [OF refl, of no_collation covered_env covered_state]
  have b: "dispatches_of covered_state \<noteq> []" "ce_successful covered_env b = [''intent-architecture'']" for b
    by (simp_all add: covered_state_def dispatches_of_def option_or_def covered_env_def)
  have "\<exists>b \<in> set (dispatches_of covered_state). ''intent-architecture'' \<in> set (ce_successful covered_env b)"
    using b by (cases "dispatches_of covered_state") auto
  moreover have "''intent-architecture'' \<in> set PR_REVIEW_BASE_DIMENSION_IDS" by (simp add: PR_REVIEW_BASE_DIMENSION_IDS_def)
  ultimately have "''intent-architecture'' \<in> set (ds_coveredDimensions ?st)"
    using honest [THEN conjunct2, THEN conjunct1] by blast
  moreover have "size (mset PR_REVIEW_BASE_DIMENSION_IDS) = 6" by (simp add: PR_REVIEW_BASE_DIMENSION_IDS_def)
  ultimately show ?thesis
    using honest [THEN conjunct1, THEN arg_cong [where f = size]] by (simp only: size_mset)
qed

theorem settlement_terminates_after_retries_witness:
  "ds_liveDimensions (derivePrReviewDimensionSettlement no_collation covered_env covered_state) = []"
proof -
  have "stale_eligible covered_state" by code_simp
  moreover have "list_all terminal_status [cov_record_example ''l1'' ''completed'', cov_record_example ''l2'' ''error'', cov_record_example ''l3'' ''completed'']"
    by code_simp
  then have "\<forall>b \<in> set (dispatches_of covered_state). \<exists>rs. ce_records covered_env (bd_batchId b) = Some rs \<and> list_all terminal_status rs"
    by (simp add: covered_env_def)
  ultimately show ?thesis using settlement_terminates_after_retries by blast
qed

theorem approval_means_all_covered_witness:
  "(\<exists>effs. reducePrReviewEvent no_collation covered_state (Coverage_Finalization_Requested
      (finalization_settlement (derivePrReviewDimensionSettlement no_collation
        (covered_env\<lparr>ce_successful := \<lambda>_. PR_REVIEW_BASE_DIMENSION_IDS\<rparr>) covered_state)) (Some Approve) False) =
      Applied covered_state effs) \<and>
   (\<nexists>effs. reducePrReviewEvent no_collation covered_state (Coverage_Finalization_Requested
      (finalization_settlement (derivePrReviewDimensionSettlement no_collation covered_env covered_state)) (Some Approve) False) =
      Applied covered_state effs)"
proof -
  have b: "dispatches_of covered_state \<noteq> []" by (simp add: covered_state_def dispatches_of_def option_or_def)
  have "''security-trust'' \<in> set PR_REVIEW_BASE_DIMENSION_IDS" "\<forall>b. ''security-trust'' \<notin> set (ce_successful covered_env b)"
    by (simp_all add: PR_REVIEW_BASE_DIMENSION_IDS_def covered_env_def)
  then show ?thesis
    using b approval_means_all_covered [of no_collation covered_state no_collation covered_env False]
      approval_means_all_covered [of no_collation covered_state no_collation
        "covered_env\<lparr>ce_successful := \<lambda>_. PR_REVIEW_BASE_DIMENSION_IDS\<rparr>" False]
    by (cases "dispatches_of covered_state") auto
qed

end
