(* ===== verification/Lane_Floor.thy ===== *)
theory Lane_Floor
  imports Review_Coverage
begin

text \<open>
  The lane floor of a deep review, \<^verbatim>\<open>src/hooks/pr-workflow-gate.ts\<close>: the normalization of the lanes of a dispatch, the
  fewest consolidated lanes that cover what consolidated lanes claim (a dynamic program over bit masks), the number of
  lanes that back the six dimensions, the rejection of a consolidating batch at depth tier L, and the part of the
  batch collection that keeps the ledger of retired consolidated lanes.  A bit mask, a 32-bit integer in the source, is the
  natural number of its bits: masks are only combined, compared for equality and, below \<open>2 ^ 12\<close>, used as indexes.
\<close>

section \<open>Normalization\<close>

record lane_spec =
  ls_laneId :: "string option"
  ls_workflowLane :: "string option"
  ls_reviewItemIds :: "string list option"
  ls_ownedWorkflowLanes :: "string list option"
  ls_agent :: "string option"

record normalized_lane = base_lane +
  nl_reviewItemIds :: "string list option"
  nl_agent :: "string option"

datatype lane_error =
    No_Lanes | Empty_Lane_Name | Empty_Review_Item | Too_Many_Review_Items | Empty_Owned_Lane | Duplicate string
  | Owned_Without_Own string

definition MAX_PR_REVIEW_COLLECTION_RECEIPT_ITEM_IDS :: nat where "MAX_PR_REVIEW_COLLECTION_RECEIPT_ITEM_IDS = 10000"

definition normalize_items :: "string list option \<Rightarrow> lane_error + string list option" where
  "normalize_items items =
     (case items of
        None \<Rightarrow> Inr None
      | Some raw \<Rightarrow>
          let ids = map js_trim raw
          in if [] \<in> set ids then Inl Empty_Review_Item
             else if length ids > MAX_PR_REVIEW_COLLECTION_RECEIPT_ITEM_IDS then Inl Too_Many_Review_Items
             else if \<not> distinct ids then Inl (Duplicate ''review item ids within one lane'')
             else Inr (Some ids))"

definition normalize_owned :: "string \<Rightarrow> string \<Rightarrow> string list option \<Rightarrow> lane_error + string list option" where
  "normalize_owned laneId workflowLane owned =
     (case owned of
        None \<Rightarrow> Inr None
      | Some raw \<Rightarrow>
          let lanes = map js_trim raw
          in if [] \<in> set lanes then Inl Empty_Owned_Lane
             else if \<not> distinct lanes then Inl (Duplicate ''owned workflow lanes within one lane'')
             else if workflowLane \<notin> set lanes then Inl (Owned_Without_Own laneId)
             else Inr (Some lanes))"

text \<open>\<open>trim() || fallback\<close>, and an optional text that is dropped when it is empty.\<close>

definition nonempty_or :: "string \<Rightarrow> string \<Rightarrow> string" where
  "nonempty_or s d = (if s = [] then d else s)"

definition normalize_lane :: "lane_spec \<Rightarrow> lane_error + normalized_lane" where
  "normalize_lane lane =
     (let workflowLane = js_trim (option_or (ls_workflowLane lane) []);
          laneId = nonempty_or (js_trim (option_or (ls_laneId lane) [])) workflowLane;
          agent = js_trim (option_or (ls_agent lane) [])
      in if workflowLane = [] \<or> laneId = [] then Inl Empty_Lane_Name
         else case normalize_items (ls_reviewItemIds lane) of
                Inl e \<Rightarrow> Inl e
              | Inr items \<Rightarrow>
                  (case normalize_owned laneId workflowLane (ls_ownedWorkflowLanes lane) of
                     Inl e \<Rightarrow> Inl e
                   | Inr owned \<Rightarrow>
                       Inr \<lparr>bl_laneId = laneId, bl_workflowLane = workflowLane, bl_ownedWorkflowLanes = owned,
                            nl_reviewItemIds = items, nl_agent = (if agent = [] then None else Some agent)\<rparr>))"

fun normalize_lanes :: "lane_spec list \<Rightarrow> lane_error + normalized_lane list" where
  "normalize_lanes [] = Inr []"
| "normalize_lanes (l # ls) =
     (case normalize_lane l of
        Inl e \<Rightarrow> Inl e
      | Inr n \<Rightarrow> (case normalize_lanes ls of Inl e \<Rightarrow> Inl e | Inr ns \<Rightarrow> Inr (n # ns)))"

text \<open>\<open>lane.ownedWorkflowLanes ?? [lane.workflowLane]\<close>\<close>

definition owned_or_own :: "'c base_lane_scheme \<Rightarrow> string list" where
  "owned_or_own lane = option_or (bl_ownedWorkflowLanes lane) [bl_workflowLane lane]"

definition normalizeWorkflowLanes :: "lane_spec list \<Rightarrow> lane_error + normalized_lane list" where
  "normalizeWorkflowLanes lanes =
     (if lanes = [] then Inl No_Lanes
      else case normalize_lanes lanes of
             Inl e \<Rightarrow> Inl e
           | Inr ns \<Rightarrow>
               if \<not> distinct (map bl_laneId ns) then Inl (Duplicate ''lane ids'')
               else if \<not> distinct (map bl_workflowLane ns) then Inl (Duplicate ''workflow lane ids'')
               else if \<not> distinct (concat (map owned_or_own ns))
               then Inl (Duplicate ''owned workflow lane ids across lanes'')
               else Inr ns)"

definition declaredBaseDimensions :: "base_lane list \<Rightarrow> string list" where
  "declaredBaseDimensions lanes = concat (map lane_dimensions lanes)"

definition exactDimensionPartition :: "string list \<Rightarrow> string list \<Rightarrow> bool" where
  "exactDimensionPartition actual expected =
     (length actual = length expected \<and> length (js_uniq actual) = length expected \<and>
      list_all (\<lambda>d. d \<in> set actual) expected)"

section \<open>The fewest covering lanes\<close>

definition MAX_COVER_UNIVERSE_BITS :: nat where "MAX_COVER_UNIVERSE_BITS = 12"

fun position :: "'a list \<Rightarrow> 'a \<Rightarrow> nat" where
  "position [] x = 0"
| "position (y # ys) x = (if x = y then 0 else Suc (position ys x))"

text \<open>\<open>1 << i\<close>: the shift takes the count modulo 32.\<close>

definition lane_bit :: "string list \<Rightarrow> string \<Rightarrow> nat" where
  "lane_bit universe dimension = push_bit (position universe dimension mod 32) 1"

definition mask_step :: "string list \<Rightarrow> string \<Rightarrow> nat \<times> nat \<Rightarrow> nat \<times> nat" where
  "mask_step universe dimension = (\<lambda>(msk, size).
     (msk OR lane_bit universe dimension, if msk AND lane_bit universe dimension = 0 then Suc size else size))"

definition mask_and_size :: "string list \<Rightarrow> string list \<Rightarrow> nat \<times> nat" where
  "mask_and_size universe lane = fold (mask_step universe) lane (0, 0)"

definition relax_step :: "nat \<Rightarrow> nat \<Rightarrow> nat \<Rightarrow> nat list \<Rightarrow> nat list" where
  "relax_step msk steps setMask best =
     (let nxt = msk OR setMask
      in if nxt = msk then best
         else if best ! nxt > steps + 1 then best[nxt := steps + 1] else best)"

definition relax :: "nat \<Rightarrow> nat list \<Rightarrow> nat \<Rightarrow> nat list \<Rightarrow> nat list" where
  "relax unreachable masks msk best =
     (let steps = best ! msk
      in if steps = unreachable then best else fold (relax_step msk steps) masks best)"

definition cover_table :: "nat \<Rightarrow> nat list \<Rightarrow> nat list" where
  "cover_table n masks =
     (let full = 2 ^ n - 1
      in fold (relax (n + 1) masks) [0..<full] (0 # replicate full (n + 1)))"

definition minimumConsolidatedLaneCover :: "string list list \<Rightarrow> nat" where
  "minimumConsolidatedLaneCover sets =
     (let universe = js_uniq (concat sets);
          universeSize = length universe;
          masked = filter (\<lambda>(msk, size). msk \<noteq> 0) (map (mask_and_size universe) sets);
          distinctMasks = js_uniq (map fst masked);
          largestSetSize = fold max (map snd masked) 1
      in if universeSize = 0 then 0
         else if universeSize > MAX_COVER_UNIVERSE_BITS
         then (universeSize + largestSetSize - 1) div largestSetSize
         else cover_table universeSize distinctMasks ! (2 ^ universeSize - 1))"

section \<open>The backing lanes of a tier-L wave\<close>

definition PR_REVIEW_BASE_LANE_FLOOR_M :: nat where "PR_REVIEW_BASE_LANE_FLOOR_M = 3"

definition PR_REVIEW_BASE_LANE_FLOOR_L :: nat where
  "PR_REVIEW_BASE_LANE_FLOOR_L = length PR_REVIEW_BASE_DIMENSION_IDS"

definition PR_REVIEW_TIER_L_CONSOLIDATED_LANE_FLOOR :: nat where
  "PR_REVIEW_TIER_L_CONSOLIDATED_LANE_FLOOR = PR_REVIEW_BASE_LANE_FLOOR_M + 1"

definition encodeConsolidatedLaneKey :: "string list \<Rightarrow> string" where
  "encodeConsolidatedLaneKey owned = js_join ''|'' (js_sort code_unit_compare (js_uniq owned))"

definition decodeConsolidatedLaneKey :: "string \<Rightarrow> string list" where
  "decodeConsolidatedLaneKey key = filter (\<lambda>d. 0 < length d) (split_on CHR ''|'' key)"

text \<open>The gate's state: the slice of the transition authority with the fields the gate adds.\<close>

record 'a gate_state = "'a review_state" +
  gs_mode :: string
  gs_prReviewDepthTier :: "string option"
  gs_prReviewRetiredConsolidatedLanes :: "string list option"

text \<open>What \<open>consider\<close> adds for one declared lane: its set, and its dimensions to the consolidated ones.\<close>

definition considered_set :: "string list \<Rightarrow> bool \<Rightarrow> string list \<Rightarrow> string list option" where
  "considered_set dedicatedSuccessful allowSupersede owned =
     (let declared = filter (\<lambda>d. d \<noteq> []) owned
      in if length declared < 2 then None
         else
           let live = (if allowSupersede then filter (\<lambda>d. d \<notin> set dedicatedSuccessful) declared else declared)
           in if live = [] then None else Some (js_uniq live))"

definition consolidated_sets ::
  "('a, 'b) gate_state_scheme \<Rightarrow> base_lane list \<Rightarrow> string list \<Rightarrow> string list list" where
  "consolidated_sets state normalizedLanes dedicatedSuccessful =
     List.map_filter (considered_set dedicatedSuccessful True \<circ> lane_dimensions) (concat (map bd_lanes (dispatches_of state))) @
     List.map_filter (considered_set dedicatedSuccessful True \<circ> decodeConsolidatedLaneKey)
       (option_or (gs_prReviewRetiredConsolidatedLanes state) []) @
     List.map_filter (considered_set dedicatedSuccessful False \<circ> lane_dimensions) normalizedLanes"

definition tierLBackingLaneCount ::
  "('a, 'b) gate_state_scheme \<Rightarrow> base_lane list \<Rightarrow> string list \<Rightarrow> nat \<times> string list" where
  "tierLBackingLaneCount state normalizedLanes dedicatedSuccessful =
     (let consolidatedSets = consolidated_sets state normalizedLanes dedicatedSuccessful;
          consolidatedDimensions = js_uniq (concat consolidatedSets);
          dedicatedDimensions = length (filter (\<lambda>d. d \<notin> set consolidatedDimensions) PR_REVIEW_BASE_DIMENSION_IDS)
      in (dedicatedDimensions + minimumConsolidatedLaneCover consolidatedSets, consolidatedDimensions))"

datatype consolidation_rejection =
    Initial_Wave
  | Whole_Wave_Lane string
  | All_Dimensions_Few_Lanes nat
  | Already_Successful "string list"
  | Not_Terminally_Failed "string list"
  | Below_Floor nat "string list"

text \<open>\<open>None\<close> where the batch may consolidate.\<close>

definition tierLConsolidationRejection ::
  "coverage_env \<Rightarrow> ('a, 'b) gate_state_scheme \<Rightarrow> base_lane list \<Rightarrow> consolidation_rejection option" where
  "tierLConsolidationRejection env state normalizedLanes =
     (let dimensionCount = length PR_REVIEW_BASE_DIMENSION_IDS;
          consolidatedLanes = filter (\<lambda>lane. owned_length lane \<noteq> 1) normalizedLanes;
          claimedDimensions = js_uniq (concat (map owned_or_own normalizedLanes));
          attempts = summarizePrReviewBaseDimensionAttempts env state;
          consolidatedDimensions = filter (\<lambda>d. d \<noteq> []) (js_uniq (concat (map owned_or_own consolidatedLanes)));
          alreadySuccessful = filter (\<lambda>d. d \<in> set (da_successful attempts)) consolidatedDimensions;
          notTerminallyFailed = filter (\<lambda>d. d \<notin> set (da_terminallyFailed attempts)) consolidatedDimensions;
          backing = tierLBackingLaneCount state normalizedLanes (da_dedicatedSuccessful attempts)
      in if length (dispatches_of state) = 0 then Some Initial_Wave
         else case List.find (\<lambda>lane. owned_length lane \<ge> dimensionCount) consolidatedLanes of
                Some lane \<Rightarrow> Some (Whole_Wave_Lane (bl_laneId lane))
              | None \<Rightarrow>
                  if length claimedDimensions \<ge> dimensionCount \<and> length normalizedLanes < PR_REVIEW_BASE_LANE_FLOOR_L
                  then Some (All_Dimensions_Few_Lanes (length normalizedLanes))
                  else if 0 < length alreadySuccessful then Some (Already_Successful alreadySuccessful)
                  else if 0 < length notTerminallyFailed then Some (Not_Terminally_Failed notTerminallyFailed)
                  else if fst backing < PR_REVIEW_TIER_L_CONSOLIDATED_LANE_FLOOR
                  then Some (Below_Floor (fst backing) (snd backing))
                  else None)"

section \<open>Collecting base batches\<close>

definition fully_successful_lane :: "string list \<Rightarrow> base_lane \<Rightarrow> bool" where
  "fully_successful_lane successful lane = list_all (\<lambda>d. d \<in> set successful) (lane_dimensions lane)"

definition surviving_base :: "coverage_env \<Rightarrow> base_dispatch list \<Rightarrow> base_dispatch list" where
  "surviving_base env baseBatches =
     (let contributing = map bd_batchId
            (filter (\<lambda>b. list_ex (fully_successful_lane (ce_successful env b)) (bd_lanes b)) baseBatches)
      in filter (\<lambda>b. Some (bd_batchId b) = map_option bd_batchId (last_of baseBatches) \<or> bd_batchId b \<in> set contributing)
           baseBatches)"

definition retire_lane :: "base_lane \<Rightarrow> string list \<Rightarrow> string list" where
  "retire_lane lane retired =
     (if length (js_uniq (lane_dimensions lane)) < 2 then retired
      else set_add (encodeConsolidatedLaneKey (lane_dimensions lane)) retired)"

definition retired_lanes :: "base_dispatch list \<Rightarrow> base_dispatch list \<Rightarrow> string list \<Rightarrow> string list" where
  "retired_lanes baseBatches surviving ledger =
     fold (\<lambda>b. if bd_batchId b \<in> set (map bd_batchId surviving) then (\<lambda>r. r) else fold retire_lane (bd_lanes b))
       baseBatches (js_uniq ledger)"

definition MAX_RETIRED_CONSOLIDATED_LANES :: nat where "MAX_RETIRED_CONSOLIDATED_LANES = 64"

text \<open>\<open>pruneWorkflowBatches\<close> for a workflow that has recorded no validation batch: the collection of the reviewer batches, of their
  child sessions and of the coherence marks is not modelled.  \<open>None\<close> where it abandons the prune or has nothing to drop.\<close>

definition prune_base_batches ::
  "coverage_env \<Rightarrow> ('a, 'b) gate_state_scheme \<Rightarrow> ('a, 'b) gate_state_scheme option" where
  "prune_base_batches env state =
     (let baseBatches = dispatches_of state;
          surviving = surviving_base env baseBatches;
          retired = retired_lanes baseBatches surviving (option_or (gs_prReviewRetiredConsolidatedLanes state) [])
      in if length surviving = length baseBatches then None
         else if length retired > MAX_RETIRED_CONSOLIDATED_LANES then None
         else Some (state
                \<lparr>rv_prReviewBaseDispatches := map_option (\<lambda>_. surviving) (rv_prReviewBaseDispatches state),
                 gs_prReviewRetiredConsolidatedLanes :=
                   (if 0 < length retired then Some retired else None)\<rparr>))"

end
