(* ===== verification/Lane_Floor_Facts.thy ===== *)
theory Lane_Floor_Facts
  imports Lane_Floor Review_Coverage_Facts
begin

text \<open>
  The lane floor is exact: the dynamic program finds the size of a minimum cover, whatever the order of the declarations, a
  consolidating batch that is admitted leaves no way to back the six dimensions with fewer than four lanes, and collecting
  base batches does not give consolidation budget back.
\<close>

section \<open>Masks\<close>

lemma or_less_power: "(x::nat) < 2 ^ n \<Longrightarrow> y < 2 ^ n \<Longrightarrow> x OR y < 2 ^ n"
  by (simp flip: take_bit_nat_eq_self_iff add: take_bit_or)

lemma le_or: "(x::nat) \<le> x OR y"
proof -
  have "int x \<le> int x OR int y" by (rule or_greater_eq) simp
  then show ?thesis by (simp flip: of_nat_or_eq)
qed

lemma fold_or_bit: "bit (fold (OR) ms (x::nat)) i \<longleftrightarrow> bit x i \<or> (\<exists>m \<in> set ms. bit m i)"
  by (induction ms arbitrary: x) (auto simp: bit_or_iff)

lemma fold_or_less: "(x::nat) < 2 ^ n \<Longrightarrow> \<forall>m \<in> set ms. m < 2 ^ n \<Longrightarrow> fold (OR) ms x < 2 ^ n"
  by (induction ms arbitrary: x) (auto simp: or_less_power)

lemma full_bit: "bit (2 ^ n - 1 :: nat) i \<longleftrightarrow> i < n"
proof -
  have "(2 ^ n - 1 :: nat) = mask n" by (simp add: mask_eq_exp_minus_1)
  then show ?thesis by (simp only: bit_mask_iff possible_bit_nat simp_thms)
qed

lemma high_bit: "(x::nat) < 2 ^ n \<Longrightarrow> bit x i \<Longrightarrow> i < n"
  by (metis bit_take_bit_iff take_bit_nat_eq_self_iff)

lemma full_iff:
  assumes "(x::nat) < 2 ^ n"
  shows "x = 2 ^ n - 1 \<longleftrightarrow> (\<forall>i < n. bit x i)"
proof
  assume "\<forall>i < n. bit x i"
  then have "bit x i \<longleftrightarrow> bit (2 ^ n - 1 :: nat) i" for i
    using high_bit [OF assms] unfolding full_bit by blast
  then show "x = 2 ^ n - 1" by (rule bit_eqI)
next
  assume "x = 2 ^ n - 1"
  then show "\<forall>i < n. bit x i" by (simp only: full_bit) simp
qed

section \<open>The table\<close>

text \<open>Every entry that is reachable is the length of a list of masks with that union; no entry exceeds the start value.\<close>

definition sound_table :: "nat \<Rightarrow> nat list \<Rightarrow> nat list \<Rightarrow> bool" where
  "sound_table n masks best =
     (length best = 2 ^ n \<and> best ! 0 = 0 \<and>
      (\<forall>y < 2 ^ n. best ! y \<le> Suc n \<and>
         (best ! y < Suc n \<longrightarrow> (\<exists>ms. set ms \<subseteq> set masks \<and> length ms = best ! y \<and> fold (OR) ms 0 = y))))"

lemma fold_or_snoc: "fold (OR) (ms @ [m]) x = m OR fold (OR) ms x"
  by simp

lemma relax_step_sound:
  assumes "sound_table n masks best" "cur < 2 ^ n" "s \<in> set masks" "s < 2 ^ n" "best ! cur = steps" "steps < Suc n"
  shows "sound_table n masks (relax_step cur steps s best) \<and> relax_step cur steps s best ! cur = steps \<and>
    (\<forall>y \<le> cur. relax_step cur steps s best ! y = best ! y) \<and> (\<forall>y. relax_step cur steps s best ! y \<le> best ! y) \<and>
    relax_step cur steps s best ! (cur OR s) \<le> Suc steps"
proof -
  let ?nxt = "cur OR s"
  have lt: "?nxt < 2 ^ n" and le: "cur \<le> ?nxt" using assms(2,4) or_less_power le_or by auto
  have len: "length best = 2 ^ n" using assms(1) by (simp add: sound_table_def)
  show ?thesis
  proof (cases "?nxt \<noteq> cur \<and> best ! ?nxt > Suc steps")
    case True
    then have upd: "relax_step cur steps s best = best[?nxt := Suc steps]" by (simp add: relax_step_def)
    have new: "best[?nxt := Suc steps] ! y = (if y = ?nxt then Suc steps else best ! y)" for y
      using len lt by (cases "y < 2 ^ n") (auto simp: nth_list_update)
    obtain ms where ms: "set ms \<subseteq> set masks" "length ms = steps" "fold (OR) ms 0 = cur"
      using assms by (auto simp: sound_table_def)
    have "sound_table n masks (best[?nxt := Suc steps])"
      unfolding sound_table_def
    proof (intro conjI allI impI)
      have "?nxt \<noteq> 0" using True le by auto
      then show "best[?nxt := Suc steps] ! 0 = 0" using assms(1) by (simp add: sound_table_def new)
    next
      fix y :: nat assume "y < 2 ^ n"
      then show "best[?nxt := Suc steps] ! y \<le> Suc n" using assms(1,6) by (simp add: sound_table_def new)
    next
      fix y :: nat assume y: "y < 2 ^ n" "best[?nxt := Suc steps] ! y < Suc n"
      show "\<exists>ms. set ms \<subseteq> set masks \<and> length ms = best[?nxt := Suc steps] ! y \<and> fold (OR) ms 0 = y"
      proof (cases "y = ?nxt")
        case True
        have "set (ms @ [s]) \<subseteq> set masks \<and> length (ms @ [s]) = Suc steps \<and> fold (OR) (ms @ [s]) 0 = y"
          using ms assms(3) True by (simp add: or.commute)
        then show ?thesis using True by (metis new)
      next
        case False
        then show ?thesis using y assms(1) by (simp add: sound_table_def new)
      qed
    qed (simp add: len)
    then show ?thesis using True le assms(5) by (auto simp: upd new)
  next
    case False
    then have "relax_step cur steps s best = best" by (auto simp: relax_step_def Let_def)
    then show ?thesis using False assms by auto
  qed
qed

lemma relax_steps_sound:
  assumes "sound_table n masks best" "cur < 2 ^ n" "set ss \<subseteq> set masks" "\<forall>s \<in> set masks. s < 2 ^ n"
    and "best ! cur = steps" "steps < Suc n"
  shows "sound_table n masks (fold (relax_step cur steps) ss best) \<and>
    (\<forall>y \<le> cur. fold (relax_step cur steps) ss best ! y = best ! y) \<and>
    (\<forall>y. fold (relax_step cur steps) ss best ! y \<le> best ! y) \<and>
    (\<forall>s \<in> set ss. fold (relax_step cur steps) ss best ! (cur OR s) \<le> Suc steps)"
  using assms
proof (induction ss arbitrary: best)
  case (Cons s ss)
  let ?b = "relax_step cur steps s best"
  have step: "sound_table n masks ?b" "?b ! cur = steps" "\<forall>y \<le> cur. ?b ! y = best ! y" "\<forall>y. ?b ! y \<le> best ! y"
    "?b ! (cur OR s) \<le> Suc steps"
    using relax_step_sound [of n masks best cur s steps] Cons.prems by auto
  have IH: "sound_table n masks (fold (relax_step cur steps) ss ?b)"
    "\<forall>y \<le> cur. fold (relax_step cur steps) ss ?b ! y = ?b ! y" "\<forall>y. fold (relax_step cur steps) ss ?b ! y \<le> ?b ! y"
    "\<forall>s \<in> set ss. fold (relax_step cur steps) ss ?b ! (cur OR s) \<le> Suc steps"
    using Cons.IH [OF step(1) Cons.prems(2) _ Cons.prems(4) step(2) Cons.prems(6)] Cons.prems(3) by auto
  show ?case using IH step by (auto intro: order_trans)
qed simp

text \<open>After the masks below \<open>m\<close> their edges are relaxed.\<close>

definition relaxed :: "nat \<Rightarrow> nat list \<Rightarrow> nat list \<Rightarrow> bool" where
  "relaxed m masks best = (\<forall>x < m. \<forall>s \<in> set masks. best ! (x OR s) \<le> Suc (best ! x))"

lemma relax_fold:
  assumes "sound_table n masks best" "\<forall>s \<in> set masks. s < 2 ^ n" "m \<le> 2 ^ n"
  shows "sound_table n masks (fold (relax (Suc n) masks) [0..<m] best) \<and>
    relaxed m masks (fold (relax (Suc n) masks) [0..<m] best)"
  using assms(3)
proof (induction m)
  case 0
  then show ?case using assms(1) by (simp add: relaxed_def)
next
  case (Suc m)
  let ?b = "fold (relax (Suc n) masks) [0..<m] best"
  have b: "sound_table n masks ?b" "relaxed m masks ?b" and m: "m < 2 ^ n" using Suc by auto
  have bound: "?b ! y \<le> Suc n" if "y < 2 ^ n" for y using b(1) that by (simp add: sound_table_def)
  show ?case
  proof (cases "?b ! m = Suc n")
    case True
    then have "relax (Suc n) masks m ?b = ?b" by (simp add: relax_def)
    moreover have "relaxed (Suc m) masks ?b"
      unfolding relaxed_def
    proof (intro allI impI ballI)
      fix x s assume x: "x < Suc m" and s: "s \<in> set masks"
      show "?b ! (x OR s) \<le> Suc (?b ! x)"
      proof (cases "x = m")
        case True
        have "?b ! (m OR s) \<le> Suc n" using or_less_power [OF m] assms(2) s by (intro bound) auto
        then show ?thesis using True \<open>?b ! m = Suc n\<close> by simp
      next
        case False
        then show ?thesis using b(2) x s by (simp add: relaxed_def)
      qed
    qed
    ultimately show ?thesis using b(1) by simp
  next
    case False
    then have steps: "?b ! m < Suc n" using bound [OF m] by simp
    let ?b' = "fold (relax_step m (?b ! m)) masks ?b"
    have b': "sound_table n masks ?b'" "\<forall>y \<le> m. ?b' ! y = ?b ! y" "\<forall>y. ?b' ! y \<le> ?b ! y"
      "\<forall>s \<in> set masks. ?b' ! (m OR s) \<le> Suc (?b ! m)"
      using relax_steps_sound [OF b(1) m subset_refl assms(2) refl steps] by auto
    have "relaxed (Suc m) masks ?b'"
      unfolding relaxed_def
    proof (intro allI impI ballI)
      fix x s assume x: "x < Suc m" and s: "s \<in> set masks"
      have "?b' ! (x OR s) \<le> Suc (?b ! x)"
      proof (cases "x = m")
        case True
        then show ?thesis using b'(4) s by simp
      next
        case False
        then have "?b ! (x OR s) \<le> Suc (?b ! x)" using b(2) x s by (simp add: relaxed_def)
        then show ?thesis using b'(3) order_trans by blast
      qed
      then show "?b' ! (x OR s) \<le> Suc (?b' ! x)" using b'(2) x by simp
    qed
    moreover have "relax (Suc n) masks m ?b = ?b'" using False by (simp add: relax_def)
    ultimately show ?thesis using b'(1) by simp
  qed
qed

definition spans :: "nat \<Rightarrow> nat list \<Rightarrow> nat list \<Rightarrow> bool" where
  "spans n masks ms = (set ms \<subseteq> set masks \<and> fold (OR) ms 0 = 2 ^ n - 1)"

lemma start_sound: "0 < n \<Longrightarrow> sound_table n masks (0 # replicate (2 ^ n - 1) (Suc n))"
proof -
  assume "0 < n"
  have "(0 # replicate (2 ^ n - 1) (Suc n)) ! y = (if y = 0 then 0 else Suc n)" if "y < 2 ^ n" for y :: nat
    using that by (cases y) (auto simp: less_diff_conv)
  moreover have "\<exists>ms. set ms \<subseteq> set masks \<and> length ms = 0 \<and> fold (OR) ms 0 = (0::nat)" by (intro exI [of _ "[]"]) simp
  ultimately show ?thesis by (auto simp: sound_table_def)
qed

text \<open>The entry for all dimensions is a length that is reached, and no list of masks with that union is shorter.\<close>

lemma cover_table_correct:
  assumes "0 < n" "\<forall>s \<in> set masks. s < 2 ^ n" "spans n masks cover" "length cover \<le> n"
  shows "(\<exists>ms. spans n masks ms \<and> length ms = cover_table n masks ! (2 ^ n - 1)) \<and>
    (\<forall>ms. spans n masks ms \<longrightarrow> cover_table n masks ! (2 ^ n - 1) \<le> length ms)"
proof -
  let ?best = "cover_table n masks"
  have best: "?best = fold (relax (Suc n) masks) [0..<2 ^ n - 1] (0 # replicate (2 ^ n - 1) (Suc n))"
    by (simp add: cover_table_def Let_def)
  have snd: "sound_table n masks ?best" and rel: "relaxed (2 ^ n - 1) masks ?best"
    using relax_fold [OF start_sound [OF assms(1)] assms(2), of "2 ^ n - 1"] by (simp_all add: best)
  have least: "?best ! (fold (OR) ms 0) \<le> length ms" if sub: "set ms \<subseteq> set masks" for ms
    using sub
  proof (induction ms rule: rev_induct)
    case Nil
    then show ?case using snd by (simp add: sound_table_def)
  next
    case (snoc s ms)
    let ?x = "fold (OR) ms (0::nat)"
    have x: "?x < 2 ^ n" using snoc.prems assms(2) by (intro fold_or_less) auto
    have s: "s \<in> set masks" "s < 2 ^ n" using snoc.prems assms(2) by auto
    have IH: "?best ! ?x \<le> length ms" using snoc by auto
    have "?best ! (?x OR s) \<le> Suc (?best ! ?x)"
    proof (cases "?x = 2 ^ n - 1")
      case True
      then have "?x OR s = ?x" using or_less_power [OF x s(2)] le_or [of ?x s] by linarith
      then show ?thesis by simp
    next
      case False
      then show ?thesis using rel s(1) x by (simp add: relaxed_def)
    qed
    then show ?case using IH by (simp add: or.commute)
  qed
  have all: "?best ! (2 ^ n - 1) \<le> length ms" if "spans n masks ms" for ms
    using least [of ms] that by (simp add: spans_def)
  have "?best ! (2 ^ n - 1) < Suc n" using all [OF assms(3)] assms(4) by simp
  moreover have "(2 ^ n - 1 :: nat) < 2 ^ n" by simp
  ultimately obtain ms where "set ms \<subseteq> set masks" "length ms = ?best ! (2 ^ n - 1)" "fold (OR) ms 0 = 2 ^ n - 1"
    using snd unfolding sound_table_def by blast
  then have "\<exists>ms. spans n masks ms \<and> length ms = ?best ! (2 ^ n - 1)" unfolding spans_def by blast
  then show ?thesis using all by blast
qed

section \<open>Positions and lane masks\<close>

lemma position_less: "x \<in> set xs \<Longrightarrow> position xs x < length xs"
  by (induction xs) auto

lemma nth_position: "x \<in> set xs \<Longrightarrow> xs ! position xs x = x"
  by (induction xs) auto

lemma position_inj: "x \<in> set xs \<Longrightarrow> y \<in> set xs \<Longrightarrow> position xs x = position xs y \<longleftrightarrow> x = y"
  by (metis nth_position)

lemma bit_position_nth: "distinct xs \<Longrightarrow> i < length xs \<Longrightarrow> position xs (xs ! i) = i"
  by (metis nth_eq_iff_index_eq nth_mem nth_position position_less)

lemma lane_bit_bit: "bit (lane_bit u d) i \<longleftrightarrow> i = position u d mod 32"
  by (auto simp: lane_bit_def bit_exp_iff)

lemma fold_mask_bit:
  "bit (fst (fold (mask_step u) lane (m, k))) i \<longleftrightarrow> bit m i \<or> (\<exists>d \<in> set lane. i = position u d mod 32)"
  by (induction lane arbitrary: m k) (auto simp: mask_step_def bit_or_iff lane_bit_bit)

lemma lane_mask_bit: "bit (fst (mask_and_size u lane)) i \<longleftrightarrow> (\<exists>d \<in> set lane. i = position u d mod 32)"
  by (simp add: mask_and_size_def fold_mask_bit)

lemma bits_less: "(\<And>i. bit (m::nat) i \<Longrightarrow> i < n) \<Longrightarrow> m < 2 ^ n"
  by (metis bit_eqI bit_take_bit_iff take_bit_nat_eq_self_iff)

lemma and_lane_bit: "m AND lane_bit u d = 0 \<longleftrightarrow> \<not> bit m (position u d mod 32)"
proof
  assume "m AND lane_bit u d = 0"
  then have "\<not> bit (m AND lane_bit u d) (position u d mod 32)" by simp
  then show "\<not> bit m (position u d mod 32)" by (simp add: bit_and_iff lane_bit_bit)
next
  assume "\<not> bit m (position u d mod 32)"
  then show "m AND lane_bit u d = 0" by (intro bit_eqI) (auto simp: bit_and_iff lane_bit_bit)
qed

lemma mask_step_pair:
  "mask_step u d (m, k) = (m OR lane_bit u d, if m AND lane_bit u d = 0 then Suc k else k)"
  by (simp add: mask_step_def)

text \<open>Up to 32 dimensions the size counts the distinct dimensions.\<close>

lemma fold_mask_size:
  assumes "length u \<le> 32" "set lane \<union> A \<subseteq> set u" "finite A" "\<And>i. bit m i \<longleftrightarrow> (\<exists>d \<in> A. i = position u d)" "k = card A"
  shows "snd (fold (mask_step u) lane (m, k)) = card (A \<union> set lane)"
  using assms(2-)
proof (induction lane arbitrary: m k A)
  case (Cons d lane)
  have small: "position u e mod 32 = position u e" if "e \<in> set u" for e
    using position_less [OF that] assms(1) by simp
  have d: "d \<in> set u" using Cons.prems(1) by simp
  have bitd: "bit m (position u d) \<longleftrightarrow> d \<in> A"
    using Cons.prems(1,3) d by (auto simp: position_inj)
  have "snd (fold (mask_step u) lane (m OR lane_bit u d, if m AND lane_bit u d = 0 then Suc k else k)) = card (insert d A \<union> set lane)"
  proof (rule Cons.IH)
    show "bit (m OR lane_bit u d) i \<longleftrightarrow> (\<exists>e \<in> insert d A. i = position u e)" for i
      using Cons.prems(3) by (auto simp: bit_or_iff lane_bit_bit small [OF d])
    show "(if m AND lane_bit u d = 0 then Suc k else k) = card (insert d A)"
      using Cons.prems(2,4) by (simp add: and_lane_bit small [OF d] bitd insert_absorb)
  qed (use Cons.prems in auto)
  then show ?case by (simp add: mask_step_pair)
qed simp

lemma lane_mask_size: "length u \<le> 32 \<Longrightarrow> set lane \<subseteq> set u \<Longrightarrow> snd (mask_and_size u lane) = card (set lane)"
  using fold_mask_size [of u lane "{}" 0 0] by (simp add: mask_and_size_def)

section \<open>The minimum cover\<close>

text \<open>The reference: the fewest sets of a family that together have its union.\<close>

definition covers :: "string set set \<Rightarrow> string set set \<Rightarrow> bool" where
  "covers F C = (C \<subseteq> F \<and> \<Union> C = \<Union> F)"

definition cover_number :: "string set set \<Rightarrow> nat" where
  "cover_number F = (LEAST k. \<exists>C. covers F C \<and> card C = k)"

lemma cover_number_le: "covers F C \<Longrightarrow> cover_number F \<le> card C"
  unfolding cover_number_def by (rule Least_le) blast

lemma cover_number_attained: "\<exists>C. covers F C \<and> card C = cover_number F"
  unfolding cover_number_def by (rule LeastI_ex) (auto simp: covers_def)


text \<open>The masks of the lanes over a universe of at most 32 dimensions.\<close>

lemma small_mask_bit:
  assumes "length u \<le> 32" "set lane \<subseteq> set u"
  shows "bit (fst (mask_and_size u lane)) i \<longleftrightarrow> (\<exists>d \<in> set lane. i = position u d)"
proof -
  have "position u d mod 32 = position u d" if "d \<in> set lane" for d
    using position_less [of d u] assms that by auto
  then show ?thesis by (auto simp: lane_mask_bit)
qed

lemma small_mask_less:
  assumes "length u \<le> 32" "set lane \<subseteq> set u"
  shows "fst (mask_and_size u lane) < 2 ^ length u"
proof (rule bits_less)
  fix i assume "bit (fst (mask_and_size u lane)) i"
  then obtain d where d: "d \<in> set lane" "i = position u d" unfolding small_mask_bit [OF assms] by blast
  have "d \<in> set u" using assms(2) d(1) by blast
  then show "i < length u" unfolding d(2) by (rule position_less)
qed

lemma small_mask_zero:
  assumes "length u \<le> 32" "set lane \<subseteq> set u"
  shows "fst (mask_and_size u lane) = 0 \<longleftrightarrow> lane = []"
proof
  assume zero: "fst (mask_and_size u lane) = 0"
  show "lane = []"
  proof (rule ccontr)
    assume "lane \<noteq> []"
    then have "bit (fst (mask_and_size u lane)) (position u (hd lane))" unfolding small_mask_bit [OF assms] by auto
    then show False by (simp add: zero)
  qed
qed (simp add: mask_and_size_def)

definition lane_masks :: "string list list \<Rightarrow> nat list" where
  "lane_masks sets =
     js_uniq (map fst (filter (\<lambda>(m, k). m \<noteq> 0) (map (mask_and_size (js_uniq (concat sets))) sets)))"

lemma lane_in_universe: "lane \<in> set sets \<Longrightarrow> set lane \<subseteq> set (js_uniq (concat sets))"
  by auto

lemma set_lane_masks:
  "set (lane_masks sets) = {m. m \<noteq> 0 \<and> (\<exists>lane \<in> set sets. m = fst (mask_and_size (js_uniq (concat sets)) lane))}"
  by (auto simp: lane_masks_def image_iff) (metis fst_conv prod.collapse)+

text \<open>Lists of masks with all bits are covers, and covers are lists of masks.\<close>

lemma spans_bits:
  assumes "\<forall>m \<in> set ms. m < 2 ^ n"
  shows "fold (OR) ms (0::nat) = 2 ^ n - 1 \<longleftrightarrow> (\<forall>i < n. \<exists>m \<in> set ms. bit m i)"
  using full_iff [OF fold_or_less [of 0 n ms]] assms by (simp add: fold_or_bit)

lemma spans_cover:
  assumes "length (js_uniq (concat sets)) \<le> 32" "spans (length (js_uniq (concat sets))) (lane_masks sets) ms"
  shows "\<exists>C. covers (set ` set sets) C \<and> card C \<le> length ms"
proof -
  let ?u = "js_uniq (concat sets)" and ?m = "\<lambda>lane. fst (mask_and_size (js_uniq (concat sets)) lane)"
  have sub: "set ms \<subseteq> set (lane_masks sets)" and full: "fold (OR) ms 0 = 2 ^ length ?u - 1"
    using assms(2) by (auto simp: spans_def)
  then have "\<forall>m \<in> set ms. \<exists>lane \<in> set sets. m = ?m lane" by (auto simp: set_lane_masks)
  then obtain g where g: "\<forall>m \<in> set ms. g m \<in> set sets \<and> m = ?m (g m)" by metis
  have less: "\<forall>m \<in> set ms. m < 2 ^ length ?u"
    using g small_mask_less [OF assms(1) lane_in_universe] by metis
  let ?C = "(\<lambda>m. set (g m)) ` set ms"
  have "d \<in> \<Union> ?C" if d: "d \<in> set ?u" for d
  proof -
    have "position ?u d < length ?u" using d by (rule position_less)
    then obtain m where m: "m \<in> set ms" "bit m (position ?u d)" using full spans_bits [OF less] by blast
    then have "bit (?m (g m)) (position ?u d)" using g by simp
    then obtain e where e: "e \<in> set (g m)" "position ?u d = position ?u e"
      using small_mask_bit [OF assms(1) lane_in_universe] g m(1) by blast
    moreover have "e \<in> set ?u" using e(1) g m(1) lane_in_universe by blast
    ultimately have "e = d" using position_inj [of e ?u d] d by simp
    then show ?thesis using e(1) m(1) by blast
  qed
  then have "covers (set ` set sets) ?C" using g by (fastforce simp: covers_def)
  moreover have "card ?C \<le> length ms" using card_image_le [of "set ms"] card_length by (meson finite_set order_trans)
  ultimately show ?thesis by blast
qed

lemma cover_spans:
  assumes "length (js_uniq (concat sets)) \<le> 32" "covers (set ` set sets) C"
  shows "\<exists>ms. spans (length (js_uniq (concat sets))) (lane_masks sets) ms \<and> length ms \<le> card C"
proof -
  let ?u = "js_uniq (concat sets)" and ?m = "\<lambda>lane. fst (mask_and_size (js_uniq (concat sets)) lane)"
  have C: "C \<subseteq> set ` set sets" "\<Union> C = set ?u" using assms(2) by (auto simp: covers_def)
  have fin: "finite C" using C(1) by (rule finite_subset) simp
  have "\<forall>S \<in> C. \<exists>lane \<in> set sets. S = set lane" using C(1) by auto
  then obtain h where h: "\<forall>S \<in> C. h S \<in> set sets \<and> S = set (h S)" by metis
  obtain Cs where Cs: "set Cs = C - {{}}" "distinct Cs" using fin finite_distinct_list by (metis finite_Diff)
  let ?ms = "map (?m \<circ> h) Cs"
  have in_u: "set (h S) \<subseteq> set ?u" if "S \<in> set Cs" for S
  proof -
    have "h S \<in> set sets" using that h Cs(1) by blast
    then show ?thesis by (rule lane_in_universe)
  qed
  have less: "\<forall>m \<in> set ?ms. m < 2 ^ length ?u"
    using small_mask_less [OF assms(1) in_u] by auto
  have "\<exists>m \<in> set ?ms. bit m i" if i: "i < length ?u" for i
  proof -
    have d: "?u ! i \<in> set ?u" using i by (rule nth_mem)
    then obtain S where S: "S \<in> C" "?u ! i \<in> S" using C(2) by blast
    then have S': "S \<in> set Cs" using Cs(1) by auto
    have "?u ! i \<in> set (h S)" using h S by blast
    moreover have "position ?u (?u ! i) = i" using i by (intro bit_position_nth) simp_all
    ultimately have "bit (?m (h S)) i" using small_mask_bit [OF assms(1) in_u [OF S']] by metis
    then show ?thesis using S' by auto
  qed
  then have full: "fold (OR) ?ms 0 = 2 ^ length ?u - 1" using spans_bits [OF less] by blast
  have "?m (h S) \<noteq> 0" if "S \<in> set Cs" for S
    using small_mask_zero [OF assms(1) in_u [OF that]] h Cs(1) that by auto
  then have "set ?ms \<subseteq> set (lane_masks sets)" using h Cs(1) by (auto simp: set_lane_masks)
  moreover have "length ?ms \<le> card C"
    using Cs fin by (metis card_mono Diff_subset distinct_card length_map)
  ultimately show ?thesis using full unfolding spans_def by blast
qed

lemma cover_number_universe: "cover_number (set ` set sets) \<le> length (js_uniq (concat sets))"
proof -
  let ?u = "js_uniq (concat sets)"
  have "\<forall>d \<in> set ?u. \<exists>lane \<in> set sets. d \<in> set lane" by auto
  then obtain h where h: "\<forall>d \<in> set ?u. h d \<in> set sets \<and> d \<in> set (h d)" by metis
  have "covers (set ` set sets) ((set \<circ> h) ` set ?u)" using h by (fastforce simp: covers_def)
  then have "cover_number (set ` set sets) \<le> card ((set \<circ> h) ` set ?u)" by (rule cover_number_le)
  also have "\<dots> \<le> length ?u" using card_image_le [of "set ?u" "set \<circ> h"] card_length [of ?u] by (meson finite_set order_trans)
  finally show ?thesis .
qed

lemma table_is_cover_number:
  assumes "0 < length (js_uniq (concat sets))" "length (js_uniq (concat sets)) \<le> 32"
  shows "cover_table (length (js_uniq (concat sets))) (lane_masks sets) ! (2 ^ length (js_uniq (concat sets)) - 1) =
    cover_number (set ` set sets)"
proof -
  let ?u = "js_uniq (concat sets)" and ?ms = "lane_masks sets"
  have less: "\<forall>m \<in> set ?ms. m < 2 ^ length ?u"
    using small_mask_less [OF assms(2) lane_in_universe] by (auto simp: set_lane_masks)
  obtain C where C: "covers (set ` set sets) C" "card C = cover_number (set ` set sets)" using cover_number_attained by blast
  obtain cover where cover: "spans (length ?u) ?ms cover" "length cover \<le> card C" using cover_spans [OF assms(2) C(1)] by blast
  have "length cover \<le> length ?u" using cover(2) C(2) cover_number_universe [of sets] by simp
  from cover_table_correct [OF assms(1) less cover(1) this]
  obtain ms where ms: "spans (length ?u) ?ms ms" "length ms = cover_table (length ?u) ?ms ! (2 ^ length ?u - 1)"
    and least: "cover_table (length ?u) ?ms ! (2 ^ length ?u - 1) \<le> length cover" using cover(1) by blast
  obtain D where "covers (set ` set sets) D" "card D \<le> length ms" using spans_cover [OF assms(2) ms(1)] by blast
  then have "cover_number (set ` set sets) \<le> length ms" using cover_number_le by fastforce
  then show ?thesis using ms(2) least cover(2) C(2) by linarith
qed

section \<open>The fallback of a wide universe\<close>

lemma fold_max_ge: "(k::nat) \<le> fold max ks k \<and> (\<forall>x \<in> set ks. x \<le> fold max ks k)"
proof (induction ks arbitrary: k)
  case (Cons x ks)
  have "max x k \<le> fold max ks (max x k)" "\<forall>y \<in> set ks. y \<le> fold max ks (max x k)" using Cons.IH [of "max x k"] by auto
  then show ?case by (auto intro: order_trans [OF max.cobounded1] order_trans [OF max.cobounded2])
qed simp

lemma cover_size_bound:
  assumes "covers (set ` set sets) C" "\<forall>lane \<in> set sets. card (set lane) \<le> k"
  shows "length (js_uniq (concat sets)) \<le> card C * k"
proof -
  have C: "C \<subseteq> set ` set sets" "\<Union> C = set (js_uniq (concat sets))" using assms(1) by (auto simp: covers_def)
  have fin: "finite C" using C(1) by (rule finite_subset) simp
  have "length (js_uniq (concat sets)) = card (\<Union> C)" using C(2) by (metis distinct_card distinct_js_uniq)
  also have "\<dots> \<le> (\<Sum>S \<in> C. card S)" using fin C(1) by (intro card_Union_le_sum_card)
  also have "\<dots> \<le> card C * k" using C(1) assms(2) by (intro sum_bounded_above [THEN order_trans]) auto
  finally show ?thesis .
qed

text \<open>The bound for a universe too wide for the table: no lane owns more than the largest mask says.\<close>

lemma wide_cover_bound:
  assumes "length (js_uniq (concat sets)) \<le> 32" "MAX_COVER_UNIVERSE_BITS < length (js_uniq (concat sets))"
  shows "minimumConsolidatedLaneCover sets \<le> cover_number (set ` set sets)"
proof -
  let ?u = "js_uniq (concat sets)"
  let ?masked = "filter (\<lambda>(m, k). m \<noteq> 0) (map (mask_and_size ?u) sets)"
  let ?k = "fold max (map snd ?masked) 1"
  have k: "card (set lane) \<le> ?k" if "lane \<in> set sets" for lane
  proof (cases "lane = []")
    case False
    have in_u: "set lane \<subseteq> set ?u" using \<open>lane \<in> set sets\<close> by (rule lane_in_universe)
    have "mask_and_size ?u lane \<in> set ?masked"
      using \<open>lane \<in> set sets\<close> small_mask_zero [OF assms(1) in_u] False
      by (simp only: set_filter set_map mem_Collect_eq split_beta) blast
    then have "snd (mask_and_size ?u lane) \<in> set (map snd ?masked)" by (metis image_eqI set_map)
    then have "snd (mask_and_size ?u lane) \<le> ?k" using fold_max_ge by blast
    then show ?thesis by (simp only: lane_mask_size [OF assms(1) in_u])
  qed simp
  obtain C where C: "covers (set ` set sets) C" "card C = cover_number (set ` set sets)" using cover_number_attained by blast
  have "1 \<le> ?k" using fold_max_ge [of 1 "map snd ?masked"] by blast
  moreover have "length ?u \<le> card C * ?k" using cover_size_bound [OF C(1)] k by blast
  ultimately have "length ?u + ?k - 1 < Suc (card C) * ?k" by simp
  then have "(length ?u + ?k - 1) div ?k \<le> card C" using less_mult_imp_div_less by (metis less_Suc_eq_le)
  then show ?thesis using assms(2) C(2) by (simp add: minimumConsolidatedLaneCover_def Let_def)
qed

text \<open>C15: The count of covering lanes is exact.  Over at most twelve dimensions the dynamic program gives the size of a smallest
  subfamily of the declared lanes that owns every dimension they own, whatever the order and the repetition of the
  declarations; over more, up to the 32 bits of a mask, it gives no more than that, so the floor can only refuse more.\<close>

theorem cover_is_minimum:
  assumes "length (js_uniq (concat sets)) \<le> 32"
  shows "minimumConsolidatedLaneCover sets \<le> cover_number (set ` set sets) \<and>
    (length (js_uniq (concat sets)) \<le> MAX_COVER_UNIVERSE_BITS \<longrightarrow>
       minimumConsolidatedLaneCover sets = cover_number (set ` set sets))"
proof -
  let ?u = "js_uniq (concat sets)"
  consider "length ?u = 0" | "MAX_COVER_UNIVERSE_BITS < length ?u" | "length ?u \<noteq> 0" "\<not> MAX_COVER_UNIVERSE_BITS < length ?u" by blast
  then show ?thesis
  proof cases
    case 1
    then have "set (concat sets) = {}" by (metis length_0_conv set_empty set_js_uniq)
    then have "covers (set ` set sets) {}" by (auto simp: covers_def)
    then have "cover_number (set ` set sets) = 0" using cover_number_le by fastforce
    then show ?thesis using 1 by (simp add: minimumConsolidatedLaneCover_def Let_def)
  next
    case 2
    then show ?thesis using wide_cover_bound [OF assms] by simp
  next
    case 3
    then have "minimumConsolidatedLaneCover sets = cover_table (length ?u) (lane_masks sets) ! (2 ^ length ?u - 1)"
      by (simp add: minimumConsolidatedLaneCover_def Let_def lane_masks_def)
    then show ?thesis using table_is_cover_number [of sets] 3 assms by simp
  qed
qed

section \<open>The floor of a tier-L wave\<close>

text \<open>A lane that can still produce the review of a dimension: one dedicated to it, a consolidated lane of the batch to be recorded,
  or a consolidated lane that was recorded, or retired, unless a dedicated lane has succeeded in the dimension since.\<close>

definition producing ::
  "('a, 'b) gate_state_scheme \<Rightarrow> base_lane list \<Rightarrow> string list \<Rightarrow> string \<Rightarrow> string list \<Rightarrow> bool" where
  "producing s lanes dedicated d owned =
     (owned = [d] \<or>
      (d \<in> set owned \<and> 2 \<le> length owned \<and> [] \<notin> set owned \<and>
       (owned \<in> set (map lane_dimensions lanes) \<or>
        (d \<notin> set dedicated \<and>
         (owned \<in> set (map lane_dimensions (concat (map bd_lanes (dispatches_of s)))) \<or>
          owned \<in> set (map decodeConsolidatedLaneKey (option_or (gs_prReviewRetiredConsolidatedLanes s) [])))))))"

lemma considered_recorded:
  assumes "2 \<le> length owned" "[] \<notin> set owned" "d \<in> set owned" "d \<notin> set dedicated"
  shows "\<exists>xs. considered_set dedicated True owned = Some xs \<and> set xs = set owned - set dedicated"
proof -
  have "filter (\<lambda>d. d \<noteq> []) owned = owned" using assms(2) by (intro filter_True) auto
  moreover have "d \<in> set (filter (\<lambda>d. d \<notin> set dedicated) owned)" using assms(3,4) by simp
  then have "filter (\<lambda>d. d \<notin> set dedicated) owned \<noteq> []" by (metis empty_iff list.set(1))
  ultimately show ?thesis using assms(1) by (auto simp: considered_set_def Let_def)
qed

lemma considered_new:
  assumes "2 \<le> length owned" "[] \<notin> set owned"
  shows "\<exists>xs. considered_set dedicated False owned = Some xs \<and> set xs = set owned"
proof -
  have "filter (\<lambda>d. d \<noteq> []) owned = owned" using assms(2) by (intro filter_True) auto
  then show ?thesis using assms by (auto simp: considered_set_def Let_def)
qed

lemma set_consolidated_sets:
  "xs \<in> set (consolidated_sets s lanes dedicated) \<longleftrightarrow>
     (\<exists>owned. (owned \<in> set (map lane_dimensions (concat (map bd_lanes (dispatches_of s)))) \<or>
         owned \<in> set (map decodeConsolidatedLaneKey (option_or (gs_prReviewRetiredConsolidatedLanes s) []))) \<and>
         considered_set dedicated True owned = Some xs) \<or>
     (\<exists>owned \<in> set (map lane_dimensions lanes). considered_set dedicated False owned = Some xs)"
  by (force simp: consolidated_sets_def map_filter_member)

text \<open>A producing lane that is not dedicated contains a considered set with the dimension.\<close>

lemma producing_consolidated:
  assumes "producing s lanes dedicated d owned" "owned \<noteq> [d]"
  shows "\<exists>xs \<in> set (consolidated_sets s lanes dedicated). d \<in> set xs \<and>
    set xs = (if \<exists>o' \<in> set (map lane_dimensions lanes). set o' = set owned \<and> 2 \<le> length o' \<and> [] \<notin> set o' then set owned
              else set owned - set dedicated)"
proof (cases "\<exists>o' \<in> set (map lane_dimensions lanes). set o' = set owned \<and> 2 \<le> length o' \<and> [] \<notin> set o'")
  case True
  then obtain o' where o': "o' \<in> set (map lane_dimensions lanes)" "set o' = set owned" "2 \<le> length o'" "[] \<notin> set o'" by blast
  then obtain xs where "considered_set dedicated False o' = Some xs" "set xs = set o'" using considered_new by blast
  moreover have "d \<in> set owned" using assms by (auto simp: producing_def)
  moreover have "xs \<in> set (consolidated_sets s lanes dedicated)"
    using o'(1) \<open>considered_set dedicated False o' = Some xs\<close> unfolding set_consolidated_sets by blast
  ultimately show ?thesis unfolding if_P [OF True] using o'(2) by blast
next
  case False
  have p: "d \<in> set owned" "2 \<le> length owned" "[] \<notin> set owned" "d \<notin> set dedicated"
    and rec: "owned \<in> set (map lane_dimensions (concat (map bd_lanes (dispatches_of s)))) \<or>
      owned \<in> set (map decodeConsolidatedLaneKey (option_or (gs_prReviewRetiredConsolidatedLanes s) []))"
    using assms False unfolding producing_def by blast+
  obtain xs where xs: "considered_set dedicated True owned = Some xs" "set xs = set owned - set dedicated"
    using considered_recorded [OF p(2,3,1,4)] by blast
  then have "xs \<in> set (consolidated_sets s lanes dedicated)" using rec unfolding set_consolidated_sets by blast
  then show ?thesis unfolding if_not_P [OF False] using xs(2) p(1,4) by blast
qed

lemma consolidated_members: "considered_set dedicated b owned = Some xs \<Longrightarrow> set xs \<subseteq> set owned"
  by (auto simp: considered_set_def Let_def split: if_splits)

text \<open>However the dimensions are distributed over producing lanes, the distinct lanes are at least as many as counted.\<close>

lemma backing_is_lower_bound:
  assumes prod: "\<And>d. d \<in> D \<Longrightarrow> producing s lanes dedicated d (a d)" and D: "D = set PR_REVIEW_BASE_DIMENSION_IDS"
    and within: "\<forall>xs \<in> set (consolidated_sets s lanes dedicated). set xs \<subseteq> D"
  shows "fst (tierLBackingLaneCount s lanes dedicated) \<le> card ((set \<circ> a) ` D)"
proof -
  let ?CS = "consolidated_sets s lanes dedicated" and ?F = "set ` set (consolidated_sets s lanes dedicated)"
  let ?U = "\<Union> ?F" and ?T = "(set \<circ> a) ` (\<Union> ?F)" and ?S = "(set \<circ> a) ` (D - \<Union> ?F)"
  have fin: "finite D" and U: "?U \<subseteq> D" using D within by auto
  have single: "a d = [d]" if d: "d \<in> D - ?U" for d
    using producing_consolidated [OF prod, of d] d by blast
  have S: "card ?S = card (D - ?U)"
    using single by (intro card_image) (auto simp: inj_on_def)
  have memb: "d \<in> set (a d)" if "d \<in> D" for d using prod [OF that] by (auto simp: producing_def)
  have disj: "?S \<inter> ?T = {}"
  proof (rule ccontr)
    assume "?S \<inter> ?T \<noteq> {}"
    then obtain d e where de: "d \<in> D - ?U" "e \<in> ?U" "set (a d) = set (a e)" by auto
    have "e \<in> set (a e)" using memb U de(2) by blast
    moreover have "set (a d) = {d}" using single [OF de(1)] by simp
    ultimately have "e = d" using de(3) by blast
    then show False using de(1,2) by blast
  qed
  let ?new = "\<lambda>t. \<exists>o' \<in> set (map lane_dimensions lanes). set o' = t \<and> 2 \<le> length o' \<and> [] \<notin> set o'"
  have "\<exists>S \<in> ?F. \<forall>d \<in> ?U. set (a d) = t \<longrightarrow> d \<in> S" if t: "t \<in> ?T" for t
  proof -
    obtain d where d: "d \<in> ?U" "t = set (a d)" using t by auto
    show ?thesis
    proof (cases "\<exists>e \<in> ?U. set (a e) = t \<and> a e \<noteq> [e]")
      case True
      then obtain e where e: "e \<in> ?U" "set (a e) = t" "a e \<noteq> [e]" by blast
      obtain xs where xs: "xs \<in> set ?CS" "set xs = (if ?new t then t else t - set dedicated)"
        using producing_consolidated [OF prod e(3)] e(1,2) U by blast
      have "g \<in> set xs" if g: "g \<in> ?U" "set (a g) = t" for g
      proof -
        have gt: "g \<in> t" using memb U g by blast
        show ?thesis
        proof (cases "?new t")
          case False
          have "a g \<noteq> [g] \<or> t = {g}" using g(2) by auto
          then show ?thesis
          proof
            assume "a g \<noteq> [g]"
            then obtain ys where "g \<in> set ys" "set ys = (if ?new t then t else t - set dedicated)"
              using producing_consolidated [OF prod, of g] g U by blast
            then show ?thesis using xs(2) by simp
          next
            assume "t = {g}"
            then have "e = g" using memb [of e] e(1,2) U by blast
            then obtain ys where "g \<in> set ys" "set ys = (if ?new t then t else t - set dedicated)"
              using producing_consolidated [OF prod e(3)] e(1,2) U by blast
            then show ?thesis using xs(2) by simp
          qed
        qed (use xs(2) gt in simp)
      qed
      then show ?thesis using xs(1) by blast
    next
      case False
      then have one: "a g = [g]" if "g \<in> ?U" "set (a g) = t" for g using that by blast
      have "{g} = {d}" if "g \<in> ?U" "set (a g) = t" for g
        using one [OF that] one [OF d(1) d(2) [symmetric]] that(2) d(2) by (metis empty_set list.simps(15))
      then have "g \<in> ?U \<Longrightarrow> set (a g) = t \<Longrightarrow> g = d" for g by blast
      moreover obtain S where "S \<in> ?F" "d \<in> S" using d(1) by blast
      ultimately show ?thesis by blast
    qed
  qed
  then obtain \<phi> where phi: "\<And>t. t \<in> ?T \<Longrightarrow> \<phi> t \<in> ?F \<and> (\<forall>d \<in> ?U. set (a d) = t \<longrightarrow> d \<in> \<phi> t)" by metis
  have "covers ?F (\<phi> ` ?T)"
    unfolding covers_def
  proof (intro conjI equalityI subsetI)
    fix S assume "S \<in> \<phi> ` ?T"
    then show "S \<in> ?F" using phi by blast
  next
    fix d assume "d \<in> \<Union> (\<phi> ` ?T)"
    then obtain t where "t \<in> ?T" "d \<in> \<phi> t" by blast
    then show "d \<in> ?U" using phi by blast
  next
    fix d assume d: "d \<in> ?U"
    then have t: "set (a d) \<in> ?T" by auto
    have "d \<in> \<phi> (set (a d))" using phi [OF t] d by blast
    then show "d \<in> \<Union> (\<phi> ` ?T)" using t by blast
  qed
  then have "cover_number ?F \<le> card (\<phi> ` ?T)" by (rule cover_number_le)
  also have "\<dots> \<le> card ?T" using fin U by (intro card_image_le) (auto intro: finite_subset)
  finally have T: "cover_number ?F \<le> card ?T" .
  have len: "length (js_uniq (concat ?CS)) \<le> 6"
  proof -
    have "card (set (js_uniq (concat ?CS))) \<le> card D" using fin U by (intro card_mono) auto
    moreover have "card D = 6" unfolding D by code_simp
    ultimately show ?thesis by (simp add: distinct_card [OF distinct_js_uniq] del: set_js_uniq)
  qed
  then have "minimumConsolidatedLaneCover ?CS = cover_number ?F"
    using table_is_cover_number [of ?CS] cover_number_universe [of ?CS]
    by (cases "length (js_uniq (concat ?CS)) = 0")
      (auto simp: minimumConsolidatedLaneCover_def Let_def lane_masks_def MAX_COVER_UNIVERSE_BITS_def)
  moreover have "length (filter (\<lambda>d. d \<notin> set (js_uniq (concat ?CS))) PR_REVIEW_BASE_DIMENSION_IDS) = card (D - ?U)"
  proof -
    have "set (filter (\<lambda>d. d \<notin> set (js_uniq (concat ?CS))) PR_REVIEW_BASE_DIMENSION_IDS) = D - ?U" by (auto simp: D)
    then show ?thesis by (metis distinct_card distinct_dimensions distinct_filter)
  qed
  ultimately have "fst (tierLBackingLaneCount s lanes dedicated) = card ?S + cover_number ?F"
    by (simp only: tierLBackingLaneCount_def Let_def fst_conv S)
  also have "\<dots> \<le> card ?S + card ?T" using T by simp
  also have "\<dots> = card (?S \<union> ?T)" using disj fin U by (intro card_Un_disjoint [symmetric]) (auto intro: finite_subset)
  also have "?S \<union> ?T = (set \<circ> a) ` D" using U by blast
  finally show ?thesis .
qed

lemma rejections_None:
  "(if c0 then Some x0 else case f of Some l \<Rightarrow> Some (x1 l) | None \<Rightarrow>
      if c1 then Some x2 else if c2 then Some x3 else if c3 then Some x4 else if c4 then Some x5 else None) = None \<longleftrightarrow>
   \<not> c0 \<and> f = None \<and> \<not> c1 \<and> \<not> c2 \<and> \<not> c3 \<and> \<not> c4"
  by (simp split: option.split)

text \<open>C10: A deep review cannot be consolidated below four lanes.  When a consolidating batch passes at depth tier L and all lanes
  own base dimensions only, then however the six dimensions are distributed over lanes that can still produce them,
  dedicated lanes, those of the new batch, or recorded and retired ones not superseded by a dedicated success, at least four
  different sets of dimensions are at work; the new batch has no lane that owns all six, and each dimension it
  consolidates has failed for good before and has no success.\<close>

theorem tier_l_floor_holds:
  assumes "tierLConsolidationRejection env s lanes = None"
    and "\<forall>xs \<in> set (consolidated_sets s lanes (da_dedicatedSuccessful (summarizePrReviewBaseDimensionAttempts env s))).
      set xs \<subseteq> set PR_REVIEW_BASE_DIMENSION_IDS"
    and "\<forall>d \<in> set PR_REVIEW_BASE_DIMENSION_IDS.
      producing s lanes (da_dedicatedSuccessful (summarizePrReviewBaseDimensionAttempts env s)) d (a d)"
  shows "4 \<le> card ((set \<circ> a) ` set PR_REVIEW_BASE_DIMENSION_IDS) \<and>
    (\<forall>lane \<in> set lanes. owned_length lane \<noteq> 1 \<longrightarrow> owned_length lane < 6 \<and>
      (\<forall>d \<in> set (owned_or_own lane). d \<noteq> [] \<longrightarrow>
         d \<notin> set (da_successful (summarizePrReviewBaseDimensionAttempts env s)) \<and>
         d \<in> set (da_terminallyFailed (summarizePrReviewBaseDimensionAttempts env s))))"
proof -
  let ?at = "summarizePrReviewBaseDimensionAttempts env s"
  have six: "length PR_REVIEW_BASE_DIMENSION_IDS = 6" by (simp add: PR_REVIEW_BASE_DIMENSION_IDS_def)
  note rej = assms(1) [unfolded tierLConsolidationRejection_def Let_def rejections_None]
  have low: "4 \<le> fst (tierLBackingLaneCount s lanes (da_dedicatedSuccessful ?at))"
    using rej by (simp add: PR_REVIEW_TIER_L_CONSOLIDATED_LANE_FLOOR_def PR_REVIEW_BASE_LANE_FLOOR_M_def)
  have whole: "owned_length lane < 6" if "lane \<in> set lanes" "owned_length lane \<noteq> 1" for lane
    using rej that unfolding find_None_iff six by auto
  have gone: "d \<notin> set (da_successful ?at) \<and> d \<in> set (da_terminallyFailed ?at)"
    if "lane \<in> set lanes" "owned_length lane \<noteq> 1" "d \<in> set (owned_or_own lane)" "d \<noteq> []" for lane d
  proof -
    have "d \<in> set (filter (\<lambda>d. d \<noteq> []) (js_uniq (concat (map owned_or_own (filter (\<lambda>lane. owned_length lane \<noteq> 1) lanes)))))"
      using that by auto
    then show ?thesis using rej unfolding length_greater_0_conv not_not filter_empty_conv by blast
  qed
  moreover have "4 \<le> card ((set \<circ> a) ` set PR_REVIEW_BASE_DIMENSION_IDS)"
    using low backing_is_lower_bound [OF _ refl assms(2), of a] assms(3) by (meson order_trans)
  ultimately show ?thesis using whole gone by blast
qed

section \<open>Collecting batches keeps the budget spent\<close>

lemma split_on_plain: "c \<notin> set x \<Longrightarrow> split_on c x = [x]"
  by (induction x) auto

lemma split_on_first: "c \<notin> set x \<Longrightarrow> split_on c (x @ c # rest) = x # split_on c rest"
  by (induction x) auto

lemma split_join: "xs \<noteq> [] \<Longrightarrow> \<forall>x \<in> set xs. c \<notin> set x \<Longrightarrow> split_on c (js_join [c] xs) = xs"
  by (induction "[c]" xs rule: js_join.induct) (auto simp: split_on_plain split_on_first)

definition plain_dimensions :: "string list \<Rightarrow> bool" where
  "plain_dimensions ds = (\<forall>d \<in> set ds. d \<noteq> [] \<and> CHR ''|'' \<notin> set d)"

lemma decode_encode:
  assumes "plain_dimensions owned" "owned \<noteq> []"
  shows "decodeConsolidatedLaneKey (encodeConsolidatedLaneKey owned) = js_sort code_unit_compare (js_uniq owned)"
proof -
  let ?k = "js_sort code_unit_compare (js_uniq owned)"
  have "mset ?k = mset (js_uniq owned)" by (simp add: js_sort_simps)
  then have set: "set ?k = set owned" by (metis mset_eq_setD set_js_uniq)
  then have "?k \<noteq> []" using assms(2) by (metis set_empty)
  then have "split_on CHR ''|'' (encodeConsolidatedLaneKey owned) = ?k"
    unfolding encodeConsolidatedLaneKey_def using assms(1) set by (intro split_join) (auto simp: plain_dimensions_def)
  moreover have "filter (\<lambda>d. 0 < length d) ?k = ?k" using assms(1) set by (intro filter_True) (auto simp: plain_dimensions_def)
  ultimately show ?thesis by (simp add: decodeConsolidatedLaneKey_def)
qed

lemma considered_as_set:
  assumes "distinct xs"
  shows "map_option set (considered_set ded b xs) =
    (if card (set xs - {[]}) < 2 then None
     else if set xs - {[]} - (if b then set ded else {}) = {} then None
     else Some (set xs - {[]} - (if b then set ded else {})))"
proof -
  have fl: "set (filter (\<lambda>d. d \<noteq> []) xs) = set xs - {[]}" by auto
  then have len: "length (filter (\<lambda>d. d \<noteq> []) xs) = card (set xs - {[]})"
    using assms by (metis distinct_card distinct_filter)
  show ?thesis
  proof (cases b)
    case True
    have "set (filter (\<lambda>d. d \<notin> set ded) (filter (\<lambda>d. d \<noteq> []) xs)) = set xs - {[]} - set ded" by auto
    then show ?thesis using True len
      by (simp add: considered_set_def Let_def del: set_filter filter_filter flip: set_empty)
  next
    case False
    then show ?thesis using len fl
      by (simp add: considered_set_def Let_def del: set_filter filter_filter flip: set_empty)
  qed
qed

lemma backing_count:
  "fst (tierLBackingLaneCount r lanes ded) =
     length (filter (\<lambda>d. d \<notin> set (js_uniq (concat (consolidated_sets r lanes ded)))) PR_REVIEW_BASE_DIMENSION_IDS) +
     minimumConsolidatedLaneCover (consolidated_sets r lanes ded)"
  by (simp only: tierLBackingLaneCount_def Let_def fst_conv)

lemma backing_of_sets:
  assumes "set ` set (consolidated_sets s lanes ded) = set ` set (consolidated_sets t lanes ded)"
    and "\<forall>xs \<in> set (consolidated_sets s lanes ded). set xs \<subseteq> set PR_REVIEW_BASE_DIMENSION_IDS"
  shows "fst (tierLBackingLaneCount s lanes ded) = fst (tierLBackingLaneCount t lanes ded)"
proof -
  let ?A = "consolidated_sets s lanes ded" and ?B = "consolidated_sets t lanes ded"
  have un: "set (js_uniq (concat ?A)) = set (js_uniq (concat ?B))"
    using arg_cong [OF assms(1), of Union] by simp
  have "set (js_uniq (concat ?A)) \<subseteq> set PR_REVIEW_BASE_DIMENSION_IDS" using assms(2) by auto
  then have "card (set (js_uniq (concat ?A))) \<le> card (set PR_REVIEW_BASE_DIMENSION_IDS)" by (intro card_mono) auto
  moreover have "card (set PR_REVIEW_BASE_DIMENSION_IDS) = 6" by code_simp
  ultimately have six: "length (js_uniq (concat ?A)) \<le> 6" "length (js_uniq (concat ?B)) \<le> 6"
    using un by (metis distinct_card distinct_js_uniq)+
  have exact: "minimumConsolidatedLaneCover sets = cover_number (set ` set sets)"
    if small: "length (js_uniq (concat sets)) \<le> 6" for sets
  proof (cases "length (js_uniq (concat sets)) = 0")
    case True
    then show ?thesis
      using cover_number_universe [of sets] by (simp add: minimumConsolidatedLaneCover_def Let_def)
  next
    case False
    then show ?thesis
      using table_is_cover_number [of sets] small
      by (simp add: minimumConsolidatedLaneCover_def Let_def lane_masks_def MAX_COVER_UNIVERSE_BITS_def)
  qed
  show ?thesis by (simp only: backing_count un exact [OF six(1)] exact [OF six(2)] assms(1))
qed

text \<open>The lanes on record: those of the batches, and those of the ledger.\<close>

definition recorded_lanes :: "('a, 'b) gate_state_scheme \<Rightarrow> string list set" where
  "recorded_lanes s = lane_dimensions ` set (concat (map bd_lanes (dispatches_of s))) \<union>
     decodeConsolidatedLaneKey ` set (option_or (gs_prReviewRetiredConsolidatedLanes s) [])"

lemma map_filter_family: "set ` set (List.map_filter f xs) = {S. \<exists>x \<in> set xs. map_option set (f x) = Some S}"
  by (force simp: map_filter_member)

lemma consolidated_family:
  "set ` set (consolidated_sets s lanes ded) =
     {S. \<exists>owned \<in> recorded_lanes s. map_option set (considered_set ded True owned) = Some S} \<union>
     {S. \<exists>l \<in> set lanes. map_option set (considered_set ded False (lane_dimensions l)) = Some S}"
  unfolding consolidated_sets_def recorded_lanes_def set_append image_Un map_filter_family comp_def by blast

text \<open>The ledger after a prune: what it held, and the keys of the dropped consolidated lanes.\<close>

definition dropped_lanes :: "base_dispatch list \<Rightarrow> base_dispatch list \<Rightarrow> base_lane list" where
  "dropped_lanes bs surviving =
     filter (\<lambda>l. 2 \<le> length (js_uniq (lane_dimensions l)))
       (concat (map bd_lanes (filter (\<lambda>b. bd_batchId b \<notin> set (map bd_batchId surviving)) bs)))"

lemma dropped_lanes_Cons:
  "dropped_lanes (b # bs) surviving =
     (if bd_batchId b \<in> set (map bd_batchId surviving) then []
      else filter (\<lambda>l. 2 \<le> length (js_uniq (lane_dimensions l))) (bd_lanes b)) @ dropped_lanes bs surviving"
  by (simp add: dropped_lanes_def)

definition lane_key :: "base_lane \<Rightarrow> string" where
  "lane_key l = encodeConsolidatedLaneKey (lane_dimensions l)"

lemma fold_retire:
  "set (fold retire_lane ls r) = set r \<union> lane_key ` set (filter (\<lambda>l. 2 \<le> length (js_uniq (lane_dimensions l))) ls)"
  by (induction ls arbitrary: r) (auto simp: retire_lane_def lane_key_def)

lemma set_retired_lanes:
  "set (retired_lanes bs surviving ledger) = set ledger \<union> lane_key ` set (dropped_lanes bs surviving)"
proof -
  have "set (fold (\<lambda>b. if bd_batchId b \<in> set (map bd_batchId surviving) then (\<lambda>r. r) else fold retire_lane (bd_lanes b)) bs r) =
      set r \<union> lane_key ` set (dropped_lanes bs surviving)" for r
  proof (induction bs arbitrary: r)
    case (Cons b bs)
    then show ?case unfolding dropped_lanes_Cons by (simp add: fold_retire image_Un Un_assoc del: set_filter)
  qed (simp add: dropped_lanes_def)
  then show ?thesis by (simp add: retired_lanes_def)
qed

lemma considered_key:
  assumes d: "distinct (lane_dimensions l)" and p: "set (lane_dimensions l) \<subseteq> set PR_REVIEW_BASE_DIMENSION_IDS"
  shows "map_option set (considered_set ded True (decodeConsolidatedLaneKey (lane_key l))) =
    map_option set (considered_set ded True (lane_dimensions l))"
proof -
  let ?k = "js_sort code_unit_compare (js_uniq (lane_dimensions l))"
  have "plain_dimensions PR_REVIEW_BASE_DIMENSION_IDS" by code_simp
  then have plain: "plain_dimensions (lane_dimensions l)" using p by (auto simp: plain_dimensions_def)
  have ne: "lane_dimensions l \<noteq> []" by (simp add: lane_dimensions_def split: option.split)
  have ms: "mset ?k = mset (lane_dimensions l)" using d by (simp add: js_sort_simps)
  then have sd: "set ?k = set (lane_dimensions l)" by (rule mset_eq_setD)
  have dd: "distinct ?k" using mset_eq_imp_distinct_iff [OF ms] d by blast
  show ?thesis
    unfolding lane_key_def decode_encode [OF plain ne] by (simp only: considered_as_set [OF dd] considered_as_set [OF d] sd)
qed

lemma considered_short:
  assumes "distinct (lane_dimensions l)" "\<not> 2 \<le> length (js_uniq (lane_dimensions l))"
  shows "considered_set ded True (lane_dimensions l) = None"
proof -
  have "length (lane_dimensions l) < 2" using assms by simp
  then have "length (filter (\<lambda>d. d \<noteq> []) (lane_dimensions l)) < 2" by (rule le_less_trans [OF length_filter_le])
  then show ?thesis by (simp add: considered_set_def Let_def)
qed

text \<open>What a prune leaves: the surviving batches, and the ledger with the keys of the dropped lanes.\<close>

lemma prune_result:
  assumes "prune_base_batches env s = Some t"
  shows "dispatches_of t = surviving_base env (dispatches_of s)"
    and "set (option_or (gs_prReviewRetiredConsolidatedLanes t) []) =
      set (option_or (gs_prReviewRetiredConsolidatedLanes s) []) \<union>
      lane_key ` set (dropped_lanes (dispatches_of s) (surviving_base env (dispatches_of s)))"
proof -
  let ?sv = "surviving_base env (dispatches_of s)"
  let ?ret = "retired_lanes (dispatches_of s) ?sv (option_or (gs_prReviewRetiredConsolidatedLanes s) [])"
  have ne: "rv_prReviewBaseDispatches s \<noteq> None"
  proof
    assume "rv_prReviewBaseDispatches s = None"
    then have "dispatches_of s = []" by (simp add: dispatches_of_def option_or_def)
    then show False using assms by (simp add: prune_base_batches_def surviving_base_def)
  qed
  have t: "t = s\<lparr>rv_prReviewBaseDispatches := map_option (\<lambda>_. ?sv) (rv_prReviewBaseDispatches s),
      gs_prReviewRetiredConsolidatedLanes := (if 0 < length ?ret then Some ?ret else None)\<rparr>"
    using assms by (auto simp: prune_base_batches_def Let_def split: if_splits)
  then show "dispatches_of t = ?sv" using ne by (auto simp: dispatches_of_def option_or_def)
  have "set (option_or (gs_prReviewRetiredConsolidatedLanes t) []) = set ?ret" by (simp add: t option_or_def)
  then show "set (option_or (gs_prReviewRetiredConsolidatedLanes t) []) =
      set (option_or (gs_prReviewRetiredConsolidatedLanes s) []) \<union> lane_key ` set (dropped_lanes (dispatches_of s) ?sv)"
    unfolding set_retired_lanes .
qed

lemma surviving_subset: "set (surviving_base env bs) \<subseteq> set bs"
  by (auto simp: surviving_base_def Let_def)

lemma lanes_after_drop:
  assumes "distinct (map bd_batchId bs)" "set sv \<subseteq> set bs"
  shows "set (concat (map bd_lanes bs)) =
    set (concat (map bd_lanes sv)) \<union> set (concat (map bd_lanes (filter (\<lambda>b. bd_batchId b \<notin> set (map bd_batchId sv)) bs)))"
proof -
  have "bd_batchId b \<in> set (map bd_batchId sv) \<longleftrightarrow> b \<in> set sv" if "b \<in> set bs" for b
    using assms that by (auto simp: distinct_map inj_on_def)
  then have "set (filter (\<lambda>b. bd_batchId b \<notin> set (map bd_batchId sv)) bs) = set bs - set sv" by auto
  then show ?thesis using assms(2) by (simp only: set_concat set_map) blast
qed

text \<open>The ledger stands for the dropped lanes: the same sets are considered before and after.\<close>

lemma same_families:
  assumes "prune_base_batches env s = Some t" "distinct (map bd_batchId (dispatches_of s))"
    and lanes: "\<forall>b \<in> set (dispatches_of s). \<forall>l \<in> set (bd_lanes b).
      distinct (lane_dimensions l) \<and> set (lane_dimensions l) \<subseteq> set PR_REVIEW_BASE_DIMENSION_IDS"
  shows "{S. \<exists>owned \<in> recorded_lanes s. map_option set (considered_set ded True owned) = Some S} =
    {S. \<exists>owned \<in> recorded_lanes t. map_option set (considered_set ded True owned) = Some S}"
proof -
  let ?bs = "dispatches_of s" and ?sv = "surviving_base env (dispatches_of s)"
  let ?f = "\<lambda>owned. map_option set (considered_set ded True owned)"
  let ?kept = "lane_dimensions ` set (concat (map bd_lanes ?sv)) \<union>
    decodeConsolidatedLaneKey ` set (option_or (gs_prReviewRetiredConsolidatedLanes s) [])"
  let ?gone = "concat (map bd_lanes (filter (\<lambda>b. bd_batchId b \<notin> set (map bd_batchId ?sv)) ?bs))"
  let ?big = "dropped_lanes ?bs ?sv"
  note all = lanes_after_drop [OF assms(2) surviving_subset, of env]
  have rec_s: "recorded_lanes s = ?kept \<union> lane_dimensions ` set ?gone"
    unfolding recorded_lanes_def all by blast
  have rec_t: "recorded_lanes t = ?kept \<union> (\<lambda>l. decodeConsolidatedLaneKey (lane_key l)) ` set ?big"
    unfolding recorded_lanes_def prune_result [OF assms(1)] by blast
  have big: "l \<in> set ?big \<longleftrightarrow> l \<in> set ?gone \<and> 2 \<le> length (js_uniq (lane_dimensions l))" for l
    unfolding dropped_lanes_def by auto
  have ok: "distinct (lane_dimensions l)" "set (lane_dimensions l) \<subseteq> set PR_REVIEW_BASE_DIMENSION_IDS"
    if "l \<in> set ?gone" for l using lanes that by auto
  have key: "?f (decodeConsolidatedLaneKey (lane_key l)) = ?f (lane_dimensions l)" if "l \<in> set ?gone" for l
    using ok [OF that] by (rule considered_key)
  have short: "?f (lane_dimensions l) = None" if "l \<in> set ?gone" "l \<notin> set ?big" for l
    using considered_short [OF ok(1) [OF that(1)]] that big by simp
  have "{S. \<exists>l \<in> set ?gone. ?f (lane_dimensions l) = Some S} =
      {S. \<exists>l \<in> set ?big. ?f (decodeConsolidatedLaneKey (lane_key l)) = Some S}"
  proof (intro Collect_cong iffI; elim bexE)
    fix S l assume l: "l \<in> set ?gone" "?f (lane_dimensions l) = Some S"
    then have "l \<in> set ?big" using short [OF l(1)] by (metis option.distinct(1))
    then show "\<exists>l \<in> set ?big. ?f (decodeConsolidatedLaneKey (lane_key l)) = Some S" using key [OF l(1)] l(2) by metis
  next
    fix S l assume l: "l \<in> set ?big" "?f (decodeConsolidatedLaneKey (lane_key l)) = Some S"
    then show "\<exists>l \<in> set ?gone. ?f (lane_dimensions l) = Some S" using key big by metis
  qed
  then show ?thesis unfolding rec_s rec_t bex_Un bex_simps(7) Collect_disj_eq by (simp only:)
qed

text \<open>C20: Dropping base batches gives no consolidation budget back.  If the recorded lanes own distinct base dimensions and batch ids
  are not reused, then after a prune, as before it, a tier-L batch is measured against the same number of backing lanes,
  since the ledger stands for the consolidated lanes of the dropped batches; the newest batch is kept, and
  so is every batch with a lane that succeeded in all its dimensions.\<close>

theorem prune_keeps_backing:
  assumes "prune_base_batches env s = Some t"
    and "distinct (map bd_batchId (dispatches_of s))"
    and "\<forall>b \<in> set (dispatches_of s). \<forall>l \<in> set (bd_lanes b).
      distinct (lane_dimensions l) \<and> set (lane_dimensions l) \<subseteq> set PR_REVIEW_BASE_DIMENSION_IDS"
    and "\<forall>xs \<in> set (consolidated_sets s lanes ded). set xs \<subseteq> set PR_REVIEW_BASE_DIMENSION_IDS"
  shows "fst (tierLBackingLaneCount t lanes ded) = fst (tierLBackingLaneCount s lanes ded) \<and>
    last_of (dispatches_of t) = last_of (dispatches_of s) \<and>
    (\<forall>b \<in> set (dispatches_of s). list_ex (fully_successful_lane (ce_successful env b)) (bd_lanes b) \<longrightarrow>
       b \<in> set (dispatches_of t))"
proof -
  let ?sv = "surviving_base env (dispatches_of s)"
  have "set ` set (consolidated_sets s lanes ded) = set ` set (consolidated_sets t lanes ded)"
    unfolding consolidated_family same_families [OF assms(1-3)] ..
  then have "fst (tierLBackingLaneCount s lanes ded) = fst (tierLBackingLaneCount t lanes ded)"
    using assms(4) by (rule backing_of_sets)
  moreover have "last_of ?sv = last_of (dispatches_of s)"
  proof (cases "dispatches_of s" rule: rev_cases)
    case (snoc ys y)
    then show ?thesis by (simp add: surviving_base_def Let_def)
  qed (simp add: surviving_base_def)
  moreover have "b \<in> set ?sv" if "b \<in> set (dispatches_of s)" "list_ex (fully_successful_lane (ce_successful env b)) (bd_lanes b)" for b
    using that by (auto simp: surviving_base_def Let_def)
  ultimately show ?thesis unfolding prune_result(1) [OF assms(1)] by auto
qed

section \<open>Evaluated floors\<close>

definition floor_lane :: "string \<Rightarrow> string list \<Rightarrow> base_lane" where
  "floor_lane laneId owned = \<lparr>bl_laneId = laneId, bl_workflowLane = hd owned, bl_ownedWorkflowLanes = Some owned\<rparr>"

text \<open>A consolidated lane of the first batch failed, the second batch covered one dimension and lost another.\<close>

definition floor_dispatches :: "base_dispatch list" where
  "floor_dispatches =
     [\<lparr>bd_batchId = ''b1'', bd_lanes = [floor_lane ''l1'' [''correctness-state'', ''tests-falsifiability'']], bd_validatedAt = ''t''\<rparr>,
      \<lparr>bd_batchId = ''b2'', bd_lanes = [floor_lane ''l2'' [''intent-architecture''], floor_lane ''l3'' [''security-trust'']],
       bd_validatedAt = ''u''\<rparr>]"

definition floor_state :: "unit gate_state" where
  "floor_state = review_state.extend (review_state.truncate (review_example\<lparr>rv_prReviewBaseDispatches := Some floor_dispatches\<rparr>))
     \<lparr>gs_mode = ''pr_review'', gs_prReviewDepthTier = Some ''L'', gs_prReviewRetiredConsolidatedLanes = None\<rparr>"

definition floor_env :: coverage_env where
  "floor_env =
     \<lparr>ce_records = (\<lambda>b. if b = ''b1'' then Some [cov_record_example ''l1'' ''error'']
        else Some [cov_record_example ''l2'' ''completed'', cov_record_example ''l3'' ''error'']),
      ce_successful = (\<lambda>b. if bd_batchId b = ''b1'' then [] else [''intent-architecture'']),
      ce_semanticallyValid = (\<lambda>_. [''l2'']), ce_unresolved = (\<lambda>_ _ _. None)\<rparr>"

definition floor_lanes :: "base_lane list" where
  "floor_lanes = [floor_lane ''n1'' [''correctness-state'', ''security-trust''], floor_lane ''n2'' [''tests-falsifiability'']]"

definition floor_assignment :: "string \<Rightarrow> string list" where
  "floor_assignment d = (if d \<in> {''correctness-state'', ''security-trust''} then [''correctness-state'', ''security-trust''] else [d])"

lemma floor_dedicated: "da_dedicatedSuccessful (summarizePrReviewBaseDimensionAttempts floor_env floor_state) = [''intent-architecture'']"
  by code_simp

lemma floor_within:
  "\<forall>xs \<in> set (consolidated_sets floor_state floor_lanes [''intent-architecture'']). set xs \<subseteq> set PR_REVIEW_BASE_DIMENSION_IDS"
  by code_simp

lemma floor_producing:
  "\<forall>d \<in> set PR_REVIEW_BASE_DIMENSION_IDS.
     producing floor_state floor_lanes [''intent-architecture''] d (floor_assignment d)"
proof -
  have "floor_lane ''n1'' [''correctness-state'', ''security-trust''] \<in> set floor_lanes" by (simp add: floor_lanes_def)
  then have "lane_dimensions (floor_lane ''n1'' [''correctness-state'', ''security-trust'']) \<in> set (map lane_dimensions floor_lanes)"
    by (simp only: set_map imageI)
  then have "[''correctness-state'', ''security-trust''] \<in> set (map lane_dimensions floor_lanes)"
    by (simp only: lane_dimensions_def floor_lane_def base_lane.select_convs option.case if_False list.distinct)
  then show ?thesis by (auto simp: producing_def floor_assignment_def)
qed

theorem tier_l_floor_holds_witness: "4 \<le> card ((set \<circ> floor_assignment) ` set PR_REVIEW_BASE_DIMENSION_IDS)"
proof -
  have "tierLConsolidationRejection floor_env floor_state floor_lanes = None" by code_simp
  then show ?thesis
    using tier_l_floor_holds [of floor_env floor_state floor_lanes floor_assignment] floor_within floor_producing
    unfolding floor_dedicated by blast
qed

theorem prune_keeps_backing_witness:
  "map_option (\<lambda>t. fst (tierLBackingLaneCount t floor_lanes [''intent-architecture'']))
     (prune_base_batches floor_env floor_state) = Some 5"
proof -
  have "prune_base_batches floor_env floor_state \<noteq> None" by code_simp
  then obtain t where t: "prune_base_batches floor_env floor_state = Some t" by blast
  have ds: "dispatches_of floor_state = floor_dispatches" by code_simp
  have ids: "distinct (map bd_batchId (dispatches_of floor_state))" unfolding ds by code_simp
  have "list_all (\<lambda>b. list_all (\<lambda>l. distinct (lane_dimensions l) \<and>
      list_all (\<lambda>d. d \<in> set PR_REVIEW_BASE_DIMENSION_IDS) (lane_dimensions l)) (bd_lanes b)) floor_dispatches" by code_simp
  then have lanes: "\<forall>b \<in> set (dispatches_of floor_state). \<forall>l \<in> set (bd_lanes b).
      distinct (lane_dimensions l) \<and> set (lane_dimensions l) \<subseteq> set PR_REVIEW_BASE_DIMENSION_IDS"
    unfolding ds list_all_iff subset_iff by blast
  have "fst (tierLBackingLaneCount floor_state floor_lanes [''intent-architecture'']) = 5" by code_simp
  then show ?thesis using prune_keeps_backing [OF t ids lanes floor_within] t by simp
qed

theorem cover_is_minimum_witness:
  "cover_number (set ` set [[''a'', ''b''], [''b'', ''c''], [''c'', ''a''], [''b'']]) = 2"
proof -
  have "length (js_uniq (concat [[''a'', ''b''], [''b'', ''c''], [''c'', ''a''], [''b'']])) = 3" by code_simp
  moreover have "minimumConsolidatedLaneCover [[''a'', ''b''], [''b'', ''c''], [''c'', ''a''], [''b'']] = 2" by code_simp
  ultimately show ?thesis
    using cover_is_minimum [of "[[''a'', ''b''], [''b'', ''c''], [''c'', ''a''], [''b'']]"]
    unfolding MAX_COVER_UNIVERSE_BITS_def by simp
qed

end
