(* ===== verification/Spec2Isabelle.thy ===== *)
theory Spec2Isabelle
  imports Lane_Planner_Facts Learning_Facts Next_Wave_Facts Spawn_Facts Review_Circuit_Facts Automation_Queue_Facts
    Circuit_Breaker_Facts Task_Workflow_Facts Session_Workflow_Facts
    Review_Reducer_Facts Finding_Policy_Facts Review_Coverage_Facts Lane_Floor_Facts
begin

text \<open>
  A verification development for the planning, execution and review core of opencode-swarm: how the tasks of a phase are
  partitioned, how an epic chooses, freezes, dispatches and closes its waves and remembers them in its record and in git; how a
  single task earns its completion; how a pull-request review admits its lanes, survives failing providers, settles its
  coverage and arrives at a verdict; and the queue and the circuits that run beneath.

  \<^bold>\<open>The program's parts and how they interact.\<close>  A plan is a list of phases, a phase a list of tasks with
  dependencies and declared files.  Lean Turbo (\<^verbatim>\<open>src/turbo/lean\<close>) sorts the tasks of a phase and puts those whose files do not
  conflict into lanes.  An epic (\<^verbatim>\<open>src/epic\<close>) runs the phases one after the other, each as a sequence of waves: the component
  planner builds the conflict graph of the open tasks from their files, the learned statistics and the co-change history,
  partitions it into components and chooses the next wave; the wave selection adds the evidence that dependencies are
  completed and committed; one step of \<open>epic_next_wave\<close> closes the finished wave, computes its outcomes from git and the ledger,
  commits them to the lifecycle row with a revision check and issues the next wave; the dispatch gate admits coders for the active wave only.
  Each task has an evidence file (\<^verbatim>\<open>src/gate-evidence.ts\<close>), changed only by transitions: a coder's mutation, pre-check, reviews, council,
  completion.  A session (\<^verbatim>\<open>src/state.ts\<close>) keeps a view of these workflows in memory, with the files attributed to each task; other modules
  write durable states into that view, and after a restart it is rebuilt from evidence and plan.  A dispatch that fails
  to spawn again and again is stopped by its circuit (\<^verbatim>\<open>src/dispatch\<close>).  A pull-request review (\<^verbatim>\<open>src/pr-review\<close>,
  \<^verbatim>\<open>src/hooks/pr-workflow-gate.ts\<close>) launches batches of lanes over six base dimensions: the gate checks the lanes of a batch, the
  reducer is the only one to change the review's state, a circuit stops launches when failures of one provider class correlate, the
  settlement says of each dimension what became of it, and the finding policy merges the findings and bounds the verdict of the
  report.  Background work runs through a queue with retries and a circuit breaker (\<^verbatim>\<open>src/background\<close>).

  \<^bold>\<open>Theories, in the order the code has the parts.\<close>
  \<^item> \<open>Prelude\<close>, \<open>Js_String\<close>: JavaScript maps, arrays, sorting and strings, with the lemmas the components share.
  \<^item> \<open>Paths\<close>: \<^verbatim>\<open>utils/path.ts\<close> and \<^verbatim>\<open>turbo/lean/conflicts.ts\<close>; the platform's path functions are the record \<open>runtime\<close>.
  \<^item> \<open>Partition\<close>, \<open>Partition_Facts\<close>: \<^verbatim>\<open>partition-common.ts\<close> and \<^verbatim>\<open>risk.ts\<close>, scope resolution, risk, Kahn's sort.
  \<^item> \<open>Lane_Planner\<close>, \<open>Lane_Planner_Facts\<close>: \<^verbatim>\<open>planner.ts\<close>.
  \<^item> \<open>Cochange\<close>, \<open>Cochange_Index\<close>: \<^verbatim>\<open>cochange-conflict.ts\<close> and the indexed version of its rule in \<^verbatim>\<open>components.ts\<close>.
  \<^item> \<open>Learning\<close>, \<open>Learning_Facts\<close>: \<^verbatim>\<open>learning.ts\<close>, exact rationals for the decayed masses.
  \<^item> \<open>Union_Find\<close>, \<open>Components\<close>, \<open>Graph_Facts\<close>, \<open>Component_Facts\<close>, \<open>Wave_Facts\<close>, \<open>Wave_Properties\<close>: \<^verbatim>\<open>components.ts\<close>.
  \<^item> \<open>Parallel_Verdict\<close>, \<open>Serial_Order\<close>: \<^verbatim>\<open>plan/parallel-verdict.ts\<close>.
  \<^item> \<open>Wave_Select\<close>, \<open>Wave_Selection_Facts\<close>: \<^verbatim>\<open>wave-select.ts\<close>.
  \<^item> \<open>Gate_Policy\<close>, \<open>Gate_Policy_Facts\<close>: \<^verbatim>\<open>gate-policy.ts\<close>, and the check before a wave is issued.
  \<^item> \<open>Transition\<close>: the locales of the machines with an invariant (guarded or not) and of the monotone machines.  The record's close
    requests, the spawn circuits, the task workflow, the session, the review circuit, the reducer, the queue and the breaker interpret them.
  \<^item> \<open>Epic_Record\<close>: the lifecycle record, every mutation committed to it and \<open>updateEpicRecord\<close> of \<^verbatim>\<open>lifecycle.ts\<close>.
  \<^item> \<open>Epic_Run\<close>, \<open>Epic_Properties\<close>: all histories of a record as an inductive predicate, its invariant, what later records keep.
  \<^item> \<open>Commit_Markers\<close>, \<open>Commit_Marker_Facts\<close>, \<open>Ref_Sync\<close>: \<^verbatim>\<open>plan-key.ts\<close>, \<^verbatim>\<open>markers.ts\<close>, \<^verbatim>\<open>git/safe-ref.ts\<close>; git is the record \<open>git_env\<close>,
    what is relied on is the locale \<open>ref_store\<close>, interpreted on a model of git's ref commands.
  \<^item> \<open>Wave_Close\<close>: \<^verbatim>\<open>wave-close.ts\<close>, \<^verbatim>\<open>merge-epoch.ts\<close> and attribution paths.
  \<^item> \<open>Residue\<close>: \<^verbatim>\<open>residue-commit.ts\<close> and the residue pass before a close.
  \<^item> \<open>Next_Wave\<close>, \<open>Next_Wave_Facts\<close>: \<^verbatim>\<open>next-wave.ts\<close>, one step of \<open>epic_next_wave\<close> with its writes.
  \<^item> \<open>Task_Workflow\<close>, \<open>Task_Workflow_Facts\<close>: \<^verbatim>\<open>gate-evidence.ts\<close>, the reducer of a task's evidence, its schema, the fence of the
    write-ahead logs (\<^verbatim>\<open>workflow/workflow-wal-schema.ts\<close>) and the transaction; a run is a fold of \<open>task_step\<close> over arbitrary inputs.
  \<^item> \<open>Session_Workflow\<close>, \<open>Session_Workflow_Facts\<close>: the session of \<^verbatim>\<open>state.ts\<close> (attributions, states, Stage B, route evidence, rehydration), its
    snapshot (\<^verbatim>\<open>session/snapshot-reader.ts\<close>, \<^verbatim>\<open>snapshot-writer.ts\<close>) and the modules that write its states directly; a run is a
    fold of \<open>session_step\<close> over operations of all of these, restarts included.
  \<^item> \<open>Spawn_Circuit\<close>, \<open>Spawn_Facts\<close>: \<^verbatim>\<open>dispatch/spawn-circuit.ts\<close>.
  \<^item> \<open>Review_Circuit\<close>, \<open>Review_Circuit_Facts\<close>: \<^verbatim>\<open>pr-review/circuit.ts\<close>.
  \<^item> \<open>Review_Reducer\<close>, \<open>Review_Reducer_Facts\<close>: \<^verbatim>\<open>pr-review/reducer.ts\<close> with its types, every event, effect and rejection.
  \<^item> \<open>Finding_Policy\<close>, \<open>Finding_Policy_Facts\<close>: \<^verbatim>\<open>pr-review/finding-policy.ts\<close> and the verdict matrix of \<^verbatim>\<open>completion.ts\<close>.
  \<^item> \<open>Review_Coverage\<close>, \<open>Review_Coverage_Facts\<close>: the attempts per dimension and the settlement of \<^verbatim>\<open>pr-review/completion.ts\<close>.
  \<^item> \<open>Lane_Floor\<close>, \<open>Lane_Floor_Facts\<close>: of \<^verbatim>\<open>hooks/pr-workflow-gate.ts\<close> the lane normalization, the minimum cover, the tier-L check and the
    collection of base batches with its ledger.
  \<^item> \<open>Automation_Queue\<close>, \<open>Circuit_Breaker\<close> and their facts: \<^verbatim>\<open>background/queue.ts\<close> and \<^verbatim>\<open>background/circuit-breaker.ts\<close>.

  \<^bold>\<open>What the lemmas show.\<close>  The \<open>_Facts\<close> and \<open>_Properties\<close> theories carry the results.
  \<^item> Planning: the sort is topological; lanes and waves hold only tasks whose scopes do not conflict, checked by three
    independent implementations that are proved to agree; the components are the connected components of the conflict graph.
  \<^item> Epics: the record keeps its invariant in every interleaving of its writers, each of which may decide on an outdated
    snapshot; the step of \<open>epic_next_wave\<close> refines that life of the record, dispatches only ready, disjoint tasks of the
    current phase and closes only settled waves; the refs hold the record's commits and no other ref is touched.
  \<^item> Tasks: a completion rests on the gates passed since the last change or on a proof from the settlement log; a stale
    generation is refused; the schema of the evidence stops no transition but one whose own input violates it.
  \<^item> Sessions: in every run, with the outside writers, rehydrations and restarts in it, live attributions are kept within their bound, and a
    task that shows complete was advanced there, copied from a complete durable workflow, or rehydrated as such; a restart keeps
    the attributions and rebuilds the states.
  \<^item> Reviews: circuit and reducer refine small machines, an open circuit recovers and history does not reopen it; each dimension is
    settled with the state its evidence determines; the cover is the minimum and the tier-L floor holds; synthesis weakens no finding, and
    policy and reducer enforce the same verdict matrix, so an approval means that all dimensions are covered.
  \<^item> Background: an item of the queue settles at most once; the spawn circuits refine one machine per action.

  \<^bold>\<open>Bounds, fuel, partiality.\<close>  The union-find loops are partial functions whose termination is proved from the parent
  order; everything above them returns an option that is proved to be \<open>Some\<close>.  \<open>dry_loop\<close>, the loop of the dry run, carries
  fuel, one more than the tasks that remain; every round issues at least one of them, and \<open>dryRunEpicPhase_complete\<close> shows that it never
  runs out.  The five attempts of \<open>updateEpicRecord\<close>, the 64 tasks of the parallel verdict, the 128 attribution slots, the 256 findings,
  the 12 dimensions of the exact cover and the limits of the circuits' memories are the code's own bounds.  Masses, scores and
  similarities are rationals or integers where the code has doubles; counters and times are integers without the limit of a double.

  \<^bold>\<open>Not modelled.\<close>  Prose for the user, logging and telemetry; the SQLite row, the sentinel and the JSON schemas around the record; SHA-256 plan keys;
  the plumbing of \<open>commitPaths\<close>; the learning update after a close is modelled as the pure functions of \<open>Learning\<close>, not as a
  write to its store.  Of a session only the fields named in \<open>agent_session\<close>: not the windows, guardrail counters and delegation chains, nor the
  generation that guards a council dispatch in flight; which of the outside writers writes when is left open, only what each can write
  is fixed.  Of the review the store of delegations and the artifacts are an environment read once per derivation, and of
  \<^verbatim>\<open>pr-workflow-gate.ts\<close> the staged admission, the collection of validation batches and the rest of the gate are not modelled.
  Other hooks, commands and tools, memory and knowledge stores, language support, sandboxing, scanners, services
  and agents are glue, I/O or prompts around this core.
\<close>

end
